(* ===== verification/Prelude.thy ===== *)
theory Prelude
  imports Main "HOL-Library.Word" "HOL-Library.Multiset"
begin

text \<open>
  What every component of the development shares: the error values of the Rust code and the
  \<open>?\<close> operator, indexing and assignment into vectors with their panics, and generic lemmas on
  lists and words.

  A call that can fail returns a value of type \<open>'a res\<close>: \<open>Inl e\<close> for a failure, \<open>Inr x\<close> for a
  result. \<open>Panic\<close> is an \<open>assert!\<close>, an \<open>unwrap\<close> or an index out of range, \<open>Report\<close> an
  \<open>eyre\<close> error raised by the code itself (\<open>ensure!\<close>), and \<open>NetworkError\<close> an error of the
  transport. \<open>OutOfFuel\<close> is no error of the code: a loop modelled with fuel returns it where the
  fuel does not reach, and the theorems about such a loop show that it does.
\<close>

unbundle bit_operations_syntax

section \<open>Errors and the question-mark operator\<close>

datatype error = Panic string | Report string | NetworkError | OutOfFuel

type_synonym 'a res = "error + 'a"

definition bindE :: "'a res \<Rightarrow> ('a \<Rightarrow> 'b res) \<Rightarrow> 'b res" where
  "bindE m f = (case m of Inl e \<Rightarrow> Inl e | Inr x \<Rightarrow> f x)"

definition checkE :: "bool \<Rightarrow> error \<Rightarrow> 'a res \<Rightarrow> 'a res" where
  "checkE c e k = (if c then k else Inl e)"

text \<open>\<open>unwrap\<close> and \<open>expect\<close> on a \<open>Result\<close>: any error becomes a panic.\<close>

definition unwrapE :: "'a res \<Rightarrow> 'a res" where
  "unwrapE m = (case m of Inl e \<Rightarrow> Inl (Panic ''unwrap'') | Inr x \<Rightarrow> Inr x)"

named_theorems res_simps \<open>the equations of the error monad\<close>

lemma bindE_simps [simp, res_simps]:
  "bindE (Inl e) f = Inl e"
  "bindE (Inr x) f = f x"
  by (simp_all add: bindE_def)

lemma bindE_eq_Inr: "bindE m f = Inr y \<longleftrightarrow> (\<exists>x. m = Inr x \<and> f x = Inr y)"
  by (cases m) auto

lemma bindE_eq_Inl: "bindE m f = Inl e \<longleftrightarrow> m = Inl e \<or> (\<exists>x. m = Inr x \<and> f x = Inl e)"
  by (cases m) auto

lemma bindE_assoc: "bindE (bindE m f) g = bindE m (\<lambda>x. bindE (f x) g)"
  by (cases m) simp_all

lemma bindE_Inr [simp]: "bindE m Inr = m"
  by (cases m) simp_all

lemma bindE_cong [fundef_cong]:
  "m = m' \<Longrightarrow> (\<And>x. m' = Inr x \<Longrightarrow> f x = f' x) \<Longrightarrow> bindE m f = bindE m' f'"
  by (cases m') simp_all

lemma checkE_True [simp, res_simps]: "c \<Longrightarrow> checkE c e k = k"
  and checkE_False [simp, res_simps]: "\<not> c \<Longrightarrow> checkE c e k = Inl e"
  by (simp_all add: checkE_def)

lemma checkE_eq_Inr: "checkE c e k = Inr y \<longleftrightarrow> c \<and> k = Inr y"
  by (simp add: checkE_def)

lemma checkE_cong [fundef_cong]:
  "c = c' \<Longrightarrow> e = e' \<Longrightarrow> (c' \<Longrightarrow> k = k') \<Longrightarrow> checkE c e k = checkE c' e' k'"
  by (simp add: checkE_def)

lemma unwrapE_simps [simp, res_simps]:
  "unwrapE (Inr x) = Inr x" "unwrapE (Inl e) = Inl (Panic ''unwrap'')"
  by (simp_all add: unwrapE_def)

lemma unwrapE_eq_Inr [simp]: "unwrapE m = Inr x \<longleftrightarrow> m = Inr x"
  by (cases m) simp_all

section \<open>Outcomes\<close>

text \<open>
  \<open>settles E Q r\<close>: the run \<open>r\<close> either stops with an error that \<open>E\<close> accounts for, or returns a
  value with \<open>Q\<close>.
\<close>

definition settles :: "(error \<Rightarrow> bool) \<Rightarrow> ('a \<Rightarrow> bool) \<Rightarrow> 'a res \<Rightarrow> bool" where
  "settles E Q r \<longleftrightarrow> (case r of Inl e \<Rightarrow> E e | Inr x \<Rightarrow> Q x)"

lemma settles_simps [simp]: "settles E Q (Inl e) \<longleftrightarrow> E e" "settles E Q (Inr x) \<longleftrightarrow> Q x"
  by (simp_all add: settles_def)

lemma settlesI: "(\<And>e. r = Inl e \<Longrightarrow> E e) \<Longrightarrow> (\<And>x. r = Inr x \<Longrightarrow> Q x) \<Longrightarrow> settles E Q r"
  by (cases r) simp_all

lemma settles_cases:
  assumes "settles E Q r"
  obtains (fails) e where "r = Inl e" and "E e" | (returns) x where "r = Inr x" and "Q x"
  using assms by (cases r) auto

lemma settles_mono:
  "settles E Q r \<Longrightarrow> (\<And>e. E e \<Longrightarrow> E' e) \<Longrightarrow> (\<And>x. Q x \<Longrightarrow> Q' x) \<Longrightarrow> settles E' Q' r"
  by (cases r) simp_all

lemma settles_bindE:
  "settles E P r \<Longrightarrow> (\<And>x. r = Inr x \<Longrightarrow> P x \<Longrightarrow> settles E Q (f x)) \<Longrightarrow> settles E Q (bindE r f)"
  by (cases r) simp_all

lemma settles_Inr: "settles (\<lambda>e. False) Q r \<Longrightarrow> \<exists>x. r = Inr x \<and> Q x"
  by (cases r) simp_all

section \<open>Loops that can fail\<close>

fun foldE :: "('a \<Rightarrow> 's \<Rightarrow> 's res) \<Rightarrow> 'a list \<Rightarrow> 's \<Rightarrow> 's res" where
  "foldE f [] s = Inr s"
| "foldE f (x # xs) s = bindE (f x s) (\<lambda>s'. foldE f xs s')"

fun mapE :: "('a \<Rightarrow> 'b res) \<Rightarrow> 'a list \<Rightarrow> 'b list res" where
  "mapE f [] = Inr []"
| "mapE f (x # xs) = bindE (f x) (\<lambda>y. bindE (mapE f xs) (\<lambda>ys. Inr (y # ys)))"

lemma foldE_append: "foldE f (xs @ ys) s = bindE (foldE f xs s) (\<lambda>s'. foldE f ys s')"
  by (induction xs arbitrary: s) (simp_all add: bindE_assoc cong: bindE_cong)

lemma foldE_total:
  assumes "P s"
    and "\<And>x s. x \<in> set xs \<Longrightarrow> P s \<Longrightarrow> f x s = Inr (g x s) \<and> P (g x s)"
  shows "foldE f xs s = Inr (fold g xs s) \<and> P (fold g xs s)"
  using assms by (induction xs arbitrary: s) simp_all

lemma foldE_invariant:
  assumes "foldE f xs s = Inr s'" and "P s"
    and "\<And>x s s'. x \<in> set xs \<Longrightarrow> P s \<Longrightarrow> f x s = Inr s' \<Longrightarrow> P s'"
  shows "P s'"
  using assms by (induction xs arbitrary: s) (auto simp: bindE_eq_Inr)

lemma mapE_total:
  assumes "\<And>x. x \<in> set xs \<Longrightarrow> f x = Inr (g x)"
  shows "mapE f xs = Inr (map g xs)"
  using assms by (induction xs) simp_all

lemma mapE_Inr_length: "mapE f xs = Inr ys \<Longrightarrow> length ys = length xs"
  by (induction xs arbitrary: ys) (auto simp: bindE_eq_Inr)

lemma mapE_Inr_nth:
  "mapE f xs = Inr ys \<Longrightarrow> i < length xs \<Longrightarrow> f (xs ! i) = Inr (ys ! i)"
  by (induction xs arbitrary: ys i) (auto simp: bindE_eq_Inr nth_Cons split: nat.splits)

section \<open>Vectors: indexing and assignment with bounds checks\<close>

definition index_out_of_bounds :: error where
  "index_out_of_bounds = Panic ''index out of bounds''"

definition getE :: "'a list \<Rightarrow> nat \<Rightarrow> 'a res" where
  "getE xs i = checkE (i < length xs) index_out_of_bounds (Inr (xs ! i))"

definition setE :: "'a list \<Rightarrow> nat \<Rightarrow> 'a \<Rightarrow> 'a list res" where
  "setE xs i x = checkE (i < length xs) index_out_of_bounds (Inr (xs[i := x]))"

definition swap_list :: "'a list \<Rightarrow> nat \<Rightarrow> nat \<Rightarrow> 'a list" where
  "swap_list xs i j = xs[i := xs ! j, j := xs ! i]"

definition swapE :: "'a list \<Rightarrow> nat \<Rightarrow> nat \<Rightarrow> 'a list res" where
  "swapE xs i j = checkE (i < length xs \<and> j < length xs) index_out_of_bounds
     (Inr (swap_list xs i j))"

lemma getE_ok [simp, res_simps]: "i < length xs \<Longrightarrow> getE xs i = Inr (xs ! i)"
  by (simp add: getE_def)

lemma getE_eq_Inr: "getE xs i = Inr x \<longleftrightarrow> i < length xs \<and> x = xs ! i"
  by (auto simp: getE_def checkE_def)

lemma setE_ok [simp, res_simps]: "i < length xs \<Longrightarrow> setE xs i x = Inr (xs[i := x])"
  by (simp add: setE_def)

lemma setE_eq_Inr: "setE xs i x = Inr ys \<longleftrightarrow> i < length xs \<and> ys = xs[i := x]"
  by (auto simp: setE_def checkE_def)

lemma swapE_ok [simp, res_simps]:
  "i < length xs \<Longrightarrow> j < length xs \<Longrightarrow> swapE xs i j = Inr (swap_list xs i j)"
  by (simp add: swapE_def)

lemma length_swap_list [simp]: "length (swap_list xs i j) = length xs"
  by (simp add: swap_list_def)

lemma nth_swap_list:
  "i < length xs \<Longrightarrow> j < length xs \<Longrightarrow> k < length xs \<Longrightarrow>
   swap_list xs i j ! k = xs ! (if k = i then j else if k = j then i else k)"
  by (auto simp: swap_list_def nth_list_update)

lemma swap_list_swap_list [simp]:
  "i < length xs \<Longrightarrow> j < length xs \<Longrightarrow> swap_list (swap_list xs i j) i j = xs"
  by (rule nth_equalityI) (auto simp: nth_swap_list)

lemma mset_swap_list [simp]:
  "i < length xs \<Longrightarrow> j < length xs \<Longrightarrow> mset (swap_list xs i j) = mset xs"
  by (simp add: swap_list_def mset_update nth_list_update)

lemma map_swap_list:
  "i < length xs \<Longrightarrow> j < length xs \<Longrightarrow> map f (swap_list xs i j) = swap_list (map f xs) i j"
  by (simp add: swap_list_def map_update)

section \<open>Splitting a vector into consecutive pieces\<close>

fun split_lengths :: "nat list \<Rightarrow> 'a list \<Rightarrow> 'a list list" where
  "split_lengths [] xs = []"
| "split_lengths (n # ns) xs = take n xs # split_lengths ns (drop n xs)"

lemma split_lengths_concat [simp]: "split_lengths (map length xss) (concat xss) = xss"
  by (induction xss) simp_all

lemma length_split_lengths [simp]: "length (split_lengths ns xs) = length ns"
  by (induction ns arbitrary: xs) simp_all

text \<open>The slices of \<open>chunks(n)\<close>: all of length \<open>n\<close> but the last.\<close>

definition chunks :: "nat \<Rightarrow> 'a list \<Rightarrow> 'a list list" where
  "chunks n xs = map (\<lambda>i. take n (drop (i * n) xs)) [0..<(length xs + n - 1) div n]"

section \<open>Exclusive or\<close>

lemma xor_cancel_left [simp]: "(a :: 'a::len word) XOR (a XOR b) = b"
  by (simp flip: xor.assoc)

lemma xor_cancel_mid [simp]: "(a :: 'a::len word) XOR (b XOR a) = b"
  by (simp add: xor.commute [of b a])

lemmas xor_ac = xor.assoc xor.commute xor.left_commute

lemma and_xor_distrib:
  fixes a b c :: "'a::len word"
  shows "a AND (b XOR c) = (a AND b) XOR (a AND c)" "(b XOR c) AND a = (b AND a) XOR (c AND a)"
  by (simp_all add: bit_eq_iff bit_and_iff bit_xor_iff) blast+

section \<open>Casts between widths\<close>

lemma ucast_ucast_up: "LENGTH('v) \<le> LENGTH('w) \<Longrightarrow> ucast (ucast x :: 'w::len word) = x"
  for x :: "'v::len word"
  by (rule bit_word_eqI) (simp add: bit_simps)

section \<open>Words from bits\<close>

definition word_of :: "(nat \<Rightarrow> bool) \<Rightarrow> 'w::len word" where
  "word_of f = horner_sum of_bool 2 (map f [0..<LENGTH('w)])"

lemma bit_word_of [simp]: "bit (word_of f :: 'w::len word) k \<longleftrightarrow> k < LENGTH('w) \<and> f k"
  by (auto simp: word_of_def bit_horner_sum_bit_word_iff)

end
