(* ===== verification/Rep3.thy ===== *)
theory Rep3
  imports Prelude
begin

text \<open>
  Replicated secret sharing among three parties: the share type and the sharing helpers of
  \<open>crates/primitives/src/types.rs\<close> and the opening and AND helpers of \<open>utils.rs\<close>.

  Every party runs the same code on its own data, so a protocol is a function of what all three
  parties hold: a vector of shares is \<open>party \<Rightarrow> 'w word share list\<close>, the vector of each party.
  Code that does not communicate is a function of one party's data (and of its \<open>state.id\<close> where
  it looks at it). The backend \<open>mpc_core\<close> and \<open>mpc_net\<close> is not part of the repository. Of it the
  model uses
  \<^item> the data the code itself takes apart: the three party ids in cyclic order, and a share
    with its two components \<open>a\<close> and \<open>b\<close> and its componentwise operators;
  \<^item> the network, a parameter \<open>net\<close>: \<open>net q p\<close> says whether what \<open>q\<close> sends reaches \<open>p\<close>; a
    message that does not arrive is a \<open>NetworkError\<close>, one that arrives is what was sent;
  \<^item> the generators \<open>state.rngs.rand\<close>, a parameter \<open>rng\<close>: the \<open>k\<close>-th draw of a party is a pair,
    the first component from the generator it shares with the next party and the second from the
    one it shares with the previous party; \<open>correlated\<close> states this sharing.
\<close>

unbundle bit_operations_syntax

section \<open>Parties and shares\<close>

datatype party = ID0 | ID1 | ID2

primrec next_party :: "party \<Rightarrow> party" where
  "next_party ID0 = ID1"
| "next_party ID1 = ID2"
| "next_party ID2 = ID0"

primrec prev_party :: "party \<Rightarrow> party" where
  "prev_party ID0 = ID2"
| "prev_party ID1 = ID0"
| "prev_party ID2 = ID1"

lemma next_prev_party [simp]:
  "next_party (prev_party p) = p" "prev_party (next_party p) = p"
  by (cases p; simp)+

lemma next_next_party [simp]:
  "next_party (next_party p) = prev_party p" "prev_party (prev_party p) = next_party p"
  by (cases p; simp)+

lemma party_neq [simp]:
  "next_party p \<noteq> p" "p \<noteq> next_party p" "prev_party p \<noteq> p" "p \<noteq> prev_party p"
  "next_party p \<noteq> prev_party p" "prev_party p \<noteq> next_party p"
  by (cases p; simp)+

lemma all_party: "(\<forall>p. P p) \<longleftrightarrow> P ID0 \<and> P ID1 \<and> P ID2"
  by (metis party.exhaust)

lemma party_cases_around: "q = p \<or> q = next_party p \<or> q = prev_party p"
  by (cases p; cases q) simp_all

record 'a share =
  sh_a :: 'a
  sh_b :: 'a

type_synonym 'w shares = "party \<Rightarrow> 'w word share list"

abbreviation mk_share :: "'a \<Rightarrow> 'a \<Rightarrow> 'a share" where
  "mk_share x y \<equiv> \<lparr>sh_a = x, sh_b = y\<rparr>"

definition zero_share :: "'w::len word share" where
  "zero_share = mk_share 0 0"

definition map_share :: "('a \<Rightarrow> 'b) \<Rightarrow> 'a share \<Rightarrow> 'b share" where
  "map_share f s = mk_share (f (sh_a s)) (f (sh_b s))"

definition xor_share :: "'w::len word share \<Rightarrow> 'w word share \<Rightarrow> 'w word share" where
  "xor_share s t = mk_share (sh_a s XOR sh_a t) (sh_b s XOR sh_b t)"

definition not_share :: "'w::len word share \<Rightarrow> 'w word share" where
  "not_share s = map_share NOT s"

definition and_public_share :: "'w::len word share \<Rightarrow> 'w word \<Rightarrow> 'w word share" where
  "and_public_share s m = map_share (\<lambda>w. w AND m) s"

definition get_bit_share :: "'w::len word share \<Rightarrow> nat \<Rightarrow> 1 word share" where
  "get_bit_share s i = map_share (\<lambda>w. of_bool (bit w i)) s"

definition cast_share :: "'v::len word share \<Rightarrow> 'w::len word share" where
  "cast_share s = map_share ucast s"

text \<open>The local product of two shares: the cross terms a party can compute by itself.\<close>

definition and_local :: "'w::len word share \<Rightarrow> 'w word share \<Rightarrow> 'w word" where
  "and_local s t = (sh_a s AND sh_a t) XOR (sh_a s AND sh_b t) XOR (sh_b s AND sh_a t)"

lemmas share_ops = zero_share_def map_share_def xor_share_def not_share_def and_public_share_def
  get_bit_share_def cast_share_def

section \<open>What a sharing opens to\<close>

definition shared :: "(party \<Rightarrow> 'w::len word share) \<Rightarrow> 'w word \<Rightarrow> bool" where
  "shared S x \<longleftrightarrow> (\<forall>p. sh_b (S p) = sh_a (S (prev_party p))) \<and>
     x = sh_a (S ID0) XOR sh_a (S ID1) XOR sh_a (S ID2)"

definition shared_list :: "'w::len shares \<Rightarrow> 'w word list \<Rightarrow> bool" where
  "shared_list S xs \<longleftrightarrow> (\<forall>p. length (S p) = length xs) \<and>
     (\<forall>i < length xs. shared (\<lambda>p. S p ! i) (xs ! i))"

lemma sharedD:
  "shared S x \<Longrightarrow> sh_b (S p) = sh_a (S (prev_party p))"
  "shared S x \<Longrightarrow> sh_a (S p) XOR sh_a (S (next_party p)) XOR sh_a (S (prev_party p)) = x"
  by (simp_all add: shared_def) (cases p; simp add: xor_ac)

lemma shared_functional: "shared S x \<Longrightarrow> shared S y \<Longrightarrow> x = y"
  by (simp add: shared_def)

lemma shared_zero [intro]: "shared (\<lambda>p. zero_share) 0"
  by (simp add: shared_def zero_share_def)

lemma shared_xor [intro]:
  "shared S x \<Longrightarrow> shared T y \<Longrightarrow> shared (\<lambda>p. xor_share (S p) (T p)) (x XOR y)"
  by (simp add: shared_def xor_share_def xor_ac)

text \<open>A function that commutes with exclusive or may be applied share by share.\<close>

lemma shared_map:
  assumes "shared S x" and "\<And>u v. f (u XOR v) = f u XOR f v"
  shows "shared (\<lambda>p. map_share f (S p)) (f x)"
  using assms(1) by (simp add: shared_def map_share_def assms(2))

lemma shared_not [intro]: "shared S x \<Longrightarrow> shared (\<lambda>p. not_share (S p)) (NOT x)"
  by (simp add: shared_def not_share_def map_share_def bit_eq_iff bit_xor_iff bit_not_iff)

lemma shared_and_public [intro]:
  "shared S x \<Longrightarrow> shared (\<lambda>p. and_public_share (S p) m) (x AND m)"
  by (auto simp: and_public_share_def and_xor_distrib intro: shared_map)

lemma shared_get_bit [intro]:
  "shared S x \<Longrightarrow> shared (\<lambda>p. get_bit_share (S p) i) (of_bool (bit x i))"
  unfolding get_bit_share_def
  by (rule shared_map [where f = "\<lambda>w. of_bool (bit w i)"]) (auto simp: bit_xor_iff)

lemma ucast_xor: "ucast (u XOR v) = (ucast u XOR ucast v :: 'w::len word)"
  for u v :: "'v::len word"
  by (rule bit_word_eqI) (auto simp: bit_simps)

lemma shared_cast [intro]: "shared S x \<Longrightarrow> shared (\<lambda>p. cast_share (S p)) (ucast x)"
  unfolding cast_share_def by (rule shared_map) (simp_all add: ucast_xor)

lemma shared_listI:
  "(\<And>p. length (S p) = length xs) \<Longrightarrow> (\<And>i. i < length xs \<Longrightarrow> shared (\<lambda>p. S p ! i) (xs ! i)) \<Longrightarrow>
   shared_list S xs"
  by (simp add: shared_list_def)

lemma shared_listD:
  "shared_list S xs \<Longrightarrow> length (S p) = length xs"
  "shared_list S xs \<Longrightarrow> i < length xs \<Longrightarrow> shared (\<lambda>p. S p ! i) (xs ! i)"
  by (simp_all add: shared_list_def)

lemma shared_list_functional: "shared_list S xs \<Longrightarrow> shared_list S ys \<Longrightarrow> xs = ys"
  by (rule nth_equalityI) (auto simp: shared_list_def intro: shared_functional)

lemma shared_list_Nil [simp]: "shared_list (\<lambda>p. []) []"
  by (simp add: shared_list_def)

lemma shared_list_append [intro]:
  "shared_list S xs \<Longrightarrow> shared_list T ys \<Longrightarrow> shared_list (\<lambda>p. S p @ T p) (xs @ ys)"
  by (auto simp: shared_list_def nth_append)

lemma shared_list_map:
  "shared_list S xs \<Longrightarrow> (\<And>R x. shared R x \<Longrightarrow> shared (\<lambda>p. f p (R p)) (g x)) \<Longrightarrow>
   shared_list (\<lambda>p. map (f p) (S p)) (map g xs)"
  by (auto simp: shared_list_def)

lemma shared_list_map2:
  "shared_list S xs \<Longrightarrow> shared_list T ys \<Longrightarrow> length xs = length ys \<Longrightarrow>
   (\<And>R x Q y. shared R x \<Longrightarrow> shared Q y \<Longrightarrow> shared (\<lambda>p. f (R p) (Q p)) (g x y)) \<Longrightarrow>
   shared_list (\<lambda>p. map2 f (S p) (T p)) (map2 g xs ys)"
  by (auto simp: shared_list_def)

lemma shared_list_replicate [intro]:
  "shared S x \<Longrightarrow> shared_list (\<lambda>p. replicate n (S p)) (replicate n x)"
  by (auto simp: shared_list_def)

lemma shared_list_take [intro]: "shared_list S xs \<Longrightarrow> shared_list (\<lambda>p. take n (S p)) (take n xs)"
  by (auto simp: shared_list_def)

lemma shared_list_drop [intro]: "shared_list S xs \<Longrightarrow> shared_list (\<lambda>p. drop n (S p)) (drop n xs)"
  by (auto simp: shared_list_def)

lemma shared_list_pick:
  "shared_list S xs \<Longrightarrow> \<forall>r \<in> set rs. r < length xs \<Longrightarrow> shared_list (\<lambda>p. map ((!) (S p)) rs) (map ((!) xs) rs)"
  by (simp add: shared_list_def)

section \<open>Columns of shares and steps every party takes by itself\<close>

text \<open>Several vectors moved together: what each party holds is a list of vectors.\<close>

type_synonym 'w columns = "party \<Rightarrow> 'w word share list list"

definition shared_cols :: "'w::len columns \<Rightarrow> 'w word list list \<Rightarrow> bool" where
  "shared_cols C xss \<longleftrightarrow> (\<forall>p. length (C p) = length xss) \<and>
     (\<forall>c < length xss. shared_list (\<lambda>p. C p ! c) (xss ! c))"

lemma shared_colsD:
  "shared_cols C xss \<Longrightarrow> length (C p) = length xss"
  "shared_cols C xss \<Longrightarrow> c < length xss \<Longrightarrow> shared_list (\<lambda>p. C p ! c) (xss ! c)"
  by (simp_all add: shared_cols_def)

lemma shared_cols_Nil [simp]: "shared_cols (\<lambda>p. []) xss \<longleftrightarrow> xss = []"
  by (auto simp: shared_cols_def)

lemma shared_cols_empty: "shared_cols C [] \<longleftrightarrow> C = (\<lambda>p. [])"
  by (auto simp: shared_cols_def fun_eq_iff)

lemma shared_cols_Cons:
  "shared_cols (\<lambda>p. S p # C p) (xs # xss) \<longleftrightarrow> shared_list S xs \<and> shared_cols C xss"
  by (auto simp: shared_cols_def nth_Cons less_Suc_eq_0_disj split: nat.splits)

lemma shared_cols_ConsE:
  assumes "shared_cols C (xs # xss)"
  obtains S C' where "C = (\<lambda>p. S p # C' p)" and "shared_list S xs" and "shared_cols C' xss"
proof
  have "C p \<noteq> []" for p
    using shared_colsD(1) [OF assms, of p] by auto
  then show C: "C = (\<lambda>p. hd (C p) # tl (C p))"
    by (simp add: fun_eq_iff)
  have "shared_cols (\<lambda>p. hd (C p) # tl (C p)) (xs # xss)" using assms C by metis
  then show "shared_list (\<lambda>p. hd (C p)) xs" and "shared_cols (\<lambda>p. tl (C p)) xss"
    by (simp_all add: shared_cols_Cons)
qed

lemma shared_cols_lengths:
  assumes "shared_cols C xss"
  shows "map length (C p) = map length xss"
  using assms by (intro nth_equalityI) (auto simp: shared_cols_def shared_list_def)

lemma shared_cols_append:
  "shared_cols C xss \<Longrightarrow> shared_cols D yss \<Longrightarrow> shared_cols (\<lambda>p. C p @ D p) (xss @ yss)"
  by (auto simp: shared_cols_def nth_append)

lemma shared_cols_single: "shared_list S xs \<Longrightarrow> shared_cols (\<lambda>p. [S p]) [xs]"
  by (simp add: shared_cols_def)

lemma shared_cols_take: "shared_cols C xss \<Longrightarrow> shared_cols (\<lambda>p. take n (C p)) (take n xss)"
  and shared_cols_drop: "shared_cols C xss \<Longrightarrow> shared_cols (\<lambda>p. drop n (C p)) (drop n xss)"
  by (auto simp: shared_cols_def)

lemma shared_list_concat:
  "shared_cols S xss \<Longrightarrow> shared_list (\<lambda>p. concat (S p)) (concat xss)"
proof (induction xss arbitrary: S)
  case Nil
  then show ?case by (simp add: shared_cols_empty)
next
  case (Cons xs xss)
  obtain T S' where S: "S = (\<lambda>p. T p # S' p)" "shared_list T xs" "shared_cols S' xss"
    using Cons.prems by (rule shared_cols_ConsE)
  show ?case using shared_list_append [OF S(2) Cons.IH [OF S(3)]] by (simp add: S(1))
qed

lemma shared_concat_map:
  assumes "shared_list Q qs"
    and "\<And>R q. shared R q \<Longrightarrow> shared_list (\<lambda>p. f p (R p)) (g q)"
  shows "shared_list (\<lambda>p. concat (map (f p) (Q p))) (concat (map g qs))"
  using assms by (intro shared_list_concat) (auto simp: shared_cols_def shared_list_def)

lemma shared_cols_split:
  "shared_list S (concat xss) \<Longrightarrow>
   shared_cols (\<lambda>p. split_lengths (map length xss) (S p)) xss"
proof (induction xss arbitrary: S)
  case Nil
  then show ?case by (simp add: shared_cols_def)
next
  case (Cons xs xss)
  then have S: "shared_list S (xs @ concat xss)" by simp
  from shared_list_take [OF this, of "length xs"] shared_list_drop [OF S, of "length xs"]
  show ?case by (simp add: shared_cols_Cons Cons.IH)
qed

definition each_party :: "(party \<Rightarrow> 'a res) \<Rightarrow> (party \<Rightarrow> 'a) res" where
  "each_party f = bindE (f ID0) (\<lambda>x0. bindE (f ID1) (\<lambda>x1. bindE (f ID2) (\<lambda>x2.
     Inr (\<lambda>p. case p of ID0 \<Rightarrow> x0 | ID1 \<Rightarrow> x1 | ID2 \<Rightarrow> x2))))"

lemma each_party_Inr:
  assumes "\<And>p. f p = Inr (g p)"
  shows "each_party f = Inr g"
proof -
  have "(\<lambda>p. case p of ID0 \<Rightarrow> g ID0 | ID1 \<Rightarrow> g ID1 | ID2 \<Rightarrow> g ID2) = g"
    by (auto simp: fun_eq_iff split: party.split)
  with assms show ?thesis by (simp add: each_party_def)
qed

end
