(* ===== verification/Sharing.thy ===== *)
theory Sharing
  imports Rep3
begin

text \<open>
  The sharing protocols of \<open>crates/primitives/src/types.rs\<close> and \<open>utils.rs\<close>: trivial sharings of
  public values, opening, revealing to one party, moving between replicated and two-party
  sharings, and the bitwise AND with its resharing round. Each protocol is proved to open to
  what its caller relies on. The locale \<open>and_protocol\<close> is the contract of the backend's
  \<open>binary::and_vec\<close>; the code's own AND of \<open>utils.rs\<close> implements it.
\<close>

unbundle bit_operations_syntax

section \<open>Network and correlated randomness\<close>

type_synonym network = "party \<Rightarrow> party \<Rightarrow> bool"
type_synonym rngs = "nat \<Rightarrow> party \<Rightarrow> nat \<times> nat"

definition online :: "network \<Rightarrow> bool" where
  "online net \<longleftrightarrow> (\<forall>q p. net q p)"

definition deliver :: "network \<Rightarrow> party \<Rightarrow> party \<Rightarrow> 'm \<Rightarrow> 'm res" where
  "deliver net q p m = checkE (net q p) NetworkError (Inr m)"

text \<open>\<open>reshare\<close>, \<open>reshare_many\<close>: everyone sends to the next party and receives from the previous.\<close>

definition reshare :: "network \<Rightarrow> (party \<Rightarrow> 'm) \<Rightarrow> (party \<Rightarrow> 'm) res" where
  "reshare net m = checkE (net ID0 ID1 \<and> net ID1 ID2 \<and> net ID2 ID0) NetworkError
     (Inr (\<lambda>p. m (prev_party p)))"

definition correlated :: "rngs \<Rightarrow> bool" where
  "correlated rng \<longleftrightarrow> (\<forall>k p. snd (rng k p) = fst (rng k (prev_party p)))"

definition random_elements :: "rngs \<Rightarrow> nat \<Rightarrow> party \<Rightarrow> 'w::len word \<times> 'w word" where
  "random_elements rng k p = (of_nat (fst (rng k p)), of_nat (snd (rng k p)))"

definition skip_draws :: "nat \<Rightarrow> rngs \<Rightarrow> rngs" where
  "skip_draws n rng = (\<lambda>k. rng (n + k))"

text \<open>The mask of the \<open>k\<close>-th draw; the three parties' masks cancel.\<close>

definition zero_mask :: "rngs \<Rightarrow> nat \<Rightarrow> party \<Rightarrow> 'w::len word" where
  "zero_mask rng k p = (case random_elements rng k p of (m, m_b) \<Rightarrow> m XOR m_b)"

lemma online_simps [simp]: "online net \<Longrightarrow> net q p"
  "online net \<Longrightarrow> deliver net q p m = Inr m"
  "online net \<Longrightarrow> reshare net M = Inr (\<lambda>p. M (prev_party p))"
  by (simp_all add: online_def deliver_def reshare_def)

lemma correlated_skip [simp]: "correlated rng \<Longrightarrow> correlated (skip_draws n rng)"
  by (simp add: correlated_def skip_draws_def)

lemma zero_mask_cancel:
  "correlated rng \<Longrightarrow> zero_mask rng k ID0 XOR zero_mask rng k ID1 XOR zero_mask rng k ID2 = 0"
  by (simp add: correlated_def zero_mask_def random_elements_def xor_ac)

section \<open>Trivial sharings of public values\<close>

fun promote_public :: "party \<Rightarrow> 'w::len word \<Rightarrow> 'w word share" where
  "promote_public ID0 v = mk_share v 0"
| "promote_public ID1 v = mk_share 0 v"
| "promote_public ID2 v = zero_share"

definition dummy_x :: "party \<Rightarrow> nat \<Rightarrow> 32 word share" where
  "dummy_x p log_n = promote_public p (push_bit log_n 1)"

definition promote_public_values :: "party \<Rightarrow> 'w::len word list \<Rightarrow> 'w word share list" where
  "promote_public_values p vs = map (promote_public p) vs"

text \<open>\<open>bit_to_binary_mask\<close>: a shared bit becomes a shared word of that bit.\<close>

definition bit_to_binary_mask :: "1 word share \<Rightarrow> 'w::len word share" where
  "bit_to_binary_mask s =
     mk_share (if sh_a s \<noteq> 0 then NOT 0 else 0) (if sh_b s \<noteq> 0 then NOT 0 else 0)"

lemma shared_promote_public [intro]: "shared (\<lambda>p. promote_public p v) v"
  by (simp add: shared_def all_party zero_share_def)

lemma shared_dummy_x: "shared (\<lambda>p. dummy_x p log_n) (push_bit log_n 1)"
  by (simp add: dummy_x_def shared_promote_public)

lemma one_bit_cases: "(w :: 1 word) = 0 \<or> w = 1"
  by (metis bit_eqI bit_0_eq bit_1_iff bit_imp_le_length bot_apply less_one len_num1 bot_bool_def)

definition bit_mask :: "1 word \<Rightarrow> 'w::len word" where
  "bit_mask w = (if w \<noteq> 0 then NOT 0 else 0)"

lemma bit_mask_xor: "bit_mask (u XOR v) = (bit_mask u XOR bit_mask v :: 'w::len word)"
  using one_bit_cases [of u] one_bit_cases [of v] by (auto simp: bit_mask_def)

lemma bit_mask_simps [simp]: "bit_mask 0 = 0" "bit_mask 1 = NOT 0"
  "bit_mask (of_bool c) = (if c then NOT 0 else 0)"
  by (simp_all add: bit_mask_def)

lemma shared_bit_to_binary_mask [intro]:
  "shared S w \<Longrightarrow> shared (\<lambda>p. bit_to_binary_mask (S p)) (bit_mask w)"
  using shared_map [of S w bit_mask, OF _ bit_mask_xor]
  by (simp add: bit_to_binary_mask_def map_share_def flip: bit_mask_def)

section \<open>Opening\<close>

definition open_many :: "network \<Rightarrow> 'w::len shares \<Rightarrow> (party \<Rightarrow> 'w word list) res" where
  "open_many net S =
     bindE (unwrapE (reshare net (\<lambda>p. map sh_b (S p)))) (\<lambda>nxt.
       Inr (\<lambda>p. map2 (\<lambda>s n. sh_a s XOR sh_b s XOR n) (S p) (nxt p)))"

definition reveal_to_party ::
    "network \<Rightarrow> (party \<Rightarrow> 'w::len word share) \<Rightarrow> party \<Rightarrow> (party \<Rightarrow> 'w word option) res" where
  "reveal_to_party net s target =
     bindE (deliver net (prev_party target) target (sh_b (s (prev_party target)))) (\<lambda>missing.
       Inr (\<lambda>p. if p = target then Some (sh_a (s p) XOR sh_b (s p) XOR missing) else None))"

definition reveal_to_party_many ::
    "network \<Rightarrow> 'w::len shares \<Rightarrow> party \<Rightarrow> (party \<Rightarrow> 'w word list option) res" where
  "reveal_to_party_many net S target =
     bindE (deliver net (prev_party target) target (map sh_b (S (prev_party target)))) (\<lambda>missing.
       checkE (length missing = length (S target)) (Report ''invalid reveal length'')
         (Inr (\<lambda>p. if p = target
                then Some (map2 (\<lambda>s m. sh_a s XOR sh_b s XOR m) (S p) missing) else None)))"

lemma shared_open_at:
  "shared S x \<Longrightarrow> sh_a (S p) XOR sh_b (S p) XOR sh_b (S (prev_party p)) = x"
  by (cases p) (simp_all add: shared_def xor_ac)

lemma shared_list_open_at:
  "shared_list S xs \<Longrightarrow> i < length xs \<Longrightarrow>
   sh_a (S p ! i) XOR sh_b (S p ! i) XOR sh_b (S (prev_party p) ! i) = xs ! i"
  using shared_open_at [OF shared_listD(2)] .

lemma map2_open:
  assumes "shared_list S xs"
  shows "map2 (\<lambda>s n. sh_a s XOR sh_b s XOR n) (S p) (map sh_b (S (prev_party p))) = xs"
  using assms
  by (intro nth_equalityI) (simp_all add: shared_listD(1) [OF assms] shared_list_open_at)

lemma open_many_correct:
  "shared_list S xs \<Longrightarrow> online net \<Longrightarrow> open_many net S = Inr (\<lambda>p. xs)"
  by (simp add: open_many_def map2_open)

lemma reveal_to_party_correct:
  "shared S x \<Longrightarrow> online net \<Longrightarrow>
   reveal_to_party net S target = Inr (\<lambda>p. if p = target then Some x else None)"
  using shared_open_at [of S x target] by (auto simp: reveal_to_party_def)

lemma reveal_to_party_many_correct:
  "shared_list S xs \<Longrightarrow> online net \<Longrightarrow>
   reveal_to_party_many net S target = Inr (\<lambda>p. if p = target then Some xs else None)"
  by (auto simp: reveal_to_party_many_def map2_open shared_listD(1))

section \<open>Between replicated and two-party sharings\<close>

text \<open>\<open>reshare_3_to_2\<close> is local: party \<open>i\<close> keeps its part of a sharing between two parties.\<close>

definition reshare_3_to_2 ::
    "'w::len word share list \<Rightarrow> party \<Rightarrow> party \<Rightarrow> party \<Rightarrow> 'w word list" where
  "reshare_3_to_2 rep_array to_1 to_2 i =
     map (\<lambda>s. if i = to_1 then sh_a s XOR sh_b s
              else if i = to_2 then (if to_2 = prev_party to_1 then sh_b s else sh_a s)
              else 0) rep_array"

definition ring_recombine :: "'w word list \<Rightarrow> 'w word list \<Rightarrow> 'w word share list" where
  "ring_recombine local nxt = map2 mk_share local nxt"

text \<open>The component a party contributes: its input, if it has one, under a fresh mask.\<close>

definition masked_inputs :: "rngs \<Rightarrow> party \<Rightarrow> (nat \<Rightarrow> bool) \<Rightarrow> 'w::len word list \<Rightarrow> 'w word list" where
  "masked_inputs rng i has_input local_shares =
     map2 (\<lambda>k l. zero_mask rng k i XOR (if has_input k then l else 0))
       [0..<length local_shares] local_shares"

definition from_2_shares ::
    "(party \<Rightarrow> 'w::len word list) \<Rightarrow> party \<Rightarrow> party \<Rightarrow> network \<Rightarrow> rngs \<Rightarrow> 'w shares res" where
  "from_2_shares local_shares from_1 from_2 net rng =
     (let local = (\<lambda>p. masked_inputs rng p (\<lambda>k. p = from_1 \<or> p = from_2) (local_shares p))
      in bindE (reshare net local) (\<lambda>nxt. Inr (\<lambda>p. ring_recombine (local p) (nxt p))))"

definition input_shares ::
    "party \<Rightarrow> (party \<Rightarrow> 'w::len word list) \<Rightarrow> network \<Rightarrow> rngs \<Rightarrow> 'w shares res" where
  "input_shares party_inputting secrets net rng =
     from_2_shares (\<lambda>p. if p = party_inputting then secrets p
                        else replicate (length (secrets p)) 0)
       party_inputting (next_party party_inputting) net rng"

lemma length_reshare_3_to_2 [simp]: "length (reshare_3_to_2 xs p q i) = length xs"
  by (simp add: reshare_3_to_2_def)

lemma length_masked_inputs [simp]: "length (masked_inputs rng i h ls) = length ls"
  by (simp add: masked_inputs_def)

lemma nth_masked_inputs [simp]:
  "k < length ls \<Longrightarrow>
   masked_inputs rng i h ls ! k = zero_mask rng k i XOR (if h k then ls ! k else 0)"
  by (simp add: masked_inputs_def)

lemma length_ring_recombine [simp]:
  "length (ring_recombine xs ys) = min (length xs) (length ys)"
  by (simp add: ring_recombine_def)

text \<open>
  Components that add up to the values, one list per party, make a sharing of the values once
  every party has received its neighbour's components.
\<close>

lemma shared_recombine:
  assumes "\<And>p. length (L p) = length xs"
    and "\<And>i. i < length xs \<Longrightarrow> L ID0 ! i XOR L ID1 ! i XOR L ID2 ! i = xs ! i"
  shows "shared_list (\<lambda>p. ring_recombine (L p) (L (prev_party p))) xs"
  using assms by (simp add: shared_list_def shared_def ring_recombine_def)

lemma xor_three_masks:
  assumes "correlated rng"
  shows "(zero_mask rng k ID0 XOR a) XOR (zero_mask rng k ID1 XOR b) XOR (zero_mask rng k ID2 XOR c)
     = a XOR b XOR (c :: 'w::len word)"
proof -
  have "(zero_mask rng k ID0 XOR a) XOR (zero_mask rng k ID1 XOR b) XOR (zero_mask rng k ID2 XOR c)
     = (zero_mask rng k ID0 XOR zero_mask rng k ID1 XOR zero_mask rng k ID2) XOR (a XOR b XOR c)"
    by (simp add: xor_ac)
  also have "\<dots> = a XOR b XOR c"
    by (simp add: zero_mask_cancel [OF assms])
  finally show ?thesis .
qed

lemma shared_masked_inputs:
  assumes "correlated rng" and len: "\<And>p. length (L p) = length xs"
    and val: "\<And>k. k < length xs \<Longrightarrow>
      (if h ID0 k then L ID0 ! k else 0) XOR (if h ID1 k then L ID1 ! k else 0) XOR
      (if h ID2 k then L ID2 ! k else 0) = xs ! k"
  shows "shared_list (\<lambda>p. ring_recombine (masked_inputs rng p (h p) (L p))
      (masked_inputs rng (prev_party p) (h (prev_party p)) (L (prev_party p)))) xs"
  by (rule shared_recombine [where L = "\<lambda>p. masked_inputs rng p (h p) (L p)"])
    (simp_all add: len val xor_three_masks [OF assms(1)])

text \<open>What two parties hold between them, and nobody else.\<close>

definition two_shared :: "(party \<Rightarrow> 'w::len word list) \<Rightarrow> party \<Rightarrow> party \<Rightarrow> 'w word list \<Rightarrow> bool" where
  "two_shared L p q xs \<longleftrightarrow> (\<forall>i. length (L i) = length xs) \<and>
     (\<forall>k < length xs. L p ! k XOR L q ! k = xs ! k)"

lemma two_shared_pick:
  assumes "two_shared L p q xs" and "p \<noteq> q" and "k < length xs"
  shows "(if ID0 = p \<or> ID0 = q then L ID0 ! k else 0) XOR
    (if ID1 = p \<or> ID1 = q then L ID1 ! k else 0) XOR
    (if ID2 = p \<or> ID2 = q then L ID2 ! k else 0) = xs ! k"
  using assms by (cases p; cases q) (auto simp: two_shared_def xor.commute)

lemma from_2_shares_correct:
  assumes "two_shared L p q xs" and "p \<noteq> q" and "online net" and "correlated rng"
  shows "\<exists>S. from_2_shares L p q net rng = Inr S \<and> shared_list S xs"
  using assms shared_masked_inputs [of rng L xs "\<lambda>i k. i = p \<or> i = q"]
  by (simp add: from_2_shares_def two_shared_pick) (simp add: two_shared_def)

lemma reshare_3_to_2_correct:
  assumes "shared_list S xs" and "p \<noteq> q"
  shows "two_shared (\<lambda>i. reshare_3_to_2 (S i) p q i) p q xs"
proof -
  have "reshare_3_to_2 (S p) p q p ! k XOR reshare_3_to_2 (S q) p q q ! k = xs ! k"
    if "k < length xs" for k
    using shared_listD(2) [OF assms(1) that] shared_listD(1) [OF assms(1)] that assms(2)
    by (cases p; cases q) (simp_all add: reshare_3_to_2_def shared_def xor_ac)
  then show ?thesis
    by (simp add: two_shared_def shared_listD(1) [OF assms(1)])
qed

lemma input_shares_correct:
  assumes "\<And>p. length (secrets p) = length xs" and "secrets i = xs"
    and "online net" and "correlated rng"
  shows "\<exists>S. input_shares i secrets net rng = Inr S \<and> shared_list S xs"
  unfolding input_shares_def using assms
  by (intro from_2_shares_correct) (auto simp: two_shared_def)

section \<open>The bitwise AND of two sharings\<close>

definition ring_local_and ::
    "'w::len word share list \<Rightarrow> 'w word share list \<Rightarrow> rngs \<Rightarrow> party \<Rightarrow> 'w word list" where
  "ring_local_and lhs rhs rng i =
     map2 (\<lambda>k (l, r). and_local l r XOR zero_mask rng k i)
       [0..<length (zip lhs rhs)] (zip lhs rhs)"

definition ring_and_many ::
    "network \<Rightarrow> rngs \<Rightarrow> 'w::len shares \<Rightarrow> 'w shares \<Rightarrow> 'w shares res" where
  "ring_and_many net rng lhs rhs =
     (let local = (\<lambda>p. ring_local_and (lhs p) (rhs p) rng p)
      in bindE (reshare net local) (\<lambda>nxt. Inr (\<lambda>p. ring_recombine (local p) (nxt p))))"

lemma length_ring_local_and [simp]:
  "length (ring_local_and xs ys rng i) = min (length xs) (length ys)"
  by (simp add: ring_local_and_def)

lemma nth_ring_local_and:
  "k < length xs \<Longrightarrow> k < length ys \<Longrightarrow>
   ring_local_and xs ys rng i ! k = zero_mask rng k i XOR and_local (xs ! k) (ys ! k)"
  by (simp add: ring_local_and_def xor.commute)

lemma and_local_sum:
  "shared S x \<Longrightarrow> shared T y \<Longrightarrow>
   and_local (S ID0) (T ID0) XOR and_local (S ID1) (T ID1) XOR and_local (S ID2) (T ID2) = x AND y"
  by (rule bit_word_eqI) (simp add: shared_def and_local_def bit_simps all_party, blast)

lemma ring_local_and_shared:
  assumes "shared_list A xs" and "shared_list B ys" and "length xs = length ys" and "correlated rng"
  shows "shared_list (\<lambda>p. ring_recombine (ring_local_and (A p) (B p) rng p)
     (ring_local_and (A (prev_party p)) (B (prev_party p)) rng (prev_party p)))
     (map2 (AND) xs ys)"
  by (rule shared_recombine [where L = "\<lambda>p. ring_local_and (A p) (B p) rng p"])
    (simp_all add: assms(3) shared_listD(1) [OF assms(1)] shared_listD(1) [OF assms(2)]
      nth_ring_local_and xor_three_masks [OF assms(4)]
      and_local_sum [OF shared_listD(2) [OF assms(1)] shared_listD(2) [OF assms(2)]])

text \<open>
  The contract of \<open>binary::and_vec\<close> of the backend: on sharings of two vectors of one length it
  returns a sharing of their elementwise AND, whenever its environment (network, generators) is
  as the backend expects, which \<open>ready\<close> stands for.
\<close>

locale and_protocol =
  fixes and_vec :: "'w::len shares \<Rightarrow> 'w shares \<Rightarrow> 'w shares res"
    and ready :: bool
  assumes and_vec_ok: "ready \<Longrightarrow> shared_list A xs \<Longrightarrow> shared_list B ys \<Longrightarrow> length xs = length ys \<Longrightarrow>
    \<exists>C. and_vec A B = Inr C \<and> shared_list C (map2 (AND) xs ys)"

lemma ring_and_many_correct:
  assumes "shared_list A xs" and "shared_list B ys" and "length xs = length ys"
    and "online net" and "correlated rng"
  shows "\<exists>C. ring_and_many net rng A B = Inr C \<and> shared_list C (map2 (AND) xs ys)"
  using ring_local_and_shared [OF assms(1-3,5)] assms(4) by (simp add: ring_and_many_def)

interpretation ring_and: and_protocol "ring_and_many net rng" "online net \<and> correlated rng"
  for net rng
  by unfold_locales (auto intro: ring_and_many_correct)

section \<open>A concrete environment\<close>

text \<open>
  An environment for evaluations: every message arrives and every generator draws zeros; public
  values serve as inputs under their trivial sharing.
\<close>

definition all_online :: network where
  "all_online = (\<lambda>q p. True)"

definition zero_rng :: rngs where
  "zero_rng = (\<lambda>k p. (0, 0))"

lemma concrete_environment [simp]: "online all_online" "correlated zero_rng"
  by (simp_all add: online_def all_online_def correlated_def zero_rng_def)

lemma promote_public_values_shared [simp]: "shared_list (\<lambda>p. promote_public_values p vs) vs"
  by (auto simp: shared_list_def promote_public_values_def)

section \<open>Properties\<close>

text \<open>Sharing and opening are inverse: when party \<open>i\<close> inputs its secrets and the result is
  opened, every party obtains exactly those secrets, whatever the randomness.\<close>

theorem input_then_open:
  assumes "\<And>p. length (secrets p) = length (secrets i)" and "online net" and "correlated rng"
  shows "bindE (input_shares i secrets net rng) (open_many net) = Inr (\<lambda>p. secrets i)"
proof -
  obtain S where "input_shares i secrets net rng = Inr S" "shared_list S (secrets i)"
    using input_shares_correct [of secrets "secrets i" i, OF assms(1) refl assms(2,3)] by blast
  then show ?thesis by (simp add: open_many_correct assms(2))
qed

theorem input_then_open_witness:
  "bindE (input_shares ID1 (\<lambda>p. if p = ID1 then [5, 9 :: 32 word] else [0, 0]) all_online zero_rng)
     (open_many all_online) = Inr (\<lambda>p. [5, 9])"
  by (subst input_then_open) simp_all

text \<open>C29: Moving a replicated sharing to two parties and back keeps its content: the two parties'
  parts add up to the values, and \<open>from_2_shares\<close> turns them into a replicated sharing that opens
  to the same values at every party.\<close>

theorem resharing_roundtrip:
  assumes "shared_list S xs" and "p \<noteq> q" and "online net" and "correlated rng"
  shows "map2 (XOR) (reshare_3_to_2 (S p) p q p) (reshare_3_to_2 (S q) p q q) = xs \<and>
    bindE (from_2_shares (\<lambda>i. reshare_3_to_2 (S i) p q i) p q net rng) (open_many net) = Inr (\<lambda>i. xs)"
proof -
  note two = reshare_3_to_2_correct [OF assms(1,2)]
  obtain T where T: "from_2_shares (\<lambda>i. reshare_3_to_2 (S i) p q i) p q net rng = Inr T" "shared_list T xs"
    using from_2_shares_correct [OF two assms(2-4)] by blast
  have "map2 (XOR) (reshare_3_to_2 (S p) p q p) (reshare_3_to_2 (S q) p q q) = xs"
    using two by (intro nth_equalityI) (simp_all add: two_shared_def shared_listD(1) [OF assms(1)])
  then show ?thesis using T by (simp add: open_many_correct assms(3))
qed

theorem resharing_roundtrip_witness:
  "bindE (from_2_shares (\<lambda>i. reshare_3_to_2 (promote_public_values i [5, 9 :: 32 word]) ID2 ID0 i)
     ID2 ID0 all_online zero_rng) (open_many all_online) = Inr (\<lambda>i. [5, 9])"
  by (rule resharing_roundtrip [THEN conjunct2]) simp_all

text \<open>The batched AND protocol computes the bitwise AND of what its inputs open to.\<close>

theorem and_then_open:
  assumes "shared_list A xs" and "shared_list B ys" and "length xs = length ys"
    and "online net" and "correlated rng"
  shows "bindE (ring_and_many net rng A B) (open_many net) = Inr (\<lambda>p. map2 (AND) xs ys)"
  using ring_and_many_correct [OF assms] assms(4) by (auto simp: open_many_correct)

theorem and_then_open_witness:
  "bindE (ring_and_many all_online zero_rng (\<lambda>p. promote_public_values p [12, 10 :: 32 word])
     (\<lambda>p. promote_public_values p [10, 3])) (open_many all_online) = Inr (\<lambda>p. [8, 2])"
  by (subst and_then_open [where xs = "[12, 10]" and ys = "[10, 3]"]) simp_all

text \<open>C30: Opening is sound over any network: if it returns, every party has the shared values, and
  it fails only when some message to a party's neighbour is lost. The same for revealing to one
  party, which returns the values to that party and nothing to the others.\<close>

theorem opening_sound:
  assumes S: "shared_list S xs"
  shows "(case open_many net S of Inr R \<Rightarrow> R = (\<lambda>p. xs) | Inl e \<Rightarrow> \<exists>p. \<not> net (prev_party p) p) \<and>
    (case reveal_to_party_many net S target of
       Inr R \<Rightarrow> R = (\<lambda>p. if p = target then Some xs else None)
     | Inl e \<Rightarrow> \<not> net (prev_party target) target)"
proof (intro conjI)
  show "case open_many net S of Inr R \<Rightarrow> R = (\<lambda>p. xs) | Inl e \<Rightarrow> \<exists>p. \<not> net (prev_party p) p"
    by (auto simp: open_many_def reshare_def map2_open [OF S] unwrapE_def checkE_def
        intro: exI [of _ ID0] exI [of _ ID1] exI [of _ ID2])
  show "case reveal_to_party_many net S target of
       Inr R \<Rightarrow> R = (\<lambda>p. if p = target then Some xs else None)
     | Inl e \<Rightarrow> \<not> net (prev_party target) target"
    by (auto simp: reveal_to_party_many_def deliver_def checkE_def bindE_def map2_open [OF S]
        shared_listD(1) [OF S])
qed

theorem opening_sound_witness:
  "open_many (\<lambda>q p. p \<noteq> ID2) (\<lambda>p. promote_public_values p [5 :: 32 word]) = Inl (Panic ''unwrap'') \<and>
   (\<exists>p. \<not> (p :: party) \<noteq> ID2)"
proof -
  have "open_many (\<lambda>q p. p \<noteq> ID2) (\<lambda>p. promote_public_values p [5 :: 32 word]) = Inl (Panic ''unwrap'')"
    by (simp add: open_many_def reshare_def deliver_def)
  then show ?thesis
    using opening_sound [OF promote_public_values_shared [of "[5 :: 32 word]"], of "\<lambda>q p. p \<noteq> ID2" ID0]
    by simp
qed

end
