(* ===== verification/Permutation.thy ===== *)
theory Permutation
  imports Prelude
begin

text \<open>
  \<open>crates/primitives/src/permutation.rs\<close>: a permutation held as the choices \<open>fy\<close> of a
  Fisher-Yates shuffle, with its table \<open>pi\<close> computed on first use. \<open>shuffle\<close> swaps from the last
  position down, \<open>inverse_shuffle\<close> from the first up, and \<open>evaluate_at\<close> says where the entry at
  an index ends up. The locale \<open>shuffling\<close> is what the users of a permutation rely on.
\<close>

section \<open>The operations\<close>

record local_permutation =
  lp_n :: nat
  lp_fy :: "nat list"
  lp_pi :: "nat list option"

definition sample_from_rng :: "nat \<Rightarrow> (nat \<Rightarrow> nat) \<Rightarrow> local_permutation" where
  "sample_from_rng n gen_range =
     \<lparr>lp_n = n, lp_fy = map (\<lambda>i. if i = 0 then 0 else gen_range i) [0..<n], lp_pi = None\<rparr>"

definition from_fisher_yates :: "nat list \<Rightarrow> local_permutation" where
  "from_fisher_yates fy = \<lparr>lp_n = length fy, lp_fy = fy, lp_pi = None\<rparr>"

definition swap_choice :: "local_permutation \<Rightarrow> nat \<Rightarrow> 'a list \<Rightarrow> 'a list res" where
  "swap_choice lp i values = bindE (getE (lp_fy lp) i) (\<lambda>j. swapE values i j)"

definition shuffle_lp :: "local_permutation \<Rightarrow> 'a list \<Rightarrow> 'a list res" where
  "shuffle_lp lp values =
     checkE (length values = lp_n lp) (Panic ''shuffle: length'')
       (foldE (swap_choice lp) (rev [1..<lp_n lp]) values)"

definition inverse_shuffle_lp :: "local_permutation \<Rightarrow> 'a list \<Rightarrow> 'a list res" where
  "inverse_shuffle_lp lp values =
     checkE (length values = lp_n lp) (Panic ''inverse_shuffle: length'')
       (foldE (swap_choice lp) [1..<lp_n lp] values)"

definition evaluate_at :: "local_permutation \<Rightarrow> nat \<Rightarrow> (nat \<times> local_permutation) res" where
  "evaluate_at lp input =
     checkE (input < lp_n lp) (Panic ''evaluate_at: input'')
       (case lp_pi lp of
          Some pi \<Rightarrow> bindE (getE pi input) (\<lambda>out. Inr (out, lp))
        | None \<Rightarrow> bindE (inverse_shuffle_lp lp [0..<lp_n lp]) (\<lambda>pi.
            bindE (getE pi input) (\<lambda>out. Inr (out, lp\<lparr>lp_pi := Some pi\<rparr>))))"

section \<open>Well-formed permutations and their meaning\<close>

definition swap_at :: "local_permutation \<Rightarrow> nat \<Rightarrow> 'a list \<Rightarrow> 'a list" where
  "swap_at lp i xs = swap_list xs i (lp_fy lp ! i)"

definition shuffled :: "local_permutation \<Rightarrow> 'a list \<Rightarrow> 'a list" where
  "shuffled lp xs = fold (swap_at lp) (rev [1..<lp_n lp]) xs"

definition unshuffled :: "local_permutation \<Rightarrow> 'a list \<Rightarrow> 'a list" where
  "unshuffled lp xs = fold (swap_at lp) [1..<lp_n lp] xs"

text \<open>The position an entry of the input has in the shuffled output.\<close>

definition dest :: "local_permutation \<Rightarrow> nat \<Rightarrow> nat" where
  "dest lp i = unshuffled lp [0..<lp_n lp] ! i"

definition valid_choices :: "local_permutation \<Rightarrow> bool" where
  "valid_choices lp \<longleftrightarrow> length (lp_fy lp) = lp_n lp \<and> (\<forall>i \<in> {1..<lp_n lp}. lp_fy lp ! i \<le> i)"

definition valid_lp :: "local_permutation \<Rightarrow> bool" where
  "valid_lp lp \<longleftrightarrow> valid_choices lp \<and>
     (\<forall>pi. lp_pi lp = Some pi \<longrightarrow> pi = unshuffled lp [0..<lp_n lp])"

lemma valid_lp_choices [simp]: "valid_lp lp \<Longrightarrow> valid_choices lp"
  by (simp add: valid_lp_def)

lemma choice_less: "valid_choices lp \<Longrightarrow> i \<in> {1..<lp_n lp} \<Longrightarrow> lp_fy lp ! i < lp_n lp"
  unfolding valid_choices_def by (metis atLeastLessThan_iff order_le_less_trans)

lemma length_swap_at [simp]: "length (swap_at lp i xs) = length xs"
  by (simp add: swap_at_def)

lemma length_fold_swap_at [simp]: "length (fold (swap_at lp) is xs) = length xs"
  by (induction "is" arbitrary: xs) simp_all

lemma length_shuffled [simp]: "length (shuffled lp xs) = length xs"
  and length_unshuffled [simp]: "length (unshuffled lp xs) = length xs"
  by (simp_all add: shuffled_def unshuffled_def)

lemma swap_loop_total:
  assumes "valid_choices lp" and "set is \<subseteq> {1..<lp_n lp}" and "length xs = lp_n lp"
  shows "foldE (swap_choice lp) is xs = Inr (fold (swap_at lp) is xs)"
proof -
  have step: "swap_choice lp i ys = Inr (swap_at lp i ys)" if "i \<in> set is" "length ys = lp_n lp" for i ys
    using that assms choice_less [OF assms(1), of i]
    by (auto simp: swap_choice_def swap_at_def valid_choices_def subset_iff)
  show ?thesis
    by (rule foldE_total [where P = "\<lambda>ys. length ys = lp_n lp", THEN conjunct1])
      (simp_all add: step assms(3))
qed

lemma shuffle_lp_total:
  "valid_choices lp \<Longrightarrow> length xs = lp_n lp \<Longrightarrow> shuffle_lp lp xs = Inr (shuffled lp xs)"
  by (simp add: shuffle_lp_def shuffled_def) (rule swap_loop_total, auto)

lemma inverse_shuffle_lp_total:
  "valid_choices lp \<Longrightarrow> length xs = lp_n lp \<Longrightarrow>
   inverse_shuffle_lp lp xs = Inr (unshuffled lp xs)"
  by (simp add: inverse_shuffle_lp_def unshuffled_def) (rule swap_loop_total, auto)

lemma swap_at_swap_at:
  "valid_choices lp \<Longrightarrow> i \<in> {1..<lp_n lp} \<Longrightarrow> length xs = lp_n lp \<Longrightarrow>
   swap_at lp i (swap_at lp i xs) = xs"
  by (simp add: swap_at_def choice_less)

lemma fold_swap_rev:
  assumes "valid_choices lp" and "set is \<subseteq> {1..<lp_n lp}" and "length xs = lp_n lp"
  shows "fold (swap_at lp) (rev is) (fold (swap_at lp) is xs) = xs"
  using assms(2,3)
  by (induction "is" arbitrary: xs) (simp_all add: swap_at_swap_at [OF assms(1)])

lemma unshuffled_shuffled [simp]:
  "valid_choices lp \<Longrightarrow> length xs = lp_n lp \<Longrightarrow> unshuffled lp (shuffled lp xs) = xs"
  using fold_swap_rev [of lp "rev [1..<lp_n lp]" xs] by (simp add: shuffled_def unshuffled_def)

lemma shuffled_unshuffled [simp]:
  "valid_choices lp \<Longrightarrow> length xs = lp_n lp \<Longrightarrow> shuffled lp (unshuffled lp xs) = xs"
  using fold_swap_rev [of lp "[1..<lp_n lp]" xs] by (simp add: shuffled_def unshuffled_def)

lemma map_fold_swap_at:
  assumes "valid_choices lp" and "set is \<subseteq> {1..<lp_n lp}" and "length xs = lp_n lp"
  shows "fold (swap_at lp) is (map f xs) = map f (fold (swap_at lp) is xs)"
  using assms(2,3)
proof (induction "is" arbitrary: xs)
  case (Cons i "is")
  then have "swap_at lp i (map f xs) = map f (swap_at lp i xs)"
    by (simp add: swap_at_def map_swap_list choice_less [OF assms(1)])
  with Cons show ?case by simp
qed simp

lemma shuffled_map:
  "valid_choices lp \<Longrightarrow> length xs = lp_n lp \<Longrightarrow> shuffled lp (map f xs) = map f (shuffled lp xs)"
  and unshuffled_map:
  "valid_choices lp \<Longrightarrow> length xs = lp_n lp \<Longrightarrow> unshuffled lp (map f xs) = map f (unshuffled lp xs)"
  by (auto simp: shuffled_def unshuffled_def intro!: map_fold_swap_at)

lemma mset_fold_swap_at:
  assumes "valid_choices lp" and "set is \<subseteq> {1..<lp_n lp}" and "length xs = lp_n lp"
  shows "mset (fold (swap_at lp) is xs) = mset xs"
  using assms(2,3)
  by (induction "is" arbitrary: xs) (auto simp: swap_at_def choice_less [OF assms(1)])

lemma mset_shuffled [simp]:
  "valid_choices lp \<Longrightarrow> length xs = lp_n lp \<Longrightarrow> mset (shuffled lp xs) = mset xs"
  and mset_unshuffled [simp]:
  "valid_choices lp \<Longrightarrow> length xs = lp_n lp \<Longrightarrow> mset (unshuffled lp xs) = mset xs"
  by (auto simp: shuffled_def unshuffled_def intro!: mset_fold_swap_at)

text \<open>Either direction is a fixed rearrangement of positions, whatever the entries.\<close>

lemma shuffled_as_map:
  assumes "valid_choices lp" and "length xs = lp_n lp"
  shows "shuffled lp xs = map ((!) xs) (shuffled lp [0..<lp_n lp])"
  using shuffled_map [OF assms(1), of "[0..<lp_n lp]" "(!) xs"] assms(2)
  by (simp add: map_nth [of xs, unfolded assms(2)])

lemma unshuffled_as_map:
  assumes "valid_choices lp" and "length xs = lp_n lp"
  shows "unshuffled lp xs = map ((!) xs) (unshuffled lp [0..<lp_n lp])"
  using unshuffled_map [OF assms(1), of "[0..<lp_n lp]" "(!) xs"] assms(2)
  by (simp add: map_nth [of xs, unfolded assms(2)])

text \<open>An entry's position after the shuffle is what the inverse shuffle of the identity holds.\<close>

lemma unshuffled_nth:
  "valid_choices lp \<Longrightarrow> length ys = lp_n lp \<Longrightarrow> i < lp_n lp \<Longrightarrow>
   unshuffled lp ys ! i = ys ! dest lp i"
  by (subst unshuffled_as_map) (simp_all add: dest_def)

lemma bij_betw_dest:
  assumes "valid_choices lp"
  shows "bij_betw (dest lp) {..<lp_n lp} {..<lp_n lp}"
proof -
  let ?pi = "unshuffled lp [0..<lp_n lp]"
  have m: "mset ?pi = mset [0..<lp_n lp]" using assms by simp
  then have "distinct ?pi" by (metis distinct_upt mset_eq_imp_distinct_iff)
  moreover have "set ?pi = {..<lp_n lp}" by (metis m atLeast_upt mset_eq_setD)
  ultimately have "bij_betw ((!) ?pi) {..<lp_n lp} {..<lp_n lp}"
    using bij_betw_nth [of ?pi] by simp
  then show ?thesis
    by (rule bij_betw_cong [THEN iffD1, rotated]) (simp add: dest_def)
qed

lemma evaluate_at_correct:
  assumes "valid_lp lp" and "i < lp_n lp"
  shows "\<exists>lp'. evaluate_at lp i = Inr (dest lp i, lp') \<and> valid_lp lp' \<and>
    lp_n lp' = lp_n lp \<and> lp_fy lp' = lp_fy lp"
proof (cases "lp_pi lp")
  case None
  let ?lp' = "lp\<lparr>lp_pi := Some (unshuffled lp [0..<lp_n lp])\<rparr>"
  have "swap_at ?lp' = (swap_at lp :: nat \<Rightarrow> nat list \<Rightarrow> nat list)"
    by (auto simp: swap_at_def fun_eq_iff)
  then have "valid_lp ?lp'"
    using assms(1) by (auto simp: valid_lp_def valid_choices_def unshuffled_def)
  with None assms show ?thesis
    by (simp add: evaluate_at_def inverse_shuffle_lp_total dest_def)
qed (use assms in \<open>auto simp: evaluate_at_def valid_lp_def dest_def\<close>)

section \<open>What the users of a permutation rely on\<close>

text \<open>
  The contract between a permutation and the code that moves several columns with it:
  the two directions undo each other, entries move by \<open>dest\<close> whatever their type, and
  \<open>dest\<close> is a bijection of the indices.
\<close>

locale shuffling =
  fixes valid :: "'p \<Rightarrow> bool"
    and size_of :: "'p \<Rightarrow> nat"
    and fwd :: "'p \<Rightarrow> 'a list \<Rightarrow> 'a list"
    and bwd :: "'p \<Rightarrow> 'a list \<Rightarrow> 'a list"
    and target :: "'p \<Rightarrow> nat \<Rightarrow> nat"
  assumes fwd_length: "length (fwd p xs) = length xs"
    and bwd_fwd: "valid p \<Longrightarrow> length xs = size_of p \<Longrightarrow> bwd p (fwd p xs) = xs"
    and bwd_nth: "valid p \<Longrightarrow> length ys = size_of p \<Longrightarrow> i < size_of p \<Longrightarrow>
      bwd p ys ! i = ys ! target p i"
    and target_bij: "valid p \<Longrightarrow> bij_betw (target p) {..<size_of p} {..<size_of p}"
begin

lemma fwd_target:
  "valid p \<Longrightarrow> length xs = size_of p \<Longrightarrow> i < size_of p \<Longrightarrow> fwd p xs ! target p i = xs ! i"
  using bwd_nth [of p "fwd p xs" i] by (simp add: bwd_fwd fwd_length)

lemma target_less: "valid p \<Longrightarrow> i < size_of p \<Longrightarrow> target p i < size_of p"
  using target_bij [of p] by (auto simp: bij_betw_def)

lemma target_inj:
  "valid p \<Longrightarrow> i < size_of p \<Longrightarrow> j < size_of p \<Longrightarrow> target p i = target p j \<Longrightarrow> i = j"
  using target_bij [of p] by (auto simp: bij_betw_def inj_on_def)

lemma fwd_source:
  assumes "valid p" and "length xs = size_of p" and "j < size_of p"
  shows "\<exists>i < size_of p. target p i = j \<and> fwd p xs ! j = xs ! i"
proof -
  have "j \<in> target p ` {..<size_of p}"
    using target_bij [OF assms(1)] assms(3) by (simp add: bij_betw_def)
  then obtain i where "i < size_of p" "target p i = j" by auto
  with fwd_target [OF assms(1,2)] show ?thesis by blast
qed

end

interpretation fy: shuffling valid_choices lp_n shuffled unshuffled dest
  by unfold_locales (simp_all add: unshuffled_nth bij_betw_dest)

lemma sample_from_rng_valid:
  "(\<And>i. gen i \<le> i) \<Longrightarrow> valid_lp (sample_from_rng n gen) \<and> lp_n (sample_from_rng n gen) = n"
  by (auto simp: sample_from_rng_def valid_lp_def valid_choices_def)

end
