(* ===== verification/Array_Shuffle.thy ===== *)
theory Array_Shuffle
  imports Sharing Permutation
begin

text \<open>
  \<open>crates/primitives/src/array_shuffle.rs\<close>: the three-party shuffle of secret-shared columns.
  Every party shares one permutation with the next and one with the previous party, drawn from
  their common generators. One step moves the data to the two parties that share a permutation,
  who apply it, and reshares; three steps, one per pair, make a shuffle no party knows.

  \<open>sample_indices\<close> is a rejection loop: it is a \<open>partial_function\<close>, so that \<open>None\<close> stands for
  a loop that never ends. A party's position in its generators is explicit (\<open>k\<close>), because it
  advances by one for every attempt, also the rejected ones.
\<close>

section \<open>Sampling the shared permutations\<close>

record array_shuffler =
  prev_shared_perm :: local_permutation
  next_shared_perm :: local_permutation

definition sample_zone :: "nat \<Rightarrow> nat" where
  "sample_zone bound = (2 ^ 128 - 1) - ((2 ^ 128 - 1) mod bound)"

definition draw_u128 :: "rngs \<Rightarrow> nat \<Rightarrow> party \<Rightarrow> nat \<times> nat" where
  "draw_u128 rng k p =
     (case random_elements rng k p of (r1 :: 128 word, r2 :: 128 word) \<Rightarrow> (unat r1, unat r2))"

partial_function (option) sample_indices ::
    "rngs \<Rightarrow> party \<Rightarrow> nat \<Rightarrow> nat \<Rightarrow> (nat \<times> nat \<times> nat) option" where
  "sample_indices rng p k bound =
     (if fst (draw_u128 rng k p) < sample_zone bound \<and> snd (draw_u128 rng k p) < sample_zone bound
      then Some (fst (draw_u128 rng k p) mod bound, snd (draw_u128 rng k p) mod bound, Suc k)
      else sample_indices rng p (Suc k) bound)"

primrec sample_loop ::
    "rngs \<Rightarrow> party \<Rightarrow> nat list \<Rightarrow> nat list \<times> nat list \<times> nat \<Rightarrow> (nat list \<times> nat list \<times> nat) option"
where
  "sample_loop rng p [] st = Some st"
| "sample_loop rng p (i # is) st =
     (case st of (prev_fy, next_fy, k) \<Rightarrow>
        (case sample_indices rng p k (i + 1) of
           None \<Rightarrow> None
         | Some (next_index, prev_index, k') \<Rightarrow>
             sample_loop rng p is (prev_fy[i := prev_index], next_fy[i := next_index], k')))"

definition shuffler_new :: "rngs \<Rightarrow> party \<Rightarrow> nat \<Rightarrow> nat \<Rightarrow> (array_shuffler \<times> nat) option" where
  "shuffler_new rng p k len =
     (case sample_loop rng p [1..<len] (replicate len 0, replicate len 0, k) of
        None \<Rightarrow> None
      | Some (prev_fy, next_fy, k') \<Rightarrow>
          Some (\<lparr>prev_shared_perm = from_fisher_yates prev_fy,
                 next_shared_perm = from_fisher_yates next_fy\<rparr>, k'))"

lemma sample_zone_multiple: "0 < bound \<Longrightarrow> bound dvd sample_zone bound"
  by (simp add: sample_zone_def dvd_minus_mod)

lemma draw_u128_correlated:
  "correlated rng \<Longrightarrow> snd (draw_u128 rng k (next_party p)) = fst (draw_u128 rng k p)"
  by (simp add: draw_u128_def random_elements_def correlated_def)

lemma sample_indices_bounds:
  assumes "sample_indices rng p k bound = Some (a, b, k')" and "0 < bound"
  shows "a < bound \<and> b < bound"
proof -
  have "\<forall>a b k'. r = (a, b, k') \<longrightarrow> 0 < bound \<longrightarrow> a < bound \<and> b < bound"
    if "sample_indices rng p k bound = Some r" for r
  proof (rule sample_indices.raw_induct [where P = "\<lambda>rng p k bound r.
      \<forall>a b k'. r = (a, b, k') \<longrightarrow> 0 < bound \<longrightarrow> a < bound \<and> b < bound", OF _ that])
    fix f :: "rngs \<Rightarrow> party \<Rightarrow> nat \<Rightarrow> nat \<Rightarrow> (nat \<times> nat \<times> nat) option" and rng p k bound r
    assume IH: "\<And>rng p k bound r. f rng p k bound = Some r \<Longrightarrow>
        \<forall>a b k'. r = (a, b, k') \<longrightarrow> 0 < bound \<longrightarrow> a < bound \<and> b < bound"
      and eq: "(if fst (draw_u128 rng k p) < sample_zone bound \<and>
            snd (draw_u128 rng k p) < sample_zone bound
          then Some (fst (draw_u128 rng k p) mod bound, snd (draw_u128 rng k p) mod bound, Suc k)
          else f rng p (Suc k) bound) = Some r"
    from eq IH [of rng p "Suc k" bound r]
    show "\<forall>a b k'. r = (a, b, k') \<longrightarrow> 0 < bound \<longrightarrow> a < bound \<and> b < bound"
      by (auto split: if_splits)
  qed
  with assms show ?thesis by blast
qed

text \<open>What every sampled list of choices looks like, whichever draws were rejected.\<close>

definition choices_ok :: "nat list \<Rightarrow> bool" where
  "choices_ok fy \<longleftrightarrow> (\<forall>i < length fy. fy ! i \<le> i)"

lemma choices_ok_update: "choices_ok fy \<Longrightarrow> c \<le> i \<Longrightarrow> choices_ok (fy[i := c])"
  by (cases "i < length fy") (auto simp: choices_ok_def nth_list_update list_update_beyond)

lemma valid_from_fisher_yates:
  "choices_ok fy \<Longrightarrow> valid_lp (from_fisher_yates fy)"
  by (simp add: choices_ok_def from_fisher_yates_def valid_lp_def valid_choices_def)

lemma sample_loop_ok:
  assumes "sample_loop rng p is (prev_fy, next_fy, k) = Some (prev_fy', next_fy', k')"
    and "choices_ok prev_fy" and "choices_ok next_fy"
  shows "choices_ok prev_fy' \<and> choices_ok next_fy' \<and>
    length prev_fy' = length prev_fy \<and> length next_fy' = length next_fy"
  using assms
proof (induction "is" arbitrary: prev_fy next_fy k)
  case (Cons i "is")
  then obtain a b k'' where s: "sample_indices rng p k (i + 1) = Some (a, b, k'')"
    and rest: "sample_loop rng p is (prev_fy[i := b], next_fy[i := a], k'') =
      Some (prev_fy', next_fy', k')"
    by (auto split: option.splits)
  from sample_indices_bounds [OF s] have "a \<le> i" "b \<le> i" by simp_all
  with Cons.prems(2,3) Cons.IH [OF rest] show ?case by (simp add: choices_ok_update)
qed simp

lemma shuffler_new_valid:
  assumes "shuffler_new rng p k len = Some (sh, k')"
  shows "valid_lp (prev_shared_perm sh) \<and> valid_lp (next_shared_perm sh) \<and>
    lp_n (prev_shared_perm sh) = len \<and> lp_n (next_shared_perm sh) = len"
proof -
  from assms obtain prev_fy next_fy where
    loop: "sample_loop rng p [1..<len] (replicate len 0, replicate len 0, k) =
      Some (prev_fy, next_fy, k')"
    and sh: "sh = \<lparr>prev_shared_perm = from_fisher_yates prev_fy,
      next_shared_perm = from_fisher_yates next_fy\<rparr>"
    by (auto simp: shuffler_new_def split: option.splits)
  have "choices_ok (replicate len 0)" by (simp add: choices_ok_def)
  with sample_loop_ok [OF loop] sh show ?thesis
    by (simp add: valid_from_fisher_yates) (simp add: from_fisher_yates_def)
qed

section \<open>The parties' permutations agree when no draw is rejected\<close>

definition accepted :: "rngs \<Rightarrow> nat \<Rightarrow> nat \<Rightarrow> bool" where
  "accepted rng k bound \<longleftrightarrow> (\<forall>p. fst (draw_u128 rng k p) < sample_zone bound)"

lemma sample_indices_accepted:
  assumes "correlated rng" and "accepted rng k bound"
  shows "sample_indices rng p k bound =
    Some (fst (draw_u128 rng k p) mod bound, fst (draw_u128 rng k (prev_party p)) mod bound, Suc k)"
proof -
  have "snd (draw_u128 rng k p) = fst (draw_u128 rng k (prev_party p))"
    using draw_u128_correlated [OF assms(1), of k "prev_party p"] by simp
  with assms(2) show ?thesis
    by (subst sample_indices.simps) (simp add: accepted_def)
qed

lemma sample_loop_accepted:
  assumes "correlated rng" and "\<And>j. j < length is \<Longrightarrow> accepted rng (k + j) (is ! j + 1)"
  shows "\<exists>fy. \<forall>p. sample_loop rng p is (fy0 (prev_party p), fy0 p, k) =
    Some (fy (prev_party p), fy p, k + length is)"
  using assms(2)
proof (induction "is" arbitrary: fy0 k)
  case (Cons i "is")
  let ?c = "\<lambda>p. fst (draw_u128 rng k p) mod (i + 1)"
  have acc: "accepted rng k (i + 1)" using Cons.prems [of 0] by simp
  have "\<And>j. j < length is \<Longrightarrow> accepted rng (Suc k + j) (is ! j + 1)"
    using Cons.prems [of "Suc j" for j] by simp
  from Cons.IH [OF this, of "\<lambda>p. (fy0 p)[i := ?c p]"]
  show ?case by (simp add: sample_indices_accepted [OF assms(1) acc, simplified])
qed auto

lemma shuffler_new_agree:
  assumes "correlated rng" and "\<And>j. j \<in> {1..<len} \<Longrightarrow> accepted rng (k + (j - 1)) (j + 1)"
  shows "\<exists>sh. \<forall>p. shuffler_new rng p k len = Some (sh p, k + (len - 1)) \<and>
    prev_shared_perm (sh (next_party p)) = next_shared_perm (sh p)"
proof -
  have "\<And>j. j < length [1..<len] \<Longrightarrow> accepted rng (k + j) ([1..<len] ! j + 1)"
    using assms(2) [of "Suc j" for j] by simp
  from sample_loop_accepted [OF assms(1) this, of "\<lambda>p. replicate len 0"]
  obtain fy where "\<forall>p. sample_loop rng p [1..<len] (replicate len 0, replicate len 0, k) =
      Some (fy (prev_party p), fy p, k + (len - 1))" by auto
  then show ?thesis
    by (intro exI [of _ "\<lambda>p. \<lparr>prev_shared_perm = from_fisher_yates (fy (prev_party p)),
      next_shared_perm = from_fisher_yates (fy p)\<rparr>"]) (simp add: shuffler_new_def)
qed

section \<open>When the sampling ends\<close>

definition accepts :: "rngs \<Rightarrow> party \<Rightarrow> nat \<Rightarrow> nat \<Rightarrow> bool" where
  "accepts rng p k bound \<longleftrightarrow> fst (draw_u128 rng k p) < sample_zone bound \<and> snd (draw_u128 rng k p) < sample_zone bound"

lemma sample_indices_ends:
  assumes "accepts rng p (k + d) bound"
  shows "\<exists>j. sample_indices rng p k bound = Some (fst (draw_u128 rng j p) mod bound, snd (draw_u128 rng j p) mod bound, Suc j) \<and>
    k \<le> j \<and> j \<le> k + d \<and> accepts rng p j bound"
  using assms
proof (induction d arbitrary: k)
  case (Suc d)
  show ?case
  proof (cases "accepts rng p k bound")
    case True
    then show ?thesis by (subst sample_indices.simps) (auto simp: accepts_def)
  next
    case False
    then have "sample_indices rng p k bound = sample_indices rng p (Suc k) bound"
      by (subst sample_indices.simps) (auto simp: accepts_def)
    moreover obtain j where "sample_indices rng p (Suc k) bound = Some (fst (draw_u128 rng j p) mod bound, snd (draw_u128 rng j p) mod bound, Suc j)"
      "Suc k \<le> j" "j \<le> Suc k + d" "accepts rng p j bound"
      using Suc.IH [of "Suc k"] Suc.prems by auto
    ultimately show ?thesis by (intro exI [of _ j]) simp
  qed
qed (subst sample_indices.simps, auto simp: accepts_def)

lemma sample_indices_accepts:
  assumes "sample_indices rng p k bound = Some r"
  shows "\<exists>j \<ge> k. accepts rng p j bound"
proof (rule sample_indices.raw_induct [where P = "\<lambda>rng p k bound r. \<exists>j \<ge> k. accepts rng p j bound", OF _ assms])
  fix f :: "rngs \<Rightarrow> party \<Rightarrow> nat \<Rightarrow> nat \<Rightarrow> (nat \<times> nat \<times> nat) option" and rng p k bound r
  assume IH: "\<And>rng p k bound r. f rng p k bound = Some r \<Longrightarrow> \<exists>j \<ge> k. accepts rng p j bound"
    and eq: "(if fst (draw_u128 rng k p) < sample_zone bound \<and> snd (draw_u128 rng k p) < sample_zone bound
          then Some (fst (draw_u128 rng k p) mod bound, snd (draw_u128 rng k p) mod bound, Suc k)
          else f rng p (Suc k) bound) = Some r"
  show "\<exists>j \<ge> k. accepts rng p j bound"
  proof (cases "accepts rng p k bound")
    case False
    then have "f rng p (Suc k) bound = Some r" using eq by (auto simp: accepts_def split: if_splits)
    then show ?thesis using IH [of rng p "Suc k" bound r] Suc_leD by blast
  qed blast
qed

lemma sample_indices_None_iff: "sample_indices rng p k bound = None \<longleftrightarrow> (\<forall>j \<ge> k. \<not> accepts rng p j bound)"
proof -
  have "sample_indices rng p k bound \<noteq> None" if "k \<le> j" "accepts rng p j bound" for j
    using sample_indices_ends [of rng p k "j - k" bound] that by auto
  moreover have "\<exists>j \<ge> k. accepts rng p j bound" if "sample_indices rng p k bound \<noteq> None"
    using sample_indices_accepts that by blast
  ultimately show ?thesis by blast
qed

lemma sample_loop_ends:
  assumes "\<And>i j. i \<in> set is \<Longrightarrow> \<exists>j' \<ge> j. accepts rng p j' (i + 1)"
  shows "\<exists>prev_fy' next_fy' k'. sample_loop rng p is (prev_fy, next_fy, k) = Some (prev_fy', next_fy', k') \<and> k + length is \<le> k'"
  using assms
proof (induction "is" arbitrary: prev_fy next_fy k)
  case (Cons i "is")
  obtain d where "accepts rng p (k + d) (i + 1)" using Cons.prems [of i k] by (auto simp: le_iff_add)
  from sample_indices_ends [OF this] obtain a b j where s: "sample_indices rng p k (i + 1) = Some (a, b, Suc j)" "k \<le> j" by blast
  from Cons.IH [of "prev_fy[i := b]" "next_fy[i := a]" "Suc j"] Cons.prems
  obtain prev_fy' next_fy' k' where "sample_loop rng p is (prev_fy[i := b], next_fy[i := a], Suc j) = Some (prev_fy', next_fy', k')"
    "Suc j + length is \<le> k'" by auto
  then show ?case using s by simp
qed simp

section \<open>A rejected draw\<close>

lemma sample_loop_append:
  "sample_loop rng p (is @ js) st = (case sample_loop rng p is st of None \<Rightarrow> None | Some st' \<Rightarrow> sample_loop rng p js st')"
  by (induction "is" arbitrary: st) (auto split: option.splits)

lemma sample_loop_other:
  assumes "sample_loop rng p is (prev_fy, next_fy, k) = Some (prev_fy', next_fy', k')" and "i \<notin> set is"
  shows "prev_fy' ! i = prev_fy ! i \<and> next_fy' ! i = next_fy ! i"
  using assms
proof (induction "is" arbitrary: prev_fy next_fy k)
  case (Cons j "is")
  then obtain a b k'' where "sample_loop rng p is (prev_fy[j := b], next_fy[j := a], k'') = Some (prev_fy', next_fy', k')"
    by (auto split: option.splits)
  from Cons.IH [OF this] show ?case using Cons.prems(2) by simp
qed simp

text \<open>A party whose draws up to index \<open>i\<close> were accepted, and what it writes at index \<open>i\<close>.\<close>

lemma shuffler_new_index:
  assumes rng: "correlated rng" and i: "1 \<le> i" "i < len"
    and acc: "\<And>j. j \<in> {1..<i} \<Longrightarrow> accepted rng (k + (j - 1)) (j + 1)"
    and new: "shuffler_new rng p k len = Some (sh, k')"
  shows "\<exists>prev_fy next_fy a b m. prev_shared_perm sh = from_fisher_yates prev_fy \<and> next_shared_perm sh = from_fisher_yates next_fy \<and>
    sample_indices rng p (k + (i - 1)) (i + 1) = Some (a, b, m) \<and> next_fy ! i = a \<and> prev_fy ! i = b"
proof -
  obtain prev_fy next_fy where loop: "sample_loop rng p [1..<len] (replicate len 0, replicate len 0, k) = Some (prev_fy, next_fy, k')"
    and sh: "prev_shared_perm sh = from_fisher_yates prev_fy" "next_shared_perm sh = from_fisher_yates next_fy"
    using new by (auto simp: shuffler_new_def split: option.splits)
  have split: "[1..<len] = [1..<i] @ i # [Suc i..<len]"
    using i upt_add_eq_append [of 1 i "len - i"] upt_conv_Cons [of i len] by simp
  have "\<And>j. j < length [1..<i] \<Longrightarrow> accepted rng (k + j) ([1..<i] ! j + 1)" using acc [of "Suc j" for j] by simp
  from sample_loop_accepted [OF rng this, of "\<lambda>p. replicate len 0"]
  obtain fy where first: "sample_loop rng p [1..<i] (replicate len 0, replicate len 0, k) = Some (fy (prev_party p), fy p, k + (i - 1))"
    by auto
  obtain a b m where s: "sample_indices rng p (k + (i - 1)) (i + 1) = Some (a, b, m)"
    and rest: "sample_loop rng p [Suc i..<len] ((fy (prev_party p))[i := b], (fy p)[i := a], m) = Some (prev_fy, next_fy, k')"
    using loop unfolding split sample_loop_append first by (auto split: option.splits)
  have choices: "choices_ok (replicate len 0)" by (simp add: choices_ok_def)
  have "length (fy (prev_party p)) = len" "length (fy p) = len" using sample_loop_ok [OF first choices choices] by simp_all
  then have "prev_fy ! i = b" "next_fy ! i = a" using sample_loop_other [OF rest] i by simp_all
  then show ?thesis using sh s by blast
qed

lemma sample_indices_rejected:
  assumes rng: "correlated rng" and rej: "\<not> accepts rng p k bound" and s: "sample_indices rng p k bound = Some (a, b, m)"
  shows "\<exists>j > k. m = Suc j \<and> a = fst (draw_u128 rng j p) mod bound \<and> b = fst (draw_u128 rng j (prev_party p)) mod bound"
proof -
  obtain l where "k \<le> l" "accepts rng p l bound" using sample_indices_accepts [OF s] by blast
  then obtain j where j: "k \<le> j" "accepts rng p j bound" "m = Suc j"
      "a = fst (draw_u128 rng j p) mod bound" "b = snd (draw_u128 rng j p) mod bound"
    using sample_indices_ends [of rng p k "l - k" bound] s by auto
  have "j \<noteq> k" using rej j(2) by auto
  moreover have "snd (draw_u128 rng j p) = fst (draw_u128 rng j (prev_party p))"
    using draw_u128_correlated [OF rng, of j "prev_party p"] by simp
  ultimately show ?thesis using j by (intro exI [of _ j]) simp
qed

section \<open>One step and the whole shuffle\<close>

definition permutation_for :: "array_shuffler \<Rightarrow> party \<Rightarrow> party \<Rightarrow> local_permutation option" where
  "permutation_for sh p i =
     (if i = p then Some (next_shared_perm sh)
      else if i = next_party p then Some (prev_shared_perm sh)
      else None)"

text \<open>One column on its way to the two parties that share the permutation of party \<open>p\<close>.\<close>

definition two_share_column ::
    "(local_permutation \<Rightarrow> 'w word list \<Rightarrow> 'w word list res) \<Rightarrow> array_shuffler \<Rightarrow> party \<Rightarrow> party \<Rightarrow>
     'w::len word share list \<Rightarrow> 'w word list res" where
  "two_share_column permute sh p i array =
     (let shares = reshare_3_to_2 array p (next_party p) i
      in case permutation_for sh p i of
           Some permutation \<Rightarrow> permute permutation shares
         | None \<Rightarrow> Inr shares)"

definition two_share_columns ::
    "(local_permutation \<Rightarrow> 'w word list \<Rightarrow> 'w word list res) \<Rightarrow> array_shuffler \<Rightarrow> party option \<Rightarrow> party \<Rightarrow>
     'w::len word share list list \<Rightarrow> 'w word list res" where
  "two_share_columns permute sh p_opt i arrays =
     (case p_opt of
        None \<Rightarrow> Inr []
      | Some p \<Rightarrow> bindE (mapE (two_share_column permute sh p i) arrays) (\<lambda>cols. Inr (concat cols)))"

definition column_owners :: "party option \<Rightarrow> 'a list list \<Rightarrow> (party \<times> party) list" where
  "column_owners p_opt arrays =
     (case p_opt of
        None \<Rightarrow> []
      | Some p \<Rightarrow> concat (map (\<lambda>array. replicate (length array) (p, next_party p)) arrays))"

definition from_2_shares_by_owner ::
    "(party \<Rightarrow> 'w::len word list) \<Rightarrow> (party \<Rightarrow> (party \<times> party) list) \<Rightarrow> network \<Rightarrow> rngs \<Rightarrow> 'w shares res"
where
  "from_2_shares_by_owner local_shares owners net rng =
     (let local = (\<lambda>i. masked_inputs rng i
            (\<lambda>k. i = fst (owners i ! k) \<or> i = snd (owners i ! k)) (local_shares i))
      in bindE (reshare net local) (\<lambda>nxt. Inr (\<lambda>i. ring_recombine (local i) (nxt i))))"

definition total_length :: "'a list list \<Rightarrow> nat" where
  "total_length arrays = sum_list (map length arrays)"

definition apply_step_many ::
    "(party \<Rightarrow> array_shuffler) \<Rightarrow> party option \<Rightarrow> party option \<Rightarrow> 'w::len columns \<Rightarrow> 'w columns \<Rightarrow>
     network \<Rightarrow> rngs \<Rightarrow> ('w columns \<times> 'w columns) res" where
  "apply_step_many sh forward_p inverse_p forward_arrays inverse_arrays net rng =
     bindE (each_party (\<lambda>i.
         bindE (two_share_columns shuffle_lp (sh i) forward_p i (forward_arrays i)) (\<lambda>fwd.
         bindE (two_share_columns inverse_shuffle_lp (sh i) inverse_p i (inverse_arrays i)) (\<lambda>inv.
           Inr (fwd @ inv))))) (\<lambda>two_shares.
     bindE (from_2_shares_by_owner two_shares
         (\<lambda>i. column_owners forward_p (forward_arrays i) @ column_owners inverse_p (inverse_arrays i))
         net rng) (\<lambda>reshared.
       checkE (\<forall>i \<in> {ID0, ID1, ID2}. total_length (forward_arrays i) + total_length (inverse_arrays i)
           \<le> length (reshared i)) index_out_of_bounds
         (Inr (\<lambda>i. split_lengths (map length (forward_arrays i)) (reshared i),
               \<lambda>i. split_lengths (map length (inverse_arrays i))
                     (drop (total_length (forward_arrays i)) (reshared i))))))"

definition shuffle_steps :: "bool \<Rightarrow> bool \<Rightarrow> (party option \<times> party option) list" where
  "shuffle_steps forward_empty inverse_empty =
     (case (forward_empty, inverse_empty) of
        (False, True) \<Rightarrow> [(Some ID0, None), (Some ID1, None), (Some ID2, None)]
      | (True, False) \<Rightarrow> [(None, Some ID2), (None, Some ID1), (None, Some ID0)]
      | _ \<Rightarrow> [(Some ID0, Some ID2), (Some ID1, Some ID1), (Some ID2, Some ID0)])"

text \<open>Each step draws one mask for every entry it sends, so the next step starts after these.\<close>

definition shuffle_many ::
    "(party \<Rightarrow> array_shuffler) \<Rightarrow> 'w::len columns \<Rightarrow> 'w columns \<Rightarrow> network \<Rightarrow> rngs \<Rightarrow>
     ('w columns \<times> 'w columns) res" where
  "shuffle_many sh forward_arrays inverse_arrays net rng =
     bindE (foldE (\<lambda>(forward_p, inverse_p) (fwd, inv, r).
         bindE (apply_step_many sh forward_p inverse_p fwd inv net r) (\<lambda>(fwd', inv').
           Inr (fwd', inv', skip_draws (total_length (fwd ID0) + total_length (inv ID0)) r)))
       (shuffle_steps (forward_arrays ID0 = []) (inverse_arrays ID0 = []))
       (forward_arrays, inverse_arrays, rng))
     (\<lambda>(fwd, inv, r). Inr (fwd, inv))"

definition forward_many ::
    "(party \<Rightarrow> array_shuffler) \<Rightarrow> 'w::len columns \<Rightarrow> network \<Rightarrow> rngs \<Rightarrow> 'w columns res" where
  "forward_many sh rep_arrays net rng =
     bindE (shuffle_many sh rep_arrays (\<lambda>i. []) net rng) (\<lambda>(fwd, inv). Inr fwd)"

definition forward_one ::
    "(party \<Rightarrow> array_shuffler) \<Rightarrow> 'w::len shares \<Rightarrow> network \<Rightarrow> rngs \<Rightarrow> 'w shares res" where
  "forward_one sh rep_array net rng =
     bindE (forward_many sh (\<lambda>i. [rep_array i]) net rng) (\<lambda>fwd. Inr (\<lambda>i. hd (fwd i)))"

definition forward_many_known_to_p_and_next ::
    "(party \<Rightarrow> array_shuffler) \<Rightarrow> party \<Rightarrow> 'w::len columns \<Rightarrow> network \<Rightarrow> rngs \<Rightarrow> 'w columns res" where
  "forward_many_known_to_p_and_next sh p rep_arrays net rng =
     bindE (apply_step_many sh (Some p) None rep_arrays (\<lambda>i. []) net rng) (\<lambda>(fwd, inv). Inr fwd)"

section \<open>What a step does to the opened columns\<close>

text \<open>Every entry sent is held, as a two-party sharing, by the two parties that own it.\<close>

definition owned :: "(party \<Rightarrow> 'w::len word list) \<Rightarrow> (party \<times> party) list \<Rightarrow> 'w word list \<Rightarrow> bool" where
  "owned L os xs \<longleftrightarrow> length os = length xs \<and> (\<forall>i. length (L i) = length xs) \<and>
     (\<forall>k < length xs. fst (os ! k) \<noteq> snd (os ! k) \<and>
        L (fst (os ! k)) ! k XOR L (snd (os ! k)) ! k = xs ! k)"

lemma owned_Nil [simp]: "owned (\<lambda>i. []) [] []"
  by (simp add: owned_def)

lemma owned_append:
  "owned L os xs \<Longrightarrow> owned M ps ys \<Longrightarrow> owned (\<lambda>i. L i @ M i) (os @ ps) (xs @ ys)"
  by (auto simp: owned_def nth_append)

lemma two_shared_owned:
  "two_shared L p q xs \<Longrightarrow> p \<noteq> q \<Longrightarrow> owned L (replicate (length xs) (p, q)) xs"
  by (simp add: two_shared_def owned_def)

lemma from_2_shares_by_owner_correct:
  assumes "owned L os xs" and "online net" and "correlated rng"
  shows "\<exists>S. from_2_shares_by_owner L (\<lambda>i. os) net rng = Inr S \<and> shared_list S xs"
proof -
  let ?h = "\<lambda>i k. i = fst (os ! k) \<or> i = snd (os ! k)"
  have "(if ?h ID0 k then L ID0 ! k else 0) XOR (if ?h ID1 k then L ID1 ! k else 0) XOR
      (if ?h ID2 k then L ID2 ! k else 0) = xs ! k" if k: "k < length xs" for k
  proof -
    have "fst (os ! k) \<noteq> snd (os ! k)" "L (fst (os ! k)) ! k XOR L (snd (os ! k)) ! k = xs ! k"
      using assms(1) k by (simp_all add: owned_def)
    then show ?thesis by (cases "fst (os ! k)"; cases "snd (os ! k)") (simp_all add: xor.commute)
  qed
  moreover have "length (L i) = length xs" for i using assms(1) by (simp add: owned_def)
  ultimately show ?thesis
    using shared_masked_inputs [OF assms(3), of L xs ?h] assms(2)
    by (simp add: from_2_shares_by_owner_def)
qed

text \<open>The two directions of a permutation as a list of source positions.\<close>

definition permutes_by ::
    "(local_permutation \<Rightarrow> 'w::len word list \<Rightarrow> 'w word list res) \<Rightarrow> local_permutation \<Rightarrow>
     ('w word list \<Rightarrow> 'w word list) \<Rightarrow> bool" where
  "permutes_by permute lp g \<longleftrightarrow> (\<exists>js. length js = lp_n lp \<and> set js \<subseteq> {..<lp_n lp} \<and>
     (\<forall>xs. length xs = lp_n lp \<longrightarrow> g xs = map ((!) xs) js \<and> permute lp xs = Inr (g xs)))"

lemma permutes_byI:
  assumes "\<And>xs. length xs = lp_n lp \<Longrightarrow> permute lp xs = Inr (g xs)"
    and "\<And>xs. length xs = lp_n lp \<Longrightarrow> g xs = map ((!) xs) js"
    and "length js = lp_n lp" and "mset js = mset [0..<lp_n lp]"
  shows "permutes_by permute lp g"
proof -
  have "set js = set [0..<lp_n lp]" using assms(4) by (rule mset_eq_setD)
  with assms show ?thesis by (auto simp: permutes_by_def)
qed

lemma shuffle_lp_permutes_by: "valid_choices lp \<Longrightarrow> permutes_by shuffle_lp lp (shuffled lp)"
  by (rule permutes_byI [OF shuffle_lp_total shuffled_as_map]) simp_all

lemma inverse_shuffle_lp_permutes_by:
  "valid_choices lp \<Longrightarrow> permutes_by inverse_shuffle_lp lp (unshuffled lp)"
  by (rule permutes_byI [OF inverse_shuffle_lp_total unshuffled_as_map]) simp_all

text \<open>The three parties' copies of the three permutations agree.\<close>

definition agreed :: "(party \<Rightarrow> array_shuffler) \<Rightarrow> (party \<Rightarrow> local_permutation) \<Rightarrow> nat \<Rightarrow> bool" where
  "agreed sh perm n \<longleftrightarrow> (\<forall>p. next_shared_perm (sh p) = perm p \<and>
     prev_shared_perm (sh (next_party p)) = perm p \<and> valid_choices (perm p) \<and> lp_n (perm p) = n)"

lemma two_share_column_correct:
  assumes ag: "agreed sh perm n" and S: "shared_list S xs" and n: "length xs = n"
    and g: "permutes_by permute (perm p) g"
  shows "\<exists>L. (\<forall>i. two_share_column permute (sh i) p i (S i) = Inr (L i)) \<and>
    two_shared L p (next_party p) (g xs)"
proof -
  let ?R = "\<lambda>i. reshare_3_to_2 (S i) p (next_party p) i"
  let ?L = "\<lambda>i. if i = p \<or> i = next_party p then g (?R i) else ?R i"
  have R: "two_shared ?R p (next_party p) xs"
    using reshare_3_to_2_correct [OF S] by simp
  obtain js where js: "length js = n" "set js \<subseteq> {..<n}"
    and gj: "\<And>xs. length xs = n \<Longrightarrow> g xs = map ((!) xs) js \<and> permute (perm p) xs = Inr (g xs)"
    using g ag by (auto simp: permutes_by_def agreed_def)
  have len: "length (?R i) = n" for i using R n by (simp add: two_shared_def)
  have "two_share_column permute (sh i) p i (S i) = Inr (?L i)" for i
    using ag gj [OF len [of i]]
    by (auto simp: two_share_column_def permutation_for_def agreed_def)
  moreover have "two_shared ?L p (next_party p) (g xs)"
    using R js n by (auto simp: two_shared_def gj len subset_iff)
  ultimately show ?thesis by (intro exI [of _ ?L]) blast
qed

lemma column_owners_Cons:
  "column_owners (Some p) (xs # xss) =
     replicate (length xs) (p, next_party p) @ column_owners (Some p) xss"
  by (simp add: column_owners_def)

lemma column_owners_by_length:
  "column_owners (Some p) xss =
     concat (map (\<lambda>n. replicate n (p, next_party p)) (map length xss))"
  by (simp add: column_owners_def comp_def)

lemma column_owners_shared:
  "shared_cols C xss \<Longrightarrow> column_owners p_opt (C i) = column_owners p_opt xss"
  by (cases p_opt)
    (simp_all only: column_owners_by_length shared_cols_lengths, simp_all add: column_owners_def)

lemma two_share_columns_correct:
  assumes ag: "agreed sh perm n" and C: "shared_cols C xss" and n: "\<forall>xs \<in> set xss. length xs = n"
    and g: "permutes_by permute (perm p) g"
  shows "\<exists>L. (\<forall>i. two_share_columns permute (sh i) (Some p) i (C i) = Inr (L i)) \<and>
    owned L (column_owners (Some p) xss) (concat (map g xss))"
  using C n
proof (induction xss arbitrary: C)
  case Nil
  then show ?case
    by (intro exI [of _ "\<lambda>i. []"])
      (simp add: shared_cols_empty two_share_columns_def column_owners_def)
next
  case (Cons xs xss)
  then obtain S C' where C': "C = (\<lambda>p. S p # C' p)" "shared_list S xs" "shared_cols C' xss"
    by (blast elim: shared_cols_ConsE)
  from Cons.IH [OF C'(3)] Cons.prems(2) obtain M where
    M: "\<And>i. two_share_columns permute (sh i) (Some p) i (C' i) = Inr (M i)"
      "owned M (column_owners (Some p) xss) (concat (map g xss))" by auto
  from two_share_column_correct [OF ag C'(2) _ g] Cons.prems(2) obtain L where
    L: "\<And>i. two_share_column permute (sh i) p i (S i) = Inr (L i)"
      "two_shared L p (next_party p) (g xs)" by auto
  have "length (g xs) = length xs"
    using g ag Cons.prems(2) by (auto simp: permutes_by_def agreed_def)
  with two_shared_owned [OF L(2)]
  have "owned (\<lambda>i. L i @ M i) (column_owners (Some p) (xs # xss)) (concat (map g (xs # xss)))"
    by (simp add: column_owners_Cons owned_append M(2))
  moreover have "two_share_columns permute (sh i) (Some p) i (C i) = Inr (L i @ M i)" for i
    using M(1) [of i] L(1) [of i] by (auto simp: two_share_columns_def C'(1) bindE_eq_Inr)
  ultimately show ?case by (intro exI [of _ "\<lambda>i. L i @ M i"]) simp
qed

text \<open>
  A step with both directions: the forward columns are permuted by the permutation of one
  party, the inverse columns by the inverse of another's. \<open>None\<close> leaves no columns to move.
\<close>

definition step_ok :: "party option \<Rightarrow> 'a list \<Rightarrow> bool" where
  "step_ok p_opt xss \<longleftrightarrow> (p_opt = None \<longrightarrow> xss = [])"

definition perm_step ::
    "(local_permutation \<Rightarrow> 'a list \<Rightarrow> 'a list) \<Rightarrow> (party \<Rightarrow> local_permutation) \<Rightarrow> party option \<Rightarrow>
     'a list \<Rightarrow> 'a list" where
  "perm_step g perm p_opt xs = (case p_opt of None \<Rightarrow> xs | Some p \<Rightarrow> g (perm p) xs)"

lemma perm_step_simps [simp]:
  "perm_step g perm None = (\<lambda>xs. xs)" "perm_step g perm (Some p) = g (perm p)"
  by (simp_all add: perm_step_def fun_eq_iff)

lemma two_share_columns_step:
  assumes "agreed sh perm n" and "shared_cols C xss" and "\<forall>xs \<in> set xss. length xs = n"
    and "\<And>p. permutes_by permute (perm p) (g (perm p))" and "step_ok p_opt xss"
  shows "\<exists>L. (\<forall>i. two_share_columns permute (sh i) p_opt i (C i) = Inr (L i)) \<and>
    owned L (column_owners p_opt xss) (concat (map (perm_step g perm p_opt) xss))"
proof (cases p_opt)
  case None
  with assms(2,5) show ?thesis
    by (intro exI [of _ "\<lambda>i. []"])
      (simp add: step_ok_def shared_cols_empty two_share_columns_def column_owners_def)
next
  case (Some p)
  then show ?thesis
    using two_share_columns_correct [OF assms(1-3), of permute p "g (perm p)"] assms(4)
    by simp
qed

lemma apply_step_many_correct:
  assumes ag: "agreed sh perm n" and F: "shared_cols F xss" and I: "shared_cols I yss"
    and n: "\<forall>xs \<in> set (xss @ yss). length xs = n"
    and ok: "step_ok fp xss" "step_ok ip yss" and env: "online net" "correlated rng"
  shows "\<exists>F' I'. apply_step_many sh fp ip F I net rng = Inr (F', I') \<and>
    shared_cols F' (map (perm_step shuffled perm fp) xss) \<and>
    shared_cols I' (map (perm_step unshuffled perm ip) yss)"
proof -
  let ?xss = "map (perm_step shuffled perm fp) xss" and ?yss = "map (perm_step unshuffled perm ip) yss"
  have pv: "valid_choices (perm p)" for p using ag by (simp add: agreed_def)
  obtain L where L: "\<And>i. two_share_columns shuffle_lp (sh i) fp i (F i) = Inr (L i)"
    "owned L (column_owners fp xss) (concat ?xss)"
    using two_share_columns_step [OF ag F _ shuffle_lp_permutes_by [OF pv] ok(1)] n by auto
  obtain M where M: "\<And>i. two_share_columns inverse_shuffle_lp (sh i) ip i (I i) = Inr (M i)"
    "owned M (column_owners ip yss) (concat ?yss)"
    using two_share_columns_step [OF ag I _ inverse_shuffle_lp_permutes_by [OF pv] ok(2)] n by auto
  obtain S where S: "from_2_shares_by_owner (\<lambda>i. L i @ M i)
      (\<lambda>i. column_owners fp xss @ column_owners ip yss) net rng = Inr S"
    "shared_list S (concat (?xss @ ?yss))"
    using from_2_shares_by_owner_correct [OF owned_append [OF L(2) M(2)] env] by auto
  have lens: "map length ?xss = map length xss" "map length ?yss = map length yss"
    by (auto simp: perm_step_def split: option.split)
  then have tot: "total_length xss = length (concat ?xss)" "total_length yss = length (concat ?yss)"
    by (simp_all only: total_length_def length_concat)
  have FI: "map length (F i) = map length xss" "map length (I i) = map length yss"
    "total_length (F i) = total_length xss" "total_length (I i) = total_length yss" for i
    by (simp_all add: total_length_def shared_cols_lengths [OF F] shared_cols_lengths [OF I])
  have "shared_list (\<lambda>i. take (total_length xss) (S i)) (concat ?xss)"
    "shared_list (\<lambda>i. drop (total_length xss) (S i)) (concat ?yss)"
    using shared_list_take [OF S(2), of "total_length xss"]
      shared_list_drop [OF S(2), of "total_length xss"] by (simp_all add: tot)
  note cols = this [THEN shared_cols_split, unfolded lens]
  have take_split: "split_lengths ns (take (sum_list ns) zs) = split_lengths ns zs"
    for ns and zs :: "'a word share list"
    by (induction ns arbitrary: zs) (simp_all add: drop_take)
  have "apply_step_many sh fp ip F I net rng =
      Inr (\<lambda>i. split_lengths (map length xss) (S i),
           \<lambda>i. split_lengths (map length yss) (drop (total_length xss) (S i)))"
    using L(1) M(1) S(1) shared_listD(1) [OF S(2)]
    by (simp add: apply_step_many_def each_party_Inr FI tot column_owners_shared [OF F]
        column_owners_shared [OF I])
  with cols show ?thesis
    by (simp add: take_split total_length_def)
qed

section \<open>The whole shuffle\<close>

definition shuffled_by :: "(party \<Rightarrow> local_permutation) \<Rightarrow> 'a list \<Rightarrow> 'a list" where
  "shuffled_by perm xs = shuffled (perm ID2) (shuffled (perm ID1) (shuffled (perm ID0) xs))"

definition unshuffled_by :: "(party \<Rightarrow> local_permutation) \<Rightarrow> 'a list \<Rightarrow> 'a list" where
  "unshuffled_by perm xs = unshuffled (perm ID0) (unshuffled (perm ID1) (unshuffled (perm ID2) xs))"

definition dest_by :: "(party \<Rightarrow> local_permutation) \<Rightarrow> nat \<Rightarrow> nat" where
  "dest_by perm i = dest (perm ID2) (dest (perm ID1) (dest (perm ID0) i))"

definition valid_perms :: "nat \<Rightarrow> (party \<Rightarrow> local_permutation) \<Rightarrow> bool" where
  "valid_perms n perm \<longleftrightarrow> (\<forall>p. valid_choices (perm p) \<and> lp_n (perm p) = n)"

lemma valid_perms_agreed: "agreed sh perm n \<Longrightarrow> valid_perms n perm"
  by (simp add: agreed_def valid_perms_def)

lemma length_shuffled_by [simp]: "length (shuffled_by perm xs) = length xs"
  and length_unshuffled_by [simp]: "length (unshuffled_by perm xs) = length xs"
  by (simp_all add: shuffled_by_def unshuffled_by_def)

lemma bij_betw_dest_by:
  assumes "valid_perms n perm"
  shows "bij_betw (dest_by perm) {..<n} {..<n}"
proof -
  have "bij_betw (dest (perm p)) {..<n} {..<n}" for p
    using assms bij_betw_dest [of "perm p"] by (simp add: valid_perms_def)
  then have "bij_betw (dest (perm ID2) \<circ> (dest (perm ID1) \<circ> dest (perm ID0))) {..<n} {..<n}"
    by (intro bij_betw_trans)
  then show ?thesis by (simp add: comp_def dest_by_def [abs_def])
qed

interpretation three: shuffling "valid_perms n" "\<lambda>perm. n" shuffled_by unshuffled_by dest_by for n
proof unfold_locales
  fix perm :: "party \<Rightarrow> local_permutation" and xs ys :: "'a list" and i
  show "length (shuffled_by perm xs) = length xs" by simp
  assume v: "valid_perms n perm"
  then have p: "valid_choices (perm p)" "lp_n (perm p) = n" for p by (simp_all add: valid_perms_def)
  show "length xs = n \<Longrightarrow> unshuffled_by perm (shuffled_by perm xs) = xs"
    by (simp add: shuffled_by_def unshuffled_by_def p)
  show "bij_betw (dest_by perm) {..<n} {..<n}" by (rule bij_betw_dest_by [OF v])
  assume ys: "length ys = n" "i < n"
  moreover have "dest (perm p) j < n" if "j < n" for p j
    using fy.target_less [of "perm p" j] p that by simp
  ultimately show "unshuffled_by perm ys ! i = ys ! dest_by perm i"
    by (simp add: unshuffled_by_def dest_by_def unshuffled_nth p)
qed

lemma shuffle_many_steps:
  assumes "agreed sh perm n" and "online net" and "correlated rng"
    and "shared_cols F xss" and "shared_cols I yss" and "\<forall>xs \<in> set (xss @ yss). length xs = n"
    and "\<forall>(fp, ip) \<in> set steps. step_ok fp xss \<and> step_ok ip yss"
  shows "\<exists>F' I' r. foldE (\<lambda>(fp, ip) (fwd, inv, r).
         bindE (apply_step_many sh fp ip fwd inv net r) (\<lambda>(fwd', inv').
           Inr (fwd', inv', skip_draws (total_length (fwd ID0) + total_length (inv ID0)) r)))
       steps (F, I, rng) = Inr (F', I', r) \<and>
    shared_cols F' (map (fold (\<lambda>(fp, ip). perm_step shuffled perm fp) steps) xss) \<and>
    shared_cols I' (map (fold (\<lambda>(fp, ip). perm_step unshuffled perm ip) steps) yss)"
  using assms(3-)
proof (induction steps arbitrary: F I rng xss yss)
  case (Cons st steps)
  obtain fp ip where st: "st = (fp, ip)" by (cases st)
  let ?xss = "map (perm_step shuffled perm fp) xss" and ?yss = "map (perm_step unshuffled perm ip) yss"
  have ok: "step_ok fp xss" "step_ok ip yss" using Cons.prems(5) by (auto simp: st)
  from apply_step_many_correct [OF assms(1) Cons.prems(2-4) ok assms(2) Cons.prems(1)]
  obtain F' I' where step: "apply_step_many sh fp ip F I net rng = Inr (F', I')"
    "shared_cols F' ?xss" "shared_cols I' ?yss" by blast
  have "\<forall>xs \<in> set (?xss @ ?yss). length xs = n"
    using Cons.prems(4) by (auto simp: perm_step_def split: option.split)
  with Cons.IH [OF _ step(2,3), of "skip_draws (total_length (F ID0) + total_length (I ID0)) rng"]
    Cons.prems step(1)
  show ?case by (simp add: st step_ok_def comp_def)
qed auto

lemma shuffle_many_correct:
  assumes ag: "agreed sh perm n" and env: "online net" "correlated rng"
    and F: "shared_cols F xss" and I: "shared_cols I yss"
    and n: "\<forall>xs \<in> set (xss @ yss). length xs = n"
  shows "\<exists>F' I'. shuffle_many sh F I net rng = Inr (F', I') \<and>
    shared_cols F' (map (shuffled_by perm) xss) \<and> shared_cols I' (map (unshuffled_by perm) yss)"
proof -
  let ?steps = "shuffle_steps (xss = []) (yss = [])"
  have e: "F ID0 = [] \<longleftrightarrow> xss = []" "I ID0 = [] \<longleftrightarrow> yss = []"
    using shared_colsD(1) [OF F, of ID0] shared_colsD(1) [OF I, of ID0]
    by (metis length_0_conv)+
  have "\<forall>(fp, ip) \<in> set ?steps. step_ok fp xss \<and> step_ok ip yss"
    by (cases "xss = []"; cases "yss = []") (auto simp: shuffle_steps_def step_ok_def)
  from shuffle_many_steps [OF ag env F I n this]
  obtain F' I' where "shuffle_many sh F I net rng = Inr (F', I')"
    "shared_cols F' (map (fold (\<lambda>(fp, ip). perm_step shuffled perm fp) ?steps) xss)"
    "shared_cols I' (map (fold (\<lambda>(fp, ip). perm_step unshuffled perm ip) ?steps) yss)"
    by (auto simp: shuffle_many_def e)
  then show ?thesis
    by (cases "xss = []"; cases "yss = []")
      (simp_all add: shuffle_steps_def comp_def shuffled_by_def [abs_def] unshuffled_by_def [abs_def])
qed

section \<open>Rejected draws put the parties out of step\<close>

text \<open>
  The loop of \<open>sample_indices\<close> tests both draws of a party, but a rejected draw is seen by two of
  the three parties only: these two redraw and the third goes on. A concrete run: the draw that
  the first two parties share is rejected in the first attempt.
\<close>

definition desync_own :: "nat \<Rightarrow> party \<Rightarrow> nat" where
  "desync_own k p = (case p of
     ID0 \<Rightarrow> (if k = 0 then 2 ^ 128 - 1 else 0) | ID1 \<Rightarrow> 0 | ID2 \<Rightarrow> (if k = 0 then 0 else 1))"

definition desync_rng :: rngs where
  "desync_rng k p = (desync_own k p, desync_own k (prev_party p))"

lemma desync_correlated: "correlated desync_rng"
  by (simp add: correlated_def desync_rng_def)

lemma sample_zone_2: "sample_zone 2 = 2 ^ 128 - 2"
  by (simp add: sample_zone_def)

lemma desync_draw: "draw_u128 desync_rng k p = (desync_own k p, desync_own k (prev_party p))"
  by (cases p) (simp_all add: draw_u128_def random_elements_def desync_rng_def desync_own_def)

lemma desync_run:
  "sample_indices desync_rng ID0 0 2 = Some (0, 1, 2)"
  "sample_indices desync_rng ID1 0 2 = Some (0, 0, 2)"
  "sample_indices desync_rng ID2 0 2 = Some (0, 0, 1)"
  by (simp_all add: sample_indices.simps desync_draw sample_zone_2 desync_own_def)

section \<open>Properties\<close>

text \<open>C28: A permutation is used consistently: shuffling rearranges a vector, the inverse shuffle
  restores it, and \<open>evaluate_at\<close>, cached or not, tells for every index where the shuffle put its entry.\<close>

theorem permutation_consistent:
  assumes "valid_lp lp" and "length xs = lp_n lp"
  shows "\<exists>ys. shuffle_lp lp xs = Inr ys \<and> inverse_shuffle_lp lp ys = Inr xs \<and> mset ys = mset xs \<and>
    (\<forall>i < lp_n lp. \<exists>j lp'. evaluate_at lp i = Inr (j, lp') \<and> valid_lp lp' \<and> j < lp_n lp \<and> ys ! j = xs ! i)"
proof (rule exI [of _ "shuffled lp xs"], intro conjI allI impI)
  note v = valid_lp_choices [OF assms(1)]
  show "shuffle_lp lp xs = Inr (shuffled lp xs)" by (rule shuffle_lp_total [OF v assms(2)])
  show "inverse_shuffle_lp lp (shuffled lp xs) = Inr xs"
    by (simp add: inverse_shuffle_lp_total v assms(2))
  show "mset (shuffled lp xs) = mset xs" by (simp add: v assms(2))
  fix i assume i: "i < lp_n lp"
  then obtain lp' where "evaluate_at lp i = Inr (dest lp i, lp')" "valid_lp lp'"
    using evaluate_at_correct [OF assms(1)] by blast
  then show "\<exists>j lp'. evaluate_at lp i = Inr (j, lp') \<and> valid_lp lp' \<and> j < lp_n lp \<and>
      shuffled lp xs ! j = xs ! i"
    using fy.target_less [OF v i] fy.fwd_target [OF v assms(2) i] by blast
qed

theorem permutation_consistent_witness:
  "\<exists>ys. shuffle_lp (from_fisher_yates [0, 0, 1, 3]) [10, 20, 30, 40 :: nat] = Inr ys \<and>
     inverse_shuffle_lp (from_fisher_yates [0, 0, 1, 3]) ys = Inr [10, 20, 30, 40] \<and> mset ys = {#10, 20, 30, 40#}"
proof -
  have "valid_lp (from_fisher_yates [0, 0, 1, 3])"
    by (rule valid_from_fisher_yates) (simp add: choices_ok_def less_Suc_eq numeral_eq_Suc)
  from permutation_consistent [OF this, of "[10, 20, 30, 40 :: nat]"] show ?thesis
    by (auto simp: from_fisher_yates_def)
qed

text \<open>C14: The three-party shuffle moves the rows of several shared columns by one common
  permutation, so that columns stay aligned, and the inverse shuffle brings every column back.\<close>

theorem shuffle_aligned_and_invertible:
  assumes ag: "agreed sh perm n" and env: "online net" "correlated rng" "correlated rng'"
    and F: "shared_cols F xss" and n: "\<forall>xs \<in> set xss. length xs = n"
  shows "\<exists>F' B yss. forward_many sh F net rng = Inr F' \<and> shared_cols F' yss \<and> length yss = length xss \<and>
    (\<exists>\<pi>. bij_betw \<pi> {..<n} {..<n} \<and> (\<forall>c < length xss. \<forall>i < n. yss ! c ! \<pi> i = xss ! c ! i)) \<and>
    shuffle_many sh (\<lambda>p. []) F' net rng' = Inr (\<lambda>p. [], B) \<and> shared_cols B xss"
proof -
  note v = valid_perms_agreed [OF ag]
  have e: "shared_cols (\<lambda>p. []) []" by simp
  obtain F' I where f: "shuffle_many sh F (\<lambda>p. []) net rng = Inr (F', I)"
    "shared_cols F' (map (shuffled_by perm) xss)"
    using shuffle_many_correct [OF ag env(1,2) F e] n by auto
  obtain N B where b: "shuffle_many sh (\<lambda>p. []) F' net rng' = Inr (N, B)" "shared_cols N []"
    "shared_cols B (map (unshuffled_by perm) (map (shuffled_by perm) xss))"
    using shuffle_many_correct [OF ag env(1,3) e f(2)] n by auto
  have restored: "map (unshuffled_by perm) (map (shuffled_by perm) xss) = xss"
    using n by (simp add: map_idI three.bwd_fwd [OF v])
  have N: "N = (\<lambda>p. [])" using b(2) by (simp add: shared_cols_empty)
  have al: "map (shuffled_by perm) xss ! c ! dest_by perm i = xss ! c ! i"
    if "c < length xss" "i < n" for c i
    using three.fwd_target [OF v _ that(2), of "xss ! c"] n that by simp
  show ?thesis
    using f b(1,3) bij_betw_dest_by [OF v] al unfolding restored N
    by (intro exI [of _ F'] exI [of _ B] exI [of _ "map (shuffled_by perm) xss"])
      (simp add: forward_many_def, blast)
qed


theorem shuffle_aligned_and_invertible_witness:
  "\<exists>F'. forward_many (\<lambda>p. \<lparr>prev_shared_perm = from_fisher_yates [0, 0], next_shared_perm = from_fisher_yates [0, 0]\<rparr>)
     (\<lambda>p. [promote_public_values p [5, 9 :: 32 word]]) all_online zero_rng = Inr F'"
proof -
  let ?lp = "from_fisher_yates [0, 0]"
  have "valid_choices ?lp" by (simp add: from_fisher_yates_def valid_choices_def less_Suc_eq)
  then have ag: "agreed (\<lambda>p. \<lparr>prev_shared_perm = ?lp, next_shared_perm = ?lp\<rparr>) (\<lambda>p. ?lp) 2"
    by (simp add: agreed_def from_fisher_yates_def)
  have F: "shared_cols (\<lambda>p. [promote_public_values p [5, 9 :: 32 word]]) [[5, 9]]"
    by (simp add: shared_cols_Cons)
  show ?thesis
    using shuffle_aligned_and_invertible [OF ag concrete_environment concrete_environment(2) F] by auto
qed

text \<open>C38: Fresh shufflers are usable: a sampled permutation is always a valid Fisher-Yates choice of
  the right size, and when no draw is rejected each party's next permutation is the next party's
  previous one, and the parties stay at one position of their generators.\<close>

theorem fresh_shufflers_agree:
  assumes "correlated rng" and "\<And>j. j \<in> {1..<len} \<Longrightarrow> accepted rng (k + (j - 1)) (j + 1)"
  shows "\<exists>sh. (\<forall>p. shuffler_new rng p k len = Some (sh p, k + (len - 1))) \<and>
    agreed sh (\<lambda>p. next_shared_perm (sh p)) len"
proof -
  obtain sh where sh: "\<And>p. shuffler_new rng p k len = Some (sh p, k + (len - 1))"
    "\<And>p. prev_shared_perm (sh (next_party p)) = next_shared_perm (sh p)"
    using shuffler_new_agree [OF assms] by blast
  then show ?thesis using shuffler_new_valid [OF sh(1)] by (auto simp: agreed_def)
qed

theorem fresh_shufflers_agree_witness:
  "\<exists>sh. (\<forall>p. shuffler_new zero_rng p 0 3 = Some (sh p, 2)) \<and>
     agreed sh (\<lambda>p. next_shared_perm (sh p)) 3"
proof -
  have "accepted zero_rng j b" if "0 < b" "b < 4" for j b
  proof -
    have "(2 ^ 128 - 1) mod b < b" using that(1) by (rule mod_less_divisor)
    also have "b < 2 ^ 128 - 1" using that(2) by simp
    finally have "0 < sample_zone b" unfolding sample_zone_def by (rule zero_less_diff [THEN iffD2])
    then show ?thesis by (simp add: accepted_def draw_u128_def random_elements_def zero_rng_def)
  qed
  then show ?thesis using fresh_shufflers_agree [of zero_rng 3 0] by auto
qed

text \<open>C23: The rejection loop ends exactly if some draw at or after the party's position is accepted,
  and it stops at the first accepted one; so a new shuffler is returned, with two permutations of the
  right length, whenever every bound up to the length meets an accepted draw after every position.\<close>

theorem sampling_terminates:
  assumes "\<forall>bound k. 1 < bound \<and> bound \<le> len \<longrightarrow> (\<exists>j \<ge> k. accepts rng p j bound)"
  shows "(\<exists>sh k'. shuffler_new rng p k len = Some (sh, k') \<and> k + (len - 1) \<le> k' \<and>
      lp_n (prev_shared_perm sh) = len \<and> valid_lp (prev_shared_perm sh) \<and>
      lp_n (next_shared_perm sh) = len \<and> valid_lp (next_shared_perm sh)) \<and>
    (sample_indices rng p k bound = None) = (\<forall>j \<ge> k. \<not> accepts rng p j bound)"
proof
  have "\<exists>j' \<ge> j. accepts rng p j' (i + 1)" if "i \<in> set [1..<len]" for i j using assms that by simp
  from sample_loop_ends [OF this, where prev_fy = "replicate len 0" and next_fy = "replicate len 0" and k = k]
  obtain prev_fy next_fy k' where "sample_loop rng p [1..<len] (replicate len 0, replicate len 0, k) = Some (prev_fy, next_fy, k')" "k + length [1..<len] \<le> k'"
    by blast
  then obtain sh where s: "shuffler_new rng p k len = Some (sh, k')" "k + (len - 1) \<le> k'" by (simp add: shuffler_new_def)
  then show "\<exists>sh k'. shuffler_new rng p k len = Some (sh, k') \<and> k + (len - 1) \<le> k' \<and>
      lp_n (prev_shared_perm sh) = len \<and> valid_lp (prev_shared_perm sh) \<and>
      lp_n (next_shared_perm sh) = len \<and> valid_lp (next_shared_perm sh)" using shuffler_new_valid [OF s(1)] by auto
qed (rule sample_indices_None_iff)

lemma zero_rng_accepts: "0 < b \<Longrightarrow> b < 2 ^ 127 \<Longrightarrow> accepts zero_rng p j b"
proof -
  assume b: "0 < b" "b < 2 ^ 127"
  have "(2 ^ 128 - 1) mod b < b" using b(1) by (rule mod_less_divisor)
  also have "b < 2 ^ 128 - 1" using b(2) by simp
  finally have "0 < sample_zone b" unfolding sample_zone_def by (rule zero_less_diff [THEN iffD2])
  then show ?thesis by (simp add: accepts_def draw_u128_def random_elements_def zero_rng_def)
qed

theorem sampling_terminates_witness:
  "\<exists>sh k'. shuffler_new zero_rng ID1 0 4 = Some (sh, k') \<and> 3 \<le> k' \<and> lp_n (next_shared_perm sh) = 4 \<and> valid_lp (next_shared_perm sh)"
proof -
  have "\<forall>bound k. 1 < bound \<and> bound \<le> 4 \<longrightarrow> (\<exists>j \<ge> k. accepts zero_rng ID1 j bound)"
    using zero_rng_accepts by fastforce
  from conjunct1 [OF sampling_terminates [OF this, of 0 1]] show ?thesis by auto
qed

text \<open>C39: A rejected draw puts the parties out of step: if, while new shufflers are sampled, all draws
  before index \<open>i\<close> are accepted and at index \<open>i\<close> the draw of one party \<open>q\<close>'s generator is rejected while
  the other two are accepted, then the party before \<open>q\<close>, which does not see that draw, takes its choice
  at \<open>i\<close> from this round of draws, whereas \<open>q\<close> takes the choice for the same shared permutation from a
  later draw of their common generator. The copies differ whenever these two draws differ modulo \<open>i + 1\<close>.\<close>

theorem rejected_draw_desynchronises:
  assumes "correlated rng" and "1 \<le> i" and "i < len" and "\<And>j. j \<in> {1..<i} \<Longrightarrow> accepted rng (k + (j - 1)) (j + 1)"
    and "\<not> fst (draw_u128 rng (k + (i - 1)) q) < sample_zone (i + 1)"
    and "fst (draw_u128 rng (k + (i - 1)) (next_party q)) < sample_zone (i + 1)"
    and "fst (draw_u128 rng (k + (i - 1)) (prev_party q)) < sample_zone (i + 1)"
    and "shuffler_new rng (prev_party q) k len = Some (sh1, k1)" and "shuffler_new rng q k len = Some (sh0, k0)"
  shows "\<exists>fy1 fy0 j. next_shared_perm sh1 = from_fisher_yates fy1 \<and> prev_shared_perm sh0 = from_fisher_yates fy0 \<and>
    fy1 ! i = fst (draw_u128 rng (k + (i - 1)) (prev_party q)) mod (i + 1) \<and>
    fy0 ! i = fst (draw_u128 rng j (prev_party q)) mod (i + 1) \<and> k + (i - 1) < j"
proof -
  let ?k = "k + (i - 1)"
  have pp: "prev_party (prev_party q) = next_party q" by (cases q) simp_all
  have "snd (draw_u128 rng ?k (prev_party q)) = fst (draw_u128 rng ?k (next_party q))"
    using draw_u128_correlated [OF assms(1), of ?k "next_party q"] pp [symmetric] by (cases q) simp_all
  then have third: "sample_indices rng (prev_party q) ?k (i + 1) =
      Some (fst (draw_u128 rng ?k (prev_party q)) mod (i + 1), fst (draw_u128 rng ?k (next_party q)) mod (i + 1), Suc ?k)"
    using assms(6,7) by (subst sample_indices.simps) simp
  obtain fy1 where fy1: "next_shared_perm sh1 = from_fisher_yates fy1"
    "fy1 ! i = fst (draw_u128 rng ?k (prev_party q)) mod (i + 1)"
    using shuffler_new_index [OF assms(1-4,8)] third by auto
  obtain fy0 a b m where fy0: "prev_shared_perm sh0 = from_fisher_yates fy0" "fy0 ! i = b"
    "sample_indices rng q ?k (i + 1) = Some (a, b, m)"
    using shuffler_new_index [OF assms(1-4,9)] by blast
  have "\<not> accepts rng q ?k (i + 1)" using assms(5) by (simp add: accepts_def)
  then show ?thesis using fy1 fy0 sample_indices_rejected [OF assms(1) _ fy0(3)] by blast
qed

theorem rejected_draw_desynchronises_witness:
  "\<exists>sh1 sh0 k1 k0. correlated desync_rng \<and> shuffler_new desync_rng ID2 0 2 = Some (sh1, k1) \<and>
    shuffler_new desync_rng ID0 0 2 = Some (sh0, k0) \<and> next_shared_perm sh1 \<noteq> prev_shared_perm sh0 \<and> k1 \<noteq> k0"
proof -
  let ?sh = "\<lambda>p. \<lparr>prev_shared_perm = from_fisher_yates [0, if p = ID0 then 1 else 0],
    next_shared_perm = from_fisher_yates [0, 0]\<rparr>" and ?k = "\<lambda>p. if p = ID2 then 1 else 2 :: nat"
  have new: "shuffler_new desync_rng p 0 2 = Some (?sh p, ?k p)" for p
    by (cases p) (simp_all add: shuffler_new_def desync_run [unfolded numeral_2_eq_2] numeral_2_eq_2)
  have zone: "sample_zone (Suc (Suc 0)) = 340282366920938463463374607431768211454"
    unfolding numeral_2_eq_2 [symmetric] sample_zone_2 by simp
  have "\<exists>fy1 fy0 j. next_shared_perm (?sh (prev_party ID0)) = from_fisher_yates fy1 \<and> prev_shared_perm (?sh ID0) = from_fisher_yates fy0 \<and>
    fy1 ! 1 = fst (draw_u128 desync_rng (0 + (1 - 1)) (prev_party ID0)) mod (1 + 1) \<and>
    fy0 ! 1 = fst (draw_u128 desync_rng j (prev_party ID0)) mod (1 + 1) \<and> 0 + (1 - 1) < j"
    by (rule rejected_draw_desynchronises [OF desync_correlated _ _ _ _ _ _ new new])
       (simp_all add: desync_draw desync_own_def zone)
  then have "next_shared_perm (?sh ID2) \<noteq> prev_shared_perm (?sh ID0)"
    by (auto simp: desync_draw desync_own_def from_fisher_yates_def)
  then show ?thesis using new [of ID2] new [of ID0] desync_correlated by fastforce
qed

end
