(* ===== verification/Value.thy ===== *)
theory Value
  imports Sharing
begin

text \<open>
  \<open>crates/primitives/src/value.rs\<close>, \<open>bigintshare.rs\<close> and \<open>cast.rs\<close>: the values a DORAM stores.
  The trait \<open>DoramValue\<close> is the record \<open>value_ops\<close> of its functions, and its contract the
  locale \<open>doram_value\<close>; the two implementations of the code (unsigned integers, the \<open>BigInt\<close> of a
  prime field) are \<open>ring_value\<close> and \<open>field_value\<close>. A \<open>BigInt\<close> of \<open>n\<close> limbs is a word of \<open>64 n\<close>
  bits, limb \<open>i\<close> being bits \<open>64 i\<close> to \<open>64 i + 63\<close>. A stored record is a value with its alibi byte.
\<close>

unbundle bit_operations_syntax

section \<open>The trait\<close>

record (overloaded) 'v value_ops =
  num_blocks :: nat
  to_blocks :: "'v word share list \<Rightarrow> 128 word share list list"
  from_blocks :: "128 word share list list \<Rightarrow> 'v word share list"
  bit_to_mask :: "1 word share \<Rightarrow> 'v word share"
  and_mask :: "rngs \<Rightarrow> nat \<Rightarrow> party \<Rightarrow> 'v word"

text \<open>\<open>local_and\<close>: the masked local products; \<open>recombine_and\<close> is \<open>ring_recombine\<close>.\<close>

definition value_local_and ::
    "'v::len value_ops \<Rightarrow> 'v word share list \<Rightarrow> 'v word share list \<Rightarrow> rngs \<Rightarrow> party \<Rightarrow> 'v word list" where
  "value_local_and V lhs rhs rng i =
     map2 (\<lambda>k (l, r). and_local l r XOR and_mask V rng k i) [0..<length (zip lhs rhs)] (zip lhs rhs)"

text \<open>
  What a value's implementation promises: \<open>blk j\<close> is the clear content of block-column \<open>j\<close>,
  \<open>ones\<close> the mask of the value's bits.
\<close>

locale doram_value =
  fixes V :: "'v::len value_ops"
    and blk :: "nat \<Rightarrow> 'v word \<Rightarrow> 128 word"
    and ones :: "'v word"
  assumes to_blocks_ok: "shared_list S xs \<Longrightarrow>
      shared_cols (\<lambda>p. to_blocks V (S p)) (map (\<lambda>j. map (blk j) xs) [0..<num_blocks V])"
    and from_blocks_ok: "0 < num_blocks V \<Longrightarrow>
      shared_cols C (map (\<lambda>j. map (blk j) xs) [0..<num_blocks V]) \<Longrightarrow>
      shared_list (\<lambda>p. from_blocks V (C p)) xs"
    and from_to_blocks: "0 < num_blocks V \<Longrightarrow> from_blocks V (to_blocks V ss) = ss"
    and bit_to_mask_ok: "shared B b \<Longrightarrow>
      shared (\<lambda>p. bit_to_mask V (B p)) (if b \<noteq> 0 then ones else 0)"
    and and_mask_ok: "correlated rng \<Longrightarrow>
      and_mask V rng k ID0 XOR and_mask V rng k ID1 XOR and_mask V rng k ID2 = 0"
    and blk_zero: "blk j 0 = 0"
begin

lemma nth_value_local_and:
  "k < length xs \<Longrightarrow> k < length ys \<Longrightarrow>
   value_local_and V xs ys rng i ! k = and_mask V rng k i XOR and_local (xs ! k) (ys ! k)"
  by (simp add: value_local_and_def xor.commute)

lemma xor_three_and_masks:
  assumes "correlated rng"
  shows "(and_mask V rng k ID0 XOR a) XOR (and_mask V rng k ID1 XOR b) XOR
      (and_mask V rng k ID2 XOR c) = a XOR b XOR c"
proof -
  have "(and_mask V rng k ID0 XOR a) XOR (and_mask V rng k ID1 XOR b) XOR
      (and_mask V rng k ID2 XOR c)
    = (and_mask V rng k ID0 XOR and_mask V rng k ID1 XOR and_mask V rng k ID2) XOR (a XOR b XOR c)"
    by (simp add: xor_ac)
  then show ?thesis by (simp add: and_mask_ok [OF assms])
qed

lemma value_and_shared:
  assumes "shared_list A xs" and "shared_list B ys" and "length xs = length ys" and "correlated rng"
  shows "shared_list (\<lambda>p. ring_recombine (value_local_and V (A p) (B p) rng p)
     (value_local_and V (A (prev_party p)) (B (prev_party p)) rng (prev_party p)))
     (map2 (AND) xs ys)"
  by (rule shared_recombine [where L = "\<lambda>p. value_local_and V (A p) (B p) rng p"])
    (simp_all add: assms(3) shared_listD(1) [OF assms(1)] shared_listD(1) [OF assms(2)]
      nth_value_local_and xor_three_and_masks [OF assms(4)] value_local_and_def [of V "[]"]
      and_local_sum [OF shared_listD(2) [OF assms(1)] shared_listD(2) [OF assms(2)]],
      simp add: value_local_and_def shared_listD(1) [OF assms(1)] shared_listD(1) [OF assms(2)]
        assms(3))

end

section \<open>Unsigned integers: u32, u64, u128\<close>

definition ring_value :: "'v::len value_ops" where
  "ring_value = \<lparr>num_blocks = 1,
     to_blocks = (\<lambda>shares. [map cast_share shares]),
     from_blocks = (\<lambda>cols. map cast_share (case cols of [] \<Rightarrow> [] | col # _ \<Rightarrow> col)),
     bit_to_mask = bit_to_binary_mask,
     and_mask = zero_mask\<rparr>"

lemma cast_cast_share:
  "LENGTH('v::len) \<le> LENGTH('w::len) \<Longrightarrow>
   cast_share (cast_share s :: 'w word share) = (s :: 'v word share)"
  by (cases s) (simp add: cast_share_def map_share_def ucast_ucast_up)

lemma ring_doram_value:
  assumes "LENGTH('v::len) \<le> 128"
  shows "doram_value (ring_value :: 'v value_ops) (\<lambda>j. ucast) (NOT 0)"
proof
  fix S :: "'v shares" and C :: "128 columns" and xs :: "'v word list"
  show "shared_list S xs \<Longrightarrow> shared_cols (\<lambda>p. to_blocks ring_value (S p))
      (map (\<lambda>j. map ucast xs) [0..<num_blocks (ring_value :: 'v value_ops)])"
    by (auto simp: ring_value_def shared_cols_Cons intro: shared_list_map)
  assume "shared_cols C (map (\<lambda>j. map ucast xs) [0..<num_blocks (ring_value :: 'v value_ops)])"
  then have C: "shared_cols C [map ucast xs]" by (simp add: ring_value_def)
  then obtain T C' where "C = (\<lambda>p. T p # C' p)" and T: "shared_list T (map ucast xs)"
    by (rule shared_cols_ConsE)
  moreover have "map ucast (map ucast xs :: 128 word list) = xs"
    using assms by (simp add: ucast_ucast_up o_def)
  ultimately show "shared_list (\<lambda>p. from_blocks ring_value (C p)) xs"
    using shared_list_map [OF T, of "\<lambda>p. cast_share" "ucast :: 128 word \<Rightarrow> 'v word", OF shared_cast]
    by (simp add: ring_value_def)
next
  fix B :: "party \<Rightarrow> 1 word share" and b
  assume "shared B b"
  then show "shared (\<lambda>p. bit_to_mask (ring_value :: 'v value_ops) (B p)) (if b \<noteq> 0 then NOT 0 else 0)"
    using shared_bit_to_binary_mask [of B b] by (simp add: ring_value_def bit_mask_def)
qed (use assms in \<open>simp_all add: ring_value_def cast_cast_share zero_mask_cancel o_def\<close>)

section \<open>The BigInt of a prime field\<close>

text \<open>
  \<open>get_limb\<close> and \<open>set_limb\<close> of a word of \<open>LENGTH('b) div 64\<close> limbs; indices out of range read 0
  and are ignored by writes. The width is assumed to be a multiple of 64 where it matters.
\<close>

definition get_limb :: "'b::len word \<Rightarrow> nat \<Rightarrow> 64 word" where
  "get_limb w i = (if i < LENGTH('b) div 64 then ucast (drop_bit (64 * i) w) else 0)"

definition set_limb :: "'b::len word \<Rightarrow> nat \<Rightarrow> 64 word \<Rightarrow> 'b word" where
  "set_limb w i v = (if i < LENGTH('b) div 64
     then (w AND NOT (push_bit (64 * i) (mask 64))) OR push_bit (64 * i) (ucast v) else w)"

definition pack_block :: "nat \<Rightarrow> 'b::len word \<Rightarrow> 128 word" where
  "pack_block block w =
     ucast (get_limb w (2 * block)) OR push_bit 64 (ucast (get_limb w (2 * block + 1)))"

definition unpack_blocks :: "128 word list \<Rightarrow> 'b::len word" where
  "unpack_blocks bs = fold (\<lambda>(block, c) w.
     set_limb (set_limb w (2 * block) (ucast c)) (2 * block + 1) (ucast (drop_bit 64 c)))
     (enumerate 0 bs) 0"

text \<open>The mask of the low \<open>bits\<close> bits, limb by limb (\<open>y_low_mask\<close>, \<open>bit_to_mask\<close>).\<close>

definition low_mask :: "nat \<Rightarrow> 'b::len word" where
  "low_mask bits = fold (\<lambda>i w. let covered = i * 64 in
     set_limb w i (if covered + 64 \<le> bits then NOT 0
       else if covered < bits then push_bit (bits - covered) 1 - 1 else 0))
     [0..<LENGTH('b) div 64] 0"

text \<open>\<open>sample_bigint\<close>: \<open>limbsize\<close> random limbs, the last one cut to the modulus' bits.\<close>

definition sample_bigint :: "nat \<Rightarrow> (nat \<Rightarrow> 64 word) \<Rightarrow> 'b::len word" where
  "sample_bigint bits sample_limb =
     (let limbsize = (bits + 63) div 64;
          w = fold (\<lambda>i w. set_limb w i (sample_limb i)) [0..<limbsize] 0
      in set_limb w (limbsize - 1) (get_limb w (limbsize - 1) AND
           (if bits mod 64 = 0 then NOT 0 else push_bit (bits mod 64) 1 - 1)))"

definition bigint_mask :: "nat \<Rightarrow> rngs \<Rightarrow> nat \<Rightarrow> party \<Rightarrow> 'b::len word" where
  "bigint_mask bits rng k p =
     sample_bigint bits (\<lambda>i. zero_mask rng (k * ((bits + 63) div 64) + i) p)"

definition field_bit_to_mask :: "nat \<Rightarrow> 1 word share \<Rightarrow> 'b::len word share" where
  "field_bit_to_mask bits s =
     mk_share (if sh_a s \<noteq> 0 then low_mask bits else 0) (if sh_b s \<noteq> 0 then low_mask bits else 0)"

definition field_num_blocks :: "nat \<Rightarrow> nat" where
  "field_num_blocks bits = (bits + 127) div 128"

definition field_value :: "nat \<Rightarrow> 'b::len value_ops" where
  "field_value bits = \<lparr>num_blocks = field_num_blocks bits,
     to_blocks = (\<lambda>shares. map (\<lambda>block. map (map_share (pack_block block)) shares)
       [0..<field_num_blocks bits]),
     from_blocks = (\<lambda>cols. map (\<lambda>i.
         mk_share (unpack_blocks (map (\<lambda>col. sh_a (col ! i)) cols))
                  (unpack_blocks (map (\<lambda>col. sh_b (col ! i)) cols)))
       [0..<(case cols of [] \<Rightarrow> 0 | col # _ \<Rightarrow> length col)]),
     bit_to_mask = field_bit_to_mask bits,
     and_mask = bigint_mask bits\<rparr>"

lemma bit_low_ones: "bit (push_bit n 1 - 1 :: 'w::len word) k \<longleftrightarrow> k < n \<and> k < LENGTH('w)"
  by (auto simp: push_bit_of_1 bit_simps simp flip: mask_eq_exp_minus_1)

lemma bit_exp_ones: "bit (2 ^ n - 1 :: 'w::len word) k \<longleftrightarrow> k < n \<and> k < LENGTH('w)"
  using bit_low_ones [of n k] by (simp add: push_bit_of_1)

lemma length_limbs:
  assumes "64 dvd LENGTH('b::len)"
  shows "n < LENGTH('b) \<longleftrightarrow> n div 64 < LENGTH('b) div 64"
  using assms by (auto elim!: dvdE)

lemma bit_get_limb:
  assumes "64 dvd LENGTH('b)"
  shows "bit (get_limb (w :: 'b::len word) i) n \<longleftrightarrow> n < 64 \<and> bit w (64 * i + n)"
proof (cases "i < LENGTH('b) div 64")
  case False
  then have "\<not> 64 * i + n < LENGTH('b)" using length_limbs [OF assms, of "64 * i + n"] by linarith
  with False show ?thesis by (auto simp: get_limb_def dest: bit_imp_le_length)
qed (auto simp: get_limb_def bit_simps)

lemma bit_set_limb:
  assumes "64 dvd LENGTH('b)"
  shows "bit (set_limb (w :: 'b::len word) i v) n \<longleftrightarrow>
    (if n div 64 = i then n < LENGTH('b) \<and> bit v (n mod 64) else bit w n)"
proof -
  have d: "64 * (n div 64) + n mod 64 = n" "n mod 64 < 64" by simp_all
  then have nz: "64 * i \<le> n \<and> n - 64 * i < 64 \<longleftrightarrow> n div 64 = i"
    by auto
  have "n div 64 = i \<Longrightarrow> n - 64 * i = n mod 64" using d by auto
  then show ?thesis
    using length_limbs [OF assms, of n] nz bit_imp_le_length [of w n] bit_imp_le_length [of v "n - 64 * i"]
    by (auto simp: set_limb_def bit_simps)
qed

lemma bit_fold_set_limb:
  assumes "64 dvd LENGTH('b)"
  shows "bit (fold (\<lambda>i w. set_limb w i (f i)) [0..<k] (0 :: 'b::len word)) n \<longleftrightarrow>
    n < LENGTH('b) \<and> n div 64 < k \<and> bit (f (n div 64)) (n mod 64)"
  by (induction k) (auto simp: bit_set_limb [OF assms] less_Suc_eq)

lemma bit_low_mask:
  assumes "64 dvd LENGTH('b)"
  shows "bit (low_mask bits :: 'b::len word) n \<longleftrightarrow> n < bits \<and> n < LENGTH('b)"
proof -
  have "n mod 64 < bits - n div 64 * 64 \<longleftrightarrow> n < bits" if "n div 64 * 64 < bits"
    using that by (metis add.commute less_diff_conv mod_div_mult_eq)
  moreover have "n div 64 * 64 + 64 \<le> bits \<Longrightarrow> n < bits" "\<not> n div 64 * 64 < bits \<Longrightarrow> \<not> n < bits"
    using div_mult_mod_eq [of n 64] mod_less_divisor [of 64 n] by linarith+
  ultimately show ?thesis
    using length_limbs [OF assms, of n]
    by (auto simp: low_mask_def Let_def bit_fold_set_limb [OF assms] bit_exp_ones bit_simps)
qed

lemma bit_pack_block:
  assumes "64 dvd LENGTH('b)"
  shows "bit (pack_block j (w :: 'b::len word)) n \<longleftrightarrow> n < 128 \<and> bit w (128 * j + n)"
proof -
  have "64 * (2 * j + 1) + (n - 64) = 128 * j + n" if "64 \<le> n" using that by simp
  then show ?thesis
    by (auto simp: pack_block_def bit_simps bit_get_limb [OF assms])
qed

lemma div_128:
  fixes n m :: nat
  shows "n div 128 \<noteq> m \<and> n div 64 \<noteq> 2 * m \<and> n div 64 \<noteq> 2 * m + 1 \<or>
    n div 128 = m \<and> n div 64 = 2 * m \<and> n mod 128 = n mod 64 \<or>
    n div 128 = m \<and> n div 64 = 2 * m + 1 \<and> n mod 128 = 64 + n mod 64"
proof -
  have d: "n div 128 = n div 64 div 2" by (simp flip: div_mult2_eq)
  have m: "n mod 128 = n mod 64 + 64 * (n div 64 mod 2)"
    using mod_mult2_eq [of n 64 2] by simp
  show ?thesis
  proof (cases "even (n div 64)")
    case True
    then obtain q where "n div 64 = 2 * q" by (rule evenE)
    with d m show ?thesis by (cases "q = m") auto
  next
    case False
    then obtain q where "n div 64 = 2 * q + 1" by (rule oddE)
    with d m show ?thesis by (cases "q = m") auto
  qed
qed

lemma bit_unpack_blocks:
  assumes "64 dvd LENGTH('b)"
  shows "bit (unpack_blocks bs :: 'b::len word) n \<longleftrightarrow>
    n < LENGTH('b) \<and> n div 128 < length bs \<and> bit (bs ! (n div 128)) (n mod 128)"
proof (induction bs rule: rev_induct)
  case (snoc c bs)
  let ?w = "unpack_blocks bs :: 'b word" and ?m = "length bs"
  have step: "unpack_blocks (bs @ [c]) =
      set_limb (set_limb ?w (2 * ?m) (ucast c)) (2 * ?m + 1) (ucast (drop_bit 64 c))"
    by (simp add: unpack_blocks_def enumerate_append_eq)
  consider "n div 128 \<noteq> ?m" "n div 64 \<noteq> 2 * ?m" "n div 64 \<noteq> 2 * ?m + 1"
    | "n div 128 = ?m" "n div 64 = 2 * ?m" "n mod 128 = n mod 64"
    | "n div 128 = ?m" "n div 64 = 2 * ?m + 1" "n mod 128 = 64 + n mod 64"
    using div_128 [of n] by blast
  then show ?case
  proof cases
    case 1
    then show ?thesis
      using snoc by (auto simp: step bit_set_limb [OF assms] nth_append less_Suc_eq)
  next
    case 2
    then show ?thesis by (simp add: step bit_set_limb [OF assms] bit_simps)
  next
    case 3
    then show ?thesis by (simp add: step bit_set_limb [OF assms] bit_simps)
  qed
qed (simp add: unpack_blocks_def)

lemma pack_block_xor:
  "64 dvd LENGTH('b) \<Longrightarrow>
   pack_block j (u XOR v) = pack_block j u XOR pack_block j (v :: 'b::len word)"
  by (rule bit_word_eqI) (simp add: bit_pack_block bit_simps)

lemma unpack_blocks_xor:
  "64 dvd LENGTH('b) \<Longrightarrow> length bs = length cs \<Longrightarrow>
   unpack_blocks (map2 (XOR) bs cs) = unpack_blocks bs XOR (unpack_blocks cs :: 'b::len word)"
  by (rule bit_word_eqI) (auto simp: bit_unpack_blocks bit_simps)

lemma unpack_pack_blocks:
  assumes "64 dvd LENGTH('b)" and "LENGTH('b) \<le> 128 * m"
  shows "unpack_blocks (map (\<lambda>j. pack_block j w) [0..<m]) = (w :: 'b::len word)"
proof (rule bit_word_eqI)
  fix n assume n: "n < LENGTH('b)"
  then have "n div 128 < m" using assms(2) by (simp add: div_less_iff_less_mult)
  then show "bit (unpack_blocks (map (\<lambda>j. pack_block j w) [0..<m]) :: 'b word) n = bit w n"
    using n by (simp add: bit_unpack_blocks [OF assms(1)] bit_pack_block [OF assms(1)])
qed

lemma bit_bigint_mask:
  assumes "64 dvd LENGTH('b)"
  shows "bit (bigint_mask bits rng k p :: 'b::len word) n \<longleftrightarrow> n < LENGTH('b) \<and>
     n div 64 < (bits + 63) div 64 \<and>
     bit (zero_mask rng (k * ((bits + 63) div 64) + n div 64) p :: 64 word) (n mod 64) \<and>
     (n div 64 = (bits + 63) div 64 - 1 \<longrightarrow> bits mod 64 = 0 \<or> n mod 64 < bits mod 64)"
proof (cases "n div 64 = (bits + 63) div 64 - 1")
  case True
  then have "64 * ((bits + 63) div 64 - 1) + n mod 64 = n" by (metis mult_div_mod_eq)
  with True show ?thesis
    by (auto simp: bigint_mask_def sample_bigint_def Let_def bit_set_limb [OF assms]
      bit_get_limb [OF assms] bit_fold_set_limb [OF assms] bit_exp_ones bit_simps)
next
  case False
  then show ?thesis
    by (auto simp: bigint_mask_def sample_bigint_def Let_def bit_set_limb [OF assms]
      bit_fold_set_limb [OF assms])
qed

lemma bigint_mask_cancel:
  assumes "64 dvd LENGTH('b)" and "correlated rng"
  shows "bigint_mask bits rng k ID0 XOR bigint_mask bits rng k ID1 XOR bigint_mask bits rng k ID2 =
    (0 :: 'b::len word)"
proof (rule bit_word_eqI)
  fix n
  let ?z = "\<lambda>p. zero_mask rng (k * ((bits + 63) div 64) + n div 64) p :: 64 word"
  have "bit (?z ID0 XOR ?z ID1 XOR ?z ID2) (n mod 64) = False"
    by (simp only: zero_mask_cancel [OF assms(2)] bit_0_eq bot_apply bot_bool_def)
  then have "bit (?z ID0) (n mod 64) \<noteq> (bit (?z ID1) (n mod 64) \<noteq> bit (?z ID2) (n mod 64)) \<longleftrightarrow> False"
    by (simp only: bit_xor_iff)
  then show "bit (bigint_mask bits rng k ID0 XOR bigint_mask bits rng k ID1 XOR
      bigint_mask bits rng k ID2 :: 'b word) n = bit (0 :: 'b word) n"
    by (simp only: bit_xor_iff bit_bigint_mask [OF assms(1)] bit_0_eq bot_apply bot_bool_def) blast
qed

lemma field_doram_value:
  assumes b: "64 dvd LENGTH('b::len)" "LENGTH('b) \<le> 128 * field_num_blocks bits"
  shows "doram_value (field_value bits :: 'b value_ops) pack_block (low_mask bits)"
proof
  fix S :: "'b shares" and C :: "128 columns" and xs :: "'b word list"
  let ?m = "field_num_blocks bits" and ?V = "field_value bits :: 'b value_ops"
  have V: "num_blocks ?V = ?m" by (simp add: field_value_def)
  show "shared_list S xs \<Longrightarrow>
      shared_cols (\<lambda>p. to_blocks ?V (S p)) (map (\<lambda>j. map (pack_block j) xs) [0..<num_blocks ?V])"
    by (simp add: V shared_cols_def, simp add: field_value_def)
      (auto intro!: shared_list_map shared_map pack_block_xor [OF b(1)])
  assume m: "0 < num_blocks ?V"
    and C: "shared_cols C (map (\<lambda>j. map (pack_block j) xs) [0..<num_blocks ?V])"
  let ?un = "\<lambda>sel p i. unpack_blocks (map (\<lambda>col. sel (col ! i)) (C p)) :: 'b word"
  have Cl: "length (C p) = ?m" for p using shared_colsD(1) [OF C] V by simp
  have Cj: "shared_list (\<lambda>p. C p ! j) (map (pack_block j) xs)" if "j < ?m" for j
    using shared_colsD(2) [OF C, of j] that V by simp
  have l: "(case C p of [] \<Rightarrow> 0 | col # _ \<Rightarrow> length col) = length xs" for p
    using shared_listD(1) [OF Cj [of 0], of p] Cl [of p] m V
    by (cases "C p") (simp_all add: V)
  have "from_blocks ?V (C p) = map (\<lambda>i. mk_share (?un sh_a p i) (?un sh_b p i)) [0..<length xs]" for p
    using l by (simp add: field_value_def)
  moreover have "shared (\<lambda>p. mk_share (?un sh_a p i) (?un sh_b p i)) (xs ! i)" if i: "i < length xs" for i
  proof -
    have s: "shared (\<lambda>p. C p ! j ! i) (pack_block j (xs ! i))" if "j < ?m" for j
      using shared_listD(2) [OF Cj [OF that], of i] i by simp
    have "map (\<lambda>col. sh_b (col ! i)) (C p) = map (\<lambda>col. sh_a (col ! i)) (C (prev_party p))" for p
      by (rule nth_equalityI) (simp_all add: Cl sharedD(1) [OF s])
    moreover have "map2 (XOR) (map (\<lambda>col. sh_a (col ! i)) (C ID0)) (map2 (XOR)
        (map (\<lambda>col. sh_a (col ! i)) (C ID1)) (map (\<lambda>col. sh_a (col ! i)) (C ID2))) =
        map (\<lambda>j. pack_block j (xs ! i)) [0..<?m]"
      using s by (intro nth_equalityI) (simp_all add: Cl shared_def)
    then have "?un sh_a ID0 i XOR ?un sh_a ID1 i XOR ?un sh_a ID2 i = xs ! i"
      using unpack_pack_blocks [OF b, of "xs ! i"]
      by (simp flip: unpack_blocks_xor [OF b(1)] add: Cl)
    ultimately show ?thesis by (simp add: shared_def)
  qed
  ultimately show "shared_list (\<lambda>p. from_blocks ?V (C p)) xs"
    by (simp add: shared_list_def)
next
  fix ss :: "'b word share list"
  let ?V = "field_value bits :: 'b value_ops"
  assume "0 < num_blocks ?V"
  then have "[0..<field_num_blocks bits] = 0 # [1..<field_num_blocks bits]"
    by (simp add: field_value_def upt_conv_Cons)
  then have "(case to_blocks ?V ss of [] \<Rightarrow> 0 | col # _ \<Rightarrow> length col) = length ss"
    by (simp add: field_value_def)
  then show "from_blocks ?V (to_blocks ?V ss) = ss"
    using unpack_pack_blocks [OF b]
    by (intro nth_equalityI) (simp_all add: field_value_def map_share_def o_def)
next
  fix B :: "party \<Rightarrow> 1 word share" and c
  let ?f = "\<lambda>w :: 1 word. if w \<noteq> 0 then low_mask bits else 0 :: 'b word"
  have "?f (u XOR v) = ?f u XOR ?f v" for u v
    using one_bit_cases [of u] one_bit_cases [of v] by auto
  moreover assume "shared B c"
  ultimately have "shared (\<lambda>p. map_share ?f (B p)) (?f c)" by (intro shared_map)
  then show "shared (\<lambda>p. bit_to_mask (field_value bits :: 'b value_ops) (B p)) (?f c)"
    by (simp add: field_value_def field_bit_to_mask_def map_share_def)
next
  fix rng k
  assume "correlated rng"
  then show "and_mask (field_value bits :: 'b value_ops) rng k ID0 XOR
      and_mask (field_value bits) rng k ID1 XOR and_mask (field_value bits) rng k ID2 = 0"
    by (simp add: field_value_def bigint_mask_cancel [OF b(1)])
qed (simp add: pack_block_def get_limb_def)

section \<open>The values of the exported DORAM types\<close>

interpretation u32_value: doram_value "ring_value :: 32 value_ops" "\<lambda>j. ucast" "NOT 0"
  by (rule ring_doram_value) simp

interpretation u64_value: doram_value "ring_value :: 64 value_ops" "\<lambda>j. ucast" "NOT 0"
  by (rule ring_doram_value) simp

interpretation u128_value: doram_value "ring_value :: 128 value_ops" "\<lambda>j. ucast" "NOT 0"
  by (rule ring_doram_value) simp

text \<open>\<open>ark_bn254::Fr\<close>: a modulus of 254 bits in four limbs.\<close>

interpretation bn254_value: doram_value "field_value 254 :: 256 value_ops" pack_block "low_mask 254"
  by (rule field_doram_value) (simp_all add: field_num_blocks_def)

section \<open>Properties\<close>

text \<open>C32: Packing a vector of values into 128-bit blocks and unpacking it is the identity, for every
  integer type of up to 128 bits (u32, u64, u128) and every prime field, whose \<open>BigInt\<close> has as many
  64-bit limbs as its modulus needs; each block column is a sharing of the corresponding 128 bits of
  the values; and unpacking any sharing of those bits, reshuffled masks included, is a sharing of the
  values.\<close>

theorem value_blocks_roundtrip:
  fixes R :: "'w::len shares" and S :: "'b::len shares"
  assumes "LENGTH('w) \<le> 128" and "LENGTH('b) = 64 * ((bits + 63) div 64)"
    and "shared_list R us" and "shared_list S xs"
  shows "from_blocks ring_value (to_blocks ring_value ts) = (ts :: 'w word share list) \<and>
    shared_cols (\<lambda>p. to_blocks ring_value (R p)) [map ucast us] \<and>
    (\<forall>C. shared_cols C [map ucast us] \<longrightarrow> shared_list (\<lambda>p. from_blocks ring_value (C p)) us) \<and>
    from_blocks (field_value bits) (to_blocks (field_value bits) ss) = (ss :: 'b word share list) \<and>
    shared_cols (\<lambda>p. to_blocks (field_value bits) (S p))
      (map (\<lambda>j. map (\<lambda>x. ucast (drop_bit (128 * j) x)) xs) [0..<(bits + 127) div 128]) \<and>
    (\<forall>C. shared_cols C (map (\<lambda>j. map (\<lambda>x. ucast (drop_bit (128 * j) x)) xs) [0..<(bits + 127) div 128]) \<longrightarrow>
      shared_list (\<lambda>p. from_blocks (field_value bits) (C p)) xs)"
proof -
  have dvd: "64 dvd LENGTH('b)" using assms(2) by simp
  have "(bits + 63) div 64 \<le> 2 * ((bits + 127) div 128)" by linarith
  then have le: "LENGTH('b) \<le> 128 * field_num_blocks bits" using assms(2) by (simp add: field_num_blocks_def)
  have pos: "0 < field_num_blocks bits" using le len_gt_0 [where 'a = 'b] by (cases "field_num_blocks bits") simp_all
  note r = ring_doram_value [OF assms(1)] and f = field_doram_value [OF dvd le]
  have n: "num_blocks (ring_value :: 'w value_ops) = 1" "num_blocks (field_value bits :: 'b value_ops) = field_num_blocks bits"
    "0 < num_blocks (field_value bits :: 'b value_ops)"
    using pos by (simp_all add: ring_value_def field_value_def)
  have pack: "pack_block j = (\<lambda>x :: 'b word. ucast (drop_bit (128 * j) x))" for j
    by (rule ext, rule bit_word_eqI) (simp add: bit_pack_block [OF dvd] bit_simps)
  note field = doram_value.from_to_blocks [OF f n(3), of ss] doram_value.to_blocks_ok [OF f assms(4)]
    doram_value.from_blocks_ok [OF f n(3), of _ xs]
  note ring = doram_value.from_to_blocks [OF r, of ts] doram_value.to_blocks_ok [OF r assms(3)]
    doram_value.from_blocks_ok [OF r, of _ us]
  show ?thesis
    using ring field unfolding n pack field_num_blocks_def by simp
qed

theorem value_blocks_roundtrip_witness:
  "shared_cols (\<lambda>p. to_blocks ring_value (promote_public_values p [7 :: 32 word])) [[7]] \<and>
    shared_cols (\<lambda>p. to_blocks (field_value 254) (promote_public_values p [5 :: 256 word])) [[5], [0]]"
  using value_blocks_roundtrip [OF _ _ promote_public_values_shared [of "[7 :: 32 word]"]
      promote_public_values_shared [of "[5 :: 256 word]"], of 254 "[]" "[]"]
  by (simp add: upt_rec)

end
