(* ===== verification/Records.thy ===== *)
theory Records
  imports Value
begin

text \<open>
  The stored record of \<open>crates/primitives/src/value.rs\<close> (a value and its alibi byte) and the casts
  of \<open>cast.rs\<close>. Bit \<open>l\<close> of the alibi says that the entry was moved to the cache from the stash of
  level \<open>l\<close>: a query that has found the entry asks that level for its tag all the same, not for a
  dummy, as if the entry were still there.
\<close>

unbundle bit_operations_syntax

record (overloaded) 'v dr_record =
  rec_value :: "'v word share"
  rec_alibi :: "8 word share"

definition record_new :: "'v::len word share \<Rightarrow> 8 word share \<Rightarrow> 'v dr_record" where
  "record_new v a = \<lparr>rec_value = v, rec_alibi = a\<rparr>"

definition from_value :: "'v::len word share \<Rightarrow> 'v dr_record" where
  "from_value v = \<lparr>rec_value = v, rec_alibi = zero_share\<rparr>"

definition record_zero :: "'v::len dr_record" where
  "record_zero = from_value zero_share"

definition get_y_values :: "'v::len dr_record list \<Rightarrow> 'v word share list" where
  "get_y_values records = map rec_value records"

definition get_alibis :: "'v::len dr_record list \<Rightarrow> 8 word share list" where
  "get_alibis records = map rec_alibi records"

definition from_columns :: "'v::len word share list \<Rightarrow> 8 word share list \<Rightarrow> 'v dr_record list" where
  "from_columns values alibis = map2 record_new values alibis"

definition get_alibi_bits :: "'v::len dr_record \<Rightarrow> nat \<Rightarrow> 1 word share list" where
  "get_alibi_bits r num_levels =
     map (\<lambda>level. mk_share (of_bool (drop_bit level (sh_a (rec_alibi r)) AND 1 = 1))
                           (of_bool (drop_bit level (sh_b (rec_alibi r)) AND 1 = 1)))
       [0..<num_levels]"

definition set_alibi_bit :: "'v::len dr_record \<Rightarrow> nat \<Rightarrow> party \<Rightarrow> 'v dr_record" where
  "set_alibi_bit r level party_id =
     (let mask_l = push_bit level 1;
          a = sh_a (rec_alibi r); b = sh_b (rec_alibi r);
          and_a = a AND mask_l; and_b = b AND mask_l;
          a' = (case party_id of ID0 \<Rightarrow> a XOR mask_l | _ \<Rightarrow> a);
          b' = (case party_id of ID1 \<Rightarrow> b XOR mask_l | _ \<Rightarrow> b)
      in r\<lparr>rec_alibi := mk_share (a' XOR and_a) (b' XOR and_b)\<rparr>)"

definition clear_alibi :: "'v::len dr_record \<Rightarrow> 'v dr_record" where
  "clear_alibi r = r\<lparr>rec_alibi := zero_share\<rparr>"

definition xor_record :: "'v::len dr_record \<Rightarrow> 'v dr_record \<Rightarrow> 'v dr_record" where
  "xor_record r s = \<lparr>rec_value = xor_share (rec_value r) (rec_value s),
                    rec_alibi = xor_share (rec_alibi r) (rec_alibi s)\<rparr>"

section \<open>Casts\<close>

definition alibi_to_blocks :: "8 word share list \<Rightarrow> 128 word share list" where
  "alibi_to_blocks alibis = map cast_share alibis"

definition alibi_from_blocks :: "128 word share list \<Rightarrow> 8 word share list" where
  "alibi_from_blocks blocks = map cast_share blocks"

definition upcast_x_to_block :: "32 word share \<Rightarrow> 128 word share" where
  "upcast_x_to_block s = cast_share s"

definition upcast_x_to_block_many :: "32 word share list \<Rightarrow> 128 word share list" where
  "upcast_x_to_block_many ss = map upcast_x_to_block ss"

definition downcast_many :: "'t::len word share list \<Rightarrow> 'u::len word share list" where
  "downcast_many shares = map cast_share shares"

lemma shared_cast_roundtrip:
  fixes xs :: "'v::len word list" and T :: "'w::len shares"
  assumes "LENGTH('v) \<le> LENGTH('w)" and "shared_list T (map ucast xs)"
  shows "shared_list (\<lambda>p. map cast_share (T p)) xs"
proof -
  have "map ucast (map ucast xs :: 'w word list) = xs"
    using assms(1) by (simp add: o_def ucast_ucast_up)
  with shared_list_map [OF assms(2), of "\<lambda>p. cast_share" "ucast :: 'w word \<Rightarrow> 'v word", OF shared_cast]
  show ?thesis by simp
qed

lemma alibi_to_blocks_shared:
  "shared_list S xs \<Longrightarrow> shared_list (\<lambda>p. alibi_to_blocks (S p)) (map ucast xs)"
  unfolding alibi_to_blocks_def by (rule shared_list_map) (auto intro: shared_cast)

lemma alibi_from_blocks_shared:
  "shared_list T (map ucast xs) \<Longrightarrow> shared_list (\<lambda>p. alibi_from_blocks (T p)) xs"
  unfolding alibi_from_blocks_def by (rule shared_cast_roundtrip) simp_all

lemma upcast_x_shared:
  "shared_list S xs \<Longrightarrow> shared_list (\<lambda>p. upcast_x_to_block_many (S p)) (map ucast xs)"
  unfolding upcast_x_to_block_many_def upcast_x_to_block_def
  by (rule shared_list_map) (auto intro: shared_cast)

lemma downcast_x_shared:
  "shared_list T (map ucast xs) \<Longrightarrow> shared_list (\<lambda>p. downcast_many (T p)) (xs :: 32 word list)"
  for T :: "128 shares"
  unfolding downcast_many_def by (rule shared_cast_roundtrip) simp_all

section \<open>What a record opens to\<close>

type_synonym 'v clear_record = "'v word \<times> 8 word"

definition shared_record :: "(party \<Rightarrow> 'v::len dr_record) \<Rightarrow> 'v clear_record \<Rightarrow> bool" where
  "shared_record R y \<longleftrightarrow> shared (\<lambda>p. rec_value (R p)) (fst y) \<and> shared (\<lambda>p. rec_alibi (R p)) (snd y)"

definition shared_records :: "(party \<Rightarrow> 'v::len dr_record list) \<Rightarrow> 'v clear_record list \<Rightarrow> bool" where
  "shared_records R ys \<longleftrightarrow> (\<forall>p. length (R p) = length ys) \<and>
     (\<forall>i < length ys. shared_record (\<lambda>p. R p ! i) (ys ! i))"

definition xor_clear :: "'v::len clear_record \<Rightarrow> 'v clear_record \<Rightarrow> 'v clear_record" where
  "xor_clear y z = (fst y XOR fst z, snd y XOR snd z)"

lemma shared_recordsD:
  "shared_records R ys \<Longrightarrow> length (R p) = length ys"
  "shared_records R ys \<Longrightarrow> i < length ys \<Longrightarrow> shared_record (\<lambda>p. R p ! i) (ys ! i)"
  by (simp_all add: shared_records_def)

lemma shared_records_append:
  "shared_records R ys \<Longrightarrow> shared_records Q zs \<Longrightarrow> shared_records (\<lambda>p. R p @ Q p) (ys @ zs)"
  by (auto simp: shared_records_def nth_append)

lemma shared_records_replicate: "shared_record R y \<Longrightarrow> shared_records (\<lambda>p. replicate n (R p)) (replicate n y)"
  by (simp add: shared_records_def)

lemma shared_records_pick:
  "shared_records S ys \<Longrightarrow> \<forall>r \<in> set rs. r < length ys \<Longrightarrow> shared_records (\<lambda>p. map ((!) (S p)) rs) (map ((!) ys) rs)"
  by (simp add: shared_records_def)

lemma shared_records_columns:
  "shared_records R ys \<longleftrightarrow>
   shared_list (\<lambda>p. get_y_values (R p)) (map fst ys) \<and>
   shared_list (\<lambda>p. get_alibis (R p)) (map snd ys)"
  by (auto simp: shared_records_def shared_record_def shared_list_def get_y_values_def
      get_alibis_def)

lemma from_columns_shared:
  assumes "shared_list S (map fst ys)" and "shared_list A (map snd ys)"
  shows "shared_records (\<lambda>p. from_columns (S p) (A p)) ys"
  using assms
  by (auto simp: shared_records_def shared_record_def shared_list_def from_columns_def
      record_new_def)

lemma from_columns_roundtrip [simp]: "from_columns (get_y_values rs) (get_alibis rs) = rs"
  by (rule nth_equalityI) (simp_all add: from_columns_def get_y_values_def get_alibis_def
      record_new_def)

lemma record_zero_shared [intro]: "shared_record (\<lambda>p. record_zero) (0, 0)"
  by (auto simp: shared_record_def record_zero_def from_value_def)

lemma from_value_shared [intro]:
  "shared S v \<Longrightarrow> shared_record (\<lambda>p. from_value (S p)) (v, 0)"
  by (auto simp: shared_record_def from_value_def)

lemma xor_record_shared [intro]:
  "shared_record R y \<Longrightarrow> shared_record Q z \<Longrightarrow>
   shared_record (\<lambda>p. xor_record (R p) (Q p)) (xor_clear y z)"
  by (auto simp: shared_record_def xor_record_def xor_clear_def)

lemma clear_alibi_shared [intro]:
  "shared_record R y \<Longrightarrow> shared_record (\<lambda>p. clear_alibi (R p)) (fst y, 0)"
  by (auto simp: shared_record_def clear_alibi_def)

lemma drop_bit_and_1: "drop_bit n (w :: 'w::len word) AND 1 = 1 \<longleftrightarrow> bit w n"
  by (simp add: and_one_eq odd_iff_mod_2_eq_one [symmetric] bit_iff_odd_drop_bit mod_2_eq_odd)

lemma get_alibi_bits_eq:
  "get_alibi_bits r n = map (get_bit_share (rec_alibi r)) [0..<n]"
  by (simp add: get_alibi_bits_def get_bit_share_def map_share_def drop_bit_and_1)

lemma get_alibi_bits_shared:
  assumes "shared_record R y"
  shows "shared_list (\<lambda>p. get_alibi_bits (R p) n) (map (\<lambda>l. of_bool (bit (snd y) l)) [0..<n])"
proof -
  have "shared (\<lambda>p. get_bit_share (rec_alibi (R p)) i) (of_bool (bit (snd y) i))" for i
    using assms shared_get_bit [of "\<lambda>p. rec_alibi (R p)" "snd y" i]
    by (simp add: shared_record_def)
  then show ?thesis by (simp add: shared_list_def get_alibi_bits_eq)
qed

lemma set_alibi_bit_shared:
  assumes "shared_record R y" and "level < 8"
  shows "shared_record (\<lambda>p. set_alibi_bit (R p) level p) (fst y, set_bit level (snd y))"
proof -
  have "bit (snd y) n \<longleftrightarrow> (bit (sh_a (rec_alibi (R ID0))) n \<noteq>
      (bit (sh_a (rec_alibi (R ID1))) n \<noteq> bit (sh_a (rec_alibi (R ID2))) n))" for n
    using assms(1) by (simp add: shared_record_def shared_def bit_xor_iff)
  then have "set_bit level (snd y) = sh_a (rec_alibi (set_alibi_bit (R ID0) level ID0)) XOR
      sh_a (rec_alibi (set_alibi_bit (R ID1) level ID1)) XOR
      sh_a (rec_alibi (set_alibi_bit (R ID2) level ID2))"
    using assms(2) by (intro bit_word_eqI) (auto simp: set_alibi_bit_def Let_def bit_simps)
  then show ?thesis
    using assms(1) by (simp add: shared_record_def shared_def all_party)
      (simp add: set_alibi_bit_def Let_def)
qed

section \<open>Properties\<close>

text \<open>Setting a level's alibi bit sets exactly that bit of the shared alibi and leaves the value
  and the other levels' bits alone, whatever the bit was before.\<close>

theorem alibi_bit_set:
  assumes "shared_record R y" and "level < 8" and "n \<le> 8"
  shows "shared_list (\<lambda>p. get_alibi_bits (set_alibi_bit (R p) level p) n)
      (map (\<lambda>l. of_bool (l = level \<or> bit (snd y) l)) [0..<n]) \<and>
    shared (\<lambda>p. rec_value (set_alibi_bit (R p) level p)) (fst y)"
proof -
  note s = set_alibi_bit_shared [OF assms(1,2)]
  have eq: "map (\<lambda>l. of_bool (bit (set_bit level (snd y)) l)) [0..<n] =
      map (\<lambda>l. of_bool (l = level \<or> bit (snd y) l) :: 1 word) [0..<n]"
    using assms(2,3) by (auto simp: bit_simps)
  show ?thesis using get_alibi_bits_shared [OF s, of n] s unfolding snd_conv eq by (simp add: shared_record_def)
qed

theorem alibi_bit_set_witness:
  "shared_list (\<lambda>p. get_alibi_bits (set_alibi_bit (from_value (promote_public p (7 :: 32 word))) 1 p) 3) [0, 1, 0]"
  using alibi_bit_set [OF from_value_shared [OF shared_promote_public], of 1 3 "7 :: 32 word"]
  by (simp add: upt_rec)

end
