(* ===== verification/Circuits.thy ===== *)
theory Circuits
  imports Records
begin

text \<open>
  The comparison and selection circuits: \<open>is_zero_many\<close> and \<open>cmux_many_custom\<close> of
  \<open>crates/primitives/src/utils.rs\<close>, \<open>xy_if_xs_equal\<close> and \<open>replace_if_dummy\<close> of
  \<open>crates/circuits/src\<close>. The zero test folds a word on itself: after complementing, a stage ANDs
  the upper half onto the lower half, until bit 0 is the AND of all bits.
\<close>

unbundle bit_operations_syntax

section \<open>Indexed blocks\<close>

definition low_u32 :: "128 word \<Rightarrow> 32 word" where
  "low_u32 block = ucast block"

definition set_low_u32 :: "128 word \<Rightarrow> 32 word \<Rightarrow> 128 word" where
  "set_low_u32 block low = (block AND NOT (ucast (NOT 0 :: 32 word))) OR ucast low"

lemma low_u32_set_low_u32 [simp]: "low_u32 (set_low_u32 b l) = l"
  by (rule bit_word_eqI) (auto simp: low_u32_def set_low_u32_def bit_simps)

lemma drop_set_low_u32 [simp]: "drop_bit 32 (set_low_u32 b l) = drop_bit 32 b"
  by (rule bit_word_eqI) (auto simp: set_low_u32_def bit_simps dest: bit_imp_le_length)

section \<open>The zero test\<close>

definition fold_zero_local ::
    "'t::len word share \<Rightarrow> nat \<Rightarrow> 'u::len word" where
  "fold_zero_local value shift =
     (let high_a = drop_bit shift (sh_a value); high_b = drop_bit shift (sh_b value)
      in ucast (sh_a value AND high_a) XOR ucast (sh_b value AND high_a) XOR
         ucast (sh_a value AND high_b))"

definition fold_zero_stage_many ::
    "nat \<Rightarrow> network \<Rightarrow> rngs \<Rightarrow> 't::len shares \<Rightarrow> 'u::len shares res" where
  "fold_zero_stage_many shift net rng values =
     (let local = (\<lambda>p. map2 (\<lambda>k v. zero_mask rng k p XOR fold_zero_local v shift)
            [0..<length (values p)] (values p))
      in bindE (reshare net local) (\<lambda>nxt. Inr (\<lambda>p. ring_recombine (local p) (nxt p))))"

text \<open>
  \<open>fold!\<close> for each width, with the draws of the stages one after the other. The last three stages
  are the same for every width.
\<close>

definition fold_u8 :: "network \<Rightarrow> rngs \<Rightarrow> 8 shares \<Rightarrow> 1 shares res" where
  "fold_u8 net rng v8 =
     (let n = length (v8 ID0) in
      bindE (fold_zero_stage_many 4 net rng v8) (\<lambda>v4 :: 8 shares.
      bindE (fold_zero_stage_many 2 net (skip_draws n rng) v4) (\<lambda>v2 :: 8 shares.
      bindE (fold_zero_stage_many 1 net (skip_draws (2 * n) rng) v2) (\<lambda>v1 :: 8 shares.
        Inr (\<lambda>p. map (\<lambda>value. get_bit_share value 0) (v1 p))))))"

definition fold_u16 :: "network \<Rightarrow> rngs \<Rightarrow> 16 shares \<Rightarrow> 1 shares res" where
  "fold_u16 net rng v = bindE (fold_zero_stage_many 8 net rng v)
     (fold_u8 net (skip_draws (length (v ID0)) rng))"

definition fold_u32 :: "network \<Rightarrow> rngs \<Rightarrow> 32 shares \<Rightarrow> 1 shares res" where
  "fold_u32 net rng v = bindE (fold_zero_stage_many 16 net rng v)
     (fold_u16 net (skip_draws (length (v ID0)) rng))"

definition fold_u64 :: "network \<Rightarrow> rngs \<Rightarrow> 64 shares \<Rightarrow> 1 shares res" where
  "fold_u64 net rng v = bindE (fold_zero_stage_many 32 net rng v)
     (fold_u32 net (skip_draws (length (v ID0)) rng))"

definition fold_u128 :: "network \<Rightarrow> rngs \<Rightarrow> 128 shares \<Rightarrow> 1 shares res" where
  "fold_u128 net rng v = bindE (fold_zero_stage_many 64 net rng v)
     (fold_u64 net (skip_draws (length (v ID0)) rng))"

definition is_zero_many ::
    "(network \<Rightarrow> rngs \<Rightarrow> 't::len shares \<Rightarrow> 1 shares res) \<Rightarrow> network \<Rightarrow> rngs \<Rightarrow> 't shares \<Rightarrow> 1 shares res"
where
  "is_zero_many fold_t net rng inputs = fold_t net rng (\<lambda>p. map not_share (inputs p))"

lemma fold_zero_local_sum:
  "shared S x \<Longrightarrow> fold_zero_local (S ID0) s XOR fold_zero_local (S ID1) s XOR
     fold_zero_local (S ID2) s = (ucast (x AND drop_bit s x) :: 'u::len word)"
  for x :: "'t::len word"
  by (rule bit_word_eqI) (simp add: shared_def fold_zero_local_def Let_def bit_simps all_party, blast)

lemma fold_zero_stage_correct:
  fixes xs :: "'t::len word list"
  assumes "shared_list V xs" and "online net" and "correlated rng"
  shows "\<exists>W. fold_zero_stage_many s net rng V = Inr W \<and>
    shared_list W (map (\<lambda>x. ucast (x AND drop_bit s x) :: 'u::len word) xs)"
proof -
  let ?L = "\<lambda>p. map2 (\<lambda>k v. zero_mask rng k p XOR (fold_zero_local v s :: 'u word))
    [0..<length (V p)] (V p)"
  have "shared_list (\<lambda>p. ring_recombine (?L p) (?L (prev_party p)))
      (map (\<lambda>x. ucast (x AND drop_bit s x) :: 'u word) xs)"
    by (rule shared_recombine [where L = ?L])
      (simp_all add: shared_listD(1) [OF assms(1)] xor_three_masks [OF assms(3)]
        fold_zero_local_sum [OF shared_listD(2) [OF assms(1)]])
  with assms(2) show ?thesis by (simp add: fold_zero_stage_many_def Let_def)
qed

text \<open>The low \<open>n\<close> bits are all set; one stage halves \<open>n\<close>.\<close>

definition all_ones_below :: "nat \<Rightarrow> 'w::len word \<Rightarrow> bool" where
  "all_ones_below n x \<longleftrightarrow> (\<forall>i < n. bit x i)"

lemma all_ones_below_stage:
  fixes x :: "'t::len word"
  assumes "n \<le> LENGTH('u::len)"
  shows "all_ones_below n (ucast (x AND drop_bit n x) :: 'u word) \<longleftrightarrow> all_ones_below (2 * n) x"
proof
  assume h: "all_ones_below n (ucast (x AND drop_bit n x) :: 'u word)"
  have "bit x i" if "i < 2 * n" for i
  proof (cases "i < n")
    case True
    with h show ?thesis by (auto simp: all_ones_below_def bit_simps)
  next
    case False
    with that have "i - n < n" by simp
    with h have "bit x (n + (i - n))" by (simp add: all_ones_below_def bit_simps)
    with False show ?thesis by simp
  qed
  then show "all_ones_below (2 * n) x" by (simp add: all_ones_below_def)
next
  assume "all_ones_below (2 * n) x"
  then show "all_ones_below n (ucast (x AND drop_bit n x) :: 'u word)"
    using assms by (auto simp: all_ones_below_def bit_simps)
qed

lemma all_ones_below_1: "all_ones_below 1 x \<longleftrightarrow> bit x 0"
  by (simp add: all_ones_below_def)

lemma all_ones_below_not:
  "all_ones_below LENGTH('w) (NOT x) \<longleftrightarrow> x = 0" for x :: "'w::len word"
  by (auto simp: all_ones_below_def bit_simps intro: bit_word_eqI)

text \<open>What a complete fold from \<open>n\<close> bits computes.\<close>

definition folds :: "(network \<Rightarrow> rngs \<Rightarrow> 't::len shares \<Rightarrow> 1 shares res) \<Rightarrow> nat \<Rightarrow> bool" where
  "folds f n \<longleftrightarrow> (\<forall>net rng V xs. online net \<longrightarrow> correlated rng \<longrightarrow> shared_list V xs \<longrightarrow>
     (\<exists>W. f net rng V = Inr W \<and> shared_list W (map (\<lambda>x. of_bool (all_ones_below n x)) xs)))"

lemma foldsD:
  "folds f n \<Longrightarrow> online net \<Longrightarrow> correlated rng \<Longrightarrow> shared_list V xs \<Longrightarrow>
   \<exists>W. f net rng V = Inr W \<and> shared_list W (map (\<lambda>x. of_bool (all_ones_below n x)) xs)"
  unfolding folds_def by blast

lemma folds_stage:
  fixes f :: "network \<Rightarrow> rngs \<Rightarrow> 'u::len shares \<Rightarrow> 1 shares res"
    and g :: "network \<Rightarrow> rngs \<Rightarrow> 't::len shares \<Rightarrow> 1 shares res"
  assumes "folds f n" and "n \<le> LENGTH('u)"
    and g: "\<And>net rng V. g net rng V =
      bindE (fold_zero_stage_many n net rng V) (f net (skip_draws (length (V ID0)) rng))"
  shows "folds g (2 * n)"
  unfolding folds_def
proof (intro allI impI)
  fix net rng and V :: "'t shares" and xs
  assume env: "online net" "correlated rng" and V: "shared_list V xs"
  let ?ys = "map (\<lambda>x. ucast (x AND drop_bit n x) :: 'u word) xs"
  obtain W where W: "fold_zero_stage_many n net rng V = Inr W" "shared_list W ?ys"
    using fold_zero_stage_correct [OF V env] by blast
  obtain Z where "f net (skip_draws (length (V ID0)) rng) W = Inr Z"
    "shared_list Z (map (\<lambda>x. of_bool (all_ones_below n x)) ?ys)"
    using foldsD [OF assms(1) env(1) correlated_skip [OF env(2)] W(2)] by blast
  then show "\<exists>W. g net rng V = Inr W \<and>
      shared_list W (map (\<lambda>x. of_bool (all_ones_below (2 * n) x)) xs)"
    by (simp add: g W(1) o_def all_ones_below_stage [OF assms(2)])
qed

lemma folds_u8: "folds fold_u8 8"
  unfolding folds_def
proof (intro allI impI)
  fix net rng and V :: "8 shares" and xs :: "8 word list"
  assume env: "online net" "correlated rng" and V: "shared_list V xs"
  let ?st = "\<lambda>s. \<lambda>x :: 8 word. ucast (x AND drop_bit s x) :: 8 word"
  let ?n = "length (V ID0)"
  obtain V4 where V4: "fold_zero_stage_many 4 net rng V = Inr V4" "shared_list V4 (map (?st 4) xs)"
    using fold_zero_stage_correct [OF V env] by blast
  obtain V2 where V2: "fold_zero_stage_many 2 net (skip_draws ?n rng) V4 = Inr V2"
    "shared_list V2 (map (?st 2) (map (?st 4) xs))"
    using fold_zero_stage_correct [OF V4(2) env(1) correlated_skip [OF env(2)]] by blast
  obtain V1 where V1: "fold_zero_stage_many 1 net (skip_draws (2 * ?n) rng) V2 = Inr V1"
    "shared_list V1 (map (?st 1) (map (?st 2) (map (?st 4) xs)))"
    using fold_zero_stage_correct [OF V2(2) env(1) correlated_skip [OF env(2)]] by blast
  have "all_ones_below 8 x \<longleftrightarrow> bit (?st 1 (?st 2 (?st 4 x))) 0" for x
    using all_ones_below_stage [where 'u = 8, of 4 x]
      all_ones_below_stage [where 'u = 8, of 2 "?st 4 x"]
      all_ones_below_stage [where 'u = 8, of 1 "?st 2 (?st 4 x)"]
    by (simp only: all_ones_below_1 len_num0 len_bit0 len_bit1 len_num1) simp
  then have "map (\<lambda>x. of_bool (all_ones_below 8 x)) xs =
      map (\<lambda>w. of_bool (bit w 0) :: 1 word) (map (?st 1) (map (?st 2) (map (?st 4) xs)))"
    by simp
  moreover have "shared_list (\<lambda>p. map (\<lambda>value. get_bit_share value 0) (V1 p))
      (map (\<lambda>w. of_bool (bit w 0) :: 1 word) (map (?st 1) (map (?st 2) (map (?st 4) xs))))"
    by (rule shared_list_map [OF V1(2)]) (rule shared_get_bit)
  ultimately show "\<exists>W. fold_u8 net rng V = Inr W \<and>
      shared_list W (map (\<lambda>x. of_bool (all_ones_below 8 x)) xs)"
    by (simp only: fold_u8_def Let_def V4(1) V2(1) V1(1) bindE_simps) blast
qed

lemma folds_u16: "folds fold_u16 16"
  using folds_stage [OF folds_u8, of fold_u16] by (simp add: fold_u16_def)

lemma folds_u32: "folds fold_u32 32"
  using folds_stage [OF folds_u16, of fold_u32] by (simp add: fold_u32_def)

lemma folds_u64: "folds fold_u64 64"
  using folds_stage [OF folds_u32, of fold_u64] by (simp add: fold_u64_def)

lemma folds_u128: "folds fold_u128 128"
  using folds_stage [OF folds_u64, of fold_u128] by (simp add: fold_u128_def)

lemma is_zero_many_correct:
  fixes xs :: "'t::len word list"
  assumes "folds f LENGTH('t)" and "shared_list S xs" and "online net" and "correlated rng"
  shows "\<exists>F. is_zero_many f net rng S = Inr F \<and> shared_list F (map (\<lambda>x. of_bool (x = 0)) xs)"
proof -
  have "shared_list (\<lambda>p. map not_share (S p)) (map NOT xs)"
    by (rule shared_list_map [OF assms(2)]) (rule shared_not)
  then obtain F where "f net rng (\<lambda>p. map not_share (S p)) = Inr F"
    "shared_list F (map (\<lambda>x. of_bool (all_ones_below LENGTH('t) x)) (map NOT xs))"
    using foldsD [OF assms(1,3,4)] by blast
  then show ?thesis by (simp add: is_zero_many_def o_def all_ones_below_not)
qed

section \<open>Selecting rows by a shared bit\<close>

definition everywhere :: "(party \<Rightarrow> bool) \<Rightarrow> bool" where
  "everywhere P \<longleftrightarrow> P ID0 \<and> P ID1 \<and> P ID2"

lemma everywhereI [intro]: "(\<And>p. P p) \<Longrightarrow> everywhere P"
  by (simp add: everywhere_def)

definition cmux_many_custom ::
    "'v::len value_ops \<Rightarrow> 1 shares \<Rightarrow> 32 shares \<Rightarrow> 'v shares \<Rightarrow> 8 shares \<Rightarrow> network \<Rightarrow> rngs \<Rightarrow>
     (32 shares \<times> 'v shares \<times> 8 shares) res" where
  "cmux_many_custom V found x y alibi net rng =
     (let mask_x = (\<lambda>p. map bit_to_binary_mask (found p));
          mask_alibi = (\<lambda>p. map bit_to_binary_mask (found p));
          mask_y = (\<lambda>p. map (bit_to_mask V) (found p));
          n = length (found ID0);
          local_x = (\<lambda>p. ring_local_and (mask_x p) (x p) rng p);
          local_alibi = (\<lambda>p. ring_local_and (mask_alibi p) (alibi p) (skip_draws n rng) p);
          local_y = (\<lambda>p. value_local_and V (mask_y p) (y p) (skip_draws (2 * n) rng) p)
      in bindE (reshare net (\<lambda>p. (local_x p, local_alibi p, local_y p))) (\<lambda>nxt.
           Inr (\<lambda>p. ring_recombine (local_x p) (fst (nxt p)),
                \<lambda>p. ring_recombine (local_y p) (snd (snd (nxt p))),
                \<lambda>p. ring_recombine (local_alibi p) (fst (snd (nxt p))))))"

text \<open>What selecting a row gives: the row if its bit is set, else 0.\<close>

definition select :: "'w::len word \<Rightarrow> 1 word \<Rightarrow> 'w word \<Rightarrow> 'w word" where
  "select ones b w = (if b \<noteq> 0 then ones AND w else 0)"

lemma select_simps [simp]:
  "select ones 0 w = 0" "select (- 1) 1 w = w" "select ones 1 w = ones AND w"
  "select ones (of_bool c) w = (if c then ones AND w else 0)"
  by (simp_all add: select_def)

lemma map2_and_select:
  "map2 (AND) (map (\<lambda>b. if b \<noteq> 0 then ones else 0) bs) ws = map2 (select ones) bs ws"
  by (rule nth_equalityI) (simp_all add: select_def)

lemma cmux_many_custom_correct:
  assumes V: "doram_value V blk ones" and F: "shared_list F bs" and X: "shared_list X xs"
    and Y: "shared_list Y ys" and A: "shared_list A as"
    and len: "length xs = length bs" "length ys = length bs" "length as = length bs"
    and env: "online net" "correlated rng"
  shows "\<exists>X' Y' A'. cmux_many_custom V F X Y A net rng = Inr (X', Y', A') \<and>
    shared_list X' (map2 (select (NOT 0)) bs xs) \<and> shared_list Y' (map2 (select ones) bs ys) \<and>
    shared_list A' (map2 (select (NOT 0)) bs as)"
proof -
  have mx: "shared_list (\<lambda>p. map bit_to_binary_mask (F p)) (map bit_mask bs)"
    by (rule shared_list_map [OF F]) (rule shared_bit_to_binary_mask)
  have ma: "shared_list (\<lambda>p. map bit_to_binary_mask (F p)) (map bit_mask bs)"
    by (rule shared_list_map [OF F]) (rule shared_bit_to_binary_mask)
  have my: "shared_list (\<lambda>p. map (bit_to_mask V) (F p)) (map (\<lambda>b. if b \<noteq> 0 then ones else 0) bs)"
    by (rule shared_list_map [OF F]) (rule doram_value.bit_to_mask_ok [OF V])
  have sel: "map2 (AND) (map bit_mask bs) ws = map2 (select (NOT 0)) bs ws"
    for ws :: "'w::len word list"
    by (rule nth_equalityI) (simp_all add: select_def bit_mask_def)
  show ?thesis
    using ring_local_and_shared [OF mx X _ env(2)]
      ring_local_and_shared [OF ma A _ correlated_skip [OF env(2)], of "length (F ID0)"]
      doram_value.value_and_shared [OF V my Y _ correlated_skip [OF env(2)], of "2 * length (F ID0)"]
    by (simp add: cmux_many_custom_def Let_def env(1) len sel map2_and_select)
qed

section \<open>The circuits over addresses\<close>

definition xor_shares :: "'w::len word share list \<Rightarrow> 'w word share list \<Rightarrow> 'w word share list" where
  "xor_shares xs ys = map2 xor_share xs ys"

definition xy_if_xs_equal_circuit ::
    "'v::len value_ops \<Rightarrow> 32 shares \<Rightarrow> 32 shares \<Rightarrow> 'v shares \<Rightarrow> 8 shares \<Rightarrow> network \<Rightarrow> rngs \<Rightarrow>
     (32 shares \<times> 'v shares \<times> 8 shares \<times> 1 shares) res" where
  "xy_if_xs_equal_circuit V x x_query y alibi net rng =
     checkE (everywhere (\<lambda>p. length (x p) = length (x_query p) \<and> length (x p) = length (y p) \<and>
         length (x p) = length (alibi p))) (Panic ''xy_if_xs_equal_circuit: lengths'')
     (bindE (is_zero_many fold_u32 net rng (\<lambda>p. xor_shares (x p) (x_query p))) (\<lambda>found.
      bindE (cmux_many_custom V found x y alibi net (skip_draws (5 * length (x ID0)) rng))
        (\<lambda>(x_if, y_if, alibi_if). Inr (x_if, y_if, alibi_if, found))))"

definition replace_if_dummy_circuit ::
    "(32 shares \<Rightarrow> 32 shares \<Rightarrow> 32 shares res) \<Rightarrow> 32 shares \<Rightarrow> 32 shares \<Rightarrow> nat \<Rightarrow> 32 shares res" where
  "replace_if_dummy_circuit and_vec xs replacements log_n =
     checkE (everywhere (\<lambda>p. length (xs p) = length (replacements p)))
       (Panic ''replace_if_dummy_circuit: lengths'')
     (let masks = (\<lambda>p. map (\<lambda>x. bit_to_binary_mask (get_bit_share x log_n)) (xs p));
          deltas = (\<lambda>p. xor_shares (xs p) (replacements p))
      in bindE (and_vec masks deltas) (\<lambda>selected_deltas.
           Inr (\<lambda>p. xor_shares (xs p) (selected_deltas p))))"

lemma xor_shares_shared:
  assumes "shared_list S xs" and "shared_list T ys" and "length xs = length ys"
  shows "shared_list (\<lambda>p. xor_shares (S p) (T p)) (map2 (XOR) xs ys)"
  unfolding xor_shares_def by (rule shared_list_map2 [OF assms]) (rule shared_xor)

lemma word_xor_eq_0 [simp]: "a XOR b = 0 \<longleftrightarrow> a = b" for a b :: "'w::len word"
  by (metis xor_cancel_left xor.right_neutral xor_self_eq)

lemma xy_if_xs_equal_circuit_correct:
  assumes V: "doram_value V blk ones" and X: "shared_list X xs" and Q: "shared_list Q qs"
    and Y: "shared_list Y ys" and A: "shared_list A as"
    and len: "length qs = length xs" "length ys = length xs" "length as = length xs"
    and env: "online net" "correlated rng"
  defines "hit \<equiv> map2 (\<lambda>x q. of_bool (x = q) :: 1 word) xs qs"
  shows "\<exists>X' Y' A' F. xy_if_xs_equal_circuit V X Q Y A net rng = Inr (X', Y', A', F) \<and>
    shared_list X' (map2 (select (NOT 0)) hit xs) \<and> shared_list Y' (map2 (select ones) hit ys) \<and>
    shared_list A' (map2 (select (NOT 0)) hit as) \<and> shared_list F hit"
proof -
  have "map (\<lambda>x. of_bool (x = 0)) (map2 (XOR) xs qs) = hit"
    by (rule nth_equalityI) (simp_all add: hit_def)
  then obtain F where F: "is_zero_many fold_u32 net rng (\<lambda>p. xor_shares (X p) (Q p)) = Inr F"
    "shared_list F hit"
    using is_zero_many_correct [OF _ xor_shares_shared [OF X Q] env, of fold_u32] folds_u32 len(1)
    by auto
  have lens: "length xs = length hit" "length ys = length hit" "length as = length hit"
    by (simp_all add: hit_def len)
  obtain X' Y' A' where "cmux_many_custom V F X Y A net (skip_draws (5 * length (X ID0)) rng) =
      Inr (X', Y', A')" "shared_list X' (map2 (select (NOT 0)) hit xs)"
    "shared_list Y' (map2 (select ones) hit ys)" "shared_list A' (map2 (select (NOT 0)) hit as)"
    using cmux_many_custom_correct [OF V F(2) X Y A lens env(1) correlated_skip [OF env(2)]] by blast
  moreover have "everywhere (\<lambda>p. length (X p) = length (Q p) \<and> length (X p) = length (Y p) \<and>
      length (X p) = length (A p))"
    by (simp add: everywhere_def shared_listD(1) [OF X] shared_listD(1) [OF Q]
        shared_listD(1) [OF Y] shared_listD(1) [OF A] len)
  ultimately show ?thesis using F by (auto simp: xy_if_xs_equal_circuit_def)
qed

text \<open>What \<open>replace_if_dummy\<close> leaves at each position.\<close>

definition replaced :: "nat \<Rightarrow> 32 word \<Rightarrow> 32 word \<Rightarrow> 32 word" where
  "replaced log_n x r = (if bit x log_n then r else x)"

context and_protocol begin

lemma select_by_and:
  assumes "ready" and "shared_list M (map bit_mask bs)" and "shared_list T ws"
    and "length ws = length bs"
  shows "\<exists>C. and_vec M T = Inr C \<and> shared_list C (map2 (select (NOT 0)) bs ws)"
proof -
  have "map2 (AND) (map bit_mask bs) ws = map2 (select (NOT 0)) bs ws"
    by (rule nth_equalityI) (simp_all add: select_def bit_mask_def assms(4))
  with and_vec_ok [OF assms(1-3)] assms(4) show ?thesis by simp
qed

end

lemma replace_if_dummy_circuit_correct:
  assumes and_ok: "and_protocol and_vec True" and X: "shared_list X xs" and R: "shared_list R rs"
    and len: "length rs = length xs"
  shows "\<exists>X'. replace_if_dummy_circuit and_vec X R log_n = Inr X' \<and>
    shared_list X' (map2 (replaced log_n) xs rs)"
proof -
  let ?bs = "map (\<lambda>x. of_bool (bit x log_n) :: 1 word) xs"
  let ?M = "\<lambda>p. map (\<lambda>x. bit_to_binary_mask (get_bit_share x log_n)) (X p)"
  have "shared_list ?M (map (\<lambda>x. bit_mask (of_bool (bit x log_n) :: 1 word)) xs)"
    by (rule shared_list_map [OF X])
      (rule shared_bit_to_binary_mask, rule shared_get_bit)
  then have M: "shared_list ?M (map bit_mask ?bs)" by (simp only: map_map o_def)
  have D: "shared_list (\<lambda>p. xor_shares (X p) (R p)) (map2 (XOR) xs rs)"
    by (rule xor_shares_shared [OF X R len [symmetric]])
  obtain C where C: "and_vec ?M (\<lambda>p. xor_shares (X p) (R p)) = Inr C"
    "shared_list C (map2 (select (NOT 0)) ?bs (map2 (XOR) xs rs))"
    using and_protocol.select_by_and [OF and_ok _ M D] len by auto
  have "map2 (XOR) xs (map2 (select (NOT 0)) ?bs (map2 (XOR) xs rs)) = map2 (replaced log_n) xs rs"
    by (rule nth_equalityI) (simp_all add: len select_def replaced_def)
  moreover have "everywhere (\<lambda>p. length (X p) = length (R p))"
    by (simp add: everywhere_def shared_listD(1) [OF X] shared_listD(1) [OF R] len)
  ultimately show ?thesis
    using xor_shares_shared [OF X C(2)] len C(1)
    by (simp add: replace_if_dummy_circuit_def Let_def)
qed

section \<open>Properties\<close>

text \<open>The zero test returns, for a vector of 32-bit or of 128-bit words, the sharing of the bits
  that say which of them are zero.\<close>

theorem is_zero_opens:
  assumes "shared_list S xs" and "shared_list T ys" and "online net" and "correlated rng"
  shows "bindE (is_zero_many fold_u32 net rng S) (open_many net) = Inr (\<lambda>p. map (\<lambda>x. of_bool (x = 0)) xs) \<and>
    bindE (is_zero_many fold_u128 net rng T) (open_many net) = Inr (\<lambda>p. map (\<lambda>y. of_bool (y = 0)) ys)"
  using is_zero_many_correct [OF _ assms(1,3,4), of fold_u32] folds_u32
    is_zero_many_correct [OF _ assms(2,3,4), of fold_u128] folds_u128
  by (auto simp: open_many_correct assms(3))

theorem is_zero_opens_witness:
  "bindE (is_zero_many fold_u32 all_online zero_rng (\<lambda>p. promote_public_values p [0, 7])) (open_many all_online) =
     Inr (\<lambda>p. [1, 0])"
  using is_zero_opens [OF promote_public_values_shared promote_public_values_shared concrete_environment, of "[0, 7]" "[]"]
  by simp

text \<open>C27: The comparison circuit returns, row by row, the address, value and alibi of the rows whose
  address equals the queried one and zeros for the others, with the bits that tell them apart; it
  accepts any value type that meets the value contract.\<close>

theorem compare_and_select:
  assumes "doram_value V blk ones" and "shared_list X xs" and "shared_list Q qs"
    and "shared_list Y ys" and "shared_list A as"
    and "length qs = length xs" "length ys = length xs" "length as = length xs"
    and "online net" and "correlated rng"
  shows "\<exists>X' Y' A' F. xy_if_xs_equal_circuit V X Q Y A net rng = Inr (X', Y', A', F) \<and>
    open_many net X' = Inr (\<lambda>p. map2 (\<lambda>x q. if x = q then x else 0) xs qs) \<and>
    open_many net Y' = Inr (\<lambda>p. map2 (\<lambda>(x, q) y. if x = q then ones AND y else 0) (zip xs qs) ys) \<and>
    open_many net A' = Inr (\<lambda>p. map2 (\<lambda>(x, q) a. if x = q then a else 0) (zip xs qs) as) \<and>
    open_many net F = Inr (\<lambda>p. map2 (\<lambda>x q. of_bool (x = q)) xs qs)"
proof -
  have sel: "map2 (select m) (map2 (\<lambda>x q. of_bool (x = q) :: 1 word) xs qs) ws =
      map2 (\<lambda>(x, q) w. if x = q then m AND w else 0) (zip xs qs) ws"
    if "length ws = length xs" for m :: "'w::len word" and ws
    using that assms(6) by (intro nth_equalityI) simp_all
  have "map2 (\<lambda>(x, q) w. if x = q then w else 0) (zip xs qs) xs = map2 (\<lambda>x q. if x = q then x else 0) xs qs"
    by (rule nth_equalityI) (simp_all add: assms(6))
  with xy_if_xs_equal_circuit_correct [OF assms] show ?thesis
    using assms(6-9) by (auto simp: sel open_many_correct cong: if_cong)
qed

theorem compare_and_select_witness:
  "\<exists>X' Y' A' F. xy_if_xs_equal_circuit ring_value (\<lambda>p. promote_public_values p [5, 9])
      (\<lambda>p. promote_public_values p [9, 9]) (\<lambda>p. promote_public_values p [7, 8 :: 64 word])
      (\<lambda>p. promote_public_values p [1, 2]) all_online zero_rng = Inr (X', Y', A', F) \<and>
    open_many all_online Y' = Inr (\<lambda>p. [0, 8]) \<and> open_many all_online F = Inr (\<lambda>p. [0, 1])"
  using compare_and_select [OF u64_value.doram_value_axioms promote_public_values_shared
      promote_public_values_shared promote_public_values_shared promote_public_values_shared _ _ _
      concrete_environment, of "[9, 9]" "[5, 9]" "[7, 8]" "[1, 2]"]
  by auto

text \<open>Replacing dummies with the batched AND of the repository: an address whose dummy bit is
  set becomes the replacement at its position, every other address is kept.\<close>

theorem dummies_replaced:
  assumes "shared_list X xs" and "shared_list R rs" and "length rs = length xs"
    and "online net" and "correlated rng"
  shows "bindE (replace_if_dummy_circuit (ring_and_many net rng) X R log_n) (open_many net) =
    Inr (\<lambda>p. map2 (\<lambda>x r. if bit x log_n then r else x) xs rs)"
proof -
  have "and_protocol (ring_and_many net rng :: 32 shares \<Rightarrow> _) True"
    using ring_and.and_protocol_axioms [of net rng] assms(4,5) by simp
  from replace_if_dummy_circuit_correct [OF this assms(1-3), of log_n] show ?thesis
    by (auto simp: open_many_correct assms(4) replaced_def)
qed

theorem dummies_replaced_witness:
  "bindE (replace_if_dummy_circuit (ring_and_many all_online zero_rng) (\<lambda>p. promote_public_values p [5, 16])
     (\<lambda>p. promote_public_values p [20, 21]) 4) (open_many all_online) = Inr (\<lambda>p. [5, 21])"
  using dummies_replaced [OF promote_public_values_shared promote_public_values_shared _ concrete_environment,
      of "[20, 21]" "[5, 16]" 4]
  by (simp add: bit_iff_odd)

end
