(* ===== verification/Cht_Build.thy ===== *)
theory Cht_Build
  imports Circuits
begin

text \<open>
  \<open>build\<close> of \<open>crates/data-structures/src/cht.rs\<close>: the cuckoo hash table. Every indexed block has
  one location in each of two columns. The blocks are the edges of a graph on the locations; a
  depth-first search of each component gives every edge of its tree the vertex it discovers, the
  first edge that closes a cycle its far end, which is then freed by reorienting the path to the
  root, and marks all others for the stash. Indices are \<open>usize\<close> (64 bits), modelled as \<open>nat\<close>
  after the bit operations are done at their width.
\<close>

unbundle bit_operations_syntax

section \<open>Hash locations\<close>

definition hash_mask :: "nat \<Rightarrow> 64 word" where
  "hash_mask log_single_col_len = push_bit log_single_col_len 1 - 1"

definition h0 :: "128 word \<Rightarrow> nat \<Rightarrow> nat" where
  "h0 block log_single_col_len =
     unat (ucast (drop_bit 64 block) AND hash_mask log_single_col_len)"

definition h1 :: "128 word \<Rightarrow> nat \<Rightarrow> nat" where
  "h1 block log_single_col_len =
     unat ((ucast (drop_bit 96 block) AND hash_mask log_single_col_len) OR
           push_bit log_single_col_len (1 :: 64 word))"

definition table_length :: "nat \<Rightarrow> nat" where
  "table_length log_single_col_len = unat (push_bit log_single_col_len (2 :: 64 word))"

section \<open>The graph\<close>

record directed_edge =
  de_edge :: nat
  de_vertex :: nat

datatype stash_state = SNone | Root | Unvisited | Stashed | Vertex nat

definition unwrap_regular :: "stash_state \<Rightarrow> nat res" where
  "unwrap_regular s = (case s of Vertex v \<Rightarrow> Inr v
     | _ \<Rightarrow> Inl (Panic ''called unwrap_regular on a non-regular StashState''))"

definition push_edge :: "nat \<Rightarrow> directed_edge \<Rightarrow> directed_edge list list \<Rightarrow> directed_edge list list res" where
  "push_edge vertex de edges = bindE (getE edges vertex) (\<lambda>out. setE edges vertex (out @ [de]))"

definition add_edge ::
    "nat \<Rightarrow> nat \<times> 128 word \<Rightarrow> directed_edge list list \<Rightarrow> directed_edge list list res" where
  "add_edge l = (\<lambda>(edge, input) edges.
     (let left_vertex = h0 input l; right_vertex = h1 input l
      in bindE (push_edge left_vertex \<lparr>de_edge = edge, de_vertex = right_vertex\<rparr> edges)
           (push_edge right_vertex \<lparr>de_edge = edge, de_vertex = left_vertex\<rparr>)))"

definition build_edges :: "nat \<Rightarrow> 128 word list \<Rightarrow> directed_edge list list res" where
  "build_edges l input_array =
     foldE (add_edge l) (enumerate 0 input_array) (replicate (table_length l) [])"

section \<open>Depth-first search of a component\<close>

record cht_state =
  cs_state :: "stash_state list"
  parent_vertex :: "stash_state list"
  parent_edge :: "stash_state list"

text \<open>The variables of one component; the stack \<open>dfs\<close> has its top first.\<close>

record dfs_state = cht_state +
  dfs :: "nat list"
  component :: "nat list"
  extra_edge :: stash_state

definition visit_edge :: "nat \<Rightarrow> directed_edge \<Rightarrow> dfs_state \<Rightarrow> dfs_state res" where
  "visit_edge curr_vertex de st =
     bindE (getE (cs_state st) (de_edge de)) (\<lambda>s.
       if s \<noteq> Unvisited then Inr st
       else bindE (getE (parent_vertex st) (de_vertex de)) (\<lambda>pv.
         if pv = SNone then
           bindE (setE (parent_vertex st) (de_vertex de) (Vertex curr_vertex)) (\<lambda>pvs.
           bindE (setE (parent_edge st) (de_vertex de) (Vertex (de_edge de))) (\<lambda>pes.
           bindE (setE (cs_state st) (de_edge de) (Vertex (de_vertex de))) (\<lambda>ss.
             Inr (st\<lparr>parent_vertex := pvs, parent_edge := pes, cs_state := ss,
                     dfs := de_vertex de # dfs st\<rparr>))))
         else if extra_edge st = SNone then
           bindE (setE (cs_state st) (de_edge de) (Vertex (de_vertex de))) (\<lambda>ss.
             Inr (st\<lparr>extra_edge := Vertex (de_edge de), cs_state := ss\<rparr>))
         else
           bindE (setE (cs_state st) (de_edge de) Stashed) (\<lambda>ss. Inr (st\<lparr>cs_state := ss\<rparr>))))"

definition unseen :: "dfs_state \<Rightarrow> nat" where
  "unseen st = count_list (parent_vertex st) SNone"

lemma count_list_update:
  "i < length xs \<Longrightarrow> count_list (xs[i := y]) x + (if xs ! i = x then 1 else 0) =
   count_list xs x + (if y = x then 1 else 0)"
proof (induction xs arbitrary: i)
  case (Cons a xs)
  show ?case using Cons.IH [of "i - 1"] Cons.prems by (cases i) auto
qed simp

lemma visit_edge_measure:
  "visit_edge c de st = Inr st' \<Longrightarrow>
   2 * unseen st' + length (dfs st') \<le> 2 * unseen st + length (dfs st)"
  using count_list_update [of "de_vertex de" "parent_vertex st" "Vertex c" SNone]
  by (auto simp: visit_edge_def bindE_eq_Inr getE_eq_Inr setE_eq_Inr unseen_def split: if_splits)

lemma visit_edges_measure:
  "foldE (visit_edge c) des st = Inr st' \<Longrightarrow>
   2 * unseen st' + length (dfs st') \<le> 2 * unseen st + length (dfs st)"
  by (induction des arbitrary: st) (auto simp: bindE_eq_Inr dest!: visit_edge_measure intro: order_trans)

function (sequential) dfs_loop :: "directed_edge list list \<Rightarrow> dfs_state \<Rightarrow> dfs_state res" where
  "dfs_loop edges st =
     (case dfs st of
        [] \<Rightarrow> Inr st
      | curr_vertex # rest \<Rightarrow>
          bindE (getE edges curr_vertex) (\<lambda>out.
          bindE (foldE (visit_edge curr_vertex) out
              (st\<lparr>dfs := rest, component := component st @ [curr_vertex]\<rparr>)) (\<lambda>st'.
            dfs_loop edges st')))"
  by pat_completeness auto
termination
proof (relation "measure (\<lambda>(edges, st). 2 * unseen st + length (dfs st))")
  fix edges st curr_vertex rest out st'
  assume "dfs st = curr_vertex # rest"
    and "foldE (visit_edge curr_vertex) out
      (st\<lparr>dfs := rest, component := component st @ [curr_vertex]\<rparr>) = Inr st'"
  then show "((edges, st'), (edges, st)) \<in> measure (\<lambda>(edges, st). 2 * unseen st + length (dfs st))"
    using visit_edges_measure [of curr_vertex out _ st'] by (fastforce simp: unseen_def)
qed simp

declare dfs_loop.simps [simp del]

text \<open>
  The reorientation walks the parents up to the root. Its fuel is the number of vertices, which
  is enough because the parents of a component form a tree (\<open>reorient_ok\<close>).
\<close>

fun reorient :: "nat \<Rightarrow> nat \<Rightarrow> 'z cht_state_scheme \<Rightarrow> 'z cht_state_scheme res" where
  "reorient 0 v st = Inl OutOfFuel"
| "reorient (Suc fuel) v st =
     bindE (getE (parent_vertex st) v) (\<lambda>pv.
       if pv = Root then Inr st
       else bindE (getE (parent_edge st) v) (\<lambda>pe.
            bindE (unwrap_regular pe) (\<lambda>e.
            bindE (setE (cs_state st) e pv) (\<lambda>ss.
            bindE (unwrap_regular pv) (\<lambda>p.
              reorient fuel p (st\<lparr>cs_state := ss\<rparr>))))))"

definition search_from :: "directed_edge list list \<Rightarrow> nat \<Rightarrow> cht_state \<Rightarrow> cht_state res" where
  "search_from edges starting_vertex cs =
     bindE (getE (parent_vertex cs) starting_vertex) (\<lambda>pv.
     if pv \<noteq> SNone then Inr cs
     else
       bindE (setE (parent_vertex cs) starting_vertex Root) (\<lambda>pvs.
       bindE (setE (parent_edge cs) starting_vertex Root) (\<lambda>pes.
       bindE (dfs_loop edges \<lparr>cs_state = cs_state cs, parent_vertex = pvs, parent_edge = pes,
           dfs = [starting_vertex], component = [], extra_edge = SNone\<rparr>) (\<lambda>st.
       bindE (mapE (\<lambda>c. bindE (getE (parent_edge st) c) (\<lambda>pe.
           checkE (pe \<noteq> SNone) (Panic ''parent_edge is None'') (Inr ()))) (component st)) (\<lambda>_.
       bindE (if extra_edge st \<noteq> SNone
              then bindE (unwrap_regular (extra_edge st)) (\<lambda>value.
                   bindE (getE (cs_state st) value) (\<lambda>s.
                   bindE (unwrap_regular s) (\<lambda>v. reorient (length (parent_vertex st)) v st)))
              else Inr st) (\<lambda>st'.
         Inr \<lparr>cs_state = cs_state st', parent_vertex = parent_vertex st',
              parent_edge = parent_edge st'\<rparr>))))))"

section \<open>Filling the table and the stash\<close>

record fill_state =
  fs_table :: "128 word list"
  fs_stash :: "nat list"
  fs_num_stashed :: nat
  fs_deficit :: nat

definition stash_entry :: "128 word \<Rightarrow> fill_state \<Rightarrow> fill_state res" where
  "stash_entry input fs =
     bindE (setE (fs_stash fs) (fs_num_stashed fs) (unat (low_u32 input))) (\<lambda>stash.
       Inr (fs\<lparr>fs_stash := stash, fs_num_stashed := fs_num_stashed fs + 1\<rparr>))"

definition fill_entry :: "stash_state list \<Rightarrow> nat \<times> 128 word \<Rightarrow> fill_state \<Rightarrow> fill_state res" where
  "fill_entry state = (\<lambda>(edge, input) fs.
     bindE (getE state edge) (\<lambda>s.
     checkE (s \<noteq> Unvisited) (Panic ''unvisited edge'')
      (if s = Stashed then stash_entry input fs
       else if fs_deficit fs > 0 then
         bindE (stash_entry input fs) (\<lambda>fs'. Inr (fs'\<lparr>fs_deficit := fs_deficit fs - 1\<rparr>))
       else
         bindE (unwrap_regular s) (\<lambda>value.
         bindE (setE (fs_table fs) value input) (\<lambda>table. Inr (fs\<lparr>fs_table := table\<rparr>))))))"

definition assign_locations :: "nat \<Rightarrow> 128 word list \<Rightarrow> cht_state res" where
  "assign_locations l input_array =
     (let num_edges = length input_array; num_vertices = table_length l
      in bindE (build_edges l input_array) (\<lambda>edges.
         foldE (search_from edges) [0..<num_vertices]
           \<lparr>cs_state = replicate num_edges Unvisited,
            parent_vertex = replicate num_vertices SNone,
            parent_edge = replicate num_vertices SNone\<rparr>))"

definition cht_build :: "nat \<Rightarrow> nat \<Rightarrow> 128 word list \<Rightarrow> (128 word list \<times> nat list) res" where
  "cht_build stash_size l input_array =
     bindE (assign_locations l input_array) (\<lambda>cs.
       (let num_marked_stashed = count_list (cs_state cs) Stashed
        in checkE (num_marked_stashed \<le> stash_size) (Panic ''num_marked_stashed <= stash_size'')
          (bindE (foldE (fill_entry (cs_state cs)) (enumerate 0 input_array)
             \<lparr>fs_table = replicate (table_length l) 0, fs_stash = replicate stash_size 0,
              fs_num_stashed = 0, fs_deficit = stash_size - num_marked_stashed\<rparr>) (\<lambda>fs.
           checkE (fs_deficit fs = 0) (Panic ''stash_deficit == 0'')
             (Inr (fs_table fs, fs_stash fs))))))"

definition cht_dummy :: "nat \<Rightarrow> nat \<Rightarrow> 128 word list \<times> nat list" where
  "cht_dummy stash_size l = (replicate (table_length l) 0, replicate stash_size 0)"

section \<open>The shifts of the code at the widths it uses\<close>

lemma unat_push_shift: "l \<le> 62 \<Longrightarrow> unat (push_bit l 1 :: 64 word) = 2 ^ l"
proof -
  assume l: "l \<le> 62"
  have "(2::nat) ^ l \<le> 2 ^ 62" using l by (intro power_increasing) auto
  then show ?thesis using l unfolding unsigned_push_bit_eq
    by (simp add: push_bit_eq_mult take_bit_nat_eq_self)
qed

section \<open>The hash locations are a left and a right column\<close>

lemma hash_mask_eq: "l \<le> 62 \<Longrightarrow> hash_mask l = mask l"
  by (simp add: hash_mask_def mask_eq_exp_minus_1 push_bit_eq_mult)

lemma h0_less: "l \<le> 62 \<Longrightarrow> h0 b l < 2 ^ l"
  by (simp add: h0_def hash_mask_eq take_bit_eq_mask [symmetric] unsigned_take_bit_eq take_bit_nat_less_exp)

lemma h1_eq: "l \<le> 62 \<Longrightarrow> h1 b l = 2 ^ l + unat (take_bit l (ucast (drop_bit 96 b) :: 64 word))"
proof -
  assume l: "l \<le> 62"
  let ?a = "take_bit l (ucast (drop_bit 96 b) :: 64 word)"
  have "?a OR push_bit l 1 = ?a + push_bit l 1"
    by (rule disjunctive_add [symmetric]) (auto simp: bit_simps)
  moreover have "unat (?a + push_bit l 1) = unat ?a + 2 ^ l"
  proof -
    have lt: "unat ?a < 2 ^ l" by (simp add: unsigned_take_bit_eq take_bit_nat_less_exp)
    have "(2::nat) ^ l \<le> 2 ^ 62" using l by (intro power_increasing) auto
    then show ?thesis using lt unat_push_shift [OF l] \<open>2 ^ l \<le> 2 ^ 62\<close> by (simp add: unat_word_ariths)
  qed
  ultimately show ?thesis using l by (simp add: h1_def hash_mask_eq take_bit_eq_mask)
qed

lemma h1_ge: "l \<le> 62 \<Longrightarrow> 2 ^ l \<le> h1 b l"
  by (simp add: h1_eq)

lemma h1_less: "l \<le> 62 \<Longrightarrow> h1 b l < 2 * 2 ^ l"
  by (simp add: h1_eq unsigned_take_bit_eq take_bit_nat_less_exp)

lemma table_length_eq: "l \<le> 62 \<Longrightarrow> table_length l = 2 * 2 ^ l"
proof -
  assume l: "l \<le> 62"
  then have "(2::nat) ^ l \<le> 2 ^ 62" by (intro power_increasing) auto
  then show ?thesis unfolding table_length_def unsigned_push_bit_eq
    by (simp add: push_bit_eq_mult take_bit_nat_eq_self)
qed

section \<open>The adjacency lists\<close>

definition adjacent :: "nat \<Rightarrow> 128 word list \<Rightarrow> directed_edge list list \<Rightarrow> bool" where
  "adjacent l xs edges \<longleftrightarrow> length edges = table_length l \<and>
     (\<forall>x < table_length l. \<forall>de. de \<in> set (edges ! x) \<longleftrightarrow> de_edge de < length xs \<and>
        (x = h0 (xs ! de_edge de) l \<and> de_vertex de = h1 (xs ! de_edge de) l \<or>
         x = h1 (xs ! de_edge de) l \<and> de_vertex de = h0 (xs ! de_edge de) l))"

lemma directed_edge_eq: "(de = \<lparr>de_edge = e, de_vertex = w\<rparr>) = (de_edge de = e \<and> de_vertex de = w)"
  by (cases de) auto

lemma add_edge_adjacent:
  assumes l: "l \<le> 62" and adj: "adjacent l xs edges"
  shows "\<exists>edges'. add_edge l (length xs, b) edges = Inr edges' \<and> adjacent l (xs @ [b]) edges'"
proof -
  let ?u = "h0 b l" and ?v = "h1 b l"
  have b: "?u < table_length l" "?v < table_length l" "?u \<noteq> ?v"
    using h0_less [OF l, of b] h1_less [OF l, of b] h1_ge [OF l, of b] table_length_eq [OF l] by auto
  have len: "length edges = table_length l" using adj by (simp add: adjacent_def)
  let ?e1 = "edges[?u := edges ! ?u @ [\<lparr>de_edge = length xs, de_vertex = ?v\<rparr>]]"
  let ?e2 = "?e1[?v := edges ! ?v @ [\<lparr>de_edge = length xs, de_vertex = ?u\<rparr>]]"
  have "add_edge l (length xs, b) edges = Inr ?e2"
    using b len by (simp add: add_edge_def push_edge_def Let_def)
  moreover have "adjacent l (xs @ [b]) ?e2"
    unfolding adjacent_def
  proof (intro conjI allI impI)
    fix x de assume x: "x < table_length l"
    have old: "de \<in> set (edges ! x) \<longleftrightarrow> de_edge de < length xs \<and>
        (x = h0 (xs ! de_edge de) l \<and> de_vertex de = h1 (xs ! de_edge de) l \<or>
         x = h1 (xs ! de_edge de) l \<and> de_vertex de = h0 (xs ! de_edge de) l)"
      using adj x by (simp add: adjacent_def)
    have "de \<in> set (?e2 ! x) \<longleftrightarrow> de \<in> set (edges ! x) \<or> de_edge de = length xs \<and>
        (x = ?u \<and> de_vertex de = ?v \<or> x = ?v \<and> de_vertex de = ?u)"
      using b x len by (cases "x = ?u"; cases "x = ?v") (auto simp: directed_edge_eq)
    then show "de \<in> set (?e2 ! x) \<longleftrightarrow> de_edge de < length (xs @ [b]) \<and>
        (x = h0 ((xs @ [b]) ! de_edge de) l \<and> de_vertex de = h1 ((xs @ [b]) ! de_edge de) l \<or>
         x = h1 ((xs @ [b]) ! de_edge de) l \<and> de_vertex de = h0 ((xs @ [b]) ! de_edge de) l)"
      unfolding old by (cases "de_edge de < length xs"; cases "de_edge de = length xs")
        (simp_all add: nth_append)
  qed (simp add: len)
  ultimately show ?thesis by blast
qed

lemma build_edges_adjacent:
  assumes l: "l \<le> 62"
  shows "\<exists>edges. build_edges l xs = Inr edges \<and> adjacent l xs edges"
proof (induction xs rule: rev_induct)
  case Nil
  then show ?case by (simp add: build_edges_def adjacent_def)
next
  case (snoc b xs)
  then obtain edges where e: "build_edges l xs = Inr edges" "adjacent l xs edges" by blast
  have "build_edges l (xs @ [b]) = bindE (build_edges l xs) (add_edge l (length xs, b))"
    by (simp add: build_edges_def enumerate_append_eq foldE_append cong: bindE_cong)
  then show ?case using add_edge_adjacent [OF l e(2), of b] e(1) by auto
qed

end
