(* ===== verification/Cuckoo_Graph.thy ===== *)
theory Cuckoo_Graph
  imports Cht_Build
begin

text \<open>
  The search of \<open>build\<close> (\<open>crates/data-structures/src/cht.rs\<close>) over any graph whose adjacency lists
  hold each edge at both its ends. The locale states that contract; its lemmas follow one
  component through the depth-first search (\<open>dfs_inv\<close>), the reorientation of the path from the
  extra edge's end to the root (\<open>one_extra\<close>), and all components in turn (\<open>graph_inv\<close>). The result
  is \<open>search_correct\<close>: the search never fails, places the unstashed edges at distinct ends, and no
  placement stashes fewer.
\<close>

section \<open>The contract of the adjacency lists\<close>

locale cuckoo_graph =
  fixes n N :: nat
    and left right :: "nat \<Rightarrow> nat"
    and edges :: "directed_edge list list"
  assumes length_edges: "length edges = N"
    and left_less: "e < n \<Longrightarrow> left e < N"
    and right_less: "e < n \<Longrightarrow> right e < N"
    and left_right: "e < n \<Longrightarrow> left e \<noteq> right e"
    and out_edge: "x < N \<Longrightarrow> de \<in> set (edges ! x) \<longleftrightarrow> de_edge de < n \<and>
      (x = left (de_edge de) \<and> de_vertex de = right (de_edge de) \<or>
       x = right (de_edge de) \<and> de_vertex de = left (de_edge de))"
begin

definition ends :: "nat \<Rightarrow> nat set" where
  "ends e = {left e, right e}"

definition seen :: "'z cht_state_scheme \<Rightarrow> nat set" where
  "seen st = {x. x < N \<and> parent_vertex st ! x \<noteq> SNone}"

definition sizes :: "'z cht_state_scheme \<Rightarrow> bool" where
  "sizes st \<longleftrightarrow> length (cs_state st) = n \<and> length (parent_vertex st) = N \<and>
     length (parent_edge st) = N"

text \<open>Vertices \<open>D\<close> whose components are done: their edges are all decided.\<close>

definition settled :: "nat set \<Rightarrow> stash_state list \<Rightarrow> bool" where
  "settled D ss \<longleftrightarrow> (\<forall>e < n. ends e \<inter> D \<noteq> {} \<longrightarrow> ends e \<subseteq> D \<and> ss ! e \<noteq> Unvisited)"

definition edge_ok :: "nat set \<Rightarrow> nat set \<Rightarrow> dfs_state \<Rightarrow> nat \<Rightarrow> bool" where
  "edge_ok T C st e \<longleftrightarrow> (case cs_state st ! e of
       Unvisited \<Rightarrow> ends e \<inter> C = {}
     | Stashed \<Rightarrow> extra_edge st \<noteq> SNone \<and> ends e \<subseteq> T
     | Vertex w \<Rightarrow> w \<in> ends e \<and> ends e \<subseteq> T \<and>
         (parent_edge st ! w = Vertex e \<or> extra_edge st = Vertex e)
     | _ \<Rightarrow> False)"

definition tree_edge :: "nat set \<Rightarrow> (nat \<Rightarrow> nat) \<Rightarrow> 'z cht_state_scheme \<Rightarrow> nat \<Rightarrow> nat \<Rightarrow> nat \<Rightarrow> bool" where
  "tree_edge T rank st x p e \<longleftrightarrow> parent_vertex st ! x = Vertex p \<and> parent_edge st ! x = Vertex e \<and>
     e < n \<and> ends e = {p, x} \<and> p \<in> T \<and> rank p < rank x"

definition dfs_inv :: "nat set \<Rightarrow> stash_state list \<Rightarrow> nat \<Rightarrow> nat set \<Rightarrow> (nat \<Rightarrow> nat) \<Rightarrow> dfs_state \<Rightarrow> bool" where
  "dfs_inv D ss0 r C rank st \<longleftrightarrow> sizes st \<and> D \<subseteq> seen st \<and>
     r \<in> seen st - D \<and> parent_vertex st ! r = Root \<and> parent_edge st ! r = Root \<and>
     (\<forall>x \<in> seen st - D. x \<noteq> r \<longrightarrow> (\<exists>p e. tree_edge (seen st - D) rank st x p e \<and>
        cs_state st ! e = Vertex x)) \<and>
     (\<forall>x \<in> seen st - D. rank x < card (seen st - D)) \<and>
     seen st - D = set (component st) \<union> set (dfs st) \<and>
     (\<forall>e < n. ends e \<inter> D \<noteq> {} \<longrightarrow> cs_state st ! e = ss0 ! e) \<and>
     (\<forall>e < n. ends e \<inter> D = {} \<longrightarrow> edge_ok (seen st - D) C st e) \<and>
     (extra_edge st = SNone \<or> (\<exists>e w. extra_edge st = Vertex e \<and> e < n \<and> ends e \<inter> D = {} \<and>
        cs_state st ! e = Vertex w \<and> parent_edge st ! w \<noteq> Vertex e))"

lemma ends_less: "e < n \<Longrightarrow> x \<in> ends e \<Longrightarrow> x < N"
  using left_less right_less by (auto simp: ends_def)

lemma out_edge_ends:
  "x < N \<Longrightarrow> de \<in> set (edges ! x) \<Longrightarrow>
   de_edge de < n \<and> ends (de_edge de) = {x, de_vertex de} \<and> de_vertex de \<noteq> x \<and> de_vertex de < N"
  using left_less [of "de_edge de"] right_less [of "de_edge de"] left_right [of "de_edge de"]
  by (auto simp: out_edge ends_def)

lemma ends_out_edge:
  assumes "e < n" and "x \<in> ends e"
  shows "\<exists>de \<in> set (edges ! x). de_edge de = e"
proof (cases "x = left e")
  case True
  then show ?thesis
    using out_edge [of x "\<lparr>de_edge = e, de_vertex = right e\<rparr>"] assms left_less by force
next
  case False
  then have "x = right e" using assms by (simp add: ends_def)
  then show ?thesis
    using out_edge [of x "\<lparr>de_edge = e, de_vertex = left e\<rparr>"] assms right_less by force
qed

lemma finite_seen [simp]: "finite (seen st)"
  by (simp add: seen_def)

lemma visit_edge_inv:
  assumes inv: "dfs_inv D ss0 r C rank st"
    and settled: "settled D ss0"
    and x: "x \<in> set (component st)"
    and de: "de \<in> set (edges ! x)"
  shows "\<exists>st' rank'. visit_edge x de st = Inr st' \<and> dfs_inv D ss0 r C rank' st' \<and>
    component st' = component st \<and> cs_state st' ! de_edge de \<noteq> Unvisited \<and>
    (\<forall>e < n. cs_state st ! e \<noteq> Unvisited \<longrightarrow> cs_state st' ! e \<noteq> Unvisited)"
proof -
  let ?T = "seen st - D" and ?e = "de_edge de" and ?w = "de_vertex de"
  note i = inv [unfolded dfs_inv_def]
  have sz: "length (cs_state st) = n" "length (parent_vertex st) = N" "length (parent_edge st) = N"
    using i by (auto simp: sizes_def)
  have b: "sizes st" "D \<subseteq> seen st" "r \<in> ?T" "parent_vertex st ! r = Root" "parent_edge st ! r = Root"
      "\<forall>y \<in> ?T. rank y < card ?T" "?T = set (component st) \<union> set (dfs st)"
    using i by blast+
  have xT: "x \<in> ?T" using b(7) x by blast
  then have "x < N" by (auto simp: seen_def)
  then have e: "?e < n" "ends ?e = {x, ?w}" "?w \<noteq> x" "?w < N"
    using out_edge_ends de by blast+
  show ?thesis
  proof (cases "cs_state st ! ?e = Unvisited")
    case False
    then have "visit_edge x de st = Inr st" using e sz by (simp add: visit_edge_def)
    then show ?thesis using inv False by blast
  next
    case unv: True
    have eD: "ends ?e \<inter> D = {}" 
    proof (rule ccontr)
      assume a: "ends ?e \<inter> D \<noteq> {}"
      then have "cs_state st ! ?e = ss0 ! ?e" using i e(1) by blast
      then show False using settled a unv e(1) by (auto simp: settled_def)
    qed
    have tree: "\<exists>p e. tree_edge ?T rank st y p e \<and> cs_state st ! e = Vertex y"
      if "y \<in> ?T" "y \<noteq> r" for y using i that by blast
    have notree: "parent_edge st ! y \<noteq> Vertex ?e" if "y \<in> ?T" for y
      using tree [OF that] unv i by (cases "y = r") (auto simp: tree_edge_def)
    have old_edges: "\<forall>e' < n. ends e' \<inter> D \<noteq> {} \<longrightarrow> (cs_state st)[?e := s] ! e' = ss0 ! e'" for s
    proof (intro allI impI)
      fix e' assume "e' < n" "ends e' \<inter> D \<noteq> {}"
      moreover from this have "e' \<noteq> ?e" using eD by auto
      ultimately show "(cs_state st)[?e := s] ! e' = ss0 ! e'" using i by simp
    qed
    have ok: "edge_ok ?T C st e'" if "e' < n" "ends e' \<inter> D = {}" for e' using i that by blast
    have ex: "extra_edge st = SNone \<or> (\<exists>e w. extra_edge st = Vertex e \<and> e < n \<and> e \<noteq> ?e \<and>
      ends e \<inter> D = {} \<and> w \<in> ?T \<and> cs_state st ! e = Vertex w \<and> parent_edge st ! w \<noteq> Vertex e)"
    proof -
      have "w \<in> ?T" if "cs_state st ! e = Vertex w" "e < n" "ends e \<inter> D = {}" for e w
        using ok [OF that(2,3)] that by (auto simp: edge_ok_def)
      then show ?thesis using i unv by fastforce
    qed
    show ?thesis
    proof (cases "parent_vertex st ! ?w = SNone")
      case new: True
      let ?st = "st\<lparr>parent_vertex := (parent_vertex st)[?w := Vertex x],
        parent_edge := (parent_edge st)[?w := Vertex ?e],
        cs_state := (cs_state st)[?e := Vertex ?w], dfs := ?w # dfs st\<rparr>"
      let ?rank = "rank(?w := card ?T)"
      have w: "?w \<notin> ?T" "?w \<notin> D" using new i by (auto simp: seen_def)
      have T: "seen ?st - D = insert ?w ?T" using e sz w by (auto simp: seen_def nth_list_update)
      have card: "card (insert ?w ?T) = card ?T + 1" using w by simp
      have "visit_edge x de st = Inr ?st" using e sz unv new by (simp add: visit_edge_def)
      moreover have "dfs_inv D ss0 r C ?rank ?st"
        unfolding dfs_inv_def T
      proof (intro conjI)
        show "sizes ?st" using i by (simp add: sizes_def)
        show "D \<subseteq> seen ?st" using i e sz by (auto simp: seen_def nth_list_update)
        show "r \<in> insert ?w ?T" using i by blast
        have "?w \<noteq> r" using i w(1) by blast
        then show "parent_vertex ?st ! r = Root" "parent_edge ?st ! r = Root"
          using i by simp_all
        show "\<forall>y \<in> insert ?w ?T. y \<noteq> r \<longrightarrow> (\<exists>p e. tree_edge (insert ?w ?T) ?rank ?st y p e \<and>
            cs_state ?st ! e = Vertex y)"
        proof (intro ballI impI)
          fix y assume y: "y \<in> insert ?w ?T" "y \<noteq> r"
          show "\<exists>p e. tree_edge (insert ?w ?T) ?rank ?st y p e \<and> cs_state ?st ! e = Vertex y"
          proof (cases "y = ?w")
            case True
            have "rank x < card ?T" using i xT by blast
            then have "tree_edge (insert ?w ?T) ?rank ?st ?w x ?e"
              using e sz xT by (auto simp: tree_edge_def)
            then show ?thesis unfolding True using e sz
              by - (rule exI [of _ x], rule exI [of _ ?e], simp)
          next
            case False
            then obtain p e' where t: "tree_edge ?T rank st y p e'" "cs_state st ! e' = Vertex y"
              using y tree by blast
            then have "e' \<noteq> ?e" "p \<noteq> ?w" using unv w by (auto simp: tree_edge_def)
            then have "tree_edge (insert ?w ?T) ?rank ?st y p e'" "cs_state ?st ! e' = Vertex y"
              using t False by (auto simp: tree_edge_def)
            then show ?thesis by blast
          qed
        qed
        show "\<forall>y \<in> insert ?w ?T. ?rank y < card (insert ?w ?T)"
          using i card by (auto intro: less_SucI)
        show "insert ?w ?T = set (component ?st) \<union> set (dfs ?st)" using i by auto
        show "\<forall>e < n. ends e \<inter> D \<noteq> {} \<longrightarrow> cs_state ?st ! e = ss0 ! e"
          using old_edges by simp
        show "\<forall>e < n. ends e \<inter> D = {} \<longrightarrow> edge_ok (insert ?w ?T) C ?st e"
        proof (intro allI impI)
          fix e' assume "e' < n" "ends e' \<inter> D = {}"
          then show "edge_ok (insert ?w ?T) C ?st e'"
            using ok [of e'] e sz w xT
            by (cases "e' = ?e") (auto simp: edge_ok_def nth_list_update split: stash_state.splits)
        qed
        show "extra_edge ?st = SNone \<or> (\<exists>e w. extra_edge ?st = Vertex e \<and> e < n \<and>
            ends e \<inter> D = {} \<and> cs_state ?st ! e = Vertex w \<and> parent_edge ?st ! w \<noteq> Vertex e)"
          using ex w e sz by (fastforce simp: nth_list_update)
      qed
      ultimately show ?thesis using e sz by (intro exI [of _ ?st] exI [of _ ?rank])
        (auto simp: nth_list_update)
    next
      case old: False
      then have wT: "?w \<in> ?T" using e eD by (auto simp: seen_def)
      have keep: "dfs_inv D ss0 r C rank st'"
        if st': "st' = st\<lparr>extra_edge := ex', cs_state := (cs_state st)[?e := s]\<rparr>"
          and s: "s = Vertex ?w \<and> extra_edge st = SNone \<and> ex' = Vertex ?e \<or>
            s = Stashed \<and> extra_edge st \<noteq> SNone \<and> ex' = extra_edge st"
        for st' ex' s
        unfolding dfs_inv_def
      proof (intro conjI)
        have seen: "seen st' = seen st" by (simp add: st' seen_def)
        show "sizes st'" using i by (simp add: st' sizes_def)
        show "D \<subseteq> seen st'" "r \<in> seen st' - D" "\<forall>y \<in> seen st' - D. rank y < card (seen st' - D)"
          unfolding seen using b by blast+
        show "parent_vertex st' ! r = Root" "parent_edge st' ! r = Root"
          "seen st' - D = set (component st') \<union> set (dfs st')"
          unfolding seen b(7) by (simp_all add: st' b(4,5))
        show "\<forall>y \<in> seen st' - D. y \<noteq> r \<longrightarrow> (\<exists>p e. tree_edge (seen st' - D) rank st' y p e \<and>
            cs_state st' ! e = Vertex y)"
        proof (intro ballI impI)
          fix y assume y: "y \<in> seen st' - D" "y \<noteq> r"
          then obtain p e' where t: "tree_edge ?T rank st y p e'" "cs_state st ! e' = Vertex y"
            using tree seen by metis
          then have "e' \<noteq> ?e" using unv by auto
          then show "\<exists>p e. tree_edge (seen st' - D) rank st' y p e \<and> cs_state st' ! e = Vertex y"
            unfolding seen using t by (fastforce simp: tree_edge_def st')
        qed
        show "\<forall>e < n. ends e \<inter> D \<noteq> {} \<longrightarrow> cs_state st' ! e = ss0 ! e"
          using old_edges by (simp add: st')
        show "\<forall>e < n. ends e \<inter> D = {} \<longrightarrow> edge_ok (seen st' - D) C st' e"
        proof (intro allI impI)
          fix e' assume "e' < n" "ends e' \<inter> D = {}"
          then show "edge_ok (seen st' - D) C st' e'"
            using ok [of e'] s e sz wT xT unfolding seen
            by (cases "e' = ?e") (auto simp: edge_ok_def st' split: stash_state.splits)
        qed
        show "extra_edge st' = SNone \<or> (\<exists>e w. extra_edge st' = Vertex e \<and> e < n \<and>
            ends e \<inter> D = {} \<and> cs_state st' ! e = Vertex w \<and> parent_edge st' ! w \<noteq> Vertex e)"
          using s
        proof (elim disjE conjE)
          assume "s = Vertex ?w" "ex' = Vertex ?e"
          then show ?thesis using e sz eD notree [OF wT] by (simp add: st')
        next
          assume "ex' = extra_edge st" "extra_edge st \<noteq> SNone"
          then show ?thesis using ex by (fastforce simp: st')
        qed
      qed
      show ?thesis
      proof (cases "extra_edge st = SNone")
        case True
        let ?st = "st\<lparr>extra_edge := Vertex ?e, cs_state := (cs_state st)[?e := Vertex ?w]\<rparr>"
        have "visit_edge x de st = Inr ?st"
          using e sz unv old True by (simp add: visit_edge_def)
        moreover have "dfs_inv D ss0 r C rank ?st"
          by (rule keep [OF refl]) (use True in blast)
        moreover have "cs_state ?st ! ?e \<noteq> Unvisited" using e sz by simp
        moreover have "\<forall>e < n. cs_state st ! e \<noteq> Unvisited \<longrightarrow> cs_state ?st ! e \<noteq> Unvisited"
          using unv e(1) sz(1) by (simp add: nth_list_update)
        ultimately show ?thesis by (intro exI [of _ ?st] exI [of _ rank]) simp
      next
        case False
        let ?st = "st\<lparr>extra_edge := extra_edge st, cs_state := (cs_state st)[?e := Stashed]\<rparr>"
        have "visit_edge x de st = Inr ?st"
          using e sz unv old False by (simp add: visit_edge_def)
        moreover have "dfs_inv D ss0 r C rank ?st"
          by (rule keep [OF refl]) (use False in blast)
        moreover have "cs_state ?st ! ?e \<noteq> Unvisited" using e sz by simp
        moreover have "\<forall>e < n. cs_state st ! e \<noteq> Unvisited \<longrightarrow> cs_state ?st ! e \<noteq> Unvisited"
          using unv e(1) sz(1) by (simp add: nth_list_update)
        ultimately show ?thesis by (intro exI [of _ ?st] exI [of _ rank]) simp
      qed
    qed
  qed
qed

lemma dfs_inv_closed:
  assumes inv: "dfs_inv D ss0 r C rank st"
    and C': "\<And>e T. e < n \<Longrightarrow> edge_ok T C st e \<Longrightarrow> edge_ok T C' st e"
  shows "dfs_inv D ss0 r C' rank st"
proof -
  have "\<forall>e < n. ends e \<inter> D = {} \<longrightarrow> edge_ok (seen st - D) C st e"
    using inv unfolding dfs_inv_def by (elim conjE)
  then have "\<forall>e < n. ends e \<inter> D = {} \<longrightarrow> edge_ok (seen st - D) C' st e"
    using C' by blast
  then show ?thesis using inv unfolding dfs_inv_def by (elim conjE) (intro conjI; assumption)
qed

lemma dfs_inv_component: "dfs_inv D ss0 r C rank st \<Longrightarrow> x \<in> set (component st) \<Longrightarrow> x < N"
  by (auto simp: dfs_inv_def seen_def)

lemma visit_edges_inv:
  assumes "dfs_inv D ss0 r C rank st" and "settled D ss0" and "x \<in> set (component st)"
    and "set des \<subseteq> set (edges ! x)"
  shows "\<exists>st' rank'. foldE (visit_edge x) des st = Inr st' \<and> dfs_inv D ss0 r C rank' st' \<and>
    component st' = component st \<and> (\<forall>de \<in> set des. cs_state st' ! de_edge de \<noteq> Unvisited) \<and>
    (\<forall>e < n. cs_state st ! e \<noteq> Unvisited \<longrightarrow> cs_state st' ! e \<noteq> Unvisited)"
  using assms
proof (induction des arbitrary: st rank)
  case (Cons de des)
  obtain st1 rank1 where 1: "visit_edge x de st = Inr st1" "dfs_inv D ss0 r C rank1 st1"
    "component st1 = component st" "cs_state st1 ! de_edge de \<noteq> Unvisited"
    "\<forall>e < n. cs_state st ! e \<noteq> Unvisited \<longrightarrow> cs_state st1 ! e \<noteq> Unvisited"
    using visit_edge_inv [of D ss0 r C rank st x de] Cons.prems by auto
  obtain st2 rank2 where 2: "foldE (visit_edge x) des st1 = Inr st2" "dfs_inv D ss0 r C rank2 st2"
    "component st2 = component st1" "\<forall>de \<in> set des. cs_state st2 ! de_edge de \<noteq> Unvisited"
    "\<forall>e < n. cs_state st1 ! e \<noteq> Unvisited \<longrightarrow> cs_state st2 ! e \<noteq> Unvisited"
    using Cons.IH [of rank1 st1] 1 Cons.prems by auto
  have "de_edge de < n"
    using out_edge_ends [of x de] dfs_inv_component [OF Cons.prems(1,3)] Cons.prems(4) by simp
  then have "foldE (visit_edge x) (de # des) st = Inr st2 \<and> dfs_inv D ss0 r C rank2 st2 \<and>
    component st2 = component st \<and> (\<forall>d \<in> set (de # des). cs_state st2 ! de_edge d \<noteq> Unvisited) \<and>
    (\<forall>e < n. cs_state st ! e \<noteq> Unvisited \<longrightarrow> cs_state st2 ! e \<noteq> Unvisited)"
    using 1 2 by simp
  then show ?case by blast
qed auto

lemma dfs_loop_inv:
  assumes "dfs_inv D ss0 r C rank st" and "settled D ss0" and "C = set (component st)"
  shows "\<exists>st' rank'. dfs_loop edges st = Inr st' \<and>
    dfs_inv D ss0 r (set (component st')) rank' st' \<and> dfs st' = []"
  using assms
proof (induction "2 * unseen st + length (dfs st)" arbitrary: st C rank rule: less_induct)
  case less
  note i = less.prems(1) [unfolded dfs_inv_def]
  show ?case
  proof (cases "dfs st")
    case Nil
    then show ?thesis using less.prems by (auto simp: dfs_loop.simps)
  next
    case (Cons x rest)
    let ?st = "st\<lparr>dfs := rest, component := component st @ [x]\<rparr>"
    have same: "seen ?st = seen st" "sizes ?st = sizes st" "tree_edge T rank ?st = tree_edge T rank st"
      "edge_ok T C ?st = edge_ok T C st" "parent_vertex ?st = parent_vertex st"
      "parent_edge ?st = parent_edge st" "cs_state ?st = cs_state st" "extra_edge ?st = extra_edge st"
      "set (component ?st) \<union> set (dfs ?st) = set (component st) \<union> set (dfs st)" for T
      using Cons by (auto simp: seen_def sizes_def tree_edge_def edge_ok_def fun_eq_iff split: stash_state.splits)
    have inv: "dfs_inv D ss0 r C rank ?st"
      unfolding dfs_inv_def same by (fact i)
    have x: "x < N" using dfs_inv_component [OF inv] by simp
    obtain st' rank' where st': "foldE (visit_edge x) (edges ! x) ?st = Inr st'"
      "dfs_inv D ss0 r C rank' st'" "component st' = component st @ [x]"
      "\<forall>de \<in> set (edges ! x). cs_state st' ! de_edge de \<noteq> Unvisited"
      using visit_edges_inv [OF inv less.prems(2), of x "edges ! x"] by auto
    have "edge_ok T (set (component st')) st' e"
      if "e < n" "edge_ok T C st' e" for T e
      using that st'(3,4) ends_out_edge [of e x] less.prems(3)
      by (auto simp: edge_ok_def split: stash_state.splits)
    then have inv': "dfs_inv D ss0 r (set (component st')) rank' st'"
      using dfs_inv_closed [OF st'(2)] by blast
    have "2 * unseen st' + length (dfs st') < 2 * unseen st + length (dfs st)"
      using visit_edges_measure [OF st'(1)] Cons by (simp add: unseen_def)
    then have "\<exists>st'' rank'. dfs_loop edges st' = Inr st'' \<and>
      dfs_inv D ss0 r (set (component st'')) rank' st'' \<and> dfs st'' = []"
      using less.hyps inv' less.prems(2) by blast
    then show ?thesis using Cons x st'(1) length_edges by (simp add: dfs_loop.simps)
  qed
qed

text \<open>
  While the path to the root is reoriented, one edge \<open>q\<close> is on its way: it sits at the vertex \<open>x\<close>
  the walk has reached, and the other placed edges cover every vertex of the component but the
  root.
\<close>

definition placed :: "nat set \<Rightarrow> stash_state list \<Rightarrow> nat set" where
  "placed T ss = {e. e < n \<and> ends e \<subseteq> T \<and> (\<exists>w. ss ! e = Vertex w)}"

definition one_extra :: "nat set \<Rightarrow> nat \<Rightarrow> (nat \<Rightarrow> nat) \<Rightarrow> 'z cht_state_scheme \<Rightarrow> nat \<Rightarrow> nat \<Rightarrow> bool" where
  "one_extra T r rank st q x \<longleftrightarrow> x \<in> T \<and> q \<in> placed T (cs_state st) \<and> cs_state st ! q = Vertex x \<and>
     (\<forall>e \<in> placed T (cs_state st). \<exists>w \<in> ends e. cs_state st ! e = Vertex w) \<and>
     (\<forall>e \<in> placed T (cs_state st) - {q}. cs_state st ! e \<noteq> Vertex r \<and>
        (\<forall>e' \<in> placed T (cs_state st) - {q}. cs_state st ! e = cs_state st ! e' \<longrightarrow> e = e')) \<and>
     (\<forall>y \<in> T - {r}. \<exists>e \<in> placed T (cs_state st) - {q}. cs_state st ! e = Vertex y) \<and>
     (\<forall>y \<in> T - {r}. rank y \<le> rank x \<longrightarrow> (\<exists>p e. tree_edge T rank st y p e \<and>
        cs_state st ! e = Vertex y \<and> e \<noteq> q))"

definition one_each :: "nat set \<Rightarrow> stash_state list \<Rightarrow> bool" where
  "one_each T ss \<longleftrightarrow>
     (\<forall>e \<in> placed T ss. \<exists>w \<in> ends e. ss ! e = Vertex w) \<and>
     (\<forall>e \<in> placed T ss. \<forall>e' \<in> placed T ss. ss ! e = ss ! e' \<longrightarrow> e = e')"

lemma reorient_ok:
  assumes "one_extra T r rank st q x" and "rank x < fuel" and "sizes st" and "T \<subseteq> {..<N}"
    and "parent_vertex st ! r = Root"
  shows "\<exists>ss. reorient fuel x st = Inr (st\<lparr>cs_state := ss\<rparr>) \<and> length ss = n \<and>
    one_each T ss \<and> placed T ss = placed T (cs_state st) \<and>
    (\<forall>y \<in> T. \<exists>e \<in> placed T ss. ss ! e = Vertex y) \<and>
    (\<forall>e < n. e \<notin> placed T (cs_state st) \<longrightarrow> ss ! e = cs_state st ! e)"
  using assms
proof (induction fuel arbitrary: st q x)
  case (Suc fuel)
  note i = Suc.prems(1) [unfolded one_extra_def]
  let ?P = "placed T (cs_state st)"
  have sz: "length (cs_state st) = n" "length (parent_vertex st) = N" "length (parent_edge st) = N"
    using Suc.prems(3) by (auto simp: sizes_def)
  have x: "x < N" using i Suc.prems(4) by blast
  show ?case
  proof (cases "x = r")
    case True
    have "reorient (Suc fuel) x st = Inr st" using x sz Suc.prems(5) True by simp
    moreover have "one_each T (cs_state st)"
      unfolding one_each_def
    proof (intro conjI ballI impI)
      fix e e' assume e: "e \<in> ?P" "e' \<in> ?P" "cs_state st ! e = cs_state st ! e'"
      have r: "\<forall>e \<in> ?P - {q}. cs_state st ! e \<noteq> Vertex r" "cs_state st ! q = Vertex r"
        using i True by auto
      show "e = e'"
      proof (cases "e = q \<or> e' = q")
        case True
        then show ?thesis using r e by (metis DiffI singletonD)
      next
        case False
        then show ?thesis using i e by blast
      qed
    qed (use i in blast)
    moreover have "\<forall>y \<in> T. \<exists>e \<in> ?P. cs_state st ! e = Vertex y" using i True by blast
    ultimately show ?thesis using sz by (intro exI [of _ "cs_state st"]) simp
  next
    case False
    then obtain p t where t: "tree_edge T rank st x p t" "cs_state st ! t = Vertex x" "t \<noteq> q"
      using i by blast
    let ?st = "st\<lparr>cs_state := (cs_state st)[t := Vertex p]\<rparr>"
    have te: "parent_vertex st ! x = Vertex p" "parent_edge st ! x = Vertex t" "t < n"
      "ends t = {p, x}" "p \<in> T" "rank p < rank x"
      using t by (auto simp: tree_edge_def)
    have P: "placed T (cs_state ?st) = ?P"
    proof -
      have "(\<exists>w. cs_state ?st ! e = Vertex w) = (\<exists>w. cs_state st ! e = Vertex w)" for e
        using te(3) sz t(2) by (cases "e = t") simp_all
      then show ?thesis by (simp add: placed_def)
    qed
    have "ends t \<subseteq> T" using te(4,5) conjunct1 [OF i] by simp
    then have tP: "t \<in> ?P" using te(3) t(2) by (simp add: placed_def)
    have same: "tree_edge T rank ?st = tree_edge T rank st"
      by (simp add: tree_edge_def fun_eq_iff)
    have nt: "cs_state ?st ! e = cs_state st ! e" if "e \<noteq> t" for e using that by simp
    have inj: "e = e'" if "e \<in> ?P - {q}" "e' \<in> ?P - {q}" "cs_state st ! e = cs_state st ! e'" for e e'
      using i that by blast
    have t_only: "cs_state st ! e \<noteq> Vertex x" if "e \<in> ?P - {q}" "e \<noteq> t" for e
      using inj [of e t] that t tP by auto
    have step: "one_extra T r rank ?st t p"
      unfolding one_extra_def P same
    proof (intro conjI ballI impI)
      show "p \<in> T" "t \<in> ?P" "cs_state ?st ! t = Vertex p" using te tP sz by simp_all
    next
      fix e assume "e \<in> ?P"
      then show "\<exists>w \<in> ends e. cs_state ?st ! e = Vertex w"
        using i te sz by (cases "e = t") auto
    next
      fix e assume e: "e \<in> ?P - {t}"
      then show "cs_state ?st ! e \<noteq> Vertex r" using i False by (cases "e = q") auto
      fix e' assume e': "e' \<in> ?P - {t}" "cs_state ?st ! e = cs_state ?st ! e'"
      have q: "cs_state st ! q = Vertex x" using i by blast
      show "e = e'" using e e' q inj [of e e'] t_only [of e] t_only [of e']
        by (cases "e = q"; cases "e' = q") auto
    next
      fix y assume y: "y \<in> T - {r}"
      show "\<exists>e \<in> ?P - {t}. cs_state ?st ! e = Vertex y"
      proof (cases "y = x")
        case True
        have "q \<in> ?P" "cs_state st ! q = Vertex x" using i by blast+
        then show ?thesis using True t(3) nt [of q] by (intro bexI [of _ q]) auto
      next
        case False
        then obtain e where "e \<in> ?P - {q}" "cs_state st ! e = Vertex y" using i y by blast
        then show ?thesis using t(2) False nt [of e] by auto
      qed
      assume "rank y \<le> rank p"
      then obtain p' e where "tree_edge T rank st y p' e" "cs_state st ! e = Vertex y"
        using i y te(6) by (meson less_imp_le order_trans)
      moreover from this have "e \<noteq> t" using t te \<open>rank y \<le> rank p\<close> by auto
      ultimately show "\<exists>p' e. tree_edge T rank st y p' e \<and> cs_state ?st ! e = Vertex y \<and> e \<noteq> t"
        by - (rule exI [of _ p'], rule exI [of _ e], simp)
    qed
    have "rank p < fuel" "sizes ?st" "parent_vertex ?st ! r = Root"
      using Suc.prems te(6) by (simp_all add: sizes_def)
    note Suc.IH [OF step this(1,2) Suc.prems(4) this(3)]
    then obtain ss where ss: "reorient fuel p ?st = Inr (?st\<lparr>cs_state := ss\<rparr>)" "length ss = n"
      "one_each T ss" "placed T ss = ?P" "\<forall>y \<in> T. \<exists>e \<in> placed T ss. ss ! e = Vertex y"
      "\<forall>e < n. e \<notin> ?P \<longrightarrow> ss ! e = cs_state ?st ! e"
      unfolding P by (elim exE conjE)
    have "reorient (Suc fuel) x st = reorient fuel p ?st"
      using x sz te by (simp add: unwrap_regular_def)
    then have "reorient (Suc fuel) x st = Inr (st\<lparr>cs_state := ss\<rparr>)" using ss(1) by simp
    moreover have "\<forall>e < n. e \<notin> ?P \<longrightarrow> ss ! e = cs_state st ! e"
      using ss(6) nt tP by metis
    ultimately show ?thesis using ss(2-5) by blast
  qed
qed simp

definition graph_inv :: "nat set \<Rightarrow> cht_state \<Rightarrow> bool" where
  "graph_inv S cs \<longleftrightarrow> sizes cs \<and> settled (seen cs) (cs_state cs) \<and>
     (\<forall>e < n. ends e \<inter> seen cs = {} \<longrightarrow> cs_state cs ! e = Unvisited) \<and>
     one_each (seen cs) (cs_state cs) \<and>
     (\<forall>e < n. cs_state cs ! e \<in> {Unvisited, Stashed} \<union> range Vertex) \<and>
     S \<subseteq> seen cs \<and> (\<forall>e < n. ends e \<inter> S \<noteq> {} \<longrightarrow> ends e \<subseteq> S) \<and>
     (\<forall>y \<in> S. \<exists>e \<in> placed S (cs_state cs). cs_state cs ! e = Vertex y) \<and>
     (\<forall>e < n. cs_state cs ! e = Stashed \<longrightarrow> ends e \<subseteq> S)"

lemma dfs_done:
  assumes inv: "dfs_inv D ss0 r (set (component st)) rank st" and "dfs st = []"
    and settled: "settled D ss0"
  defines "T \<equiv> seen st - D"
  shows "\<forall>e < n. ends e \<inter> T \<noteq> {} \<longrightarrow> ends e \<subseteq> T"
    and "\<forall>e < n. ends e \<inter> T \<noteq> {} \<longrightarrow> (\<exists>w. cs_state st ! e = Vertex w \<and> w \<in> ends e \<and>
      (parent_edge st ! w = Vertex e \<or> extra_edge st = Vertex e)) \<or>
      cs_state st ! e = Stashed \<and> extra_edge st \<noteq> SNone"
    and "\<forall>e < n. ends e \<inter> (D \<union> T) = {} \<longrightarrow> cs_state st ! e = Unvisited"
    and "\<forall>y \<in> set (component st). parent_edge st ! y \<noteq> SNone"
proof -
  have T: "T = set (component st)" using inv assms(2) by (simp add: dfs_inv_def T_def)
  have ok: "edge_ok T T st e" if "e < n" "ends e \<inter> D = {}" for e
    using inv that unfolding T [symmetric] unfolding T_def dfs_inv_def by blast
  have noD: "ends e \<inter> D = {}" if "e < n" "ends e \<inter> T \<noteq> {}" for e
    using settled that by (auto simp: settled_def T_def)
  show "\<forall>e < n. ends e \<inter> T \<noteq> {} \<longrightarrow> ends e \<subseteq> T"
  proof (intro allI impI)
    fix e assume e: "e < n" "ends e \<inter> T \<noteq> {}"
    then show "ends e \<subseteq> T"
      using ok [OF e(1) noD [OF e]] by (simp add: edge_ok_def split: stash_state.splits)
  qed
  show "\<forall>e < n. ends e \<inter> T \<noteq> {} \<longrightarrow> (\<exists>w. cs_state st ! e = Vertex w \<and> w \<in> ends e \<and>
      (parent_edge st ! w = Vertex e \<or> extra_edge st = Vertex e)) \<or>
      cs_state st ! e = Stashed \<and> extra_edge st \<noteq> SNone"
  proof (intro allI impI)
    fix e assume e: "e < n" "ends e \<inter> T \<noteq> {}"
    then show "(\<exists>w. cs_state st ! e = Vertex w \<and> w \<in> ends e \<and>
      (parent_edge st ! w = Vertex e \<or> extra_edge st = Vertex e)) \<or>
      cs_state st ! e = Stashed \<and> extra_edge st \<noteq> SNone"
      using ok [OF e(1) noD [OF e]] by (simp add: edge_ok_def split: stash_state.splits)
  qed
  show "\<forall>e < n. ends e \<inter> (D \<union> T) = {} \<longrightarrow> cs_state st ! e = Unvisited"
  proof (intro allI impI)
    fix e assume e: "e < n" "ends e \<inter> (D \<union> T) = {}"
    then have dis: "ends e \<inter> D = {}" "ends e \<inter> T = {}" by auto
    have "ends e \<noteq> {}" by (simp add: ends_def)
    then have "\<not> ends e \<subseteq> T" using dis by auto
    then show "cs_state st ! e = Unvisited"
      using ok [OF e(1) dis(1)] by (simp add: edge_ok_def split: stash_state.splits)
  qed
  show "\<forall>y \<in> set (component st). parent_edge st ! y \<noteq> SNone"
  proof
    fix y assume y: "y \<in> set (component st)"
    show "parent_edge st ! y \<noteq> SNone"
    proof (cases "y = r")
      case True
      then show ?thesis using inv unfolding dfs_inv_def by (elim conjE) simp
    next
      case False
      then have "\<exists>p e. tree_edge T rank st y p e"
        using inv y unfolding T [symmetric] T_def dfs_inv_def by blast
      then show ?thesis by (auto simp: tree_edge_def)
    qed
  qed
qed

lemma dfs_start:
  assumes inv: "graph_inv S cs" and r: "r < N" "parent_vertex cs ! r = SNone"
  defines "st \<equiv> \<lparr>cs_state = cs_state cs, parent_vertex = (parent_vertex cs)[r := Root],
     parent_edge = (parent_edge cs)[r := Root], dfs = [r], component = [], extra_edge = SNone\<rparr>"
  shows "dfs_inv (seen cs) (cs_state cs) r (set (component st)) (\<lambda>_. 0) st"
proof -
  have sz: "length (cs_state cs) = n" "length (parent_vertex cs) = N" "length (parent_edge cs) = N"
    using inv by (auto simp: graph_inv_def sizes_def)
  have seen: "seen st = insert r (seen cs)" "r \<notin> seen cs"
    using r sz by (auto simp: seen_def st_def nth_list_update)
  then have T: "seen st - seen cs = {r}" by auto
  have un: "\<forall>e < n. ends e \<inter> seen cs = {} \<longrightarrow> cs_state cs ! e = Unvisited"
    using inv by (simp add: graph_inv_def)
  show ?thesis unfolding dfs_inv_def T using sz r seen un
    by (simp add: st_def sizes_def edge_ok_def subset_insertI)
qed

lemma component_one_each:
  assumes inv: "dfs_inv D ss0 r (set (component st)) rank st" and fin: "dfs st = []"
    and settled: "settled D ss0"
  defines "T \<equiv> seen st - D"
  shows "\<exists>ss. (if extra_edge st \<noteq> SNone
      then bindE (unwrap_regular (extra_edge st)) (\<lambda>value.
           bindE (getE (cs_state st) value) (\<lambda>s.
           bindE (unwrap_regular s) (\<lambda>v. reorient (length (parent_vertex st)) v st)))
      else Inr st) = Inr (st\<lparr>cs_state := ss\<rparr>) \<and> length ss = n \<and>
    one_each T ss \<and> placed T ss = placed T (cs_state st) \<and>
    (extra_edge st \<noteq> SNone \<longrightarrow> (\<forall>y \<in> T. \<exists>e \<in> placed T ss. ss ! e = Vertex y)) \<and>
    (\<forall>e < n. e \<notin> placed T (cs_state st) \<longrightarrow> ss ! e = cs_state st ! e)"
proof -
  note dn = dfs_done [OF inv fin settled, folded T_def]
  let ?P = "placed T (cs_state st)"
  have b: "sizes st" "r \<in> T" "parent_vertex st ! r = Root" "parent_edge st ! r = Root"
    "\<forall>y \<in> T. rank y < card T"
    using inv unfolding T_def dfs_inv_def by blast+
  have tree: "\<exists>p e. tree_edge T rank st y p e \<and> cs_state st ! e = Vertex y" if "y \<in> T" "y \<noteq> r" for y
    using inv that unfolding T_def dfs_inv_def by blast
  have TN: "T \<subseteq> {..<N}" by (auto simp: T_def seen_def)
  then have "card T \<le> N" using card_mono [OF _ TN] by simp
  have P: "e < n \<and> (\<exists>w \<in> ends e. cs_state st ! e = Vertex w \<and>
      (parent_edge st ! w = Vertex e \<or> extra_edge st = Vertex e))" if "e \<in> ?P" for e
  proof -
    have "ends e \<inter> T \<noteq> {}" using that by (auto simp: placed_def ends_def)
    then show ?thesis using dn(2) that by (fastforce simp: placed_def)
  qed
  have treeP: "e \<in> ?P" if "tree_edge T rank st y p e" "y \<in> T" "cs_state st ! e = Vertex y" for y p e
    using that by (auto simp: placed_def tree_edge_def)
  show ?thesis
  proof (cases "extra_edge st = SNone")
    case True
    then have "one_each T (cs_state st)"
      unfolding one_each_def by (metis P stash_state.inject stash_state.distinct)
    then show ?thesis using True b(1)
      by (intro exI [of _ "cs_state st"]) (simp add: sizes_def)
  next
    case False
    then obtain q w where q: "extra_edge st = Vertex q" "q < n" "ends q \<inter> D = {}"
      "cs_state st ! q = Vertex w" "parent_edge st ! w \<noteq> Vertex q"
      using inv unfolding dfs_inv_def by blast
    have "set (component st) = T" using inv fin unfolding dfs_inv_def T_def by simp
    then have "edge_ok T T st q" using inv q(2,3) unfolding T_def dfs_inv_def by auto
    then have qT: "w \<in> ends q" "ends q \<subseteq> T" using q(4) by (auto simp: edge_ok_def)
    have qP: "q \<in> ?P" using q(2,4) qT(2) by (simp add: placed_def)
    have w: "w \<in> T" using qT by blast
    have only: "parent_edge st ! y = Vertex e" if "e \<in> ?P - {q}" "cs_state st ! e = Vertex y" for e y
      using P [of e] that q(1) by auto
    have one: "one_extra T r rank st q w"
      unfolding one_extra_def
    proof (intro conjI ballI impI)
      show "w \<in> T" "q \<in> ?P" "cs_state st ! q = Vertex w" by fact+
    next
      fix e assume "e \<in> ?P"
      then show "\<exists>w \<in> ends e. cs_state st ! e = Vertex w" using P by blast
    next
      fix e assume e: "e \<in> ?P - {q}"
      then show "cs_state st ! e \<noteq> Vertex r" using only [of e r] b(4) by auto
      fix e' assume e': "e' \<in> ?P - {q}" "cs_state st ! e = cs_state st ! e'"
      obtain y where "cs_state st ! e = Vertex y" using P [of e] e by auto
      then show "e = e'" using only [of e y] only [of e' y] e e' by simp
    next
      fix y assume y: "y \<in> T - {r}"
      then obtain p e where t: "tree_edge T rank st y p e" "cs_state st ! e = Vertex y"
        using tree by blast
      have "e \<noteq> q" using t q by (auto simp: tree_edge_def)
      then show "\<exists>e \<in> ?P - {q}. cs_state st ! e = Vertex y"
        "\<exists>p e. tree_edge T rank st y p e \<and> cs_state st ! e = Vertex y \<and> e \<noteq> q"
        using treeP [OF t(1) _ t(2)] y t by blast+
    qed
    have "rank w < N" using b(5) w \<open>card T \<le> N\<close> by fastforce
    then obtain ss where "reorient N w st = Inr (st\<lparr>cs_state := ss\<rparr>) \<and> length ss = n \<and>
    one_each T ss \<and> placed T ss = placed T (cs_state st) \<and>
    (\<forall>y \<in> T. \<exists>e \<in> placed T ss. ss ! e = Vertex y) \<and>
    (\<forall>e < n. e \<notin> placed T (cs_state st) \<longrightarrow> ss ! e = cs_state st ! e)"
      using reorient_ok [OF one _ b(1) TN b(3)] by blast
    moreover have "(if extra_edge st \<noteq> SNone
      then bindE (unwrap_regular (extra_edge st)) (\<lambda>value.
           bindE (getE (cs_state st) value) (\<lambda>s.
           bindE (unwrap_regular s) (\<lambda>v. reorient (length (parent_vertex st)) v st)))
      else Inr st) = reorient N w st"
      using q b(1) by (simp add: sizes_def unwrap_regular_def)
    ultimately show ?thesis by (simp only:) blast
  qed
qed

lemma graph_inv_union:
  assumes inv: "graph_inv S cs" and sz: "sizes cs'" and seen: "seen cs' = seen cs \<union> T"
    and T: "T \<inter> seen cs = {}" and one: "one_each T (cs_state cs')"
    and old: "\<And>e. e < n \<Longrightarrow> ends e \<inter> seen cs \<noteq> {} \<Longrightarrow> cs_state cs' ! e = cs_state cs ! e"
    and new: "\<And>e. e < n \<Longrightarrow> ends e \<inter> T \<noteq> {} \<Longrightarrow> ends e \<subseteq> T \<and>
      ((\<exists>w. cs_state cs' ! e = Vertex w) \<or> cs_state cs' ! e = Stashed \<and> full)"
    and untouched: "\<And>e. e < n \<Longrightarrow> ends e \<inter> seen cs' = {} \<Longrightarrow> cs_state cs' ! e = Unvisited"
    and full: "full \<Longrightarrow> \<forall>y \<in> T. \<exists>e \<in> placed T (cs_state cs'). cs_state cs' ! e = Vertex y"
  shows "graph_inv (if full then S \<union> T else S) cs'"
proof -
  let ?D = "seen cs" and ?ss = "cs_state cs" and ?ss' = "cs_state cs'"
    and ?S = "if full then S \<union> T else S"
  have g: "settled ?D ?ss" "one_each ?D ?ss" "S \<subseteq> ?D"
      "\<forall>e < n. ends e \<inter> ?D = {} \<longrightarrow> ?ss ! e = Unvisited"
      "\<forall>e < n. ?ss ! e \<in> {Unvisited, Stashed} \<union> range Vertex"
      "\<forall>e < n. ends e \<inter> S \<noteq> {} \<longrightarrow> ends e \<subseteq> S"
      "\<forall>y \<in> S. \<exists>e \<in> placed S ?ss. ?ss ! e = Vertex y"
      "\<forall>e < n. ?ss ! e = Stashed \<longrightarrow> ends e \<subseteq> S"
    using inv by (simp_all add: graph_inv_def)
  have cases: "ends e \<subseteq> ?D \<and> ends e \<inter> T = {} \<and> ?ss' ! e = ?ss ! e \<and> ?ss' ! e \<noteq> Unvisited \<or>
      ends e \<subseteq> T \<and> ends e \<inter> ?D = {} \<and> ((\<exists>w. ?ss' ! e = Vertex w) \<or> ?ss' ! e = Stashed \<and> full) \<or>
      ends e \<inter> ?D = {} \<and> ends e \<inter> T = {} \<and> ?ss' ! e = Unvisited"
    if e: "e < n" for e
  proof (cases "ends e \<inter> ?D = {}")
    case False
    then show ?thesis using g(1) old [OF e False] e T by (auto simp: settled_def)
  next
    case D: True
    show ?thesis
    proof (cases "ends e \<inter> T = {}")
      case True
      then show ?thesis using D untouched [OF e] seen by (simp add: Int_Un_distrib)
    next
      case False
      then show ?thesis using new [OF e False] D by blast
    qed
  qed
  have ne: "ends e \<noteq> {}" for e by (simp add: ends_def)
  have pD: "e \<in> placed ?D ?ss \<and> ?ss' ! e = ?ss ! e"
    if "e \<in> placed (?D \<union> T) ?ss'" "e \<notin> placed T ?ss'" for e
  proof -
    have e: "e < n" "ends e \<subseteq> ?D \<union> T" "\<exists>w. ?ss' ! e = Vertex w" "\<not> ends e \<subseteq> T"
      using that by (auto simp: placed_def)
    then have "ends e \<subseteq> ?D \<and> ?ss' ! e = ?ss ! e" using cases [OF e(1)] by auto
    then show ?thesis using e by (auto simp: placed_def)
  qed
  have at: "\<exists>w \<in> ends e. ?ss' ! e = Vertex w" if "e \<in> placed (?D \<union> T) ?ss'" for e
    using that pD [of e] g(2) one by (cases "e \<in> placed T ?ss'") (auto simp: one_each_def)
  show ?thesis
    unfolding graph_inv_def seen
  proof (intro conjI)
    show "sizes cs'" by (rule sz)
    show "settled (?D \<union> T) ?ss'" using cases by (fastforce simp: settled_def)
    show "\<forall>e < n. ends e \<inter> (?D \<union> T) = {} \<longrightarrow> ?ss' ! e = Unvisited"
      using untouched seen by simp
    show "\<forall>e < n. ?ss' ! e \<in> {Unvisited, Stashed} \<union> range Vertex"
      using cases g(5) by fastforce
    show "?S \<subseteq> ?D \<union> T" using g(3) by auto
    show "one_each (?D \<union> T) ?ss'"
      unfolding one_each_def
    proof (intro conjI ballI impI)
      fix e assume "e \<in> placed (?D \<union> T) ?ss'"
      then show "\<exists>w \<in> ends e. ?ss' ! e = Vertex w" by (rule at)
    next
      fix e e' assume e: "e \<in> placed (?D \<union> T) ?ss'" "e' \<in> placed (?D \<union> T) ?ss'" "?ss' ! e = ?ss' ! e'"
      obtain w where w: "w \<in> ends e" "w \<in> ends e'" "?ss' ! e = Vertex w" using at [OF e(1)] at [OF e(2)] e(3) by auto
      have en: "e < n" "e' < n" using e by (auto simp: placed_def)
      show "e = e'"
      proof (cases "w \<in> T")
        case True
        then have "e \<in> placed T ?ss'" "e' \<in> placed T ?ss'"
          using cases [OF en(1)] cases [OF en(2)] w e en by (auto simp: placed_def)
        then show ?thesis using one e by (auto simp: one_each_def)
      next
        case False
        then have "e \<notin> placed T ?ss'" "e' \<notin> placed T ?ss'" using w by (auto simp: placed_def)
        then show ?thesis using pD [of e] pD [of e'] e g(2) by (auto simp: one_each_def)
      qed
    qed
    show "\<forall>e < n. ends e \<inter> ?S \<noteq> {} \<longrightarrow> ends e \<subseteq> ?S"
    proof (intro allI impI)
      fix e assume e: "e < n" "ends e \<inter> ?S \<noteq> {}"
      then show "ends e \<subseteq> ?S"
        using g(6) new [OF e(1)] by (cases "ends e \<inter> S = {}") (auto split: if_splits)
    qed
    show "\<forall>y \<in> ?S. \<exists>e \<in> placed ?S ?ss'. ?ss' ! e = Vertex y"
    proof
      fix y assume y: "y \<in> ?S"
      show "\<exists>e \<in> placed ?S ?ss'. ?ss' ! e = Vertex y"
      proof (cases "y \<in> S")
        case True
        then obtain e where e: "e \<in> placed S ?ss" "?ss ! e = Vertex y" using g(7) by blast
        then have "e < n" "ends e \<subseteq> S" by (auto simp: placed_def)
        then have "?ss' ! e = ?ss ! e" using old ne g(3) by blast
        then show ?thesis using e by (intro bexI [of _ e]) (auto simp: placed_def)
      next
        case False
        then have "full" "y \<in> T" using y by (auto split: if_splits)
        then show ?thesis using full by (fastforce simp: placed_def)
      qed
    qed
    show "\<forall>e < n. ?ss' ! e = Stashed \<longrightarrow> ends e \<subseteq> ?S"
    proof (intro allI impI)
      fix e assume "e < n" "?ss' ! e = Stashed"
      then show "ends e \<subseteq> ?S" using cases [of e] g(8) by auto
    qed
  qed
qed

lemma search_from_inv:
  assumes inv: "graph_inv S cs" and x: "x < N"
  shows "\<exists>cs' S'. search_from edges x cs = Inr cs' \<and> graph_inv S' cs' \<and>
    insert x (seen cs) \<subseteq> seen cs'"
proof (cases "parent_vertex cs ! x = SNone")
  case False
  have "length (parent_vertex cs) = N" using inv by (simp add: graph_inv_def sizes_def)
  then have "search_from edges x cs = Inr cs" using False x by (simp add: search_from_def)
  moreover have "insert x (seen cs) \<subseteq> seen cs" using False x by (simp add: seen_def)
  ultimately show ?thesis using inv by blast
next
  case True
  let ?st0 = "\<lparr>cs_state = cs_state cs, parent_vertex = (parent_vertex cs)[x := Root],
     parent_edge = (parent_edge cs)[x := Root], dfs = [x], component = [], extra_edge = SNone\<rparr>"
  have sz: "length (parent_vertex cs) = N" "length (parent_edge cs) = N"
    using inv by (simp_all add: graph_inv_def sizes_def)
  have settled: "settled (seen cs) (cs_state cs)" using inv by (simp add: graph_inv_def)
  obtain st rank where st: "dfs_loop edges ?st0 = Inr st" "dfs st = []"
    "dfs_inv (seen cs) (cs_state cs) x (set (component st)) rank st"
    using dfs_loop_inv [OF dfs_start [OF inv x True] settled refl] by blast
  define T where "T = seen st - seen cs"
  note dn = dfs_done [OF st(3,2) settled, folded T_def]
  obtain ss where ss: "(if extra_edge st \<noteq> SNone
      then bindE (unwrap_regular (extra_edge st)) (\<lambda>value.
           bindE (getE (cs_state st) value) (\<lambda>s.
           bindE (unwrap_regular s) (\<lambda>v. reorient (length (parent_vertex st)) v st)))
      else Inr st) = Inr (st\<lparr>cs_state := ss\<rparr>)" "length ss = n"
    "one_each T ss" "placed T ss = placed T (cs_state st)"
    "extra_edge st \<noteq> SNone \<longrightarrow> (\<forall>y \<in> T. \<exists>e \<in> placed T ss. ss ! e = Vertex y)"
    "\<forall>e < n. e \<notin> placed T (cs_state st) \<longrightarrow> ss ! e = cs_state st ! e"
    using component_one_each [OF st(3,2) settled, folded T_def] by (elim exE conjE)
  let ?cs = "\<lparr>cs_state = ss, parent_vertex = parent_vertex st, parent_edge = parent_edge st\<rparr>"
  let ?S = "if extra_edge st \<noteq> SNone then S \<union> T else S"
  have b: "sizes st" "seen cs \<subseteq> seen st" "x \<in> T" "T = set (component st)"
    "\<forall>e < n. ends e \<inter> seen cs \<noteq> {} \<longrightarrow> cs_state st ! e = cs_state cs ! e"
    using st(3) unfolding T_def dfs_inv_def st(2) by (elim conjE; simp; fail)+
  have "mapE (\<lambda>c. bindE (getE (parent_edge st) c) (\<lambda>pe.
      checkE (pe \<noteq> SNone) (Panic ''parent_edge is None'') (Inr ()))) (component st) =
      Inr (map (\<lambda>_. ()) (component st))"
  proof (rule mapE_total)
    fix c assume c: "c \<in> set (component st)"
    then have "c < length (parent_edge st)" using b(1,4) by (auto simp: T_def seen_def sizes_def)
    then show "bindE (getE (parent_edge st) c) (\<lambda>pe.
      checkE (pe \<noteq> SNone) (Panic ''parent_edge is None'') (Inr ())) = Inr ()"
      using dn(4) c by simp
  qed
  then have "search_from edges x cs = Inr ?cs"
    using x True sz st(1) ss(1) by (simp add: search_from_def)
  moreover have seen: "seen ?cs = seen cs \<union> T" using b(2) by (auto simp: T_def seen_def)
  moreover have "graph_inv ?S ?cs"
  proof (rule graph_inv_union [OF inv _ seen])
    show "sizes ?cs" using b(1) ss(2) by (simp add: sizes_def)
    show "T \<inter> seen cs = {}" by (auto simp: T_def)
    show "one_each T (cs_state ?cs)" using ss(3) by simp
    show "\<forall>y \<in> T. \<exists>e \<in> placed T (cs_state ?cs). cs_state ?cs ! e = Vertex y"
      if "extra_edge st \<noteq> SNone" using that ss(5) by simp
  next
    fix e assume e: "e < n" "ends e \<inter> seen cs \<noteq> {}"
    then have "e \<notin> placed T (cs_state st)" by (auto simp: placed_def T_def)
    then show "cs_state ?cs ! e = cs_state cs ! e" using ss(6) b(5) e by simp
  next
    fix e assume e: "e < n" "ends e \<inter> T \<noteq> {}"
    then have T: "ends e \<subseteq> T" using dn(1) by blast
    show "ends e \<subseteq> T \<and> ((\<exists>w. cs_state ?cs ! e = Vertex w) \<or>
        cs_state ?cs ! e = Stashed \<and> extra_edge st \<noteq> SNone)"
    proof (cases "e \<in> placed T (cs_state st)")
      case True
      then have "e \<in> placed T ss" using ss(4) by simp
      then show ?thesis by (simp add: placed_def)
    next
      case False
      then have "cs_state st ! e = Stashed \<and> extra_edge st \<noteq> SNone"
        using dn(2) e T by (auto simp: placed_def)
      then show ?thesis using False ss(6) e T by simp
    qed
  next
    fix e assume e: "e < n" "ends e \<inter> seen ?cs = {}"
    then have "ends e \<inter> (seen cs \<union> T) = {}" using seen by simp
    moreover from this have "e \<notin> placed T (cs_state st)" by (auto simp: placed_def ends_def)
    ultimately show "cs_state ?cs ! e = Unvisited" using dn(3) ss(6) e by simp
  qed
  ultimately show ?thesis using b(3) by blast
qed

definition unvisited_graph :: cht_state where
  "unvisited_graph = \<lparr>cs_state = replicate n Unvisited, parent_vertex = replicate N SNone,
     parent_edge = replicate N SNone\<rparr>"

lemma unvisited_graph_inv: "graph_inv {} unvisited_graph"
  by (auto simp: graph_inv_def unvisited_graph_def sizes_def settled_def seen_def one_each_def
    placed_def ends_def)

lemma search_all_inv:
  assumes "graph_inv S cs" and "set xs \<subseteq> {..<N}"
  shows "\<exists>cs' S'. foldE (search_from edges) xs cs = Inr cs' \<and> graph_inv S' cs' \<and>
    set xs \<union> seen cs \<subseteq> seen cs'"
  using assms
proof (induction xs arbitrary: S cs)
  case (Cons x xs)
  obtain cs1 S1 where 1: "search_from edges x cs = Inr cs1" "graph_inv S1 cs1"
    "insert x (seen cs) \<subseteq> seen cs1"
    using search_from_inv [OF Cons.prems(1), of x] Cons.prems(2) by auto
  obtain cs2 S2 where "foldE (search_from edges) xs cs1 = Inr cs2" "graph_inv S2 cs2"
    "set xs \<union> seen cs1 \<subseteq> seen cs2"
    using Cons.IH [OF 1(2)] Cons.prems(2) by auto
  then show ?case using 1 by (intro exI [of _ cs2] exI [of _ S2]) auto
qed auto

definition places :: "nat set \<Rightarrow> (nat \<Rightarrow> nat) \<Rightarrow> bool" where
  "places A f \<longleftrightarrow> A \<subseteq> {..<n} \<and> inj_on f A \<and> (\<forall>e \<in> A. f e \<in> ends e)"

lemma saturated_minimal:
  assumes inv: "graph_inv S cs" and f: "places A f"
  shows "card {e. e < n \<and> cs_state cs ! e = Stashed} + card A \<le> n"
proof -
  let ?ss = "cs_state cs" and ?E = "{e. e < n \<and> ends e \<subseteq> S}" and ?st = "{e. e < n \<and> cs_state cs ! e = Stashed}"
  have "S \<subseteq> seen cs" using inv by (simp add: graph_inv_def)
  then have S: "finite S" by (rule finite_subset) simp
  have surj: "\<forall>y \<in> S. \<exists>e \<in> placed S ?ss. ?ss ! e = Vertex y" using inv by (simp add: graph_inv_def)
  have fin: "finite (placed S ?ss)" by (simp add: placed_def)
  have "Vertex ` S \<subseteq> (!) ?ss ` placed S ?ss" using surj by force
  then have "card (Vertex ` S) \<le> card (placed S ?ss)"
    using fin by (meson card_image_le card_mono finite_imageI order_trans)
  then have "card S \<le> card (placed S ?ss)" by (simp add: card_image inj_on_def)
  moreover have "card (placed S ?ss) + card ?st \<le> card ?E"
  proof -
    have "placed S ?ss \<inter> ?st = {}" by (auto simp: placed_def)
    moreover have "placed S ?ss \<union> ?st \<subseteq> ?E" using inv by (auto simp: placed_def graph_inv_def)
    ultimately show ?thesis using fin by (simp flip: card_Un_disjoint add: card_mono)
  qed
  moreover have "card (A \<inter> ?E) \<le> card S"
  proof (rule card_inj_on_le [OF _ _ S])
    show "inj_on f (A \<inter> ?E)" using f by (auto simp: places_def intro: inj_on_subset)
    show "f ` (A \<inter> ?E) \<subseteq> S" using f by (auto simp: places_def)
  qed
  moreover have A: "finite A" "A \<subseteq> {..<n}" using f finite_subset by (auto simp: places_def)
  have "card A = card (A \<inter> ?E) + card (A - ?E)"
    using A(1) by (metis card_Int_Diff)
  moreover have "card (A - ?E) \<le> card ({..<n} - ?E)" using A by (intro card_mono) auto
  moreover have "card ({..<n} - ?E) = n - card ?E" by (subst card_Diff_subset) auto
  moreover have "card ?E \<le> n" using card_mono [of "{..<n}" ?E] by auto
  ultimately show ?thesis by linarith
qed

text \<open>What the search computes: a placement of the unstashed edges, with as few stashed as possible.\<close>

lemma search_correct:
  "\<exists>cs. foldE (search_from edges) [0..<N] unvisited_graph = Inr cs \<and> length (cs_state cs) = n \<and>
     (\<forall>e < n. cs_state cs ! e = Stashed \<or> (\<exists>w \<in> ends e. cs_state cs ! e = Vertex w)) \<and>
     (\<forall>e < n. \<forall>e' < n. \<forall>w. cs_state cs ! e = Vertex w \<longrightarrow> cs_state cs ! e' = Vertex w \<longrightarrow> e = e') \<and>
     (\<forall>A f. places A f \<longrightarrow> card {e. e < n \<and> cs_state cs ! e = Stashed} + card A \<le> n)"
proof -
  obtain cs S where cs: "foldE (search_from edges) [0..<N] unvisited_graph = Inr cs" "graph_inv S cs"
    "{..<N} \<subseteq> seen cs"
    using search_all_inv [OF unvisited_graph_inv, of "[0..<N]"] by (auto simp: lessThan_atLeast0)
  have all: "seen cs = {..<N}" using cs(3) by (auto simp: seen_def)
  have sub: "ends e \<subseteq> {..<N}" "ends e \<noteq> {}" if "e < n" for e
    using ends_less that by (auto simp: ends_def)
  have st: "settled {..<N} (cs_state cs)" "one_each {..<N} (cs_state cs)" "length (cs_state cs) = n"
    "\<forall>e < n. cs_state cs ! e \<in> {Unvisited, Stashed} \<union> range Vertex"
    using cs(2) unfolding all [symmetric] by (simp_all add: graph_inv_def sizes_def)
  have placed: "e \<in> placed {..<N} (cs_state cs)" if "e < n" "cs_state cs ! e = Vertex w" for e w
    using that sub by (simp add: placed_def)
  have "cs_state cs ! e = Stashed \<or> (\<exists>w \<in> ends e. cs_state cs ! e = Vertex w)" if e: "e < n" for e
  proof -
    have "ends e \<inter> {..<N} \<noteq> {}" using sub [OF e] by auto
    then have "cs_state cs ! e \<noteq> Unvisited" using st(1) e by (simp add: settled_def)
    moreover have "cs_state cs ! e \<in> {Unvisited, Stashed} \<union> range Vertex" using st(4) e by blast
    ultimately show ?thesis using placed [OF e] st(2) by (auto simp: one_each_def)
  qed
  moreover have "e = e'" if "e < n" "e' < n" "cs_state cs ! e = Vertex w" "cs_state cs ! e' = Vertex w"
    for e e' w using st(2) placed that by (simp add: one_each_def)
  ultimately show ?thesis using cs st(3) saturated_minimal [OF cs(2)] by blast
qed

end

end
