(* ===== verification/Cht_Correct.thy ===== *)
theory Cht_Correct
  imports Cuckoo_Graph
begin

text \<open>
  \<open>build\<close> is correct: the adjacency lists it makes satisfy the contract of the search, so it
  succeeds exactly if the input can be placed with \<open>stash_size\<close> blocks left over, and its result
  holds every block at one of its two locations or in the stash.
\<close>

section \<open>The code's graph\<close>

definition adjacency :: "nat \<Rightarrow> 128 word list \<Rightarrow> directed_edge list list" where
  "adjacency l xs = (case build_edges l xs of Inr edges \<Rightarrow> edges | Inl _ \<Rightarrow> [])"

lemma build_edges_ok: "l \<le> 62 \<Longrightarrow> build_edges l xs = Inr (adjacency l xs)"
  using build_edges_adjacent [of l xs] by (auto simp: adjacency_def)

lemma adjacency_adjacent: "l \<le> 62 \<Longrightarrow> adjacent l xs (adjacency l xs)"
  using build_edges_adjacent [of l xs] by (auto simp: adjacency_def)

interpretation cht: cuckoo_graph "length xs" "table_length (min l 62)"
    "\<lambda>e. h0 (xs ! e) (min l 62)" "\<lambda>e. h1 (xs ! e) (min l 62)" "adjacency (min l 62) xs"
  for xs :: "128 word list" and l :: nat
proof unfold_locales
  have l: "min l 62 \<le> 62" by simp
  note adj = adjacency_adjacent [OF l, of xs, unfolded adjacent_def]
  show "length (adjacency (min l 62) xs) = table_length (min l 62)" using adj by simp
  fix e
  show "h0 (xs ! e) (min l 62) < table_length (min l 62)"
    using h0_less [OF l, of "xs ! e"] by (simp add: table_length_eq [OF l])
  show "h1 (xs ! e) (min l 62) < table_length (min l 62)"
    using h1_less [OF l] by (simp add: table_length_eq [OF l])
  show "h0 (xs ! e) (min l 62) \<noteq> h1 (xs ! e) (min l 62)"
    using h0_less [OF l, of "xs ! e"] h1_ge [OF l, of "xs ! e"] by linarith
next
  fix x de
  assume "x < table_length (min l 62)"
  then show "de \<in> set (adjacency (min l 62) xs ! x) \<longleftrightarrow> de_edge de < length xs \<and>
    (x = h0 (xs ! de_edge de) (min l 62) \<and> de_vertex de = h1 (xs ! de_edge de) (min l 62) \<or>
     x = h1 (xs ! de_edge de) (min l 62) \<and> de_vertex de = h0 (xs ! de_edge de) (min l 62))"
    using adjacency_adjacent [of "min l 62" xs] unfolding adjacent_def by simp
qed

text \<open>A partial placement of the input: every block of \<open>A\<close> at one of its two locations, no two at the same.\<close>

definition cuckoo_placement :: "nat \<Rightarrow> 128 word list \<Rightarrow> nat set \<Rightarrow> (nat \<Rightarrow> nat) \<Rightarrow> bool" where
  "cuckoo_placement l xs A f \<longleftrightarrow> A \<subseteq> {..<length xs} \<and> inj_on f A \<and>
     (\<forall>e \<in> A. f e = h0 (xs ! e) l \<or> f e = h1 (xs ! e) l)"

definition stashed_edges :: "stash_state list \<Rightarrow> nat set" where
  "stashed_edges ss = {e. e < length ss \<and> ss ! e = Stashed}"

definition location :: "stash_state list \<Rightarrow> nat \<Rightarrow> nat" where
  "location ss e = (case ss ! e of Vertex w \<Rightarrow> w | _ \<Rightarrow> 0)"

lemma assign_locations_ok:
  assumes l: "l \<le> 62"
  shows "\<exists>cs. assign_locations l xs = Inr cs \<and> length (cs_state cs) = length xs \<and>
     (\<forall>e < length xs. cs_state cs ! e = Stashed \<or> cs_state cs ! e = Vertex (location (cs_state cs) e)) \<and>
     cuckoo_placement l xs ({..<length xs} - stashed_edges (cs_state cs)) (location (cs_state cs)) \<and>
     (\<forall>A f. cuckoo_placement l xs A f \<longrightarrow> card (stashed_edges (cs_state cs)) + card A \<le> length xs)"
proof -
  have m: "min l 62 = l" using l by simp
  obtain cs where cs: "foldE (search_from (adjacency l xs)) [0..<table_length l]
        (cht.unvisited_graph xs l) = Inr cs"
    "length (cs_state cs) = length xs"
    "\<forall>e < length xs. cs_state cs ! e = Stashed \<or> (\<exists>w \<in> cht.ends xs l e. cs_state cs ! e = Vertex w)"
    "\<forall>e < length xs. \<forall>e' < length xs. \<forall>w. cs_state cs ! e = Vertex w \<longrightarrow>
       cs_state cs ! e' = Vertex w \<longrightarrow> e = e'"
    "\<forall>A f. cht.places xs l A f \<longrightarrow>
       card {e. e < length xs \<and> cs_state cs ! e = Stashed} + card A \<le> length xs"
    using cht.search_correct [where xs = xs and l = l] unfolding m by (elim exE conjE)
  have ends: "cht.ends xs l e = {h0 (xs ! e) l, h1 (xs ! e) l}" for e
    unfolding cht.ends_def unfolding m ..
  have "assign_locations l xs = Inr cs"
    using cs(1) build_edges_ok [OF l, of xs] unfolding cht.unvisited_graph_def unfolding m
    by (simp add: assign_locations_def Let_def)
  moreover have loc: "cs_state cs ! e = Stashed \<or> cs_state cs ! e = Vertex (location (cs_state cs) e) \<and>
      location (cs_state cs) e \<in> {h0 (xs ! e) l, h1 (xs ! e) l}" if "e < length xs" for e
    using cs(3) that unfolding ends by (fastforce simp: location_def)
  moreover have "cuckoo_placement l xs ({..<length xs} - stashed_edges (cs_state cs)) (location (cs_state cs))"
    unfolding cuckoo_placement_def
  proof (intro conjI ballI inj_onI)
    fix e e' assume e: "e \<in> {..<length xs} - stashed_edges (cs_state cs)"
      "e' \<in> {..<length xs} - stashed_edges (cs_state cs)"
      "location (cs_state cs) e = location (cs_state cs) e'"
    then show "e = e'" using loc [of e] loc [of e'] cs(2,4) by (auto simp: stashed_edges_def)
  next
    fix e assume "e \<in> {..<length xs} - stashed_edges (cs_state cs)"
    then show "location (cs_state cs) e = h0 (xs ! e) l \<or> location (cs_state cs) e = h1 (xs ! e) l"
      using loc [of e] cs(2) by (auto simp: stashed_edges_def)
  qed auto
  moreover have "card (stashed_edges (cs_state cs)) + card A \<le> length xs"
    if "cuckoo_placement l xs A f" for A f
  proof -
    have "cht.places xs l A f" using that unfolding cht.places_def ends cuckoo_placement_def by simp
    then have "card {e. e < length xs \<and> cs_state cs ! e = Stashed} + card A \<le> length xs"
      using cs(5) unfolding m by blast
    then show ?thesis by (simp add: stashed_edges_def cs(2))
  qed
  ultimately show ?thesis using cs(2) by blast
qed

section \<open>Filling the table and the stash\<close>

definition stash_of :: "128 word list \<Rightarrow> nat set \<Rightarrow> nat \<Rightarrow> nat list" where
  "stash_of xs K k = map (\<lambda>e. unat (low_u32 (xs ! e))) (filter (\<lambda>e. e \<in> K) [0..<k])"

definition fill_inv :: "nat \<Rightarrow> nat \<Rightarrow> nat \<Rightarrow> 128 word list \<Rightarrow> stash_state list \<Rightarrow> nat \<Rightarrow> nat set \<Rightarrow> fill_state \<Rightarrow> bool" where
  "fill_inv N s d xs ss k K fs \<longleftrightarrow> K \<subseteq> {..<k} \<and> {e \<in> stashed_edges ss. e < k} \<subseteq> K \<and>
     fs_num_stashed fs = card K \<and>
     card K + fs_deficit fs = card {e \<in> stashed_edges ss. e < k} + d \<and>
     (fs_deficit fs > 0 \<longrightarrow> K = {..<k}) \<and>
     fs_stash fs = stash_of xs K k @ replicate (s - card K) 0 \<and>
     length (fs_table fs) = N \<and>
     (\<forall>e < k. e \<notin> K \<longrightarrow> fs_table fs ! location ss e = xs ! e) \<and>
     (\<forall>i < N. (\<forall>e < k. e \<notin> K \<longrightarrow> location ss e \<noteq> i) \<longrightarrow> fs_table fs ! i = 0)"

lemma card_filter_upt: "K \<subseteq> {..<k} \<Longrightarrow> length (filter (\<lambda>e. e \<in> K) [0..<k]) = card K"
proof -
  assume "K \<subseteq> {..<k}"
  then have "set (filter (\<lambda>e. e \<in> K) [0..<k]) = K" by auto
  then show ?thesis using distinct_card [of "filter (\<lambda>e. e \<in> K) [0..<k]"] by simp
qed

lemma stash_of_Suc:
  "K \<subseteq> {..<k} \<Longrightarrow> stash_of xs (insert k K) (Suc k) = stash_of xs K k @ [unat (low_u32 (xs ! k))]"
  "K \<subseteq> {..<k} \<Longrightarrow> stash_of xs K (Suc k) = stash_of xs K k"
  unfolding stash_of_def by (auto intro!: arg_cong [where f = "map _"] filter_cong)

lemma length_stash_of: "K \<subseteq> {..<k} \<Longrightarrow> length (stash_of xs K k) = card K"
  by (simp add: stash_of_def card_filter_upt)

lemma stash_entry_ok:
  assumes "fs_num_stashed fs = card K" "K \<subseteq> {..<k}" "card K < s"
    and "fs_stash fs = stash_of xs K k @ replicate (s - card K) 0"
  shows "stash_entry (xs ! k) fs = Inr (fs\<lparr>fs_stash := stash_of xs (insert k K) (Suc k) @
     replicate (s - card (insert k K)) 0, fs_num_stashed := card (insert k K)\<rparr>)"
proof -
  have fin: "finite K" "k \<notin> K" using assms(2) finite_subset by auto
  have "(stash_of xs K k @ replicate (s - card K) 0)[card K := x] =
      stash_of xs K k @ [x] @ replicate (s - Suc (card K)) 0" for x
    using assms(3) length_stash_of [OF assms(2), of xs]
    by (simp add: list_update_append Suc_diff_Suc [symmetric])
  then show ?thesis
    using assms fin length_stash_of [OF assms(2), of xs]
    by (simp add: stash_entry_def stash_of_Suc)
qed

lemma fill_entry_inv:
  assumes inv: "fill_inv N s d xs ss k K fs" and k: "k < length xs" "length ss = length xs"
    and ss: "\<forall>e < length xs. ss ! e = Stashed \<or> ss ! e = Vertex (location ss e)"
    and inj: "inj_on (location ss) ({..<length xs} - stashed_edges ss)"
    and N: "\<forall>e \<in> {..<length xs} - stashed_edges ss. location ss e < N"
    and s: "card (stashed_edges ss) + d = s"
  shows "\<exists>K' fs'. fill_entry ss (k, xs ! k) fs = Inr fs' \<and> fill_inv N s d xs ss (Suc k) K' fs'"
proof -
  note i = inv [unfolded fill_inv_def]
  have fin: "finite (stashed_edges ss)" by (simp add: stashed_edges_def)
  have K: "K \<subseteq> {..<k}" "finite K" "k \<notin> K" using i finite_subset by auto
  let ?M = "\<lambda>k. {e \<in> stashed_edges ss. e < k}"
  have M: "?M (Suc k) = (if ss ! k = Stashed then insert k (?M k) else ?M k)"
    using k by (auto simp: stashed_edges_def less_Suc_eq)
  have card: "card (?M (Suc k)) = card (?M k) + (if ss ! k = Stashed then 1 else 0)"
    unfolding M using fin by simp
  have "card (?M (Suc k)) \<le> card (stashed_edges ss)" using fin by (intro card_mono) auto
  then have lt: "card K < s" if "ss ! k = Stashed \<or> fs_deficit fs > 0"
    using that i s card by (auto split: if_splits)
  show ?thesis
  proof (cases "ss ! k = Stashed \<or> fs_deficit fs > 0")
    case True
    let ?fs = "fs\<lparr>fs_stash := stash_of xs (insert k K) (Suc k) @
      replicate (s - card (insert k K)) 0, fs_num_stashed := card (insert k K),
      fs_deficit := (if ss ! k = Stashed then fs_deficit fs else fs_deficit fs - 1)\<rparr>"
    have "stash_entry (xs ! k) fs = Inr (fs\<lparr>fs_stash := stash_of xs (insert k K) (Suc k) @
       replicate (s - card (insert k K)) 0, fs_num_stashed := card (insert k K)\<rparr>)"
      by (rule stash_entry_ok) (use i lt [OF True] in blast)+
    then have "fill_entry ss (k, xs ! k) fs = Inr ?fs"
      using True k ss by (cases "ss ! k = Stashed") (auto simp: fill_entry_def)
    moreover have "fill_inv N s d xs ss (Suc k) (insert k K) ?fs"
      unfolding fill_inv_def
    proof (intro conjI)
      show "{e \<in> stashed_edges ss. e < Suc k} \<subseteq> insert k K" using i by (auto simp: less_Suc_eq)
      show "card (insert k K) + fs_deficit ?fs = card (?M (Suc k)) + d"
        using i True K card by auto
    qed (use i K in \<open>auto simp: less_Suc_eq\<close>)
    ultimately show ?thesis by blast
  next
    case False
    let ?w = "location ss k" and ?fs = "fs\<lparr>fs_table := (fs_table fs)[location ss k := xs ! k]\<rparr>"
    have kk: "k \<in> {..<length xs} - stashed_edges ss" "ss ! k = Vertex ?w"
      using k ss False by (auto simp: stashed_edges_def)
    then have w: "?w < length (fs_table fs)" using N i by simp
    then have "fill_entry ss (k, xs ! k) fs = Inr ?fs"
      using False k kk by (simp add: fill_entry_def unwrap_regular_def)
    moreover have "fill_inv N s d xs ss (Suc k) K ?fs"
      unfolding fill_inv_def
    proof (intro conjI)
      show "K \<subseteq> {..<Suc k}" using K by auto
      show "{e \<in> stashed_edges ss. e < Suc k} \<subseteq> K" using i M False by simp
      show "card K + fs_deficit ?fs = card (?M (Suc k)) + d" using i card False by simp
      show "\<forall>e < Suc k. e \<notin> K \<longrightarrow> fs_table ?fs ! location ss e = xs ! e"
      proof (intro allI impI)
        fix e assume e: "e < Suc k" "e \<notin> K"
        show "fs_table ?fs ! location ss e = xs ! e"
        proof (cases "e = k")
          case True
          then show ?thesis using w by simp
        next
          case False
          then have "e < k" "e \<in> {..<length xs} - stashed_edges ss" using e k i by auto
          moreover from this have "location ss e \<noteq> ?w" using inj kk(1) False by (meson inj_onD)
          ultimately show ?thesis using i e by simp
        qed
      qed
      show "\<forall>j < N. (\<forall>e < Suc k. e \<notin> K \<longrightarrow> location ss e \<noteq> j) \<longrightarrow> fs_table ?fs ! j = 0"
        using i K by (auto simp: less_Suc_eq)
    qed (use i False K stash_of_Suc(2) in auto)
    ultimately show ?thesis by blast
  qed
qed

lemma fill_all_inv:
  assumes init: "fill_inv N s d xs ss 0 {} fs" and k: "k \<le> length xs" "length ss = length xs"
    and ss: "\<forall>e < length xs. ss ! e = Stashed \<or> ss ! e = Vertex (location ss e)"
    and inj: "inj_on (location ss) ({..<length xs} - stashed_edges ss)"
    and N: "\<forall>e \<in> {..<length xs} - stashed_edges ss. location ss e < N"
    and s: "card (stashed_edges ss) + d = s"
  shows "\<exists>K fs'. foldE (fill_entry ss) (enumerate 0 (take k xs)) fs = Inr fs' \<and>
    fill_inv N s d xs ss k K fs'"
  using k(1)
proof (induction k)
  case 0
  then show ?case using init by auto
next
  case (Suc k)
  then obtain K fs' where 1: "foldE (fill_entry ss) (enumerate 0 (take k xs)) fs = Inr fs'"
    "fill_inv N s d xs ss k K fs'" by auto
  have k': "k < length xs" using Suc.prems by simp
  obtain K' fs'' where 2: "fill_entry ss (k, xs ! k) fs' = Inr fs''" "fill_inv N s d xs ss (Suc k) K' fs''"
    using fill_entry_inv [OF 1(2) k' k(2) ss inj N s] by blast
  have "enumerate 0 (take (Suc k) xs) = enumerate 0 (take k xs) @ [(k, xs ! k)]"
    using k' by (simp add: take_Suc_conv_app_nth enumerate_append_eq)
  then have "foldE (fill_entry ss) (enumerate 0 (take (Suc k) xs)) fs = Inr fs''"
    using 1(1) 2(1) by (simp add: foldE_append)
  then show ?case using 2(2) by blast
qed

lemma cht_build_cases:
  assumes l: "l \<le> 62"
  obtains (overfull) "cht_build s l xs = Inl (Panic ''num_marked_stashed <= stash_size'')"
      "\<forall>A f. cuckoo_placement l xs A f \<longrightarrow> s + card A < length xs"
    | (underfull) "cht_build s l xs = Inl (Panic ''stash_deficit == 0'')" "length xs < s"
      "\<exists>A f. cuckoo_placement l xs A f \<and> length xs \<le> s + card A"
    | (built) K f table where "cht_build s l xs = Inr (table, stash_of xs K (length xs))"
      "length table = 2 * 2 ^ l" "K \<subseteq> {..<length xs}" "card K = s"
      "cuckoo_placement l xs ({..<length xs} - K) f"
      "\<forall>e < length xs. e \<notin> K \<longrightarrow> table ! f e = xs ! e"
      "\<forall>i < length table. i \<notin> f ` ({..<length xs} - K) \<longrightarrow> table ! i = 0"
proof -
  obtain cs where cs: "assign_locations l xs = Inr cs" "length (cs_state cs) = length xs"
     "\<forall>e < length xs. cs_state cs ! e = Stashed \<or> cs_state cs ! e = Vertex (location (cs_state cs) e)"
     "cuckoo_placement l xs ({..<length xs} - stashed_edges (cs_state cs)) (location (cs_state cs))"
     "\<forall>A f. cuckoo_placement l xs A f \<longrightarrow> card (stashed_edges (cs_state cs)) + card A \<le> length xs"
    using assign_locations_ok [OF l, of xs] by (elim exE conjE)
  let ?ss = "cs_state cs" and ?M = "stashed_edges (cs_state cs)" and ?n = "length xs"
  have M: "?M \<subseteq> {..<?n}" using cs(2) by (auto simp: stashed_edges_def)
  then have Mn: "finite ?M" "card ?M \<le> ?n" "card ({..<?n} - ?M) = ?n - card ?M"
    using finite_subset card_mono [OF _ M] card_Diff_subset [OF _ M] by auto
  have count: "count_list ?ss Stashed = card ?M"
    by (simp add: count_list_eq_length_filter length_filter_conv_card stashed_edges_def eq_commute)
  have inj: "inj_on (location ?ss) ({..<?n} - ?M)" using cs(4) by (simp add: cuckoo_placement_def)
  have N: "\<forall>e \<in> {..<?n} - ?M. location ?ss e < table_length l"
  proof
    fix e assume "e \<in> {..<?n} - ?M"
    then have "location ?ss e = h0 (xs ! e) l \<or> location ?ss e = h1 (xs ! e) l"
      using cs(4) by (simp add: cuckoo_placement_def)
    then show "location ?ss e < table_length l"
      using h0_less [OF l, of "xs ! e"] h1_less [OF l, of "xs ! e"] by (auto simp: table_length_eq [OF l])
  qed
  show ?thesis
  proof (cases "card ?M \<le> s")
    case False
    then have "cht_build s l xs = Inl (Panic ''num_marked_stashed <= stash_size'')"
      using cs(1) count by (simp add: cht_build_def Let_def)
    moreover have "s + card A < ?n" if "cuckoo_placement l xs A f" for A f
      using cs(5) that False by fastforce
    ultimately show ?thesis using overfull by blast
  next
    case True
    have placeable: "\<exists>A f. cuckoo_placement l xs A f \<and> ?n \<le> s + card A"
      using cs(4) Mn True by (intro exI conjI) (assumption, simp)
    let ?d = "s - card ?M"
    let ?fs = "\<lparr>fs_table = replicate (table_length l) 0, fs_stash = replicate s 0,
      fs_num_stashed = 0, fs_deficit = ?d\<rparr>"
    have "fill_inv (table_length l) s ?d xs ?ss 0 {} ?fs"
      by (simp add: fill_inv_def stash_of_def)
    then obtain K fs where fs: "foldE (fill_entry ?ss) (enumerate 0 xs) ?fs = Inr fs"
      "fill_inv (table_length l) s ?d xs ?ss ?n K fs"
      using fill_all_inv [OF _ order_refl cs(2,3) inj N, of s ?d ?fs] True by auto
    note i = fs(2) [unfolded fill_inv_def]
    have Meq: "{e \<in> ?M. e < ?n} = ?M" using M by auto
    have K: "K \<subseteq> {..<?n}" "?M \<subseteq> K" "card K + fs_deficit fs = s"
      using i True unfolding Meq by simp_all
    have eq: "cht_build s l xs = checkE (fs_deficit fs = 0) (Panic ''stash_deficit == 0'')
        (Inr (fs_table fs, fs_stash fs))"
      using cs(1) count True fs(1) by (simp add: cht_build_def Let_def)
    show ?thesis
    proof (cases "fs_deficit fs = 0")
      case False
      then have "K = {..<?n}" using i by simp
      then show ?thesis using underfull False K(3) eq placeable by simp
    next
      case deficit: True
      show ?thesis
      proof (rule built [of "fs_table fs" K "location ?ss"])
        show "cht_build s l xs = Inr (fs_table fs, stash_of xs K ?n)"
          using eq deficit i K(3) by simp
        show "cuckoo_placement l xs ({..<?n} - K) (location ?ss)"
          using cs(4) K(2) by (auto simp: cuckoo_placement_def intro: inj_on_subset)
        show "\<forall>j < length (fs_table fs). j \<notin> location ?ss ` ({..<?n} - K) \<longrightarrow> fs_table fs ! j = 0"
          using i by auto
      qed (use i K deficit table_length_eq [OF l] in auto)
    qed
  qed
qed

text \<open>
  What a built table and its stash promise a lookup: \<open>K\<close> are the builder-order positions of the
  stashed blocks, and \<open>f\<close> is the location of every other block.
\<close>

definition cht_represents :: "nat \<Rightarrow> nat \<Rightarrow> 128 word list \<Rightarrow> 128 word list \<Rightarrow> nat list \<Rightarrow> bool" where
  "cht_represents stash_size l xs table stash \<longleftrightarrow>
     length table = 2 * 2 ^ l \<and> length stash = stash_size \<and>
     (\<exists>K f. K \<subseteq> {..<length xs} \<and> card K = stash_size \<and>
        stash = map (\<lambda>e. unat (low_u32 (xs ! e))) (filter (\<lambda>e. e \<in> K) [0..<length xs]) \<and>
        inj_on f ({..<length xs} - K) \<and>
        (\<forall>e < length xs. e \<notin> K \<longrightarrow>
           (f e = h0 (xs ! e) l \<or> f e = h1 (xs ! e) l) \<and> table ! f e = xs ! e) \<and>
        (\<forall>i < length table. i \<notin> f ` ({..<length xs} - K) \<longrightarrow> table ! i = 0))"

lemma cht_built_represents:
  assumes "l \<le> 62" and "cht_build s l xs = Inr (table, stash)"
  shows "cht_represents s l xs table stash"
  using assms(1)
proof (cases rule: cht_build_cases [where s = s and xs = xs])
  case (built K f table')
  then have eq: "table = table'" "stash = stash_of xs K (length xs)" using assms(2) by auto
  have "length stash = s" using built(3,4) eq(2) length_stash_of by simp
  then show ?thesis using built(2-7) eq unfolding cuckoo_placement_def stash_of_def cht_represents_def
    by (intro conjI exI [of _ K] exI [of _ f]) auto
qed (use assms(2) in simp_all)

text \<open>C3: A table that \<open>build\<close> returns represents its input: it has two columns of \<open>2 ^ l\<close>
  locations, exactly \<open>stash_size\<close> blocks are in the stash, by their builder-order index, and every
  other block is at one of its two hash locations, alone there; all other locations are zero.\<close>

theorem cht_build_correct:
  assumes "l \<le> 62" and "cht_build s l xs = Inr (table, stash)"
  shows "cht_represents s l xs table stash"
  by (rule cht_built_represents [OF assms])

theorem cht_build_correct_witness:
  "cht_build 1 1 [1, 2, 3] = Inr ([1, 0, 2, 0], [3]) \<and>
   cht_represents 1 1 [1, 2, 3] [1, 0, 2, 0] [3]"
proof
  show b: "cht_build 1 1 [1, 2, 3] = Inr ([1, 0, 2, 0], [3])" by code_simp
  show "cht_represents 1 1 [1, 2, 3] [1, 0, 2, 0] [3]"
    by (rule cht_build_correct [OF _ b]) simp
qed

lemma cht_build_ok_iff:
  assumes "l \<le> 62"
  shows "(\<exists>r. cht_build s l xs = Inr r) \<longleftrightarrow>
    s \<le> length xs \<and> (\<exists>A f. cuckoo_placement l xs A f \<and> length xs \<le> s + card A)"
  using assms
proof (cases rule: cht_build_cases [where s = s and xs = xs])
  case overfull
  then show ?thesis by (fastforce simp: not_le)
next
  case underfull
  then show ?thesis by simp
next
  case (built K f table)
  have "finite K" using built(3) finite_subset by auto
  then have "length xs = s + card ({..<length xs} - K) \<and> s \<le> length xs"
    using built(3,4) card_mono [OF _ built(3)] by (simp add: card_Diff_subset)
  then show ?thesis using built(1,5) by (metis order_refl)
qed

text \<open>C21: \<open>build\<close> succeeds exactly if the stash does not exceed the input and some placement leaves at
  most \<open>stash_size\<close> blocks without a location: its assertions, its indexing and its \<open>unwrap\<close>s fail
  on no other input, its loops end, and it stashes no block it could have placed.\<close>

theorem cht_build_succeeds_iff:
  assumes "l \<le> 62"
  shows "(\<exists>r. cht_build s l xs = Inr r) \<longleftrightarrow>
    s \<le> length xs \<and> (\<exists>A f. cuckoo_placement l xs A f \<and> length xs \<le> s + card A)"
  by (rule cht_build_ok_iff [OF assms])

theorem cht_build_succeeds_iff_witness:
  "(\<exists>r. cht_build 1 1 [1, 2, 3] = Inr r) \<longleftrightarrow>
   1 \<le> length [1, 2, 3 :: 128 word] \<and>
   (\<exists>A f. cuckoo_placement 1 [1, 2, 3] A f \<and> length [1, 2, 3 :: 128 word] \<le> 1 + card A)"
  by (rule cht_build_succeeds_iff) simp

text \<open>Every failure of \<open>build\<close> is one of its two assertions on the stash: too many blocks marked
  for it, or fewer input blocks than stash slots. None comes from the search.\<close>

theorem cht_build_errors:
  assumes "l \<le> 62" and "cht_build s l xs = Inl e"
  shows "e = Panic ''num_marked_stashed <= stash_size'' \<and>
      (\<forall>A f. cuckoo_placement l xs A f \<longrightarrow> s + card A < length xs) \<or>
    e = Panic ''stash_deficit == 0'' \<and> length xs < s"
  using assms(1)
proof (cases rule: cht_build_cases [where s = s and xs = xs])
  case overfull
  then show ?thesis using assms(2) by simp
qed (use assms(2) in simp_all)

theorem cht_build_errors_witness:
  "cht_build 2 1 [1] = Inl (Panic ''stash_deficit == 0'') \<and>
   (Panic ''stash_deficit == 0'' = Panic ''num_marked_stashed <= stash_size'' \<and>
      (\<forall>A f. cuckoo_placement 1 [1] A f \<longrightarrow> 2 + card A < length [1 :: 128 word]) \<or>
    Panic ''stash_deficit == 0'' = Panic ''stash_deficit == 0'' \<and> length [1 :: 128 word] < 2)"
proof
  show b: "cht_build 2 1 [1] = Inl (Panic ''stash_deficit == 0'')" by code_simp
  show "Panic ''stash_deficit == 0'' = Panic ''num_marked_stashed <= stash_size'' \<and>
      (\<forall>A f. cuckoo_placement 1 [1] A f \<longrightarrow> 2 + card A < length [1 :: 128 word]) \<or>
    Panic ''stash_deficit == 0'' = Panic ''stash_deficit == 0'' \<and> length [1 :: 128 word] < 2"
    by (rule cht_build_errors [OF _ b]) simp
qed

end
