(* ===== verification/Config.thy ===== *)
theory Config
  imports Prelude
begin

text \<open>
  \<open>ChtBounds\<close> and \<open>GigaDoramConfig\<close> of \<open>crates/doram/src/lib.rs\<close>, \<open>OHTableParams\<close> of
  \<open>crates/data-structures/src/ohtable.rs\<close>, and the sizes computed from them. A \<open>usize\<close> is a
  natural number below \<open>2 ^ 64\<close>; an operation that overflows returns the panic that a build with
  overflow checks raises, and the lemmas show that a validated configuration never overflows. The
  one floating-point computation, the column length, is modelled on exact binary fractions rounded
  to the 53 bits of an \<open>f64\<close>.
\<close>

section \<open>Machine arithmetic on \<open>usize\<close>\<close>

definition usize_bits :: nat where "usize_bits = 64"

definition overflow :: error where
  "overflow = Panic ''arithmetic overflow''"

definition fits :: "nat \<Rightarrow> nat res" where
  "fits x = checkE (x < 2 ^ usize_bits) overflow (Inr x)"

definition sub_usize :: "nat \<Rightarrow> nat \<Rightarrow> nat res" where
  "sub_usize x y = checkE (y \<le> x) overflow (Inr (x - y))"

definition shl_usize :: "nat \<Rightarrow> nat \<Rightarrow> nat res" where
  "shl_usize x k = checkE (k < usize_bits) overflow (Inr (x * 2 ^ k mod 2 ^ usize_bits))"

text \<open>The position of the highest set bit; \<open>ilog2\<close> of zero panics.\<close>

fun floor_log2 :: "nat \<Rightarrow> nat" where
  "floor_log2 n = (if n < 2 then 0 else Suc (floor_log2 (n div 2)))"

declare floor_log2.simps [simp del]

definition ilog2 :: "nat \<Rightarrow> nat res" where
  "ilog2 n = checkE (0 < n) (Panic ''argument of integer logarithm must be positive'')
     (Inr (floor_log2 n))"

section \<open>Rounding to an \<open>f64\<close>\<close>

text \<open>Division rounded to the nearest integer, ties to the even one.\<close>

definition div_nearest :: "nat \<Rightarrow> nat \<Rightarrow> nat" where
  "div_nearest n d = (let q = n div d; r = n mod d
     in if 2 * r < d \<or> 2 * r = d \<and> even q then q else q + 1)"

text \<open>A positive number with a fixed scale, rounded to a significand of 53 bits.\<close>

definition round_f64 :: "nat \<Rightarrow> nat" where
  "round_f64 n = (let e = floor_log2 n - 52 in div_nearest n (2 ^ e) * 2 ^ e)"

section \<open>Bounds of the cuckoo hash tables\<close>

datatype cht_bounds = Empirical | Proven

definition EMPIRICAL_CHT_STASH_SIZE :: nat where "EMPIRICAL_CHT_STASH_SIZE = 8"
definition PROVEN_CHT_STASH_SIZE :: nat where "PROVEN_CHT_STASH_SIZE = 50"

definition bounds_stash_size :: "cht_bounds \<Rightarrow> nat" where
  "bounds_stash_size b = (case b of Empirical \<Rightarrow> EMPIRICAL_CHT_STASH_SIZE
     | Proven \<Rightarrow> PROVEN_CHT_STASH_SIZE)"

text \<open>The \<open>f64\<close> nearest to 1.2, and 2.0, both in units of \<open>2 ^ -52\<close>.\<close>

definition column_load_factor :: "cht_bounds \<Rightarrow> nat" where
  "column_load_factor b = (case b of Empirical \<Rightarrow> 5404319552844595 | Proven \<Rightarrow> 2 * 2 ^ 52)"

text \<open>\<open>(d * base_b_num as f64) as usize\<close>\<close>

definition loaded_columns :: "cht_bounds \<Rightarrow> nat \<Rightarrow> nat" where
  "loaded_columns b base_b_num =
     min (round_f64 (column_load_factor b * round_f64 base_b_num) div 2 ^ 52) (2 ^ usize_bits - 1)"

section \<open>The configuration\<close>

record doram_config =
  log_address_space_size :: nat
  num_levels :: nat
  log_speed_cache_size :: nat
  log_amp_factor :: nat
  stash_size :: nat
  config_bounds :: cht_bounds

definition speed_cache_size :: "doram_config \<Rightarrow> nat res" where
  "speed_cache_size c = shl_usize 1 (log_speed_cache_size c)"

definition fill_time :: "doram_config \<Rightarrow> nat res" where
  "fill_time c = bindE (speed_cache_size c) (\<lambda>size. sub_usize size (stash_size c))"

definition amp_factor :: "doram_config \<Rightarrow> nat res" where
  "amp_factor c = shl_usize 1 (log_amp_factor c)"

definition config_validate :: "doram_config \<Rightarrow> unit res" where
  "config_validate c =
     checkE (num_levels c > 0) (Panic ''DORAM must have at least one OHTable level'')
    (checkE (log_address_space_size c < 32)
       (Panic ''must reserve 2^N..2^(N+1)-1 as dummy labels inside x'')
    (checkE (log_speed_cache_size c < usize_bits) (Panic ''speed-cache size shift is too large'')
    (checkE (log_amp_factor c < usize_bits) (Panic ''amplification factor shift is too large'')
    (bindE (speed_cache_size c) (\<lambda>size.
     checkE (stash_size c < size) (Panic ''stash must fit inside the speed cache'')
    (checkE (num_levels c \<le> 8) (Panic ''alibi bits must fit in the alibi byte'')
    (checkE (log_address_space_size c =
         log_speed_cache_size c + (num_levels c - 1) * log_amp_factor c)
       (Panic ''address-space size must match the bottom-level capacity'') (Inr ()))))))))"

definition with_stash_size ::
    "nat \<Rightarrow> nat \<Rightarrow> nat \<Rightarrow> nat \<Rightarrow> cht_bounds \<Rightarrow> doram_config res" where
  "with_stash_size log_addr levels log_amp stash bounds =
     checkE (levels > 0) (Panic ''DORAM must have at least one OHTable level'')
    (bindE (case fits ((levels - 1) * log_amp) of
        Inr x \<Rightarrow> Inr x | Inl _ \<Rightarrow> Inl (Panic ''level span should fit usize'')) (\<lambda>x.
     checkE (x \<le> log_addr)
       (Panic ''address-space log is too small for num_levels and amplification'')
      (let config = \<lparr>log_address_space_size = log_addr, num_levels = levels,
         log_speed_cache_size = log_addr - x, log_amp_factor = log_amp, stash_size = stash,
         config_bounds = bounds\<rparr>
       in bindE (config_validate config) (\<lambda>_. Inr config))))"

definition with_cht_bounds :: "nat \<Rightarrow> nat \<Rightarrow> nat \<Rightarrow> cht_bounds \<Rightarrow> doram_config res" where
  "with_cht_bounds log_addr levels log_amp bounds =
     with_stash_size log_addr levels log_amp (bounds_stash_size bounds) bounds"

definition config_new :: "nat \<Rightarrow> nat \<Rightarrow> nat \<Rightarrow> doram_config res" where
  "config_new log_addr levels log_amp = with_cht_bounds log_addr levels log_amp Empirical"

definition with_proven_cht_bounds :: "nat \<Rightarrow> nat \<Rightarrow> nat \<Rightarrow> doram_config res" where
  "with_proven_cht_bounds log_addr levels log_amp = with_cht_bounds log_addr levels log_amp Proven"

section \<open>Sizes of the levels\<close>

definition num_dummies :: "doram_config \<Rightarrow> nat \<Rightarrow> nat res" where
  "num_dummies c level = bindE (amp_factor c) (\<lambda>amp. bindE (fits (amp ^ level)) (\<lambda>p.
     bindE (fill_time c) (\<lambda>fill. unwrapE (fits (p * fill)))))"

definition bottom_num_elements :: "doram_config \<Rightarrow> nat res" where
  "bottom_num_elements c = shl_usize 1 (log_address_space_size c)"

definition num_elements_at :: "doram_config \<Rightarrow> nat \<Rightarrow> nat \<Rightarrow> nat res" where
  "num_elements_at c level state =
     (if level = num_levels c - 1 then bottom_num_elements c
      else shl_usize state (level * log_amp_factor c + log_speed_cache_size c))"

definition dummy_label :: "doram_config \<Rightarrow> nat \<Rightarrow> 32 word res" where
  "dummy_label c offset =
     (let label = 2 ^ log_address_space_size c + offset
      in checkE (label \<le> 2 ^ 32 - 1) (Panic ''dummy label must fit x_type'') (Inr (of_nat label)))"

definition column_length :: "doram_config \<Rightarrow> nat \<Rightarrow> nat \<Rightarrow> nat res" where
  "column_length c level base_b_num =
     bindE (ilog2 (loaded_columns (config_bounds c) base_b_num)) (\<lambda>k.
       Inr (level * log_amp_factor c + log_speed_cache_size c + k + 1))"

section \<open>Parameters of an oblivious hash table\<close>

record ohtable_params =
  oh_num_elements :: nat
  oh_num_dummies :: nat
  oh_stash_size :: nat
  oh_log_single_col_len :: nat
  oh_log_address_space_size :: nat

definition oh_total_size :: "ohtable_params \<Rightarrow> nat" where
  "oh_total_size p = oh_num_elements p + oh_num_dummies p"

definition cht_full_table_length :: "ohtable_params \<Rightarrow> nat res" where
  "cht_full_table_length p = shl_usize 2 (oh_log_single_col_len p)"

definition oh_validate :: "ohtable_params \<Rightarrow> unit res" where
  "oh_validate p =
     checkE (oh_stash_size p \<le> oh_num_elements p)
       (Panic ''stash cannot be larger than the number of real elements'')
    (bindE (cht_full_table_length p) (\<lambda>len.
     checkE (len \<ge> oh_total_size p)
       (Panic ''CHT table must be large enough for all real and dummy entries'') (Inr ())))"

section \<open>The logarithm and the rounding\<close>

lemma floor_log2_bounds: "0 < n \<Longrightarrow> 2 ^ floor_log2 n \<le> n \<and> n < 2 * 2 ^ floor_log2 n"
proof (induction n rule: floor_log2.induct)
  case (1 n)
  show ?case
  proof (cases "n < 2")
    case True
    then show ?thesis using 1(2) by (simp add: floor_log2.simps [of n])
  next
    case False
    then have "2 ^ floor_log2 (n div 2) \<le> n div 2 \<and> n div 2 < 2 * 2 ^ floor_log2 (n div 2)"
      using 1(1) by simp
    then show ?thesis using False by (simp add: floor_log2.simps [of n]) linarith
  qed
qed

lemma floor_log2_less: "0 < n \<Longrightarrow> n < 2 ^ k \<Longrightarrow> floor_log2 n < k"
  using floor_log2_bounds [of n] by (meson le_less_trans nat_power_less_imp_less zero_less_numeral)

lemma floor_log2_ge: "2 ^ k \<le> n \<Longrightarrow> k \<le> floor_log2 n"
proof -
  assume a: "2 ^ k \<le> n"
  then have n: "0 < n" by (meson less_le_trans zero_less_numeral zero_less_power)
  have "(2::nat) ^ k < 2 ^ Suc (floor_log2 n)" using floor_log2_bounds [OF n] a by simp
  then have "k < Suc (floor_log2 n)" by (rule power_less_imp_less_exp [rotated]) simp
  then show "k \<le> floor_log2 n" by simp
qed

lemma div_nearest_bounds:
  assumes "0 < d"
  shows "2 * (div_nearest n d * d) \<le> 2 * n + d" and "2 * n \<le> 2 * (div_nearest n d * d) + d"
proof -
  have n: "n div d * d + n mod d = n" "n mod d < d" using assms by simp_all
  define q where "q = n div d * d"
  have *: "q + n mod d = n" using n by (simp add: q_def)
  have d: "div_nearest n d * d = q \<and> 2 * (n mod d) \<le> d \<or>
      div_nearest n d * d = q + d \<and> d \<le> 2 * (n mod d)"
    by (auto simp: div_nearest_def Let_def q_def)
  show "2 * (div_nearest n d * d) \<le> 2 * n + d" "2 * n \<le> 2 * (div_nearest n d * d) + d"
    using d * n(2) by (elim disjE conjE; linarith)+
qed

lemma div_nearest_unique:
  assumes "2 * (m * d) < 2 * n + d" and "2 * n < 2 * (m * d) + d"
  shows "div_nearest n d = m"
proof -
  have d: "0 < d" using assms by linarith
  let ?q = "div_nearest n d"
  have "?q * d < (m + 1) * d" "m * d < (?q + 1) * d"
    using div_nearest_bounds [OF d, of n] assms by (simp_all add: distrib_right)
  then show ?thesis unfolding mult_less_cancel2 by simp
qed

lemma round_f64_exact: "n < 2 ^ 53 \<Longrightarrow> round_f64 n = n"
proof (cases "n = 0")
  case False
  assume "n < 2 ^ 53"
  then have "floor_log2 n \<le> 52" using floor_log2_less [of n 53] False by simp
  then show ?thesis by (simp add: round_f64_def div_nearest_def Let_def)
qed (simp add: round_f64_def div_nearest_def Let_def)

lemma round_f64_scale: "2 ^ 52 \<le> n \<Longrightarrow> \<exists>e. round_f64 n = div_nearest n (2 ^ e) * 2 ^ e \<and>
  2 ^ 52 * 2 ^ e \<le> n \<and> n < 2 * (2 ^ 52 * 2 ^ e)"
proof -
  assume a: "2 ^ 52 \<le> n"
  then have l: "52 \<le> floor_log2 n" by (rule floor_log2_ge)
  have "0 < n" using a by (intro gr0I) simp
  have "(2::nat) ^ 52 * 2 ^ (floor_log2 n - 52) = 2 ^ floor_log2 n"
    using l by (simp only: power_add [symmetric]) simp
  then show ?thesis using floor_log2_bounds [OF \<open>0 < n\<close>]
    by (intro exI [of _ "floor_log2 n - 52"]) (simp add: round_f64_def Let_def)
qed

text \<open>The product with the \<open>f64\<close> constant 1.2, truncated, is the exact integer part of 6/5.\<close>

lemma loaded_columns_empirical:
  assumes "0 < b" and "b < 2 ^ 31"
  shows "loaded_columns Empirical b = 6 * b div 5"
proof -
  let ?M = "5404319552844595 :: nat" and ?P = "4503599627370496 :: nat"
  define n where "n = ?M * b"
  define k j where "k = b div 5" and "j = b mod 5"
  have b: "b = 5 * k + j" "j < 5" by (simp_all add: k_def j_def)
  have b31: "b < 2147483648" using assms(2) by simp
  have n5: "5 * n + b = 5 * ((6 * k + j) * ?P) + j * ?P"
    unfolding n_def b(1) by (simp add: algebra_simps)
  have "2 ^ 52 \<le> n" using assms(1) by (simp add: n_def)
  then obtain e where e: "round_f64 n = div_nearest n (2 ^ e) * 2 ^ e" "?P * 2 ^ e \<le> n" "n < 2 * (?P * 2 ^ e)"
    using round_f64_scale [of n] by auto
  define E where "E = (2::nat) ^ e"
  have E0: "0 < E" by (simp add: E_def)
  have E: "?P * E \<le> n" "n < 2 * (?P * E)" using e by (simp_all add: E_def)
  have "?P * E < ?P * 4294967296" using E(1) b31 by (simp add: n_def)
  then have E32: "E < 4294967296" by simp
  let ?R = "round_f64 n"
  have R: "2 * ?R \<le> 2 * n + E" "2 * n \<le> 2 * ?R + E"
    using div_nearest_bounds [OF E0, of n] e(1) by (simp_all add: E_def)
  have bounds: "(6 * k + j) * ?P \<le> ?R \<and> ?R < (6 * k + j + 1) * ?P"
  proof (cases "j = 0")
    case False
    then have "1 \<le> j" "j \<le> 4" using b(2) by simp_all
    then have "?P \<le> j * ?P" "j * ?P \<le> 4 * ?P" by simp_all
    moreover have "(6 * k + j + 1) * ?P = (6 * k + j) * ?P + ?P" by simp
    ultimately show ?thesis using n5 R b31 E32 by linarith
  next
    case True
    then have k: "n + k = 6 * k * ?P" "0 < k" using n5 b assms(1) by (simp_all add: n_def algebra_simps)
    have "e < 32" using E32 nat_power_less_imp_less [of 2 e 32] by (simp add: E_def)
    then have P: "?P = 2 ^ (52 - e) * E" by (simp add: E_def flip: power_add)
    have "div_nearest n E = 6 * k * 2 ^ (52 - e)"
    proof (rule div_nearest_unique)
      have m: "6 * k * 2 ^ (52 - e) * E = n + k" unfolding k(1) P by (simp add: mult.assoc)
      have "2 * k < E"
      proof (rule ccontr)
        assume "\<not> 2 * k < E"
        then have "E \<le> 2 * k" by simp
        then have "n < 4 * ?P * k" using E(2) by linarith
        then show False using k by (simp add: algebra_simps)
      qed
      then show "2 * (6 * k * 2 ^ (52 - e) * E) < 2 * n + E"
        "2 * n < 2 * (6 * k * 2 ^ (52 - e) * E) + E" unfolding m using E0 by simp_all
    qed
    then have "?R = 6 * k * ?P" unfolding e(1) E_def [symmetric] by (subst P) (simp add: E_def)
    then show ?thesis using True by simp
  qed
  have "6 * b div 5 = 6 * k + j"
  proof -
    have "6 * b = 5 * (6 * k + j) + j" using b(1) by simp
    then show ?thesis using b(2) by simp
  qed
  moreover have "?R div ?P = 6 * k + j" using bounds by (intro div_nat_eqI) (simp_all add: mult.commute)
  moreover have "round_f64 b = b" using b31 by (simp add: round_f64_exact)
  moreover have "6 * k + j \<le> 2 ^ usize_bits - 1" using b b31 by (simp add: usize_bits_def)
  ultimately show ?thesis by (simp add: loaded_columns_def column_load_factor_def n_def)
qed

lemma round_f64_shift:
  assumes "x < 2 ^ 53"
  shows "round_f64 (2 ^ 52 * x) = 2 ^ 52 * x"
proof (cases "x = 0")
  case False
  then have "(2::nat) ^ 52 \<le> 2 ^ 52 * x" by simp
  then obtain e where e: "round_f64 (2 ^ 52 * x) = div_nearest (2 ^ 52 * x) (2 ^ e) * 2 ^ e"
    "2 ^ 52 * 2 ^ e \<le> 2 ^ 52 * x"
    using round_f64_scale by blast
  then have "2 ^ e < (2::nat) ^ 53" using assms by simp
  then have "e < 53" by (rule power_less_imp_less_exp [rotated]) simp
  then have "(2::nat) ^ 52 = 2 ^ (52 - e) * 2 ^ e" by (simp only: power_add [symmetric]) simp
  then have x: "2 ^ 52 * x = 2 ^ (52 - e) * x * 2 ^ e" by (simp add: mult_ac)
  have "div_nearest (2 ^ 52 * x) (2 ^ e) = 2 ^ (52 - e) * x"
    unfolding x by (rule div_nearest_unique) simp_all
  then show ?thesis using e(1) x by simp
qed (simp add: round_f64_exact)

lemma loaded_columns_proven:
  assumes "b < 2 ^ 31"
  shows "loaded_columns Proven b = 2 * b"
proof -
  have "round_f64 b = b" using assms by (intro round_f64_exact) simp
  moreover have "round_f64 (2 ^ 52 * (2 * b)) = 2 ^ 52 * (2 * b)"
    using assms by (intro round_f64_shift) simp
  moreover have "2 * b \<le> 2 ^ usize_bits - 1" using assms by (simp add: usize_bits_def)
  ultimately show ?thesis
    by (simp add: loaded_columns_def column_load_factor_def mult.left_commute)
qed

section \<open>A validated configuration never overflows\<close>

definition valid_config :: "doram_config \<Rightarrow> bool" where
  "valid_config c \<longleftrightarrow> 0 < num_levels c \<and> num_levels c \<le> 8 \<and> log_address_space_size c < 32 \<and>
     log_amp_factor c < 64 \<and> stash_size c < 2 ^ log_speed_cache_size c \<and>
     log_address_space_size c = log_speed_cache_size c + (num_levels c - 1) * log_amp_factor c"

lemma shl_usize_ok: "k < 64 \<Longrightarrow> x * 2 ^ k < 2 ^ 64 \<Longrightarrow> shl_usize x k = Inr (x * 2 ^ k)"
  by (simp add: shl_usize_def usize_bits_def)

lemma shl_usize_1: "k < 64 \<Longrightarrow> shl_usize 1 k = Inr (2 ^ k)"
  using power_strict_increasing [of k 64 "2::nat"] by (simp add: shl_usize_def usize_bits_def)

lemma config_validate_iff: "config_validate c = Inr u \<longleftrightarrow> valid_config c"
proof (cases "log_speed_cache_size c < 64")
  case True
  then show ?thesis
    by (auto simp: config_validate_def valid_config_def checkE_eq_Inr speed_cache_size_def
        shl_usize_1 usize_bits_def simp del: One_nat_def)
next
  case False
  then show ?thesis
    by (auto simp: config_validate_def valid_config_def checkE_eq_Inr usize_bits_def)
qed

lemma with_stash_size_eq:
  "with_stash_size log_addr levels log_amp stash bounds = Inr c \<longleftrightarrow> valid_config c \<and>
     c = \<lparr>log_address_space_size = log_addr, num_levels = levels,
         log_speed_cache_size = log_addr - (levels - 1) * log_amp, log_amp_factor = log_amp,
         stash_size = stash, config_bounds = bounds\<rparr> \<and> (levels - 1) * log_amp \<le> log_addr"
proof -
  have "(levels - 1) * log_amp < 2 ^ 64" if "(levels - 1) * log_amp \<le> log_addr" "log_addr < 32"
    using that by simp
  then show ?thesis
    by (auto simp: with_stash_size_def checkE_eq_Inr bindE_eq_Inr fits_def usize_bits_def
        config_validate_iff valid_config_def checkE_def Let_def split: sum.splits if_splits)
qed

lemma valid_config_bounds:
  assumes "valid_config c" and "level < num_levels c"
  shows "level * log_amp_factor c + log_speed_cache_size c \<le> log_address_space_size c"
    and "level < num_levels c - 1 \<Longrightarrow>
      level * log_amp_factor c + log_speed_cache_size c + log_amp_factor c \<le> log_address_space_size c"
proof -
  have "level \<le> num_levels c - 1" using assms(2) by simp
  then have "level * log_amp_factor c \<le> (num_levels c - 1) * log_amp_factor c" by (rule mult_le_mono1)
  then show "level * log_amp_factor c + log_speed_cache_size c \<le> log_address_space_size c"
    using assms(1) by (simp add: valid_config_def)
  assume "level < num_levels c - 1"
  then have "Suc level * log_amp_factor c \<le> (num_levels c - 1) * log_amp_factor c"
    by (intro mult_le_mono1) simp
  then show "level * log_amp_factor c + log_speed_cache_size c + log_amp_factor c \<le> log_address_space_size c"
    using assms(1) by (simp add: valid_config_def)
qed

lemma pow2_less_32: "k \<le> m \<Longrightarrow> m < 32 \<Longrightarrow> (2::nat) ^ k \<le> 2 ^ 31"
  by (rule power_increasing) simp_all

lemma speed_cache_size_ok: "valid_config c \<Longrightarrow> speed_cache_size c = Inr (2 ^ log_speed_cache_size c)"
  by (simp add: speed_cache_size_def valid_config_def shl_usize_1 [simplified])

lemma fill_time_ok:
  "valid_config c \<Longrightarrow> fill_time c = Inr (2 ^ log_speed_cache_size c - stash_size c)"
  by (simp add: fill_time_def speed_cache_size_ok sub_usize_def) (simp add: valid_config_def)

lemma amp_factor_ok: "valid_config c \<Longrightarrow> amp_factor c = Inr (2 ^ log_amp_factor c)"
  by (simp add: amp_factor_def valid_config_def shl_usize_1 [simplified])

lemma bottom_num_elements_ok:
  "valid_config c \<Longrightarrow> bottom_num_elements c = Inr (2 ^ log_address_space_size c)"
  by (simp add: bottom_num_elements_def valid_config_def shl_usize_1 [simplified])

lemma num_dummies_ok:
  assumes valid: "valid_config c" and level: "level < num_levels c"
  shows "num_dummies c level =
    Inr ((2 ^ log_amp_factor c) ^ level * (2 ^ log_speed_cache_size c - stash_size c))"
proof -
  let ?p = "((2::nat) ^ log_amp_factor c) ^ level" and ?f = "2 ^ log_speed_cache_size c - stash_size c"
  have "?p * 2 ^ log_speed_cache_size c = 2 ^ (level * log_amp_factor c + log_speed_cache_size c)"
    by (simp add: power_add power_mult [symmetric] mult.commute)
  also have "\<dots> \<le> 2 ^ 31"
    using pow2_less_32 [OF valid_config_bounds(1) [OF assms]] valid by (simp add: valid_config_def)
  finally have le: "?p * 2 ^ log_speed_cache_size c \<le> 2 ^ 31" .
  have "?p * 1 \<le> ?p * 2 ^ log_speed_cache_size c" by (intro mult_le_mono2) simp
  then have p: "?p \<le> 2 ^ 31" using le by (simp only: mult_1_right order_trans)
  have "?p * ?f \<le> ?p * 2 ^ log_speed_cache_size c" by (intro mult_le_mono2) simp
  then have pf: "?p * ?f \<le> 2 ^ 31" using le by (rule order_trans)
  have "(2::nat) ^ 31 < 2 ^ 64" by simp
  then have "?p < 2 ^ 64" "?p * ?f < 2 ^ 64" using p pf by (meson le_less_trans)+
  then show ?thesis
    by (simp add: num_dummies_def amp_factor_ok fill_time_ok fits_def usize_bits_def valid)
qed

lemma num_elements_at_ok:
  assumes valid: "valid_config c" and level: "level < num_levels c"
    and state: "state \<le> 2 ^ log_amp_factor c"
  shows "num_elements_at c level state = Inr (if level = num_levels c - 1
    then 2 ^ log_address_space_size c
    else state * 2 ^ (level * log_amp_factor c + log_speed_cache_size c))"
proof (cases "level = num_levels c - 1")
  case True
  then show ?thesis by (simp add: num_elements_at_def bottom_num_elements_ok valid)
next
  case False
  let ?k = "level * log_amp_factor c + log_speed_cache_size c"
  have k: "?k + log_amp_factor c \<le> log_address_space_size c" "log_address_space_size c < 32"
    using valid_config_bounds(2) [OF valid level] False level valid by (auto simp: valid_config_def)
  have "state * 2 ^ ?k \<le> 2 ^ log_amp_factor c * 2 ^ ?k" using state by (rule mult_le_mono1)
  also have "\<dots> \<le> 2 ^ 31" unfolding power_add [symmetric] using k by (intro pow2_less_32) auto
  finally have "state * 2 ^ ?k < 2 ^ 64" by simp
  then show ?thesis using False k by (simp add: num_elements_at_def shl_usize_ok)
qed

lemma dummy_label_ok:
  assumes "valid_config c" and "offset < 2 ^ log_address_space_size c"
  shows "dummy_label c offset = Inr (of_nat (2 ^ log_address_space_size c + offset))"
proof -
  have "(2::nat) ^ log_address_space_size c \<le> 2 ^ 31"
    using assms(1) by (intro pow2_less_32 [OF order_refl]) (simp add: valid_config_def)
  then show ?thesis using assms(2) by (simp add: dummy_label_def Let_def)
qed

text \<open>
  A column has room for the entries of its level and one more batch of dummies: the table is at
  most half full, in either of the two analyses.
\<close>

lemma column_length_ok:
  assumes valid: "valid_config c" and level: "level < num_levels c"
    and b: "0 < b" "level < num_levels c - 1 \<Longrightarrow> b < 2 ^ log_amp_factor c"
      "level = num_levels c - 1 \<Longrightarrow> b = 1"
  shows "\<exists>l. column_length c level b = Inr l \<and> l \<le> 33 \<and>
    l = level * log_amp_factor c + log_speed_cache_size c +
      floor_log2 (case config_bounds c of Empirical \<Rightarrow> 6 * b div 5 | Proven \<Rightarrow> 2 * b) + 1 \<and>
    (b + 1) * 2 ^ (level * log_amp_factor c + log_speed_cache_size c) \<le> 2 ^ l"
proof -
  let ?k = "level * log_amp_factor c + log_speed_cache_size c"
  define x where "x = (case config_bounds c of Empirical \<Rightarrow> 6 * b div 5 | Proven \<Rightarrow> 2 * b)"
  have k: "?k \<le> log_address_space_size c" "log_address_space_size c < 32"
    using valid_config_bounds(1) [OF valid level] valid by (auto simp: valid_config_def)
  have b31: "b < 2 ^ 31"
  proof (cases "level = num_levels c - 1")
    case False
    then have lt: "level < num_levels c - 1" using level by simp
    have "log_amp_factor c \<le> 31" using valid_config_bounds(2) [OF valid level lt] k by simp
    then have "(2::nat) ^ log_amp_factor c \<le> 2 ^ 31" by (rule power_increasing) simp
    then show ?thesis using b(2) [OF lt] by simp
  qed (use b(3) in simp)
  have loaded: "loaded_columns (config_bounds c) b = x"
    using loaded_columns_empirical [OF b(1) b31] loaded_columns_proven [OF b31]
    by (cases "config_bounds c") (simp_all add: x_def)
  have x: "b \<le> x" "x \<le> 2 * b" "0 < x" using b(1) by (auto simp: x_def split: cht_bounds.split)
  have "b + 1 \<le> 2 * 2 ^ floor_log2 x" using floor_log2_bounds [OF x(3)] x(1) by linarith
  then have "(b + 1) * 2 ^ ?k \<le> 2 * 2 ^ floor_log2 x * 2 ^ ?k" by (rule mult_le_mono1)
  also have "\<dots> = 2 ^ (?k + floor_log2 x + 1)" by (simp add: power_add)
  finally have room: "(b + 1) * 2 ^ ?k \<le> 2 ^ (?k + floor_log2 x + 1)" .
  have "?k + floor_log2 x + 1 \<le> 33"
  proof (cases "level = num_levels c - 1")
    case True
    then have "x < 2 ^ 2" using x(2) b(3) by simp
    then have "floor_log2 x < 2" by (rule floor_log2_less [OF x(3)])
    then show ?thesis using k by simp
  next
    case False
    then have lt: "level < num_levels c - 1" using level by simp
    have "x < 2 ^ Suc (log_amp_factor c)" using x(2) b(2) [OF lt] by simp
    then have "floor_log2 x \<le> log_amp_factor c"
      using floor_log2_less [OF x(3), of "Suc (log_amp_factor c)"] by simp
    then show ?thesis using valid_config_bounds(2) [OF valid level lt] k by simp
  qed
  then show ?thesis
    using room x(3) by (simp add: column_length_def loaded ilog2_def x_def [symmetric])
qed

section \<open>Properties\<close>

text \<open>C34: \<open>with_cht_bounds\<close> returns a configuration exactly if it satisfies every check of
  \<open>validate\<close>, with the speed cache as large as the address space leaves it; no arithmetic on the way
  overflows when it does.\<close>

theorem config_constructor_iff:
  "with_cht_bounds log_addr levels log_amp bounds = Inr c \<longleftrightarrow>
     0 < levels \<and> levels \<le> 8 \<and> log_addr < 32 \<and> log_amp < 64 \<and> (levels - 1) * log_amp \<le> log_addr \<and>
     bounds_stash_size bounds < 2 ^ (log_addr - (levels - 1) * log_amp) \<and>
     c = \<lparr>log_address_space_size = log_addr, num_levels = levels,
          log_speed_cache_size = log_addr - (levels - 1) * log_amp, log_amp_factor = log_amp,
          stash_size = bounds_stash_size bounds, config_bounds = bounds\<rparr>"
  by (auto simp: with_cht_bounds_def with_stash_size_eq valid_config_def)

text \<open>C35: The floating-point computation of the column length is exact: for every counter value below
  \<open>2 ^ 31\<close>, and no valid configuration has a larger one, the product with the \<open>f64\<close> 1.2 rounds and
  truncates to the integer part of 6/5 of it, and the product with 2.0 to its double.\<close>

theorem column_load_exact:
  assumes "0 < base_b_num" and "base_b_num < 2 ^ 31"
  shows "loaded_columns bounds base_b_num =
    (case bounds of Empirical \<Rightarrow> 6 * base_b_num div 5 | Proven \<Rightarrow> 2 * base_b_num)"
  using loaded_columns_empirical [OF assms] loaded_columns_proven [OF assms(2)] by (cases bounds) simp_all

theorem column_load_exact_witness:
  "loaded_columns Empirical 5 = (case Empirical of Empirical \<Rightarrow> 6 * 5 div 5 | Proven \<Rightarrow> 2 * 5)"
  by (rule column_load_exact) simp_all

text \<open>C36: The cuckoo hash table of any level of a valid configuration is large enough: its columns have
  at most \<open>2 ^ 33\<close> locations, and each alone has room for the level's elements and its dummies, so
  \<open>OHTableParams::validate\<close> accepts the parameters.\<close>

theorem cht_columns_fit:
  assumes "valid_config c" and "level < num_levels c" and "0 < b"
    and "if level = num_levels c - 1 then b = 1 else b < 2 ^ log_amp_factor c"
  shows "\<exists>l len dummies. column_length c level b = Inr l \<and> l \<le> 33 \<and>
    num_elements_at c level b = Inr len \<and> num_dummies c level = Inr dummies \<and> len + dummies \<le> 2 ^ l \<and>
    oh_validate \<lparr>oh_num_elements = len, oh_num_dummies = dummies, oh_stash_size = stash_size c,
      oh_log_single_col_len = l, oh_log_address_space_size = log_address_space_size c\<rparr> = Inr ()"
proof -
  let ?k = "level * log_amp_factor c + log_speed_cache_size c"
  have b: "b \<le> 2 ^ log_amp_factor c" using assms(4) by (auto simp: Suc_leI split: if_splits)
  obtain l where l: "column_length c level b = Inr l" "l \<le> 33" "(b + 1) * 2 ^ ?k \<le> 2 ^ l"
    using column_length_ok [OF assms(1,2,3)] assms(4) by (auto split: if_splits)
  define len where "len = (if level = num_levels c - 1 then 2 ^ log_address_space_size c else b * 2 ^ ?k)"
  define dummies where "dummies = (2 ^ log_amp_factor c) ^ level * (2 ^ log_speed_cache_size c - stash_size c)"
  have "log_address_space_size c = ?k" if "level = num_levels c - 1"
    using that assms(1) by (simp add: valid_config_def)
  then have len: "len = b * 2 ^ ?k" using assms(4) by (simp add: len_def)
  have "(2::nat) ^ ?k = (2 ^ log_amp_factor c) ^ level * 2 ^ log_speed_cache_size c"
    by (simp add: power_add power_mult [symmetric] mult.commute)
  then have "dummies \<le> 2 ^ ?k" unfolding dummies_def by (simp only:) (intro mult_le_mono2, simp)
  then have fit: "len + dummies \<le> 2 ^ l" using l(3) by (simp add: len)
  have "2 ^ log_speed_cache_size c \<le> (2::nat) ^ ?k" by (rule power_increasing) simp_all
  moreover have "(2::nat) ^ ?k \<le> len" using assms(3) by (simp add: len Suc_leI)
  moreover have "stash_size c < 2 ^ log_speed_cache_size c" using assms(1) by (simp add: valid_config_def)
  ultimately have stash: "stash_size c \<le> len" by linarith
  have "(2::nat) ^ l \<le> 2 ^ 33" using l(2) by (rule power_increasing) simp
  then have "shl_usize 2 l = Inr (2 * 2 ^ l)" using l(2) by (intro shl_usize_ok) simp_all
  then have "oh_validate \<lparr>oh_num_elements = len, oh_num_dummies = dummies, oh_stash_size = stash_size c,
      oh_log_single_col_len = l, oh_log_address_space_size = log_address_space_size c\<rparr> = Inr ()"
    using fit stash by (simp add: oh_validate_def cht_full_table_length_def oh_total_size_def)
  then show ?thesis
    using l fit num_elements_at_ok [OF assms(1,2) b] num_dummies_ok [OF assms(1,2)]
    by (simp add: len_def dummies_def)
qed

theorem cht_columns_fit_witness:
  "\<exists>l len dummies.
    column_length \<lparr>log_address_space_size = 6, num_levels = 2, log_speed_cache_size = 4, log_amp_factor = 2,
      stash_size = 8, config_bounds = Empirical\<rparr> 0 3 = Inr l \<and> l \<le> 33 \<and>
    num_elements_at \<lparr>log_address_space_size = 6, num_levels = 2, log_speed_cache_size = 4, log_amp_factor = 2,
      stash_size = 8, config_bounds = Empirical\<rparr> 0 3 = Inr len \<and>
    num_dummies \<lparr>log_address_space_size = 6, num_levels = 2, log_speed_cache_size = 4, log_amp_factor = 2,
      stash_size = 8, config_bounds = Empirical\<rparr> 0 = Inr dummies \<and> len + dummies \<le> 2 ^ l \<and>
    oh_validate \<lparr>oh_num_elements = len, oh_num_dummies = dummies, oh_stash_size = 8,
      oh_log_single_col_len = l, oh_log_address_space_size = 6\<rparr> = Inr ()"
  using cht_columns_fit [of "\<lparr>log_address_space_size = 6, num_levels = 2, log_speed_cache_size = 4,
    log_amp_factor = 2, stash_size = 8, config_bounds = Empirical\<rparr>" 0 3]
  by (simp add: valid_config_def)

text \<open>C37: Dummy labels are fresh: relabelling never exceeds a 32-bit label, gives different offsets
  different labels, and every label has the dummy bit \<open>log_address_space_size\<close> set, which no
  address has.\<close>

theorem dummy_labels_fresh:
  assumes "valid_config c" and "offset < 2 ^ log_address_space_size c"
  shows "\<exists>w. dummy_label c offset = Inr w \<and> unat w = 2 ^ log_address_space_size c + offset \<and>
    bit w (log_address_space_size c) \<and>
    (\<forall>addr < 2 ^ log_address_space_size c. \<not> bit (of_nat addr :: 32 word) (log_address_space_size c))"
proof -
  let ?n = "log_address_space_size c"
  have n: "?n < 32" using assms(1) by (simp add: valid_config_def)
  have p: "(2::nat) ^ ?n \<le> 2 ^ 31" using n by (intro power_increasing) simp_all
  let ?w = "of_nat (2 ^ ?n + offset) :: 32 word"
  have "2 ^ ?n + offset < (2::nat) ^ 32" using p assms(2) by simp
  moreover have "unat (of_nat m :: 32 word) = m" if "m < 2 ^ 32" for m
    using that by (simp add: unsigned_of_nat take_bit_nat_eq_self)
  ultimately have u: "unat ?w = 2 ^ ?n + offset" by blast
  have "(2 ^ ?n + offset) div 2 ^ ?n = 1"
    using assms(2) by (intro div_nat_eqI) simp_all
  then have "bit (2 ^ ?n + offset) ?n" by (simp add: bit_nat_def)
  then have "bit ?w ?n" using n by (simp only: bit_of_nat_iff) simp
  moreover have "\<not> bit (of_nat addr :: 32 word) ?n" if "addr < 2 ^ ?n" for addr
    using that n by (simp add: bit_of_nat_iff bit_nat_def)
  ultimately show ?thesis using dummy_label_ok [OF assms] u by blast
qed

theorem dummy_labels_fresh_witness:
  "\<exists>w. dummy_label \<lparr>log_address_space_size = 6, num_levels = 2, log_speed_cache_size = 4, log_amp_factor = 2,
      stash_size = 8, config_bounds = Empirical\<rparr> 63 = Inr w \<and> unat w = 2 ^ 6 + 63 \<and> bit w 6 \<and>
    (\<forall>addr < 2 ^ 6. \<not> bit (of_nat addr :: 32 word) 6)"
  using dummy_labels_fresh [of "\<lparr>log_address_space_size = 6, num_levels = 2, log_speed_cache_size = 4,
    log_amp_factor = 2, stash_size = 8, config_bounds = Empirical\<rparr>" 63]
  by (simp add: valid_config_def)

end
