(* ===== verification/Schedule.thy ===== *)
theory Schedule
  imports Config
begin

text \<open>
  The rebuild schedule of \<open>GigaDoram\<close> (\<open>crates/doram/src/lib.rs\<close>): which levels exist, how many
  speed-cache loads each has absorbed, how often it has been queried and which of its slots were
  touched, under which key its tags are computed, and how every access, rebuild and growth step
  changes that. Shares do not occur here: a level is its parameters, its key, its query count and its
  touched marks, the speed cache is its length and its number of stored entries, and a vector of
  extracted entries is its length. A key is named by the draws of the generator it consists of, and a
  cached set of combined round keys is the list of the keys it combines.

  What the data decides about the public state is a value of type \<open>run_data\<close>: the outcome of
  \<open>OhTable::build\<close> (\<open>Oht_Build\<close> and \<open>Cht_Correct\<close> say when it succeeds), the slots a query of a
  level selects (\<open>Oht_Query\<close>), and how many extracted entries are real (their dummy bit opens to
  false, \<open>Bottom_Level\<close>). A batch may rebuild and query several times; its data is a function of the
  number of operations that remain.
\<close>

section \<open>State\<close>

record level_table =
  lt_params :: ohtable_params
  lt_key :: "nat list"
  lt_query_count :: nat
  lt_touched :: "bool list"

record doram_schedule =
  sch_config :: doram_config
  sch_length :: nat
  sch_num_stored :: nat
  sch_levels :: "level_table option list"
  base_b_state_vec :: "nat list"
  packed_query_key :: "nat list list option"
  packed_batch_query_keys :: "(nat \<times> nat list list list) option"
  had_initial_bottom_level :: bool
  sch_draws :: nat

record run_data =
  rd_reals :: nat
  rd_build :: "ohtable_params \<Rightarrow> nat list res"
  rd_slots :: "nat \<Rightarrow> nat \<Rightarrow> level_table \<Rightarrow> nat list"

definition live_levels :: "doram_schedule \<Rightarrow> nat list" where
  "live_levels st = filter (\<lambda>level. sch_levels st ! level \<noteq> None) [0..<length (sch_levels st)]"

definition live_keys :: "doram_schedule \<Rightarrow> nat list list" where
  "live_keys st = map (\<lambda>level. lt_key (the (sch_levels st ! level))) (live_levels st)"

section \<open>The speed cache as a counter\<close>

definition cache_skip :: "nat \<Rightarrow> doram_schedule \<Rightarrow> doram_schedule res" where
  "cache_skip n st =
     checkE (sch_num_stored st + n \<le> sch_length st) (Panic ''skip exceeds speed cache capacity'')
       (Inr (st\<lparr>sch_num_stored := sch_num_stored st + n\<rparr>))"

definition cache_write :: "nat \<Rightarrow> doram_schedule \<Rightarrow> doram_schedule res" where
  "cache_write n st =
     checkE (sch_num_stored st < sch_length st) (Panic ''The speed cache is full'')
    (checkE (sch_num_stored st + n \<le> sch_length st)
       (Panic ''write batch exceeds remaining speed cache capacity'')
       (Inr (st\<lparr>sch_num_stored := sch_num_stored st + n\<rparr>)))"

definition cache_writeable :: "doram_schedule \<Rightarrow> bool" where
  "cache_writeable st \<longleftrightarrow> sch_num_stored st < sch_length st"

definition cache_new :: "doram_schedule \<Rightarrow> doram_schedule res" where
  "cache_new st = bindE (speed_cache_size (sch_config st)) (\<lambda>size.
     Inr (st\<lparr>sch_length := size, sch_num_stored := 0\<rparr>))"

section \<open>One level\<close>

text \<open>
  Building a table either fails or moves entries to the stash, whose slots it marks touched. A
  query marks the slots it selects, each of which must be untouched. The extraction collects the
  untouched slots; the subtractions are those of the \<open>reserve\<close> before it.
\<close>

definition ROUND_KEYS :: nat where "ROUND_KEYS = 10"

definition mark_slot :: "nat \<Rightarrow> bool list \<Rightarrow> bool list res" where
  "mark_slot index marks = setE marks index True"

definition touch_mark :: "nat \<Rightarrow> bool list \<Rightarrow> bool list res" where
  "touch_mark index marks = bindE (getE marks index) (\<lambda>was_touched_before.
     checkE (\<not> was_touched_before) (Panic ''assertion failed: !was_touched_before'') (setE marks index True))"

definition table_new :: "run_data \<Rightarrow> ohtable_params \<Rightarrow> nat \<Rightarrow> nat list \<Rightarrow> level_table res" where
  "table_new d params len key = bindE (oh_validate params) (\<lambda>_.
     checkE (len = oh_num_elements params) (Panic ''xs.len() == params.num_elements'')
    (checkE (length key = ROUND_KEYS) (Panic ''key.len() == ROUND_KEYS'')
    (bindE (rd_build d params) (\<lambda>stash_slots.
     bindE (foldE mark_slot stash_slots (replicate (oh_total_size params) False)) (\<lambda>touched.
       Inr \<lparr>lt_params = params, lt_key = key, lt_query_count = 0, lt_touched = touched\<rparr>)))))"

definition table_query :: "run_data \<Rightarrow> nat \<Rightarrow> nat \<Rightarrow> level_table \<Rightarrow> level_table res" where
  "table_query d level num t =
     checkE (lt_query_count t + num \<le> oh_num_dummies (lt_params t))
       (Panic ''query_count + num <= num_dummies'')
       (bindE (foldE touch_mark (rd_slots d level num t) (lt_touched t)) (\<lambda>touched.
          Inr (t\<lparr>lt_query_count := lt_query_count t + num, lt_touched := touched\<rparr>)))"

definition extract_untouched_len :: "level_table \<Rightarrow> nat res" where
  "extract_untouched_len t = bindE (sub_usize (oh_total_size (lt_params t)) (oh_stash_size (lt_params t)))
     (\<lambda>rest. bindE (sub_usize rest (lt_query_count t)) (\<lambda>reserve. Inr (length (filter Not (lt_touched t)))))"

definition extract_len :: "level_table \<Rightarrow> nat res" where
  "extract_len t =
     checkE (lt_query_count t = oh_num_dummies (lt_params t)) (Panic ''query_count == num_dummies'')
    (bindE (extract_untouched_len t) (\<lambda>len.
     bindE (sub_usize (oh_num_elements (lt_params t)) (oh_stash_size (lt_params t))) (\<lambda>real_len.
     checkE (len = real_len) (Panic ''extract_xs.len()'') (Inr len))))"

section \<open>Levels created and deleted\<close>

definition clear_keys :: "doram_schedule \<Rightarrow> doram_schedule" where
  "clear_keys st = st\<lparr>packed_query_key := None, packed_batch_query_keys := None\<rparr>"

definition rebuild_target :: "doram_schedule \<Rightarrow> (nat \<times> bool) res" where
  "rebuild_target st =
     (let bottom = num_levels (sch_config st) - 1
      in bindE (amp_factor (sch_config st)) (\<lambda>amp.
         Inr (case find (\<lambda>level. base_b_state_vec st ! level < amp - 1) [0..<bottom] of
                Some level \<Rightarrow> (level, sch_levels st ! level \<noteq> None)
              | None \<Rightarrow> (bottom, base_b_state_vec st ! bottom \<noteq> 0))))"

definition delete_level :: "nat \<Rightarrow> doram_schedule \<Rightarrow> doram_schedule res" where
  "delete_level level st =
     bindE (setE (sch_levels st) level None) (\<lambda>levels.
     bindE (amp_factor (sch_config st)) (\<lambda>amp.
     bindE (getE (base_b_state_vec st) level) (\<lambda>b.
       let st' = clear_keys (st\<lparr>sch_levels := levels\<rparr>)
       in if level < num_levels (sch_config st) - 1 \<and> b = amp - 1
          then bindE (setE (base_b_state_vec st) level 0) (\<lambda>bs. Inr (st'\<lparr>base_b_state_vec := bs\<rparr>))
          else Inr st')))"

definition new_ohtable_of_level :: "run_data \<Rightarrow> nat \<Rightarrow> nat \<Rightarrow> doram_schedule \<Rightarrow> doram_schedule res" where
  "new_ohtable_of_level d level len st =
     (let c = sch_config st; bottom = num_levels c - 1
      in checkE (level < num_levels c) (Panic ''level < num_levels'')
        (checkE (len \<ge> stash_size c) (Panic ''xs.len() >= stash_size'')
        (bindE (getE (base_b_state_vec st) level) (\<lambda>b.
         bindE (amp_factor c) (\<lambda>amp.
         bindE (if level = bottom then Inr 1
                else checkE (b + 1 < amp) (Panic ''base_b_state_vec[level] < amp_factor'') (Inr (b + 1)))
           (\<lambda>b'.
         bindE (setE (base_b_state_vec st) level b') (\<lambda>bs.
         bindE (column_length c level (if level = bottom then 1 else b')) (\<lambda>l.
         bindE (num_dummies c level) (\<lambda>dummies.
         bindE (table_new d \<lparr>oh_num_elements = len, oh_num_dummies = dummies,
             oh_stash_size = stash_size c, oh_log_single_col_len = l,
             oh_log_address_space_size = log_address_space_size c\<rparr> len [sch_draws st..<sch_draws st + ROUND_KEYS]) (\<lambda>t.
         bindE (setE (sch_levels st) level (Some t)) (\<lambda>levels.
           Inr (clear_keys (st\<lparr>sch_levels := levels, base_b_state_vec := bs,
             sch_draws := sch_draws st + ROUND_KEYS\<rparr>)))))))))))))"

definition insert_stash :: "nat \<Rightarrow> doram_schedule \<Rightarrow> doram_schedule res" where
  "insert_stash level st = bindE (getE (sch_levels st) level) (\<lambda>t.
     case t of None \<Rightarrow> Inl (Panic ''newly rebuilt level should exist'')
     | Some t \<Rightarrow> cache_write (oh_stash_size (lt_params t)) st)"

section \<open>Rebuilding\<close>

definition next_power_of_two :: "nat \<Rightarrow> nat" where
  "next_power_of_two n = (if n \<le> 1 then 1 else 2 * 2 ^ floor_log2 (n - 1))"

definition relabel_dummies_len :: "doram_config \<Rightarrow> nat \<Rightarrow> nat res" where
  "relabel_dummies_len c len = bindE (mapE (dummy_label c) [0..<len]) (\<lambda>_. Inr len)"

definition finalize_bottom_len :: "run_data \<Rightarrow> doram_schedule \<Rightarrow> nat \<Rightarrow> nat res" where
  "finalize_bottom_len d st len = bindE (bottom_num_elements (sch_config st)) (\<lambda>bottom.
     if had_initial_bottom_level st then
       checkE (len \<ge> bottom)
         (Report ''initial bottom cleanse needs enough extracted entries for the bottom level'')
      (checkE (rd_reals d = bottom)
         (Report ''initial bottom cleanse found wrong number of real entries'') (Inr (rd_reals d)))
     else relabel_dummies_len (sch_config st) (min (next_power_of_two len) bottom))"

definition extract_level :: "nat \<Rightarrow> doram_schedule \<Rightarrow> nat \<Rightarrow> nat res" where
  "extract_level level st offset = bindE (getE (sch_levels st) level) (\<lambda>table.
     case table of None \<Rightarrow> Inr offset
     | Some t \<Rightarrow> bindE (extract_len t) (\<lambda>xs_len.
         bindE (getE (base_b_state_vec st) level) (\<lambda>b.
         bindE (num_elements_at (sch_config st) level b) (\<lambda>size.
           checkE (xs_len \<le> size) index_out_of_bounds (Inr (offset + size))))))"

definition extract_all :: "nat \<Rightarrow> doram_schedule \<Rightarrow> nat res" where
  "extract_all last_level_to_extract st =
     checkE (sch_num_stored st = sch_length st) (Panic ''num_stored == length'')
       (foldE (\<lambda>level. extract_level level st) [0..<last_level_to_extract] (sch_length st))"

definition dr_rebuild :: "run_data \<Rightarrow> doram_schedule \<Rightarrow> doram_schedule res" where
  "dr_rebuild d st =
     bindE (rebuild_target st) (\<lambda>(rebuild_to, need_to_extract_from_rebuild_to).
     bindE (extract_all (rebuild_to + (if need_to_extract_from_rebuild_to then 1 else 0)) st) (\<lambda>len.
     bindE (cache_new st) (\<lambda>st.
     checkE (len \<noteq> 0) (Report ''rebuild needs at least one extracted item'')
    (bindE (if rebuild_to = num_levels (sch_config st) - 1 then finalize_bottom_len d st len
            else bindE (getE (base_b_state_vec st) rebuild_to) (\<lambda>b.
                 bindE (num_elements_at (sch_config st) rebuild_to (b + 1)) (\<lambda>target.
                 checkE (len = target) (Panic ''extracted_xs.len() == target_num_elements'')
                   (relabel_dummies_len (sch_config st) len)))) (\<lambda>len.
     bindE (foldE delete_level [0..<rebuild_to] st) (\<lambda>st.
     bindE (if need_to_extract_from_rebuild_to then delete_level rebuild_to st else Inr st) (\<lambda>st.
     bindE (new_ohtable_of_level d rebuild_to len st) (\<lambda>st.
       insert_stash rebuild_to st))))))))"

section \<open>Accesses\<close>

definition query_level :: "run_data \<Rightarrow> nat \<Rightarrow> nat \<Rightarrow> doram_schedule \<Rightarrow> doram_schedule res" where
  "query_level d num level st = bindE (getE (sch_levels st) level) (\<lambda>table.
     case table of None \<Rightarrow> Inl (Panic ''live level should still exist during query'')
     | Some t \<Rightarrow> bindE (table_query d level num t) (\<lambda>t'.
         Inr (st\<lparr>sch_levels := (sch_levels st)[level := Some t']\<rparr>)))"

definition read_and_maybe_write :: "run_data \<Rightarrow> doram_schedule \<Rightarrow> doram_schedule res" where
  "read_and_maybe_write d st =
     bindE (if cache_writeable st then Inr st else dr_rebuild d st) (\<lambda>st.
     let live = live_levels st;
         st = (if packed_query_key st = None then st\<lparr>packed_query_key := Some (live_keys st)\<rparr> else st)
     in bindE (foldE (query_level d 1) live st) (cache_write 1))"

text \<open>The combined keys of a batch: eight keys to a combination, the live keys once per operation.\<close>

definition batch_keys :: "nat \<Rightarrow> doram_schedule \<Rightarrow> nat list list list" where
  "batch_keys num st = chunks 8 (concat (replicate num (live_keys st)))"

definition batch_access_chunk :: "run_data \<Rightarrow> nat \<Rightarrow> doram_schedule \<Rightarrow> doram_schedule res" where
  "batch_access_chunk d num st =
     (let live = live_levels st;
          keys_cached = (case packed_batch_query_keys st of Some (k, _) \<Rightarrow> k = num | None \<Rightarrow> False);
          st = (if keys_cached then st else st\<lparr>packed_batch_query_keys := Some (num, batch_keys num st)\<rparr>)
      in bindE (foldE (query_level d num) live st) (cache_write num))"

text \<open>
  The loop of \<open>batch_access\<close>; each operation needs at most one rebuild and one chunk, so twice the
  number of operations is enough fuel (\<open>batch_access_ok\<close>).
\<close>

fun batch_loop :: "nat \<Rightarrow> (nat \<Rightarrow> run_data) \<Rightarrow> nat \<Rightarrow> doram_schedule \<Rightarrow> doram_schedule res" where
  "batch_loop 0 ds remaining st = (if remaining = 0 then Inr st else Inl OutOfFuel)"
| "batch_loop (Suc fuel) ds remaining st =
     (if remaining = 0 then Inr st
      else bindE (sub_usize (sch_length st) (sch_num_stored st)) (\<lambda>free.
        if free = 0 then bindE (dr_rebuild (ds remaining) st) (batch_loop fuel ds remaining)
        else bindE (batch_access_chunk (ds remaining) (min remaining free) st)
               (batch_loop fuel ds (remaining - min remaining free))))"

definition batch_access :: "(nat \<Rightarrow> run_data) \<Rightarrow> nat \<Rightarrow> doram_schedule \<Rightarrow> doram_schedule res" where
  "batch_access ds ops st =
     checkE (ops \<noteq> 0) (Report ''batch access requires at least one operation'')
       (batch_loop (2 * ops) ds ops st)"

section \<open>Construction and growth\<close>

definition schedule_of :: "doram_config \<Rightarrow> nat \<Rightarrow> bool \<Rightarrow> nat \<Rightarrow> doram_schedule" where
  "schedule_of c cache_size initial draws = \<lparr>sch_config = c, sch_length = cache_size, sch_num_stored = 0,
     sch_levels = replicate (num_levels c) None, base_b_state_vec = replicate (num_levels c) 0,
     packed_query_key = None, packed_batch_query_keys = None, had_initial_bottom_level = initial,
     sch_draws = draws\<rparr>"

definition doram_new :: "doram_config \<Rightarrow> doram_schedule res" where
  "doram_new c = bindE (config_validate c) (\<lambda>_. bindE (speed_cache_size c) (\<lambda>size.
     cache_skip (stash_size c) (schedule_of c size False 0)))"

definition new_with_initial_bottom_level :: "run_data \<Rightarrow> doram_config \<Rightarrow> nat \<Rightarrow> doram_schedule res" where
  "new_with_initial_bottom_level d c ys_len =
     bindE (config_validate c) (\<lambda>_. bindE (bottom_num_elements c) (\<lambda>bottom.
     checkE (ys_len = bottom)
       (Report ''initial bottom level must contain exactly every address in [0, 2^N)'')
    (bindE (speed_cache_size c) (\<lambda>size.
     bindE (new_ohtable_of_level d (num_levels c - 1) bottom (schedule_of c size True 0))
       (insert_stash (num_levels c - 1))))))"

definition finish_grow :: "run_data \<Rightarrow> doram_config \<Rightarrow> nat \<Rightarrow> doram_schedule \<Rightarrow> doram_schedule res" where
  "finish_grow d new_config len st =
     (let old_log_n = log_address_space_size (sch_config st);
          new_log_n = log_address_space_size new_config
      in bindE (bottom_num_elements new_config) (\<lambda>new_bottom.
         checkE (len \<le> new_bottom) (Report ''widened bottom level cannot hold the collapsed data'')
        (bindE (if had_initial_bottom_level st
                then checkE (2 ^ new_log_n - 1 \<le> (2 ^ 32 - 1 :: nat)) (Panic ''new address must fit X'')
                       (Inr (len + (2 ^ new_log_n - 2 ^ old_log_n)))
                else checkE (2 ^ new_log_n + new_bottom - 1 \<le> 2 ^ 32 - 1)
                       (Panic ''new dummy label must fit X'') (Inr new_bottom)) (\<lambda>xs_len.
         bindE (speed_cache_size new_config) (\<lambda>size.
         checkE (xs_len = new_bottom) (Panic ''xs.len() == ys.len()'')
        (bindE (new_ohtable_of_level d (num_levels new_config - 1) xs_len
              (schedule_of new_config size (had_initial_bottom_level st) (sch_draws st)))
           (insert_stash (num_levels new_config - 1))))))))"

definition ready_to_grow_naturally :: "doram_schedule \<Rightarrow> bool res" where
  "ready_to_grow_naturally st =
     (if cache_writeable st then Inr False
      else bindE (rebuild_target st) (\<lambda>(to, _). Inr (to = num_levels (sch_config st) - 1)))"

definition grow_naturally :: "doram_config \<Rightarrow> run_data \<Rightarrow> doram_schedule \<Rightarrow> doram_schedule res" where
  "grow_naturally new_config d st =
     checkE (log_address_space_size new_config = log_address_space_size (sch_config st) + 1)
       (Report ''grow must increase the address space by exactly one bit'')
    (bindE (config_validate new_config) (\<lambda>_.
     bindE (ready_to_grow_naturally st) (\<lambda>ready.
     checkE ready (Report ''grow is only valid at a full-collapse boundary'')
    (bindE (rebuild_target st) (\<lambda>(rebuild_to, need_to_extract_from_rebuild_to).
     bindE (extract_all (rebuild_to + (if need_to_extract_from_rebuild_to then 1 else 0)) st) (\<lambda>len.
     checkE (len \<noteq> 0) (Report ''grow needs at least one extracted item'')
    (bindE (finalize_bottom_len d st len) (\<lambda>len. finish_grow d new_config len st))))))))"

definition collect_untouched :: "nat \<Rightarrow> doram_schedule \<Rightarrow> nat \<Rightarrow> nat res" where
  "collect_untouched level st len = bindE (getE (sch_levels st) level) (\<lambda>table.
     case table of None \<Rightarrow> Inr len
     | Some t \<Rightarrow> bindE (extract_untouched_len t) (\<lambda>xs_len. Inr (len + xs_len)))"

definition grow_on_demand :: "doram_config \<Rightarrow> run_data \<Rightarrow> doram_schedule \<Rightarrow> doram_schedule res" where
  "grow_on_demand new_config d st =
     checkE (log_address_space_size new_config = log_address_space_size (sch_config st) + 1)
       (Report ''grow must increase the address space by exactly one bit'')
    (bindE (config_validate new_config) (\<lambda>_.
     bindE (foldE (\<lambda>level. collect_untouched level st) [0..<num_levels (sch_config st)]
       (sch_num_stored st)) (\<lambda>len.
     checkE (len \<noteq> 0) (Report ''grow needs at least one extracted item'')
    (bindE (finalize_bottom_len d st len) (\<lambda>len. finish_grow d new_config len st)))))"

section \<open>The invariant of the schedule\<close>

text \<open>
  \<open>counter_below bs amp i\<close> is the number the digits below \<open>i\<close> spell in base \<open>amp\<close>: the number of
  rebuilds since level \<open>i\<close> was last rebuilt.
\<close>

fun counter_below :: "nat list \<Rightarrow> nat \<Rightarrow> nat \<Rightarrow> nat" where
  "counter_below bs amp 0 = 0"
| "counter_below bs amp (Suc i) = counter_below bs amp i + bs ! i * amp ^ i"

definition amp_of :: "doram_config \<Rightarrow> nat" where "amp_of c = 2 ^ log_amp_factor c"
definition cache_of :: "doram_config \<Rightarrow> nat" where "cache_of c = 2 ^ log_speed_cache_size c"
definition fill_of :: "doram_config \<Rightarrow> nat" where "fill_of c = cache_of c - stash_size c"

definition level_ok :: "doram_config \<Rightarrow> nat \<Rightarrow> nat \<Rightarrow> ohtable_params \<Rightarrow> bool" where
  "level_ok c i b p \<longleftrightarrow>
     oh_num_elements p = (if i = num_levels c - 1 then 2 ^ log_address_space_size c
       else b * amp_of c ^ i * cache_of c) \<and>
     oh_num_dummies p = amp_of c ^ i * fill_of c \<and> oh_stash_size p = stash_size c"

text \<open>The marks of a table: those of its stash and one for each query.\<close>

definition marked :: "bool list \<Rightarrow> nat" where
  "marked marks = length (filter (\<lambda>m. m) marks)"

definition table_ok :: "level_table \<Rightarrow> bool" where
  "table_ok t \<longleftrightarrow> length (lt_touched t) = oh_total_size (lt_params t) \<and> length (lt_key t) = ROUND_KEYS \<and>
     marked (lt_touched t) = oh_stash_size (lt_params t) + lt_query_count t"

definition schedule_ok :: "doram_schedule \<Rightarrow> bool" where
  "schedule_ok st \<longleftrightarrow> (let c = sch_config st; bs = base_b_state_vec st; bottom = num_levels c - 1 in
     valid_config c \<and> length (sch_levels st) = num_levels c \<and> length bs = num_levels c \<and>
     sch_length st = cache_of c \<and> sch_num_stored st \<le> cache_of c \<and> stash_size c \<le> sch_num_stored st \<and>
     (\<forall>i < bottom. bs ! i < amp_of c) \<and> bs ! bottom \<le> 1 \<and>
     (\<forall>i < num_levels c. sch_levels st ! i = None \<longleftrightarrow> bs ! i = 0) \<and>
     (\<forall>i < num_levels c. \<forall>t. sch_levels st ! i = Some t \<longrightarrow> level_ok c i (bs ! i) (lt_params t) \<and>
        lt_query_count t = fill_of c * counter_below bs (amp_of c) i + (sch_num_stored st - stash_size c)) \<and>
     (\<forall>t. Some t \<in> set (sch_levels st) \<longrightarrow> table_ok t) \<and>
     (\<forall>ks. packed_query_key st = Some ks \<longrightarrow> ks = live_keys st) \<and>
     (\<forall>n ks. packed_batch_query_keys st = Some (n, ks) \<longrightarrow> ks = batch_keys n st) \<and>
     distinct (concat (live_keys st)) \<and> (\<forall>k \<in> set (concat (live_keys st)). k < sch_draws st) \<and>
     (had_initial_bottom_level st \<longrightarrow> bs ! bottom = 1))"

section \<open>What the data can do\<close>

text \<open>
  \<open>data_wf\<close>: a build that succeeds moves \<open>stash_size\<close> distinct slots to the stash, and a query
  within the budget selects one slot of the table for each of its tags. \<open>slots_fresh\<close>: no query
  selects a touched slot, or a slot twice (\<open>Oht_Refine\<close>: the tags of a query are distinct and were not
  queried before). \<open>good_reals\<close>: an initially filled hierarchy still holds one real entry per
  address. \<open>data_error\<close> lists the errors that the data can cause, each with its cause.
\<close>

definition data_wf :: "run_data \<Rightarrow> bool" where
  "data_wf d \<longleftrightarrow>
     (\<forall>p slots. rd_build d p = Inr slots \<longrightarrow>
        distinct slots \<and> length slots = oh_stash_size p \<and> (\<forall>i \<in> set slots. i < oh_total_size p)) \<and>
     (\<forall>level n t. n \<le> length (filter Not (lt_touched t)) \<longrightarrow>
        length (rd_slots d level n t) = n \<and> (\<forall>i \<in> set (rd_slots d level n t). i < length (lt_touched t)))"

definition slots_fresh :: "run_data \<Rightarrow> bool" where
  "slots_fresh d \<longleftrightarrow> (\<forall>level n t. n \<le> length (filter Not (lt_touched t)) \<longrightarrow>
     distinct (rd_slots d level n t) \<and> (\<forall>i \<in> set (rd_slots d level n t). \<not> lt_touched t ! i))"

definition good_reals :: "nat \<Rightarrow> doram_schedule \<Rightarrow> bool" where
  "good_reals reals st \<longleftrightarrow>
     (had_initial_bottom_level st \<longrightarrow> reals = 2 ^ log_address_space_size (sch_config st))"

definition build_error :: "run_data \<Rightarrow> error \<Rightarrow> bool" where
  "build_error d e \<longleftrightarrow> (\<exists>p. oh_validate p = Inr () \<and> rd_build d p = Inl e)"

definition touch_error :: "run_data \<Rightarrow> error \<Rightarrow> bool" where
  "touch_error d e \<longleftrightarrow> e = Panic ''assertion failed: !was_touched_before'' \<and> \<not> slots_fresh d"

definition reals_error :: "run_data \<Rightarrow> doram_schedule \<Rightarrow> error \<Rightarrow> bool" where
  "reals_error d st e \<longleftrightarrow>
     e = Report ''initial bottom cleanse found wrong number of real entries'' \<and> \<not> good_reals (rd_reals d) st"

definition data_error :: "run_data \<Rightarrow> doram_schedule \<Rightarrow> error \<Rightarrow> bool" where
  "data_error d st e \<longleftrightarrow> build_error d e \<or> touch_error d e \<or> reals_error d st e"

definition data_good :: "run_data \<Rightarrow> doram_schedule \<Rightarrow> bool" where
  "data_good d st \<longleftrightarrow> (\<forall>p. oh_validate p = Inr () \<longrightarrow> (\<exists>slots. rd_build d p = Inr slots)) \<and> slots_fresh d \<and>
     good_reals (rd_reals d) st"

lemma data_good_no_error: "data_good d st \<Longrightarrow> \<not> data_error d st e"
  by (auto simp: data_good_def data_error_def build_error_def touch_error_def reals_error_def)

lemma reals_error_cong:
  "sch_config st' = sch_config st \<Longrightarrow> had_initial_bottom_level st' = had_initial_bottom_level st \<Longrightarrow>
   reals_error d st' = reals_error d st"
  by (simp add: fun_eq_iff reals_error_def good_reals_def)

lemma data_error_cong:
  "sch_config st' = sch_config st \<Longrightarrow> had_initial_bottom_level st' = had_initial_bottom_level st \<Longrightarrow>
   data_error d st' = data_error d st"
  using reals_error_cong [of st' st d] by (simp add: fun_eq_iff data_error_def)

text \<open>Marks.\<close>

lemma unmarked: "length (filter Not marks) + marked marks = length marks"
  unfolding marked_def by (induction marks) auto

lemma marked_update: "i < length marks \<Longrightarrow> \<not> marks ! i \<Longrightarrow> marked (marks[i := True]) = Suc (marked marks)"
  unfolding marked_def by (induction marks arbitrary: i) (auto split: nat.split)

lemma marked_none [simp]: "marked (replicate n False) = 0"
  by (simp add: marked_def)

lemma mark_slots:
  assumes "distinct slots" and "\<forall>i \<in> set slots. i < length marks \<and> \<not> marks ! i"
  shows "\<exists>marks'. foldE mark_slot slots marks = Inr marks' \<and> length marks' = length marks \<and>
    marked marks' = marked marks + length slots"
  using assms
proof (induction slots arbitrary: marks)
  case (Cons i slots)
  then have "\<forall>j \<in> set slots. j < length (marks[i := True]) \<and> \<not> marks[i := True] ! j"
    by (auto simp: nth_list_update)
  then show ?case using Cons.IH [of "marks[i := True]"] Cons.prems by (simp add: mark_slot_def marked_update)
qed simp

lemma touch_marks:
  assumes "\<forall>i \<in> set slots. i < length marks"
  shows "settles (\<lambda>e. e = Panic ''assertion failed: !was_touched_before'' \<and> \<not> (distinct slots \<and> (\<forall>i \<in> set slots. \<not> marks ! i)))
    (\<lambda>marks'. length marks' = length marks \<and> marked marks' = marked marks + length slots) (foldE touch_mark slots marks)"
  using assms
proof (induction slots arbitrary: marks)
  case (Cons i slots)
  show ?case
  proof (cases "marks ! i")
    case True
    then show ?thesis using Cons.prems by (simp add: touch_mark_def)
  next
    case False
    have IH: "settles (\<lambda>e. e = Panic ''assertion failed: !was_touched_before'' \<and>
        \<not> (distinct slots \<and> (\<forall>j \<in> set slots. \<not> marks[i := True] ! j)))
      (\<lambda>marks'. length marks' = length (marks[i := True]) \<and> marked marks' = marked (marks[i := True]) + length slots)
      (foldE touch_mark slots (marks[i := True]))"
      using Cons.prems by (intro Cons.IH) simp
    have "foldE touch_mark (i # slots) marks = foldE touch_mark slots (marks[i := True])"
      using False Cons.prems by (simp add: touch_mark_def)
    then show ?thesis using IH False Cons.prems
      by (auto elim!: settles_mono simp: marked_update nth_list_update split: if_splits)
  qed
qed simp

text \<open>The live tables in order.\<close>

lemma live_keys_eq: "live_keys st = map (lt_key \<circ> the) (filter (\<lambda>t. t \<noteq> None) (sch_levels st))"
proof -
  have "filter P xs = map ((!) xs) (filter (\<lambda>i. P (xs ! i)) [0..<length xs])" for P and xs :: "level_table option list"
    using filter_map [of P "(!) xs" "[0..<length xs]"] by (simp add: map_nth o_def)
  then show ?thesis by (simp add: live_keys_def live_levels_def)
qed

lemma counter_below_full:
  assumes "\<And>j. j < i \<Longrightarrow> bs ! j = amp - 1" and "0 < amp"
  shows "counter_below bs amp i + 1 = amp ^ i"
  using assms(1)
proof (induction i)
  case (Suc i)
  obtain a where a: "amp = Suc a" using assms(2) by (cases amp) auto
  have "counter_below bs amp i + 1 = amp ^ i" "bs ! i = a" using Suc a by simp_all
  then show ?case by (simp add: a)
qed simp

lemma counter_below_bound:
  assumes "\<And>j. j < i \<Longrightarrow> bs ! j < amp"
  shows "counter_below bs amp i < amp ^ i"
  using assms
proof (induction i)
  case (Suc i)
  have lt: "counter_below bs amp i < amp ^ i" using Suc by simp
  have "bs ! i \<le> amp - 1" using Suc.prems [of i] by simp
  then have le: "bs ! i * amp ^ i \<le> (amp - 1) * amp ^ i" by (rule mult_le_mono1)
  have "amp ^ i + (amp - 1) * amp ^ i = amp ^ Suc i"
    using Suc.prems [of i] by (cases amp) simp_all
  then show ?case unfolding counter_below.simps using lt le by linarith
qed simp

lemma counter_below_cong: "(\<And>j. j < i \<Longrightarrow> bs ! j = bs' ! j) \<Longrightarrow> counter_below bs amp i = counter_below bs' amp i"
  by (induction i) simp_all

lemma counter_below_zero: "(\<And>j. j < i \<Longrightarrow> bs ! j = 0) \<Longrightarrow> counter_below bs amp i = 0"
  by (induction i) simp_all

lemma amp_pos [simp]: "0 < amp_of c" "0 < cache_of c"
  by (simp_all add: amp_of_def cache_of_def)

text \<open>Carrying: the digits below \<open>r\<close> are full, digit \<open>r\<close> is not; they turn to zero and it grows by one.\<close>

lemma counter_below_carry:
  assumes full: "\<And>j. j < r \<Longrightarrow> bs ! j = amp - 1" and "0 < amp"
    and zero: "\<And>j. j < r \<Longrightarrow> bs' ! j = 0" and r: "bs' ! r = bs ! r + 1"
    and same: "\<And>j. r < j \<Longrightarrow> j < i \<Longrightarrow> bs' ! j = bs ! j" and "r < i"
  shows "counter_below bs' amp i = counter_below bs amp i + 1"
  using \<open>r < i\<close> same
proof (induction i)
  case (Suc i)
  show ?case
  proof (cases "r = i")
    case True
    then show ?thesis using r counter_below_zero [of r bs' amp] zero
        counter_below_full [of r bs amp] full \<open>0 < amp\<close> by simp
  next
    case False
    then show ?thesis using Suc by simp
  qed
qed simp

section \<open>Target and extraction of a rebuild\<close>

definition rebuild_level :: "doram_schedule \<Rightarrow> nat" where
  "rebuild_level st = (case find (\<lambda>i. base_b_state_vec st ! i < amp_of (sch_config st) - 1)
      [0..<num_levels (sch_config st) - 1] of Some i \<Rightarrow> i | None \<Rightarrow> num_levels (sch_config st) - 1)"

lemma find_upt:
  "find P [0..<n] = Some i \<Longrightarrow> i < n \<and> P i \<and> (\<forall>j < i. \<not> P j)"
  "find P [0..<n] = None \<Longrightarrow> \<forall>j < n. \<not> P j"
  by (auto simp: find_Some_iff find_None_iff)

lemma rebuild_level_props:
  assumes "schedule_ok st"
  defines "c \<equiv> sch_config st" and "r \<equiv> rebuild_level st"
  shows "r < num_levels c" and "\<And>j. j < r \<Longrightarrow> base_b_state_vec st ! j = amp_of c - 1"
    and "r < num_levels c - 1 \<Longrightarrow> base_b_state_vec st ! r < amp_of c - 1"
proof -
  have L: "0 < num_levels c" "\<forall>i < num_levels c - 1. base_b_state_vec st ! i < amp_of c"
    using assms(1) by (simp_all add: schedule_ok_def Let_def valid_config_def c_def)
  let ?P = "\<lambda>i. base_b_state_vec st ! i < amp_of c - 1"
  have full: "base_b_state_vec st ! j = amp_of c - 1" if "j < num_levels c - 1" "\<not> ?P j" for j
    using L(2) that by fastforce
  have "r < num_levels c \<and> (\<forall>j < r. base_b_state_vec st ! j = amp_of c - 1) \<and>
      (r < num_levels c - 1 \<longrightarrow> ?P r)"
  proof (cases "find ?P [0..<num_levels c - 1]")
    case None
    then have "r = num_levels c - 1" by (simp add: r_def rebuild_level_def c_def)
    then show ?thesis using L(1) full find_upt(2) [OF None] by simp
  next
    case (Some i)
    then have "r = i" by (simp add: r_def rebuild_level_def c_def)
    then show ?thesis using L(1) full find_upt(1) [OF Some] by fastforce
  qed
  then show "r < num_levels c" "\<And>j. j < r \<Longrightarrow> base_b_state_vec st ! j = amp_of c - 1"
    "r < num_levels c - 1 \<Longrightarrow> ?P r" by auto
qed

lemma rebuild_target_eq:
  assumes "schedule_ok st"
  shows "rebuild_target st = Inr (rebuild_level st, sch_levels st ! rebuild_level st \<noteq> None)"
proof -
  let ?c = "sch_config st"
  have v: "valid_config ?c" "0 < num_levels ?c"
    "\<forall>i < num_levels ?c. sch_levels st ! i = None \<longleftrightarrow> base_b_state_vec st ! i = 0"
    using assms by (simp_all add: schedule_ok_def Let_def valid_config_def)
  have bottom: "sch_levels st ! (num_levels ?c - 1) = None \<longleftrightarrow> base_b_state_vec st ! (num_levels ?c - 1) = 0"
    using v(2,3) by simp
  show ?thesis
    unfolding rebuild_target_def Let_def amp_factor_ok [OF v(1)] rebuild_level_def amp_of_def
    using bottom by (cases "sch_levels st ! (num_levels ?c - 1)") (simp_all split: option.split)
qed

lemma power_split: "2 ^ (level * log_amp_factor c + log_speed_cache_size c) = amp_of c ^ level * cache_of c"
  by (simp add: amp_of_def cache_of_def power_add power_mult [symmetric] mult.commute)

lemma untouched_len:
  assumes "table_ok t"
  shows "length (filter Not (lt_touched t)) + oh_stash_size (lt_params t) + lt_query_count t = oh_total_size (lt_params t)"
  using assms unmarked [of "lt_touched t"] by (simp add: table_ok_def)

lemma extract_len_ok:
  assumes "table_ok t" and "lt_query_count t = oh_num_dummies (lt_params t)"
  shows "extract_len t = Inr (oh_num_elements (lt_params t) - oh_stash_size (lt_params t))"
proof -
  have u: "length (filter Not (lt_touched t)) + oh_stash_size (lt_params t) = oh_num_elements (lt_params t)"
    using untouched_len [OF assms(1)] assms(2) by (simp add: oh_total_size_def)
  then have "oh_stash_size (lt_params t) \<le> oh_num_elements (lt_params t)"
    "length (filter Not (lt_touched t)) = oh_num_elements (lt_params t) - oh_stash_size (lt_params t)" by linarith+
  then show ?thesis using assms(2)
    by (simp add: extract_len_def extract_untouched_len_def sub_usize_def oh_total_size_def)
qed

lemma table_ok_level:
  assumes "schedule_ok st" and "i < num_levels (sch_config st)" and "sch_levels st ! i = Some t"
  shows "table_ok t"
proof -
  have "length (sch_levels st) = num_levels (sch_config st)" "\<forall>t. Some t \<in> set (sch_levels st) \<longrightarrow> table_ok t"
    using assms(1) by (simp_all add: schedule_ok_def Let_def)
  then show ?thesis using assms(2,3) nth_mem [of i "sch_levels st"] by simp
qed

text \<open>When the cache is full, a level whose lower digits are all full has spent its dummies exactly.\<close>

lemma spent_exactly:
  assumes ok: "schedule_ok st" and full: "sch_num_stored st = sch_length st"
    and t: "sch_levels st ! i = Some t" "i \<le> rebuild_level st"
  shows "lt_query_count t = oh_num_dummies (lt_params t)"
proof -
  let ?c = "sch_config st" and ?bs = "base_b_state_vec st"
  have i: "i < num_levels ?c" using rebuild_level_props(1) [OF ok] t(2) by simp
  have "\<And>j. j < i \<Longrightarrow> ?bs ! j = amp_of ?c - 1" using rebuild_level_props(2) [OF ok] t(2) by simp
  then have "counter_below ?bs (amp_of ?c) i + 1 = amp_of ?c ^ i" by (rule counter_below_full) simp_all
  moreover have "lt_query_count t = fill_of ?c * counter_below ?bs (amp_of ?c) i +
      (sch_num_stored st - stash_size ?c)" "oh_num_dummies (lt_params t) = amp_of ?c ^ i * fill_of ?c"
    "sch_length st = cache_of ?c"
    using ok t(1) i by (auto simp: schedule_ok_def Let_def level_ok_def)
  ultimately show ?thesis using full by (simp add: fill_of_def flip: \<open>_ + 1 = _\<close>)
qed

section \<open>Creating a level\<close>

lemma bottom_size: "valid_config c \<Longrightarrow> 2 ^ log_address_space_size c = amp_of c ^ (num_levels c - 1) * cache_of c"
  by (simp add: valid_config_def power_split [symmetric] add.commute)

definition level_size :: "doram_config \<Rightarrow> nat \<Rightarrow> nat \<Rightarrow> nat" where
  "level_size c level b = (if level = num_levels c - 1 then 2 ^ log_address_space_size c
     else b * amp_of c ^ level * cache_of c)"

lemma num_elements_at_level_size:
  "valid_config c \<Longrightarrow> level < num_levels c \<Longrightarrow> b \<le> amp_of c \<Longrightarrow> num_elements_at c level b = Inr (level_size c level b)"
  using num_elements_at_ok [of c level b] by (simp add: level_size_def power_split amp_of_def mult.assoc)

lemma stash_less_cache: "valid_config c \<Longrightarrow> stash_size c < cache_of c"
  by (simp add: valid_config_def cache_of_def)

lemma level_size_bounds:
  assumes valid: "valid_config c" and level: "level < num_levels c" and b: "0 < b" "b \<le> amp_of c"
  shows "cache_of c \<le> level_size c level b" and "level_size c level b \<le> 2 ^ log_address_space_size c"
proof -
  have split: "amp_of c ^ k * cache_of c \<le> 2 ^ log_address_space_size c" if "k \<le> num_levels c - 1" for k
    unfolding bottom_size [OF valid] using that by (intro mult_le_mono1 power_increasing) (simp_all add: Suc_leI)
  show "cache_of c \<le> level_size c level b"
    using split [of 0] b(1) by (simp add: level_size_def Suc_leI)
  show "level_size c level b \<le> 2 ^ log_address_space_size c"
  proof (cases "level = num_levels c - 1")
    case False
    then have "Suc level \<le> num_levels c - 1" using level by simp
    then have "amp_of c * amp_of c ^ level * cache_of c \<le> 2 ^ log_address_space_size c"
      using split [of "Suc level"] by simp
    moreover have "b * (amp_of c ^ level * cache_of c) \<le> amp_of c * (amp_of c ^ level * cache_of c)"
      using b(2) by (rule mult_le_mono1)
    ultimately have "b * (amp_of c ^ level * cache_of c) \<le> 2 ^ log_address_space_size c"
      by (metis mult.assoc order_trans)
    then show ?thesis using False by (simp add: level_size_def mult.assoc)
  qed (simp add: level_size_def)
qed

lemma relabel_ok: "valid_config c \<Longrightarrow> len \<le> 2 ^ log_address_space_size c \<Longrightarrow> relabel_dummies_len c len = Inr len"
  using mapE_total [of "[0..<len]" "dummy_label c" "\<lambda>i. of_nat (2 ^ log_address_space_size c + i)"]
  by (simp add: relabel_dummies_len_def dummy_label_ok)

text \<open>What else holds of the parameters of a new table.\<close>

definition new_params_ok :: "doram_config \<Rightarrow> nat \<Rightarrow> nat \<Rightarrow> ohtable_params \<Rightarrow> bool" where
  "new_params_ok c level b p \<longleftrightarrow> oh_validate p = Inr () \<and> column_length c level b = Inr (oh_log_single_col_len p) \<and>
     oh_log_single_col_len p \<le> 33 \<and> oh_log_address_space_size p = log_address_space_size c"

definition built_level :: "doram_schedule \<Rightarrow> nat \<Rightarrow> nat \<Rightarrow> level_table \<Rightarrow> bool" where
  "built_level st level b t \<longleftrightarrow> level_ok (sch_config st) level b (lt_params t) \<and> lt_query_count t = 0 \<and> table_ok t \<and>
     lt_key t = [sch_draws st..<sch_draws st + ROUND_KEYS] \<and> new_params_ok (sch_config st) level b (lt_params t)"

text \<open>The parameters a level can get, the builds with them that succeed and those that fail.\<close>

definition level_params :: "doram_config \<Rightarrow> nat \<Rightarrow> nat \<Rightarrow> ohtable_params \<Rightarrow> bool" where
  "level_params c level b p \<longleftrightarrow> level_ok c level b p \<and> new_params_ok c level b p"

definition slots_ok :: "ohtable_params \<Rightarrow> nat list \<Rightarrow> bool" where
  "slots_ok p slots \<longleftrightarrow> distinct slots \<and> length slots = oh_stash_size p \<and> (\<forall>i \<in> set slots. i < oh_total_size p)"

definition builds_wf :: "run_data \<Rightarrow> doram_config \<Rightarrow> nat \<Rightarrow> nat \<Rightarrow> bool" where
  "builds_wf d c level b \<longleftrightarrow> (\<forall>p slots. level_params c level b p \<longrightarrow> rd_build d p = Inr slots \<longrightarrow> slots_ok p slots)"

definition level_error :: "run_data \<Rightarrow> doram_config \<Rightarrow> nat \<Rightarrow> nat \<Rightarrow> error \<Rightarrow> bool" where
  "level_error d c level b e \<longleftrightarrow> (\<exists>p. level_params c level b p \<and> rd_build d p = Inl e)"

lemma data_wf_builds: "data_wf d \<Longrightarrow> builds_wf d c level b"
  unfolding data_wf_def builds_wf_def slots_ok_def by blast

lemma level_error_build: "level_error d c level b e \<Longrightarrow> build_error d e"
  unfolding level_error_def level_params_def new_params_ok_def build_error_def by blast

lemma settles_build: "settles (level_error d c level b) Q r \<Longrightarrow> settles (build_error d) Q r"
  by (erule settles_mono) (erule level_error_build, assumption)

lemma table_new_settles:
  assumes wf: "\<And>slots. rd_build d p = Inr slots \<Longrightarrow> slots_ok p slots"
    and "oh_validate p = Inr ()" and "len = oh_num_elements p" and "length key = ROUND_KEYS"
  shows "settles (\<lambda>e. rd_build d p = Inl e)
    (\<lambda>t. lt_params t = p \<and> lt_key t = key \<and> lt_query_count t = 0 \<and> table_ok t) (table_new d p len key)"
proof (cases "rd_build d p")
  case (Inl e)
  then show ?thesis using assms(2-4) by (simp add: table_new_def)
next
  case (Inr slots)
  then have "distinct slots" "length slots = oh_stash_size p" "\<forall>i \<in> set slots. i < oh_total_size p"
    using wf [OF Inr] by (simp_all add: slots_ok_def)
  then obtain marks where "foldE mark_slot slots (replicate (oh_total_size p) False) = Inr marks"
    "length marks = oh_total_size p" "marked marks = oh_stash_size p"
    using mark_slots [of slots "replicate (oh_total_size p) False"] by auto
  then show ?thesis using assms Inr by (simp add: table_new_def table_ok_def)
qed

lemma new_ohtable_of_level_ok:
  assumes wf: "builds_wf d (sch_config st) level b" and valid: "valid_config (sch_config st)" and level: "level < num_levels (sch_config st)"
    and len: "length (sch_levels st) = num_levels (sch_config st)"
      "length (base_b_state_vec st) = num_levels (sch_config st)"
    and b: "b = (if level = num_levels (sch_config st) - 1 then 1 else base_b_state_vec st ! level + 1)"
      "level < num_levels (sch_config st) - 1 \<Longrightarrow> b < amp_of (sch_config st)"
  shows "settles (level_error d (sch_config st) level b) (\<lambda>st'. \<exists>t. st' = clear_keys (st\<lparr>sch_levels := (sch_levels st)[level := Some t],
      base_b_state_vec := (base_b_state_vec st)[level := b], sch_draws := sch_draws st + ROUND_KEYS\<rparr>) \<and>
      built_level st level b t)
    (new_ohtable_of_level d level (level_size (sch_config st) level b) st)"
proof -
  let ?c = "sch_config st" and ?A = "amp_of (sch_config st)" and ?C = "cache_of (sch_config st)"
  let ?len = "level_size ?c level b" and ?bottom = "num_levels (sch_config st) - 1"
  have lt: "level \<noteq> ?bottom \<Longrightarrow> level < ?bottom" using level by simp
  have bA: "0 < b" "b \<le> ?A" using b lt by (cases "level = ?bottom"; simp add: Suc_leI)+
  obtain l where l: "column_length ?c level b = Inr l" "l \<le> 33" "(b + 1) * (?A ^ level * ?C) \<le> 2 ^ l"
    using column_length_ok [OF valid level bA(1)] b lt unfolding power_split amp_of_def [symmetric]
    by (cases "level = ?bottom") auto
  have stash: "stash_size ?c \<le> ?len"
    using level_size_bounds(1) [OF valid level bA] stash_less_cache [OF valid] by simp
  let ?p = "\<lparr>oh_num_elements = ?len, oh_num_dummies = ?A ^ level * fill_of ?c, oh_stash_size = stash_size ?c,
    oh_log_single_col_len = l, oh_log_address_space_size = log_address_space_size ?c\<rparr>"
  have "?len \<le> b * (?A ^ level * ?C)"
    using b(1) bottom_size [OF valid] by (auto simp: level_size_def algebra_simps)
  moreover have "?A ^ level * fill_of ?c \<le> ?A ^ level * ?C"
    by (intro mult_le_mono2) (simp add: fill_of_def)
  moreover have "b * (?A ^ level * ?C) + ?A ^ level * ?C \<le> 2 ^ l" using l(3) by (simp add: add.commute)
  ultimately have "?len + ?A ^ level * fill_of ?c \<le> 2 * 2 ^ l" by linarith
  moreover have "shl_usize 2 l = Inr (2 * 2 ^ l)"
  proof (rule shl_usize_ok)
    have "(2::nat) ^ l \<le> 2 ^ 33" using l(2) by (rule power_increasing) simp
    then show "2 * 2 ^ l < (2 :: nat) ^ 64" by simp
  qed (use l(2) in simp)
  ultimately have validate: "oh_validate ?p = Inr ()"
    using stash by (simp add: oh_validate_def cht_full_table_length_def oh_total_size_def)
  have params: "new_params_ok ?c level b ?p" using validate l(1,2) by (simp add: new_params_ok_def)
  then have lp: "level_params ?c level b ?p" by (simp add: level_params_def level_ok_def level_size_def)
  have d: "num_dummies ?c level = Inr (?A ^ level * fill_of ?c)"
    using num_dummies_ok [OF valid level] by (simp add: amp_of_def fill_of_def cache_of_def)
  have amp: "amp_factor ?c = Inr ?A" using amp_factor_ok [OF valid] by (simp add: amp_of_def)
  have b': "(if level = ?bottom then Inr 1
      else checkE (base_b_state_vec st ! level + 1 < ?A) (Panic ''base_b_state_vec[level] < amp_factor'')
        (Inr (base_b_state_vec st ! level + 1))) = Inr b"
    using b lt by auto
  have b'': "(if level = ?bottom then 1 else b) = b" using b by simp
  let ?key = "[sch_draws st..<sch_draws st + ROUND_KEYS]"
  have run: "new_ohtable_of_level d level ?len st = bindE (table_new d ?p ?len ?key) (\<lambda>t. Inr (clear_keys (st\<lparr>
      sch_levels := (sch_levels st)[level := Some t],
      base_b_state_vec := (base_b_state_vec st)[level := b], sch_draws := sch_draws st + ROUND_KEYS\<rparr>)))"
    unfolding new_ohtable_of_level_def Let_def using level stash len
    by (simp only: checkE_True getE_ok bindE_simps amp b' b'' setE_ok l(1) d)
  have "settles (\<lambda>e. rd_build d ?p = Inl e) (\<lambda>t. lt_params t = ?p \<and> lt_key t = ?key \<and> lt_query_count t = 0 \<and> table_ok t)
      (table_new d ?p ?len ?key)"
    using wf lp validate unfolding builds_wf_def by (intro table_new_settles) simp_all
  then have "settles (level_error d ?c level b) (\<lambda>t. lt_params t = ?p \<and> lt_key t = ?key \<and> lt_query_count t = 0 \<and> table_ok t)
      (table_new d ?p ?len ?key)"
    by (rule settles_mono) (use lp in \<open>auto simp: level_error_def\<close>)
  then show ?thesis unfolding run
    by (rule settles_bindE) (use params in \<open>auto simp: built_level_def level_ok_def level_size_def\<close>)
qed

section \<open>A rebuild of a full cache\<close>

lemma extract_level_ok:
  assumes ok: "schedule_ok st" and full: "sch_num_stored st = sch_length st"
    and i: "i \<le> rebuild_level st" "base_b_state_vec st ! i \<noteq> 0"
  shows "extract_level i st offset = Inr (offset + level_size (sch_config st) i (base_b_state_vec st ! i))"
proof -
  let ?c = "sch_config st" and ?b = "base_b_state_vec st ! i"
  have valid: "valid_config ?c" and len: "length (sch_levels st) = num_levels ?c"
    "length (base_b_state_vec st) = num_levels ?c"
    using ok by (simp_all add: schedule_ok_def Let_def)
  have iL: "i < num_levels ?c" using rebuild_level_props(1) [OF ok] i(1) by simp
  have "\<forall>i < num_levels ?c - 1. base_b_state_vec st ! i < amp_of ?c"
    "base_b_state_vec st ! (num_levels ?c - 1) \<le> 1"
    using ok by (simp_all add: schedule_ok_def Let_def)
  then have bA: "?b \<le> amp_of ?c"
    using iL amp_pos(1) [of ?c] by (cases "i = num_levels ?c - 1") (auto simp: Suc_leI intro: order_trans less_imp_le)
  obtain t where t: "sch_levels st ! i = Some t" "level_ok ?c i ?b (lt_params t)"
    using ok i(2) iL by (fastforce simp: schedule_ok_def Let_def)
  have tok: "table_ok t" using table_ok_level [OF ok _ t(1)] iL by simp
  have size: "oh_num_elements (lt_params t) = level_size ?c i ?b" "oh_stash_size (lt_params t) = stash_size ?c"
    using t(2) by (simp_all add: level_ok_def level_size_def)
  have "extract_len t = Inr (level_size ?c i ?b - stash_size ?c)"
    using extract_len_ok [OF tok] spent_exactly [OF ok full t(1) i(1)] size by simp
  then show ?thesis
    using t(1) iL len num_elements_at_level_size [OF valid iL bA] by (simp add: extract_level_def)
qed

lemma extract_below:
  assumes ok: "schedule_ok st" and full: "sch_num_stored st = sch_length st"
  shows "m \<le> rebuild_level st \<Longrightarrow>
    foldE (\<lambda>level. extract_level level st) [0..<m] (sch_length st) =
      Inr (amp_of (sch_config st) ^ m * cache_of (sch_config st))"
proof (induction m)
  case 0
  then show ?case using ok by (simp add: schedule_ok_def Let_def)
next
  case (Suc m)
  let ?c = "sch_config st" and ?A = "amp_of (sch_config st)" and ?C = "cache_of (sch_config st)"
  have m: "m \<le> rebuild_level st" "m < num_levels ?c - 1" "base_b_state_vec st ! m = ?A - 1"
    using Suc.prems rebuild_level_props(1,2) [OF ok] by simp_all
  have IH: "foldE (\<lambda>level. extract_level level st) [0..<Suc m] (sch_length st) =
      extract_level m st (?A ^ m * ?C)"
    using Suc.IH m(1) by (simp add: foldE_append cong: bindE_cong)
  show ?case
  proof (cases "?A = 1")
    case True
    then have "sch_levels st ! m = None" "length (sch_levels st) = num_levels ?c"
      using ok m by (auto simp: schedule_ok_def Let_def)
    then show ?thesis unfolding IH using m(2) True by (simp add: extract_level_def)
  next
    case False
    then have "1 < ?A" using amp_pos(1) [of ?c] by linarith
    then have "base_b_state_vec st ! m \<noteq> 0" using m(3) by simp
    then have "foldE (\<lambda>level. extract_level level st) [0..<Suc m] (sch_length st) =
        Inr (?A ^ m * ?C + (?A - 1) * ?A ^ m * ?C)"
      unfolding IH extract_level_ok [OF ok full m(1) \<open>_ \<noteq> 0\<close>] using m by (simp add: level_size_def)
    moreover have "?A ^ m * ?C + (?A - 1) * ?A ^ m * ?C = ?A ^ Suc m * ?C"
      using amp_pos(1) [of ?c] by (cases ?A) (simp_all add: algebra_simps)
    ultimately show ?thesis by simp
  qed
qed

text \<open>The number of entries a rebuild collects, and that it fills the new level exactly.\<close>

lemma extract_all_ok:
  assumes ok: "schedule_ok st" and full: "sch_num_stored st = sch_length st"
  defines "r \<equiv> rebuild_level st" and "c \<equiv> sch_config st"
  shows "extract_all (r + (if sch_levels st ! r \<noteq> None then 1 else 0)) st = Inr (amp_of c ^ r * cache_of c +
    (if base_b_state_vec st ! r = 0 then 0 else level_size c r (base_b_state_vec st ! r)))"
proof -
  have none: "sch_levels st ! r = None \<longleftrightarrow> base_b_state_vec st ! r = 0"
    using ok rebuild_level_props(1) [OF ok] by (simp add: schedule_ok_def Let_def r_def)
  have below: "foldE (\<lambda>level. extract_level level st) [0..<r] (sch_length st) = Inr (amp_of c ^ r * cache_of c)"
    using extract_below [OF ok full order_refl] by (simp add: r_def c_def)
  show ?thesis
  proof (cases "base_b_state_vec st ! r = 0")
    case True
    then show ?thesis using none below full by (simp add: extract_all_def)
  next
    case False
    then have "extract_level r st (amp_of c ^ r * cache_of c) =
        Inr (amp_of c ^ r * cache_of c + level_size c r (base_b_state_vec st ! r))"
      using extract_level_ok [OF ok full] by (simp add: r_def c_def)
    then show ?thesis using False none below full by (simp add: extract_all_def foldE_append)
  qed
qed

lemma delete_levels_ok:
  assumes valid: "valid_config (sch_config st)" and len: "length (sch_levels st) = num_levels (sch_config st)"
      "length (base_b_state_vec st) = num_levels (sch_config st)"
    and full: "\<And>j. j < m \<Longrightarrow> base_b_state_vec st ! j = amp_of (sch_config st) - 1"
    and m: "m < num_levels (sch_config st)"
  shows "\<exists>st'. foldE delete_level [0..<m] st = Inr st' \<and>
    clear_keys st' = clear_keys (st\<lparr>
      sch_levels := map (\<lambda>i. if i < m then None else sch_levels st ! i) [0..<num_levels (sch_config st)],
      base_b_state_vec := map (\<lambda>i. if i < m then 0 else base_b_state_vec st ! i) [0..<num_levels (sch_config st)]\<rparr>)"
  using full m
proof (induction m)
  case 0
  have "map ((!) (sch_levels st)) [0..<num_levels (sch_config st)] = sch_levels st"
    "map ((!) (base_b_state_vec st)) [0..<num_levels (sch_config st)] = base_b_state_vec st"
    using len by (metis map_nth)+
  then show ?case by simp
next
  case (Suc m)
  let ?L = "num_levels (sch_config st)"
  obtain st' where st': "foldE delete_level [0..<m] st = Inr st'"
    "clear_keys st' = clear_keys (st\<lparr>
      sch_levels := map (\<lambda>i. if i < m then None else sch_levels st ! i) [0..<?L],
      base_b_state_vec := map (\<lambda>i. if i < m then 0 else base_b_state_vec st ! i) [0..<?L]\<rparr>)"
    using Suc by auto
  have sel: "sch_levels st' = map (\<lambda>i. if i < m then None else sch_levels st ! i) [0..<?L]"
    "base_b_state_vec st' = map (\<lambda>i. if i < m then 0 else base_b_state_vec st ! i) [0..<?L]"
    "sch_config st' = sch_config st"
    using arg_cong [OF st'(2), of sch_levels] arg_cong [OF st'(2), of base_b_state_vec]
      arg_cong [OF st'(2), of sch_config] by (simp_all add: clear_keys_def)
  have amp: "amp_factor (sch_config st) = Inr (amp_of (sch_config st))"
    using amp_factor_ok [OF valid] by (simp add: amp_of_def)
  have upd: "(map (\<lambda>i. if i < m then z else f i) [0..<?L])[m := z] = map (\<lambda>i. if i < Suc m then z else f i) [0..<?L]"
    for z and f :: "nat \<Rightarrow> 'b" using Suc.prems(2) by (intro nth_equalityI) (auto simp: nth_list_update less_Suc_eq)
  let ?st = "clear_keys (st'\<lparr>sch_levels := (sch_levels st')[m := None],
    base_b_state_vec := (base_b_state_vec st')[m := 0]\<rparr>)"
  have "delete_level m st' = Inr ?st"
    using Suc.prems by (simp add: delete_level_def sel amp Let_def clear_keys_def)
  then have "foldE delete_level [0..<Suc m] st = Inr ?st" using st'(1) by (simp add: foldE_append)
  moreover have "clear_keys ?st = clear_keys (st\<lparr>
      sch_levels := map (\<lambda>i. if i < Suc m then None else sch_levels st ! i) [0..<?L],
      base_b_state_vec := map (\<lambda>i. if i < Suc m then 0 else base_b_state_vec st ! i) [0..<?L]\<rparr>)"
    using st'(2) unfolding sel upd by (cases st; cases st') (simp add: clear_keys_def)
  ultimately show ?case by blast
qed

lemma next_power_of_two_ge: "n \<le> next_power_of_two n"
proof (cases "n \<le> 1")
  case False
  then have "n - 1 < 2 * 2 ^ floor_log2 (n - 1)" using floor_log2_bounds [of "n - 1"] by simp
  then show ?thesis using False by (simp add: next_power_of_two_def)
qed (simp add: next_power_of_two_def)

lemma finalize_bottom_ok:
  assumes valid: "valid_config (sch_config st)" and len: "2 ^ log_address_space_size (sch_config st) \<le> len"
  shows "settles (reals_error d st) (\<lambda>len'. len' = 2 ^ log_address_space_size (sch_config st)) (finalize_bottom_len d st len)"
proof (cases "had_initial_bottom_level st")
  case True
  then show ?thesis
    using len by (simp add: finalize_bottom_len_def bottom_num_elements_ok [OF valid] reals_error_def good_reals_def checkE_def)
next
  case False
  have "min (next_power_of_two len) (2 ^ log_address_space_size (sch_config st)) =
      2 ^ log_address_space_size (sch_config st)"
    using next_power_of_two_ge [of len] len by simp
  then show ?thesis
    using False by (simp add: finalize_bottom_len_def bottom_num_elements_ok [OF valid] relabel_ok [OF valid])
qed

text \<open>The digits after a rebuild.\<close>

definition rebuilt_digits :: "doram_schedule \<Rightarrow> nat list" where
  "rebuilt_digits st = (let r = rebuild_level st; L = num_levels (sch_config st); bs = base_b_state_vec st
     in map (\<lambda>i. if i < r then 0 else if i = r then (if r = L - 1 then 1 else bs ! r + 1) else bs ! i) [0..<L])"

definition rebuilt :: "doram_schedule \<Rightarrow> level_table \<Rightarrow> doram_schedule" where
  "rebuilt st t = clear_keys (st\<lparr>sch_num_stored := stash_size (sch_config st),
     sch_levels := map (\<lambda>i. if i < rebuild_level st then None else if i = rebuild_level st then Some t
       else sch_levels st ! i) [0..<num_levels (sch_config st)],
     base_b_state_vec := rebuilt_digits st, sch_draws := sch_draws st + ROUND_KEYS\<rparr>)"

lemma clear_keys_delete_level:
  "delete_level level st = Inr st' \<Longrightarrow> clear_keys st' = st'"
  by (auto simp: delete_level_def bindE_eq_Inr Let_def clear_keys_def split: if_splits)

text \<open>Deleting the old levels, creating the new one and writing its stash to the cache.\<close>

definition rebuilt_digit :: "doram_schedule \<Rightarrow> nat" where
  "rebuilt_digit st = (if rebuild_level st = num_levels (sch_config st) - 1 then 1 else base_b_state_vec st ! rebuild_level st + 1)"

lemma rebuilt_digit_bounds:
  assumes ok: "schedule_ok st"
  shows "rebuild_level st < num_levels (sch_config st) - 1 \<Longrightarrow> rebuilt_digit st < amp_of (sch_config st)"
    and "rebuilt_digit st \<le> amp_of (sch_config st)" "0 < rebuilt_digit st"
proof -
  show lt: "rebuild_level st < num_levels (sch_config st) - 1 \<Longrightarrow> rebuilt_digit st < amp_of (sch_config st)"
    using rebuild_level_props(3) [OF ok] by (simp add: rebuilt_digit_def)
  have "rebuild_level st = num_levels (sch_config st) - 1 \<or> rebuild_level st < num_levels (sch_config st) - 1"
    using rebuild_level_props(1) [OF ok] by linarith
  then show "rebuilt_digit st \<le> amp_of (sch_config st)" "0 < rebuilt_digit st"
    using lt by (auto simp: rebuilt_digit_def Suc_leI)
qed

lemma rebuild_steps:
  assumes ok: "schedule_ok st" and full: "sch_num_stored st = sch_length st"
    and wf: "builds_wf d (sch_config st) (rebuild_level st) (rebuilt_digit st)"
  defines "r \<equiv> rebuild_level st" and "c \<equiv> sch_config st" and "b \<equiv> rebuilt_digit st"
  shows "\<exists>st2 st3. foldE delete_level [0..<r] (st\<lparr>sch_length := cache_of c, sch_num_stored := 0\<rparr>) = Inr st2 \<and>
    (if sch_levels st ! r \<noteq> None then delete_level r st2 else Inr st2) = Inr st3 \<and>
    settles (level_error d c r b) (\<lambda>st4. \<exists>t. sch_levels st4 ! r = Some t \<and> r < length (sch_levels st4) \<and>
      insert_stash r st4 = Inr (rebuilt st t) \<and> built_level st r b t) (new_ohtable_of_level d r (level_size c r b) st3)"
proof -
  let ?c = "sch_config st" and ?r = "rebuild_level st" and ?bs = "base_b_state_vec st"
  let ?A = "amp_of (sch_config st)" and ?C = "cache_of (sch_config st)" and ?L = "num_levels (sch_config st)"
  have valid: "valid_config ?c" and len: "length (sch_levels st) = ?L" "length ?bs = ?L" "sch_length st = ?C"
    using ok by (simp_all add: schedule_ok_def Let_def)
  note r = rebuild_level_props [OF ok] and bA = rebuilt_digit_bounds(1) [OF ok, folded b_def]
  let ?st1 = "st\<lparr>sch_length := ?C, sch_num_stored := 0\<rparr>"
  have s1: "sch_levels ?st1 = sch_levels st" "base_b_state_vec ?st1 = ?bs" "sch_config ?st1 = ?c"
    by simp_all
  have "\<exists>st2. foldE delete_level [0..<?r] ?st1 = Inr st2 \<and> clear_keys st2 = clear_keys (?st1\<lparr>
      sch_levels := map (\<lambda>i. if i < ?r then None else sch_levels st ! i) [0..<?L],
      base_b_state_vec := map (\<lambda>i. if i < ?r then 0 else ?bs ! i) [0..<?L]\<rparr>)"
    using delete_levels_ok [of ?st1 ?r, unfolded s1] valid len r(1,2) by blast
  then obtain st2 where st2: "foldE delete_level [0..<?r] ?st1 = Inr st2"
    "clear_keys st2 = clear_keys (?st1\<lparr>
      sch_levels := map (\<lambda>i. if i < ?r then None else sch_levels st ! i) [0..<?L],
      base_b_state_vec := map (\<lambda>i. if i < ?r then 0 else ?bs ! i) [0..<?L]\<rparr>)"
    by (elim exE conjE)
  have sel2: "sch_levels st2 = map (\<lambda>i. if i < ?r then None else sch_levels st ! i) [0..<?L]"
    "base_b_state_vec st2 = map (\<lambda>i. if i < ?r then 0 else ?bs ! i) [0..<?L]" "sch_config st2 = ?c"
    using arg_cong [OF st2(2), of sch_levels] arg_cong [OF st2(2), of base_b_state_vec]
      arg_cong [OF st2(2), of sch_config] by (simp_all add: clear_keys_def)
  have amp: "amp_factor ?c = Inr ?A" using amp_factor_ok [OF valid] by (simp add: amp_of_def)
  define st3 where "st3 = (if sch_levels st ! ?r \<noteq> None
    then clear_keys (st2\<lparr>sch_levels := (sch_levels st2)[?r := None]\<rparr>) else st2)"
  have del: "(if sch_levels st ! ?r \<noteq> None then delete_level ?r st2 else Inr st2) = Inr st3"
    using r(1,3) by (auto simp: st3_def delete_level_def sel2 amp Let_def)
  have sel3: "sch_config st3 = ?c" "length (sch_levels st3) = ?L"
    "base_b_state_vec st3 = map (\<lambda>i. if i < ?r then 0 else ?bs ! i) [0..<?L]"
    by (simp_all add: st3_def clear_keys_def sel2)
  have b3: "b = (if ?r = ?L - 1 then 1 else base_b_state_vec st3 ! ?r + 1)"
    using r(1) by (simp add: b_def rebuilt_digit_def sel3)
  let ?st4 = "\<lambda>t. clear_keys (st3\<lparr>sch_levels := (sch_levels st3)[?r := Some t],
    base_b_state_vec := (base_b_state_vec st3)[?r := b], sch_draws := sch_draws st3 + ROUND_KEYS\<rparr>)"
  have new: "settles (level_error d ?c ?r b) (\<lambda>st4. \<exists>t. st4 = ?st4 t \<and> built_level st3 ?r b t)
      (new_ohtable_of_level d ?r (level_size ?c ?r b) st3)"
    using new_ohtable_of_level_ok [of d st3 ?r b] wf valid r(1) sel3 b3 bA by (simp add: c_def r_def b_def)
  have digits: "rebuilt_digits st = (base_b_state_vec st3)[?r := b]"
    unfolding sel3 using r(1)
    by (intro nth_equalityI) (auto simp: rebuilt_digits_def Let_def b_def rebuilt_digit_def nth_list_update)
  have levels: "(sch_levels st3)[?r := Some t] = map (\<lambda>i. if i < ?r then None else if i = ?r then Some t
      else sch_levels st ! i) [0..<?L]" for t
    using r(1) by (intro nth_equalityI) (auto simp: st3_def clear_keys_def sel2 nth_list_update)
  have rest: "sch_num_stored st3 = 0" "sch_length st3 = ?C" "had_initial_bottom_level st3 = had_initial_bottom_level st"
      "sch_draws st3 = sch_draws st"
    using arg_cong [OF st2(2), of sch_num_stored] arg_cong [OF st2(2), of sch_length]
      arg_cong [OF st2(2), of had_initial_bottom_level] arg_cong [OF st2(2), of sch_draws]
    by (simp_all add: st3_def clear_keys_def)
  have done4: "sch_levels (?st4 t) ! ?r = Some t \<and> ?r < length (sch_levels (?st4 t)) \<and>
      insert_stash ?r (?st4 t) = Inr (rebuilt st t) \<and> built_level st ?r b t" if t: "built_level st3 ?r b t" for t
  proof -
    have params: "oh_stash_size (lt_params t) = stash_size ?c" using t sel3 by (simp add: built_level_def level_ok_def)
    have "insert_stash ?r (?st4 t) = Inr ((?st4 t)\<lparr>sch_num_stored := stash_size ?c\<rparr>)"
      using r(1) sel3 params rest stash_less_cache [OF valid]
      by (simp add: insert_stash_def cache_write_def clear_keys_def)
    also have "(?st4 t)\<lparr>sch_num_stored := stash_size ?c\<rparr> = rebuilt st t"
      unfolding rebuilt_def digits levels using rest sel3 len(3)
      by (cases st3; cases st) (simp add: clear_keys_def)
    finally show ?thesis using t r(1) sel3 rest by (simp add: clear_keys_def built_level_def)
  qed
  have "settles (level_error d ?c ?r b) (\<lambda>st4. \<exists>t. sch_levels st4 ! ?r = Some t \<and> ?r < length (sch_levels st4) \<and>
      insert_stash ?r st4 = Inr (rebuilt st t) \<and> built_level st ?r b t) (new_ohtable_of_level d ?r (level_size ?c ?r b) st3)"
    using new by (rule settles_mono) (use done4 in blast)+
  then show ?thesis using st2(1) del unfolding r_def c_def by blast
qed

lemma rebuilt_digits_target: "schedule_ok st \<Longrightarrow> rebuilt_digits st ! rebuild_level st = rebuilt_digit st"
  using rebuild_level_props(1) [of st] by (simp add: rebuilt_digits_def rebuilt_digit_def Let_def)

text \<open>The rebuild, once the old levels are known to be deleted.\<close>

lemma dr_rebuild_run:
  assumes ok: "schedule_ok st" and full: "sch_num_stored st = sch_length st"
  defines "r \<equiv> rebuild_level st" and "c \<equiv> sch_config st"
  assumes steps: "foldE delete_level [0..<r] (st\<lparr>sch_length := cache_of c, sch_num_stored := 0\<rparr>) = Inr st2"
    "(if sch_levels st ! r \<noteq> None then delete_level r st2 else Inr st2) = Inr st3"
  shows "\<exists>lens. settles (reals_error d st) (\<lambda>len. len = level_size c r (rebuilt_digit st)) lens \<and>
    dr_rebuild d st = bindE lens (\<lambda>len. bindE (new_ohtable_of_level d r len st3) (insert_stash r))"
proof -
  let ?c = "sch_config st" and ?r = "rebuild_level st" and ?bs = "base_b_state_vec st"
  let ?A = "amp_of (sch_config st)" and ?C = "cache_of (sch_config st)" and ?L = "num_levels (sch_config st)"
  define b where "b = rebuilt_digit st"
  have valid: "valid_config ?c" and len: "length (sch_levels st) = ?L" "length ?bs = ?L" "sch_length st = ?C"
    using ok by (simp_all add: schedule_ok_def Let_def)
  note rl = rebuild_level_props [OF ok]
  note b_le = rebuilt_digit_bounds(2,3) [OF ok, folded b_def]
  define len0 where "len0 = ?A ^ ?r * ?C + (if ?bs ! ?r = 0 then 0 else level_size ?c ?r (?bs ! ?r))"
  define new_len where "new_len = level_size ?c ?r b"
  have collected: "extract_all (?r + (if sch_levels st ! ?r \<noteq> None then 1 else 0)) st = Inr len0"
    unfolding len0_def by (rule extract_all_ok [OF ok full])
  have pos: "len0 \<noteq> 0" using amp_pos by (simp add: len0_def)
  have size_le: "new_len \<le> 2 ^ log_address_space_size ?c"
    unfolding new_len_def using level_size_bounds(2) [OF valid rl(1) b_le(2,1)] .
  let ?st1 = "st\<lparr>sch_length := ?C, sch_num_stored := 0\<rparr>"
  have cache: "cache_new st = Inr ?st1"
    using speed_cache_size_ok [OF valid] by (simp add: cache_new_def cache_of_def)
  let ?lens = "if ?r = ?L - 1 then finalize_bottom_len d ?st1 len0
      else bindE (getE ?bs ?r) (\<lambda>b. bindE (num_elements_at ?c ?r (b + 1)) (\<lambda>target.
        checkE (len0 = target) (Panic ''extracted_xs.len() == target_num_elements'')
          (relabel_dummies_len ?c len0)))"
  have "settles (reals_error d st) (\<lambda>len. len = new_len) ?lens"
  proof (cases "?r = ?L - 1")
    case True
    then have "2 ^ log_address_space_size ?c \<le> len0"
      unfolding bottom_size [OF valid] by (simp add: len0_def)
    then have "settles (reals_error d ?st1) (\<lambda>len. len = 2 ^ log_address_space_size ?c) (finalize_bottom_len d ?st1 len0)"
      using finalize_bottom_ok [of ?st1 len0 d] valid by simp
    then show ?thesis
      using True reals_error_cong [of ?st1 st d] by (auto elim!: settles_mono simp: new_len_def level_size_def)
  next
    case False
    then have "len0 = new_len" by (simp add: len0_def new_len_def level_size_def b_def rebuilt_digit_def algebra_simps)
    moreover have "num_elements_at ?c ?r (?bs ! ?r + 1) = Inr new_len"
      using num_elements_at_level_size [OF valid rl(1) b_le(1)] False by (simp add: new_len_def b_def rebuilt_digit_def)
    ultimately show ?thesis
      using False rl(1) len relabel_ok [OF valid size_le] by simp
  qed
  moreover have s1: "sch_levels ?st1 = sch_levels st" "base_b_state_vec ?st1 = ?bs" "sch_config ?st1 = ?c"
    by simp_all
  have "dr_rebuild d st = bindE ?lens (\<lambda>len. bindE (new_ohtable_of_level d ?r len st3) (insert_stash ?r))"
    unfolding dr_rebuild_def rebuild_target_eq [OF ok]
    by (simp only: bindE_simps prod.case collected cache checkE_True [OF pos] s1 steps [unfolded r_def c_def])
  ultimately show ?thesis unfolding new_len_def b_def r_def c_def by blast
qed

lemma dr_rebuild_eq:
  assumes wf: "data_wf d" and ok: "schedule_ok st" and full: "sch_num_stored st = sch_length st"
  shows "settles (\<lambda>e. build_error d e \<or> reals_error d st e)
    (\<lambda>st'. \<exists>t. st' = rebuilt st t \<and> built_level st (rebuild_level st) (rebuilt_digit st) t) (dr_rebuild d st)"
proof -
  let ?c = "sch_config st" and ?r = "rebuild_level st" and ?b = "rebuilt_digit st"
  obtain st2 st3 where steps: "foldE delete_level [0..<?r] (st\<lparr>sch_length := cache_of ?c, sch_num_stored := 0\<rparr>) = Inr st2"
    "(if sch_levels st ! ?r \<noteq> None then delete_level ?r st2 else Inr st2) = Inr st3"
    and new: "settles (build_error d) (\<lambda>st4. \<exists>t. sch_levels st4 ! ?r = Some t \<and> ?r < length (sch_levels st4) \<and>
      insert_stash ?r st4 = Inr (rebuilt st t) \<and> built_level st ?r ?b t) (new_ohtable_of_level d ?r (level_size ?c ?r ?b) st3)"
    using rebuild_steps [OF ok full data_wf_builds [OF wf]] settles_build by blast
  obtain lens where lens: "settles (reals_error d st) (\<lambda>len. len = level_size ?c ?r ?b) lens"
    and run: "dr_rebuild d st = bindE lens (\<lambda>len. bindE (new_ohtable_of_level d ?r len st3) (insert_stash ?r))"
    using dr_rebuild_run [OF ok full steps] by blast
  show ?thesis
    unfolding run
  proof (rule settles_bindE [OF settles_mono [OF lens]])
    show "settles (\<lambda>e. build_error d e \<or> reals_error d st e) (\<lambda>st'. \<exists>t. st' = rebuilt st t \<and> built_level st ?r ?b t)
        (bindE (new_ohtable_of_level d ?r len st3) (insert_stash ?r))" if "len = level_size ?c ?r ?b" for len
      unfolding that by (rule settles_bindE [OF settles_mono [OF new]]) auto
  qed simp_all
qed

lemma rebuilt_digits_nth:
  assumes "i < num_levels (sch_config st)"
  shows "rebuilt_digits st ! i = (if i < rebuild_level st then 0
    else if i = rebuild_level st then (if i = num_levels (sch_config st) - 1 then 1 else base_b_state_vec st ! i + 1)
    else base_b_state_vec st ! i)"
  using assms by (simp add: rebuilt_digits_def Let_def)

text \<open>The keys after a rebuild: the new one, then those of the levels that were kept.\<close>

lemma rebuilt_keys:
  assumes "rebuild_level st < length (sch_levels st)" and "length (sch_levels st) = num_levels (sch_config st)"
  shows "live_keys (rebuilt st t) = lt_key t # map (lt_key \<circ> the) (filter (\<lambda>t. t \<noteq> None) (drop (Suc (rebuild_level st)) (sch_levels st)))"
    and "live_keys st = map (lt_key \<circ> the) (filter (\<lambda>t. t \<noteq> None) (take (Suc (rebuild_level st)) (sch_levels st))) @
      map (lt_key \<circ> the) (filter (\<lambda>t. t \<noteq> None) (drop (Suc (rebuild_level st)) (sch_levels st)))"
proof -
  let ?r = "rebuild_level st" and ?L = "num_levels (sch_config st)"
  have "map (\<lambda>i. if i < ?r then None else if i = ?r then Some t else sch_levels st ! i) [0..<?L] =
      replicate ?r None @ Some t # drop (Suc ?r) (sch_levels st)"
    using assms by (intro nth_equalityI) (auto simp: nth_append nth_Cons' min_def)
  then show "live_keys (rebuilt st t) = lt_key t # map (lt_key \<circ> the) (filter (\<lambda>t. t \<noteq> None) (drop (Suc ?r) (sch_levels st)))"
    by (simp add: live_keys_eq rebuilt_def clear_keys_def)
  show "live_keys st = map (lt_key \<circ> the) (filter (\<lambda>t. t \<noteq> None) (take (Suc ?r) (sch_levels st))) @
      map (lt_key \<circ> the) (filter (\<lambda>t. t \<noteq> None) (drop (Suc ?r) (sch_levels st)))"
    unfolding live_keys_eq map_append [symmetric] filter_append [symmetric] by simp
qed

lemma rebuilt_ok:
  assumes ok: "schedule_ok st" and full: "sch_num_stored st = sch_length st"
    and t: "built_level st (rebuild_level st) (rebuilt_digit st) t"
  shows "schedule_ok (rebuilt st t)"
proof -
  let ?c = "sch_config st" and ?r = "rebuild_level st" and ?bs = "base_b_state_vec st"
  let ?A = "amp_of (sch_config st)" and ?C = "cache_of (sch_config st)" and ?L = "num_levels (sch_config st)"
  let ?ds = "rebuilt_digits st"
  note r = rebuild_level_props [OF ok]
  have o: "valid_config ?c" "0 < ?L" "sch_length st = ?C" "\<forall>i < ?L - 1. ?bs ! i < ?A" "?bs ! (?L - 1) \<le> 1"
    "\<forall>i < ?L. sch_levels st ! i = None \<longleftrightarrow> ?bs ! i = 0"
    "\<forall>i < ?L. \<forall>t. sch_levels st ! i = Some t \<longrightarrow> level_ok ?c i (?bs ! i) (lt_params t) \<and>
        lt_query_count t = fill_of ?c * counter_below ?bs ?A i + (sch_num_stored st - stash_size ?c)"
    "had_initial_bottom_level st \<longrightarrow> ?bs ! (?L - 1) = 1"
    "length (sch_levels st) = ?L" "\<forall>t. Some t \<in> set (sch_levels st) \<longrightarrow> table_ok t"
    using ok by (simp_all add: schedule_ok_def Let_def valid_config_def)
  have t: "lt_query_count t = 0" "level_ok ?c ?r (?ds ! ?r) (lt_params t)" "table_ok t"
    "lt_key t = [sch_draws st..<sch_draws st + ROUND_KEYS]"
    using t rebuilt_digits_target [OF ok] by (simp_all add: built_level_def)
  note d = rebuilt_digits_nth [of _ st]
  have sel: "sch_config (rebuilt st t) = ?c" "base_b_state_vec (rebuilt st t) = ?ds"
    "sch_num_stored (rebuilt st t) = stash_size ?c" "sch_length (rebuilt st t) = sch_length st"
    "packed_query_key (rebuilt st t) = None" "packed_batch_query_keys (rebuilt st t) = None"
    "had_initial_bottom_level (rebuilt st t) = had_initial_bottom_level st"
    "sch_draws (rebuilt st t) = sch_draws st + ROUND_KEYS"
    "length (sch_levels (rebuilt st t)) = ?L"
    by (simp_all add: rebuilt_def clear_keys_def)
  have lev: "sch_levels (rebuilt st t) ! i = (if i < ?r then None else if i = ?r then Some t
      else sch_levels st ! i)" if "i < ?L" for i
    using that by (simp add: rebuilt_def clear_keys_def)
  have "level_ok ?c i (?ds ! i) (lt_params t') \<and>
      lt_query_count t' = fill_of ?c * counter_below ?ds ?A i + (stash_size ?c - stash_size ?c)"
    if i: "i < ?L" and t': "sch_levels (rebuilt st t) ! i = Some t'" for i t'
  proof (cases "i = ?r")
    case True
    then have "counter_below ?ds ?A i = 0" using d r(1) by (intro counter_below_zero) simp
    then show ?thesis using True t lev [OF i] t' by simp
  next
    case False
    then have gt: "?r < i" "sch_levels st ! i = Some t'" "?ds ! i = ?bs ! i"
      using lev [OF i] t' d [OF i] by (auto split: if_splits)
    have nb: "?r \<noteq> ?L - 1" using gt(1) i by linarith
    then have "counter_below ?ds ?A i = counter_below ?bs ?A i + 1"
      using r(1) gt(1) i
    proof (intro counter_below_carry [OF r(2) amp_pos(1) _ _ _ gt(1)])
      show "\<And>j. j < ?r \<Longrightarrow> ?ds ! j = 0" "\<And>j. ?r < j \<Longrightarrow> j < i \<Longrightarrow> ?ds ! j = ?bs ! j"
        using d r(1) i gt(1) by simp_all
      show "?ds ! ?r = ?bs ! ?r + 1" using d [OF r(1)] nb by simp
    qed
    then show ?thesis using o(7) i gt(2,3) full o(3) by (simp add: fill_of_def)
  qed
  moreover have "?ds ! i < ?A" if "i < ?L - 1" for i
    using that d [of i] o(4) r(3) by auto
  moreover have "?ds ! (?L - 1) \<le> 1" "had_initial_bottom_level st \<longrightarrow> ?ds ! (?L - 1) = 1"
    using d [of "?L - 1"] o(2,5,8) r(1) by auto
  moreover have "sch_levels (rebuilt st t) ! i = None \<longleftrightarrow> ?ds ! i = 0" if "i < ?L" for i
    using lev [OF that] d [OF that] o(6) that by auto
  moreover have "length ?ds = ?L" by (simp add: rebuilt_digits_def Let_def)
  moreover have "table_ok t'" if "Some t' \<in> set (sch_levels (rebuilt st t))" for t'
    using that t(3) o(9,10) r(1) by (auto simp: rebuilt_def clear_keys_def split: if_splits)
  moreover have "distinct (concat (live_keys (rebuilt st t)))"
    "\<forall>k \<in> set (concat (live_keys (rebuilt st t))). k < sch_draws st + ROUND_KEYS"
  proof -
    have k: "distinct (concat (live_keys st))" "\<forall>k \<in> set (concat (live_keys st)). k < sch_draws st"
      using ok unfolding schedule_ok_def Let_def by blast+
    have len: "?r < length (sch_levels st)" using r(1) o(9) by simp
    define new old kept where "new = [sch_draws st..<sch_draws st + ROUND_KEYS]"
      and "old = concat (map (lt_key \<circ> the) (filter (\<lambda>t. t \<noteq> None) (take (Suc ?r) (sch_levels st))))"
      and "kept = concat (map (lt_key \<circ> the) (filter (\<lambda>t. t \<noteq> None) (drop (Suc ?r) (sch_levels st))))"
    have split: "concat (live_keys (rebuilt st t)) = new @ kept" "concat (live_keys st) = old @ kept"
      using rebuilt_keys [OF len o(9)] t(4) by (simp_all only: concat.simps concat_append new_def old_def kept_def)
    have "distinct new" "\<forall>k \<in> set new. sch_draws st \<le> k \<and> k < sch_draws st + ROUND_KEYS" by (auto simp: new_def)
    then show "distinct (concat (live_keys (rebuilt st t)))"
      "\<forall>k \<in> set (concat (live_keys (rebuilt st t))). k < sch_draws st + ROUND_KEYS"
      using k unfolding split distinct_append set_append by (blast dest: leD, auto intro: trans_less_add1)
  qed
  ultimately show ?thesis
    unfolding schedule_ok_def Let_def sel using o(1,3) stash_less_cache [OF o(1)] by simp
qed

text \<open>A step of the schedule keeps the invariant, the configuration and the mode.\<close>

definition step_ok :: "doram_schedule \<Rightarrow> doram_schedule \<Rightarrow> bool" where
  "step_ok st st' \<longleftrightarrow> schedule_ok st' \<and> sch_config st' = sch_config st \<and>
     had_initial_bottom_level st' = had_initial_bottom_level st"

lemma step_ok_error: "step_ok st st' \<Longrightarrow> data_error d st' e = data_error d st e"
  using data_error_cong [of st' st d] by (simp add: step_ok_def)

lemma dr_rebuild_ok:
  assumes wf: "data_wf d" and ok: "schedule_ok st" and full: "sch_num_stored st = sch_length st"
  shows "settles (\<lambda>e. build_error d e \<or> reals_error d st e) (\<lambda>st'. step_ok st st' \<and>
    sch_num_stored st' = stash_size (sch_config st) \<and> base_b_state_vec st' = rebuilt_digits st) (dr_rebuild d st)"
  using dr_rebuild_eq [OF assms] rebuilt_ok [OF ok full]
  by (auto elim!: settles_mono simp: step_ok_def rebuilt_def clear_keys_def)

section \<open>Accesses\<close>

text \<open>A table that has answered \<open>n\<close> more queries, each on an untouched slot.\<close>

definition queried :: "nat \<Rightarrow> level_table \<Rightarrow> level_table \<Rightarrow> bool" where
  "queried n t t' \<longleftrightarrow> lt_params t' = lt_params t \<and> lt_key t' = lt_key t \<and> lt_query_count t' = lt_query_count t + n \<and>
     length (lt_touched t') = length (lt_touched t) \<and> marked (lt_touched t') = marked (lt_touched t) + n"

lemma queried_table_ok: "queried n t t' \<Longrightarrow> table_ok t \<Longrightarrow> table_ok t'"
  by (simp add: queried_def table_ok_def)

lemma query_level_settles:
  assumes wf: "data_wf d" and m: "m < length (sch_levels st)" and t: "sch_levels st ! m = Some t" "table_ok t"
    and room: "lt_query_count t + n \<le> oh_num_dummies (lt_params t)" "oh_stash_size (lt_params t) \<le> oh_num_elements (lt_params t)"
  shows "settles (touch_error d) (\<lambda>st'. \<exists>t'. queried n t t' \<and> st' = st\<lparr>sch_levels := (sch_levels st)[m := Some t']\<rparr>)
    (query_level d n m st)"
proof -
  let ?slots = "rd_slots d m n t"
  have "n \<le> length (filter Not (lt_touched t))"
    using untouched_len [OF t(2)] room by (simp add: oh_total_size_def)
  then have slots: "length ?slots = n" "\<forall>i \<in> set ?slots. i < length (lt_touched t)"
    and fresh: "slots_fresh d \<Longrightarrow> distinct ?slots \<and> (\<forall>i \<in> set ?slots. \<not> lt_touched t ! i)"
    using wf unfolding data_wf_def slots_fresh_def by blast+
  have run: "query_level d n m st = bindE (foldE touch_mark ?slots (lt_touched t)) (\<lambda>touched.
      Inr (st\<lparr>sch_levels := (sch_levels st)[m := Some (t\<lparr>lt_query_count := lt_query_count t + n, lt_touched := touched\<rparr>)]\<rparr>))"
    using m t(1) room(1) by (simp add: query_level_def table_query_def bindE_assoc)
  show ?thesis
    unfolding run
  proof (rule settles_bindE [OF settles_mono [OF touch_marks [OF slots(2)]]])
    fix touched
    assume "length touched = length (lt_touched t) \<and> marked touched = marked (lt_touched t) + length ?slots"
    then show "settles (touch_error d) (\<lambda>st'. \<exists>t'. queried n t t' \<and> st' = st\<lparr>sch_levels := (sch_levels st)[m := Some t']\<rparr>)
        (Inr (st\<lparr>sch_levels := (sch_levels st)[m := Some (t\<lparr>lt_query_count := lt_query_count t + n, lt_touched := touched\<rparr>)]\<rparr>))"
      using slots(1)
      by (simp, intro exI [of _ "t\<lparr>lt_query_count := lt_query_count t + n, lt_touched := touched\<rparr>"]) (simp add: queried_def)
  qed (use fresh in \<open>auto simp: touch_error_def\<close>)
qed

text \<open>The levels once those below \<open>m\<close> have been queried.\<close>

definition queried_below :: "nat \<Rightarrow> nat \<Rightarrow> level_table option list \<Rightarrow> level_table option list \<Rightarrow> bool" where
  "queried_below n m old new \<longleftrightarrow> length new = length old \<and>
     (\<forall>i < length old. if i < m then rel_option (queried n) (old ! i) (new ! i) else new ! i = old ! i)"

lemma queried_below_0 [simp]: "queried_below n 0 old old"
  by (simp add: queried_below_def)

lemma queried_below_None: "queried_below n m old new \<Longrightarrow> old ! m = None \<Longrightarrow> queried_below n (Suc m) old new"
  by (auto simp: queried_below_def less_Suc_eq split: if_splits)

lemma queried_below_Some:
  "queried_below n m old new \<Longrightarrow> old ! m = Some t \<Longrightarrow> queried n t t' \<Longrightarrow> queried_below n (Suc m) old (new[m := Some t'])"
  by (auto simp: queried_below_def less_Suc_eq nth_list_update split: if_splits)

lemma queried_below_all:
  "queried_below n (length old) old new \<Longrightarrow> list_all2 (rel_option (queried n)) old new"
  by (simp add: queried_below_def list_all2_conv_all_nth)

lemma query_levels_below:
  assumes wf: "data_wf d" and m: "m \<le> length (sch_levels st)"
    and levels: "\<And>i t. i < length (sch_levels st) \<Longrightarrow> sch_levels st ! i = Some t \<Longrightarrow> table_ok t \<and>
      lt_query_count t + n \<le> oh_num_dummies (lt_params t) \<and> oh_stash_size (lt_params t) \<le> oh_num_elements (lt_params t)"
  shows "settles (touch_error d) (\<lambda>st'. \<exists>ls. st' = st\<lparr>sch_levels := ls\<rparr> \<and> queried_below n m (sch_levels st) ls)
    (foldE (query_level d n) (filter (\<lambda>i. sch_levels st ! i \<noteq> None) [0..<m]) st)"
  using m
proof (induction m)
  case 0
  show ?case by (auto intro!: exI [of _ "sch_levels st"])
next
  case (Suc m)
  let ?Q = "\<lambda>m st'. \<exists>ls. st' = st\<lparr>sch_levels := ls\<rparr> \<and> queried_below n m (sch_levels st) ls"
  have m: "m < length (sch_levels st)" using Suc.prems by simp
  have IH: "settles (touch_error d) (?Q m) (foldE (query_level d n) (filter (\<lambda>i. sch_levels st ! i \<noteq> None) [0..<m]) st)"
    using Suc by simp
  show ?case
  proof (cases "sch_levels st ! m")
    case None
    have "settles (touch_error d) (?Q (Suc m)) (foldE (query_level d n) (filter (\<lambda>i. sch_levels st ! i \<noteq> None) [0..<m]) st)"
      by (rule settles_mono [OF IH]) (blast intro: queried_below_None [OF _ None])+
    then show ?thesis using None by simp
  next
    case (Some t)
    have step: "settles (touch_error d) (?Q (Suc m)) (query_level d n m st')" if st': "?Q m st'" for st'
    proof -
      obtain ls where ls: "st' = st\<lparr>sch_levels := ls\<rparr>" "queried_below n m (sch_levels st) ls" using st' by blast
      have "settles (touch_error d) (\<lambda>st''. \<exists>t'. queried n t t' \<and> st'' = st'\<lparr>sch_levels := (sch_levels st')[m := Some t']\<rparr>)
          (query_level d n m st')"
        using levels [OF m Some] ls m Some by (intro query_level_settles [OF wf]) (auto simp: queried_below_def)
      then show ?thesis
        by (rule settles_mono) (use ls queried_below_Some [OF ls(2) Some] in auto)
    qed
    have nil: "foldE (query_level d n) [] = Inr" by (rule ext) simp
    have "foldE (query_level d n) (filter (\<lambda>i. sch_levels st ! i \<noteq> None) [0..<Suc m]) st =
        bindE (foldE (query_level d n) (filter (\<lambda>i. sch_levels st ! i \<noteq> None) [0..<m]) st) (query_level d n m)"
      using Some by (simp add: foldE_append nil)
    then show ?thesis using settles_bindE [OF IH step] by simp
  qed
qed

text \<open>The state after \<open>n\<close> queries of every live level and \<open>n\<close> entries written to the cache.\<close>

definition accessed :: "nat \<Rightarrow> doram_schedule \<Rightarrow> doram_schedule \<Rightarrow> bool" where
  "accessed n st st' \<longleftrightarrow> (\<exists>ls. st' = st\<lparr>sch_levels := ls, sch_num_stored := sch_num_stored st + n\<rparr> \<and>
     list_all2 (rel_option (queried n)) (sch_levels st) ls)"

lemma level_room:
  assumes ok: "schedule_ok st" and i: "i < num_levels (sch_config st)" and t: "sch_levels st ! i = Some t"
  shows "lt_query_count t + (cache_of (sch_config st) - sch_num_stored st) \<le> oh_num_dummies (lt_params t)"
    and "oh_stash_size (lt_params t) \<le> oh_num_elements (lt_params t)"
proof -
  let ?c = "sch_config st" and ?bs = "base_b_state_vec st" and ?A = "amp_of (sch_config st)"
  have o: "valid_config ?c" "sch_num_stored st \<le> cache_of ?c" "stash_size ?c \<le> sch_num_stored st"
    "\<forall>i < num_levels ?c - 1. ?bs ! i < ?A" "?bs ! (num_levels ?c - 1) \<le> 1"
    "\<forall>i < num_levels ?c. sch_levels st ! i = None \<longleftrightarrow> ?bs ! i = 0"
    "level_ok ?c i (?bs ! i) (lt_params t)"
    "lt_query_count t = fill_of ?c * counter_below ?bs ?A i + (sch_num_stored st - stash_size ?c)"
    using ok i t by (simp_all add: schedule_ok_def Let_def)
  have "counter_below ?bs ?A i < ?A ^ i" using o(4) i by (intro counter_below_bound) simp
  then have "fill_of ?c * (counter_below ?bs ?A i + 1) \<le> fill_of ?c * ?A ^ i" by (intro mult_le_mono2) simp
  moreover have "sch_num_stored st - stash_size ?c + (cache_of ?c - sch_num_stored st) = fill_of ?c"
    using o(2,3) by (simp add: fill_of_def)
  ultimately show "lt_query_count t + (cache_of ?c - sch_num_stored st) \<le> oh_num_dummies (lt_params t)"
    using o(7,8) by (simp add: level_ok_def algebra_simps)
  have "0 < ?bs ! i" using o(6) i t by (metis gr0I option.distinct(1))
  moreover have "i = num_levels ?c - 1 \<or> i < num_levels ?c - 1" using i by linarith
  then have "?bs ! i \<le> ?A" using o(4,5) amp_pos(1) [of ?c] by (auto simp: Suc_leI intro: less_imp_le order_trans)
  ultimately show "oh_stash_size (lt_params t) \<le> oh_num_elements (lt_params t)"
    using level_size_bounds(1) [OF o(1) i] stash_less_cache [OF o(1)] o(7)
    by (auto simp: level_ok_def level_size_def intro: order_trans less_imp_le)
qed

lemma access_levels:
  assumes wf: "data_wf d" and ok: "schedule_ok st" and room: "0 < n" "sch_num_stored st + n \<le> sch_length st"
  shows "settles (touch_error d) (accessed n st) (bindE (foldE (query_level d n) (live_levels st) st) (cache_write n))"
proof -
  have o: "length (sch_levels st) = num_levels (sch_config st)" "sch_length st = cache_of (sch_config st)"
    using ok by (simp_all add: schedule_ok_def Let_def)
  have "table_ok t \<and> lt_query_count t + n \<le> oh_num_dummies (lt_params t) \<and>
      oh_stash_size (lt_params t) \<le> oh_num_elements (lt_params t)"
    if "i < length (sch_levels st)" "sch_levels st ! i = Some t" for i t
    using that table_ok_level [OF ok, of i t] level_room [OF ok, of i t] room o by simp
  then have run: "settles (touch_error d) (\<lambda>st'. \<exists>ls. st' = st\<lparr>sch_levels := ls\<rparr> \<and>
      queried_below n (length (sch_levels st)) (sch_levels st) ls) (foldE (query_level d n) (live_levels st) st)"
    unfolding live_levels_def by (intro query_levels_below [OF wf]) auto
  show ?thesis
    by (rule settles_bindE [OF run])
       (use room queried_below_all in \<open>fastforce simp: cache_write_def accessed_def\<close>)
qed

lemma queried_live:
  assumes "list_all2 (rel_option (queried n)) (sch_levels st) ls"
  shows "live_keys (st\<lparr>sch_levels := ls, sch_num_stored := k\<rparr>) = live_keys st"
proof -
  have "map (lt_key \<circ> the) (filter (\<lambda>t. t \<noteq> None) ls) = map (lt_key \<circ> the) (filter (\<lambda>t. t \<noteq> None) (sch_levels st))"
    using assms
  proof (induction rule: list_all2_induct)
    case (Cons x xs y ys)
    then show ?case by (cases x; cases y) (simp_all add: queried_def)
  qed simp
  then show ?thesis by (simp add: live_keys_eq)
qed

lemma accessed_ok:
  assumes ok: "schedule_ok st" and room: "sch_num_stored st + n \<le> sch_length st" and acc: "accessed n st st'"
  shows "step_ok st st'" and "sch_num_stored st' = sch_num_stored st + n"
proof -
  obtain ls where ls: "st' = st\<lparr>sch_levels := ls, sch_num_stored := sch_num_stored st + n\<rparr>"
    "list_all2 (rel_option (queried n)) (sch_levels st) ls" using acc by (auto simp: accessed_def)
  then show "sch_num_stored st' = sch_num_stored st + n" by simp
  have live: "live_keys st' = live_keys st" using queried_live [OF ls(2)] ls(1) by simp
  then have batch: "batch_keys m st' = batch_keys m st" for m by (simp add: batch_keys_def)
  let ?c = "sch_config st" and ?bs = "base_b_state_vec st"
  have sel: "sch_config st' = ?c" "sch_length st' = sch_length st" "base_b_state_vec st' = ?bs"
    "sch_num_stored st' = sch_num_stored st + n" "packed_query_key st' = packed_query_key st"
    "packed_batch_query_keys st' = packed_batch_query_keys st" "sch_draws st' = sch_draws st"
    "had_initial_bottom_level st' = had_initial_bottom_level st" "sch_levels st' = ls" "length ls = length (sch_levels st)"
    using ls list_all2_lengthD [OF ls(2)] by simp_all
  have o: "length (sch_levels st) = num_levels ?c" "stash_size ?c \<le> sch_num_stored st"
    "sch_length st = cache_of ?c"
    "\<forall>i < num_levels ?c. sch_levels st ! i = None \<longleftrightarrow> ?bs ! i = 0"
    "\<forall>i < num_levels ?c. \<forall>t. sch_levels st ! i = Some t \<longrightarrow> level_ok ?c i (?bs ! i) (lt_params t) \<and>
        lt_query_count t = fill_of ?c * counter_below ?bs (amp_of ?c) i + (sch_num_stored st - stash_size ?c)"
    using ok by (simp_all add: schedule_ok_def Let_def)
  have rel: "rel_option (queried n) (sch_levels st ! i) (ls ! i)" if "i < num_levels ?c" for i
    using ls(2) that o(1) by (simp add: list_all2_conv_all_nth)
  have before: "\<exists>t0. sch_levels st ! i = Some t0 \<and> queried n t0 t" if "i < num_levels ?c" "ls ! i = Some t" for i t
    using rel [OF that(1)] that(2) by (cases "sch_levels st ! i") auto
  have "\<forall>i < num_levels ?c. ls ! i = None \<longleftrightarrow> ?bs ! i = 0"
    using o(4) rel by (metis option.rel_distinct(1,2) not_None_eq)
  moreover have "level_ok ?c i (?bs ! i) (lt_params t) \<and> lt_query_count t =
      fill_of ?c * counter_below ?bs (amp_of ?c) i + (sch_num_stored st + n - stash_size ?c)"
    if i: "i < num_levels ?c" and t: "ls ! i = Some t" for i t
    using before [OF i t] o(2,5) i by (auto simp: queried_def)
  moreover have "table_ok t" if t: "Some t \<in> set ls" for t
  proof -
    obtain i where i: "i < num_levels ?c" "ls ! i = Some t" using t sel(10) o(1) by (auto simp: in_set_conv_nth)
    then show ?thesis using before [OF i] table_ok_level [OF ok] queried_table_ok by blast
  qed
  ultimately have "schedule_ok st'"
    using ok room o(3) unfolding schedule_ok_def Let_def sel live batch by simp
  then show "step_ok st st'" using sel by (simp add: step_ok_def)
qed

lemma live_keys_cached [simp]:
  "live_levels (st\<lparr>packed_query_key := k\<rparr>) = live_levels st" "live_keys (st\<lparr>packed_query_key := k\<rparr>) = live_keys st"
  "live_levels (st\<lparr>packed_batch_query_keys := k'\<rparr>) = live_levels st"
  "live_keys (st\<lparr>packed_batch_query_keys := k'\<rparr>) = live_keys st"
  by (simp_all add: live_levels_def live_keys_def)

lemma batch_keys_cached [simp]:
  "batch_keys n (st\<lparr>packed_query_key := k\<rparr>) = batch_keys n st"
  "batch_keys n (st\<lparr>packed_batch_query_keys := k'\<rparr>) = batch_keys n st"
  by (simp_all add: batch_keys_def)

lemma schedule_ok_keys:
  "schedule_ok st \<Longrightarrow> schedule_ok (st\<lparr>packed_query_key := Some (live_keys st)\<rparr>)"
  "schedule_ok st \<Longrightarrow> schedule_ok (st\<lparr>packed_batch_query_keys := Some (n, batch_keys n st)\<rparr>)"
  by (simp_all add: schedule_ok_def Let_def)

lemma batch_access_chunk_ok:
  assumes wf: "data_wf d" and ok: "schedule_ok st" and n: "0 < n" "sch_num_stored st + n \<le> sch_length st"
  shows "settles (touch_error d) (step_ok st) (batch_access_chunk d n st)"
proof -
  define st1 where "st1 = (if (case packed_batch_query_keys st of Some (k, _) \<Rightarrow> k = n | None \<Rightarrow> False) then st
    else st\<lparr>packed_batch_query_keys := Some (n, batch_keys n st)\<rparr>)"
  have 1: "schedule_ok st1" "live_levels st1 = live_levels st" "sch_num_stored st1 = sch_num_stored st"
    "sch_length st1 = sch_length st" "sch_config st1 = sch_config st"
    "had_initial_bottom_level st1 = had_initial_bottom_level st"
    using ok schedule_ok_keys(2) [OF ok] by (simp_all add: st1_def)
  have room: "sch_num_stored st1 + n \<le> sch_length st1" using n 1 by simp
  have run: "batch_access_chunk d n st = bindE (foldE (query_level d n) (live_levels st1) st1) (cache_write n)"
    unfolding batch_access_chunk_def Let_def st1_def [symmetric] 1 ..
  show ?thesis unfolding run
    by (rule settles_mono [OF access_levels [OF wf 1(1) n(1) room]])
       (use accessed_ok(1) [OF 1(1) room] 1 in \<open>auto simp: step_ok_def\<close>)
qed

lemma read_and_maybe_write_ok:
  assumes wf: "data_wf d" and ok: "schedule_ok st"
  shows "settles (data_error d st) (step_ok st) (read_and_maybe_write d st)"
proof -
  have valid: "valid_config (sch_config st)" "sch_length st = cache_of (sch_config st)"
    "sch_num_stored st \<le> sch_length st" using ok by (simp_all add: schedule_ok_def Let_def)
  have first: "settles (data_error d st) (\<lambda>st1. step_ok st st1 \<and> sch_num_stored st1 < sch_length st1)
      (if cache_writeable st then Inr st else dr_rebuild d st)"
  proof (cases "cache_writeable st")
    case True
    then show ?thesis using ok by (simp add: cache_writeable_def step_ok_def)
  next
    case False
    then have full: "sch_num_stored st = sch_length st" using valid(3) by (simp add: cache_writeable_def)
    have "sch_num_stored st' < sch_length st'" if "step_ok st st'" "sch_num_stored st' = stash_size (sch_config st)" for st'
      using that stash_less_cache [OF valid(1)] by (simp add: step_ok_def schedule_ok_def Let_def)
    then show ?thesis using False dr_rebuild_ok [OF wf ok full]
      by (auto elim!: settles_mono simp: data_error_def)
  qed
  show ?thesis
    unfolding read_and_maybe_write_def
  proof (rule settles_bindE [OF first])
    fix st1 assume st1: "step_ok st st1 \<and> sch_num_stored st1 < sch_length st1"
    define st2 where "st2 = (if packed_query_key st1 = None then st1\<lparr>packed_query_key := Some (live_keys st1)\<rparr> else st1)"
    have 2: "schedule_ok st2" "live_levels st2 = live_levels st1" "sch_num_stored st2 + 1 \<le> sch_length st2"
      "sch_config st2 = sch_config st" "had_initial_bottom_level st2 = had_initial_bottom_level st"
      using st1 schedule_ok_keys(1) [of st1] by (auto simp: st2_def step_ok_def)
    have "settles (data_error d st) (step_ok st) (bindE (foldE (query_level d 1) (live_levels st2) st2) (cache_write 1))"
      by (rule settles_mono [OF access_levels [OF wf 2(1) zero_less_one 2(3)]])
         (use accessed_ok(1) [OF 2(1,3)] 2 in \<open>auto simp: step_ok_def data_error_def\<close>)
    then show "settles (data_error d st) (step_ok st) (let live = live_levels st1;
        st = if packed_query_key st1 = None then st1\<lparr>packed_query_key := Some (live_keys st1)\<rparr> else st1
        in bindE (foldE (query_level d 1) live st) (cache_write 1))"
      unfolding Let_def st2_def [symmetric] 2(2) .
  qed
qed

text \<open>Twice the number of operations is enough fuel for the batch loop.\<close>

lemma batch_loop_ok:
  assumes wf: "\<And>r. data_wf (ds r)" and "schedule_ok st"
    and "2 * remaining \<le> fuel + (if sch_num_stored st < sch_length st then 1 else 0)"
  shows "settles (\<lambda>e. \<exists>r. data_error (ds r) st e) (step_ok st) (batch_loop fuel ds remaining st)"
  using assms(2,3)
proof (induction fuel arbitrary: remaining st)
  case 0
  then have "remaining = 0" by (auto split: if_splits)
  then show ?case using 0 by (simp add: step_ok_def)
next
  case (Suc fuel)
  let ?E = "\<lambda>e. \<exists>r. data_error (ds r) st e"
  have valid: "valid_config (sch_config st)" "sch_length st = cache_of (sch_config st)"
    "sch_num_stored st \<le> sch_length st" using Suc.prems(1) by (simp_all add: schedule_ok_def Let_def)
  have next_round: "settles ?E (step_ok st) (batch_loop fuel ds rest st1)"
    if "step_ok st st1" "2 * rest \<le> fuel + (if sch_num_stored st1 < sch_length st1 then 1 else 0)" for rest st1
    using Suc.IH [OF _ that(2)] that(1) step_ok_error [OF that(1)]
    by (auto elim!: settles_mono simp: step_ok_def)
  show ?case
  proof (cases "remaining = 0")
    case True
    then show ?thesis using Suc.prems(1) by (simp add: step_ok_def)
  next
    case rem: False
    show ?thesis
    proof (cases "sch_num_stored st = sch_length st")
      case full: True
      have run: "batch_loop (Suc fuel) ds remaining st = bindE (dr_rebuild (ds remaining) st) (batch_loop fuel ds remaining)"
        using full rem by (simp add: sub_usize_def)
      show ?thesis
        unfolding run
      proof (rule settles_bindE [OF settles_mono [OF dr_rebuild_ok [OF wf Suc.prems(1) full, of remaining]]])
        fix st1 assume st1: "step_ok st st1 \<and> sch_num_stored st1 = stash_size (sch_config st) \<and>
          base_b_state_vec st1 = rebuilt_digits st"
        then have "sch_num_stored st1 < sch_length st1"
          using stash_less_cache [OF valid(1)] by (simp add: step_ok_def schedule_ok_def Let_def)
        then show "settles ?E (step_ok st) (batch_loop fuel ds remaining st1)"
          using next_round st1 Suc.prems(2) full by simp
      qed (auto simp: data_error_def)
    next
      case False
      define n where "n = min remaining (sch_length st - sch_num_stored st)"
      have n: "0 < n" "sch_num_stored st + n \<le> sch_length st" "n \<le> remaining"
        using False valid(3) rem by (simp_all add: n_def)
      have rest: "2 * (remaining - n) \<le> fuel" using Suc.prems(2) n rem by (auto split: if_splits)
      have run: "batch_loop (Suc fuel) ds remaining st =
          bindE (batch_access_chunk (ds remaining) n st) (batch_loop fuel ds (remaining - n))"
        using False valid(3) rem by (simp add: sub_usize_def n_def)
      show ?thesis
        unfolding run
        by (rule settles_bindE [OF settles_mono [OF batch_access_chunk_ok [OF wf Suc.prems(1) n(1,2), of remaining]]])
           (use rest next_round in \<open>auto simp: data_error_def\<close>)
    qed
  qed
qed

lemma batch_access_ok:
  assumes "\<And>r. data_wf (ds r)" and "schedule_ok st" and "0 < ops"
  shows "settles (\<lambda>e. \<exists>r. data_error (ds r) st e) (step_ok st) (batch_access ds ops st)"
  using batch_loop_ok [OF assms(1,2), of ops "2 * ops"] assms(3) by (simp add: batch_access_def)

section \<open>Construction and growth\<close>

lemma schedule_of_empty:
  assumes "valid_config c"
  shows "schedule_ok ((schedule_of c (cache_of c) False draws)\<lparr>sch_num_stored := stash_size c\<rparr>)"
  using assms stash_less_cache [OF assms]
  by (auto simp: schedule_ok_def schedule_of_def Let_def valid_config_def live_keys_eq)

lemma doram_new_ok:
  assumes "valid_config c"
  shows "\<exists>st. doram_new c = Inr st \<and> schedule_ok st \<and> sch_config st = c \<and> \<not> had_initial_bottom_level st"
proof -
  have "config_validate c = Inr ()" using assms config_validate_iff by blast
  then have "doram_new c = Inr (schedule_of c (cache_of c) False 0\<lparr>sch_num_stored := stash_size c\<rparr>)"
    using stash_less_cache [OF assms] speed_cache_size_ok [OF assms]
    by (simp add: doram_new_def cache_skip_def schedule_of_def cache_of_def)
  then show ?thesis using schedule_of_empty [OF assms] by (simp add: schedule_of_def)
qed

text \<open>A new hierarchy whose only level is the bottom one.\<close>

lemma bottom_only_ok:
  assumes wf: "data_wf d" and valid: "valid_config c"
  shows "settles (build_error d) (\<lambda>st. schedule_ok st \<and> sch_config st = c \<and> had_initial_bottom_level st = initial \<and>
      sch_num_stored st = stash_size c)
    (bindE (new_ohtable_of_level d (num_levels c - 1) (2 ^ log_address_space_size c)
      (schedule_of c (cache_of c) initial draws)) (insert_stash (num_levels c - 1)))"
proof -
  let ?st = "schedule_of c (cache_of c) initial draws" and ?bottom = "num_levels c - 1"
  have L: "0 < num_levels c" using valid by (simp add: valid_config_def)
  let ?new = "\<lambda>t. clear_keys (?st\<lparr>sch_levels := (sch_levels ?st)[?bottom := Some t],
        base_b_state_vec := (base_b_state_vec ?st)[?bottom := 1], sch_draws := draws + ROUND_KEYS\<rparr>)"
  have new: "settles (build_error d) (\<lambda>st'. \<exists>t. st' = ?new t \<and> built_level ?st ?bottom 1 t)
      (new_ohtable_of_level d ?bottom (2 ^ log_address_space_size c) ?st)"
    using settles_build [OF new_ohtable_of_level_ok [OF data_wf_builds [OF wf], of ?st ?bottom 1]] valid L
    by (auto simp: schedule_of_def level_size_def)
  have ok: "insert_stash ?bottom (?new t) = Inr ((?new t)\<lparr>sch_num_stored := stash_size c\<rparr>) \<and>
      schedule_ok ((?new t)\<lparr>sch_num_stored := stash_size c\<rparr>)" if b: "built_level ?st ?bottom 1 t" for t
  proof
    have t: "level_ok c ?bottom 1 (lt_params t)" "lt_query_count t = 0" "table_ok t"
      "lt_key t = [draws..<draws + ROUND_KEYS]"
      using b by (simp_all add: built_level_def schedule_of_def)
    then show "insert_stash ?bottom (?new t) = Inr ((?new t)\<lparr>sch_num_stored := stash_size c\<rparr>)"
      using L stash_less_cache [OF valid]
      by (simp add: insert_stash_def cache_write_def clear_keys_def schedule_of_def level_ok_def)
    have nth: "(replicate (num_levels c) a)[?bottom := b] ! i = (if i = ?bottom then b else a)"
      if "i < num_levels c" for i and a b :: 'b using that by (simp add: nth_list_update)
    have "counter_below ((replicate (num_levels c) 0)[?bottom := 1]) (amp_of c) ?bottom = 0"
      by (rule counter_below_zero) (simp add: nth_list_update)
    moreover have "(replicate (num_levels c) None)[?bottom := Some t] = replicate ?bottom None @ [Some t]"
      using L by (intro nth_equalityI) (auto simp: nth_append nth_list_update)
    then have "live_keys ((?new t)\<lparr>sch_num_stored := stash_size c\<rparr>) = [[draws..<draws + ROUND_KEYS]]"
      by (simp add: live_keys_eq clear_keys_def schedule_of_def t)
    moreover have "table_ok t'" if "Some t' \<in> set ((replicate (num_levels c) None)[?bottom := Some t])" for t'
      using that t(3) set_update_subset_insert [of "replicate (num_levels c) None" ?bottom "Some t"] by auto
    ultimately show "schedule_ok ((?new t)\<lparr>sch_num_stored := stash_size c\<rparr>)"
      using valid L t(1,2) stash_less_cache [OF valid]
      by (auto simp: schedule_ok_def schedule_of_def clear_keys_def Let_def nth nth_list_update split: if_splits)
  qed
  show ?thesis
    by (rule settles_bindE [OF new]) (use ok in \<open>auto simp: schedule_of_def clear_keys_def\<close>)
qed

lemma new_with_initial_bottom_level_ok:
  assumes wf: "data_wf d" and valid: "valid_config c"
  shows "settles (build_error d) (\<lambda>st. schedule_ok st \<and> sch_config st = c \<and> had_initial_bottom_level st)
    (new_with_initial_bottom_level d c (2 ^ log_address_space_size c))"
proof -
  have "config_validate c = Inr ()" using valid config_validate_iff by blast
  then have "new_with_initial_bottom_level d c (2 ^ log_address_space_size c) =
      bindE (new_ohtable_of_level d (num_levels c - 1) (2 ^ log_address_space_size c) (schedule_of c (cache_of c) True 0))
        (insert_stash (num_levels c - 1))"
    using speed_cache_size_ok [OF valid] bottom_num_elements_ok [OF valid]
    by (simp add: new_with_initial_bottom_level_def cache_of_def)
  moreover have "settles (build_error d) (\<lambda>st. schedule_ok st \<and> sch_config st = c \<and> had_initial_bottom_level st)
      (bindE (new_ohtable_of_level d (num_levels c - 1) (2 ^ log_address_space_size c) (schedule_of c (cache_of c) True 0))
        (insert_stash (num_levels c - 1)))"
    by (rule settles_mono [OF bottom_only_ok [OF wf valid, of True 0]]) simp_all
  ultimately show ?thesis by simp
qed

text \<open>Growing: the errors of the data, and the state for the new configuration.\<close>

definition grown :: "doram_config \<Rightarrow> doram_schedule \<Rightarrow> doram_schedule \<Rightarrow> bool" where
  "grown new_config st st' \<longleftrightarrow> schedule_ok st' \<and> sch_config st' = new_config \<and>
     had_initial_bottom_level st' = had_initial_bottom_level st"

lemma finish_grow_ok:
  assumes wf: "data_wf d" and valid: "valid_config new_config"
    and log: "log_address_space_size new_config = log_address_space_size (sch_config st) + 1"
    and len: "len \<le> 2 ^ log_address_space_size (sch_config st)"
      "had_initial_bottom_level st \<Longrightarrow> len = 2 ^ log_address_space_size (sch_config st)"
  shows "settles (build_error d) (grown new_config st) (finish_grow d new_config len st)"
proof -
  let ?n = "log_address_space_size (sch_config st)"
  have "log_address_space_size new_config < 32" using valid by (simp add: valid_config_def)
  then have le: "(2::nat) ^ Suc ?n \<le> 2 ^ 31" using log by (intro power_increasing) simp_all
  have "finish_grow d new_config len st = bindE (new_ohtable_of_level d (num_levels new_config - 1)
      (2 ^ log_address_space_size new_config)
      (schedule_of new_config (cache_of new_config) (had_initial_bottom_level st) (sch_draws st)))
      (insert_stash (num_levels new_config - 1))"
    using le len log speed_cache_size_ok [OF valid] bottom_num_elements_ok [OF valid]
    by (simp add: finish_grow_def Let_def cache_of_def flip: mult_2)
  moreover have "settles (build_error d) (grown new_config st) (bindE (new_ohtable_of_level d (num_levels new_config - 1)
      (2 ^ log_address_space_size new_config)
      (schedule_of new_config (cache_of new_config) (had_initial_bottom_level st) (sch_draws st)))
      (insert_stash (num_levels new_config - 1)))"
    by (rule settles_mono [OF bottom_only_ok [OF wf valid]]) (simp_all add: grown_def)
  ultimately show ?thesis by simp
qed

lemma grow_naturally_ok:
  assumes wf: "data_wf d" and ok: "schedule_ok st" and valid: "valid_config new_config"
    and log: "log_address_space_size new_config = log_address_space_size (sch_config st) + 1"
    and ready: "sch_num_stored st = sch_length st" "rebuild_level st = num_levels (sch_config st) - 1"
  shows "settles (\<lambda>e. build_error d e \<or> reals_error d st e) (grown new_config st) (grow_naturally new_config d st)"
proof -
  let ?c = "sch_config st" and ?r = "rebuild_level st"
  have v: "valid_config ?c" using ok by (simp add: schedule_ok_def Let_def)
  define len where "len = amp_of ?c ^ ?r * cache_of ?c +
    (if base_b_state_vec st ! ?r = 0 then 0 else level_size ?c ?r (base_b_state_vec st ! ?r))"
  have collected: "extract_all (?r + (if sch_levels st ! ?r \<noteq> None then 1 else 0)) st = Inr len"
    unfolding len_def by (rule extract_all_ok [OF ok ready(1)])
  have len: "2 ^ log_address_space_size ?c \<le> len" unfolding bottom_size [OF v] len_def ready(2) by simp
  then have pos: "len \<noteq> 0" by (metis le_zero_eq power_not_zero zero_neq_numeral)
  have "config_validate new_config = Inr ()" using valid config_validate_iff by blast
  moreover have "ready_to_grow_naturally st = Inr True"
    using ready rebuild_target_eq [OF ok] by (simp add: ready_to_grow_naturally_def cache_writeable_def)
  ultimately have run: "grow_naturally new_config d st =
      bindE (finalize_bottom_len d st len) (\<lambda>len. finish_grow d new_config len st)"
    unfolding grow_naturally_def rebuild_target_eq [OF ok] checkE_True [OF log]
    by (simp only: bindE_simps prod.case collected checkE_True [OF pos] checkE_True [OF TrueI])
  have finish: "settles (build_error d) (grown new_config st) (finish_grow d new_config (2 ^ log_address_space_size ?c) st)"
    by (rule finish_grow_ok [OF wf valid log]) simp_all
  show ?thesis
    unfolding run
    by (rule settles_bindE [OF settles_mono [OF finalize_bottom_ok [OF v len, of d]]])
       (use settles_mono [OF finish] in auto)
qed

text \<open>Every untouched slot of every live level, as the loop of \<open>grow_on_demand\<close> collects them.\<close>

definition untouched :: "level_table option \<Rightarrow> nat" where
  "untouched table = (case table of None \<Rightarrow> 0 | Some t \<Rightarrow> length (filter Not (lt_touched t)))"

lemma collect_untouched_ok:
  assumes "\<forall>t. Some t \<in> set (sch_levels st) \<longrightarrow> table_ok t" and "m \<le> length (sch_levels st)"
  shows "foldE (\<lambda>level. collect_untouched level st) [0..<m] len =
    Inr (len + sum_list (map (\<lambda>i. untouched (sch_levels st ! i)) [0..<m]))"
  using assms
proof (induction m)
  case (Suc m)
  have m: "m < length (sch_levels st)" using Suc.prems(2) by simp
  have IH: "foldE (\<lambda>level. collect_untouched level st) [0..<m] len =
      Inr (len + sum_list (map (\<lambda>i. untouched (sch_levels st ! i)) [0..<m]))"
    using Suc.IH Suc.prems by simp
  have "collect_untouched m st a = Inr (a + untouched (sch_levels st ! m))" for a
  proof (cases "sch_levels st ! m")
    case (Some t)
    then have "table_ok t" using Suc.prems(1) m by (metis nth_mem)
    from untouched_len [OF this] have "oh_stash_size (lt_params t) \<le> oh_total_size (lt_params t)"
      "lt_query_count t \<le> oh_total_size (lt_params t) - oh_stash_size (lt_params t)" by linarith+
    then show ?thesis using Some m
      by (simp add: collect_untouched_def extract_untouched_len_def sub_usize_def untouched_def)
  qed (use m in \<open>simp add: collect_untouched_def untouched_def\<close>)
  then show ?case using IH by (simp add: foldE_append)
qed simp

lemma untouched_level:
  assumes ok: "schedule_ok st" and i: "i < num_levels (sch_config st)" and t: "sch_levels st ! i = Some t"
  shows "level_size (sch_config st) i (base_b_state_vec st ! i) \<le> sch_num_stored st + untouched (sch_levels st ! i)"
    and "0 < untouched (sch_levels st ! i)"
proof -
  let ?c = "sch_config st" and ?b = "base_b_state_vec st ! i"
  have valid: "valid_config ?c" and le: "sch_num_stored st \<le> cache_of ?c" "stash_size ?c \<le> sch_num_stored st"
    "\<forall>i < num_levels ?c - 1. base_b_state_vec st ! i < amp_of ?c" "base_b_state_vec st ! (num_levels ?c - 1) \<le> 1"
    "\<forall>i < num_levels ?c. sch_levels st ! i = None \<longleftrightarrow> base_b_state_vec st ! i = 0" "level_ok ?c i ?b (lt_params t)"
    using ok i t by (simp_all add: schedule_ok_def Let_def)
  have "i = num_levels ?c - 1 \<or> i < num_levels ?c - 1" using i by linarith
  then have "?b \<le> amp_of ?c"
    using le(3,4) amp_pos(1) [of ?c] by (auto simp: Suc_leI intro: less_imp_le order_trans)
  moreover have "0 < ?b" using le(5) i t by (metis gr0I option.distinct(1))
  ultimately have b: "0 < ?b" "?b \<le> amp_of ?c" by simp_all
  have size: "oh_num_elements (lt_params t) = level_size ?c i ?b" "oh_stash_size (lt_params t) = stash_size ?c"
    using le(6) by (simp_all add: level_ok_def level_size_def)
  have "stash_size ?c < level_size ?c i ?b"
    using level_size_bounds(1) [OF valid i b] stash_less_cache [OF valid] by simp
  moreover have "level_size ?c i ?b + oh_num_dummies (lt_params t) = untouched (sch_levels st ! i) + stash_size ?c + lt_query_count t"
    using untouched_len [OF table_ok_level [OF ok i t]] size t by (simp add: untouched_def oh_total_size_def)
  ultimately show "level_size ?c i ?b \<le> sch_num_stored st + untouched (sch_levels st ! i)" "0 < untouched (sch_levels st ! i)"
    using level_room(1) [OF ok i t] le(1,2) by linarith+
qed

lemma grow_on_demand_ok:
  assumes wf: "data_wf d" and ok: "schedule_ok st" and valid: "valid_config new_config"
    and log: "log_address_space_size new_config = log_address_space_size (sch_config st) + 1"
  shows "settles (\<lambda>e. build_error d e \<or> reals_error d st e \<or>
      e = Report ''grow needs at least one extracted item'' \<and> sch_num_stored st = 0 \<and> live_levels st = [])
    (grown new_config st) (grow_on_demand new_config d st)"
proof -
  let ?c = "sch_config st" and ?N = "2 ^ log_address_space_size (sch_config st) :: nat" and ?L = "num_levels (sch_config st)"
  let ?sum = "sum_list (map (\<lambda>i. untouched (sch_levels st ! i)) [0..<?L])"
  define len where "len = sch_num_stored st + ?sum"
  have o: "valid_config ?c" "length (sch_levels st) = ?L" "0 < ?L"
    "had_initial_bottom_level st \<longrightarrow> base_b_state_vec st ! (?L - 1) = 1"
    "\<forall>i < ?L. sch_levels st ! i = None \<longleftrightarrow> base_b_state_vec st ! i = 0"
    "\<forall>t. Some t \<in> set (sch_levels st) \<longrightarrow> table_ok t"
    using ok by (simp_all add: schedule_ok_def Let_def valid_config_def)
  have member: "untouched (sch_levels st ! i) \<le> ?sum" if "i < ?L" for i
    using that by (intro member_le_sum_list) auto
  have collected: "foldE (\<lambda>level. collect_untouched level st) [0..<?L] (sch_num_stored st) = Inr len"
    using collect_untouched_ok [OF o(6), of ?L "sch_num_stored st"] o(2) by (simp add: len_def)
  have "config_validate new_config = Inr ()" using valid config_validate_iff by blast
  then have run: "grow_on_demand new_config d st = checkE (len \<noteq> 0) (Report ''grow needs at least one extracted item'')
      (bindE (finalize_bottom_len d st len) (\<lambda>len. finish_grow d new_config len st))"
    unfolding grow_on_demand_def checkE_True [OF log] by (simp only: bindE_simps collected)
  have drained: "sch_num_stored st = 0 \<and> live_levels st = []" if "len = 0"
  proof -
    have "sch_levels st ! i = None" if i: "i < ?L" for i
    proof (cases "sch_levels st ! i")
      case (Some t)
      then show ?thesis using untouched_level(2) [OF ok i Some] member [OF i] \<open>len = 0\<close> unfolding len_def by linarith
    qed
    then show ?thesis using that o(2) by (simp add: len_def live_levels_def)
  qed
  have fin: "settles (reals_error d st) (\<lambda>len'. len' \<le> ?N \<and> (had_initial_bottom_level st \<longrightarrow> len' = ?N))
      (finalize_bottom_len d st len)"
  proof (cases "had_initial_bottom_level st")
    case True
    then obtain t where t: "sch_levels st ! (?L - 1) = Some t"
      using o(3,4,5) by (cases "sch_levels st ! (?L - 1)") auto
    have i: "?L - 1 < ?L" using o(3) by simp
    have "?N \<le> len"
      using untouched_level(1) [OF ok i t] member [OF i] by (simp add: len_def level_size_def)
    then show ?thesis using settles_mono [OF finalize_bottom_ok [OF o(1)]] by simp
  next
    case False
    then show ?thesis
      using relabel_ok [OF o(1), of "min (next_power_of_two len) ?N"] bottom_num_elements_ok [OF o(1)]
      by (simp add: finalize_bottom_len_def)
  qed
  show ?thesis
  proof (cases "len = 0")
    case True
    then have "sch_num_stored st = 0" "live_levels st = []" using drained by simp_all
    then show ?thesis unfolding run checkE_def if_not_P [OF not_not [THEN iffD2, OF True]] settles_simps by blast
  next
    case False
    have "settles (\<lambda>e. build_error d e \<or> reals_error d st e) (grown new_config st)
        (bindE (finalize_bottom_len d st len) (\<lambda>len. finish_grow d new_config len st))"
    proof (rule settles_bindE [OF settles_mono [OF fin]])
      fix len' assume "len' \<le> ?N \<and> (had_initial_bottom_level st \<longrightarrow> len' = ?N)"
      then have "settles (build_error d) (grown new_config st) (finish_grow d new_config len' st)"
        by (intro finish_grow_ok [OF wf valid log]) simp_all
      then show "settles (\<lambda>e. build_error d e \<or> reals_error d st e) (grown new_config st) (finish_grow d new_config len' st)"
        by (rule settles_mono) simp_all
    qed simp_all
    then have "settles (\<lambda>e. build_error d e \<or> reals_error d st e \<or>
        e = Report ''grow needs at least one extracted item'' \<and> sch_num_stored st = 0 \<and> live_levels st = [])
        (grown new_config st) (bindE (finalize_bottom_len d st len) (\<lambda>len. finish_grow d new_config len st))"
      by (rule settles_mono) auto
    then show ?thesis unfolding run using False by simp
  qed
qed

section \<open>Reachable schedules\<close>

inductive doram_step :: "doram_schedule \<Rightarrow> doram_schedule \<Rightarrow> bool" where
  access: "data_wf d \<Longrightarrow> read_and_maybe_write d st = Inr st' \<Longrightarrow> doram_step st st'"
| batch: "(\<And>r. data_wf (ds r)) \<Longrightarrow> batch_access ds ops st = Inr st' \<Longrightarrow> doram_step st st'"
| grow: "data_wf d \<Longrightarrow> grow_naturally new_config d st = Inr st' \<Longrightarrow> doram_step st st'"
| grow_now: "data_wf d \<Longrightarrow> grow_on_demand new_config d st = Inr st' \<Longrightarrow> doram_step st st'"

inductive doram_reachable :: "doram_schedule \<Rightarrow> bool" where
  empty: "doram_new c = Inr st \<Longrightarrow> doram_reachable st"
| initial: "data_wf d \<Longrightarrow> new_with_initial_bottom_level d c n = Inr st \<Longrightarrow> doram_reachable st"
| step: "doram_reachable st \<Longrightarrow> doram_step st st' \<Longrightarrow> doram_reachable st'"

lemma doram_new_valid: "doram_new c = Inr st \<Longrightarrow> valid_config c"
  by (auto simp: doram_new_def bindE_eq_Inr config_validate_iff)

lemma new_with_initial_valid:
  assumes "new_with_initial_bottom_level d c n = Inr st"
  shows "valid_config c \<and> n = 2 ^ log_address_space_size c"
proof -
  have v: "valid_config c"
    using assms by (auto simp: new_with_initial_bottom_level_def bindE_eq_Inr config_validate_iff)
  show ?thesis
    using assms v bottom_num_elements_ok [OF v]
    by (auto simp: new_with_initial_bottom_level_def bindE_eq_Inr checkE_eq_Inr)
qed

lemma ready_to_grow_pre:
  assumes ok: "schedule_ok st" and "ready_to_grow_naturally st = Inr True"
  shows "sch_num_stored st = sch_length st" "rebuild_level st = num_levels (sch_config st) - 1"
  using assms(2) ok rebuild_target_eq [OF ok]
  by (auto simp: ready_to_grow_naturally_def cache_writeable_def schedule_ok_def Let_def split: if_splits)

lemma grow_naturally_pre:
  "grow_naturally new_config d st = Inr st' \<Longrightarrow> valid_config new_config \<and>
    log_address_space_size new_config = log_address_space_size (sch_config st) + 1 \<and> ready_to_grow_naturally st = Inr True"
  by (auto simp: grow_naturally_def checkE_eq_Inr bindE_eq_Inr config_validate_iff)

lemma grow_on_demand_pre:
  "grow_on_demand new_config d st = Inr st' \<Longrightarrow> valid_config new_config \<and>
    log_address_space_size new_config = log_address_space_size (sch_config st) + 1"
  by (auto simp: grow_on_demand_def checkE_eq_Inr bindE_eq_Inr config_validate_iff)

lemma doram_step_ok: "doram_step st st' \<Longrightarrow> schedule_ok st \<Longrightarrow> schedule_ok st'"
proof (induction rule: doram_step.induct)
  case (access d st st')
  then show ?case using read_and_maybe_write_ok [of d st] by (simp add: step_ok_def)
next
  case (batch ds ops st st')
  then have "0 < ops" by (cases ops) (simp_all add: batch_access_def)
  then show ?case using batch batch_access_ok [of ds st ops] by (simp add: step_ok_def)
next
  case (grow d new_config st st')
  note pre = grow_naturally_pre [OF grow(2)]
  then show ?case
    using grow_naturally_ok [OF grow(1,3), of new_config] ready_to_grow_pre [OF grow(3)] grow(2) by (simp add: grown_def)
next
  case (grow_now d new_config st st')
  then show ?case
    using grow_on_demand_ok [OF grow_now(1,3), of new_config] grow_on_demand_pre [OF grow_now(2)] by (simp add: grown_def)
qed

lemma reachable_ok: "doram_reachable st \<Longrightarrow> schedule_ok st"
proof (induction rule: doram_reachable.induct)
  case (empty c st)
  then show ?case using doram_new_ok [OF doram_new_valid [OF empty]] by auto
next
  case (initial d c n st)
  then show ?case
    using new_with_initial_valid [OF initial(2)] new_with_initial_bottom_level_ok [OF initial(1), of c] by auto
next
  case (step st st')
  then show ?case using doram_step_ok by blast
qed

section \<open>Properties\<close>

definition rebuild_counter :: "doram_schedule \<Rightarrow> nat" where
  "rebuild_counter st =
     counter_below (base_b_state_vec st) (amp_of (sch_config st)) (num_levels (sch_config st) - 1)"

text \<open>
  Data without any failure: the stash of a new table is its first slots, and a query selects the
  first untouched ones.
\<close>

definition plain_data :: "nat \<Rightarrow> run_data" where
  "plain_data reals = \<lparr>rd_reals = reals,
     rd_build = (\<lambda>p. if oh_stash_size p \<le> oh_total_size p then Inr [0..<oh_stash_size p] else Inl index_out_of_bounds),
     rd_slots = (\<lambda>level n t. take n (filter (\<lambda>i. \<not> lt_touched t ! i) [0..<length (lt_touched t)]))\<rparr>"

lemma plain_data_ok: "data_wf (plain_data reals)" "slots_fresh (plain_data reals)"
  "oh_validate p = Inr () \<Longrightarrow> \<exists>slots. rd_build (plain_data reals) p = Inr slots"
proof -
  have len: "length (filter (\<lambda>i. \<not> xs ! i) [0..<length xs]) = length (filter Not xs)" for xs :: "bool list"
    using filter_map [of Not "(!) xs" "[0..<length xs]"] by (simp add: map_nth o_def)
  have slots: "set (take n (filter P [0..<k])) \<subseteq> {i. i < k \<and> P i}" for n P and k :: nat
    by (auto dest: in_set_takeD)
  show "data_wf (plain_data reals)"
    using slots by (fastforce simp: data_wf_def plain_data_def len split: if_splits)
  show "slots_fresh (plain_data reals)"
    using slots by (fastforce simp: slots_fresh_def plain_data_def)
  show "oh_validate p = Inr () \<Longrightarrow> \<exists>slots. rd_build (plain_data reals) p = Inr slots"
    by (auto simp: oh_validate_def checkE_eq_Inr plain_data_def oh_total_size_def)
qed

lemma plain_data_builds: "\<not> build_error (plain_data reals) e"
  using plain_data_ok(3) [of _ reals] by (force simp: build_error_def)

lemma plain_batch:
  "doram_reachable st \<Longrightarrow> batch_access (\<lambda>_. plain_data reals) ops st = Inr st' \<Longrightarrow> doram_reachable st'"
  using doram_reachable.step doram_step.batch [of "\<lambda>_. plain_data reals", OF plain_data_ok(1)] by blast

lemma plain_data_good: "data_good (plain_data reals) st \<longleftrightarrow> good_reals reals st"
  using plain_data_ok by (auto simp: data_good_def) (simp_all add: plain_data_def)

text \<open>Small instances for the witnesses: a cache of four with a stash of one, two levels or one.\<close>

definition small_config :: doram_config where
  "small_config = \<lparr>log_address_space_size = 3, num_levels = 2, log_speed_cache_size = 2,
     log_amp_factor = 1, stash_size = 1, config_bounds = Empirical\<rparr>"

definition small_start :: doram_schedule where
  "small_start = (schedule_of small_config 4 False 0)\<lparr>sch_num_stored := 1\<rparr>"

definition small_full :: doram_schedule where
  "small_full = small_start\<lparr>sch_num_stored := 4, packed_batch_query_keys := Some (3, [])\<rparr>"

definition flat_config :: doram_config where
  "flat_config = small_config\<lparr>log_address_space_size := 2, num_levels := 1\<rparr>"

definition flat_full :: doram_schedule where
  "flat_full = (schedule_of flat_config 4 False 0)\<lparr>sch_num_stored := 4, packed_batch_query_keys := Some (3, [])\<rparr>"

lemma batch_keys_none: "live_levels st = [] \<Longrightarrow> batch_keys n st = []"
proof -
  assume "live_levels st = []"
  then have "concat (replicate n (live_keys st)) = []" by (simp add: live_keys_def)
  then show ?thesis by (simp add: batch_keys_def chunks_def)
qed

lemma small_full_reachable: "doram_reachable small_full"
proof -
  have new: "doram_new small_config = Inr small_start"
    by (simp add: doram_new_def small_config_def small_start_def config_validate_def speed_cache_size_def
        shl_usize_def usize_bits_def cache_skip_def schedule_of_def)
  have l2: "[0..<2] = [0, 1 :: nat]" by (simp add: upt_rec)
  have live: "live_levels small_start = []"
    by (simp add: live_levels_def small_start_def schedule_of_def small_config_def l2 numeral_2_eq_2)
  have "batch_access (\<lambda>_. plain_data 0) 3 small_start = Inr small_full"
    using live batch_keys_none [OF live, of 3]
    by (simp add: batch_access_def numeral_eq_Suc sub_usize_def batch_access_chunk_def cache_write_def
        Let_def small_full_def small_start_def schedule_of_def)
  then show ?thesis by (rule plain_batch [OF doram_reachable.empty [OF new]])
qed

lemma flat_full_reachable: "doram_reachable flat_full"
proof -
  let ?start = "(schedule_of flat_config 4 False 0)\<lparr>sch_num_stored := 1\<rparr>"
  have new: "doram_new flat_config = Inr ?start"
    by (simp add: doram_new_def flat_config_def small_config_def config_validate_def speed_cache_size_def
        shl_usize_def usize_bits_def cache_skip_def schedule_of_def)
  have live: "live_levels ?start = []"
    by (simp add: live_levels_def schedule_of_def flat_config_def small_config_def)
  have "batch_access (\<lambda>_. plain_data 0) 3 ?start = Inr flat_full"
    using live batch_keys_none [OF live, of 3]
    by (simp add: batch_access_def numeral_eq_Suc sub_usize_def batch_access_chunk_def cache_write_def
        Let_def flat_full_def schedule_of_def)
  then show ?thesis by (rule plain_batch [OF doram_reachable.empty [OF new]])
qed

lemma flat_full_ready: "ready_to_grow_naturally flat_full = Inr True"
  by (simp add: ready_to_grow_naturally_def cache_writeable_def rebuild_target_def amp_factor_def shl_usize_def
      usize_bits_def flat_full_def flat_config_def small_config_def schedule_of_def)

lemma small_initial:
  "\<exists>st. new_with_initial_bottom_level (plain_data 8) small_config 8 = Inr st \<and> doram_reachable st \<and>
    sch_config st = small_config \<and> had_initial_bottom_level st \<and> sch_levels st ! 1 \<noteq> None"
proof -
  have "valid_config small_config" "2 ^ log_address_space_size small_config = (8::nat)"
    by (simp_all add: valid_config_def small_config_def)
  then have "settles (build_error (plain_data 8)) (\<lambda>st. schedule_ok st \<and> sch_config st = small_config \<and> had_initial_bottom_level st)
      (new_with_initial_bottom_level (plain_data 8) small_config 8)"
    using new_with_initial_bottom_level_ok [OF plain_data_ok(1), of small_config] by metis
  then obtain st where st: "new_with_initial_bottom_level (plain_data 8) small_config 8 = Inr st" "schedule_ok st"
      "sch_config st = small_config" "had_initial_bottom_level st"
    by (cases "new_with_initial_bottom_level (plain_data 8) small_config 8") (auto simp: plain_data_builds)
  moreover have "sch_levels st ! 1 \<noteq> None" using st(2-4) by (auto simp: schedule_ok_def Let_def small_config_def)
  ultimately show ?thesis using doram_reachable.initial [OF plain_data_ok(1) st(1)] by blast
qed

text \<open>C22: The invariant of the schedule: after any sequence of accesses, batches and growth steps, a level
  exists exactly if its counter is nonzero; a counter below the bottom is less than the amplification
  factor, that of the bottom at most one; the level's size is its counter times \<open>amp ^ level\<close> speed
  caches, at the bottom the whole address space; its dummies are \<open>amp ^ level\<close> times the fill time;
  it has answered one query per access since it was built, \<open>fill_time\<close> for each speed-cache load the
  counters below it have counted and one for each entry written since the last rebuild; the budget
  left is enough for the free places of the cache; and its touched slots are those of its stash and
  one for each query.\<close>

theorem schedule_invariant:
  assumes "doram_reachable st" and "i < num_levels (sch_config st)"
  shows "case sch_levels st ! i of
      None \<Rightarrow> base_b_state_vec st ! i = 0
    | Some t \<Rightarrow> 0 < base_b_state_vec st ! i \<and>
        (if i = num_levels (sch_config st) - 1 then base_b_state_vec st ! i = 1
         else base_b_state_vec st ! i < 2 ^ log_amp_factor (sch_config st)) \<and>
        oh_num_elements (lt_params t) = (if i = num_levels (sch_config st) - 1 then 2 ^ log_address_space_size (sch_config st)
          else base_b_state_vec st ! i * 2 ^ (i * log_amp_factor (sch_config st) + log_speed_cache_size (sch_config st))) \<and>
        oh_num_dummies (lt_params t) = 2 ^ (i * log_amp_factor (sch_config st)) *
          (2 ^ log_speed_cache_size (sch_config st) - stash_size (sch_config st)) \<and>
        oh_stash_size (lt_params t) = stash_size (sch_config st) \<and>
        lt_query_count t = (2 ^ log_speed_cache_size (sch_config st) - stash_size (sch_config st)) *
          counter_below (base_b_state_vec st) (2 ^ log_amp_factor (sch_config st)) i +
          (sch_num_stored st - stash_size (sch_config st)) \<and>
        lt_query_count t + (2 ^ log_speed_cache_size (sch_config st) - sch_num_stored st) \<le> oh_num_dummies (lt_params t) \<and>
        length (lt_touched t) = oh_num_elements (lt_params t) + oh_num_dummies (lt_params t) \<and>
        length (filter (\<lambda>m. m) (lt_touched t)) = oh_stash_size (lt_params t) + lt_query_count t"
proof (cases "sch_levels st ! i")
  case None
  have "\<forall>i < num_levels (sch_config st). sch_levels st ! i = None \<longleftrightarrow> base_b_state_vec st ! i = 0"
    using reachable_ok [OF assms(1)] by (simp add: schedule_ok_def Let_def)
  then have "base_b_state_vec st ! i = 0" using None assms(2) by blast
  then show ?thesis by (simp only: None option.case)
next
  case (Some t)
  have ok: "schedule_ok st" using assms(1) by (rule reachable_ok)
  let ?c = "sch_config st" and ?b = "base_b_state_vec st ! i"
  have o: "level_ok ?c i ?b (lt_params t)"
    "lt_query_count t = fill_of ?c * counter_below (base_b_state_vec st) (amp_of ?c) i + (sch_num_stored st - stash_size ?c)"
    "\<forall>i < num_levels ?c. sch_levels st ! i = None \<longleftrightarrow> base_b_state_vec st ! i = 0"
    "\<forall>i < num_levels ?c - 1. base_b_state_vec st ! i < amp_of ?c" "base_b_state_vec st ! (num_levels ?c - 1) \<le> 1"
    using ok assms(2) Some by (simp_all add: schedule_ok_def Let_def)
  have b: "0 < ?b" using o(3) assms(2) Some by (metis gr0I option.distinct(1))
  moreover have "if i = num_levels ?c - 1 then ?b = 1 else ?b < 2 ^ log_amp_factor ?c"
    using o(4,5) b assms(2) by (auto simp: amp_of_def)
  moreover have "oh_num_elements (lt_params t) = (if i = num_levels ?c - 1 then 2 ^ log_address_space_size ?c
      else ?b * 2 ^ (i * log_amp_factor ?c + log_speed_cache_size ?c))"
    "oh_num_dummies (lt_params t) = 2 ^ (i * log_amp_factor ?c) * (2 ^ log_speed_cache_size ?c - stash_size ?c)"
    "oh_stash_size (lt_params t) = stash_size ?c"
    using o(1) unfolding power_split
    by (simp_all add: level_ok_def mult.assoc fill_of_def cache_of_def amp_of_def power_mult mult.commute [of i])
  moreover note o(2) [unfolded fill_of_def cache_of_def amp_of_def] level_room(1) [OF ok assms(2) Some, unfolded cache_of_def]
    table_ok_level [OF ok assms(2) Some, unfolded table_ok_def marked_def oh_total_size_def]
  ultimately show ?thesis unfolding Some option.case by blast
qed

theorem schedule_invariant_witness:
  "\<exists>st t. new_with_initial_bottom_level (plain_data 8) small_config 8 = Inr st \<and> sch_levels st ! 1 = Some t \<and>
    base_b_state_vec st ! 1 = 1 \<and> oh_num_elements (lt_params t) = 8 \<and> oh_num_dummies (lt_params t) = 6 \<and>
    length (filter (\<lambda>m. m) (lt_touched t)) = 1 + lt_query_count t"
proof -
  obtain st t where st: "new_with_initial_bottom_level (plain_data 8) small_config 8 = Inr st" "doram_reachable st"
      "sch_config st = small_config" "sch_levels st ! 1 = Some t"
    using small_initial by auto
  have "1 < num_levels (sch_config st)" using st(3) by (simp add: small_config_def)
  from schedule_invariant [OF st(2) this] show ?thesis
    using st by (intro exI [of _ st] exI [of _ t]) (simp add: small_config_def)
qed

text \<open>C1: What can stop an access: in every reachable state a read, a write or a batch of any positive
  number of operations, with the rebuilds it triggers, passes every assertion on the public state
  (the query budgets of the levels, the capacity of the cache, the sizes of a rebuild, the parameters
  of a new level, the dummy labels, the length of the keys). It returns a reachable state again, or it
  stops with one of the errors the data decides, for the data's reason: the build of a table failed, a
  slot was selected that was touched before, or an initially filled hierarchy did not hold one real
  entry per address when its bottom level was cleansed. Where the data gives no such reason, it returns.\<close>

theorem access_stops_only_on_data:
  assumes "doram_reachable st" and "data_wf d" and "\<And>r. data_wf (ds r)" and "0 < ops"
  shows "(case read_and_maybe_write d st of Inl e \<Rightarrow> data_error d st e | Inr st' \<Rightarrow> doram_reachable st') \<and>
    (case batch_access ds ops st of Inl e \<Rightarrow> \<exists>r. data_error (ds r) st e | Inr st' \<Rightarrow> doram_reachable st') \<and>
    (data_good d st \<longrightarrow> (\<exists>st'. read_and_maybe_write d st = Inr st')) \<and>
    ((\<forall>r. data_good (ds r) st) \<longrightarrow> (\<exists>st'. batch_access ds ops st = Inr st'))"
proof -
  have ok: "schedule_ok st" using assms(1) by (rule reachable_ok)
  have "settles (data_error d st) doram_reachable (read_and_maybe_write d st)"
    using read_and_maybe_write_ok [OF assms(2) ok] doram_reachable.step [OF assms(1) doram_step.access [OF assms(2)]]
    by (cases "read_and_maybe_write d st") simp_all
  moreover have "settles (\<lambda>e. \<exists>r. data_error (ds r) st e) doram_reachable (batch_access ds ops st)"
    using batch_access_ok [of ds, OF assms(3) ok assms(4)] doram_reachable.step [OF assms(1) doram_step.batch [of ds, OF assms(3)]]
    by (cases "batch_access ds ops st") simp_all
  ultimately show ?thesis
    unfolding settles_def by (auto dest: data_good_no_error split: sum.splits)
qed

theorem access_stops_only_on_data_witness:
  "\<exists>st. new_with_initial_bottom_level (plain_data 8) small_config 8 = Inr st \<and>
    (\<exists>st'. read_and_maybe_write (plain_data 8) st = Inr st') \<and> (\<exists>st'. batch_access (\<lambda>_. plain_data 8) 9 st = Inr st')"
proof -
  obtain st where st: "new_with_initial_bottom_level (plain_data 8) small_config 8 = Inr st" "doram_reachable st"
      "sch_config st = small_config"
    using small_initial by auto
  have "data_good (plain_data 8) st" using st(3) by (simp add: plain_data_good good_reals_def small_config_def)
  then show ?thesis
    using st(1) access_stops_only_on_data [OF st(2) plain_data_ok(1) plain_data_ok(1), of 9 8 "\<lambda>_. 8"] by auto
qed

text \<open>C12: A rebuild counts: on a full cache it spends the dummies of every level it extracts exactly, and
  advances the level counters as a number in base \<open>amp_factor\<close> by one, modulo
  \<open>amp_factor ^ (num_levels - 1)\<close>; it reaches the bottom level exactly when the number wraps. It stops
  only if the build of the new table fails or, at an initially filled bottom, the number of real
  entries is wrong.\<close>

theorem rebuild_counts:
  assumes "doram_reachable st" and "sch_num_stored st = sch_length st" and "data_wf d"
  shows "(case dr_rebuild d st of
      Inl e \<Rightarrow> build_error d e \<or> reals_error d st e
    | Inr st' \<Rightarrow> rebuild_counter st' = (rebuild_counter st + 1) mod amp_of (sch_config st) ^ (num_levels (sch_config st) - 1) \<and>
        sch_num_stored st' = stash_size (sch_config st)) \<and>
    (data_good d st \<longrightarrow> (\<exists>st'. dr_rebuild d st = Inr st')) \<and>
    (rebuild_level st = num_levels (sch_config st) - 1 \<longleftrightarrow>
       rebuild_counter st + 1 = amp_of (sch_config st) ^ (num_levels (sch_config st) - 1)) \<and>
    (\<forall>i \<le> rebuild_level st. \<forall>t. sch_levels st ! i = Some t \<longrightarrow>
       lt_query_count t = oh_num_dummies (lt_params t))"
proof -
  let ?L = "num_levels (sch_config st)" and ?A = "amp_of (sch_config st)" and ?bs = "base_b_state_vec st"
  have ok: "schedule_ok st" using assms(1) by (rule reachable_ok)
  note r = rebuild_level_props [OF ok]
  have run: "settles (\<lambda>e. build_error d e \<or> reals_error d st e) (\<lambda>st'. step_ok st st' \<and>
      sch_num_stored st' = stash_size (sch_config st) \<and> base_b_state_vec st' = rebuilt_digits st) (dr_rebuild d st)"
    by (rule dr_rebuild_ok [OF assms(3) ok assms(2)])
  let ?new = "counter_below (rebuilt_digits st) ?A (?L - 1)"
  have count: "rebuild_counter st' = ?new" if "step_ok st st' \<and> base_b_state_vec st' = rebuilt_digits st" for st'
    using that by (simp add: rebuild_counter_def step_ok_def)
  have bound: "rebuild_counter st < ?A ^ (?L - 1)"
    using ok unfolding rebuild_counter_def by (intro counter_below_bound) (simp add: schedule_ok_def Let_def)
  note d = rebuilt_digits_nth [of _ st]
  have wraps: "?new = (rebuild_counter st + 1) mod ?A ^ (?L - 1) \<and>
      (rebuild_level st = ?L - 1 \<longleftrightarrow> rebuild_counter st + 1 = ?A ^ (?L - 1))"
  proof (cases "rebuild_level st = ?L - 1")
    case True
    then have "rebuild_counter st + 1 = ?A ^ (?L - 1)"
      unfolding rebuild_counter_def using r(2) by (intro counter_below_full) simp_all
    moreover have "?new = 0"
      using d True by (intro counter_below_zero) simp
    ultimately show ?thesis using True by simp
  next
    case False
    then have lt: "rebuild_level st < ?L - 1" using r(1) by simp
    have step: "?new = rebuild_counter st + 1"
      unfolding rebuild_counter_def
    proof (rule counter_below_carry [OF r(2) amp_pos(1) _ _ _ lt])
      show "\<And>j. j < rebuild_level st \<Longrightarrow> rebuilt_digits st ! j = 0"
        "rebuilt_digits st ! rebuild_level st = ?bs ! rebuild_level st + 1"
        "\<And>j. rebuild_level st < j \<Longrightarrow> j < ?L - 1 \<Longrightarrow> rebuilt_digits st ! j = ?bs ! j"
        using d lt by simp_all
    qed
    have "?new < ?A ^ (?L - 1)"
    proof (rule counter_below_bound)
      fix j assume "j < ?L - 1"
      then show "rebuilt_digits st ! j < ?A"
        using d [of j] r(3) lt ok by (auto simp: schedule_ok_def Let_def)
    qed
    then show ?thesis using step False by simp
  qed
  have "data_good d st \<longrightarrow> (\<exists>st'. dr_rebuild d st = Inr st')"
    using run data_good_no_error [of d st] by (cases "dr_rebuild d st") (auto simp: data_error_def)
  moreover have "case dr_rebuild d st of Inl e \<Rightarrow> build_error d e \<or> reals_error d st e
    | Inr st' \<Rightarrow> rebuild_counter st' = (rebuild_counter st + 1) mod ?A ^ (?L - 1) \<and>
        sch_num_stored st' = stash_size (sch_config st)"
    using run count wraps by (cases "dr_rebuild d st") simp_all
  ultimately show ?thesis using wraps spent_exactly [OF ok assms(2)] by blast
qed

theorem rebuild_counts_witness:
  "\<exists>st'. dr_rebuild (plain_data 0) small_full = Inr st' \<and> rebuild_counter small_full = 0 \<and> rebuild_counter st' = 1"
proof -
  have l1: "rebuild_counter small_full = 0" "amp_of (sch_config small_full) ^ (num_levels (sch_config small_full) - 1) = 2"
    by (simp_all add: rebuild_counter_def small_full_def small_start_def schedule_of_def small_config_def amp_of_def
        numeral_2_eq_2)
  have "sch_num_stored small_full = sch_length small_full" "data_good (plain_data 0) small_full"
    by (simp_all add: small_full_def small_start_def schedule_of_def plain_data_good good_reals_def)
  then show ?thesis
    using rebuild_counts [OF small_full_reachable _ plain_data_ok(1), of 0] l1 by auto
qed

text \<open>C31: Cached round keys are never stale: whenever combined keys are cached, for single accesses or for
  batches of a size, they combine exactly the keys of the tables that exist now. The keys of the live
  tables are distinct, and a table built later gets a key of draws none of them contains, so the keys
  of a table that was replaced, at the same level or not, are in no cache.\<close>

theorem cached_keys_current:
  assumes "doram_reachable st"
  shows "packed_query_key st \<in> {None, Some (live_keys st)} \<and>
    (case packed_batch_query_keys st of None \<Rightarrow> True | Some (n, ks) \<Rightarrow> ks = batch_keys n st) \<and>
    distinct (live_keys st) \<and>
    (\<forall>key \<in> set (live_keys st). length key = ROUND_KEYS \<and>
       set key \<inter> set [sch_draws st..<sch_draws st + ROUND_KEYS] = {})"
proof -
  have ok: "schedule_ok st" using assms by (rule reachable_ok)
  have k: "\<forall>ks. packed_query_key st = Some ks \<longrightarrow> ks = live_keys st"
    "\<forall>n ks. packed_batch_query_keys st = Some (n, ks) \<longrightarrow> ks = batch_keys n st"
    "distinct (concat (live_keys st))" "\<forall>k \<in> set (concat (live_keys st)). k < sch_draws st"
    "\<forall>t. Some t \<in> set (sch_levels st) \<longrightarrow> table_ok t"
    using ok unfolding schedule_ok_def Let_def by blast+
  have len: "length key = ROUND_KEYS" if "key \<in> set (live_keys st)" for key
    using that k(5) by (auto simp: live_keys_eq table_ok_def)
  have "removeAll [] (live_keys st) = live_keys st"
    by (intro removeAll_id) (use len [of "[]"] in \<open>auto simp: ROUND_KEYS_def\<close>)
  then have "distinct (live_keys st)" using k(3) by (simp add: distinct_concat_iff)
  moreover have "set key \<inter> set [sch_draws st..<sch_draws st + ROUND_KEYS] = {}" if "key \<in> set (live_keys st)" for key
    using that k(4) by fastforce
  moreover have "packed_query_key st \<in> {None, Some (live_keys st)}" using k(1) by (cases "packed_query_key st") auto
  ultimately show ?thesis using k(2) len by (auto split: option.split)
qed

theorem cached_keys_current_witness:
  "packed_query_key small_full \<in> {None, Some (live_keys small_full)} \<and>
    (case packed_batch_query_keys small_full of None \<Rightarrow> True | Some (n, ks) \<Rightarrow> ks = batch_keys n small_full) \<and>
    distinct (live_keys small_full)"
  using cached_keys_current [OF small_full_reachable] by blast

text \<open>C25: Growth: at a full-collapse boundary \<open>grow_naturally\<close>, and whenever an entry is stored or a level
  exists \<open>grow_on_demand\<close>, adopts any valid configuration with one more address bit, and the result
  satisfies the schedule's invariant for it; they stop only if the build of the new bottom level
  fails or, in an initially filled hierarchy, the number of real entries is wrong. On an empty
  hierarchy \<open>grow_on_demand\<close> reports that there is nothing to extract.\<close>

theorem growth_ok:
  assumes "doram_reachable st" and "data_wf d" and "config_validate new_config = Inr ()"
    and "log_address_space_size new_config = log_address_space_size (sch_config st) + 1"
  shows "(ready_to_grow_naturally st = Inr True \<longrightarrow> (case grow_naturally new_config d st of
        Inl e \<Rightarrow> build_error d e \<or> reals_error d st e | Inr st' \<Rightarrow> sch_config st' = new_config \<and> schedule_ok st')) \<and>
    (0 < sch_num_stored st \<or> live_levels st \<noteq> [] \<longrightarrow> (case grow_on_demand new_config d st of
        Inl e \<Rightarrow> build_error d e \<or> reals_error d st e | Inr st' \<Rightarrow> sch_config st' = new_config \<and> schedule_ok st')) \<and>
    (data_good d st \<longrightarrow>
      (ready_to_grow_naturally st = Inr True \<longrightarrow> (\<exists>st'. grow_naturally new_config d st = Inr st')) \<and>
      (0 < sch_num_stored st \<or> live_levels st \<noteq> [] \<longrightarrow> (\<exists>st'. grow_on_demand new_config d st = Inr st')))"
proof -
  have ok: "schedule_ok st" using assms(1) by (rule reachable_ok)
  have valid: "valid_config new_config" using assms(3) config_validate_iff by blast
  let ?E = "\<lambda>e. build_error d e \<or> reals_error d st e" and ?Q = "\<lambda>st'. sch_config st' = new_config \<and> schedule_ok st'"
  have natural: "settles ?E ?Q (grow_naturally new_config d st)" if "ready_to_grow_naturally st = Inr True"
    by (rule settles_mono [OF grow_naturally_ok [OF assms(2) ok valid assms(4) ready_to_grow_pre [OF ok that]]])
       (simp_all add: grown_def)
  have demand: "settles ?E ?Q (grow_on_demand new_config d st)" if "0 < sch_num_stored st \<or> live_levels st \<noteq> []"
    by (rule settles_mono [OF grow_on_demand_ok [OF assms(2) ok valid assms(4)]]) (use that in \<open>auto simp: grown_def\<close>)
  have none: "data_good d st \<Longrightarrow> \<not> ?E e" for e using data_good_no_error [of d st e] by (auto simp: data_error_def)
  have returns: "\<exists>st'. r = Inr st'" if "data_good d st" "settles ?E ?Q r" for r
    using that none by (cases r) auto
  show ?thesis
    using natural demand returns unfolding settles_def by blast
qed

theorem growth_ok_witness:
  "(\<exists>st'. grow_naturally small_config (plain_data 0) flat_full = Inr st' \<and> sch_config st' = small_config \<and> schedule_ok st') \<and>
    (\<exists>st'. grow_on_demand small_config (plain_data 0) flat_full = Inr st' \<and> sch_config st' = small_config \<and> schedule_ok st')"
proof -
  have "data_good (plain_data 0) flat_full" "0 < sch_num_stored flat_full" "config_validate small_config = Inr ()"
    "log_address_space_size small_config = log_address_space_size (sch_config flat_full) + 1"
    by (simp_all add: plain_data_good good_reals_def flat_full_def flat_config_def small_config_def schedule_of_def
        config_validate_def speed_cache_size_def shl_usize_def usize_bits_def)
  then show ?thesis
    using growth_ok [OF flat_full_reachable plain_data_ok(1), of small_config 0] flat_full_ready
    by (auto split: sum.splits)
qed

end
