(* ===== verification/Lowmc.thy ===== *)
theory Lowmc
  imports Circuits Lowmc_Parameters
begin

text \<open>
  LowMC on 128-bit blocks: the tables and helpers of \<open>crates/circuits/src/lowmc/common.rs\<close>, the
  word-parallel evaluation of \<open>packed_u64.rs\<close>, and the cipher itself as a function on clear blocks,
  which every implementation is proved against. The linear layer of the code looks up, for every
  window of four input bits, a table entry built with a Gray-code lookup table; the reference
  multiplies by a matrix over the two-element field.
\<close>

unbundle bit_operations_syntax

lemma fold_or_bits:
  "bit (fold (\<lambda>k out. out OR push_bit k (of_bool (f k))) [0..<n] (0 :: 'w::len word)) j \<longleftrightarrow>
   j < LENGTH('w) \<and> j < n \<and> f j"
  by (induction n) (auto simp: bit_simps less_Suc_eq)

section \<open>Tables\<close>

fun trailing_zeros :: "nat \<Rightarrow> nat" where
  "trailing_zeros n = (if n = 0 then 64 else if odd n then 0 else Suc (trailing_zeros (n div 2)))"

declare trailing_zeros.simps [simp del]

definition m4r_lut :: "8 word \<Rightarrow> bool list" where
  "m4r_lut input = fold (\<lambda>i lut. lut[i := (lut ! (i - 1) \<noteq> (drop_bit (trailing_zeros i) input AND 1 = 1))])
     [1..<16] (replicate 16 False)"

definition linear_entry :: "nat \<Rightarrow> nat \<Rightarrow> nat \<Rightarrow> 128 word" where
  "linear_entry round window input = fold (\<lambda>wire output.
     output OR push_bit wire (of_bool (m4r_lut (of_nat input) ! mask_at round window wire))) [0..<128] 0"

definition LINEAR_TABLES :: "128 word list list list" where
  "LINEAR_TABLES = map (\<lambda>round. map (\<lambda>window. map (linear_entry round window) [0..<16]) [0..<32]) [0..<9]"

definition pack_round_constants :: "bool list list \<Rightarrow> 128 word list" where
  "pack_round_constants constants = map (\<lambda>round. fold (\<lambda>wire packed.
     if constants ! round ! wire then packed OR push_bit wire 1 else packed) [0..<128] 0) [0..<9]"

definition PACKED_ROUND_CONSTANTS :: "128 word list" where
  "PACKED_ROUND_CONSTANTS = pack_round_constants ROUND_CONSTANTS"

section \<open>The cipher in clear\<close>

text \<open>The row masks are stored as positions of a Gray code.\<close>

definition gray :: "nat \<Rightarrow> nat" where
  "gray m = m XOR (m div 2)"

definition matrix_bit :: "nat \<Rightarrow> nat \<Rightarrow> nat \<Rightarrow> bool" where
  "matrix_bit round row col \<longleftrightarrow> bit (gray (mask_at round (col div 4) row)) (col mod 4)"

definition parity :: "(nat \<Rightarrow> bool) \<Rightarrow> nat list \<Rightarrow> bool" where
  "parity f ks = foldr (\<lambda>k acc. f k \<noteq> acc) ks False"

definition matrix_mult :: "nat \<Rightarrow> 128 word \<Rightarrow> 128 word" where
  "matrix_mult round x = word_of (\<lambda>row. parity (\<lambda>col. matrix_bit round row col \<and> bit x col) [0..<128])"

definition sbox_bit :: "128 word \<Rightarrow> nat \<Rightarrow> bool" where
  "sbox_bit x k = (if 126 \<le> k then bit x k
     else if k mod 3 = 0 then bit x k \<noteq> (bit x (k + 1) \<and> bit x (k + 2))
     else if k mod 3 = 1 then bit x (k - 1) \<noteq> (bit x k \<noteq> (bit x (k + 1) \<and> bit x (k - 1)))
     else bit x (k - 2) \<noteq> (bit x (k - 1) \<noteq> (bit x k \<noteq> (bit x (k - 2) \<and> bit x (k - 1)))))"

definition sbox_layer :: "128 word \<Rightarrow> 128 word" where
  "sbox_layer x = word_of (sbox_bit x)"

definition round_constant :: "nat \<Rightarrow> 128 word" where
  "round_constant round = word_of (\<lambda>k. ROUND_CONSTANTS ! round ! k)"

definition lowmc_round :: "128 word list \<Rightarrow> nat \<Rightarrow> 128 word \<Rightarrow> 128 word" where
  "lowmc_round keys round x =
     matrix_mult round (sbox_layer x) XOR round_constant round XOR keys ! (round + 1)"

definition lowmc_encrypt :: "128 word list \<Rightarrow> 128 word \<Rightarrow> 128 word" where
  "lowmc_encrypt keys x = fold (lowmc_round keys) [0..<9] (x XOR keys ! 0)"

section \<open>The tables are the matrices\<close>

lemma parity_simps [simp]: "parity f [] = False" "parity f (k # ks) = (f k \<noteq> parity f ks)"
  by (simp_all add: parity_def)

lemma parity_append: "parity f (ks @ ls) = (parity f ks \<noteq> parity f ls)"
  by (induction ks) auto

lemma parity_neq: "parity (\<lambda>k. f k \<noteq> g k) ks = (parity f ks \<noteq> parity g ks)"
  by (induction ks) auto

lemma parity_cong: "(\<And>k. k \<in> set ks \<Longrightarrow> f k = g k) \<Longrightarrow> parity f ks = parity g ks"
  by (induction ks) auto

lemma parity_concat: "parity f (concat (map ls ws)) = parity (\<lambda>w. parity f (ls w)) ws"
  by (induction ws) (simp_all add: parity_append)

lemma parity_map: "parity f (map g ks) = parity (\<lambda>k. f (g k)) ks"
  by (induction ks) auto

lemma matrix_mult_xor: "matrix_mult round (x XOR y) = matrix_mult round x XOR matrix_mult round y"
proof (rule bit_word_eqI)
  fix row
  have "parity (\<lambda>col. matrix_bit round row col \<and> bit (x XOR y) col) ks \<longleftrightarrow>
      parity (\<lambda>col. matrix_bit round row col \<and> bit x col) ks \<noteq>
      parity (\<lambda>col. matrix_bit round row col \<and> bit y col) ks" for ks
    by (induction ks) (auto simp: bit_xor_iff)
  then show "bit (matrix_mult round (x XOR y)) row = bit (matrix_mult round x XOR matrix_mult round y) row"
    if "row < LENGTH(128)" by (simp only: matrix_mult_def bit_word_of bit_xor_iff) blast
qed

lemma fold_chain:
  fixes g :: "nat \<Rightarrow> 'a \<Rightarrow> 'a" and d :: 'a
  assumes "n \<le> N"
  defines "L \<equiv> fold (\<lambda>i lut. lut[i := g i (lut ! (i - 1))]) [1..<n] (replicate N d)"
  shows "length L = N" and "i < N \<Longrightarrow> L ! i = (if i = 0 \<or> n \<le> i then d else g i (L ! (i - 1)))"
proof -
  have "length L = N \<and> (\<forall>i < N. L ! i = (if i = 0 \<or> n \<le> i then d else g i (L ! (i - 1))))"
    using assms(1) unfolding L_def
  proof (induction n)
    case (Suc n)
    let ?M = "fold (\<lambda>i lut. lut[i := g i (lut ! (i - 1))]) [1..<n] (replicate N d)"
    have M: "length ?M = N" "\<And>i. i < N \<Longrightarrow> ?M ! i = (if i = 0 \<or> n \<le> i then d else g i (?M ! (i - 1)))"
      using Suc by simp_all
    show ?case
    proof (cases "n = 0")
      case False
      let ?L = "?M[n := g n (?M ! (n - 1))]"
      have "?L ! i = (if i = 0 \<or> Suc n \<le> i then d else g i (?L ! (i - 1)))" if "i < N" for i
        using M(1) M(2) [OF that] that False by (cases "i = n"; cases "i < n") auto
      then show ?thesis using M(1) False by simp
    qed auto
  qed simp
  then show "length L = N" "i < N \<Longrightarrow> L ! i = (if i = 0 \<or> n \<le> i then d else g i (L ! (i - 1)))" by blast+
qed

lemma gray_step:
  assumes "0 < m" and "m < 16"
  shows "trailing_zeros m < 4" and "gray m = gray (m - 1) XOR 2 ^ trailing_zeros m"
proof -
  have "\<forall>m \<in> set [1..<16]. trailing_zeros m < 4 \<and> gray m = gray (m - 1) XOR 2 ^ trailing_zeros m" by code_simp
  then show "trailing_zeros m < 4" "gray m = gray (m - 1) XOR 2 ^ trailing_zeros m" using assms by auto
qed

lemma parity_at: "t < n \<Longrightarrow> parity (\<lambda>j. j = t \<and> f j) [0..<n] = f t"
proof (induction n)
  case (Suc n)
  have "\<not> parity (\<lambda>j. j = t \<and> f j) [0..<n]" if "n \<le> t"
    using that by (induction n) (auto simp: parity_append)
  with Suc show ?case by (cases "t = n") (auto simp: parity_append)
qed simp

lemma m4r_lut_bits:
  assumes "m < 16"
  shows "m4r_lut x ! m = parity (\<lambda>j. bit (gray m) j \<and> bit x j) [0..<4]"
  using assms
proof (induction m)
  case 0
  have "m4r_lut x ! 0 = False" unfolding m4r_lut_def by (subst fold_chain(2)) simp_all
  then show ?case by (simp add: gray_def upt_rec)
next
  case (Suc m)
  let ?t = "trailing_zeros (Suc m)"
  have lut: "m4r_lut x ! Suc m = (m4r_lut x ! m \<noteq> bit x ?t)"
    unfolding m4r_lut_def drop_bit_and_1 using Suc.prems by (subst fold_chain(2)) simp_all
  have t: "?t < 4" "gray (Suc m) = gray m XOR 2 ^ ?t" using gray_step [of "Suc m"] Suc.prems by simp_all
  have "parity (\<lambda>j. bit (gray (Suc m)) j \<and> bit x j) [0..<4] =
      parity (\<lambda>j. (bit (gray m) j \<and> bit x j) \<noteq> (j = ?t \<and> bit x j)) [0..<4]"
    unfolding t(2) by (rule parity_cong) (auto simp: bit_xor_iff bit_exp_iff)
  also have "\<dots> = (m4r_lut x ! m \<noteq> bit x ?t)"
    using Suc by (simp only: parity_neq parity_at [OF t(1)])
  finally show ?case using lut by simp
qed

section \<open>The linear layer of a share\<close>

definition WINDOW_MASK :: "128 word" where "WINDOW_MASK = push_bit 4 1 - 1"

definition linear_layer_word :: "nat \<Rightarrow> 128 word \<Rightarrow> 128 word" where
  "linear_layer_word round a = snd (fold (\<lambda>window_table (a, output).
     (drop_bit 4 a, output XOR window_table ! unat (a AND WINDOW_MASK))) (LINEAR_TABLES ! round) (a, 0))"

definition mpc_linear_layer :: "nat \<Rightarrow> 128 word share \<Rightarrow> 128 word share" where
  "mpc_linear_layer round state =
     mk_share (linear_layer_word round (sh_a state)) (linear_layer_word round (sh_b state))"

lemma bit_linear_entry:
  assumes "row < 128"
  shows "bit (linear_entry round window input) row = m4r_lut (of_nat input) ! mask_at round window row"
  using assms by (simp add: linear_entry_def fold_or_bits)

lemma window_index:
  fixes a :: "128 word"
  shows "unat (a AND WINDOW_MASK) < 16"
    and "j < 4 \<Longrightarrow> bit (of_nat (unat (a AND WINDOW_MASK)) :: 8 word) j = bit a j"
proof -
  have m: "a AND WINDOW_MASK = take_bit 4 a"
    by (simp add: WINDOW_MASK_def take_bit_eq_mask mask_eq_exp_minus_1 push_bit_of_1)
  then show "unat (a AND WINDOW_MASK) < 16"
    using take_bit_nat_less_exp [of 4 "unat a"] by (simp add: unsigned_take_bit_eq)
  show "j < 4 \<Longrightarrow> bit (of_nat (unat (a AND WINDOW_MASK)) :: 8 word) j = bit a j"
    unfolding m by (simp add: unsigned_take_bit_eq bit_simps)
qed

lemma fold_windows:
  fixes tables :: "'t list" and sel :: "'t \<Rightarrow> 128 word \<Rightarrow> 128 word"
  shows "bit (snd (fold (\<lambda>t (a, out). (drop_bit 4 a, out XOR sel t a)) tables (a, out))) row =
    (bit out row \<noteq> parity (\<lambda>w. bit (sel (tables ! w) (drop_bit (4 * w) a)) row) [0..<length tables])"
proof (induction tables arbitrary: a out)
  case (Cons t tables)
  have e: "[0..<length (t # tables)] = 0 # map Suc [0..<length tables]"
    by (simp add: map_Suc_upt upt_conv_Cons del: upt_Suc)
  show ?case unfolding e
    by (simp add: Cons.IH parity_map bit_xor_iff drop_bit_drop_bit add.commute) blast
qed simp

lemma blocks_of_four: "concat (map (\<lambda>w. map (\<lambda>j. 4 * w + j) [0..<4]) [0..<32]) = [0..<128 :: nat]"
  by (simp add: upt_rec)

lemma linear_layer_word_eq:
  assumes "round < 9"
  shows "linear_layer_word round a = matrix_mult round a"
proof (rule bit_word_eqI)
  fix row assume row: "row < LENGTH(128)"
  have L: "length (LINEAR_TABLES ! round) = 32"
    "\<And>w. w < 32 \<Longrightarrow> LINEAR_TABLES ! round ! w = map (linear_entry round w) [0..<16]"
    using assms by (simp_all add: LINEAR_TABLES_def)
  have w: "bit (LINEAR_TABLES ! round ! w ! unat (drop_bit (4 * w) a AND WINDOW_MASK)) row =
      parity (\<lambda>j. matrix_bit round row (4 * w + j) \<and> bit a (4 * w + j)) [0..<4]" if "w < 32" for w
  proof -
    let ?x = "of_nat (unat (drop_bit (4 * w) a AND WINDOW_MASK)) :: 8 word"
    have "bit (LINEAR_TABLES ! round ! w ! unat (drop_bit (4 * w) a AND WINDOW_MASK)) row =
        parity (\<lambda>j. bit (gray (mask_at round w row)) j \<and> bit ?x j) [0..<4]"
      using row window_index(1) [of "drop_bit (4 * w) a"] mask_at_less [OF assms that, of row]
      by (simp add: L(2) [OF that] bit_linear_entry m4r_lut_bits)
    also have "\<dots> = parity (\<lambda>j. matrix_bit round row (4 * w + j) \<and> bit a (4 * w + j)) [0..<4]"
    proof (rule parity_cong)
      fix j assume "j \<in> set [0..<4 :: nat]"
      then have j: "j < 4" by simp
      show "(bit (gray (mask_at round w row)) j \<and> bit ?x j) =
          (matrix_bit round row (4 * w + j) \<and> bit a (4 * w + j))"
        unfolding window_index(2) [OF j] using j by (simp add: matrix_bit_def bit_drop_bit_eq)
    qed
    finally show ?thesis .
  qed
  have "bit (linear_layer_word round a) row = parity (\<lambda>w.
      bit (LINEAR_TABLES ! round ! w ! unat (drop_bit (4 * w) a AND WINDOW_MASK)) row) [0..<32]"
    unfolding linear_layer_word_def fold_windows L(1) by simp
  also have "\<dots> = parity (\<lambda>w. parity (\<lambda>j. matrix_bit round row (4 * w + j) \<and> bit a (4 * w + j)) [0..<4]) [0..<32]"
    by (rule parity_cong) (simp add: w)
  also have "\<dots> = parity (\<lambda>col. matrix_bit round row col \<and> bit a col) [0..<128]"
    unfolding blocks_of_four [symmetric] parity_concat parity_map ..
  finally show "bit (linear_layer_word round a) row = bit (matrix_mult round a) row"
    using row by (simp add: matrix_mult_def)
qed

lemma mpc_linear_layer_shared:
  assumes "round < 9" and "shared S x"
  shows "shared (\<lambda>p. mpc_linear_layer round (S p)) (matrix_mult round x)"
  using shared_map [OF assms(2), of "matrix_mult round", OF matrix_mult_xor]
  by (simp add: mpc_linear_layer_def map_share_def linear_layer_word_eq [OF assms(1)])


section \<open>The S-box layer of a share\<close>

definition PATTERN_0 :: "128 word" where "PATTERN_0 = 0x49249249249249249249249249249249"
definition PATTERN_1 :: "128 word" where "PATTERN_1 = 0x92492492492492492492492492492492"
definition PATTERN_2 :: "128 word" where "PATTERN_2 = 0x24924924924924924924924924924924"
definition PATTERN_12 :: "128 word" where "PATTERN_12 = 0xb6db6db6db6db6db6db6db6db6db6db6"

definition rotate_triples :: "128 word \<Rightarrow> 128 word" where
  "rotate_triples x = (push_bit 1 x AND PATTERN_12) OR (drop_bit 2 x AND PATTERN_0)"

definition sbox_mask :: "128 word" where
  "sbox_mask = drop_bit (128 - 42 * 3) (NOT 0)"

definition mpc_sbox_local :: "128 word share \<Rightarrow> 128 word \<Rightarrow> rngs \<Rightarrow> nat \<Rightarrow> party \<Rightarrow> 128 word" where
  "mpc_sbox_local state m rng k p =
     (let cab_a = rotate_triples (sh_a state); cab_b = rotate_triples (sh_b state);
          bca = mk_share (rotate_triples cab_a) (rotate_triples cab_b); cab = mk_share cab_a cab_b;
          and_a = and_local bca cab XOR zero_mask rng k p;
          tmp1 = (sh_a state XOR and_a) AND (PATTERN_0 AND m);
          tmp2 = (sh_a state XOR sh_a cab XOR and_a) AND (PATTERN_1 AND m);
          tmp3 = (sh_a state XOR sh_a bca XOR sh_a cab XOR and_a) AND (PATTERN_2 AND m);
          abc = sh_a state AND NOT m
      in tmp1 OR tmp2 OR tmp3 OR abc)"

definition mpc_sbox :: "network \<Rightarrow> rngs \<Rightarrow> 128 shares \<Rightarrow> 128 shares res" where
  "mpc_sbox net rng state =
     (let state_a = (\<lambda>p. map2 (\<lambda>k s. mpc_sbox_local s sbox_mask rng k p) [0..<length (state p)] (state p))
      in bindE (reshare net state_a) (\<lambda>state_b. Inr (\<lambda>p. ring_recombine (state_a p) (state_b p))))"

lemma periodic_bits:
  assumes P: "P = push_bit 3 P OR push_bit r (1 :: 128 word)" and "r < 3" and "k < 128"
  shows "bit P k \<longleftrightarrow> k mod 3 = r"
  using assms(3)
proof (induction k rule: less_induct)
  case (less k)
  have "bit P k = bit (push_bit 3 P OR push_bit r (1 :: 128 word)) k" using P by simp
  also have "\<dots> \<longleftrightarrow> 3 \<le> k \<and> bit P (k - 3) \<or> k = r"
    using less.prems assms(2) by (auto simp: bit_simps)
  also have "\<dots> \<longleftrightarrow> k mod 3 = r"
  proof (cases "3 \<le> k")
    case True
    then have "(k - 3) mod 3 = k mod 3" by (metis mod_add_self2 le_add_diff_inverse2)
    then show ?thesis using True less assms(2) by auto
  qed (use assms(2) in auto)
  finally show ?case .
qed

lemma patterns:
  assumes "k < 128"
  shows "bit PATTERN_0 k \<longleftrightarrow> k mod 3 = 0" "bit PATTERN_12 k \<longleftrightarrow> k mod 3 \<noteq> 0"
    "bit PATTERN_1 k \<longleftrightarrow> k mod 3 = 1" "bit PATTERN_2 k \<longleftrightarrow> k mod 3 = 2" "bit sbox_mask k \<longleftrightarrow> k < 126"
proof -
  show p: "bit PATTERN_0 k \<longleftrightarrow> k mod 3 = 0"
    by (rule periodic_bits [OF _ _ assms]) (simp_all add: PATTERN_0_def)
  have n: "PATTERN_12 = NOT PATTERN_0" by (simp add: PATTERN_12_def PATTERN_0_def)
  show "bit PATTERN_12 k \<longleftrightarrow> k mod 3 \<noteq> 0"
    unfolding n bit_not_iff p using assms by simp
  show "bit PATTERN_1 k \<longleftrightarrow> k mod 3 = 1"
    by (rule periodic_bits [OF _ _ assms]) (simp_all add: PATTERN_1_def)
  show "bit PATTERN_2 k \<longleftrightarrow> k mod 3 = 2"
    by (rule periodic_bits [OF _ _ assms]) (simp_all add: PATTERN_2_def)
  show "bit sbox_mask k \<longleftrightarrow> k < 126" by (auto simp: sbox_mask_def bit_simps)
qed

lemma bit_rotate_triples:
  assumes "k < 126"
  shows "bit (rotate_triples x) k = bit x (if k mod 3 = 0 then k + 2 else k - 1)"
proof -
  have "k < 128" using assms by simp
  from patterns [OF this] show ?thesis
    using assms unfolding rotate_triples_def bit_or_iff bit_and_iff bit_push_bit_iff bit_drop_bit_eq
    by (cases "k = 0") (auto simp: add.commute)
qed


lemma rotate_triples_xor: "rotate_triples (x XOR y) = rotate_triples x XOR rotate_triples y"
  unfolding rotate_triples_def push_bit_xor drop_bit_xor and_xor_distrib
  by (rule bit_word_eqI) (auto simp: bit_or_iff bit_xor_iff bit_and_iff patterns)

lemma rotate_shared:
  "shared S x \<Longrightarrow> shared (\<lambda>p. mk_share (rotate_triples (sh_a (S p))) (rotate_triples (sh_b (S p)))) (rotate_triples x)"
  using shared_map [of S x rotate_triples, OF _ rotate_triples_xor] by (simp add: map_share_def)

text \<open>The word form of the S-box layer, on clear words.\<close>

definition sbox_parts :: "128 word \<Rightarrow> 128 word \<Rightarrow> 128 word \<Rightarrow> 128 word \<Rightarrow> 128 word" where
  "sbox_parts s cab bca ands = ((s XOR ands) AND (PATTERN_0 AND sbox_mask)) OR
     ((s XOR cab XOR ands) AND (PATTERN_1 AND sbox_mask)) OR
     ((s XOR bca XOR cab XOR ands) AND (PATTERN_2 AND sbox_mask)) OR (s AND NOT sbox_mask)"

lemma bit_sbox_parts:
  assumes "k < 128"
  shows "bit (sbox_parts s cab bca ands) k \<longleftrightarrow> (if 126 \<le> k then bit s k
     else if k mod 3 = 0 then bit s k \<noteq> bit ands k
     else if k mod 3 = 1 then bit s k \<noteq> (bit cab k \<noteq> bit ands k)
     else bit s k \<noteq> (bit bca k \<noteq> (bit cab k \<noteq> bit ands k)))"
proof -
  have "k mod 3 = 0 \<or> k mod 3 = 1 \<or> k mod 3 = 2" by linarith
  then show ?thesis
    unfolding sbox_parts_def bit_or_iff bit_and_iff bit_xor_iff bit_not_iff patterns [OF assms]
    using assms by (elim disjE) (simp_all add: not_le)
qed

lemma sbox_parts_xor:
  "sbox_parts s cab bca ands XOR sbox_parts s' cab' bca' ands' =
   sbox_parts (s XOR s') (cab XOR cab') (bca XOR bca') (ands XOR ands')"
proof (rule bit_word_eqI)
  fix k assume "k < LENGTH(128)"
  then have k: "k < 128" by simp
  show "bit (sbox_parts s cab bca ands XOR sbox_parts s' cab' bca' ands') k =
      bit (sbox_parts (s XOR s') (cab XOR cab') (bca XOR bca') (ands XOR ands')) k"
    unfolding bit_xor_iff bit_sbox_parts [OF k] by (simp split: if_splits) blast
qed

lemma triple_mod [simp]:
  "Suc (3 * i) mod 3 = 1" "Suc (Suc (3 * i)) mod 3 = (2 :: nat)"
  by presburger+

lemma rotate_bits:
  assumes "i < 42"
  shows "bit (rotate_triples x) (3 * i) = bit x (Suc (Suc (3 * i)))"
    "bit (rotate_triples x) (Suc (3 * i)) = bit x (3 * i)"
    "bit (rotate_triples x) (Suc (Suc (3 * i))) = bit x (Suc (3 * i))"
  using assms bit_rotate_triples [of "3 * i" x] bit_rotate_triples [of "Suc (3 * i)" x]
    bit_rotate_triples [of "Suc (Suc (3 * i))" x] by simp_all

lemma triple_cases:
  assumes "k < 126"
  obtains i where "i < 42" "k = 3 * i" | i where "i < 42" "k = Suc (3 * i)" | i where "i < 42" "k = Suc (Suc (3 * i))"
proof -
  have "k = 3 * (k div 3) + k mod 3" "k div 3 < 42" using assms by simp_all
  moreover consider "k mod 3 = 0" | "k mod 3 = 1" | "k mod 3 = 2" by linarith
  ultimately show thesis using that by (metis Suc_1 add.right_neutral add_Suc_right One_nat_def)
qed

lemma sbox_layer_parts:
  "sbox_layer x = sbox_parts x (rotate_triples x) (rotate_triples (rotate_triples x))
     (rotate_triples (rotate_triples x) AND rotate_triples x)"
proof (rule bit_word_eqI)
  fix k assume "k < LENGTH(128)"
  then have k: "k < 128" by simp
  show "bit (sbox_layer x) k = bit (sbox_parts x (rotate_triples x) (rotate_triples (rotate_triples x))
      (rotate_triples (rotate_triples x) AND rotate_triples x)) k"
  proof (cases "k < 126")
    case True
    then show ?thesis unfolding bit_sbox_parts [OF k] using k
      by (cases k rule: triple_cases) (auto simp: sbox_layer_def sbox_bit_def bit_and_iff rotate_bits)
  next
    case False
    then show ?thesis unfolding bit_sbox_parts [OF k] by (simp add: sbox_layer_def sbox_bit_def k)
  qed
qed

lemma mpc_sbox_local_parts:
  "mpc_sbox_local s sbox_mask rng k p = sbox_parts (sh_a s) (rotate_triples (sh_a s))
     (rotate_triples (rotate_triples (sh_a s)))
     (and_local (mk_share (rotate_triples (rotate_triples (sh_a s))) (rotate_triples (rotate_triples (sh_b s))))
        (mk_share (rotate_triples (sh_a s)) (rotate_triples (sh_b s))) XOR zero_mask rng k p)"
  by (simp add: mpc_sbox_local_def sbox_parts_def Let_def)

lemma mpc_sbox_local_sum:
  assumes S: "shared S x" and rng: "correlated rng"
  shows "mpc_sbox_local (S ID0) sbox_mask rng k ID0 XOR mpc_sbox_local (S ID1) sbox_mask rng k ID1 XOR
    mpc_sbox_local (S ID2) sbox_mask rng k ID2 = sbox_layer x"
proof -
  let ?c = "\<lambda>p. mk_share (rotate_triples (sh_a (S p))) (rotate_triples (sh_b (S p)))"
  let ?b = "\<lambda>p. mk_share (rotate_triples (rotate_triples (sh_a (S p)))) (rotate_triples (rotate_triples (sh_b (S p))))"
  let ?and = "\<lambda>p. and_local (?b p) (?c p) XOR zero_mask rng k p"
  note c = rotate_shared [OF S]
  have b: "shared ?b (rotate_triples (rotate_triples x))" using rotate_shared [OF c] by simp
  have "?and ID0 XOR ?and ID1 XOR ?and ID2 = rotate_triples (rotate_triples x) AND rotate_triples x"
    using xor_three_masks [OF rng, of k "and_local (?b ID0) (?c ID0)" "and_local (?b ID1) (?c ID1)"
        "and_local (?b ID2) (?c ID2)"] and_local_sum [OF b c] by (simp only: xor_ac)
  moreover have "sh_a (S ID0) XOR sh_a (S ID1) XOR sh_a (S ID2) = x"
    "rotate_triples (sh_a (S ID0)) XOR rotate_triples (sh_a (S ID1)) XOR rotate_triples (sh_a (S ID2)) = rotate_triples x"
    "rotate_triples (rotate_triples (sh_a (S ID0))) XOR rotate_triples (rotate_triples (sh_a (S ID1))) XOR
      rotate_triples (rotate_triples (sh_a (S ID2))) = rotate_triples (rotate_triples x)"
    using S c b by (simp_all add: shared_def)
  ultimately show ?thesis
    unfolding mpc_sbox_local_parts sbox_parts_xor sbox_layer_parts by simp
qed

lemma mpc_sbox_correct:
  assumes S: "shared_list S xs" and env: "online net" "correlated rng"
  shows "\<exists>T. mpc_sbox net rng S = Inr T \<and> shared_list T (map sbox_layer xs)"
proof -
  let ?L = "\<lambda>p. map2 (\<lambda>k s. mpc_sbox_local s sbox_mask rng k p) [0..<length (S p)] (S p)"
  have "shared_list (\<lambda>p. ring_recombine (?L p) (?L (prev_party p))) (map sbox_layer xs)"
    by (rule shared_recombine [where L = ?L])
      (simp_all add: shared_listD(1) [OF S] mpc_sbox_local_sum [OF shared_listD(2) [OF S] env(2)])
  then show ?thesis by (simp add: mpc_sbox_def Let_def env(1))
qed

section \<open>Encryption of packed blocks\<close>

text \<open>\<open>RoundKeys::from_expanded_key\<close>: an expanded key is the list of its ten round keys.\<close>

definition round_keys_from :: "128 word share list \<Rightarrow> 128 word share list res" where
  "round_keys_from key = checkE (length key = 10) (Panic ''key.len() == ROUND_KEYS'') (Inr key)"

definition add_constant :: "party \<Rightarrow> 128 word \<Rightarrow> 128 word share \<Rightarrow> 128 word share" where
  "add_constant p c s = (case p of
     ID0 \<Rightarrow> mk_share (sh_a s XOR c) (sh_b s) | ID1 \<Rightarrow> mk_share (sh_a s) (sh_b s XOR c) | ID2 \<Rightarrow> s)"

definition encrypt_round ::
    "network \<Rightarrow> rngs \<Rightarrow> (party \<Rightarrow> 128 word share list list) \<Rightarrow> nat \<times> 128 word \<Rightarrow> 128 shares \<Rightarrow> 128 shares res" where
  "encrypt_round net rng keys = (\<lambda>(round, c) state.
     bindE (mpc_sbox net (skip_draws (round * length (state ID0)) rng) state) (\<lambda>state'.
       Inr (\<lambda>p. map2 (\<lambda>s key. xor_share (add_constant p c (mpc_linear_layer round s)) (key ! (round + 1)))
         (state' p) (keys p))))"

definition mpc_encrypt_with_roundkeys ::
    "network \<Rightarrow> rngs \<Rightarrow> 128 shares \<Rightarrow> (party \<Rightarrow> 128 word share list list) \<Rightarrow> 128 shares res" where
  "mpc_encrypt_with_roundkeys net rng inputs keys =
     checkE (everywhere (\<lambda>p. length (inputs p) = length (keys p))) (Panic ''inputs.len() == keys.len()'')
       (foldE (encrypt_round net rng keys) (enumerate 0 PACKED_ROUND_CONSTANTS)
         (\<lambda>p. map2 (\<lambda>input key. xor_share input (key ! 0)) (inputs p) (keys p)))"

definition encrypt_many ::
    "network \<Rightarrow> rngs \<Rightarrow> (party \<Rightarrow> 128 word share list list) \<Rightarrow> 128 shares \<Rightarrow> 128 shares res" where
  "encrypt_many net rng expanded_keys inputs =
     bindE (each_party (\<lambda>p. mapE round_keys_from (expanded_keys p)))
       (mpc_encrypt_with_roundkeys net rng inputs)"

definition encrypt_many_with_same_key :: "network \<Rightarrow> rngs \<Rightarrow> 128 shares \<Rightarrow> 128 shares \<Rightarrow> 128 shares res" where
  "encrypt_many_with_same_key net rng expanded_key inputs =
     bindE (each_party (\<lambda>p. round_keys_from (expanded_key p))) (\<lambda>key.
       mpc_encrypt_with_roundkeys net rng inputs (\<lambda>p. replicate (length (inputs p)) (key p)))"

lemma packed_round_constants:
  "PACKED_ROUND_CONSTANTS = map round_constant [0..<9]"
proof -
  have "fold (\<lambda>wire packed. if f wire then packed OR push_bit wire 1 else packed) [0..<128] 0 = (word_of f :: 128 word)" for f
  proof -
    have "fold (\<lambda>wire packed. if f wire then packed OR push_bit wire 1 else packed) [0..<128] 0 =
        fold (\<lambda>wire packed. packed OR push_bit wire (of_bool (f wire))) [0..<128] (0 :: 128 word)"
      by (rule fold_cong) (auto simp: fun_eq_iff)
    then show ?thesis by (intro bit_word_eqI) (simp only: fold_or_bits bit_word_of, simp)
  qed
  then show ?thesis by (simp add: PACKED_ROUND_CONSTANTS_def pack_round_constants_def round_constant_def)
qed

lemma add_constant_shared: "shared S x \<Longrightarrow> shared (\<lambda>p. add_constant p c (S p)) (x XOR c)"
  by (simp add: shared_def add_constant_def all_party xor_ac)

text \<open>One list of round keys per block.\<close>

definition shared_keys :: "(party \<Rightarrow> 128 word share list list) \<Rightarrow> 128 word list list \<Rightarrow> bool" where
  "shared_keys K kss \<longleftrightarrow> shared_cols K kss \<and> (\<forall>ks \<in> set kss. length ks = 10)"

lemma shared_keysD:
  "shared_keys K kss \<Longrightarrow> length (K p) = length kss"
  "shared_keys K kss \<Longrightarrow> i < length kss \<Longrightarrow> length (kss ! i) = 10"
  "shared_keys K kss \<Longrightarrow> i < length kss \<Longrightarrow> r < 10 \<Longrightarrow> shared (\<lambda>p. K p ! i ! r) (kss ! i ! r)"
  using shared_colsD [of K kss] shared_listD(2) [of "\<lambda>p. K p ! i" "kss ! i" r]
  by (auto simp: shared_keys_def)

lemma encrypt_round_correct:
  assumes K: "shared_keys K kss" and S: "shared_list S xs" and len: "length kss = length xs"
    and r: "round < 9" and env: "online net" "correlated rng"
  shows "\<exists>T. encrypt_round net rng K (round, round_constant round) S = Inr T \<and>
    shared_list T (map2 (\<lambda>ks. lowmc_round ks round) kss xs)"
proof -
  obtain B where B: "mpc_sbox net (skip_draws (round * length (S ID0)) rng) S = Inr B"
    "shared_list B (map sbox_layer xs)"
    using mpc_sbox_correct [OF S env(1) correlated_skip [OF env(2)]] by blast
  let ?T = "\<lambda>p. map2 (\<lambda>s key. xor_share (add_constant p (round_constant round) (mpc_linear_layer round s)) (key ! (round + 1)))
      (B p) (K p)"
  have "shared_list ?T (map2 (\<lambda>ks. lowmc_round ks round) kss xs)"
  proof (rule shared_listI)
    show "length (?T p) = length (map2 (\<lambda>ks. lowmc_round ks round) kss xs)" for p
      using shared_listD(1) [OF B(2)] shared_keysD(1) [OF K] len by simp
    fix i assume "i < length (map2 (\<lambda>ks. lowmc_round ks round) kss xs)"
    then have i: "i < length xs" "i < length kss" by simp_all
    have b: "shared (\<lambda>p. B p ! i) (sbox_layer (xs ! i))" using shared_listD(2) [OF B(2), of i] i by simp
    have k: "shared (\<lambda>p. K p ! i ! (round + 1)) (kss ! i ! (round + 1))"
      using shared_keysD(3) [OF K i(2)] r by simp
    show "shared (\<lambda>p. ?T p ! i) (map2 (\<lambda>ks. lowmc_round ks round) kss xs ! i)"
      using shared_xor [OF add_constant_shared [OF mpc_linear_layer_shared [OF r b], of "round_constant round"] k]
        shared_listD(1) [OF B(2)] shared_keysD(1) [OF K] i by (simp add: lowmc_round_def xor.assoc)
  qed
  then show ?thesis using B(1) by (simp add: encrypt_round_def)
qed

lemma encrypt_rounds_correct:
  assumes K: "shared_keys K kss" and S: "shared_list S xs" and len: "length kss = length xs"
    and rs: "\<forall>r \<in> set rounds. r < 9" and env: "online net" "correlated rng"
  shows "\<exists>T. foldE (encrypt_round net rng K) (map (\<lambda>r. (r, round_constant r)) rounds) S = Inr T \<and>
    shared_list T (map2 (\<lambda>ks x. fold (lowmc_round ks) rounds x) kss xs)"
  using S len rs
proof (induction rounds arbitrary: S xs)
  case Nil
  then have "map2 (\<lambda>ks x. x) kss xs = xs" by (intro nth_equalityI) simp_all
  with Nil show ?case by simp
next
  case (Cons r rounds)
  obtain T where T: "encrypt_round net rng K (r, round_constant r) S = Inr T"
    "shared_list T (map2 (\<lambda>ks. lowmc_round ks r) kss xs)"
    using encrypt_round_correct [OF K Cons.prems(1,2) _ env, of r] Cons.prems(3) by auto
  have "map2 (\<lambda>ks x. fold (lowmc_round ks) rounds x) kss (map2 (\<lambda>ks. lowmc_round ks r) kss xs) =
      map2 (\<lambda>ks x. fold (lowmc_round ks) (r # rounds) x) kss xs"
    using Cons.prems(2) by (intro nth_equalityI) simp_all
  with Cons.IH [OF T(2)] Cons.prems(2,3) T(1) show ?case by simp
qed

lemma mpc_encrypt_correct:
  assumes K: "shared_keys K kss" and X: "shared_list X xs" and len: "length kss = length xs"
    and env: "online net" "correlated rng"
  shows "\<exists>Y. mpc_encrypt_with_roundkeys net rng X K = Inr Y \<and> shared_list Y (map2 lowmc_encrypt kss xs)"
proof -
  let ?S = "\<lambda>p. map2 (\<lambda>input key. xor_share input (key ! 0)) (X p) (K p)"
  have "shared_list ?S (map2 (\<lambda>ks x. x XOR ks ! 0) kss xs)"
    using X shared_keysD [OF K] len by (auto simp: shared_list_def)
  from encrypt_rounds_correct [OF K this _ _ env, of "[0..<9]"] len
  obtain Y where Y: "foldE (encrypt_round net rng K) (map (\<lambda>r. (r, round_constant r)) [0..<9]) ?S = Inr Y"
    "shared_list Y (map2 (\<lambda>ks x. fold (lowmc_round ks) [0..<9] x) kss (map2 (\<lambda>ks x. x XOR ks ! 0) kss xs))"
    by auto
  have "map2 (\<lambda>ks x. fold (lowmc_round ks) [0..<9] x) kss (map2 (\<lambda>ks x. x XOR ks ! 0) kss xs) =
      map2 lowmc_encrypt kss xs"
    using len by (intro nth_equalityI) (simp_all add: lowmc_encrypt_def)
  moreover have "enumerate 0 PACKED_ROUND_CONSTANTS = map (\<lambda>r. (r, round_constant r)) [0..<9]"
    unfolding packed_round_constants by (simp add: enumerate_eq_zip zip_map2 zip_same_conv_map o_def)
  moreover have "everywhere (\<lambda>p. length (X p) = length (K p))"
    using shared_listD(1) [OF X] shared_keysD(1) [OF K] len by auto
  ultimately show ?thesis using Y by (simp add: mpc_encrypt_with_roundkeys_def)
qed

lemma round_keys_all:
  assumes K: "shared_keys K kss"
  shows "each_party (\<lambda>p. mapE round_keys_from (K p)) = Inr K"
proof (rule each_party_Inr)
  fix p
  have "length ks = 10" if "ks \<in> set (K p)" for ks
  proof -
    obtain i where i: "i < length kss" "ks = K p ! i"
      using \<open>ks \<in> set (K p)\<close> shared_keysD(1) [OF K] by (metis in_set_conv_nth)
    have "shared_list (\<lambda>p. K p ! i) (kss ! i)" using K i(1) by (simp add: shared_keys_def shared_cols_def)
    from shared_listD(1) [OF this] show ?thesis using shared_keysD(2) [OF K i(1)] by (simp add: i(2))
  qed
  then show "mapE round_keys_from (K p) = Inr (K p)"
    using mapE_total [of "K p" round_keys_from "\<lambda>k. k"] by (simp add: round_keys_from_def)
qed

lemma encrypt_many_correct:
  assumes K: "shared_keys K kss" and X: "shared_list X xs" and len: "length kss = length xs"
    and env: "online net" "correlated rng"
  shows "\<exists>Y. encrypt_many net rng K X = Inr Y \<and> shared_list Y (map2 lowmc_encrypt kss xs)"
  using mpc_encrypt_correct [OF assms] by (simp add: encrypt_many_def round_keys_all [OF K])

lemma shared_keys_replicate:
  "shared_list K ks \<Longrightarrow> length ks = 10 \<Longrightarrow> shared_keys (\<lambda>p. replicate n (K p)) (replicate n ks)"
  by (simp add: shared_keys_def shared_cols_def)

lemma encrypt_many_with_same_key_correct:
  assumes K: "shared_list K ks" "length ks = 10" and X: "shared_list X xs"
    and env: "online net" "correlated rng"
  shows "\<exists>Y. encrypt_many_with_same_key net rng K X = Inr Y \<and> shared_list Y (map (lowmc_encrypt ks) xs)"
proof -
  have "each_party (\<lambda>p. round_keys_from (K p)) = Inr K"
    using K shared_listD(1) [OF K(1)] by (intro each_party_Inr) (simp add: round_keys_from_def)
  moreover have "(\<lambda>p. replicate (length (X p)) (K p)) = (\<lambda>p. replicate (length xs) (K p))"
    using shared_listD(1) [OF X] by simp
  moreover have "map2 lowmc_encrypt (replicate (length xs) ks) xs = map (lowmc_encrypt ks) xs"
    by (rule nth_equalityI) simp_all
  ultimately show ?thesis
    using mpc_encrypt_correct [OF shared_keys_replicate [OF K] X _ env]
    by (simp add: encrypt_many_with_same_key_def)
qed

section \<open>Properties\<close>

text \<open>C26: The linear layer by table look-up is multiplication by the round's matrix over the field
  of two elements, whose row masks the tables hold at the positions of a Gray code; in particular
  it may be applied to each component of a sharing.\<close>

theorem lowmc_tables_are_matrices:
  assumes "round < 9"
  shows "linear_layer_word round x = matrix_mult round x \<and>
    bit (linear_layer_word round x) row = (row < 128 \<and>
      parity (\<lambda>col. bit (gray (M4R_MASKS ! round ! (col div 4) ! row)) (col mod 4) \<and> bit x col) [0..<128]) \<and>
    linear_layer_word round (x XOR y) = linear_layer_word round x XOR linear_layer_word round y"
  by (simp add: linear_layer_word_eq [OF assms] matrix_mult_xor)
    (simp add: matrix_mult_def matrix_bit_def mask_at_def)

theorem lowmc_tables_are_matrices_witness:
  "linear_layer_word 3 (5 XOR 9) = matrix_mult 3 5 XOR matrix_mult 3 9"
  using lowmc_tables_are_matrices [of 3 5 0 9] lowmc_tables_are_matrices [of 3 9 0 0] by simp

text \<open>C15: The word-parallel evaluation of LowMC on shared blocks and shared round keys returns, for
  every block, a sharing of its encryption under its own key; the entry point for one key gives the
  same as the general one with that key for every block.\<close>

theorem lowmc_packed_correct:
  assumes "shared_keys K kss" and "shared_list X xs" and "length kss = length xs"
    and "shared_list K1 ks" and "length ks = 10" and "online net" and "correlated rng"
  shows "bindE (encrypt_many net rng K X) (open_many net) = Inr (\<lambda>p. map2 lowmc_encrypt kss xs) \<and>
    bindE (encrypt_many_with_same_key net rng K1 X) (open_many net) = Inr (\<lambda>p. map (lowmc_encrypt ks) xs)"
  using encrypt_many_correct [OF assms(1-3,6,7)] encrypt_many_with_same_key_correct [OF assms(4,5,2,6,7)] assms(6)
  by (auto simp: open_many_correct)

theorem lowmc_packed_correct_witness:
  "bindE (encrypt_many_with_same_key all_online zero_rng (\<lambda>p. promote_public_values p [1, 2, 3, 4, 5, 6, 7, 8, 9, 10])
      (\<lambda>p. promote_public_values p [5, 9])) (open_many all_online) =
    Inr (\<lambda>p. [lowmc_encrypt [1, 2, 3, 4, 5, 6, 7, 8, 9, 10] 5, lowmc_encrypt [1, 2, 3, 4, 5, 6, 7, 8, 9, 10] 9])"
proof -
  have "shared_keys (\<lambda>p. [promote_public_values p (replicate 10 0), promote_public_values p (replicate 10 1)])
      [replicate 10 0, replicate 10 1]"
    by (simp add: shared_keys_def shared_cols_Cons)
  from lowmc_packed_correct [OF this promote_public_values_shared [of "[5, 9]"] _
      promote_public_values_shared [of "[1, 2, 3, 4, 5, 6, 7, 8, 9, 10]"] _ concrete_environment]
  show ?thesis by simp
qed

end
