(* ===== verification/Lowmc_Wires.thy ===== *)
theory Lowmc_Wires
  imports Lowmc
begin

text \<open>
  LowMC on wires: many blocks are encrypted at once, transposed, so that wire \<open>k\<close> is a word holding
  bit \<open>k\<close> of the block of every lane. This theory has the helpers of \<open>lowmc/common.rs\<close> for any lane
  width and what they do to the block of each lane; \<open>bit_sliced.rs\<close> and \<open>packed_u8_lanes.rs\<close> are
  built on them.
\<close>

unbundle bit_operations_syntax

section \<open>The helpers of common.rs\<close>

definition collect_sbox_ands ::
    "'w::len word share list \<Rightarrow> 'w word share list \<times> 'w word share list \<Rightarrow> 'w word share list \<times> 'w word share list" where
  "collect_sbox_ands input = (\<lambda>(lhs, rhs).
     (lhs @ concat (map (\<lambda>i. [input ! (3 * i + 1), input ! (3 * i + 2), input ! (3 * i)]) [0..<42]),
      rhs @ concat (map (\<lambda>i. [input ! (3 * i + 2), input ! (3 * i), input ! (3 * i + 1)]) [0..<42])))"

definition apply_sbox_ands :: "'w::len word share list \<Rightarrow> 'w word share list \<Rightarrow> 'w word share list" where
  "apply_sbox_ands input ands =
     concat (map (\<lambda>i. let a = input ! (3 * i); b = input ! (3 * i + 1); c = input ! (3 * i + 2);
          bc = ands ! (3 * i); ca = ands ! (3 * i + 1); ab = ands ! (3 * i + 2)
        in [xor_share bc a, xor_share (xor_share ca a) b, xor_share (xor_share (xor_share ab a) b) c]) [0..<42]) @
     drop 126 input"

text \<open>\<open>binary::xor_public\<close> adds the trivial sharing of the public value.\<close>

definition xor_public :: "party \<Rightarrow> 'w::len word \<Rightarrow> 'w word share \<Rightarrow> 'w word share" where
  "xor_public p v s = xor_share s (promote_public p v)"

definition xor_constants :: "party \<Rightarrow> nat \<Rightarrow> 'w::len word \<Rightarrow> 'w word share list \<Rightarrow> 'w word share list" where
  "xor_constants p round active_mask state =
     map2 (\<lambda>s constant. if constant then xor_public p active_mask s else s) state (ROUND_CONSTANTS ! round)"

definition add_round_key :: "'w::len word share list \<Rightarrow> 'w word share list \<Rightarrow> 'w word share list" where
  "add_round_key state round_key = map2 xor_share state round_key"

section \<open>Slicing blocks into wires and packing them again\<close>

definition slice_into ::
    "128 word share \<times> 'w::len word \<Rightarrow> 'w word share list \<Rightarrow> 'w word share list" where
  "slice_into = (\<lambda>(block, active_mask) wires. map2 (\<lambda>k wire.
     mk_share (if bit (sh_a block) k then sh_a wire XOR active_mask else sh_a wire)
              (if bit (sh_b block) k then sh_b wire XOR active_mask else sh_b wire)) [0..<128] wires)"

definition bit_slice :: "(128 word share \<times> 'w::len word) list \<Rightarrow> 'w word share list" where
  "bit_slice blocks = fold slice_into blocks (replicate 128 zero_share)"

definition pack_wires :: "'w::len word share list \<Rightarrow> nat \<Rightarrow> 128 word share list" where
  "pack_wires wires len = map (\<lambda>lane. fold (\<lambda>(k, wire) block.
     mk_share (if bit (sh_a wire) lane then sh_a block XOR push_bit k 1 else sh_a block)
              (if bit (sh_b wire) lane then sh_b block XOR push_bit k 1 else sh_b block))
     (enumerate 0 wires) zero_share) [0..<len]"

text \<open>\<open>lane_mask\<close> of both evaluations: the lanes in use, all of them or the lowest \<open>len\<close>.\<close>

definition lane_mask :: "nat \<Rightarrow> 'w::len word" where
  "lane_mask len = (if len = LENGTH('w) then NOT 0 else push_bit len 1 - 1)"

lemma bit_lane_mask:
  assumes "len \<le> LENGTH('w)"
  shows "bit (lane_mask len :: 'w::len word) j \<longleftrightarrow> j < len"
proof (cases "len = LENGTH('w)")
  case False
  have "push_bit len 1 - 1 = (mask len :: 'w word)" by (simp add: mask_eq_exp_minus_1 push_bit_of_1)
  then show ?thesis using False assms by (auto simp: lane_mask_def bit_mask_iff)
qed (auto simp: lane_mask_def bit_simps)

text \<open>The blocks of a slice, one to a lane.\<close>

definition bit_slice_blocks :: "128 word share list \<Rightarrow> 'w::len word share list" where
  "bit_slice_blocks blocks = bit_slice (map (\<lambda>(lane, block). (block, push_bit lane 1)) (enumerate 0 blocks))"

lemma chunk_bounds:
  fixes g n l :: nat
  assumes "0 < n"
  shows "g < (l + n - 1) div n \<longleftrightarrow> g * n < l"
proof -
  have "Suc g \<le> (l + n - 1) div n \<longleftrightarrow> Suc g * n \<le> l + n - 1" using assms by (simp add: less_eq_div_iff_mult_less_eq)
  then show ?thesis using assms by (simp add: Suc_le_eq) arith
qed

lemma concat_take_drop:
  assumes "0 < n"
  shows "concat (map (\<lambda>i. take n (drop (i * n) xs)) [0..<k]) = take (k * n) xs"
  by (induction k) (simp_all add: take_add add.commute [of n])

lemma concat_chunks:
  assumes "0 < n"
  shows "concat (chunks n xs) = xs"
proof -
  have "\<not> (length xs + n - 1) div n * n < length xs" using chunk_bounds [OF assms, of "(length xs + n - 1) div n" "length xs"] by simp
  then show ?thesis unfolding chunks_def concat_take_drop [OF assms] by simp
qed

lemma chunks_length: "length (chunks n xs) = (length xs + n - 1) div n"
  by (simp add: chunks_def)

lemma chunks_nth: "g < (length xs + n - 1) div n \<Longrightarrow> chunks n xs ! g = take n (drop (g * n) xs)"
  by (simp add: chunks_def)

text \<open>What is computed chunk by chunk, position by position, is computed for the whole vector.\<close>

lemma concat_by_chunks:
  assumes "0 < n"
  shows "concat (map (\<lambda>g. map (\<lambda>j. f (g * n + j)) [0..<min n (l - g * n)]) [0..<(l + n - 1) div n]) = map f [0..<l]"
proof -
  have "map (\<lambda>g. map (\<lambda>j. f (g * n + j)) [0..<min n (l - g * n)]) [0..<(l + n - 1) div n] = chunks n (map f [0..<l])"
    unfolding chunks_def by (intro nth_equalityI) (auto intro: nth_equalityI)
  then show ?thesis using concat_chunks [OF assms] by metis
qed

lemma shared_chunks_cols: "shared_list S xs \<Longrightarrow> shared_cols (\<lambda>p. chunks n (S p)) (chunks n xs)"
  by (simp add: shared_cols_def chunks_def shared_listD(1) shared_list_take shared_list_drop)

section \<open>The block of a lane\<close>

definition lane :: "nat \<Rightarrow> 'w::len word list \<Rightarrow> 128 word" where
  "lane j ws = word_of (\<lambda>k. bit (ws ! k) j)"

lemma bit_lane [simp]: "bit (lane j ws) k \<longleftrightarrow> k < 128 \<and> bit (ws ! k) j"
  by (simp add: lane_def)

lemma lane_eqI: "(\<And>k. k < 128 \<Longrightarrow> bit (ws ! k) j = bit x k) \<Longrightarrow> lane j ws = x"
  by (rule bit_word_eqI) simp

definition shared_wires :: "(party \<Rightarrow> 'w::len word share list) \<Rightarrow> 'w word list \<Rightarrow> bool" where
  "shared_wires S ws \<longleftrightarrow> shared_list S ws \<and> length ws = 128"

lemma shared_wiresD:
  assumes "shared_wires S ws"
  shows "length (S p) = 128" "length ws = 128" "k < 128 \<Longrightarrow> shared (\<lambda>p. S p ! k) (ws ! k)" "shared_list S ws"
  using assms shared_listD [of S ws] by (auto simp: shared_wires_def)

lemma shared_wiresI:
  "(\<And>p. length (S p) = 128) \<Longrightarrow> length ws = 128 \<Longrightarrow> (\<And>k. k < 128 \<Longrightarrow> shared (\<lambda>p. S p ! k) (ws ! k)) \<Longrightarrow> shared_wires S ws"
  by (simp add: shared_wires_def shared_list_def)

lemma add_round_key_shared:
  assumes "shared_wires S ws" and "shared_wires K ks"
  shows "shared_wires (\<lambda>p. add_round_key (S p) (K p)) (map2 (XOR) ws ks)" and "lane j (map2 (XOR) ws ks) = lane j ws XOR lane j ks"
proof -
  show "shared_wires (\<lambda>p. add_round_key (S p) (K p)) (map2 (XOR) ws ks)"
    using shared_wiresD [OF assms(1)] shared_wiresD [OF assms(2)]
    by (intro shared_wiresI) (auto simp: add_round_key_def)
  show "lane j (map2 (XOR) ws ks) = lane j ws XOR lane j ks"
    using shared_wiresD(2) [OF assms(1)] shared_wiresD(2) [OF assms(2)]
    by (intro lane_eqI) (simp add: bit_xor_iff)
qed

lemma round_constants_length: "round < 9 \<Longrightarrow> length (ROUND_CONSTANTS ! round) = 128"
  using round_constants_ok by (simp add: list_all_iff)

lemma shared_xor_public: "shared S x \<Longrightarrow> shared (\<lambda>p. xor_public p v (S p)) (x XOR v)"
  unfolding xor_public_def by (rule shared_xor) (auto simp: shared_promote_public)

lemma xor_constants_shared:
  fixes mask :: "'w::len word"
  assumes S: "shared_wires S ws" and r: "round < 9"
  defines "ws' \<equiv> map2 (\<lambda>w constant. if constant then w XOR mask else w) ws (ROUND_CONSTANTS ! round)"
  shows "shared_wires (\<lambda>p. xor_constants p round mask (S p)) ws'"
    and "bit mask j \<Longrightarrow> lane j ws' = lane j ws XOR round_constant round"
proof -
  note l = shared_wiresD [OF S] and c = round_constants_length [OF r]
  show "shared_wires (\<lambda>p. xor_constants p round mask (S p)) ws'"
    using l c by (intro shared_wiresI) (auto simp: xor_constants_def ws'_def intro: shared_xor_public)
  show "bit mask j \<Longrightarrow> lane j ws' = lane j ws XOR round_constant round"
    using l(2) c by (intro lane_eqI) (simp add: ws'_def bit_xor_iff round_constant_def)
qed

section \<open>The S-box layer\<close>

lemma concat_triples_nth:
  fixes f g h :: "nat \<Rightarrow> 'a"
  assumes "i < n"
  defines "xs \<equiv> concat (map (\<lambda>i. [f i, g i, h i]) [0..<n])"
  shows "xs ! (3 * i) = f i" and "xs ! Suc (3 * i) = g i" and "xs ! Suc (Suc (3 * i)) = h i"
proof -
  have "xs ! (3 * i) = f i \<and> xs ! Suc (3 * i) = g i \<and> xs ! Suc (Suc (3 * i)) = h i"
    using assms(1) unfolding xs_def
  proof (induction n)
    case (Suc n)
    have len: "length (concat (map (\<lambda>i. [f i, g i, h i]) [0..<n])) = 3 * n"
      by (simp add: length_concat comp_def sum_list_triv)
    show ?case using Suc len by (cases "i = n") (simp_all add: nth_append)
  qed simp
  then show "xs ! (3 * i) = f i" "xs ! Suc (3 * i) = g i" "xs ! Suc (Suc (3 * i)) = h i" by blast+
qed

lemma length_concat_triples [simp]: "length (concat (map (\<lambda>i. [f i, g i, h i]) [0..<n])) = 3 * n"
  by (simp add: length_concat comp_def sum_list_triv)

definition and_lhs_wires :: "'w::len word list \<Rightarrow> 'w word list" where
  "and_lhs_wires ws = concat (map (\<lambda>i. [ws ! (3 * i + 1), ws ! (3 * i + 2), ws ! (3 * i)]) [0..<42])"

definition and_rhs_wires :: "'w::len word list \<Rightarrow> 'w word list" where
  "and_rhs_wires ws = concat (map (\<lambda>i. [ws ! (3 * i + 2), ws ! (3 * i), ws ! (3 * i + 1)]) [0..<42])"

definition and_wires :: "'w::len word list \<Rightarrow> 'w word list" where
  "and_wires ws = map2 (AND) (and_lhs_wires ws) (and_rhs_wires ws)"

definition sbox_wires :: "'w::len word list \<Rightarrow> 'w word list" where
  "sbox_wires ws = map (\<lambda>k. if 126 \<le> k then ws ! k
     else if k mod 3 = 0 then and_wires ws ! k XOR ws ! k
     else if k mod 3 = 1 then and_wires ws ! k XOR ws ! (k - 1) XOR ws ! k
     else and_wires ws ! k XOR ws ! (k - 2) XOR ws ! (k - 1) XOR ws ! k) [0..<128]"

lemma length_and_wires [simp]: "length (and_lhs_wires ws) = 126" "length (and_rhs_wires ws) = 126" "length (and_wires ws) = 126"
  by (simp_all add: and_lhs_wires_def and_rhs_wires_def and_wires_def)

lemma triple_of:
  assumes "k < (126 :: nat)"
  obtains (first) i where "i < 42" "k = 3 * i" | (second) i where "i < 42" "k = Suc (3 * i)"
    | (third) i where "i < 42" "k = Suc (Suc (3 * i))"
proof -
  have "k = 3 * (k div 3) \<or> k = Suc (3 * (k div 3)) \<or> k = Suc (Suc (3 * (k div 3)))" by presburger
  moreover have "k div 3 < 42" using assms by simp
  ultimately show ?thesis using first second third by blast
qed

lemma triple_mods [simp]: "Suc (3 * i) mod 3 = 1" "Suc (Suc (3 * i)) mod 3 = 2"
  by presburger+

lemma and_wires_nth:
  assumes "i < 42"
  shows "and_wires ws ! (3 * i) = ws ! Suc (3 * i) AND ws ! Suc (Suc (3 * i))"
    and "and_wires ws ! Suc (3 * i) = ws ! Suc (Suc (3 * i)) AND ws ! (3 * i)"
    and "and_wires ws ! Suc (Suc (3 * i)) = ws ! (3 * i) AND ws ! Suc (3 * i)"
  using assms by (simp_all add: and_wires_def and_lhs_wires_def and_rhs_wires_def concat_triples_nth)

lemma collect_shared:
  assumes "shared_wires S ws"
  shows "shared_list (\<lambda>p. concat (map (\<lambda>i. [S p ! (3 * i + 1), S p ! (3 * i + 2), S p ! (3 * i)]) [0..<42])) (and_lhs_wires ws)"
    and "shared_list (\<lambda>p. concat (map (\<lambda>i. [S p ! (3 * i + 2), S p ! (3 * i), S p ! (3 * i + 1)]) [0..<42])) (and_rhs_wires ws)"
proof -
  note w = shared_wiresD(3) [OF assms]
  have "shared (\<lambda>p. concat (map (\<lambda>i. [S p ! (3 * i + 1), S p ! (3 * i + 2), S p ! (3 * i)]) [0..<42]) ! k) (and_lhs_wires ws ! k) \<and>
    shared (\<lambda>p. concat (map (\<lambda>i. [S p ! (3 * i + 2), S p ! (3 * i), S p ! (3 * i + 1)]) [0..<42]) ! k) (and_rhs_wires ws ! k)"
    if k: "k < 126" for k
    using k by (cases rule: triple_of) (simp_all add: and_lhs_wires_def and_rhs_wires_def concat_triples_nth w)
  then show "shared_list (\<lambda>p. concat (map (\<lambda>i. [S p ! (3 * i + 1), S p ! (3 * i + 2), S p ! (3 * i)]) [0..<42])) (and_lhs_wires ws)"
    "shared_list (\<lambda>p. concat (map (\<lambda>i. [S p ! (3 * i + 2), S p ! (3 * i), S p ! (3 * i + 1)]) [0..<42])) (and_rhs_wires ws)"
    by (intro shared_listI; simp del: upt_rec_numeral)+
qed

lemma lane_sbox: "lane j (sbox_wires ws) = sbox_layer (lane j ws)"
proof (rule lane_eqI)
  fix k :: nat assume k: "k < 128"
  show "bit (sbox_wires ws ! k) j = bit (sbox_layer (lane j ws)) k"
  proof (cases "k < 126")
    case True
    then show ?thesis
      by (cases rule: triple_of)
        (auto simp: sbox_wires_def sbox_layer_def sbox_bit_def and_wires_nth bit_xor_iff bit_and_iff)
  qed (use k in \<open>simp add: sbox_wires_def sbox_layer_def sbox_bit_def\<close>)
qed

lemma apply_sbox_shared:
  assumes S: "shared_wires S ws" and A: "\<And>k. k < 126 \<Longrightarrow> shared (\<lambda>p. A p ! k) (and_wires ws ! k)"
  shows "shared_wires (\<lambda>p. apply_sbox_ands (S p) (A p)) (sbox_wires ws)"
proof (rule shared_wiresI)
  note l = shared_wiresD [OF S]
  show "length (apply_sbox_ands (S p) (A p)) = 128" for p
    using l(1) by (simp add: apply_sbox_ands_def Let_def del: upt_rec_numeral)
  show "length (sbox_wires ws) = 128" by (simp add: sbox_wires_def)
  fix k :: nat assume k: "k < 128"
  have n: "apply_sbox_ands (S p) (A p) ! (3 * i) = xor_share (A p ! (3 * i)) (S p ! (3 * i))"
    "apply_sbox_ands (S p) (A p) ! Suc (3 * i) = xor_share (xor_share (A p ! Suc (3 * i)) (S p ! (3 * i))) (S p ! Suc (3 * i))"
    "apply_sbox_ands (S p) (A p) ! Suc (Suc (3 * i)) =
      xor_share (xor_share (xor_share (A p ! Suc (Suc (3 * i))) (S p ! (3 * i))) (S p ! Suc (3 * i))) (S p ! Suc (Suc (3 * i)))"
    if "i < 42" for i p
    using that by (simp_all add: apply_sbox_ands_def Let_def nth_append concat_triples_nth del: upt_rec_numeral)
  show "shared (\<lambda>p. apply_sbox_ands (S p) (A p) ! k) (sbox_wires ws ! k)"
  proof (cases "k < 126")
    case True
    then show ?thesis
      by (cases rule: triple_of)
        (auto simp: n sbox_wires_def xor.assoc [symmetric] intro!: shared_xor A l(3))
  next
    case False
    then have "apply_sbox_ands (S p) (A p) ! k = S p ! k" for p
      using k l(1) by (simp add: apply_sbox_ands_def Let_def nth_append del: upt_rec_numeral)
    then show ?thesis using l(3) [OF k] False k by (simp add: sbox_wires_def)
  qed
qed

section \<open>Slicing and packing, lane by lane\<close>

definition slice_step :: "128 word \<times> 'w::len word \<Rightarrow> 'w word list \<Rightarrow> 'w word list" where
  "slice_step = (\<lambda>(x, m) ws. map2 (\<lambda>k w. if bit x k then w XOR m else w) [0..<128] ws)"

lemma slice_into_shared:
  fixes m :: "'w::len word"
  assumes B: "shared B x" and S: "shared_wires S ws"
  shows "shared_wires (\<lambda>p. slice_into (B p, m) (S p)) (slice_step (x, m) ws)"
proof (rule shared_wiresI)
  note l = shared_wiresD [OF S]
  show "length (slice_into (B p, m) (S p)) = 128" for p using l(1) by (simp add: slice_into_def)
  show "length (slice_step (x, m) ws) = 128" using l(2) by (simp add: slice_step_def)
  fix k :: nat assume k: "k < 128"
  have "shared (\<lambda>p. map_share (\<lambda>w. if bit w k then m else 0) (B p)) (if bit x k then m else 0)"
    by (rule shared_map [OF B]) (auto simp: bit_xor_iff)
  from shared_xor [OF l(3) [OF k] this]
  have "shared (\<lambda>p. xor_share (S p ! k) (map_share (\<lambda>w. if bit w k then m else 0) (B p))) (ws ! k XOR (if bit x k then m else 0))" .
  moreover have "slice_into (B p, m) (S p) ! k = xor_share (S p ! k) (map_share (\<lambda>w. if bit w k then m else 0) (B p))" for p
    using l(1) k by (simp add: slice_into_def xor_share_def map_share_def)
  moreover have "slice_step (x, m) ws ! k = ws ! k XOR (if bit x k then m else 0)" using l(2) k by (simp add: slice_step_def)
  ultimately show "shared (\<lambda>p. slice_into (B p, m) (S p) ! k) (slice_step (x, m) ws ! k)" by simp
qed

lemma lane_slice_step:
  "length ws = 128 \<Longrightarrow> lane j (slice_step (x, m) ws) = (if bit m j then lane j ws XOR x else lane j ws)"
  by (intro lane_eqI) (auto simp: slice_step_def bit_xor_iff)

lemma shared_wires_zero: "shared_wires (\<lambda>p. replicate 128 zero_share) (replicate 128 0)"
  by (rule shared_wiresI) auto

lemma lane_zero [simp]: "lane j (replicate 128 0) = 0"
  by (rule lane_eqI) simp

lemma bit_slice_shared:
  assumes "shared_list B xs" and "length ms = length xs"
  shows "shared_wires (\<lambda>p. bit_slice (zip (B p) ms)) (fold slice_step (zip xs ms) (replicate 128 0))"
proof -
  have "shared_wires (\<lambda>p. fold slice_into (zip (B p) ms) (S p)) (fold slice_step (zip xs ms) ws)" if "shared_wires S ws" for S :: "party \<Rightarrow> 'a word share list" and ws
    using assms that
  proof (induction xs arbitrary: B ms S ws)
    case Nil
    then show ?case by (auto simp: shared_list_def)
  next
    case (Cons x xs)
    obtain m ms' where ms: "ms = m # ms'" "length ms' = length xs" using Cons.prems(2) by (cases ms) auto
    have B: "B p = hd (B p) # tl (B p)" for p using shared_listD(1) [OF Cons.prems(1), of p] by (cases "B p") auto
    have ne: "B p \<noteq> []" for p using shared_listD(1) [OF Cons.prems(1), of p] by auto
    have hd: "shared (\<lambda>p. hd (B p)) x"
      using shared_listD(2) [OF Cons.prems(1), of 0] ne by (simp add: hd_conv_nth)
    have tl: "shared_list (\<lambda>p. tl (B p)) xs"
      using shared_listD(1) [OF Cons.prems(1)] shared_listD(2) [OF Cons.prems(1), of "Suc i" for i]
      by (intro shared_listI) (simp_all add: nth_tl)
    from Cons.IH [OF tl ms(2) slice_into_shared [OF hd Cons.prems(3), of m]] show ?case
      by (subst B) (simp add: ms(1))
  qed
  from this [OF shared_wires_zero] show ?thesis by (simp add: bit_slice_def)
qed

lemma length_slice_step [simp]: "length ws = 128 \<Longrightarrow> length (slice_step xm ws) = 128"
  by (cases xm) (simp add: slice_step_def)

text \<open>Every block in a lane of its own, from lane \<open>k\<close> on.\<close>

lemma lane_slices:
  assumes "length ws = 128" and "j < LENGTH('w)"
  shows "lane j (fold slice_step (zip xs (map (\<lambda>i. push_bit i 1) [k..<k + length xs])) (ws :: 'w::len word list)) =
    (if k \<le> j \<and> j < k + length xs then lane j ws XOR xs ! (j - k) else lane j ws)"
  using assms(1)
proof (induction xs arbitrary: k ws)
  case (Cons x xs)
  have e: "[k..<k + length (x # xs)] = k # [Suc k..<Suc k + length xs]" by (simp add: upt_conv_Cons del: upt_Suc)
  have "bit (push_bit k 1 :: 'w word) j \<longleftrightarrow> j = k" using assms(2) by (auto simp: bit_simps)
  then show ?case
    using Cons.prems unfolding e list.map zip_Cons_Cons fold_simps
    by (simp only: Cons.IH length_slice_step) (auto simp: lane_slice_step nth_Cons' Suc_diff_le)
qed auto

lemma pack_wires_eq:
  assumes "length wires = 128"
  shows "pack_wires wires len = map (\<lambda>j. mk_share (lane j (map sh_a wires)) (lane j (map sh_b wires))) [0..<len]"
proof -
  let ?f = "\<lambda>j (k, wire) block. mk_share (if bit (sh_a wire) j then sh_a block XOR push_bit k 1 else sh_a block)
      (if bit (sh_b wire) j then sh_b block XOR push_bit k 1 else sh_b block)"
  have bits: "bit (sh_a (fold (?f j) (enumerate k ws) b)) i =
      (bit (sh_a b) i \<noteq> (i < 128 \<and> k \<le> i \<and> i < k + length ws \<and> bit (sh_a (ws ! (i - k))) j)) \<and>
    bit (sh_b (fold (?f j) (enumerate k ws) b)) i =
      (bit (sh_b b) i \<noteq> (i < 128 \<and> k \<le> i \<and> i < k + length ws \<and> bit (sh_b (ws ! (i - k))) j))"
    for j k i ws and b :: "128 word share"
  proof (induction ws arbitrary: k b)
    case (Cons w ws)
    have n: "(w # ws) ! (i - k) = ws ! (i - Suc k)" if "k < i" using that by (simp add: nth_Cons')
    have e: "fold (?f j) (enumerate k (w # ws)) b = fold (?f j) (enumerate (Suc k) ws) (?f j (k, w) b)" by simp
    show ?case unfolding e by (simp only: Cons.IH) (cases "i = k"; auto simp: bit_simps n not_le)
  qed simp
  show ?thesis
    unfolding pack_wires_def
  proof (rule map_cong)
    fix j
    let ?r = "fold (?f j) (enumerate 0 wires) zero_share"
    have "sh_a ?r = lane j (map sh_a wires)" "sh_b ?r = lane j (map sh_b wires)"
      by (rule bit_word_eqI, use bits [of j 0 wires zero_share] assms in \<open>simp add: zero_share_def\<close>)+
    then show "?r = mk_share (lane j (map sh_a wires)) (lane j (map sh_b wires))" by (cases ?r) simp
  qed simp
qed

lemma lane_map_xor: "length vs = 128 \<Longrightarrow> length ws = 128 \<Longrightarrow> lane j (map2 (XOR) vs ws) = lane j vs XOR lane j ws"
  by (intro lane_eqI) (simp add: bit_xor_iff)

lemma lane_shared:
  assumes "shared_wires S ws"
  shows "shared (\<lambda>p. mk_share (lane j (map sh_a (S p))) (lane j (map sh_b (S p)))) (lane j ws)"
proof -
  note l = shared_wiresD [OF assms]
  have "sh_b (S p ! k) = sh_a (S (prev_party p) ! k)" if "k < 128" for k p using sharedD(1) [OF l(3) [OF that]] .
  then have b: "lane j (map sh_b (S p)) = lane j (map sh_a (S (prev_party p)))" for p
    using l(1) by (intro lane_eqI) simp
  have "bit (ws ! k) j = bit (sh_a (S ID0 ! k) XOR sh_a (S ID1 ! k) XOR sh_a (S ID2 ! k)) j" if "k < 128" for k
    using l(3) [OF that] by (simp add: shared_def)
  then have "lane j (map sh_a (S ID0)) XOR lane j (map sh_a (S ID1)) XOR lane j (map sh_a (S ID2)) = lane j ws"
    using l(1) by (intro bit_word_eqI) (simp add: bit_xor_iff)
  then show ?thesis using b by (simp add: shared_def)
qed

lemma pack_wires_shared:
  assumes "shared_wires S ws"
  shows "shared_list (\<lambda>p. pack_wires (S p) len) (map (\<lambda>j. lane j ws) [0..<len])"
  using lane_shared [OF assms] shared_wiresD(1) [OF assms]
  by (intro shared_listI) (simp_all add: pack_wires_eq)

section \<open>Groups of wires\<close>

text \<open>Each group holds up to as many blocks as a wire has lanes; one batch of ANDs serves all groups.\<close>

definition shared_groups :: "(party \<Rightarrow> 'w::len word share list list) \<Rightarrow> 'w word list list \<Rightarrow> bool" where
  "shared_groups G wss \<longleftrightarrow> (\<forall>p. length (G p) = length wss) \<and> (\<forall>g < length wss. shared_wires (\<lambda>p. G p ! g) (wss ! g))"

lemma shared_groupsI:
  "(\<And>p. length (G p) = length wss) \<Longrightarrow> (\<And>g. g < length wss \<Longrightarrow> shared_wires (\<lambda>p. G p ! g) (wss ! g)) \<Longrightarrow> shared_groups G wss"
  by (simp add: shared_groups_def)

lemma shared_groupsD:
  assumes "shared_groups G wss"
  shows "length (G p) = length wss" and "g < length wss \<Longrightarrow> shared_wires (\<lambda>p. G p ! g) (wss ! g)"
  using assms by (simp_all add: shared_groups_def)

lemma collect_many:
  "fold collect_sbox_ands inputs (lhs, rhs) =
    (lhs @ concat (map (\<lambda>input. concat (map (\<lambda>i. [input ! (3 * i + 1), input ! (3 * i + 2), input ! (3 * i)]) [0..<42])) inputs),
     rhs @ concat (map (\<lambda>input. concat (map (\<lambda>i. [input ! (3 * i + 2), input ! (3 * i), input ! (3 * i + 1)]) [0..<42])) inputs))"
  by (induction inputs arbitrary: lhs rhs) (simp_all add: collect_sbox_ands_def del: upt_rec_numeral)

lemma map2_concat:
  assumes "\<And>x. x \<in> set xs \<Longrightarrow> length (f x) = length (g x)"
  shows "map2 h (concat (map f xs)) (concat (map g xs)) = concat (map (\<lambda>x. map2 h (f x) (g x)) xs)"
  using assms by (induction xs) simp_all

lemma sbox_inputs_shared:
  assumes G: "shared_groups G wss"
  shows "\<exists>L R. shared_list (\<lambda>p. fst (fold collect_sbox_ands (G p) ([], []))) L \<and>
    shared_list (\<lambda>p. snd (fold collect_sbox_ands (G p) ([], []))) R \<and>
    length L = length R \<and> map2 (AND) L R = concat (map and_wires wss)"
proof -
  let ?L = "\<lambda>input. concat (map (\<lambda>i. [input ! (3 * i + 1), input ! (3 * i + 2), input ! (3 * i)]) [0..<42])"
  let ?R = "\<lambda>input. concat (map (\<lambda>i. [input ! (3 * i + 2), input ! (3 * i), input ! (3 * i + 1)]) [0..<42])"
  have cols: "shared_cols (\<lambda>p. map ?L (G p)) (map and_lhs_wires wss)" "shared_cols (\<lambda>p. map ?R (G p)) (map and_rhs_wires wss)"
  proof -
    have "shared_list (\<lambda>p. ?L (G p ! g)) (and_lhs_wires (wss ! g)) \<and> shared_list (\<lambda>p. ?R (G p ! g)) (and_rhs_wires (wss ! g))"
      if "g < length wss" for g using collect_shared [OF shared_groupsD(2) [OF G that]] by blast
    then show "shared_cols (\<lambda>p. map ?L (G p)) (map and_lhs_wires wss)" "shared_cols (\<lambda>p. map ?R (G p)) (map and_rhs_wires wss)"
      using shared_groupsD(1) [OF G] by (simp_all add: shared_cols_def del: upt_rec_numeral)
  qed
  have len: "length (concat (map and_lhs_wires wss)) = length (concat (map and_rhs_wires wss))"
    by (simp add: length_concat comp_def)
  have "map2 (AND) (concat (map and_lhs_wires wss)) (concat (map and_rhs_wires wss)) = concat (map and_wires wss)"
    by (subst map2_concat) (simp_all add: and_wires_def [abs_def])
  then show ?thesis
    using cols [THEN shared_list_concat] len by (simp add: collect_many del: upt_rec_numeral) blast
qed

lemma sbox_groups_ok:
  assumes "and_protocol and_vec True" and G: "shared_groups G wss"
  shows "\<exists>A. and_vec (\<lambda>p. fst (fold collect_sbox_ands (G p) ([], []))) (\<lambda>p. snd (fold collect_sbox_ands (G p) ([], []))) = Inr A \<and>
    shared_list A (concat (map and_wires wss))"
proof -
  obtain L R where "shared_list (\<lambda>p. fst (fold collect_sbox_ands (G p) ([], []))) L" "shared_list (\<lambda>p. snd (fold collect_sbox_ands (G p) ([], []))) R"
    "length L = length R" "map2 (AND) L R = concat (map and_wires wss)" using sbox_inputs_shared [OF G] by blast
  from and_protocol.and_vec_ok [OF assms(1) _ this(1-3)] this(4) show ?thesis by simp
qed

lemma nth_group_ands:
  assumes "shared_list A (concat (map and_wires wss))" and "g < length wss" and "k < 126"
  shows "shared (\<lambda>p. A p ! (g * 126 + k)) (and_wires (wss ! g) ! k)"
proof -
  have "g * 126 + k < length (concat (map and_wires wss)) \<and> concat (map and_wires wss) ! (g * 126 + k) = and_wires (wss ! g) ! k"
    using assms(2)
  proof (induction wss arbitrary: g)
    case (Cons ws wss)
    then show ?case using assms(3) by (cases g) (simp_all add: nth_append)
  qed simp
  then show ?thesis using shared_listD(2) [OF assms(1)] by metis
qed

section \<open>The linear layer as an interface\<close>

text \<open>
  What an implementation of the linear layer on wires owes to the rest of a round: a sharing of
  wires stays one, and the block of every active lane is multiplied by the round's matrix.
\<close>

locale lane_linear =
  fixes linear :: "nat \<Rightarrow> 'w::len word share list \<Rightarrow> 'w word share list"
    and active :: "nat \<Rightarrow> bool"
  assumes linear_ok: "shared_wires S ws \<Longrightarrow> round < 9 \<Longrightarrow>
    \<exists>ws'. shared_wires (\<lambda>p. linear round (S p)) ws' \<and> (\<forall>j. active j \<longrightarrow> lane j ws' = matrix_mult round (lane j ws))"
begin

lemma finish_round:
  assumes S: "shared_wires S ws" and A: "\<And>k. k < 126 \<Longrightarrow> shared (\<lambda>p. A p ! k) (and_wires ws ! k)"
    and K: "shared_wires K kws" and r: "round < 9" and am: "\<And>j. active j \<Longrightarrow> bit am j"
  shows "\<exists>ws'. shared_wires (\<lambda>p. add_round_key (xor_constants p round am (linear round (apply_sbox_ands (S p) (A p)))) (K p)) ws' \<and>
    (\<forall>j. active j \<longrightarrow> lane j ws' = matrix_mult round (sbox_layer (lane j ws)) XOR round_constant round XOR lane j kws)"
proof -
  obtain vs where vs: "shared_wires (\<lambda>p. linear round (apply_sbox_ands (S p) (A p))) vs"
    "\<forall>j. active j \<longrightarrow> lane j vs = matrix_mult round (lane j (sbox_wires ws))"
    using linear_ok [OF apply_sbox_shared [OF S A] r] by blast
  note c = xor_constants_shared [OF vs(1) r, of am]
  note k = add_round_key_shared [OF c(1) K]
  show ?thesis
    using k(1) vs(2) am c(2) by (intro exI conjI) (auto simp: k(2) lane_sbox xor.assoc)
qed

end

text \<open>Rounds that act on every group as \<open>lowmc_round\<close> acts on its blocks encrypt them.\<close>

lemma wire_rounds:
  assumes step: "\<And>r G wss. r < 9 \<Longrightarrow> shared_groups G wss \<Longrightarrow> length wss = n \<Longrightarrow>
      \<exists>G' wss'. f r G = Inr G' \<and> shared_groups G' wss' \<and> length wss' = n \<and>
        (\<forall>g < n. \<forall>j < lens g. lane j (wss' ! g) = lowmc_round (keys g j) r (lane j (wss ! g)))"
    and "\<forall>r \<in> set rounds. r < 9" and "shared_groups G wss" and "length wss = n"
  shows "\<exists>G' wss'. foldE f rounds G = Inr G' \<and> shared_groups G' wss' \<and> length wss' = n \<and>
    (\<forall>g < n. \<forall>j < lens g. lane j (wss' ! g) = fold (lowmc_round (keys g j)) rounds (lane j (wss ! g)))"
  using assms(2-)
proof (induction rounds arbitrary: G wss)
  case (Cons r rounds)
  obtain G1 wss1 where g1: "f r G = Inr G1" "shared_groups G1 wss1" "length wss1 = n"
    "\<forall>g < n. \<forall>j < lens g. lane j (wss1 ! g) = lowmc_round (keys g j) r (lane j (wss ! g))"
    using step [of r G wss] Cons.prems by auto
  have rs: "\<forall>r \<in> set rounds. r < 9" using Cons.prems by simp
  obtain G2 wss2 where "foldE f rounds G1 = Inr G2" "shared_groups G2 wss2" "length wss2 = n"
    "\<forall>g < n. \<forall>j < lens g. lane j (wss2 ! g) = fold (lowmc_round (keys g j)) rounds (lane j (wss1 ! g))"
    using Cons.IH [OF rs g1(2,3)] by blast
  then show ?case using g1(1,4) by (intro exI [of _ G2] exI [of _ wss2]) simp
qed auto

section \<open>A round on groups of wires\<close>

text \<open>Sliced round keys: for every group the ten keys of each of its lanes.\<close>

definition shared_key_groups ::
    "(party \<Rightarrow> 'w::len word share list list list) \<Rightarrow> nat \<Rightarrow> (nat \<Rightarrow> nat) \<Rightarrow> (nat \<Rightarrow> nat \<Rightarrow> 128 word list) \<Rightarrow> bool" where
  "shared_key_groups K n lens keys \<longleftrightarrow> (\<forall>p. length (K p) = n) \<and> (\<forall>g < n. \<forall>r < 10. \<exists>kws.
     shared_wires (\<lambda>p. K p ! g ! r) kws \<and> (\<forall>j < lens g. lane j kws = keys g j ! r))"

lemma shared_key_groupsE:
  assumes "shared_key_groups K n lens keys" and "g < n" and "r < 10"
  obtains kws where "shared_wires (\<lambda>p. K p ! g ! r) kws" and "\<And>j. j < lens g \<Longrightarrow> lane j kws = keys g j ! r"
  using assms unfolding shared_key_groups_def by blast

lemma groups_by_choice:
  assumes "\<And>p. length (G p) = n" and "\<And>g. g < n \<Longrightarrow> \<exists>ws. shared_wires (\<lambda>p. G p ! g) ws \<and> P g ws"
  obtains wss where "shared_groups G wss" and "length wss = n" and "\<And>g. g < n \<Longrightarrow> P g (wss ! g)"
proof -
  obtain f where "\<And>g. g < n \<Longrightarrow> shared_wires (\<lambda>p. G p ! g) (f g) \<and> P g (f g)" using assms(2) by metis
  with that [of "map f [0..<n]"] show ?thesis using assms(1) by (simp add: shared_groups_def)
qed

lemma group_start:
  assumes G: "shared_groups G wss" and K: "shared_key_groups K (length wss) lens keys"
  obtains wss' where "shared_groups (\<lambda>p. map2 (\<lambda>states round_keys. add_round_key states (round_keys ! 0)) (G p) (K p)) wss'"
    and "length wss' = length wss"
    and "\<And>g j. g < length wss \<Longrightarrow> j < lens g \<Longrightarrow> lane j (wss' ! g) = lane j (wss ! g) XOR keys g j ! 0"
proof -
  let ?G = "\<lambda>p. map2 (\<lambda>states round_keys. add_round_key states (round_keys ! 0)) (G p) (K p)"
  have l: "length (G p) = length wss" "length (K p) = length wss" for p
    using shared_groupsD(1) [OF G] K by (simp_all add: shared_key_groups_def)
  have "\<exists>ws. shared_wires (\<lambda>p. ?G p ! g) ws \<and> (\<forall>j < lens g. lane j ws = lane j (wss ! g) XOR keys g j ! 0)"
    if g: "g < length wss" for g
  proof -
    obtain kws where k: "shared_wires (\<lambda>p. K p ! g ! 0) kws" "\<And>j. j < lens g \<Longrightarrow> lane j kws = keys g j ! 0"
      using shared_key_groupsE [OF K g, of 0] by auto
    note s = shared_groupsD(2) [OF G g]
    show ?thesis using add_round_key_shared [OF s k(1)] k(2) l g by (intro exI [of _ "map2 (XOR) (wss ! g) kws"]) simp
  qed
  then show ?thesis
  proof (rule groups_by_choice [rotated])
    show "length (?G p) = length wss" for p using l by simp
  qed (assumption, rule that, blast+)
qed

lemma group_round:
  assumes G: "shared_groups G wss" and K: "shared_key_groups K (length wss) lens keys" and r: "r < 9"
    and lin: "\<And>g. g < length wss \<Longrightarrow> lane_linear (linear g) (\<lambda>j. j < lens g)"
    and am: "\<And>g j. g < length wss \<Longrightarrow> j < lens g \<Longrightarrow> bit (am g) j"
    and A: "\<And>g k. g < length wss \<Longrightarrow> k < 126 \<Longrightarrow> shared (\<lambda>p. A p g ! k) (and_wires (wss ! g) ! k)"
    and G': "\<And>p. length (G' p) = length wss"
      "\<And>p g. g < length wss \<Longrightarrow> G' p ! g =
         add_round_key (xor_constants p r (am g) (linear g r (apply_sbox_ands (G p ! g) (A p g)))) (K p ! g ! (r + 1))"
  shows "\<exists>wss'. shared_groups G' wss' \<and> length wss' = length wss \<and>
    (\<forall>g < length wss. \<forall>j < lens g. lane j (wss' ! g) = lowmc_round (keys g j) r (lane j (wss ! g)))"
proof -
  have "\<exists>ws. shared_wires (\<lambda>p. G' p ! g) ws \<and> (\<forall>j < lens g. lane j ws = lowmc_round (keys g j) r (lane j (wss ! g)))"
    if g: "g < length wss" for g
  proof -
    obtain kws where k: "shared_wires (\<lambda>p. K p ! g ! (r + 1)) kws" "\<And>j. j < lens g \<Longrightarrow> lane j kws = keys g j ! (r + 1)"
      using shared_key_groupsE [OF K g, of "r + 1"] r by auto
    obtain ws' where "shared_wires (\<lambda>p. add_round_key (xor_constants p r (am g) (linear g r (apply_sbox_ands (G p ! g) (A p g)))) (K p ! g ! (r + 1))) ws'"
      "\<forall>j < lens g. lane j ws' = matrix_mult r (sbox_layer (lane j (wss ! g))) XOR round_constant r XOR lane j kws"
      using lane_linear.finish_round [OF lin [OF g] shared_groupsD(2) [OF G g] A [OF g] k(1) r am [OF g]] by blast
    then show ?thesis using k(2) G'(2) [OF g] by (intro exI [of _ ws']) (simp add: lowmc_round_def)
  qed
  then show ?thesis by (rule groups_by_choice [OF G'(1)]) (assumption, blast)
qed

lemma group_pack:
  assumes G: "shared_groups G wss" and l: "length lens = length wss"
  shows "shared_cols (\<lambda>p. map2 pack_wires (G p) lens) (map2 (\<lambda>ws len. map (\<lambda>j. lane j ws) [0..<len]) wss lens)"
  using shared_groupsD [OF G] l by (auto simp: shared_cols_def intro: pack_wires_shared)

lemma bit_slice_blocks_shared:
  assumes "shared_list B xs" and "length xs \<le> LENGTH('w)"
  shows "\<exists>ws :: 'w::len word list. shared_wires (\<lambda>p. bit_slice_blocks (B p)) ws \<and> (\<forall>j < length xs. lane j ws = xs ! j)"
proof -
  let ?ms = "map (\<lambda>i. push_bit i 1 :: 'w word) [0..<length xs]"
  have e: "bit_slice_blocks (B p) = bit_slice (zip (B p) ?ms)" for p
    unfolding bit_slice_blocks_def using shared_listD(1) [OF assms(1), of p]
    by (intro arg_cong [of _ _ bit_slice] nth_equalityI) (simp_all add: nth_enumerate_eq)
  have "shared_wires (\<lambda>p. bit_slice_blocks (B p)) (fold slice_step (zip xs ?ms) (replicate 128 0))"
    unfolding e by (rule bit_slice_shared [OF assms(1)]) simp
  moreover have "lane j (fold slice_step (zip xs ?ms) (replicate 128 0)) = xs ! j" if "j < length xs" for j
    using lane_slices [of "replicate 128 0 :: 'w word list" j xs 0] that assms(2) by simp
  ultimately show ?thesis by blast
qed

end
