(* ===== verification/Lowmc_Lanes.thy ===== *)
theory Lowmc_Lanes
  imports Lowmc_Wires
begin

text \<open>
  LowMC on byte lanes, \<open>crates/circuits/src/lowmc/packed_u8_lanes.rs\<close>: few blocks at a time, eight to
  a group, on wires of one byte. The linear layer turns the bytes into the eight blocks and back by
  transposing bits; the ANDs of all groups are one batch, masked with 16 bytes per random draw.
\<close>

unbundle bit_operations_syntax

section \<open>Transposing eight bytes\<close>

definition u64_from_le_bytes :: "8 word list \<Rightarrow> 64 word" where
  "u64_from_le_bytes bytes = word_of (\<lambda>k. bit (bytes ! (k div 8)) (k mod 8))"

definition u64_to_le_bytes :: "64 word \<Rightarrow> 8 word list" where
  "u64_to_le_bytes value = map (\<lambda>i. ucast (drop_bit (8 * i) value)) [0..<8]"

definition transpose_bytes :: "8 word list \<Rightarrow> 8 word list" where
  "transpose_bytes bytes =
     (let value = u64_from_le_bytes bytes;
          swap = (value XOR drop_bit 7 value) AND 0x00aa00aa00aa00aa;
          value = value XOR (swap XOR push_bit 7 swap);
          swap = (value XOR drop_bit 14 value) AND 0x0000cccc0000cccc;
          value = value XOR (swap XOR push_bit 14 swap);
          swap = (value XOR drop_bit 28 value) AND 0x00000000f0f0f0f0
      in u64_to_le_bytes (value XOR swap XOR push_bit 28 swap))"

text \<open>Each exchange moves bits as \<open>delta\<close> says; the three together transpose.\<close>

definition delta :: "64 word \<Rightarrow> nat \<Rightarrow> nat \<Rightarrow> nat" where
  "delta m s k = (if bit m k then k + s else if s \<le> k \<and> bit m (k - s) then k - s else k)"

definition delta_ok :: "64 word \<Rightarrow> nat \<Rightarrow> bool" where
  "delta_ok m s \<longleftrightarrow> (\<forall>k \<in> set [0..<64]. bit m k \<longrightarrow> k + s < 64 \<and> \<not> (s \<le> k \<and> bit m (k - s)))"

lemma bit_delta_swap:
  assumes "delta_ok m s" and "k < 64"
  shows "bit (v XOR ((v XOR drop_bit s v) AND m) XOR push_bit s ((v XOR drop_bit s v) AND m)) k = bit v (delta m s k)"
proof -
  have "bit m k \<Longrightarrow> k + s < 64 \<and> \<not> (s \<le> k \<and> bit m (k - s))" using assms by (auto simp: delta_ok_def)
  then show ?thesis using assms(2) by (auto simp: delta_def bit_simps add.commute)
qed

lemma transpose_masks:
  "delta_ok 0x00aa00aa00aa00aa 7" "delta_ok 0x0000cccc0000cccc 14" "delta_ok 0x00000000f0f0f0f0 28"
  "\<forall>k \<in> set [0..<64]. delta 0x00000000f0f0f0f0 28 k < 64 \<and> delta 0x0000cccc0000cccc 14 (delta 0x00000000f0f0f0f0 28 k) < 64 \<and>
     delta 0x00aa00aa00aa00aa 7 (delta 0x0000cccc0000cccc 14 (delta 0x00000000f0f0f0f0 28 k)) = 8 * (k mod 8) + k div 8"
  by code_simp+

lemma transpose_bits:
  assumes "i < 8" and "j < 8"
  shows "bit (transpose_bytes bytes ! i) j = bit (bytes ! j) i"
proof -
  define v0 where "v0 = u64_from_le_bytes bytes"
  define v1 where "v1 = v0 XOR ((v0 XOR drop_bit 7 v0) AND 0x00aa00aa00aa00aa) XOR push_bit 7 ((v0 XOR drop_bit 7 v0) AND 0x00aa00aa00aa00aa)"
  define v2 where "v2 = v1 XOR ((v1 XOR drop_bit 14 v1) AND 0x0000cccc0000cccc) XOR push_bit 14 ((v1 XOR drop_bit 14 v1) AND 0x0000cccc0000cccc)"
  define v3 where "v3 = v2 XOR ((v2 XOR drop_bit 28 v2) AND 0x00000000f0f0f0f0) XOR push_bit 28 ((v2 XOR drop_bit 28 v2) AND 0x00000000f0f0f0f0)"
  have t: "transpose_bytes bytes = u64_to_le_bytes v3"
    by (simp only: transpose_bytes_def Let_def v0_def v1_def v2_def v3_def xor.assoc)
  let ?k = "8 * i + j"
  have k: "?k < 64" "?k mod 8 = j" "?k div 8 = i" using assms by auto
  have m: "?k \<in> set [0..<64]" using k(1) unfolding set_upt atLeastLessThan_iff by blast
  have d: "delta 0x00000000f0f0f0f0 28 ?k < 64" "delta 0x0000cccc0000cccc 14 (delta 0x00000000f0f0f0f0 28 ?k) < 64"
    "delta 0x00aa00aa00aa00aa 7 (delta 0x0000cccc0000cccc 14 (delta 0x00000000f0f0f0f0 28 ?k)) = 8 * j + i"
    using bspec [OF transpose_masks(4) m, unfolded k(2,3)] by blast+
  have "bit (transpose_bytes bytes ! i) j = bit v3 ?k"
    using assms by (simp add: t u64_to_le_bytes_def bit_simps)
  also have "\<dots> = bit v0 (8 * j + i)"
    using bit_delta_swap [OF transpose_masks(3) k(1), of v2] bit_delta_swap [OF transpose_masks(2) d(1), of v1]
      bit_delta_swap [OF transpose_masks(1) d(2), of v0] d(3) by (simp only: v1_def v2_def v3_def)
  also have "\<dots> = bit (bytes ! j) i" using assms by (simp add: v0_def u64_from_le_bytes_def)
  finally show ?thesis .
qed


section \<open>The linear layer\<close>

definition gather_lanes :: "8 word share list \<Rightarrow> 128 word share list" where
  "gather_lanes input = fold (\<lambda>(byte, wires) lanes.
     let a = transpose_bytes (map sh_a wires); b = transpose_bytes (map sh_b wires)
     in map2 (\<lambda>lane s. mk_share (sh_a s OR push_bit (byte * 8) (ucast (a ! lane)))
                              (sh_b s OR push_bit (byte * 8) (ucast (b ! lane)))) [0..<8] lanes)
     (enumerate 0 (chunks 8 input)) (replicate 8 zero_share)"

definition scatter_lanes :: "128 word share list \<Rightarrow> 8 word share list" where
  "scatter_lanes lanes = concat (map (\<lambda>byte.
     let a = transpose_bytes (map (\<lambda>i. ucast (drop_bit (byte * 8) (sh_a (lanes ! i)))) [0..<8]);
         b = transpose_bytes (map (\<lambda>i. ucast (drop_bit (byte * 8) (sh_b (lanes ! i)))) [0..<8])
     in map (\<lambda>i. mk_share (a ! i) (b ! i)) [0..<8]) [0..<16])"

definition four_russians_into :: "nat \<Rightarrow> nat \<Rightarrow> 8 word share list \<Rightarrow> 8 word share list" where
  "four_russians_into num_lanes round input =
     (let lanes = gather_lanes input
      in scatter_lanes (map (mpc_linear_layer round) (take num_lanes lanes) @ drop num_lanes lanes))"

lemma concat_bytes: "concat (map (\<lambda>byte. map (\<lambda>i. f (byte * 8 + i)) [0..<8]) [0..<16]) = map f [0..<128 :: nat]"
proof -
  have e: "map (\<lambda>byte. map (\<lambda>i. f (byte * 8 + i)) [0..<8]) [0..<16] =
      map (\<lambda>byte. map (\<lambda>i. f (byte * 8 + i)) [0..<min 8 (128 - byte * 8)]) [0..<16]"
    by (rule map_cong) (auto simp: min_def simp del: upt_rec_numeral)
  show ?thesis unfolding e using concat_by_chunks [of 8 f 128] by (simp del: upt_rec_numeral)
qed

lemma scatter_lanes_eq:
  "scatter_lanes lanes = map (\<lambda>k. mk_share (word_of (\<lambda>j. bit (sh_a (lanes ! j)) k)) (word_of (\<lambda>j. bit (sh_b (lanes ! j)) k))) [0..<128]"
proof -
  have t: "transpose_bytes (map (\<lambda>i. ucast (drop_bit (byte * 8) (g i))) [0..<8]) ! i = word_of (\<lambda>j. bit (g j) (byte * 8 + i))"
    if "i < 8" for i byte and g :: "nat \<Rightarrow> 128 word"
    by (rule bit_word_eqI) (use that in \<open>simp add: transpose_bits bit_simps del: upt_rec_numeral\<close>)
  show ?thesis
    unfolding concat_bytes [symmetric] scatter_lanes_def Let_def
    by (intro arg_cong [of _ _ concat] map_cong refl) (simp add: t del: upt_rec_numeral)
qed

lemma gather_lanes_eq:
  assumes "length input = 128"
  shows "gather_lanes input = map (\<lambda>j. mk_share (lane j (map sh_a input)) (lane j (map sh_b input))) [0..<8]"
proof -
  let ?step = "\<lambda>(byte, wires) lanes. let a = transpose_bytes (map sh_a wires); b = transpose_bytes (map sh_b wires)
     in map2 (\<lambda>lane s. mk_share (sh_a s OR push_bit (byte * 8) (ucast (a ! lane)))
                              (sh_b s OR push_bit (byte * 8) (ucast (b ! lane)))) [0..<8] lanes"
  let ?part = "\<lambda>f n j. word_of (\<lambda>k. k < 8 * n \<and> bit (f (input ! k)) j) :: 128 word"
  have c: "enumerate 0 (chunks 8 input) = map (\<lambda>byte. (byte, take 8 (drop (byte * 8) input))) [0..<16]"
    using assms by (intro nth_equalityI) (simp_all add: chunks_def nth_enumerate_eq del: upt_rec_numeral)
  have "fold ?step (map (\<lambda>byte. (byte, take 8 (drop (byte * 8) input))) [0..<n]) (replicate 8 zero_share) =
      map (\<lambda>j. mk_share (?part sh_a n j) (?part sh_b n j)) [0..<8]" if "n \<le> 16" for n
    using that
  proof (induction n)
    case 0
    have "word_of (\<lambda>k. False) = (0 :: 128 word)" by (rule bit_word_eqI) simp
    then show ?case by (intro nth_equalityI) (simp_all add: zero_share_def del: upt_rec_numeral)
  next
    case (Suc n)
    have part: "?part f n j OR push_bit (n * 8) (ucast (transpose_bytes (map f (take 8 (drop (n * 8) input))) ! j)) = ?part f (Suc n) j"
      if "j < 8" for f j
    proof (rule bit_word_eqI)
      fix k assume k: "k < LENGTH(128)"
      have len: "length (take 8 (drop (n * 8) input)) = 8" using assms Suc.prems by simp
      have "bit (transpose_bytes (map f (take 8 (drop (n * 8) input))) ! j) (k - n * 8) = bit (f (input ! k)) j" if "n * 8 \<le> k" "k < 8 * Suc n"
        using that \<open>j < 8\<close> len by (simp add: transpose_bits)
      moreover have "\<not> bit (w :: 8 word) (k - n * 8)" if "\<not> k < 8 * Suc n" for w
        using bit_imp_le_length [of w "k - n * 8"] that by auto
      ultimately show "bit (?part f n j OR push_bit (n * 8) (ucast (transpose_bytes (map f (take 8 (drop (n * 8) input))) ! j))) k = bit (?part f (Suc n) j) k"
        using k by (cases "n * 8 \<le> k"; cases "k < 8 * Suc n") (auto simp: bit_simps not_le)
    qed
    show ?case using Suc by (simp add: Let_def part del: upt_rec_numeral) (intro nth_equalityI; simp add: part del: upt_rec_numeral)
  qed
  from this [of 16] have "gather_lanes input = map (\<lambda>j. mk_share (?part sh_a 16 j) (?part sh_b 16 j)) [0..<8]"
    by (simp only: gather_lanes_def c)
  moreover have "?part sh_a 16 j = lane j (map sh_a input)" "?part sh_b 16 j = lane j (map sh_b input)" for j
    using assms by (intro bit_word_eqI; simp)+
  ultimately show ?thesis by simp
qed


text \<open>On each component the first lanes are multiplied and the others stay.\<close>

definition lanes_mult :: "nat \<Rightarrow> nat \<Rightarrow> 8 word list \<Rightarrow> 8 word list" where
  "lanes_mult n round ws = map (\<lambda>k. word_of (\<lambda>j. bit (if j < n then matrix_mult round (lane j ws) else lane j ws) k)) [0..<128]"

lemma four_russians_into_eq:
  assumes "length input = 128" and "round < 9"
  shows "four_russians_into n round input =
    map2 mk_share (lanes_mult n round (map sh_a input)) (lanes_mult n round (map sh_b input))"
proof -
  let ?L = "map (mpc_linear_layer round) (take n (gather_lanes input)) @ drop n (gather_lanes input)"
  have l: "?L ! j = (if j < n then mpc_linear_layer round (mk_share (lane j (map sh_a input)) (lane j (map sh_b input)))
      else mk_share (lane j (map sh_a input)) (lane j (map sh_b input)))" if "j < 8" for j
    using that by (auto simp: gather_lanes_eq [OF assms(1)] nth_append min_def simp del: upt_rec_numeral)
  have "word_of (\<lambda>j. bit (sh_a (?L ! j)) k) = (word_of (\<lambda>j. bit (if j < n then matrix_mult round (lane j (map sh_a input)) else lane j (map sh_a input)) k) :: 8 word)"
    "word_of (\<lambda>j. bit (sh_b (?L ! j)) k) = (word_of (\<lambda>j. bit (if j < n then matrix_mult round (lane j (map sh_b input)) else lane j (map sh_b input)) k) :: 8 word)" for k
    by (intro bit_word_eqI; simp add: l mpc_linear_layer_def linear_layer_word_eq [OF assms(2)])+
  then show ?thesis
    unfolding four_russians_into_def Let_def scatter_lanes_eq lanes_mult_def
    by (intro nth_equalityI) (simp_all del: upt_rec_numeral)
qed

lemma four_russians_into_shared:
  assumes S: "shared_wires S ws" and r: "round < 9"
  shows "shared_wires (\<lambda>p. four_russians_into n round (S p)) (lanes_mult n round ws)"
proof (rule shared_wiresI)
  note l = shared_wiresD [OF S]
  show "length (four_russians_into n round (S p)) = 128" for p
    by (simp add: four_russians_into_eq [OF l(1) r] lanes_mult_def del: upt_rec_numeral)
  show "length (lanes_mult n round ws) = 128" by (simp add: lanes_mult_def)
  fix k :: nat assume k: "k < 128"
  have b: "map sh_b (S p) = map sh_a (S (prev_party p))" for p
    using l(1) sharedD(1) [OF l(3)] by (intro nth_equalityI) simp_all
  have sum: "lane j (map sh_a (S ID0)) XOR lane j (map sh_a (S ID1)) XOR lane j (map sh_a (S ID2)) = lane j ws" for j
    using lane_shared [OF S, of j] by (simp add: shared_def)
  have "bit (lanes_mult n round ws ! k) j = bit (lanes_mult n round (map sh_a (S ID0)) ! k XOR
      lanes_mult n round (map sh_a (S ID1)) ! k XOR lanes_mult n round (map sh_a (S ID2)) ! k) j" if "j < 8" for j
    using that k by (cases "j < n") (simp_all add: lanes_mult_def bit_xor_iff matrix_mult_xor flip: sum [of j] del: upt_rec_numeral bit_lane)
  then have "lanes_mult n round ws ! k = lanes_mult n round (map sh_a (S ID0)) ! k XOR
      lanes_mult n round (map sh_a (S ID1)) ! k XOR lanes_mult n round (map sh_a (S ID2)) ! k"
    by (intro bit_word_eqI) simp
  moreover have "four_russians_into n round (S p) ! k =
      mk_share (lanes_mult n round (map sh_a (S p)) ! k) (lanes_mult n round (map sh_a (S (prev_party p))) ! k)" for p
    using k by (simp add: four_russians_into_eq [OF l(1) r] b lanes_mult_def del: upt_rec_numeral)
  ultimately show "shared (\<lambda>p. four_russians_into n round (S p) ! k) (lanes_mult n round ws ! k)" by (simp add: shared_def)
qed

lemma lane_lanes_mult: "j < n \<Longrightarrow> j < 8 \<Longrightarrow> lane j (lanes_mult n round ws) = matrix_mult round (lane j ws)"
  by (rule lane_eqI) (simp add: lanes_mult_def del: upt_rec_numeral)

interpretation lanes_linear: lane_linear "four_russians_into n" "\<lambda>j. j < n \<and> j < 8" for n
proof
  fix S :: "party \<Rightarrow> 8 word share list" and ws round
  assume S: "shared_wires S ws" "round < (9 :: nat)"
  show "\<exists>ws'. shared_wires (\<lambda>p. four_russians_into n round (S p)) ws' \<and>
      (\<forall>j. j < n \<and> j < 8 \<longrightarrow> lane j ws' = matrix_mult round (lane j ws))"
    using four_russians_into_shared [OF S] lane_lanes_mult [of _ n round ws] by blast
qed


section \<open>The AND of byte vectors\<close>

text \<open>One draw of 128 bits masks sixteen elements, byte by byte.\<close>

definition u128_to_le_bytes :: "128 word \<Rightarrow> 8 word list" where
  "u128_to_le_bytes value = map (\<lambda>i. ucast (drop_bit (8 * i) value)) [0..<16]"

definition and_vec_u8_local :: "rngs \<Rightarrow> party \<Rightarrow> 8 word share list \<Rightarrow> 8 word share list \<Rightarrow> 8 word list" where
  "and_vec_u8_local rng p lhs rhs = concat (map (\<lambda>(k, (lhs, rhs)).
     map2 (\<lambda>(lhs, rhs) byte. and_local lhs rhs XOR byte) (zip lhs rhs) (u128_to_le_bytes (zero_mask rng k p)))
     (enumerate 0 (zip (chunks 16 lhs) (chunks 16 rhs))))"

definition and_vec_u8 :: "network \<Rightarrow> rngs \<Rightarrow> 8 shares \<Rightarrow> 8 shares \<Rightarrow> 8 shares res" where
  "and_vec_u8 net rng lhs rhs =
     checkE (everywhere (\<lambda>p. length (lhs p) = length (rhs p))) (Panic ''lhs.len() == rhs.len()'')
       (let local = \<lambda>p. and_vec_u8_local rng p (lhs p) (rhs p)
        in bindE (reshare net local) (\<lambda>received.
             checkE (everywhere (\<lambda>p. length (received p) = length (lhs p))) (Report ''invalid u8 AND reshare length'')
               (Inr (\<lambda>p. ring_recombine (local p) (received p)))))"

lemma and_vec_u8_local_eq:
  assumes "length rhs = length lhs"
  shows "and_vec_u8_local rng p lhs rhs = map (\<lambda>i. and_local (lhs ! i) (rhs ! i) XOR
    ucast (drop_bit (8 * (i mod 16)) (zero_mask rng (i div 16) p :: 128 word))) [0..<length lhs]"
proof -
  let ?f = "\<lambda>i. and_local (lhs ! i) (rhs ! i) XOR ucast (drop_bit (8 * (i mod 16)) (zero_mask rng (i div 16) p :: 128 word))"
  let ?n = "(length lhs + 16 - 1) div 16"
  have bound: "g < ?n \<longleftrightarrow> g * 16 < length lhs" for g by (rule chunk_bounds) simp
  have c: "enumerate 0 (zip (chunks 16 lhs) (chunks 16 rhs)) =
      map (\<lambda>g. (g, take 16 (drop (g * 16) lhs), take 16 (drop (g * 16) rhs))) [0..<?n]"
    using assms by (intro nth_equalityI) (simp_all add: chunks_def nth_enumerate_eq)
  have "map2 (\<lambda>(l, r) byte. and_local l r XOR byte) (zip (take 16 (drop (g * 16) lhs)) (take 16 (drop (g * 16) rhs)))
      (u128_to_le_bytes (zero_mask rng g p)) = map (\<lambda>j. ?f (g * 16 + j)) [0..<min 16 (length lhs - g * 16)]" if "g < ?n" for g
    using assms that bound [of g] by (intro nth_equalityI) (auto simp: u128_to_le_bytes_def simp del: upt_rec_numeral)
  then have "and_vec_u8_local rng p lhs rhs = concat (map (\<lambda>g. map (\<lambda>j. ?f (g * 16 + j)) [0..<min 16 (length lhs - g * 16)]) [0..<?n])"
    unfolding and_vec_u8_local_def c by (auto intro!: arg_cong [of _ _ concat])
  also have "\<dots> = map ?f [0..<length lhs]" by (rule concat_by_chunks) simp
  finally show ?thesis .
qed

lemma and_vec_u8_correct:
  assumes X: "shared_list A xs" and Y: "shared_list B ys" and len: "length xs = length ys" and env: "online net" "correlated rng"
  shows "\<exists>C. and_vec_u8 net rng A B = Inr C \<and> shared_list C (map2 (AND) xs ys)"
proof -
  let ?L = "\<lambda>p. and_vec_u8_local rng p (A p) (B p)"
  note l = shared_listD(1) [OF X] shared_listD(1) [OF Y]
  have L: "length (?L p) = length xs"
    "i < length xs \<Longrightarrow> ?L p ! i = and_local (A p ! i) (B p ! i) XOR ucast (drop_bit (8 * (i mod 16)) (zero_mask rng (i div 16) p :: 128 word))" for p i
    using l len by (simp_all add: and_vec_u8_local_eq)
  have "?L ID0 ! i XOR ?L ID1 ! i XOR ?L ID2 ! i = map2 (AND) xs ys ! i" if i: "i < length xs" for i
  proof -
    let ?m = "\<lambda>p. ucast (drop_bit (8 * (i mod 16)) (zero_mask rng (i div 16) p :: 128 word)) :: 8 word"
    have "?m ID0 XOR ?m ID1 XOR ?m ID2 =
        ucast (drop_bit (8 * (i mod 16)) (zero_mask rng (i div 16) ID0 XOR zero_mask rng (i div 16) ID1 XOR zero_mask rng (i div 16) ID2 :: 128 word))"
      by (rule bit_word_eqI) (simp add: bit_simps)
    then have m: "?m ID0 XOR ?m ID1 XOR ?m ID2 = 0" by (simp add: zero_mask_cancel [OF env(2)])
    have "and_local (A ID0 ! i) (B ID0 ! i) XOR and_local (A ID1 ! i) (B ID1 ! i) XOR and_local (A ID2 ! i) (B ID2 ! i) = xs ! i AND ys ! i"
      using and_local_sum [OF shared_listD(2) [OF X i] shared_listD(2) [OF Y]] i len by simp
    moreover have "?L ID0 ! i XOR ?L ID1 ! i XOR ?L ID2 ! i =
        (and_local (A ID0 ! i) (B ID0 ! i) XOR and_local (A ID1 ! i) (B ID1 ! i) XOR and_local (A ID2 ! i) (B ID2 ! i)) XOR
        (?m ID0 XOR ?m ID1 XOR ?m ID2)" by (simp only: L(2) [OF i] xor_ac)
    ultimately show ?thesis using i len m by simp
  qed
  then have "shared_list (\<lambda>p. ring_recombine (?L p) (?L (prev_party p))) (map2 (AND) xs ys)"
    by (intro shared_recombine [where L = ?L]) (simp_all add: L(1) len)
  moreover have "everywhere (\<lambda>p. length (A p) = length (B p))" "everywhere (\<lambda>p. length (?L (prev_party p)) = length (A p))"
    using l len L(1) by auto
  ultimately show ?thesis by (simp add: and_vec_u8_def Let_def env(1))
qed

interpretation u8_and: and_protocol "and_vec_u8 net rng" "online net \<and> correlated rng" for net rng
  by unfold_locales (auto intro: and_vec_u8_correct)

section \<open>Round keys on lanes\<close>

definition precompute_round_keys :: "128 word share list \<Rightarrow> 8 word share list list res" where
  "precompute_round_keys expanded_key =
     checkE (length expanded_key = 10) (Panic ''expanded_key.len() == ROUND_KEYS'')
       (Inr (map (\<lambda>round. bit_slice [(expanded_key ! round, 1)]) [0..<10]))"

definition combine_round_keys :: "8 word share list list list \<Rightarrow> 8 word share list list" where
  "combine_round_keys keys = map (\<lambda>round. fold (\<lambda>(lane, key) wires.
     map2 (\<lambda>dst src. mk_share (sh_a dst XOR push_bit lane (sh_a src)) (sh_b dst XOR push_bit lane (sh_b src)))
       wires (key ! round)) (enumerate 0 keys) (replicate 128 zero_share)) [0..<10]"

text \<open>The wires of a key as precomputed use lane 0 only.\<close>

definition key_wires :: "128 word \<Rightarrow> 8 word list" where
  "key_wires x = map (\<lambda>k. of_bool (bit x k)) [0..<128]"

lemma precomputed_shared:
  assumes "shared_list K ks" and "length ks = 10" and "r < 10"
  shows "shared_wires (\<lambda>p. bit_slice [(K p ! r, 1)]) (key_wires (ks ! r))"
proof -
  have "shared_list (\<lambda>p. [K p ! r]) [ks ! r]" using shared_listD(2) [OF assms(1)] assms(2,3) by (simp add: shared_list_def)
  from bit_slice_shared [OF this, of "[1]"]
  have "shared_wires (\<lambda>p. bit_slice [(K p ! r, 1)]) (slice_step (ks ! r, 1 :: 8 word) (replicate 128 0))" by simp
  moreover have "slice_step (ks ! r, 1 :: 8 word) (replicate 128 0) = key_wires (ks ! r)"
    by (rule nth_equalityI) (simp_all add: slice_step_def key_wires_def del: upt_rec_numeral)
  ultimately show ?thesis by simp
qed

definition combine_step :: "nat \<times> 8 word list \<Rightarrow> 8 word list \<Rightarrow> 8 word list" where
  "combine_step = (\<lambda>(lane, ks) ws. map2 (\<lambda>w k. w XOR push_bit lane k) ws ks)"

lemma combine_shared:
  assumes "\<And>j. j < length xs \<Longrightarrow> shared_wires (\<lambda>p. Q p ! j) (key_wires (xs ! j))" and "\<And>p. length (Q p) = length xs"
    and "shared_wires S ws"
  shows "shared_wires (\<lambda>p. fold (\<lambda>(lane, key) wires.
      map2 (\<lambda>dst src. mk_share (sh_a dst XOR push_bit lane (sh_a src)) (sh_b dst XOR push_bit lane (sh_b src))) wires key)
      (enumerate k (Q p)) (S p)) (fold combine_step (enumerate k (map key_wires xs)) ws)"
  using assms
proof (induction xs arbitrary: Q S ws k)
  case (Cons x xs)
  let ?f = "\<lambda>(lane, key) wires. map2 (\<lambda>dst src. mk_share (sh_a dst XOR push_bit lane (sh_a src)) (sh_b dst XOR push_bit lane (sh_b src))) wires key"
  have ne: "Q p \<noteq> []" for p using Cons.prems(2) [of p] by auto
  then have Q: "Q p = hd (Q p) # tl (Q p)" for p by simp
  have hd: "shared_wires (\<lambda>p. hd (Q p)) (key_wires x)" using Cons.prems(1) [of 0] ne by (simp add: hd_conv_nth)
  have st: "shared_wires (\<lambda>p. ?f (k, hd (Q p)) (S p)) (combine_step (k, key_wires x) ws)"
  proof (rule shared_wiresI)
    note s = shared_wiresD [OF Cons.prems(3)] and h = shared_wiresD [OF hd]
    show "length (?f (k, hd (Q p)) (S p)) = 128" for p using s(1) h(1) by simp
    show "length (combine_step (k, key_wires x) ws) = 128" using s(2) h(2) by (simp add: combine_step_def)
    fix i :: nat assume i: "i < 128"
    have "shared (\<lambda>p. map_share (push_bit k) (hd (Q p) ! i)) (push_bit k (key_wires x ! i))"
      by (rule shared_map [OF h(3) [OF i]]) (simp add: push_bit_xor)
    from shared_xor [OF s(3) [OF i] this]
    show "shared (\<lambda>p. ?f (k, hd (Q p)) (S p) ! i) (combine_step (k, key_wires x) ws ! i)"
      using s(1,2) h(1,2) i by (simp add: combine_step_def xor_share_def map_share_def)
  qed
  have "shared_wires (\<lambda>p. fold ?f (enumerate (Suc k) (tl (Q p))) (?f (k, hd (Q p)) (S p)))
      (fold combine_step (enumerate (Suc k) (map key_wires xs)) (combine_step (k, key_wires x) ws))"
    using Cons.prems(1) [of "Suc j" for j] Cons.prems(2) ne by (intro Cons.IH st) (simp_all add: nth_tl)
  then show ?case by (subst Q) simp
qed simp

lemma lane_combine:
  assumes "length ws = 128" and "j < 8"
  shows "lane j (fold combine_step (enumerate k (map key_wires xs)) ws) =
    (if k \<le> j \<and> j < k + length xs then lane j ws XOR xs ! (j - k) else lane j ws)"
  using assms(1)
proof (induction xs arbitrary: k ws)
  case (Cons x xs)
  have l: "length (combine_step (k, key_wires x) ws) = 128" using Cons.prems by (simp add: combine_step_def key_wires_def)
  have "lane j (combine_step (k, key_wires x) ws) = (if j = k then lane j ws XOR x else lane j ws)"
    using Cons.prems assms(2)
    by (intro lane_eqI) (auto simp: combine_step_def key_wires_def bit_simps simp del: upt_rec_numeral)
  then show ?case using Cons.IH [OF l, of "Suc k"] by (auto simp: nth_Cons' Suc_diff_le not_less_eq_eq)
qed auto


section \<open>Encryption of groups of lanes\<close>

definition lane_group_round ::
    "network \<Rightarrow> rngs \<Rightarrow> (party \<Rightarrow> 8 word share list list list) \<Rightarrow> nat list \<Rightarrow> nat \<Rightarrow>
     (party \<Rightarrow> 8 word share list list) \<Rightarrow> (party \<Rightarrow> 8 word share list list) res" where
  "lane_group_round net rng key_groups lens round group_states =
     (let ands = \<lambda>p. fold collect_sbox_ands (group_states p) ([], []);
          draws = (126 * length lens + 15) div 16
      in bindE (and_vec_u8 net (skip_draws (round * draws) rng) (\<lambda>p. fst (ands p)) (\<lambda>p. snd (ands p))) (\<lambda>ands.
           Inr (\<lambda>p. map (\<lambda>(group, (states, keys)).
               let sboxed = apply_sbox_ands states (drop (group * 126) (ands p));
                   linear = four_russians_into (lens ! group) round sboxed
               in add_round_key (xor_constants p round (lane_mask (lens ! group)) linear) (keys ! (round + 1)))
             (enumerate 0 (zip (group_states p) (key_groups p))))))"

definition encrypt_lane_groups ::
    "network \<Rightarrow> rngs \<Rightarrow> (party \<Rightarrow> 8 word share list list list) \<Rightarrow> (party \<Rightarrow> 8 word share list list) \<Rightarrow>
     nat list \<Rightarrow> (party \<Rightarrow> 128 word share list list) res" where
  "encrypt_lane_groups net rng key_groups group_states lens =
     checkE (everywhere (\<lambda>p. length (key_groups p) = length (group_states p))) (Panic ''key_groups.len() == group_states.len()'')
     (checkE (everywhere (\<lambda>p. length (key_groups p) = length lens)) (Panic ''key_groups.len() == lens.len()'')
     (checkE (\<forall>len \<in> set lens. 1 \<le> len \<and> len \<le> 8) (Panic ''(1..=8).contains(len)'')
       (bindE (foldE (lane_group_round net rng key_groups lens) [0..<9]
           (\<lambda>p. map2 (\<lambda>states keys. add_round_key states (keys ! 0)) (group_states p) (key_groups p)))
         (\<lambda>group_states. Inr (\<lambda>p. map2 pack_wires (group_states p) lens)))))"

lemma lane_linear_weaken: "lane_linear f P \<Longrightarrow> (\<And>j. Q j \<Longrightarrow> P j) \<Longrightarrow> lane_linear f Q"
  unfolding lane_linear_def by meson

text \<open>A round once its ANDs are there, whoever computed them.\<close>

lemma lane_round_after_ands:
  assumes K: "shared_key_groups K n ((!) lens) keys" and r: "r < 9" and G: "shared_groups G wss" and n: "length wss = n"
    and L: "length lens = n" "\<And>len. len \<in> set lens \<Longrightarrow> len \<le> 8" and A: "shared_list A (concat (map and_wires wss))"
  shows "\<exists>wss'. shared_groups (\<lambda>p. map (\<lambda>(group, (states, keys)).
        add_round_key (xor_constants p r (lane_mask (lens ! group)) (four_russians_into (lens ! group) r (apply_sbox_ands states (drop (group * 126) (A p)))))
          (keys ! (r + 1))) (enumerate 0 (zip (G p) (K p)))) wss' \<and> length wss' = n \<and>
    (\<forall>g < n. \<forall>j < lens ! g. lane j (wss' ! g) = lowmc_round (keys g j) r (lane j (wss ! g)))"
proof -
  let ?A = "\<lambda>p g. drop (g * 126) (A p)"
  define G' where "G' = (\<lambda>p. map (\<lambda>(group, (states, keys)).
      add_round_key (xor_constants p r (lane_mask (lens ! group)) (four_russians_into (lens ! group) r (apply_sbox_ands states (?A p group))))
        (keys ! (r + 1))) (enumerate 0 (zip (G p) (K p))))"
  have k: "length (K p) = n" for p using K by (simp add: shared_key_groups_def)
  have lg: "length (G p) = n" for p using shared_groupsD(1) [OF G] n by simp
  have le: "lens ! g \<le> 8" if "g < length wss" for g using that L n by simp
  have lin: "lane_linear (four_russians_into (lens ! g)) (\<lambda>j. j < lens ! g)" if "g < length wss" for g
    by (rule lane_linear_weaken [OF lanes_linear.lane_linear_axioms [of "lens ! g"]]) (use le [OF that] in simp)
  have am: "bit (lane_mask (lens ! g) :: 8 word) j" if "g < length wss" "j < lens ! g" for g j
    using that le [of g] by (simp add: bit_lane_mask)
  have ands: "shared (\<lambda>p. ?A p g ! k) (and_wires (wss ! g) ! k)" if "g < length wss" "k < 126" for g k
  proof -
    have "length (A p) = length wss * 126" for p
      using shared_listD(1) [OF A] by (simp add: length_concat comp_def sum_list_triv)
    then have "?A p g ! k = A p ! (g * 126 + k)" for p using that by simp
    then show ?thesis using nth_group_ands [OF A that] by simp
  qed
  have "\<exists>wss'. shared_groups G' wss' \<and> length wss' = length wss \<and>
      (\<forall>g < length wss. \<forall>j < lens ! g. lane j (wss' ! g) = lowmc_round (keys g j) r (lane j (wss ! g)))"
    by (rule group_round [where linear = "\<lambda>g. four_russians_into (lens ! g)", OF G K [folded n] r lin am ands])
      (use lg k n in \<open>simp_all add: G'_def nth_enumerate_eq\<close>)
  then show ?thesis using n by (simp only: G'_def)
qed

lemma lane_group_round_ok:
  assumes K: "shared_key_groups K n ((!) lens) keys" and r: "r < 9" and G: "shared_groups G wss" and n: "length wss = n"
    and L: "length lens = n" "\<And>len. len \<in> set lens \<Longrightarrow> len \<le> 8" and env: "online net" "correlated rng"
  shows "\<exists>G' wss'. lane_group_round net rng K lens r G = Inr G' \<and> shared_groups G' wss' \<and> length wss' = n \<and>
    (\<forall>g < n. \<forall>j < lens ! g. lane j (wss' ! g) = lowmc_round (keys g j) r (lane j (wss ! g)))"
proof -
  let ?rng = "skip_draws (r * ((126 * length lens + 15) div 16)) rng"
  have "and_protocol (and_vec_u8 net ?rng) True"
    using u8_and.and_protocol_axioms [of net ?rng] env by simp
  from sbox_groups_ok [OF this G] obtain A where A:
    "and_vec_u8 net ?rng (\<lambda>p. fst (fold collect_sbox_ands (G p) ([], []))) (\<lambda>p. snd (fold collect_sbox_ands (G p) ([], []))) = Inr A"
    "shared_list A (concat (map and_wires wss))" by blast
  from lane_round_after_ands [OF K r G n L A(2)] show ?thesis by (simp add: lane_group_round_def Let_def A(1))
qed

lemma encrypt_lane_groups_ok:
  assumes K: "shared_key_groups K n ((!) lens) keys" and G: "shared_groups G wss" and n: "length wss = n"
    and L: "length lens = n" "\<And>len. len \<in> set lens \<Longrightarrow> 1 \<le> len \<and> len \<le> 8" and env: "online net" "correlated rng"
  shows "\<exists>Y. encrypt_lane_groups net rng K G lens = Inr Y \<and>
    shared_cols Y (map (\<lambda>g. map (\<lambda>j. lowmc_encrypt (keys g j) (lane j (wss ! g))) [0..<lens ! g]) [0..<n])"
proof -
  let ?G0 = "\<lambda>p. map2 (\<lambda>states keys. add_round_key states (keys ! 0)) (G p) (K p)"
  have k: "length (K p) = n" "length (G p) = n" for p
    using K shared_groupsD(1) [OF G] n by (simp_all add: shared_key_groups_def)
  obtain wss0 where W0: "shared_groups ?G0 wss0" "length wss0 = n"
    "\<And>g j. g < n \<Longrightarrow> j < lens ! g \<Longrightarrow> lane j (wss0 ! g) = lane j (wss ! g) XOR keys g j ! 0"
    by (rule group_start [OF G K [folded n]]) (use n in simp)
  let ?f = "lane_group_round net rng K lens"
  have step: "\<exists>G' wss'. ?f r G = Inr G' \<and> shared_groups G' wss' \<and> length wss' = n \<and>
      (\<forall>g < n. \<forall>j < lens ! g. lane j (wss' ! g) = lowmc_round (keys g j) r (lane j (wss ! g)))"
    if "r < 9" "shared_groups G wss" "length wss = n" for r G wss
    by (rule lane_group_round_ok [OF K that L(1) _ env]) (use L(2) in blast)
  obtain G' wss' where G': "foldE ?f [0..<9] ?G0 = Inr G'" "shared_groups G' wss'" "length wss' = n"
    "\<forall>g < n. \<forall>j < lens ! g. lane j (wss' ! g) = fold (lowmc_round (keys g j)) [0..<9] (lane j (wss0 ! g))"
    using wire_rounds [where f = ?f and rounds = "[0..<9]" and lens = "(!) lens", OF step _ W0(1,2)] by auto
  have "shared_cols (\<lambda>p. map2 pack_wires (G' p) lens) (map2 (\<lambda>ws len. map (\<lambda>j. lane j ws) [0..<len]) wss' lens)"
    by (rule group_pack [OF G'(2)]) (simp add: G'(3) L(1))
  moreover have "map2 (\<lambda>ws len. map (\<lambda>j. lane j ws) [0..<len]) wss' lens =
      map (\<lambda>g. map (\<lambda>j. lowmc_encrypt (keys g j) (lane j (wss ! g))) [0..<lens ! g]) [0..<n]"
    by (rule nth_equalityI) (auto simp: G'(3,4) W0(3) L(1) lowmc_encrypt_def)
  moreover have g1: "everywhere (\<lambda>p. length (K p) = length (G p))" "everywhere (\<lambda>p. length (K p) = length lens)"
    using k L(1) by auto
  ultimately show ?thesis using G'(1) L(2) by (simp add: encrypt_lane_groups_def)
qed


section \<open>The entry points\<close>

text \<open>The numbers of keys and inputs are the same at all parties; where they steer the control they are
  read at the first party.\<close>

definition encrypt_many_with_repeated_input ::
    "network \<Rightarrow> rngs \<Rightarrow> (party \<Rightarrow> 128 word share list list) \<Rightarrow> (party \<Rightarrow> 128 word share) \<Rightarrow> 128 shares res" where
  "encrypt_many_with_repeated_input net rng expanded_keys input =
     (if expanded_keys ID0 = [] then Inr (\<lambda>p. [])
      else bindE (each_party (\<lambda>p. mapE precompute_round_keys (expanded_keys p))) (\<lambda>round_keys.
        let key_groups = \<lambda>p. map combine_round_keys (chunks 8 (round_keys p));
            group_states = \<lambda>p. map (\<lambda>keys. bit_slice [(input p, lane_mask (length keys))]) (chunks 8 (round_keys p));
            lens = map length (chunks 8 (round_keys ID0))
        in bindE (encrypt_lane_groups net rng key_groups group_states lens) (\<lambda>outputs. Inr (\<lambda>p. concat (outputs p)))))"

definition encrypt_few_with_repeated_input ::
    "network \<Rightarrow> rngs \<Rightarrow> (party \<Rightarrow> 8 word share list list list) \<Rightarrow> (party \<Rightarrow> 128 word share) \<Rightarrow> 128 shares res" where
  "encrypt_few_with_repeated_input net rng round_keys input =
     (if round_keys ID0 = [] then Inr (\<lambda>p. [])
      else checkE (everywhere (\<lambda>p. length (round_keys p) \<le> 8)) (Panic ''round_keys.len() <= 8'')
        (let num_lanes = length (round_keys ID0);
             key_groups = \<lambda>p. [combine_round_keys (round_keys p)];
             group_states = \<lambda>p. [bit_slice [(input p, lane_mask num_lanes)]]
         in bindE (encrypt_lane_groups net rng key_groups group_states [num_lanes]) (\<lambda>outputs.
              checkE (everywhere (\<lambda>p. outputs p \<noteq> [])) (Panic ''unwrap'') (Inr (\<lambda>p. last (outputs p))))))"

definition slice_input_groups :: "nat \<Rightarrow> nat \<Rightarrow> 128 word share list \<Rightarrow> 8 word share list list \<times> nat list" where
  "slice_input_groups num_groups num_levels inputs =
     (let total = num_levels * length inputs;
          len = \<lambda>group. min (total - group * 8) 8
      in (map (\<lambda>group. let start = group * 8 in
             bit_slice (map (\<lambda>lane. (inputs ! (lane div num_levels), push_bit (lane - start) 1)) [start..<start + len group]))
            [0..<num_groups],
          map len [0..<num_groups]))"

definition regroup_tags_by_input :: "'a list list \<Rightarrow> nat \<Rightarrow> nat \<Rightarrow> 'a list list res" where
  "regroup_tags_by_input outputs num_levels num_inputs =
     foldE (\<lambda>(lane, tag) tags. bindE (getE tags (lane div num_levels)) (\<lambda>t. setE tags (lane div num_levels) (t @ [tag])))
       (enumerate 0 (concat outputs)) (replicate num_inputs [])"

definition encrypt_many_inputs_with_combined_keys ::
    "network \<Rightarrow> rngs \<Rightarrow> (party \<Rightarrow> 8 word share list list list) \<Rightarrow> nat \<Rightarrow> 128 shares \<Rightarrow>
     (party \<Rightarrow> 128 word share list list) res" where
  "encrypt_many_inputs_with_combined_keys net rng key_groups num_levels inputs =
     (if num_levels = 0 \<or> inputs ID0 = [] then Inr (\<lambda>p. replicate (length (inputs p)) [])
      else let total = num_levels * length (inputs ID0)
        in checkE (everywhere (\<lambda>p. length (key_groups p) = (total + 7) div 8)) (Panic ''key_groups.len() == total.div_ceil(8)'')
          (let sliced = \<lambda>p. slice_input_groups (length (key_groups p)) num_levels (inputs p)
           in bindE (encrypt_lane_groups net rng key_groups (\<lambda>p. fst (sliced p)) (snd (sliced ID0))) (\<lambda>outputs.
                each_party (\<lambda>p. regroup_tags_by_input (outputs p) num_levels (length (inputs p))))))"

text \<open>Precomputed keys of a list of expanded keys.\<close>

definition lane_keys :: "(party \<Rightarrow> 8 word share list list list) \<Rightarrow> 128 word list list \<Rightarrow> bool" where
  "lane_keys Q kss \<longleftrightarrow> (\<forall>p. length (Q p) = length kss) \<and>
     (\<forall>i < length kss. \<forall>r < 10. shared_wires (\<lambda>p. Q p ! i ! r) (key_wires (kss ! i ! r)))"

lemma precompute_ok:
  assumes K: "shared_keys K kss"
  shows "\<exists>Q. each_party (\<lambda>p. mapE precompute_round_keys (K p)) = Inr Q \<and> lane_keys Q kss"
proof -
  let ?Q = "\<lambda>p. map (\<lambda>k. map (\<lambda>round. bit_slice [(k ! round, 1 :: 8 word)]) [0..<10]) (K p)"
  have c: "shared_list (\<lambda>p. K p ! i) (kss ! i)" "length (kss ! i) = 10" if "i < length kss" for i
    using K that by (auto simp: shared_keys_def shared_cols_def)
  have "mapE precompute_round_keys (K p) = Inr (?Q p)" for p
  proof (rule mapE_total)
    fix k assume "k \<in> set (K p)"
    then obtain i where "i < length kss" "k = K p ! i" using shared_keysD(1) [OF K] by (metis in_set_conv_nth)
    then have "length k = 10" using shared_listD(1) [OF c(1), of i p] c(2) by simp
    then show "precompute_round_keys k = Inr (map (\<lambda>round. bit_slice [(k ! round, 1)]) [0..<10])"
      by (simp add: precompute_round_keys_def)
  qed
  then have "each_party (\<lambda>p. mapE precompute_round_keys (K p)) = Inr ?Q" by (rule each_party_Inr)
  moreover have "lane_keys ?Q kss"
    using precomputed_shared [OF c] shared_keysD(1) [OF K] by (simp add: lane_keys_def del: upt_rec_numeral)
  ultimately show ?thesis by blast
qed

lemma combine_ok:
  assumes Q: "lane_keys Q kss" and r: "r < 10"
  shows "\<exists>kws. shared_wires (\<lambda>p. combine_round_keys (Q p) ! r) kws \<and> (\<forall>j < min 8 (length kss). lane j kws = kss ! j ! r)"
proof -
  let ?xs = "map (\<lambda>ks. ks ! r) kss" and ?Q = "\<lambda>p. map (\<lambda>k. k ! r) (Q p)"
  let ?kws = "fold combine_step (enumerate 0 (map key_wires ?xs)) (replicate 128 0)"
  have l: "length (Q p) = length kss" for p using Q by (simp add: lane_keys_def)
  have "shared_wires (\<lambda>p. fold (\<lambda>(lane, key) wires.
      map2 (\<lambda>dst src. mk_share (sh_a dst XOR push_bit lane (sh_a src)) (sh_b dst XOR push_bit lane (sh_b src))) wires key)
      (enumerate 0 (?Q p)) (replicate 128 zero_share)) ?kws"
    using Q r l by (intro combine_shared shared_wires_zero) (simp_all add: lane_keys_def)
  moreover have "fold (\<lambda>(lane, key) wires.
      map2 (\<lambda>dst src. mk_share (sh_a dst XOR push_bit lane (sh_a src)) (sh_b dst XOR push_bit lane (sh_b src))) wires key)
      (enumerate 0 (?Q p)) W = fold (\<lambda>(lane, key) wires.
      map2 (\<lambda>dst src. mk_share (sh_a dst XOR push_bit lane (sh_a src)) (sh_b dst XOR push_bit lane (sh_b src))) wires (key ! r))
      (enumerate 0 (Q p)) W" for p W
  proof -
    have "enumerate 0 (?Q p) = map (\<lambda>(lane, key). (lane, key ! r)) (enumerate 0 (Q p))"
      by (rule nth_equalityI) (simp_all add: nth_enumerate_eq)
    then show ?thesis by (simp only: fold_map) (intro fold_cong refl; clarsimp)
  qed
  ultimately have "shared_wires (\<lambda>p. combine_round_keys (Q p) ! r) ?kws"
    using r by (simp add: combine_round_keys_def del: upt_rec_numeral)
  moreover have "lane j ?kws = kss ! j ! r" if "j < min 8 (length kss)" for j
    using lane_combine [of "replicate 128 0" j 0 ?xs] that by simp
  ultimately show ?thesis by blast
qed

lemma combined_groups_ok:
  assumes Q: "lane_keys Q kss"
  shows "shared_key_groups (\<lambda>p. map combine_round_keys (chunks 8 (Q p))) ((length kss + 7) div 8)
    ((!) (map (\<lambda>g. min 8 (length kss - g * 8)) [0..<(length kss + 7) div 8])) (\<lambda>g j. kss ! (g * 8 + j))"
proof -
  have l: "length (Q p) = length kss" for p using Q by (simp add: lane_keys_def)
  have "\<exists>kws. shared_wires (\<lambda>p. combine_round_keys (take 8 (drop (g * 8) (Q p))) ! r) kws \<and>
      (\<forall>j < min 8 (length kss - g * 8). lane j kws = kss ! (g * 8 + j) ! r)" if "r < 10" for g r
  proof -
    have "lane_keys (\<lambda>p. take 8 (drop (g * 8) (Q p))) (take 8 (drop (g * 8) kss))" using Q by (auto simp: lane_keys_def)
    from combine_ok [OF this that] show ?thesis by (auto simp: min.commute)
  qed
  then show ?thesis by (simp add: shared_key_groups_def chunks_def l add.commute)
qed


lemma repeated_input_groups:
  assumes X: "shared X x" and "\<And>len. len \<in> set lens \<Longrightarrow> len \<le> 8"
  shows "\<exists>wss. shared_groups (\<lambda>p. map (\<lambda>len. bit_slice [(X p, lane_mask len :: 8 word)]) lens) wss \<and> length wss = length lens \<and>
    (\<forall>g < length lens. \<forall>j < lens ! g. lane j (wss ! g) = x)"
proof -
  let ?wss = "map (\<lambda>len. slice_step (x, lane_mask len :: 8 word) (replicate 128 0)) lens"
  have "shared_wires (\<lambda>p. bit_slice [(X p, m :: 8 word)]) (slice_step (x, m) (replicate 128 0))" for m
    using bit_slice_shared [of "\<lambda>p. [X p]" "[x]" "[m]"] X by (simp add: shared_list_def)
  then have "shared_groups (\<lambda>p. map (\<lambda>len. bit_slice [(X p, lane_mask len :: 8 word)]) lens) ?wss"
    by (simp add: shared_groups_def)
  moreover have "lane j (?wss ! g) = x" if "g < length lens" "j < lens ! g" for g j
    using assms(2) [of "lens ! g"] that by (simp add: lane_slice_step bit_lane_mask)
  ultimately show ?thesis by (intro exI [of _ ?wss]) simp
qed

lemma encrypt_repeated_ok:
  assumes K: "shared_keys K kss" and X: "shared X x" and env: "online net" "correlated rng"
  shows "\<exists>Y. encrypt_many_with_repeated_input net rng K X = Inr Y \<and> shared_list Y (map (\<lambda>ks. lowmc_encrypt ks x) kss)"
proof (cases "kss = []")
  case True
  then show ?thesis using shared_keysD(1) [OF K] by (simp add: encrypt_many_with_repeated_input_def)
next
  case False
  let ?n = "(length kss + 7) div 8" and ?len = "\<lambda>g. min 8 (length kss - g * 8)"
  let ?lens = "map ?len [0..<?n]"
  obtain Q where Q: "each_party (\<lambda>p. mapE precompute_round_keys (K p)) = Inr Q" "lane_keys Q kss"
    using precompute_ok [OF K] by blast
  have bound: "g < ?n \<longleftrightarrow> g * 8 < length kss" for g using chunk_bounds [of 8 g "length kss"] by (simp add: add.commute)
  have l: "length (Q p) = length kss" for p using Q(2) by (simp add: lane_keys_def)
  have lens: "map length (chunks 8 (Q p)) = ?lens" for p
    by (rule nth_equalityI) (simp_all add: chunks_def l min.commute add.commute)
  have states: "map (\<lambda>keys. bit_slice [(X p, lane_mask (length keys))]) (chunks 8 (Q p)) = map (\<lambda>len. bit_slice [(X p, lane_mask len :: 8 word)]) ?lens" for p
    unfolding lens [symmetric, of p] by simp
  have le: "1 \<le> len \<and> len \<le> 8" if h: "len \<in> set ?lens" for len
  proof -
    obtain g where "g < ?n" "len = ?len g" using h by auto
    then show ?thesis using bound [of g] by simp
  qed
  have "\<exists>wss. shared_groups (\<lambda>p. map (\<lambda>len. bit_slice [(X p, lane_mask len :: 8 word)]) ?lens) wss \<and> length wss = length ?lens \<and>
      (\<forall>g < length ?lens. \<forall>j < ?lens ! g. lane j (wss ! g) = x)"
    by (rule repeated_input_groups [OF X]) (use le in blast)
  then obtain wss where W: "shared_groups (\<lambda>p. map (\<lambda>len. bit_slice [(X p, lane_mask len :: 8 word)]) ?lens) wss" "length wss = ?n"
    "\<And>g j. g < ?n \<Longrightarrow> j < ?len g \<Longrightarrow> lane j (wss ! g) = x" by auto
  have "\<exists>Y. encrypt_lane_groups net rng (\<lambda>p. map combine_round_keys (chunks 8 (Q p)))
      (\<lambda>p. map (\<lambda>len. bit_slice [(X p, lane_mask len :: 8 word)]) ?lens) ?lens = Inr Y \<and>
    shared_cols Y (map (\<lambda>g. map (\<lambda>j. lowmc_encrypt (kss ! (g * 8 + j)) (lane j (wss ! g))) [0..<?lens ! g]) [0..<?n])"
  proof (rule encrypt_lane_groups_ok [OF combined_groups_ok [OF Q(2)] W(1,2) _ _ env])
    show "length ?lens = ?n" unfolding length_map length_upt by (rule diff_zero)
  qed (rule le)
  then obtain Y where Y: "encrypt_lane_groups net rng (\<lambda>p. map combine_round_keys (chunks 8 (Q p)))
      (\<lambda>p. map (\<lambda>len. bit_slice [(X p, lane_mask len :: 8 word)]) ?lens) ?lens = Inr Y"
    "shared_cols Y (map (\<lambda>g. map (\<lambda>j. lowmc_encrypt (kss ! (g * 8 + j)) (lane j (wss ! g))) [0..<?lens ! g]) [0..<?n])" by blast
  have e: "map (\<lambda>g. map (\<lambda>j. lowmc_encrypt (kss ! (g * 8 + j)) (lane j (wss ! g))) [0..<?lens ! g]) [0..<?n] =
      map (\<lambda>g. map (\<lambda>j. lowmc_encrypt (kss ! (g * 8 + j)) x) [0..<?len g]) [0..<?n]"
    by (intro map_cong refl) (auto simp: W(3))
  have "concat (map (\<lambda>g. map (\<lambda>j. lowmc_encrypt (kss ! (g * 8 + j)) (lane j (wss ! g))) [0..<?lens ! g]) [0..<?n]) =
      map (\<lambda>i. lowmc_encrypt (kss ! i) x) [0..<length kss]"
    unfolding e using concat_by_chunks [of 8 "\<lambda>i. lowmc_encrypt (kss ! i) x" "length kss"] by (simp add: add.commute)
  also have "\<dots> = map (\<lambda>ks. lowmc_encrypt ks x) kss" by (rule nth_equalityI) simp_all
  finally have "shared_list (\<lambda>p. concat (Y p)) (map (\<lambda>ks. lowmc_encrypt ks x) kss)" using shared_list_concat [OF Y(2)] by simp
  moreover have "K ID0 \<noteq> []" using shared_keysD(1) [OF K, of ID0] False by auto
  ultimately show ?thesis using Y(1) by (simp add: encrypt_many_with_repeated_input_def Q(1) Let_def states lens)
qed

lemma encrypt_few_ok:
  assumes Q: "lane_keys Q kss" and few: "length kss \<le> 8" and X: "shared X x" and env: "online net" "correlated rng"
  shows "\<exists>Y. encrypt_few_with_repeated_input net rng Q X = Inr Y \<and> shared_list Y (map (\<lambda>ks. lowmc_encrypt ks x) kss)"
proof (cases "kss = []")
  case True
  then show ?thesis using Q by (simp add: encrypt_few_with_repeated_input_def lane_keys_def)
next
  case False
  have l: "length (Q p) = length kss" for p using Q by (simp add: lane_keys_def)
  have "shared_key_groups (\<lambda>p. [combine_round_keys (Q p)]) 1 ((!) [length kss]) (\<lambda>g j. kss ! j)"
    using combine_ok [OF Q] few by (simp add: shared_key_groups_def)
  moreover obtain wss where W: "shared_groups (\<lambda>p. [bit_slice [(X p, lane_mask (length kss) :: 8 word)]]) wss" "length wss = 1"
    "\<And>j. j < length kss \<Longrightarrow> lane j (wss ! 0) = x"
    using repeated_input_groups [OF X, of "[length kss]"] few by auto
  moreover have "1 \<le> len \<and> len \<le> 8" if "len \<in> set [length kss]" for len using that few False by (auto simp: Suc_le_eq)
  ultimately obtain Y where Y: "encrypt_lane_groups net rng (\<lambda>p. [combine_round_keys (Q p)])
      (\<lambda>p. [bit_slice [(X p, lane_mask (length kss) :: 8 word)]]) [length kss] = Inr Y"
    "shared_cols Y (map (\<lambda>g. map (\<lambda>j. lowmc_encrypt (kss ! j) (lane j (wss ! g))) [0..<[length kss] ! g]) [0..<1])"
    using encrypt_lane_groups_ok [OF _ W(1,2) _ _ env, of "\<lambda>p. [combine_round_keys (Q p)]" "[length kss]" "\<lambda>g j. kss ! j"] by auto
  have e: "map (\<lambda>j. lowmc_encrypt (kss ! j) (lane j (wss ! 0))) [0..<length kss] = map (\<lambda>ks. lowmc_encrypt ks x) kss"
    by (rule nth_equalityI) (simp_all add: W(3))
  have one: "length (Y p) = 1" for p using shared_colsD(1) [OF Y(2)] by simp
  then have "last (Y p) = Y p ! 0" "Y p \<noteq> []" for p by (metis One_nat_def diff_Suc_1 last_conv_nth length_0_conv zero_neq_one) (metis one length_0_conv zero_neq_one)
  then have "shared_list (\<lambda>p. last (Y p)) (map (\<lambda>ks. lowmc_encrypt ks x) kss)" "everywhere (\<lambda>p. Y p \<noteq> [])"
    using shared_colsD(2) [OF Y(2), of 0] e by auto
  moreover have g: "everywhere (\<lambda>p. length (Q p) \<le> 8)" using l few by auto
  moreover have "Q ID0 \<noteq> []" using l [of ID0] False by auto
  ultimately show ?thesis by (simp add: encrypt_few_with_repeated_input_def l Y(1))
qed


section \<open>Several inputs under several keys\<close>

lemma take_drop_Suc:
  assumes "k < length xs" and "0 < L"
  shows "take L (drop (i * L) (take (Suc k) xs)) =
    (if i = k div L then take L (drop (i * L) (take k xs)) @ [xs ! k] else take L (drop (i * L) (take k xs)))"
proof -
  have t: "take (Suc k) xs = take k xs @ [xs ! k]" using assms(1) by (rule take_Suc_conv_app_nth)
  have k: "k = k div L * L + k mod L" "k mod L < L" using assms(2) by simp_all
  consider "i = k div L" | "i < k div L" | "k div L < i" by linarith
  then show ?thesis
  proof cases
    case 1
    have "k < L + k div L * L" using k by linarith
    then show ?thesis using 1 assms by (simp add: t)
  next
    case 2
    then have "Suc i * L \<le> k div L * L" by (intro mult_le_mono1) simp
    also have "\<dots> \<le> k" by simp
    finally have "i * L + L \<le> k" by simp
    then show ?thesis using 2 assms by (simp add: t)
  next
    case 3
    then have i: "Suc (k div L) * L \<le> i * L" by (intro mult_le_mono1) simp
    have "k < Suc (k div L) * L" using k unfolding mult_Suc by linarith
    then have "k < i * L" using i by (rule less_le_trans)
    then show ?thesis using 3 assms by (simp add: t)
  qed
qed

lemma regroup_ok:
  assumes len: "length (concat outputs) = L * n" and L: "0 < L"
  shows "regroup_tags_by_input outputs L n = Inr (map (\<lambda>i. take L (drop (i * L) (concat outputs))) [0..<n])"
proof -
  let ?xs = "concat outputs"
  let ?f = "\<lambda>(lane, tag) tags. bindE (getE tags (lane div L)) (\<lambda>t. setE tags (lane div L) (t @ [tag]))"
  have "foldE ?f (enumerate 0 (take k ?xs)) (replicate n []) = Inr (map (\<lambda>i. take L (drop (i * L) (take k ?xs))) [0..<n])"
    if "k \<le> length ?xs" for k
    using that
  proof (induction k)
    case 0
    then show ?case by (simp add: map_replicate_const)
  next
    case (Suc k)
    then have k: "k < length ?xs" by simp
    have d: "k div L < n" using k len L by (simp add: div_less_iff_less_mult mult.commute)
    have "enumerate 0 (take (Suc k) ?xs) = enumerate 0 (take k ?xs) @ [(k, ?xs ! k)]"
      using k by (simp add: take_Suc_conv_app_nth enumerate_append_eq min_def)
    then have "foldE ?f (enumerate 0 (take (Suc k) ?xs)) (replicate n []) =
        Inr ((map (\<lambda>i. take L (drop (i * L) (take k ?xs))) [0..<n])[k div L := take L (drop (k div L * L) (take k ?xs)) @ [?xs ! k]])"
      using Suc d by (simp add: foldE_append)
    also have "(map (\<lambda>i. take L (drop (i * L) (take k ?xs))) [0..<n])[k div L := take L (drop (k div L * L) (take k ?xs)) @ [?xs ! k]] =
        map (\<lambda>i. take L (drop (i * L) (take (Suc k) ?xs))) [0..<n]"
      using d take_drop_Suc [OF k L] by (intro nth_equalityI) (auto simp: nth_list_update)
    finally show ?case .
  qed
  from this [of "length ?xs"] show ?thesis by (simp add: regroup_tags_by_input_def)
qed

lemma input_groups_ok:
  assumes X: "shared_list X xs" and L: "0 < L"
  shows "\<exists>wss. shared_groups (\<lambda>p. fst (slice_input_groups ((L * length xs + 7) div 8) L (X p))) wss \<and>
    length wss = (L * length xs + 7) div 8 \<and>
    (\<forall>g < (L * length xs + 7) div 8. \<forall>j < min 8 (L * length xs - g * 8). lane j (wss ! g) = xs ! ((g * 8 + j) div L))"
proof -
  let ?n = "(L * length xs + 7) div 8" and ?len = "\<lambda>g. min 8 (L * length xs - g * 8)"
  have l: "length (X p) = length xs" for p using shared_listD(1) [OF X] .
  let ?G = "\<lambda>p. fst (slice_input_groups ?n L (X p)) :: 8 word share list list"
  have "\<exists>ws. shared_wires (\<lambda>p. ?G p ! g) ws \<and> (\<forall>j < ?len g. lane j ws = xs ! ((g * 8 + j) div L))" if g: "g < ?n" for g
  proof -
    let ?ids = "[g * 8..<g * 8 + ?len g]"
    have "lane div L < length xs" if "lane \<in> set ?ids" for lane
      using that L by (auto simp: div_less_iff_less_mult mult.commute)
    then have "shared_list (\<lambda>p. map ((!) (X p)) (map (\<lambda>lane. lane div L) ?ids)) (map ((!) xs) (map (\<lambda>lane. lane div L) ?ids))"
      by (intro shared_list_pick [OF X]) simp
    moreover have "map (\<lambda>lane. (X p ! (lane div L), push_bit (lane - g * 8) 1 :: 8 word)) ?ids =
        map (\<lambda>(lane, block). (block, push_bit lane 1)) (enumerate 0 (map ((!) (X p)) (map (\<lambda>lane. lane div L) ?ids)))" for p
      by (rule nth_equalityI) (simp_all add: nth_enumerate_eq)
    then have "?G p ! g = bit_slice_blocks (map ((!) (X p)) (map (\<lambda>lane. lane div L) ?ids))" for p
      using g by (simp add: slice_input_groups_def Let_def bit_slice_blocks_def l min.commute)
    ultimately show ?thesis
      using bit_slice_blocks_shared [of "\<lambda>p. map ((!) (X p)) (map (\<lambda>lane. lane div L) ?ids)" "map ((!) xs) (map (\<lambda>lane. lane div L) ?ids)", where 'w = 8]
      by (auto simp: min.commute)
  qed
  then show ?thesis
  proof (rule groups_by_choice [rotated])
    show "length (?G p) = ?n" for p by (simp add: slice_input_groups_def Let_def)
  qed (assumption, blast)
qed


text \<open>The lanes of all inputs under all their keys: the sizes of the groups, what they hold, and how
  their outputs are handed back.\<close>

definition group_lens :: "nat \<Rightarrow> nat list" where
  "group_lens num = map (\<lambda>g. min 8 (num - g * 8)) [0..<(num + 7) div 8]"

lemma group_lens_simps [simp]:
  "length (group_lens num) = (num + 7) div 8"
  "g < (num + 7) div 8 \<Longrightarrow> group_lens num ! g = min 8 (num - g * 8)"
  by (simp_all add: group_lens_def)

lemma group_lens_bounds:
  assumes "len \<in> set (group_lens num)"
  shows "1 \<le> len \<and> len \<le> 8"
proof -
  obtain g where "g < (num + 7) div 8" "len = min 8 (num - g * 8)" using assms by (auto simp: group_lens_def)
  then show ?thesis using chunk_bounds [of 8 g num] by (simp add: add.commute)
qed

lemma input_lens: "snd (slice_input_groups ((L * length xs + 7) div 8) L xs) = group_lens (L * length xs)"
  by (simp add: slice_input_groups_def Let_def group_lens_def min.commute)

lemma input_keys:
  assumes "lane_keys Q kss"
  shows "shared_key_groups (\<lambda>p. map combine_round_keys (chunks 8 (Q p))) ((length kss + 7) div 8) ((!) (group_lens (length kss))) (\<lambda>g j. kss ! (g * 8 + j))"
  unfolding group_lens_def by (rule combined_groups_ok [OF assms])

lemma outputs_regrouped:
  assumes L: "0 < L" and X: "\<And>p. length (X p) = length xs"
    and Y: "shared_cols Y (map (\<lambda>g. map (\<lambda>j. lowmc_encrypt (kss ! (g * 8 + j)) (lane j (wss ! g))) [0..<group_lens (L * length xs) ! g]) [0..<(L * length xs + 7) div 8])"
    and W: "\<And>g j. g < (L * length xs + 7) div 8 \<Longrightarrow> j < min 8 (L * length xs - g * 8) \<Longrightarrow> lane j (wss ! g) = xs ! ((g * 8 + j) div L)"
  shows "\<exists>R. each_party (\<lambda>p. regroup_tags_by_input (Y p) L (length (X p))) = Inr R \<and>
    shared_cols R (map (\<lambda>i. map (\<lambda>l. lowmc_encrypt (kss ! (i * L + l)) (xs ! i)) [0..<L]) [0..<length xs])"
proof -
  let ?T = "L * length xs"
  let ?n = "(?T + 7) div 8" and ?len = "\<lambda>g. min 8 (?T - g * 8)" and ?F = "\<lambda>i. lowmc_encrypt (kss ! i) (xs ! (i div L))"
  have e: "map (\<lambda>g. map (\<lambda>j. lowmc_encrypt (kss ! (g * 8 + j)) (lane j (wss ! g))) [0..<group_lens ?T ! g]) [0..<?n] =
      map (\<lambda>g. map (\<lambda>j. ?F (g * 8 + j)) [0..<?len g]) [0..<?n]"
    by (intro map_cong refl) (auto simp: W)
  have "concat (map (\<lambda>g. map (\<lambda>j. ?F (g * 8 + j)) [0..<?len g]) [0..<?n]) = map ?F [0..<?T]"
    using concat_by_chunks [of 8 ?F ?T] by (simp add: add.commute)
  then have tags: "shared_list (\<lambda>p. concat (Y p)) (map ?F [0..<?T])" using shared_list_concat [OF Y] unfolding e by (simp only:)
  let ?R = "\<lambda>p. map (\<lambda>i. take L (drop (i * L) (concat (Y p)))) [0..<length xs]"
  have "length (concat (Y p)) = ?T" for p using shared_listD(1) [OF tags] by simp
  then have regroup: "each_party (\<lambda>p. regroup_tags_by_input (Y p) L (length (X p))) = Inr ?R"
    unfolding X by (intro each_party_Inr regroup_ok) (simp_all add: L)
  have "shared_cols ?R (map (\<lambda>i. take L (drop (i * L) (map ?F [0..<?T]))) [0..<length xs])"
    using tags by (simp add: shared_cols_def shared_list_take shared_list_drop)
  also have "map (\<lambda>i. take L (drop (i * L) (map ?F [0..<?T]))) [0..<length xs] =
      map (\<lambda>i. map (\<lambda>l. lowmc_encrypt (kss ! (i * L + l)) (xs ! i)) [0..<L]) [0..<length xs]"
  proof (intro map_cong refl)
    fix i assume "i \<in> set [0..<length xs]"
    then have "Suc i * L \<le> length xs * L" by (intro mult_le_mono1) simp
    then have "i * L + L \<le> ?T" by (simp add: algebra_simps)
    then show "take L (drop (i * L) (map ?F [0..<?T])) = map (\<lambda>l. lowmc_encrypt (kss ! (i * L + l)) (xs ! i)) [0..<L]"
      using L by (intro nth_equalityI) (simp_all add: drop_map)
  qed
  finally show ?thesis using regroup by blast
qed

lemma encrypt_inputs_ok:
  assumes Q: "lane_keys Q kss" and len: "length kss = L * length xs" and X: "shared_list X xs"
    and env: "online net" "correlated rng"
  shows "\<exists>Y. encrypt_many_inputs_with_combined_keys net rng (\<lambda>p. map combine_round_keys (chunks 8 (Q p))) L X = Inr Y \<and>
    shared_cols Y (map (\<lambda>i. map (\<lambda>l. lowmc_encrypt (kss ! (i * L + l)) (xs ! i)) [0..<L]) [0..<length xs])"
proof (cases "L = 0 \<or> xs = []")
  case True
  then have "shared_cols (\<lambda>p. replicate (length (X p)) []) (map (\<lambda>i. map (\<lambda>l. lowmc_encrypt (kss ! (i * L + l)) (xs ! i)) [0..<L]) [0..<length xs])"
    using shared_listD(1) [OF X] by (auto simp: shared_cols_def)
  moreover have "L = 0 \<or> X ID0 = []" using True shared_listD(1) [OF X, of ID0] by auto
  ultimately show ?thesis by (simp add: encrypt_many_inputs_with_combined_keys_def)
next
  case False
  then have L: "0 < L" and ne: "X ID0 \<noteq> []" using shared_listD(1) [OF X, of ID0] by auto
  let ?n = "(L * length xs + 7) div 8" and ?K = "\<lambda>p. map combine_round_keys (chunks 8 (Q p))" and ?lens = "group_lens (L * length xs)"
  have l: "length (X p) = length xs" "length (?K p) = ?n" for p
    using shared_listD(1) [OF X] Q len by (simp_all add: lane_keys_def chunks_length add.commute)
  obtain wss where W: "shared_groups (\<lambda>p. fst (slice_input_groups ?n L (X p))) wss" "length wss = ?n"
    "\<And>g j. g < ?n \<Longrightarrow> j < min 8 (L * length xs - g * 8) \<Longrightarrow> lane j (wss ! g) = xs ! ((g * 8 + j) div L)"
    using input_groups_ok [OF X L] by blast
  obtain Y where Y: "encrypt_lane_groups net rng ?K (\<lambda>p. fst (slice_input_groups ?n L (X p))) ?lens = Inr Y"
    "shared_cols Y (map (\<lambda>g. map (\<lambda>j. lowmc_encrypt (kss ! (g * 8 + j)) (lane j (wss ! g))) [0..<?lens ! g]) [0..<?n])"
    using encrypt_lane_groups_ok [OF input_keys [OF Q, unfolded len] W(1,2) group_lens_simps(1) group_lens_bounds [of _ "L * length xs"] env] by blast
  obtain R where R: "each_party (\<lambda>p. regroup_tags_by_input (Y p) L (length (X p))) = Inr R"
    "shared_cols R (map (\<lambda>i. map (\<lambda>l. lowmc_encrypt (kss ! (i * L + l)) (xs ! i)) [0..<L]) [0..<length xs])"
    using outputs_regrouped [where X = X, OF L l(1) Y(2)] W(3) by blast
  have g: "everywhere (\<lambda>p. length (?K p) = (L * length (X ID0) + 7) div 8)" using l by (simp add: everywhere_def)
  have "encrypt_many_inputs_with_combined_keys net rng ?K L X = Inr R"
    unfolding encrypt_many_inputs_with_combined_keys_def Let_def checkE_True [OF g]
    using ne L R(1) Y(1) input_lens [of L "X ID0"] l by simp
  then show ?thesis using R(2) by blast
qed

section \<open>Properties\<close>

text \<open>C19: The byte lanes encrypt like the cipher: one block under many keys gives, in the order of the
  keys, its encryption under each (in groups of eight keys, the last one partly filled, and none for
  no key), and the entry point for up to eight precomputed keys gives the same.\<close>

theorem lanes_repeated_input_correct:
  assumes "shared_keys K kss" and "shared X x" and "online net" and "correlated rng"
  shows "bindE (encrypt_many_with_repeated_input net rng K X) (open_many net) = Inr (\<lambda>p. map (\<lambda>ks. lowmc_encrypt ks x) kss) \<and>
    bindE (each_party (\<lambda>p. mapE precompute_round_keys (K p))) (\<lambda>round_keys.
        bindE (encrypt_few_with_repeated_input net rng round_keys X) (open_many net)) =
      (if length kss \<le> 8 then Inr (\<lambda>p. map (\<lambda>ks. lowmc_encrypt ks x) kss) else Inl (Panic ''round_keys.len() <= 8''))"
proof -
  obtain Q where Q: "each_party (\<lambda>p. mapE precompute_round_keys (K p)) = Inr Q" "lane_keys Q kss"
    using precompute_ok [OF assms(1)] by blast
  have few: "bindE (encrypt_few_with_repeated_input net rng Q X) (open_many net) = Inr (\<lambda>p. map (\<lambda>ks. lowmc_encrypt ks x) kss)"
    if "length kss \<le> 8" using encrypt_few_ok [OF Q(2) that assms(2-4)] assms(3) by (auto simp: open_many_correct)
  have many: "encrypt_few_with_repeated_input net rng Q X = Inl (Panic ''round_keys.len() <= 8'')" if "\<not> length kss \<le> 8"
  proof -
    have "length (Q ID0) = length kss" using Q(2) by (simp add: lane_keys_def)
    then have "Q ID0 \<noteq> []" "\<not> everywhere (\<lambda>p. length (Q p) \<le> 8)" using that by (auto simp: everywhere_def)
    then show ?thesis by (simp add: encrypt_few_with_repeated_input_def)
  qed
  show ?thesis using encrypt_repeated_ok [OF assms] few many assms(3) by (auto simp: open_many_correct Q(1))
qed

theorem lanes_repeated_input_correct_witness:
  "bindE (encrypt_many_with_repeated_input all_online zero_rng
      (\<lambda>p. replicate 10 (promote_public_values p (replicate 10 7))) (\<lambda>p. promote_public p 5)) (open_many all_online) =
    Inr (\<lambda>p. replicate 10 (lowmc_encrypt (replicate 10 7) 5))"
proof -
  have k: "shared_keys (\<lambda>p. replicate 10 (promote_public_values p (replicate 10 7))) (replicate 10 (replicate 10 7))"
    by (rule shared_keys_replicate [OF promote_public_values_shared]) simp
  from conjunct1 [OF lanes_repeated_input_correct [OF k shared_promote_public [of 5] concrete_environment]]
  show ?thesis by (simp only: map_replicate)
qed

text \<open>C16: Several inputs under several keys each, with the keys of all lanes combined in groups of
  eight: the tags come back by input and, for one input, in the order of its keys; also when a group
  holds lanes of different inputs.\<close>

theorem lanes_many_inputs_correct:
  assumes "shared_keys K kss" and "length kss = num_levels * length xs" and "shared_list X xs"
    and "online net" and "correlated rng"
  shows "\<exists>Y. bindE (each_party (\<lambda>p. mapE precompute_round_keys (K p))) (\<lambda>round_keys.
      encrypt_many_inputs_with_combined_keys net rng (\<lambda>p. map combine_round_keys (chunks 8 (round_keys p))) num_levels X) = Inr Y \<and>
    shared_cols Y (map (\<lambda>i. map (\<lambda>level. lowmc_encrypt (kss ! (i * num_levels + level)) (xs ! i)) [0..<num_levels]) [0..<length xs])"
  using precompute_ok [OF assms(1)] encrypt_inputs_ok [OF _ assms(2-5)] by auto

theorem lanes_many_inputs_correct_witness:
  "\<exists>Y. bindE (each_party (\<lambda>p. mapE precompute_round_keys (replicate 10 (promote_public_values p (replicate 10 7))))) (\<lambda>round_keys.
      encrypt_many_inputs_with_combined_keys all_online zero_rng (\<lambda>p. map combine_round_keys (chunks 8 (round_keys p))) 5
        (\<lambda>p. promote_public_values p [3, 4])) = Inr Y \<and>
    shared_cols Y [replicate 5 (lowmc_encrypt (replicate 10 7) 3), replicate 5 (lowmc_encrypt (replicate 10 7) 4)]"
proof -
  have k: "shared_keys (\<lambda>p. replicate 10 (promote_public_values p (replicate 10 7))) (replicate 10 (replicate 10 7))"
    by (rule shared_keys_replicate [OF promote_public_values_shared]) simp
  have "map (\<lambda>i. map (\<lambda>level. lowmc_encrypt (replicate 10 (replicate 10 7) ! (i * 5 + level)) ([3, 4] ! i)) [0..<5]) [0..<length [3, 4 :: 128 word]] =
      [replicate 5 (lowmc_encrypt (replicate 10 7) 3), replicate 5 (lowmc_encrypt (replicate 10 7) 4)]"
    by (simp add: upt_rec nth_Cons' numeral_eq_Suc)
  with lanes_many_inputs_correct [OF k _ promote_public_values_shared [of "[3, 4]"] concrete_environment, of 5]
  show ?thesis by simp
qed

end
