(* ===== verification/Speed_Cache.thy ===== *)
theory Speed_Cache
  imports Circuits
begin

text \<open>
  The speed cache of \<open>crates/data-structures/src/speed_cache.rs\<close>: a linear store of shared addresses
  and records. A query compares the address with every stored one, takes the sum of the matching
  records, and turns every matching address into the dummy sentinel, so that the entry is gone. The
  length, the address-space exponent and the number of stored entries are the same at every party;
  the addresses and records are one vector of shares per party.
\<close>

unbundle bit_operations_syntax

section \<open>Operations\<close>

record (overloaded) 'v speed_cache =
  sc_length :: nat
  sc_log_address_space_size :: nat
  sc_num_stored :: nat
  sc_addrs :: "32 shares"
  sc_data :: "party \<Rightarrow> 'v dr_record list"

definition speed_cache_new :: "nat \<Rightarrow> nat \<Rightarrow> 'v::len speed_cache" where
  "speed_cache_new len log_n = \<lparr>sc_length = len, sc_log_address_space_size = log_n, sc_num_stored = 0,
     sc_addrs = (\<lambda>p. replicate len (dummy_x p log_n)), sc_data = (\<lambda>p. replicate len record_zero)\<rparr>"

text \<open>\<open>Iterator::reduce\<close> followed by \<open>expect\<close>: the sum of a vector that must not be empty.\<close>

definition reduceE :: "('a \<Rightarrow> 'a \<Rightarrow> 'a) \<Rightarrow> 'a list \<Rightarrow> 'a res" where
  "reduceE f xs = (case xs of [] \<Rightarrow> Inl (Panic ''circuit output should be non-empty'')
     | x # xs \<Rightarrow> Inr (foldl f x xs))"

text \<open>The circuit's output per stored entry: masked address, masked record, match bit.\<close>

type_synonym 'v scan = "32 shares \<times> (party \<Rightarrow> 'v dr_record list) \<times> 1 shares"

definition mark_address :: "nat \<Rightarrow> 32 word share \<Rightarrow> 32 word share \<times> 1 word share \<Rightarrow> 32 word share" where
  "mark_address log_n x = (\<lambda>(x_mask, found).
     xor_share x (xor_share x_mask (and_public_share (bit_to_binary_mask found) (push_bit log_n 1))))"

definition mark_addresses ::
    "nat \<Rightarrow> 32 word share list \<Rightarrow> 32 word share list \<Rightarrow> 1 word share list \<Rightarrow> 32 word share list" where
  "mark_addresses log_n xs masks found =
     map2 (mark_address log_n) xs (zip masks found) @ drop (length (zip masks found)) xs"

definition cache_query ::
    "'v::len value_ops \<Rightarrow> network \<Rightarrow> rngs \<Rightarrow> (party \<Rightarrow> 32 word share) \<Rightarrow> 'v scan option \<Rightarrow> 'v speed_cache \<Rightarrow>
     ((party \<Rightarrow> 'v dr_record) \<times> (party \<Rightarrow> 1 word share) \<times> 'v speed_cache) res" where
  "cache_query V net rng query_addr precompute_data C =
     (let n = sc_num_stored C in
      if n = 0 then Inr (\<lambda>p. record_zero, \<lambda>p. promote_public p 0, C)
      else bindE (case precompute_data of
          Some result \<Rightarrow> Inr result
        | None \<Rightarrow>
            bindE (xy_if_xs_equal_circuit V (\<lambda>p. take n (sc_addrs C p)) (\<lambda>p. replicate n (query_addr p))
              (\<lambda>p. get_y_values (take n (sc_data C p))) (\<lambda>p. get_alibis (take n (sc_data C p))) net rng)
              (\<lambda>(x_if_found, y_if_found, alibi_if_found, found).
                Inr (x_if_found, \<lambda>p. from_columns (y_if_found p) (alibi_if_found p), found)))
        (\<lambda>(x_if_found, y_if_found, found).
          let C' = C\<lparr>sc_addrs := \<lambda>p. mark_addresses (sc_log_address_space_size C) (take n (sc_addrs C p))
                (x_if_found p) (found p) @ drop n (sc_addrs C p)\<rparr>
          in bindE (each_party (\<lambda>p. reduceE xor_record (y_if_found p))) (\<lambda>y_xor.
             bindE (each_party (\<lambda>p. reduceE xor_share (found p))) (\<lambda>found_xor.
               Inr (y_xor, found_xor, C')))))"

definition slice :: "nat \<Rightarrow> nat \<Rightarrow> 'a list \<Rightarrow> 'a list" where
  "slice n k xs = take n (drop (k * n) xs)"

definition cache_scan_many ::
    "'v::len value_ops \<Rightarrow> network \<Rightarrow> rngs \<Rightarrow> 32 shares \<Rightarrow> 'v scan list option \<Rightarrow> 'v speed_cache \<Rightarrow>
     'v scan res" where
  "cache_scan_many V net rng query_addrs precomputed C =
     (let n = sc_num_stored C in
      case precomputed of
        Some results \<Rightarrow>
          checkE (length results = length (query_addrs ID0)) (Panic ''results.len() == count'')
            (Inr (\<lambda>p. concat (map (\<lambda>(x, y, found). x p) results),
                  \<lambda>p. concat (map (\<lambda>(x, y, found). y p) results),
                  \<lambda>p. concat (map (\<lambda>(x, y, found). found p) results)))
      | None \<Rightarrow>
          (let addrs = (\<lambda>p. concat (map (\<lambda>q. take n (sc_addrs C p)) (query_addrs p)));
               queries = (\<lambda>p. concat (map (replicate n) (query_addrs p)));
               values = (\<lambda>p. concat (map (\<lambda>q. get_y_values (take n (sc_data C p))) (query_addrs p)));
               alibis = (\<lambda>p. concat (map (\<lambda>q. get_alibis (take n (sc_data C p))) (query_addrs p)))
           in bindE (is_zero_many fold_u32 net rng (\<lambda>p. xor_shares (addrs p) (queries p))) (\<lambda>found.
              bindE (cmux_many_custom V found addrs values alibis net
                  (skip_draws (5 * length (addrs ID0)) rng)) (\<lambda>(x, y, alibi).
                Inr (x, \<lambda>p. from_columns (y p) (alibi p), found)))))"

definition cache_query_many ::
    "'v::len value_ops \<Rightarrow> network \<Rightarrow> rngs \<Rightarrow> 32 shares \<Rightarrow> 'v scan list option \<Rightarrow> 'v speed_cache \<Rightarrow>
     ((party \<Rightarrow> ('v dr_record \<times> 1 word share) list) \<times> 'v speed_cache) res" where
  "cache_query_many V net rng query_addrs precomputed C =
     (let n = sc_num_stored C; num = length (query_addrs ID0) in
      if n = 0 then Inr (\<lambda>p. replicate num (record_zero, promote_public p 0), C)
      else bindE (cache_scan_many V net rng query_addrs precomputed C) (\<lambda>(x, y, found).
          let C' = C\<lparr>sc_addrs := \<lambda>p. fold (\<lambda>query addrs. mark_addresses (sc_log_address_space_size C) addrs
                (slice n query (x p)) (slice n query (found p))) [0..<num] (take n (sc_addrs C p))
                @ drop n (sc_addrs C p)\<rparr>
          in bindE (each_party (\<lambda>p. mapE (\<lambda>query.
               bindE (reduceE xor_record (slice n query (y p))) (\<lambda>y_xor.
               bindE (reduceE xor_share (slice n query (found p))) (\<lambda>found_xor.
                 Inr (y_xor, found_xor)))) [0..<num])) (\<lambda>results.
             Inr (results, C'))))"

definition cache_extract :: "'v::len speed_cache \<Rightarrow> (32 shares \<times> (party \<Rightarrow> 'v dr_record list)) res" where
  "cache_extract C =
     checkE (sc_num_stored C = sc_length C) (Panic ''num_stored == length'')
    (checkE (everywhere (\<lambda>p. length (sc_addrs C p) = sc_length C)) (Panic ''addrs.len() == length'')
    (checkE (everywhere (\<lambda>p. length (sc_data C p) = sc_length C)) (Panic ''data.len() == length'')
      (Inr (sc_addrs C, sc_data C))))"

definition cache_extract_stored :: "'v::len speed_cache \<Rightarrow> 32 shares \<times> (party \<Rightarrow> 'v dr_record list)" where
  "cache_extract_stored C =
     (\<lambda>p. take (sc_num_stored C) (sc_addrs C p), \<lambda>p. take (sc_num_stored C) (sc_data C p))"

text \<open>\<open>self.addrs[start..end].clone_from_slice(&write_addrs)\<close>\<close>

definition overwrite :: "nat \<Rightarrow> 'a list \<Rightarrow> 'a list \<Rightarrow> 'a list" where
  "overwrite start new xs = take start xs @ new @ drop (start + length new) xs"

definition cache_put ::
    "32 shares \<Rightarrow> (party \<Rightarrow> 'v::len dr_record list) \<Rightarrow> 'v speed_cache \<Rightarrow> 'v speed_cache res" where
  "cache_put write_addrs write_data C =
     checkE (everywhere (\<lambda>p. length (write_addrs p) = length (write_data p)))
       (Panic ''write_addrs.len() == write_data.len()'')
    (checkE (sc_num_stored C < sc_length C) (Panic ''The speed cache is full'')
    (checkE (sc_num_stored C + length (write_addrs ID0) \<le> sc_length C)
       (Panic ''write batch exceeds remaining speed cache capacity'')
      (Inr (C\<lparr>sc_addrs := \<lambda>p. overwrite (sc_num_stored C) (write_addrs p) (sc_addrs C p),
              sc_data := \<lambda>p. overwrite (sc_num_stored C) (write_data p) (sc_data C p),
              sc_num_stored := sc_num_stored C + length (write_addrs ID0)\<rparr>))))"

definition cache_advance :: "nat \<Rightarrow> 'v::len speed_cache \<Rightarrow> 'v speed_cache res" where
  "cache_advance num_to_skip C =
     checkE (sc_num_stored C + num_to_skip \<le> sc_length C) (Panic ''skip exceeds speed cache capacity'')
       (Inr (C\<lparr>sc_num_stored := sc_num_stored C + num_to_skip\<rparr>))"

definition is_writeable :: "'v::len speed_cache \<Rightarrow> bool" where
  "is_writeable C \<longleftrightarrow> sc_num_stored C < sc_length C"

definition cache_clear :: "'v::len speed_cache \<Rightarrow> 'v speed_cache" where
  "cache_clear C = C\<lparr>sc_num_stored := 0\<rparr>"

section \<open>What a cache holds\<close>

text \<open>The stored entries in clear: an address and a record each.\<close>

type_synonym 'v entries = "(32 word \<times> 'v clear_record) list"

definition cache_holds :: "'v::len speed_cache \<Rightarrow> 'v entries \<Rightarrow> bool" where
  "cache_holds C es \<longleftrightarrow> length es = sc_num_stored C \<and> sc_num_stored C \<le> sc_length C \<and>
     (\<forall>p. length (sc_addrs C p) = sc_length C \<and> length (sc_data C p) = sc_length C) \<and>
     shared_list (\<lambda>p. take (sc_num_stored C) (sc_addrs C p)) (map fst es) \<and>
     shared_records (\<lambda>p. take (sc_num_stored C) (sc_data C p)) (map snd es)"

definition clear_hit :: "'v::len word \<Rightarrow> 32 word \<Rightarrow> 32 word \<times> 'v clear_record \<Rightarrow> 'v clear_record" where
  "clear_hit ones q e = (if fst e = q then (ones AND fst (snd e), snd (snd e)) else (0, 0))"

text \<open>The clear result of a scan: the sum of the matching records, and the parity of the matches.\<close>

definition scan_result :: "'v::len word \<Rightarrow> 32 word \<Rightarrow> 'v entries \<Rightarrow> 'v clear_record \<times> 1 word" where
  "scan_result ones q es = (foldr (\<lambda>e. xor_clear (clear_hit ones q e)) es (0, 0),
     foldr (\<lambda>e. (XOR) (of_bool (fst e = q))) es 0)"

definition sentinel_of :: "nat \<Rightarrow> 32 word" where
  "sentinel_of log_n = push_bit log_n 1"

lemma cache_new_holds: "cache_holds (speed_cache_new len log_n) []"
  by (simp add: cache_holds_def speed_cache_new_def shared_records_def)

lemma split_heads:
  assumes "\<And>p :: party. length (T p) = Suc n"
  obtains h t where "T = (\<lambda>p. h p # t p)" and "\<And>p. length (t p) = n"
proof
  have "T p \<noteq> []" for p using assms [of p] by auto
  then show "T = (\<lambda>p. hd (T p) # tl (T p))" by (simp add: fun_eq_iff)
  show "length (tl (T p)) = n" for p using assms by simp
qed

lemma foldl_related:
  assumes step: "\<And>a b x y. P a x \<Longrightarrow> P b y \<Longrightarrow> P (\<lambda>p. f (a p) (b p)) (g x y)"
    and "P a x" and "\<And>p :: party. length (T p) = length ys" and "\<And>i. i < length ys \<Longrightarrow> P (\<lambda>p. T p ! i) (ys ! i)"
  shows "P (\<lambda>p. foldl f (a p) (T p)) (foldl g x ys)"
  using assms(2-)
proof (induction ys arbitrary: a x T)
  case Nil
  then have "T = (\<lambda>p. [])" by auto
  then show ?case using Nil by simp
next
  case (Cons y ys)
  obtain h t where T: "T = (\<lambda>p. h p # t p)" and t: "\<And>p. length (t p) = length ys"
    using Cons.prems(2) by (auto intro: split_heads [of T "length ys"])
  have h: "P h y" using Cons.prems(3) [of 0] by (simp add: T)
  have nth: "P (\<lambda>p. t p ! i) (ys ! i)" if "i < length ys" for i
    using Cons.prems(3) [of "Suc i"] that by (simp add: T)
  have "P (\<lambda>p. foldl f (f (a p) (h p)) (t p)) (foldl g (g x y) ys)"
    by (rule Cons.IH [OF step [OF Cons.prems(1) h] t nth])
  then show ?case by (simp add: T)
qed

lemma reduceE_related:
  assumes step: "\<And>a b x y. P a x \<Longrightarrow> P b y \<Longrightarrow> P (\<lambda>p. f (a p) (b p)) (g x y)"
    and len: "\<And>p :: party. length (S p) = length xs"
    and nth: "\<And>i. i < length xs \<Longrightarrow> P (\<lambda>p. S p ! i) (xs ! i)" and "xs \<noteq> []"
    and assoc: "\<And>a b c. g (g a b) c = g a (g b c)" and unit: "\<And>a. g a z = a"
  shows "\<exists>R. (\<forall>p. reduceE f (S p) = Inr (R p)) \<and> P R (foldr g xs z)"
proof -
  obtain y ys where xs: "xs = y # ys" using assms(4) by (cases xs) auto
  obtain h t where S: "S = (\<lambda>p. h p # t p)" and t: "\<And>p. length (t p) = length ys"
    using len by (auto simp: xs intro: split_heads [of S "length ys"])
  have h: "P h y" using nth [of 0] by (simp add: S xs)
  have nth': "P (\<lambda>p. t p ! i) (ys ! i)" if "i < length ys" for i
    using nth [of "Suc i"] that by (simp add: S xs)
  have "foldl g y ys = g y (foldr g ys z)"
    by (induction ys arbitrary: y) (simp_all add: assoc unit)
  then have e: "foldr g xs z = foldl g y ys" by (simp add: xs)
  have "P (\<lambda>p. foldl f (h p) (t p)) (foldr g xs z)"
    unfolding e by (rule foldl_related [where P = P, OF step h t nth'])
  moreover have "reduceE f (S p) = Inr (foldl f (h p) (t p))" for p by (simp add: S reduceE_def)
  ultimately show ?thesis by (intro exI [of _ "\<lambda>p. foldl f (h p) (t p)"]) simp
qed

lemma xor_clear_laws:
  "xor_clear (xor_clear a b) c = xor_clear a (xor_clear b c)" "xor_clear a (0, 0) = a" "xor_clear (0, 0) a = a"
  by (simp_all add: xor_clear_def xor.assoc)

lemma reduce_records:
  assumes "shared_records R ys" and "ys \<noteq> []"
  shows "\<exists>Q. (\<forall>p. reduceE xor_record (R p) = Inr (Q p)) \<and> shared_record Q (foldr xor_clear ys (0, 0))"
  by (rule reduceE_related [where P = shared_record])
    (auto simp: assms(2) xor_clear_laws shared_recordsD [OF assms(1)])

lemma reduce_bits:
  assumes "shared_list F bs" and "bs \<noteq> []"
  shows "\<exists>Q. (\<forall>p. reduceE xor_share (F p) = Inr (Q p)) \<and> shared Q (foldr (XOR) bs (0 :: 1 word))"
  by (rule reduceE_related [where P = shared])
    (auto simp: assms(2) xor.assoc shared_listD [OF assms(1)])

definition marked :: "nat \<Rightarrow> 32 word \<Rightarrow> 32 word \<times> 1 word \<Rightarrow> 32 word" where
  "marked log_n x = (\<lambda>(m, b). x XOR (m XOR (bit_mask b AND push_bit log_n 1)))"

lemma mark_addresses_shared:
  assumes X: "shared_list X xs" and M: "shared_list M ms" and F: "shared_list F bs"
    and len: "length ms = length xs" "length bs = length xs"
  shows "shared_list (\<lambda>p. mark_addresses log_n (X p) (M p) (F p)) (map2 (marked log_n) xs (zip ms bs))"
proof (rule shared_listI)
  have l: "length (X p) = length xs" "length (M p) = length xs" "length (F p) = length xs" for p
    using shared_listD(1) [OF X] shared_listD(1) [OF M] shared_listD(1) [OF F] len by simp_all
  show "length (mark_addresses log_n (X p) (M p) (F p)) = length (map2 (marked log_n) xs (zip ms bs))" for p
    using l len by (simp add: mark_addresses_def)
  fix i assume i: "i < length (map2 (marked log_n) xs (zip ms bs))"
  then have "shared (\<lambda>p. X p ! i) (xs ! i)" "shared (\<lambda>p. M p ! i) (ms ! i)" "shared (\<lambda>p. F p ! i) (bs ! i)"
    using shared_listD(2) [OF X] shared_listD(2) [OF M] shared_listD(2) [OF F] len by simp_all
  then have "shared (\<lambda>p. mark_address log_n (X p ! i) (M p ! i, F p ! i)) (marked log_n (xs ! i) (ms ! i, bs ! i))"
    unfolding mark_address_def marked_def prod.case
    by (intro shared_xor shared_and_public shared_bit_to_binary_mask)
  then show "shared (\<lambda>p. mark_addresses log_n (X p) (M p) (F p) ! i) (map2 (marked log_n) xs (zip ms bs) ! i)"
    using i l len by (simp add: mark_addresses_def nth_append)
qed

section \<open>A single query\<close>

lemma scan_result_foldr:
  "foldr xor_clear (map (clear_hit ones q) es) (0, 0) = fst (scan_result ones q es)"
  "foldr (XOR) (map (\<lambda>e. of_bool (fst e = q)) es) 0 = snd (scan_result ones q es)"
  by (simp_all add: scan_result_def foldr_map o_def)

text \<open>What a precomputed scan must be: the outputs of the circuit on the stored entries.\<close>

definition scan_ok :: "'v::len word \<Rightarrow> 32 word \<Rightarrow> 'v entries \<Rightarrow> 'v scan \<Rightarrow> bool" where
  "scan_ok ones q es = (\<lambda>(x, y, found).
     shared_list x (map (\<lambda>e. if fst e = q then fst e else 0) es) \<and>
     shared_records y (map (clear_hit ones q) es) \<and>
     shared_list found (map (\<lambda>e. of_bool (fst e = q)) es))"

lemma scan_circuit:
  assumes V: "doram_value V blk ones" and C: "cache_holds C es" and Q: "shared Q q"
    and env: "online net" "correlated rng"
  shows "\<exists>x y a found. xy_if_xs_equal_circuit V (\<lambda>p. take (sc_num_stored C) (sc_addrs C p))
      (\<lambda>p. replicate (sc_num_stored C) (Q p)) (\<lambda>p. get_y_values (take (sc_num_stored C) (sc_data C p)))
      (\<lambda>p. get_alibis (take (sc_num_stored C) (sc_data C p))) net rng = Inr (x, y, a, found) \<and>
    scan_ok ones q es (x, \<lambda>p. from_columns (y p) (a p), found)"
proof -
  let ?n = "sc_num_stored C" and ?hit = "map (\<lambda>e. of_bool (fst e = q) :: 1 word) es"
  have n: "length es = ?n" and X: "shared_list (\<lambda>p. take ?n (sc_addrs C p)) (map fst es)"
    and Y: "shared_list (\<lambda>p. get_y_values (take ?n (sc_data C p))) (map fst (map snd es))"
    and A: "shared_list (\<lambda>p. get_alibis (take ?n (sc_data C p))) (map snd (map snd es))"
    using C by (simp_all add: cache_holds_def shared_records_columns)
  have Qs: "shared_list (\<lambda>p. replicate ?n (Q p)) (replicate ?n q)" by (rule shared_list_replicate [OF Q])
  have hit: "map2 (\<lambda>x q. of_bool (x = q)) (map fst es) (replicate ?n q) = ?hit"
    by (rule nth_equalityI) (simp_all add: n)
  have sel: "map2 (select ones') ?hit (map f es) = map (\<lambda>e. if fst e = q then ones' AND f e else 0) es"
    for ones' :: "'b::len word" and f by (rule nth_equalityI) simp_all
  obtain x y a found where circ: "xy_if_xs_equal_circuit V (\<lambda>p. take ?n (sc_addrs C p))
      (\<lambda>p. replicate ?n (Q p)) (\<lambda>p. get_y_values (take ?n (sc_data C p)))
      (\<lambda>p. get_alibis (take ?n (sc_data C p))) net rng = Inr (x, y, a, found)"
    "shared_list x (map2 (select (NOT 0)) ?hit (map fst es))"
    "shared_list y (map2 (select ones) ?hit (map fst (map snd es)))"
    "shared_list a (map2 (select (NOT 0)) ?hit (map snd (map snd es)))" "shared_list found ?hit"
    using xy_if_xs_equal_circuit_correct [OF V X Qs Y A _ _ _ env, unfolded hit] n by auto
  have "shared_list x (map (\<lambda>e. if fst e = q then fst e else 0) es)"
    using circ(2) by (simp add: sel cong: if_cong)
  moreover have "shared_records (\<lambda>p. from_columns (y p) (a p)) (map (clear_hit ones q) es)"
  proof (rule from_columns_shared)
    have "map fst (map (clear_hit ones q) es) = map2 (select ones) ?hit (map fst (map snd es))"
      "map snd (map (clear_hit ones q) es) = map2 (select (NOT 0)) ?hit (map snd (map snd es))"
      by (rule nth_equalityI; simp add: clear_hit_def)+
    then show "shared_list y (map fst (map (clear_hit ones q) es))"
      "shared_list a (map snd (map (clear_hit ones q) es))" using circ(3,4) by simp_all
  qed
  ultimately show ?thesis using circ(1,5) by (auto simp: scan_ok_def)
qed

lemma marked_simps [simp]:
  "marked log_n a (a, 1) = push_bit log_n 1" "marked log_n a (0, 0) = a"
  by (simp_all add: marked_def)

text \<open>Replacing the addresses of the stored part.\<close>

lemma cache_holds_addrs:
  assumes C: "cache_holds C es" and X: "shared_list X xs" and len: "length xs = length es"
  shows "cache_holds (C\<lparr>sc_addrs := \<lambda>p. X p @ drop (sc_num_stored C) (sc_addrs C p)\<rparr>) (zip xs (map snd es))"
  using C len shared_listD(1) [OF X] X by (simp add: cache_holds_def)

lemma cache_query_correct:
  assumes V: "doram_value V blk ones" and C: "cache_holds C es" and Q: "shared Q q"
    and env: "online net" "correlated rng" and pre: "\<And>r. pre = Some r \<Longrightarrow> scan_ok ones q es r"
  shows "\<exists>y found C'. cache_query V net rng Q pre C = Inr (y, found, C') \<and>
    shared_record y (fst (scan_result ones q es)) \<and> shared found (snd (scan_result ones q es)) \<and>
    cache_holds C' (map (\<lambda>(a, r). (if a = q then sentinel_of (sc_log_address_space_size C) else a, r)) es) \<and>
    sc_num_stored C' = sc_num_stored C \<and> sc_length C' = sc_length C \<and>
    sc_log_address_space_size C' = sc_log_address_space_size C"
proof (cases "sc_num_stored C = 0")
  case True
  then have "es = []" using C by (simp add: cache_holds_def)
  then show ?thesis
    using True C record_zero_shared shared_promote_public [of "0 :: 1 word"]
    by (auto simp: cache_query_def Let_def scan_result_def)
next
  case False
  let ?n = "sc_num_stored C" and ?log = "sc_log_address_space_size C"
  have n: "length es = ?n" and X: "shared_list (\<lambda>p. take ?n (sc_addrs C p)) (map fst es)"
    using C by (simp_all add: cache_holds_def)
  then have ne: "es \<noteq> []" using False by auto
  let ?scan = "case pre of Some result \<Rightarrow> Inr result
    | None \<Rightarrow> bindE (xy_if_xs_equal_circuit V (\<lambda>p. take ?n (sc_addrs C p)) (\<lambda>p. replicate ?n (Q p))
        (\<lambda>p. get_y_values (take ?n (sc_data C p))) (\<lambda>p. get_alibis (take ?n (sc_data C p))) net rng)
        (\<lambda>(x, y, a, found). Inr (x, \<lambda>p. from_columns (y p) (a p), found))"
  have "\<exists>x y found. ?scan = Inr (x, y, found) \<and> scan_ok ones q es (x, y, found)"
  proof (cases pre)
    case None
    then show ?thesis using scan_circuit [OF V C Q env] by auto
  next
    case (Some r)
    then show ?thesis using pre by (cases r) auto
  qed
  then obtain x y found where scan: "?scan = Inr (x, y, found)"
    and x: "shared_list x (map (\<lambda>e. if fst e = q then fst e else 0) es)"
    and y: "shared_records y (map (clear_hit ones q) es)"
    and found: "shared_list found (map (\<lambda>e. of_bool (fst e = q)) es)"
    by (auto simp: scan_ok_def)
  obtain Y where Y: "\<And>p. reduceE xor_record (y p) = Inr (Y p)" "shared_record Y (fst (scan_result ones q es))"
    using reduce_records [OF y] ne scan_result_foldr(1) [of ones q es] by auto
  obtain F where F: "\<And>p. reduceE xor_share (found p) = Inr (F p)" "shared F (snd (scan_result ones q es))"
    using reduce_bits [OF found] ne scan_result_foldr(2) [of q es ones] by auto
  let ?X = "\<lambda>p. mark_addresses ?log (take ?n (sc_addrs C p)) (x p) (found p)"
  let ?xs = "map (\<lambda>e. if fst e = q then sentinel_of ?log else fst e) es"
  have "map2 (marked ?log) (map fst es) (zip (map (\<lambda>e. if fst e = q then fst e else 0) es)
      (map (\<lambda>e. of_bool (fst e = q)) es)) = ?xs"
    by (rule nth_equalityI) (auto simp: sentinel_of_def)
  then have "shared_list ?X ?xs" using mark_addresses_shared [OF X x found, of ?log] by simp
  from cache_holds_addrs [OF C this]
  have holds: "cache_holds (C\<lparr>sc_addrs := \<lambda>p. ?X p @ drop ?n (sc_addrs C p)\<rparr>) (zip ?xs (map snd es))" by simp
  have zip: "zip ?xs (map snd es) = map (\<lambda>(a, r). (if a = q then sentinel_of ?log else a, r)) es"
    by (rule nth_equalityI) (auto simp: case_prod_beta)
  have "cache_query V net rng Q pre C = Inr (Y, F, C\<lparr>sc_addrs := \<lambda>p. ?X p @ drop ?n (sc_addrs C p)\<rparr>)"
    unfolding cache_query_def Let_def scan using False
    by (simp add: each_party_Inr [OF Y(1)] each_party_Inr [OF F(1)])
  then show ?thesis using Y(2) F(2) holds unfolding zip by simp
qed

end
