(* ===== verification/Lowmc_Fused.thy ===== *)
theory Lowmc_Fused
  imports Lowmc_Lanes Speed_Cache
begin

text \<open>
  The fused query of \<open>crates/circuits/src/lowmc/packed_u8_lanes_with_speed_cache.rs\<close>: while the
  cipher runs on byte lanes, the zero tests and the selections of the speed cache ride on the
  communication of its rounds. The first five rounds fold the bytes of the complemented address
  differences, the sixth selects the matching entries, the rest only encrypt. The position in the
  generators is part of the state, since the rounds draw different numbers of masks.
\<close>

unbundle bit_operations_syntax

section \<open>The data of a query\<close>

definition ZERO_CHECK_ROUNDS :: nat where
  "ZERO_CHECK_ROUNDS = 5"

record (overloaded) 'v precompute_data =
  pd_query_addr :: "party \<Rightarrow> 32 word share"
  pd_addrs :: "32 shares"
  pd_data :: "party \<Rightarrow> 'v dr_record list"
  pd_result :: "'v scan option"

definition precompute_new ::
    "(party \<Rightarrow> 32 word share) \<Rightarrow> 32 shares \<Rightarrow> (party \<Rightarrow> 'v::len dr_record list) \<Rightarrow> 'v precompute_data res" where
  "precompute_new query_addr addrs data =
     checkE (everywhere (\<lambda>p. length (addrs p) = length (data p))) (Panic ''addrs.len() == data.len()'')
       (Inr \<lparr>pd_query_addr = query_addr, pd_addrs = addrs, pd_data = data, pd_result = None\<rparr>)"

text \<open>\<open>SpeedCache::precompute_query\<close>\<close>

definition precompute_query :: "'v::len speed_cache \<Rightarrow> (party \<Rightarrow> 32 word share) \<Rightarrow> 'v precompute_data option res" where
  "precompute_query C query_addr =
     (if 0 < sc_num_stored C
      then bindE (precompute_new query_addr (\<lambda>p. take (sc_num_stored C) (sc_addrs C p)) (\<lambda>p. take (sc_num_stored C) (sc_data C p)))
        (\<lambda>data. Inr (Some data))
      else Inr None)"

section \<open>The zero test on bytes\<close>

type_synonym u8_share = "8 word share"

datatype zero_values =
  Four "(u8_share \<times> u8_share \<times> u8_share \<times> u8_share) list"
| Two "(u8_share \<times> u8_share) list"
| One "u8_share list"

definition byte_at :: "nat \<Rightarrow> 32 word \<Rightarrow> 8 word" where
  "byte_at shift x = ucast (drop_bit shift x AND 0xff)"

definition zero_values_new :: "32 word share list \<Rightarrow> zero_values" where
  "zero_values_new inputs = Four (map (\<lambda>x. let x = not_share x; byte = \<lambda>shift. map_share (byte_at shift) x
     in (byte 0, byte 8, byte 16, byte 24)) inputs)"

definition pairs_into :: "nat \<Rightarrow> zero_values \<Rightarrow> u8_share list \<times> u8_share list" where
  "pairs_into round zs = (case zs of
     Four values \<Rightarrow> (concat (map (\<lambda>(v0, v1, v2, v3). [v0, v2]) values), concat (map (\<lambda>(v0, v1, v2, v3). [v1, v3]) values))
   | Two values \<Rightarrow> (map fst values, map snd values)
   | One values \<Rightarrow> (values, map (map_share (drop_bit (2 ^ (ZERO_CHECK_ROUNDS - 1 - round)))) values))"

text \<open>\<open>chunks_exact\<close>: the full chunks only.\<close>

definition chunks_exact :: "nat \<Rightarrow> 'a list \<Rightarrow> 'a list list" where
  "chunks_exact n xs = map (\<lambda>i. take n (drop (i * n) xs)) [0..<length xs div n]"

definition zero_apply :: "u8_share list \<Rightarrow> nat \<Rightarrow> zero_values" where
  "zero_apply ands round =
     (if round = 0 then Two (map (\<lambda>chunk. (chunk ! 0, chunk ! 1)) (chunks_exact 2 ands)) else One ands)"

definition found_bits :: "zero_values \<Rightarrow> 1 word share list" where
  "found_bits zs = (case zs of One values \<Rightarrow> map (\<lambda>value. get_bit_share value 0) values | _ \<Rightarrow> [])"

section \<open>The selection\<close>

definition and_vec_mixed_u8_x_block ::
    "network \<Rightarrow> rngs \<Rightarrow> 8 shares \<times> 8 shares \<Rightarrow> 32 shares \<times> 32 shares \<Rightarrow> 128 shares \<times> 128 shares \<Rightarrow>
     (8 shares \<times> 32 shares \<times> 128 shares) res" where
  "and_vec_mixed_u8_x_block net rng u8s xs blocks =
     checkE (everywhere (\<lambda>p. length (fst u8s p) = length (snd u8s p))) (Panic ''u8s.lhs.len() == u8s.rhs.len()'')
    (checkE (everywhere (\<lambda>p. length (fst xs p) = length (snd xs p))) (Panic ''xs.lhs.len() == xs.rhs.len()'')
    (checkE (everywhere (\<lambda>p. length (fst blocks p) = length (snd blocks p))) (Panic ''blocks.lhs.len() == blocks.rhs.len()'')
      (let n8 = length (fst u8s ID0); nx = length (fst xs ID0);
           local8 = \<lambda>p. ring_local_and (fst u8s p) (snd u8s p) rng p;
           local_x = \<lambda>p. ring_local_and (fst xs p) (snd xs p) (skip_draws n8 rng) p;
           local_block = \<lambda>p. ring_local_and (fst blocks p) (snd blocks p) (skip_draws (n8 + nx) rng) p
       in bindE (reshare net (\<lambda>p. (local8 p, local_x p, local_block p))) (\<lambda>recv.
            checkE (everywhere (\<lambda>p. length (fst (recv p)) = length (local8 p) \<and>
                length (fst (snd (recv p))) = length (local_x p) \<and> length (snd (snd (recv p))) = length (local_block p)))
              (Report ''mixed AND reshare received wrong lengths'')
              (Inr (\<lambda>p. ring_recombine (local8 p) (fst (recv p)),
                    \<lambda>p. ring_recombine (local_x p) (fst (snd (recv p))),
                    \<lambda>p. ring_recombine (local_block p) (snd (snd (recv p)))))))))"

record cmux_ands =
  ca_masks_x :: "32 shares"
  ca_x :: "32 shares"
  ca_masks_y :: "128 shares"
  ca_value_blocks :: "128 columns"
  ca_alibi :: "128 shares"

text \<open>The outputs of the block ANDs are cut into columns again: the values', then the alibis'.\<close>

definition split_columns :: "nat \<Rightarrow> nat \<Rightarrow> 'a list \<Rightarrow> ('a list list \<times> 'a list) res" where
  "split_columns num_values num_cols outputs =
     (let chunks = chunks_exact num_values outputs
      in case drop num_cols chunks of [] \<Rightarrow> Inl (Panic ''unwrap'') | alibi # _ \<Rightarrow> Inr (take num_cols chunks, alibi))"

definition cmux_and_round ::
    "network \<Rightarrow> rngs \<Rightarrow> 8 shares \<Rightarrow> 8 shares \<Rightarrow> cmux_ands \<Rightarrow>
     (8 shares \<times> 32 shares \<times> 128 columns \<times> 128 shares) res" where
  "cmux_and_round net rng sbox_lhs sbox_rhs cmux =
     checkE (everywhere (\<lambda>p. \<forall>col \<in> set (ca_value_blocks cmux p). length (ca_x cmux p) = length col)) (Panic ''num_values == col.len()'')
    (checkE (everywhere (\<lambda>p. length (ca_x cmux p) = length (ca_alibi cmux p))) (Panic ''num_values == cmux.alibi.len()'')
      (let block_lhs = \<lambda>p. concat (map (\<lambda>col. ca_masks_y cmux p) (ca_value_blocks cmux p)) @ ca_masks_y cmux p;
           block_rhs = \<lambda>p. concat (ca_value_blocks cmux p) @ ca_alibi cmux p
       in bindE (and_vec_mixed_u8_x_block net rng (sbox_lhs, sbox_rhs) (ca_masks_x cmux, ca_x cmux) (block_lhs, block_rhs))
            (\<lambda>(ands, x_if_found, block_outputs).
          bindE (each_party (\<lambda>p. split_columns (length (ca_x cmux p)) (length (ca_value_blocks cmux p)) (block_outputs p)))
            (\<lambda>selected. Inr (ands, x_if_found, \<lambda>p. fst (selected p), \<lambda>p. snd (selected p))))))"

section \<open>The rounds\<close>

text \<open>The query under way: its data and the state of its zero tests (\<open>SpeedCacheRoundData\<close>).\<close>

type_synonym 'v round_data = "'v precompute_data \<times> (party \<Rightarrow> zero_values)"

definition u8_draws :: "nat \<Rightarrow> nat" where
  "u8_draws n = (n + 15) div 16"

definition select_entries :: "'v::len value_ops \<Rightarrow> network \<Rightarrow> rngs \<Rightarrow> 8 shares \<Rightarrow> 8 shares \<Rightarrow> 'v round_data \<Rightarrow>
    (8 shares \<times> 'v precompute_data) res" where
  "select_entries V net rng and_lhs and_rhs speed_cache =
     (let (target, zs) = speed_cache;
          found = \<lambda>p. found_bits (zs p)
      in bindE (cmux_and_round net rng and_lhs and_rhs
           \<lparr>ca_masks_x = \<lambda>p. map bit_to_binary_mask (found p), ca_x = pd_addrs target,
            ca_masks_y = \<lambda>p. map bit_to_binary_mask (found p),
            ca_value_blocks = \<lambda>p. to_blocks V (get_y_values (pd_data target p)),
            ca_alibi = \<lambda>p. alibi_to_blocks (get_alibis (pd_data target p))\<rparr>)
         (\<lambda>(ands, x_if_found, value_blocks, alibi).
            let y_if_found = \<lambda>p. from_columns (from_blocks V (value_blocks p)) (alibi_from_blocks (alibi p))
            in Inr (ands, target\<lparr>pd_result := Some (x_if_found, y_if_found, found)\<rparr>)))"

text \<open>The ANDs of a round, with the part of the query that shares its message, and the draws it takes.\<close>

definition fused_ands :: "'v::len value_ops \<Rightarrow> network \<Rightarrow> nat \<Rightarrow> 8 shares \<Rightarrow> 8 shares \<Rightarrow> rngs \<Rightarrow> 'v round_data option \<Rightarrow>
    (8 shares \<times> rngs \<times> 'v round_data option) res" where
  "fused_ands V net round and_lhs and_rhs rng speed_cache =
     (let plain = bindE (and_vec_u8 net rng and_lhs and_rhs) (\<lambda>ands.
            Inr (ands, skip_draws (u8_draws (length (and_lhs ID0))) rng, speed_cache))
      in case speed_cache of
        None \<Rightarrow> plain
      | Some (target, zs) \<Rightarrow>
          if round < ZERO_CHECK_ROUNDS then
            let lhs = \<lambda>p. and_lhs p @ fst (pairs_into round (zs p)); rhs = \<lambda>p. and_rhs p @ snd (pairs_into round (zs p))
            in bindE (and_vec_u8 net rng lhs rhs) (\<lambda>ands.
                 Inr (\<lambda>p. take (length (and_lhs p)) (ands p), skip_draws (u8_draws (length (lhs ID0))) rng,
                   Some (target, \<lambda>p. zero_apply (drop (length (and_lhs p)) (ands p)) round)))
          else if round = ZERO_CHECK_ROUNDS \<and> pd_addrs target ID0 \<noteq> [] then
            bindE (select_entries V net rng and_lhs and_rhs (target, zs)) (\<lambda>(ands, target').
              Inr (ands, skip_draws (length (and_lhs ID0) + (2 + length (to_blocks V (get_y_values (pd_data target ID0)))) *
                    length (pd_addrs target ID0)) rng, Some (target', zs)))
          else plain)"

definition fused_round :: "'v::len value_ops \<Rightarrow> network \<Rightarrow> (party \<Rightarrow> u8_share list list list) \<Rightarrow> nat list \<Rightarrow> nat \<Rightarrow>
    (party \<Rightarrow> u8_share list list) \<times> rngs \<times> 'v round_data option \<Rightarrow>
    ((party \<Rightarrow> u8_share list list) \<times> rngs \<times> 'v round_data option) res" where
  "fused_round V net key_groups lens round = (\<lambda>(group_states, rng, speed_cache).
     let ands = \<lambda>p. fold collect_sbox_ands (group_states p) ([], [])
     in bindE (fused_ands V net round (\<lambda>p. fst (ands p)) (\<lambda>p. snd (ands p)) rng speed_cache) (\<lambda>(ands, rng, speed_cache).
          Inr (\<lambda>p. map (\<lambda>(group, (states, keys)).
              let sboxed = apply_sbox_ands states (drop (group * 126) (ands p));
                  linear = four_russians_into (lens ! group) round sboxed
              in add_round_key (xor_constants p round (lane_mask (lens ! group)) linear) (keys ! (round + 1)))
            (enumerate 0 (zip (group_states p) (key_groups p))), rng, speed_cache)))"

definition fused_lane_groups ::
    "'v::len value_ops \<Rightarrow> network \<Rightarrow> rngs \<Rightarrow> (party \<Rightarrow> u8_share list list list) \<Rightarrow> (party \<Rightarrow> u8_share list list) \<Rightarrow>
     nat list \<Rightarrow> 'v round_data option \<Rightarrow> ((party \<Rightarrow> 128 word share list list) \<times> 'v round_data option) res" where
  "fused_lane_groups V net rng key_groups group_states lens speed_cache =
     checkE (everywhere (\<lambda>p. length (key_groups p) = length (group_states p))) (Panic ''key_groups.len() == group_states.len()'')
    (checkE (everywhere (\<lambda>p. length (key_groups p) = length lens)) (Panic ''key_groups.len() == lens.len()'')
    (checkE (\<forall>len \<in> set lens. 1 \<le> len \<and> len \<le> 8) (Panic ''(1..=8).contains(len)'')
      (bindE (foldE (fused_round V net key_groups lens) [0..<9]
          (\<lambda>p. map2 (\<lambda>states keys. add_round_key states (keys ! 0)) (group_states p) (key_groups p), rng, speed_cache))
        (\<lambda>(group_states, rng, speed_cache). Inr (\<lambda>p. map2 pack_wires (group_states p) lens, speed_cache)))))"

section \<open>The entry points\<close>

definition start_query :: "'v::len precompute_data \<times> 32 shares \<Rightarrow> 'v round_data" where
  "start_query = (\<lambda>(target, zero_inputs). (target, \<lambda>p. zero_values_new (zero_inputs p)))"

definition encrypt_with_combined_round_keys ::
    "'v::len value_ops \<Rightarrow> network \<Rightarrow> rngs \<Rightarrow> (party \<Rightarrow> u8_share list list) \<Rightarrow> nat \<Rightarrow> (party \<Rightarrow> 128 word share) \<Rightarrow>
     'v precompute_data option \<Rightarrow> (128 shares \<times> 'v precompute_data option) res" where
  "encrypt_with_combined_round_keys V net rng round_keys num_lanes input speed_cache =
     (if num_lanes = 0 then Inr (\<lambda>p. [], speed_cache)
      else checkE (num_lanes \<le> 8) (Panic ''num_lanes <= 8'')
        (let query = map_option (\<lambda>target. start_query (target, \<lambda>p. map (\<lambda>addr. xor_share addr (pd_query_addr target p)) (pd_addrs target p))) speed_cache
         in bindE (fused_lane_groups V net rng (\<lambda>p. [round_keys p]) (\<lambda>p. [bit_slice [(input p, lane_mask num_lanes)]]) [num_lanes] query)
           (\<lambda>(outputs, query). checkE (everywhere (\<lambda>p. outputs p \<noteq> [])) (Panic ''unwrap'')
              (Inr (\<lambda>p. last (outputs p), map_option fst query)))))"

definition merge_speed_caches :: "'v::len precompute_data list \<Rightarrow> ('v precompute_data \<times> 32 shares) res" where
  "merge_speed_caches targets =
     bindE (precompute_new (\<lambda>p. zero_share) (\<lambda>p. concat (map (\<lambda>target. pd_addrs target p) targets))
         (\<lambda>p. concat (map (\<lambda>target. pd_data target p) targets))) (\<lambda>merged.
       Inr (merged, \<lambda>p. concat (map (\<lambda>target. map (\<lambda>x. xor_share x (pd_query_addr target p)) (pd_addrs target p)) targets)))"

definition take_prefix :: "nat \<Rightarrow> 'a list \<Rightarrow> ('a list \<times> 'a list) res" where
  "take_prefix len values = checkE (len \<le> length values) (Panic ''split_off'') (Inr (take len values, drop len values))"

fun split_speed_cache_result :: "'v::len precompute_data list \<Rightarrow> 'v scan \<Rightarrow> 'v precompute_data list res" where
  "split_speed_cache_result [] result = Inr []"
| "split_speed_cache_result (target # targets) (x, y, found) =
     bindE (each_party (\<lambda>p. take_prefix (length (pd_addrs target p)) (x p))) (\<lambda>x.
     bindE (each_party (\<lambda>p. take_prefix (length (pd_addrs target p)) (y p))) (\<lambda>y.
     bindE (each_party (\<lambda>p. take_prefix (length (pd_addrs target p)) (found p))) (\<lambda>found.
     bindE (split_speed_cache_result targets (\<lambda>p. snd (x p), \<lambda>p. snd (y p), \<lambda>p. snd (found p))) (\<lambda>rest.
       Inr (target\<lparr>pd_result := Some (\<lambda>p. fst (x p), \<lambda>p. fst (y p), \<lambda>p. fst (found p))\<rparr> # rest)))))"

definition encrypt_many_inputs_with_cache ::
    "'v::len value_ops \<Rightarrow> network \<Rightarrow> rngs \<Rightarrow> (party \<Rightarrow> u8_share list list list) \<Rightarrow> nat \<Rightarrow> 128 shares \<Rightarrow>
     'v precompute_data list option \<Rightarrow> ((party \<Rightarrow> 128 word share list list) \<times> 'v precompute_data list option) res" where
  "encrypt_many_inputs_with_cache V net rng key_groups num_levels inputs speed_caches =
     (if num_levels = 0 \<or> inputs ID0 = [] then Inr (\<lambda>p. replicate (length (inputs p)) [], speed_caches)
      else let total = num_levels * length (inputs ID0)
        in checkE (everywhere (\<lambda>p. length (key_groups p) = (total + 7) div 8)) (Panic ''key_groups.len() == total.div_ceil(8)'')
          (let sliced = \<lambda>p. slice_input_groups (length (key_groups p)) num_levels (inputs p)
           in bindE (case speed_caches of None \<Rightarrow> Inr None
                | Some targets \<Rightarrow> bindE (merge_speed_caches targets) (\<lambda>merged. Inr (Some (start_query merged)))) (\<lambda>query.
              bindE (fused_lane_groups V net rng key_groups (\<lambda>p. fst (sliced p)) (snd (sliced ID0)) query) (\<lambda>(outputs, query).
              bindE (case (speed_caches, query) of
                  (Some targets, Some (merged, zs)) \<Rightarrow> (case pd_result merged of
                      None \<Rightarrow> Inl (Panic ''unwrap'')
                    | Some result \<Rightarrow> bindE (split_speed_cache_result targets result) (\<lambda>targets. Inr (Some targets)))
                | _ \<Rightarrow> Inr speed_caches) (\<lambda>speed_caches.
              bindE (each_party (\<lambda>p. regroup_tags_by_input (outputs p) num_levels (length (inputs p)))) (\<lambda>tags.
                Inr (tags, speed_caches)))))))"

section \<open>What the zero test computes\<close>

text \<open>The bytes of the complement of a difference, and their successive conjunctions.\<close>

definition nb :: "nat \<Rightarrow> 32 word \<Rightarrow> 8 word" where
  "nb shift w = byte_at shift (NOT w)"

primrec zb :: "nat \<Rightarrow> 32 word \<Rightarrow> 8 word" where
  "zb 0 w = (nb 0 w AND nb 8 w) AND (nb 16 w AND nb 24 w)"
| "zb (Suc k) w = zb k w AND drop_bit (2 ^ (2 - k)) (zb k w)"

text \<open>The state of the test before round \<open>r\<close>, for the clear differences \<open>ws\<close>.\<close>

definition zero_at :: "nat \<Rightarrow> (party \<Rightarrow> zero_values) \<Rightarrow> 32 word list \<Rightarrow> bool" where
  "zero_at r Z ws =
     (if r = 0 then \<exists>F. Z = (\<lambda>p. Four (F p)) \<and>
        shared_list (\<lambda>p. map fst (F p)) (map (nb 0) ws) \<and> shared_list (\<lambda>p. map (fst \<circ> snd) (F p)) (map (nb 8) ws) \<and>
        shared_list (\<lambda>p. map (fst \<circ> snd \<circ> snd) (F p)) (map (nb 16) ws) \<and> shared_list (\<lambda>p. map (snd \<circ> snd \<circ> snd) (F p)) (map (nb 24) ws)
      else if r = 1 then \<exists>F. Z = (\<lambda>p. Two (F p)) \<and>
        shared_list (\<lambda>p. map fst (F p)) (map (\<lambda>w. nb 0 w AND nb 8 w) ws) \<and>
        shared_list (\<lambda>p. map snd (F p)) (map (\<lambda>w. nb 16 w AND nb 24 w) ws)
      else \<exists>F. Z = (\<lambda>p. One (F p)) \<and> shared_list F (map (zb (r - 2)) ws))"

lemma shared_byte_at: "shared S x \<Longrightarrow> shared (\<lambda>p. map_share (byte_at s) (S p)) (byte_at s x)"
  by (rule shared_map) (auto simp: byte_at_def bit_simps intro: bit_word_eqI)

lemma zero_values_new_ok:
  assumes "shared_list S ws"
  shows "zero_at 0 (\<lambda>p. zero_values_new (S p)) ws"
proof -
  have "shared_list (\<lambda>p. map (\<lambda>x. map_share (byte_at s) (not_share x)) (S p)) (map (nb s) ws)" for s
    unfolding nb_def [abs_def] by (rule shared_list_map [OF assms]) (intro shared_byte_at shared_not)
  then show ?thesis by (auto simp: zero_at_def zero_values_new_def Let_def comp_def)
qed

lemma pairs_shared:
  assumes "shared_list (\<lambda>p. map f (F p)) (map g ws)" and "shared_list (\<lambda>p. map f' (F p)) (map g' ws)"
  shows "shared_list (\<lambda>p. concat (map (\<lambda>v. [f v, f' v]) (F p))) (concat (map (\<lambda>w. [g w, g' w]) ws))"
proof (rule shared_list_concat)
  have l: "length (F p) = length ws" for p using shared_listD(1) [OF assms(1), of p] by simp
  have "shared (\<lambda>p. f (F p ! i)) (g (ws ! i))" "shared (\<lambda>p. f' (F p ! i)) (g' (ws ! i))" if "i < length ws" for i
    using shared_listD(2) [OF assms(1), of i] shared_listD(2) [OF assms(2), of i] that l by simp_all
  then show "shared_cols (\<lambda>p. map (\<lambda>v. [f v, f' v]) (F p)) (map (\<lambda>w. [g w, g' w]) ws)"
    using l by (auto simp: shared_cols_def shared_list_def nth_Cons')
qed

lemma nth_concat_pairs:
  "i < length ws \<Longrightarrow> concat (map (\<lambda>w. [f w, g w]) ws) ! (2 * i) = f (ws ! i)"
  "i < length ws \<Longrightarrow> concat (map (\<lambda>w. [f w, g w]) ws) ! (2 * i + 1) = g (ws ! i)"
  by (induction ws arbitrary: i) (auto simp: nth_Cons' less_Suc_eq_0_disj)

lemma length_concat_pairs [simp]: "length (concat (map (\<lambda>w. [f w, g w]) ws)) = 2 * length ws"
  by (induction ws) simp_all

lemma unpair_shared:
  assumes "shared_list A (concat (map (\<lambda>w. [f w, g w]) ws))"
  shows "shared_list (\<lambda>p. map fst (map (\<lambda>chunk. (chunk ! 0, chunk ! 1)) (chunks_exact 2 (A p)))) (map f ws) \<and>
    shared_list (\<lambda>p. map snd (map (\<lambda>chunk. (chunk ! 0, chunk ! 1)) (chunks_exact 2 (A p)))) (map g ws)"
proof -
  have l: "length (A p) = 2 * length ws" for p using shared_listD(1) [OF assms, of p] by simp
  have "shared (\<lambda>p. A p ! (2 * i)) (f (ws ! i))" "shared (\<lambda>p. A p ! (2 * i + 1)) (g (ws ! i))" if "i < length ws" for i
    using shared_listD(2) [OF assms, of "2 * i"] shared_listD(2) [OF assms, of "2 * i + 1"] that
    by (simp_all add: nth_concat_pairs del: One_nat_def)
  then show ?thesis by (simp add: shared_list_def chunks_exact_def l mult.commute)
qed

lemma map2_pairs:
  "map2 h (concat (map (\<lambda>w. [f w, g w]) ws)) (concat (map (\<lambda>w. [f' w, g' w]) ws)) = concat (map (\<lambda>w. [h (f w) (f' w), h (g w) (g' w)]) ws)"
  by (induction ws) simp_all

lemma zero_stage:
  assumes Z: "zero_at r Z ws" and r: "r < 5"
  shows "\<exists>L R. length L = length R \<and> shared_list (\<lambda>p. fst (pairs_into r (Z p))) L \<and>
    shared_list (\<lambda>p. snd (pairs_into r (Z p))) R \<and>
    (\<forall>A. shared_list A (map2 (AND) L R) \<longrightarrow> zero_at (Suc r) (\<lambda>p. zero_apply (A p) r) ws)"
proof -
  consider "r = 0" | "r = 1" | "2 \<le> r" by linarith
  then show ?thesis
  proof cases
    case 1
    then obtain F where F: "Z = (\<lambda>p. Four (F p))" "shared_list (\<lambda>p. map fst (F p)) (map (nb 0) ws)"
      "shared_list (\<lambda>p. map (fst \<circ> snd) (F p)) (map (nb 8) ws)" "shared_list (\<lambda>p. map (fst \<circ> snd \<circ> snd) (F p)) (map (nb 16) ws)"
      "shared_list (\<lambda>p. map (snd \<circ> snd \<circ> snd) (F p)) (map (nb 24) ws)" using Z by (auto simp: zero_at_def)
    let ?L = "concat (map (\<lambda>w. [nb 0 w, nb 16 w]) ws)" and ?R = "concat (map (\<lambda>w. [nb 8 w, nb 24 w]) ws)"
    have "zero_at 1 (\<lambda>p. zero_apply (A p) 0) ws" if "shared_list A (map2 (AND) ?L ?R)" for A
      using unpair_shared [OF that [unfolded map2_pairs]] by (auto simp: zero_at_def zero_apply_def)
    then show ?thesis
      using pairs_shared [OF F(2,4)] pairs_shared [OF F(3,5)] 1
      by (intro exI [of _ ?L] exI [of _ ?R]) (simp add: F(1) pairs_into_def case_prod_beta')
  next
    case 2
    then obtain F where F: "Z = (\<lambda>p. Two (F p))" "shared_list (\<lambda>p. map fst (F p)) (map (\<lambda>w. nb 0 w AND nb 8 w) ws)"
      "shared_list (\<lambda>p. map snd (F p)) (map (\<lambda>w. nb 16 w AND nb 24 w) ws)" using Z by (auto simp: zero_at_def)
    have "map2 (AND) (map (\<lambda>w. nb 0 w AND nb 8 w) ws) (map (\<lambda>w. nb 16 w AND nb 24 w) ws) = map (zb 0) ws"
      by (rule nth_equalityI) simp_all
    then have "\<forall>A. shared_list A (map2 (AND) (map (\<lambda>w. nb 0 w AND nb 8 w) ws) (map (\<lambda>w. nb 16 w AND nb 24 w) ws)) \<longrightarrow>
        zero_at (Suc r) (\<lambda>p. zero_apply (A p) r) ws" using 2 by (simp only: zero_at_def zero_apply_def) auto
    with F show ?thesis
      by - (rule exI [of _ "map (\<lambda>w. nb 0 w AND nb 8 w) ws"], rule exI [of _ "map (\<lambda>w. nb 16 w AND nb 24 w) ws"], simp add: pairs_into_def)
  next
    case 3
    define k where "k = r - 2"
    with 3 r have 3: "r = k + 2" "k < 3" by simp_all
    then obtain F where F: "Z = (\<lambda>p. One (F p))" "shared_list F (map (zb k) ws)" using Z by (auto simp: zero_at_def)
    let ?s = "2 ^ (2 - k)"
    have "shared_list (\<lambda>p. map (map_share (drop_bit ?s)) (F p)) (map (drop_bit ?s) (map (zb k) ws))"
      by (rule shared_list_map [OF F(2)], erule shared_map) (auto simp: bit_simps intro: bit_word_eqI)
    moreover have "map2 (AND) (map (zb k) ws) (map (drop_bit ?s) (map (zb k) ws)) = map (zb (Suc k)) ws"
      by (rule nth_equalityI) simp_all
    moreover have "ZERO_CHECK_ROUNDS - 1 - r = 2 - k" using 3 by (simp add: ZERO_CHECK_ROUNDS_def)
    ultimately show ?thesis
      using F(2) 3 by - (rule exI [of _ "map (zb k) ws"], rule exI [of _ "map (drop_bit ?s) (map (zb k) ws)"],
        simp add: F(1) pairs_into_def zero_at_def zero_apply_def del: zb.simps, blast)
  qed
qed

lemma bit_zb_0: "all_ones_below 8 (zb 0 w) \<longleftrightarrow> w = 0"
proof -
  have b: "bit (zb 0 w) k \<longleftrightarrow> \<not> bit w k \<and> \<not> bit w (8 + k) \<and> \<not> bit w (16 + k) \<and> \<not> bit w (24 + k)" if "k < 8" for k
  proof -
    have "bit (0xff :: 32 word) k" using that by (simp add: bit_iff_odd less_Suc_eq numeral_eq_Suc) auto
    then show ?thesis using that by (simp add: nb_def byte_at_def bit_simps add.commute)
  qed
  have "w = 0" if h: "all_ones_below 8 (zb 0 w)"
  proof (rule bit_word_eqI)
    fix n assume n: "n < LENGTH(32)"
    let ?k = "n mod 8"
    have "n = ?k \<or> n = 8 + ?k \<or> n = 16 + ?k \<or> n = 24 + ?k"
    proof -
      have "n div 8 < 4" using n by simp
      then consider "n div 8 = 0" | "n div 8 = 1" | "n div 8 = 2" | "n div 8 = 3" by linarith
      then show ?thesis using div_mult_mod_eq [of n 8] by cases simp_all
    qed
    moreover have "bit (zb 0 w) ?k" using h by (simp add: all_ones_below_def)
    ultimately show "bit w n = bit 0 n" using b [of ?k] by auto
  qed
  then show ?thesis using b by (auto simp: all_ones_below_def)
qed

lemma bit_zb_3: "bit (zb 3 w) 0 \<longleftrightarrow> w = 0"
proof -
  have s: "all_ones_below n (x AND drop_bit n x) \<longleftrightarrow> all_ones_below (2 * n) x" if "n \<le> 8" for n and x :: "8 word"
    using all_ones_below_stage [where 'u = 8, of n x] that by simp
  have z: "zb 1 w = zb 0 w AND drop_bit 4 (zb 0 w)" "zb 2 w = zb 1 w AND drop_bit 2 (zb 1 w)" "zb 3 w = zb 2 w AND drop_bit 1 (zb 2 w)"
    using zb.simps(2) [of 0 w] zb.simps(2) [of 1 w] zb.simps(2) [of 2 w] by (simp_all add: numeral_eq_Suc del: zb.simps)
  have "all_ones_below 1 (zb 3 w) \<longleftrightarrow> all_ones_below 8 (zb 0 w)"
    using s [of 4 "zb 0 w"] s [of 2 "zb 1 w"] s [of 1 "zb 2 w"] unfolding z [symmetric] by simp
  then show ?thesis unfolding bit_zb_0 all_ones_below_1 .
qed

lemma found_bits_ok:
  assumes "zero_at 5 Z ws"
  shows "shared_list (\<lambda>p. found_bits (Z p)) (map (\<lambda>w. of_bool (w = 0)) ws)"
proof -
  obtain F where F: "Z = (\<lambda>p. One (F p))" "shared_list F (map (zb 3) ws)" using assms by (auto simp: zero_at_def)
  have "shared_list (\<lambda>p. map (\<lambda>value. get_bit_share value 0) (F p)) (map (\<lambda>v. of_bool (bit v 0) :: 1 word) (map (zb 3) ws))"
    by (rule shared_list_map [OF F(2)]) (rule shared_get_bit)
  then show ?thesis by (simp add: F(1) found_bits_def bit_zb_3 comp_def)
qed

section \<open>What the selection computes\<close>

text \<open>The rows of a scan in clear: the address asked for, and a stored address with its record.\<close>

type_synonym 'v rows = "(32 word \<times> 32 word \<times> 'v clear_record) list"

definition target_holds :: "'v::len precompute_data \<Rightarrow> 'v rows \<Rightarrow> bool" where
  "target_holds T rows \<longleftrightarrow> shared_list (pd_addrs T) (map (\<lambda>(q, e). fst e) rows) \<and> shared_records (pd_data T) (map snd (map snd rows))"

definition rows_scanned :: "'v::len rows \<Rightarrow> 'v scan \<Rightarrow> bool" where
  "rows_scanned rows = (\<lambda>(x, y, found).
     shared_list x (map (\<lambda>(q, e). if fst e = q then fst e else 0) rows) \<and>
     shared_records y (map (\<lambda>(q, e). clear_hit (NOT 0) q e) rows) \<and>
     shared_list found (map (\<lambda>(q, e). of_bool (fst e = q)) rows))"

definition differences :: "'v::len rows \<Rightarrow> 32 word list" where
  "differences rows = map (\<lambda>(q, e). fst e XOR q) rows"

lemma mixed_ands_ok:
  assumes "shared_list A as" "shared_list B bs" "length as = length bs"
    and "shared_list C cs" "shared_list D ds" "length cs = length ds"
    and "shared_list E es" "shared_list F fs" "length es = length fs"
    and "online net" "correlated rng"
  shows "\<exists>X Y Z. and_vec_mixed_u8_x_block net rng (A, B) (C, D) (E, F) = Inr (X, Y, Z) \<and>
    shared_list X (map2 (AND) as bs) \<and> shared_list Y (map2 (AND) cs ds) \<and> shared_list Z (map2 (AND) es fs)"
proof -
  have l: "length (A p) = length as" "length (B p) = length as" "length (C p) = length cs" "length (D p) = length cs"
    "length (E p) = length es" "length (F p) = length es" for p
    using assms by (simp_all add: shared_listD(1))
  show ?thesis
    using ring_local_and_shared [OF assms(1-3,11)] ring_local_and_shared [OF assms(4-6) correlated_skip [OF assms(11)], of "length as"]
      ring_local_and_shared [OF assms(7-9) correlated_skip [OF assms(11)], of "length as + length cs"]
    by (simp add: and_vec_mixed_u8_x_block_def Let_def l everywhere_def assms(10))
qed

lemma chunks_exact_shared: "shared_list S xs \<Longrightarrow> shared_cols (\<lambda>p. chunks_exact n (S p)) (chunks_exact n xs)"
  by (simp add: shared_cols_def chunks_exact_def shared_listD(1) shared_list_take shared_list_drop)

lemma chunks_exact_concat:
  assumes "0 < n" and "\<forall>xs \<in> set xss. length xs = n"
  shows "chunks_exact n (concat xss) = xss"
proof -
  have l: "length (concat xss) = length xss * n" using assms(2) by (induction xss) simp_all
  have "take n (drop (i * n) (concat xss)) = xss ! i" if "i < length xss" for i
    using that assms(2)
  proof (induction xss arbitrary: i)
    case (Cons xs xss)
    then show ?case by (cases i) simp_all
  qed simp
  then show ?thesis using assms(1) by (intro nth_equalityI) (simp_all add: chunks_exact_def l)
qed

lemma split_columns_ok:
  assumes S: "shared_list S (concat xss @ as)" and n: "0 < n" "\<forall>xs \<in> set xss. length xs = n" "length as = n"
  shows "\<exists>R. each_party (\<lambda>p. split_columns n (length xss) (S p)) = Inr R \<and>
    shared_cols (\<lambda>p. fst (R p)) xss \<and> shared_list (\<lambda>p. snd (R p)) as"
proof -
  have "chunks_exact n (concat (xss @ [as])) = xss @ [as]" using n by (intro chunks_exact_concat) auto
  then have c: "shared_cols (\<lambda>p. chunks_exact n (S p)) (xss @ [as])" using chunks_exact_shared [OF S, of n] by simp
  let ?C = "\<lambda>p. chunks_exact n (S p)"
  have l: "length (?C p) = Suc (length xss)" for p using shared_colsD(1) [OF c] by simp
  have d: "drop (length xss) (?C p) = [?C p ! length xss]" for p
    using l [of p] by (simp flip: Cons_nth_drop_Suc)
  have "each_party (\<lambda>p. split_columns n (length xss) (S p)) = Inr (\<lambda>p. (take (length xss) (?C p), ?C p ! length xss))"
    by (rule each_party_Inr) (simp add: split_columns_def Let_def d)
  moreover have "shared_cols (\<lambda>p. take (length xss) (?C p)) xss" using shared_cols_take [OF c, of "length xss"] by simp
  moreover have "shared_list (\<lambda>p. ?C p ! length xss) as" using shared_colsD(2) [OF c, of "length xss"] by simp
  ultimately show ?thesis by simp
qed

lemma cmux_and_round_ok:
  assumes "shared_list A as" "shared_list B bs" "length as = length bs"
    and "shared_list (ca_masks_x M) mx" "shared_list (ca_x M) xs" "length mx = length xs"
    and my: "shared_list (ca_masks_y M) my" "length my = length xs"
    and vb: "shared_cols (ca_value_blocks M) vss" "\<forall>vs \<in> set vss. length vs = length xs"
    and al: "shared_list (ca_alibi M) als" "length als = length xs" and ne: "xs \<noteq> []"
    and env: "online net" "correlated rng"
  shows "\<exists>X Y VB AL. cmux_and_round net rng A B M = Inr (X, Y, VB, AL) \<and> shared_list X (map2 (AND) as bs) \<and>
    shared_list Y (map2 (AND) mx xs) \<and> shared_cols VB (map (map2 (AND) my) vss) \<and> shared_list AL (map2 (AND) my als)"
proof -
  note lx = shared_listD(1) [OF assms(5)] and lc = shared_colsD(1) [OF vb(1)]
  have "length col = length xs" if "col \<in> set (ca_value_blocks M p)" for p col
  proof -
    obtain c where "c < length vss" "col = ca_value_blocks M p ! c" using \<open>col \<in> _\<close> lc [of p] by (auto simp: in_set_conv_nth)
    then show ?thesis using shared_listD(1) [OF shared_colsD(2) [OF vb(1), of c], of p] vb(2) by simp
  qed
  then have g: "everywhere (\<lambda>p. \<forall>col \<in> set (ca_value_blocks M p). length (ca_x M p) = length col)"
    "everywhere (\<lambda>p. length (ca_x M p) = length (ca_alibi M p))"
    using lx shared_listD(1) [OF al(1)] al(2) by (auto simp: everywhere_def)
  have lhs: "shared_list (\<lambda>p. concat (map (\<lambda>col. ca_masks_y M p) (ca_value_blocks M p)) @ ca_masks_y M p) (concat (map (\<lambda>vs. my) vss) @ my)"
    using my(1) lc by (intro shared_list_append shared_list_concat) (auto simp: shared_cols_def)
  have rhs: "shared_list (\<lambda>p. concat (ca_value_blocks M p) @ ca_alibi M p) (concat vss @ als)"
    by (intro shared_list_append shared_list_concat vb(1) al(1))
  have len: "length (concat (map (\<lambda>vs. my) vss) @ my) = length (concat vss @ als)"
    using vb(2) my(2) al(2) by (induction vss) simp_all
  obtain X Y Z where run: "and_vec_mixed_u8_x_block net rng (A, B) (ca_masks_x M, ca_x M)
      (\<lambda>p. concat (map (\<lambda>col. ca_masks_y M p) (ca_value_blocks M p)) @ ca_masks_y M p, \<lambda>p. concat (ca_value_blocks M p) @ ca_alibi M p) = Inr (X, Y, Z)"
    "shared_list X (map2 (AND) as bs)" "shared_list Y (map2 (AND) mx xs)"
    "shared_list Z (map2 (AND) (concat (map (\<lambda>vs. my) vss) @ my) (concat vss @ als))"
    using mixed_ands_ok [OF assms(1-6) lhs rhs len env] by blast
  have "map2 (AND) (concat (map (\<lambda>vs. my) vss) @ my) (concat vss @ als) = concat (map (map2 (AND) my) vss) @ map2 (AND) my als"
    using vb(2) my(2) by (induction vss) simp_all
  then have "shared_list Z (concat (map (map2 (AND) my) vss) @ map2 (AND) my als)" using run(4) by simp
  from split_columns_ok [OF this, of "length xs"]
  obtain R where "each_party (\<lambda>p. split_columns (length xs) (length vss) (Z p)) = Inr R"
    "shared_cols (\<lambda>p. fst (R p)) (map (map2 (AND) my) vss)" "shared_list (\<lambda>p. snd (R p)) (map2 (AND) my als)"
    using ne vb(2) my(2) al(2) by auto
  then show ?thesis using run(1-3) unfolding cmux_and_round_def checkE_True [OF g(1)] checkE_True [OF g(2)] Let_def by (simp add: lx lc)
qed

lemma select_entries_ok:
  fixes V :: "'v::len value_ops"
  assumes V: "doram_value V blk ones" "0 < num_blocks V" and A: "shared_list A as" "shared_list B bs" "length as = length bs"
    and T: "target_holds T rows" and Z: "zero_at 5 Z (differences rows)" and ne: "rows \<noteq> []"
    and env: "online net" "correlated rng"
  shows "\<exists>X r. select_entries V net rng A B (T, Z) = Inr (X, T\<lparr>pd_result := Some r\<rparr>) \<and> shared_list X (map2 (AND) as bs) \<and> rows_scanned rows r"
proof -
  let ?hit = "map (\<lambda>(q, e). of_bool (fst e = q) :: 1 word) rows" and ?vs = "map fst (map snd (map snd rows))" and ?as = "map snd (map snd (map snd rows))"
  let ?xs = "map (\<lambda>(q, e). fst e) rows" and ?found = "\<lambda>p. found_bits (Z p)"
  let ?sel = "\<lambda>f. map (\<lambda>(q, e). if fst e = q then f e else 0) rows"
  have x: "shared_list (pd_addrs T) ?xs" and v: "shared_list (\<lambda>p. get_y_values (pd_data T p)) ?vs" and a: "shared_list (\<lambda>p. get_alibis (pd_data T p)) ?as"
    using T by (simp_all add: target_holds_def shared_records_columns)
  have "map (\<lambda>w. of_bool (w = 0)) (differences rows) = ?hit" by (simp add: differences_def case_prod_beta')
  with found_bits_ok [OF Z] have f: "shared_list ?found ?hit" by simp
  have masks: "shared_list (\<lambda>p. map bit_to_binary_mask (?found p)) (map bit_mask ?hit)"
    by (rule shared_list_map [OF f]) (rule shared_bit_to_binary_mask)
  have sel: "map2 (AND) (map bit_mask ?hit) (map (\<lambda>(q, e). g e) rows) = ?sel g" for g :: "32 word \<times> 'v clear_record \<Rightarrow> 'w::len word"
    by (rule nth_equalityI) (auto simp: bit_mask_def case_prod_beta')
  have blocks: "map (map2 (AND) (map bit_mask ?hit)) (map (\<lambda>j. map (blk j) ?vs) [0..<num_blocks V]) =
      map (\<lambda>j. map (blk j) (?sel (fst \<circ> snd))) [0..<num_blocks V]"
    using sel [of "\<lambda>e. blk j (fst (snd e))" for j] by (auto simp: doram_value.blk_zero [OF V(1)] case_prod_beta' if_distrib comp_def)
  have alibis: "map2 (AND) (map bit_mask ?hit) (map ucast ?as) = (map ucast (?sel (snd \<circ> snd)) :: 128 word list)"
    using sel [of "\<lambda>e. ucast (snd (snd e)) :: 128 word"] by (simp add: case_prod_beta' if_distrib comp_def)
  let ?M = "\<lparr>ca_masks_x = \<lambda>p. map bit_to_binary_mask (?found p), ca_x = pd_addrs T, ca_masks_y = \<lambda>p. map bit_to_binary_mask (?found p),
      ca_value_blocks = \<lambda>p. to_blocks V (get_y_values (pd_data T p)), ca_alibi = \<lambda>p. alibi_to_blocks (get_alibis (pd_data T p))\<rparr>"
  have "\<exists>X Y VB AL. cmux_and_round net rng A B ?M = Inr (X, Y, VB, AL) \<and> shared_list X (map2 (AND) as bs) \<and>
    shared_list Y (map2 (AND) (map bit_mask ?hit) ?xs) \<and>
    shared_cols VB (map (map2 (AND) (map bit_mask ?hit)) (map (\<lambda>j. map (blk j) ?vs) [0..<num_blocks V])) \<and>
    shared_list AL (map2 (AND) (map bit_mask ?hit) (map ucast ?as))"
    by (rule cmux_and_round_ok [OF A])
      (use ne masks x doram_value.to_blocks_ok [OF V(1) v] alibi_to_blocks_shared [OF a] env in auto)
  then obtain X Y VB AL where run: "cmux_and_round net rng A B ?M = Inr (X, Y, VB, AL)" "shared_list X (map2 (AND) as bs)"
    "shared_list Y (?sel fst)" "shared_cols VB (map (\<lambda>j. map (blk j) (?sel (fst \<circ> snd))) [0..<num_blocks V])"
    "shared_list AL (map ucast (?sel (snd \<circ> snd)))" unfolding blocks alibis sel by blast
  let ?y = "\<lambda>p. from_columns (from_blocks V (VB p)) (alibi_from_blocks (AL p))"
  have "shared_records ?y (map (\<lambda>(q, e). clear_hit (NOT 0) q e) rows)"
  proof (rule from_columns_shared)
    have "map fst (map (\<lambda>(q, e). clear_hit (NOT 0) q e) rows) = ?sel (fst \<circ> snd)" "map snd (map (\<lambda>(q, e). clear_hit (NOT 0) q e) rows) = ?sel (snd \<circ> snd)"
      by (simp_all add: clear_hit_def case_prod_beta')
    then show "shared_list (\<lambda>p. from_blocks V (VB p)) (map fst (map (\<lambda>(q, e). clear_hit (NOT 0) q e) rows))"
      "shared_list (\<lambda>p. alibi_from_blocks (AL p)) (map snd (map (\<lambda>(q, e). clear_hit (NOT 0) q e) rows))"
      using doram_value.from_blocks_ok [OF V run(4)] alibi_from_blocks_shared [OF run(5)] by (simp_all only:)
  qed
  then have "rows_scanned rows (Y, ?y, ?found)" using run(3) f by (simp add: rows_scanned_def)
  then show ?thesis using run(1,2) by (intro exI [of _ X] exI [of _ "(Y, ?y, ?found)"]) (simp add: select_entries_def)
qed

section \<open>The query through the rounds\<close>

text \<open>Before round \<open>r\<close> the query that started as \<open>T0\<close> is as far as \<open>r\<close> rounds bring it.\<close>

definition query_at :: "nat \<Rightarrow> 'v::len rows \<Rightarrow> 'v precompute_data option \<Rightarrow> 'v round_data option \<Rightarrow> bool" where
  "query_at r rows T0 query = (case T0 of None \<Rightarrow> query = None
     | Some T \<Rightarrow> target_holds T rows \<and> (\<exists>T' Z. query = Some (T', Z) \<and>
        (if r \<le> 5 then T' = T \<and> zero_at r Z (differences rows)
         else if rows = [] then T' = T else \<exists>res. T' = T\<lparr>pd_result := Some res\<rparr> \<and> rows_scanned rows res)))"

lemma and_with_extra:
  assumes A: "shared_list A as" "shared_list B bs" "length as = length bs"
    and L: "shared_list L ls" "shared_list R rs" "length ls = length rs" and env: "online net" "correlated rng"
  shows "\<exists>C. and_vec_u8 net rng (\<lambda>p. A p @ L p) (\<lambda>p. B p @ R p) = Inr C \<and>
    shared_list (\<lambda>p. take (length (A p)) (C p)) (map2 (AND) as bs) \<and>
    shared_list (\<lambda>p. drop (length (A p)) (C p)) (map2 (AND) ls rs)"
proof -
  obtain C where C: "and_vec_u8 net rng (\<lambda>p. A p @ L p) (\<lambda>p. B p @ R p) = Inr C" "shared_list C (map2 (AND) (as @ ls) (bs @ rs))"
    using and_vec_u8_correct [OF shared_list_append [OF A(1) L(1)] shared_list_append [OF A(2) L(2)] _ env] A(3) L(3) by auto
  show ?thesis
    using C(1) shared_list_take [OF C(2), of "length as"] shared_list_drop [OF C(2), of "length as"] A(3) shared_listD(1) [OF A(1)] by simp
qed

lemma fused_ands_ok:
  fixes V :: "'v::len value_ops"
  assumes V: "doram_value V blk ones" "0 < num_blocks V" and A: "shared_list A as" "shared_list B bs" "length as = length bs"
    and Q: "query_at r rows T0 query" and env: "online net" "correlated rng"
  shows "\<exists>C rng' query'. fused_ands V net r A B rng query = Inr (C, rng', query') \<and>
    shared_list C (map2 (AND) as bs) \<and> correlated rng' \<and> query_at (Suc r) rows T0 query'"
proof -
  obtain C where C: "and_vec_u8 net rng A B = Inr C" "shared_list C (map2 (AND) as bs)"
    using and_vec_u8_correct [OF A env] by blast
  show ?thesis
  proof (cases T0)
    case None
    then show ?thesis using Q C env(2) by (simp add: query_at_def fused_ands_def)
  next
    case (Some T)
    then obtain T' Z where T: "query = Some (T', Z)" "target_holds T rows" using Q by (auto simp: query_at_def)
    have empty: "pd_addrs T ID0 = [] \<longleftrightarrow> rows = []"
      using T(2) shared_listD(1) [of "pd_addrs T" "map (\<lambda>(q, e). fst e) rows" ID0] by (auto simp: target_holds_def)
    consider "r < 5" | "r = 5" "rows \<noteq> []" | "r = 5" "rows = []" | "5 < r" by linarith
    then show ?thesis
    proof cases
      case 1
      then have Z: "T' = T" "zero_at r Z (differences rows)" using Q Some T by (auto simp: query_at_def)
      obtain L R where L: "length L = length R" "shared_list (\<lambda>p. fst (pairs_into r (Z p))) L"
        "shared_list (\<lambda>p. snd (pairs_into r (Z p))) R"
        "\<And>A. shared_list A (map2 (AND) L R) \<Longrightarrow> zero_at (Suc r) (\<lambda>p. zero_apply (A p) r) (differences rows)"
        using zero_stage [OF Z(2) 1] by auto
      obtain D where D: "and_vec_u8 net rng (\<lambda>p. A p @ fst (pairs_into r (Z p))) (\<lambda>p. B p @ snd (pairs_into r (Z p))) = Inr D"
        "shared_list (\<lambda>p. take (length (A p)) (D p)) (map2 (AND) as bs)" "shared_list (\<lambda>p. drop (length (A p)) (D p)) (map2 (AND) L R)"
        using and_with_extra [OF A L(2,3,1) env] by blast
      show ?thesis
        using 1 D(1,2) L(4) [OF D(3)] env(2) T
        by (simp add: fused_ands_def Z(1) ZERO_CHECK_ROUNDS_def Let_def query_at_def Some)
    next
      case 2
      then have Z: "T' = T" "zero_at 5 Z (differences rows)" using Q Some T by (auto simp: query_at_def)
      obtain X res where "select_entries V net rng A B (T, Z) = Inr (X, T\<lparr>pd_result := Some res\<rparr>)" "shared_list X (map2 (AND) as bs)" "rows_scanned rows res"
        using select_entries_ok [OF V A T(2) Z(2) 2(2) env] by blast
      then show ?thesis
        using 2 empty env(2) T by (simp add: fused_ands_def Z(1) ZERO_CHECK_ROUNDS_def query_at_def Some del: split_paired_Ex) blast
    next
      case 3
      then show ?thesis
        using Q T C empty env(2) by (simp add: fused_ands_def ZERO_CHECK_ROUNDS_def query_at_def Some)
    next
      case 4
      then show ?thesis
        using Q T C env(2) by (simp add: fused_ands_def ZERO_CHECK_ROUNDS_def query_at_def Some)
    qed
  qed
qed

lemma foldE_rounds:
  assumes "\<And>r s. r < n \<Longrightarrow> P r s \<Longrightarrow> \<exists>s'. f r s = Inr s' \<and> P (Suc r) s'" and "P 0 s"
  shows "\<exists>s'. foldE f [0..<n] s = Inr s' \<and> P n s'"
  using assms(1)
proof (induction n)
  case (Suc n)
  then obtain s' where "foldE f [0..<n] s = Inr s'" "P n s'" by (meson less_SucI)
  then show ?case using Suc.prems [of n s'] by (auto simp: foldE_append)
qed (simp add: assms(2))

text \<open>The whole encryption, with or without a query on board.\<close>

lemma fused_lane_groups_ok:
  fixes V :: "'v::len value_ops"
  assumes V: "doram_value V blk ones" "0 < num_blocks V"
    and K: "shared_key_groups K n ((!) lens) keys" and G: "shared_groups G wss" and n: "length wss = n"
    and L: "length lens = n" "\<And>len. len \<in> set lens \<Longrightarrow> 1 \<le> len \<and> len \<le> 8"
    and Q: "query_at 0 rows T0 query" and env: "online net" "correlated rng"
  shows "\<exists>Y query'. fused_lane_groups V net rng K G lens query = Inr (Y, query') \<and> query_at 9 rows T0 query' \<and>
    shared_cols Y (map (\<lambda>g. map (\<lambda>j. lowmc_encrypt (keys g j) (lane j (wss ! g))) [0..<lens ! g]) [0..<n])"
proof -
  let ?G0 = "\<lambda>p. map2 (\<lambda>states keys. add_round_key states (keys ! 0)) (G p) (K p)"
  obtain wss0 where W0: "shared_groups ?G0 wss0" "length wss0 = n"
    "\<And>g j. g < n \<Longrightarrow> j < lens ! g \<Longrightarrow> lane j (wss0 ! g) = lane j (wss ! g) XOR keys g j ! 0"
    by (rule group_start [OF G K [folded n]]) (use n in simp)
  define P where "P = (\<lambda>r (G :: party \<Rightarrow> u8_share list list, rng, query). correlated rng \<and> query_at r rows T0 query \<and>
    (\<exists>wss'. shared_groups G wss' \<and> length wss' = n \<and>
      (\<forall>g < n. \<forall>j < lens ! g. lane j (wss' ! g) = fold (lowmc_round (keys g j)) [0..<r] (lane j (wss0 ! g)))))"
  have "\<exists>s'. fused_round V net K lens r s = Inr s' \<and> P (Suc r) s'" if r: "r < 9" and P: "P r s" for r s
  proof -
    obtain G rng query where s: "s = (G, rng, query)" by (cases s)
    have cq: "correlated rng" "query_at r rows T0 query" using P by (simp_all add: P_def s)
    obtain wss' where W: "shared_groups G wss'" "length wss' = n"
      "\<forall>g < n. \<forall>j < lens ! g. lane j (wss' ! g) = fold (lowmc_round (keys g j)) [0..<r] (lane j (wss0 ! g))"
      using P by (auto simp: P_def s)
    obtain L R where I: "shared_list (\<lambda>p. fst (fold collect_sbox_ands (G p) ([], []))) L" "shared_list (\<lambda>p. snd (fold collect_sbox_ands (G p) ([], []))) R"
      "length L = length R" "map2 (AND) L R = concat (map and_wires wss')" using sbox_inputs_shared [OF W(1)] by blast
    obtain C rng' query' where C: "fused_ands V net r (\<lambda>p. fst (fold collect_sbox_ands (G p) ([], []))) (\<lambda>p. snd (fold collect_sbox_ands (G p) ([], []))) rng query =
        Inr (C, rng', query')" "shared_list C (concat (map and_wires wss'))" "correlated rng'" "query_at (Suc r) rows T0 query'"
      using fused_ands_ok [OF V I(1-3) cq(2) env(1) cq(1)] unfolding I(4) by blast
    define G' where "G' = (\<lambda>p. map (\<lambda>(group, (states, keys)).
        add_round_key (xor_constants p r (lane_mask (lens ! group)) (four_russians_into (lens ! group) r (apply_sbox_ands states (drop (group * 126) (C p)))))
          (keys ! (r + 1))) (enumerate 0 (zip (G p) (K p))))"
    obtain wss'' where W': "shared_groups G' wss''" "length wss'' = n"
      "\<forall>g < n. \<forall>j < lens ! g. lane j (wss'' ! g) = lowmc_round (keys g j) r (lane j (wss' ! g))"
      using lane_round_after_ands [OF K r W(1,2) L(1) _ C(2)] L(2) unfolding G'_def by blast
    have "fused_round V net K lens r s = Inr (G', rng', query')" by (simp add: s fused_round_def Let_def C(1) G'_def)
    moreover have "P (Suc r) (G', rng', query')"
      unfolding P_def prod.case using C(3,4) W' W(3) by (intro conjI exI [of _ wss'']) simp_all
    ultimately show ?thesis by blast
  qed
  moreover have "P 0 (?G0, rng, query)" using W0(1,2) Q env(2) by (auto simp: P_def)
  ultimately obtain s' where s': "foldE (fused_round V net K lens) [0..<9] (?G0, rng, query) = Inr s'" "P 9 s'"
    using foldE_rounds [of 9 P] by blast
  obtain G' rng' query' where e: "s' = (G', rng', query')" by (cases s')
  obtain wss' where W: "shared_groups G' wss'" "length wss' = n" "query_at 9 rows T0 query'"
    "\<forall>g < n. \<forall>j < lens ! g. lane j (wss' ! g) = fold (lowmc_round (keys g j)) [0..<9] (lane j (wss0 ! g))"
    using s'(2) by (auto simp: P_def e)
  have "shared_cols (\<lambda>p. map2 pack_wires (G' p) lens) (map2 (\<lambda>ws len. map (\<lambda>j. lane j ws) [0..<len]) wss' lens)"
    by (rule group_pack [OF W(1)]) (simp add: W(2) L(1))
  moreover have "map2 (\<lambda>ws len. map (\<lambda>j. lane j ws) [0..<len]) wss' lens =
      map (\<lambda>g. map (\<lambda>j. lowmc_encrypt (keys g j) (lane j (wss ! g))) [0..<lens ! g]) [0..<n]"
    by (rule nth_equalityI) (auto simp: W(2,4) W0(3) L(1) lowmc_encrypt_def)
  moreover have "everywhere (\<lambda>p. length (K p) = length (G p))" "everywhere (\<lambda>p. length (K p) = length lens)"
    using K shared_groupsD(1) [OF G] n L(1) by (simp_all add: shared_key_groups_def everywhere_def)
  ultimately show ?thesis using s'(1) W(3) L(2) by (simp add: fused_lane_groups_def e)
qed

end
