(* ===== verification/Cache_Map.thy ===== *)
theory Cache_Map
  imports Speed_Cache
begin

text \<open>
  The speed cache as a finite map from addresses to records: what a query, a batch of queries and a
  write do to that map. The entries keep the order in which they were written; an entry whose address
  carries the dummy bit is dead.
\<close>

unbundle bit_operations_syntax

section \<open>The cache as a finite map\<close>

text \<open>Live entries: those whose address is real, that is, whose dummy bit is clear.\<close>

definition real_address :: "nat \<Rightarrow> 32 word \<Rightarrow> bool" where
  "real_address log_n a \<longleftrightarrow> \<not> bit a log_n"

definition cache_map :: "nat \<Rightarrow> 'v entries \<Rightarrow> 32 word \<rightharpoonup> 'v::len clear_record" where
  "cache_map log_n es = (\<lambda>a. if real_address log_n a then map_of es a else None)"

definition no_duplicates :: "nat \<Rightarrow> 'v::len entries \<Rightarrow> bool" where
  "no_duplicates log_n es \<longleftrightarrow> distinct (filter (real_address log_n) (map fst es))"

definition in_range :: "'v::len word \<Rightarrow> 'v entries \<Rightarrow> bool" where
  "in_range ones es \<longleftrightarrow> (\<forall>e \<in> set es. ones AND fst (snd e) = fst (snd e))"

lemma scan_absent:
  "q \<notin> fst ` set es \<Longrightarrow> scan_result ones q es = ((0, 0), 0)"
proof (induction es)
  case (Cons e es)
  then have "scan_result ones q es = ((0, 0), 0)" "fst e \<noteq> q" by auto
  then show ?case by (auto simp: scan_result_def clear_hit_def xor_clear_laws)
qed (simp add: scan_result_def)

lemma scan_lookup:
  assumes "no_duplicates log_n es" and "in_range ones es" and "real_address log_n q"
  shows "scan_result ones q es = (case map_of es q of None \<Rightarrow> ((0, 0), 0) | Some r \<Rightarrow> (r, 1))"
  using assms(1,2)
proof (induction es)
  case (Cons e es)
  then have IH: "scan_result ones q es = (case map_of es q of None \<Rightarrow> ((0, 0), 0) | Some r \<Rightarrow> (r, 1))"
    by (simp add: no_duplicates_def in_range_def split: if_splits)
  show ?case
  proof (cases "fst e = q")
    case True
    then have "q \<notin> fst ` set es" using Cons.prems(1) assms(3) by (auto simp: no_duplicates_def)
    then have "scan_result ones q es = ((0, 0), 0)" by (rule scan_absent)
    moreover have "ones AND fst (snd e) = fst (snd e)" using Cons.prems(2) by (simp add: in_range_def)
    ultimately show ?thesis
      using True by (cases e) (auto simp: scan_result_def clear_hit_def xor_clear_laws)
  next
    case False
    then show ?thesis
      using IH by (cases e) (auto simp: scan_result_def clear_hit_def xor_clear_laws split: option.splits)
  qed
qed (simp add: scan_result_def)


lemma sentinel_not_real: "log_n < 32 \<Longrightarrow> \<not> real_address log_n (sentinel_of log_n)"
  by (simp add: real_address_def sentinel_of_def bit_simps)

text \<open>What a query leaves: the entries with its address have become dummies.\<close>

definition retire :: "nat \<Rightarrow> 32 word set \<Rightarrow> 'v::len entries \<Rightarrow> 'v entries" where
  "retire log_n Q es = map (\<lambda>(a, r). (if a \<in> Q then sentinel_of log_n else a, r)) es"

lemma retire_filter:
  assumes "log_n < 32"
  shows "filter (real_address log_n) (map fst (retire log_n Q es)) =
    filter (\<lambda>a. real_address log_n a \<and> a \<notin> Q) (map fst es)"
  using sentinel_not_real [OF assms] by (induction es) (auto simp: retire_def split: if_splits)

lemma retire_map:
  assumes "log_n < 32"
  shows "cache_map log_n (retire log_n Q es) = (\<lambda>a. if a \<in> Q then None else cache_map log_n es a)"
proof
  fix a
  show "cache_map log_n (retire log_n Q es) a = (if a \<in> Q then None else cache_map log_n es a)"
    using sentinel_not_real [OF assms]
    by (induction es) (auto simp: retire_def cache_map_def split: if_splits)
qed

lemma retire_keeps:
  assumes "log_n < 32"
  shows "no_duplicates log_n es \<Longrightarrow> no_duplicates log_n (retire log_n Q es)"
    and "in_range ones es \<Longrightarrow> in_range ones (retire log_n Q es)"
  unfolding no_duplicates_def retire_filter [OF assms]
  by (auto simp: distinct_map_filter in_range_def retire_def simp flip: filter_filter intro: distinct_filter)

lemma retire_append: "retire log_n Q (es @ fs) = retire log_n Q es @ retire log_n Q fs"
  by (simp add: retire_def)

text \<open>The abstract cache: what it holds, as a finite map, and what its invariant is.\<close>

definition cache_refines :: "'v::len word \<Rightarrow> 'v speed_cache \<Rightarrow> (32 word \<rightharpoonup> 'v clear_record) \<Rightarrow> bool" where
  "cache_refines ones C m \<longleftrightarrow> sc_log_address_space_size C < 32 \<and>
     (\<exists>es. cache_holds C es \<and> in_range ones es \<and> no_duplicates (sc_log_address_space_size C) es \<and>
       m = cache_map (sc_log_address_space_size C) es)"

definition lookup_result :: "'v::len clear_record option \<Rightarrow> 'v clear_record \<times> 1 word" where
  "lookup_result r = (case r of None \<Rightarrow> ((0, 0), 0) | Some r \<Rightarrow> (r, 1))"

lemma scan_is_lookup:
  assumes "no_duplicates log_n es" and "in_range ones es" and "real_address log_n q"
  shows "scan_result ones q es = lookup_result (cache_map log_n es q)"
  using scan_lookup [OF assms] assms(3) by (simp add: cache_map_def lookup_result_def)

lemma cache_query_entries:
  assumes V: "doram_value V blk ones" and log: "sc_log_address_space_size C < 32"
    and es: "cache_holds C es" "in_range ones es" "no_duplicates (sc_log_address_space_size C) es"
    and m: "m = cache_map (sc_log_address_space_size C) es" and pre: "\<And>r. pre = Some r \<Longrightarrow> scan_ok ones q es r"
    and q: "shared Q q" "real_address (sc_log_address_space_size C) q"
    and env: "online net" "correlated rng"
  shows "\<exists>y found C'. cache_query V net rng Q pre C = Inr (y, found, C') \<and>
    shared_record y (fst (lookup_result (m q))) \<and> shared found (snd (lookup_result (m q))) \<and>
    cache_refines ones C' (m(q := None)) \<and> sc_num_stored C' = sc_num_stored C \<and> sc_length C' = sc_length C \<and>
    sc_log_address_space_size C' = sc_log_address_space_size C"
proof -
  let ?log = "sc_log_address_space_size C"
  have r: "map (\<lambda>(a, r). (if a = q then sentinel_of ?log else a, r)) es = retire ?log {q} es"
    by (simp add: retire_def)
  obtain y found C' where run: "cache_query V net rng Q pre C = Inr (y, found, C')"
    "shared_record y (fst (scan_result ones q es))" "shared found (snd (scan_result ones q es))"
    and C': "cache_holds C' (retire ?log {q} es)" "sc_num_stored C' = sc_num_stored C"
    "sc_length C' = sc_length C" "sc_log_address_space_size C' = ?log"
    using cache_query_correct [where pre = pre, OF V es(1) q(1) env, OF pre] unfolding r by blast
  have map: "m(q := None) = cache_map ?log (retire ?log {q} es)"
    by (simp add: retire_map [OF log] m fun_eq_iff)
  have ref: "cache_refines ones C' (m(q := None))"
    unfolding cache_refines_def C'(4)
    using log C'(1) retire_keeps [OF log] es(2,3) map by blast
  show ?thesis
    using run(1) run(2,3)[unfolded scan_is_lookup [OF es(3,2) q(2)], folded m] ref C'(2-4) by blast
qed

lemma cache_query_refines:
  assumes V: "doram_value V blk ones" and C: "cache_refines ones C m"
    and q: "shared Q q" "real_address (sc_log_address_space_size C) q"
    and env: "online net" "correlated rng"
  shows "\<exists>y found C'. cache_query V net rng Q None C = Inr (y, found, C') \<and>
    shared_record y (fst (lookup_result (m q))) \<and> shared found (snd (lookup_result (m q))) \<and>
    cache_refines ones C' (m(q := None)) \<and> sc_num_stored C' = sc_num_stored C \<and> sc_length C' = sc_length C \<and>
    sc_log_address_space_size C' = sc_log_address_space_size C"
proof -
  obtain es where "sc_log_address_space_size C < 32" "cache_holds C es" "in_range ones es" "no_duplicates (sc_log_address_space_size C) es"
    "m = cache_map (sc_log_address_space_size C) es" using C by (auto simp: cache_refines_def)
  from cache_query_entries [OF V this, where pre = None] q env show ?thesis by simp
qed

section \<open>Writing\<close>

lemma overwrite_take:
  "start + length new \<le> length xs \<Longrightarrow> take (start + length new) (overwrite start new xs) = take start xs @ new"
  "start + length new \<le> length xs \<Longrightarrow> length (overwrite start new xs) = length xs"
  by (simp_all add: overwrite_def)

lemma cache_put_correct:
  assumes C: "cache_holds C es" and A: "shared_list A xs" and D: "shared_records D rs"
    and len: "length rs = length xs" and room: "is_writeable C" "sc_num_stored C + length xs \<le> sc_length C"
  shows "\<exists>C'. cache_put A D C = Inr C' \<and> cache_holds C' (es @ zip xs rs) \<and>
    sc_num_stored C' = sc_num_stored C + length xs \<and> sc_length C' = sc_length C \<and>
    sc_log_address_space_size C' = sc_log_address_space_size C"
proof -
  let ?n = "sc_num_stored C"
  have l: "length (A p) = length xs" "length (D p) = length xs" for p
    using shared_listD(1) [OF A] shared_recordsD(1) [OF D] len by simp_all
  have h: "length es = ?n" "length (sc_addrs C p) = sc_length C" "length (sc_data C p) = sc_length C" for p
    using C by (simp_all add: cache_holds_def)
  have X: "shared_list (\<lambda>p. take ?n (sc_addrs C p)) (map fst es)"
    and Y: "shared_records (\<lambda>p. take ?n (sc_data C p)) (map snd es)"
    using C by (simp_all add: cache_holds_def)
  have tx: "take (?n + length xs) (overwrite ?n (A p) (sc_addrs C p)) = take ?n (sc_addrs C p) @ A p" for p
    using overwrite_take(1) [of ?n "A p" "sc_addrs C p"] l h room(2) by simp
  have ty: "take (?n + length xs) (overwrite ?n (D p) (sc_data C p)) = take ?n (sc_data C p) @ D p" for p
    using overwrite_take(1) [of ?n "D p" "sc_data C p"] l h room(2) by simp
  have lens: "length (overwrite ?n (A p) (sc_addrs C p)) = sc_length C"
    "length (overwrite ?n (D p) (sc_data C p)) = sc_length C" for p
    using overwrite_take(2) [of ?n "A p" "sc_addrs C p"] overwrite_take(2) [of ?n "D p" "sc_data C p"]
      l h room(2) by simp_all
  show ?thesis
    using room l h(1) len shared_list_append [OF X A] shared_records_append [OF Y D]
    by (simp add: cache_put_def everywhere_def is_writeable_def cache_holds_def tx ty lens)
qed

lemma cache_map_append:
  "cache_map log_n (es @ fs) = cache_map log_n fs ++ cache_map log_n es"
  by (simp add: cache_map_def fun_eq_iff map_add_def split: option.splits)

lemma cache_map_dom: "dom (cache_map log_n es) = set (filter (real_address log_n) (map fst es))"
proof -
  have "dom (cache_map log_n es) = {a. real_address log_n a} \<inter> dom (map_of es)"
    by (auto simp: cache_map_def split: if_splits)
  then show ?thesis by (auto simp: dom_map_of_conv_image_fst)
qed

lemma cache_put_refines:
  assumes C: "cache_refines ones C m" and A: "shared_list A xs" and D: "shared_records D rs"
    and len: "length rs = length xs" and room: "is_writeable C" "sc_num_stored C + length xs \<le> sc_length C"
    and range: "in_range ones (zip xs rs)"
    and fresh: "distinct xs" "\<forall>x \<in> set xs. real_address (sc_log_address_space_size C) x \<longrightarrow> m x = None"
  shows "\<exists>C'. cache_put A D C = Inr C' \<and>
    cache_refines ones C' (m ++ cache_map (sc_log_address_space_size C) (zip xs rs)) \<and>
    sc_num_stored C' = sc_num_stored C + length xs \<and> sc_length C' = sc_length C \<and>
    sc_log_address_space_size C' = sc_log_address_space_size C"
proof -
  let ?log = "sc_log_address_space_size C"
  obtain es where log: "?log < 32" and es: "cache_holds C es" "in_range ones es" "no_duplicates ?log es"
    and m: "m = cache_map ?log es" using C by (auto simp: cache_refines_def)
  obtain C' where C': "cache_put A D C = Inr C'" "cache_holds C' (es @ zip xs rs)"
    "sc_num_stored C' = sc_num_stored C + length xs" "sc_length C' = sc_length C"
    "sc_log_address_space_size C' = ?log"
    using cache_put_correct [OF es(1) A D len room] by blast
  have "x \<in> set xs \<and> real_address ?log x" if "x \<in> dom (cache_map ?log (zip xs rs))" for x
    using that len by (simp add: cache_map_dom)
  then have disj: "dom m \<inter> dom (cache_map ?log (zip xs rs)) = {}" using fresh(2) by fastforce
  have nd: "no_duplicates ?log (es @ zip xs rs)"
    using es(3) fresh(1) disj len by (auto simp: no_duplicates_def m cache_map_dom)
  have "cache_map ?log (es @ zip xs rs) = m ++ cache_map ?log (zip xs rs)"
    using map_add_comm [OF disj] by (simp add: cache_map_append m)
  moreover have "in_range ones (es @ zip xs rs)" using es(2) range by (auto simp: in_range_def)
  ultimately have "cache_refines ones C' (m ++ cache_map ?log (zip xs rs))"
    unfolding cache_refines_def C'(5) using log C'(2) nd by metis
  with C' show ?thesis by blast
qed


section \<open>A batch of queries\<close>

lemma slice_concat:
  assumes "\<And>xs. xs \<in> set xss \<Longrightarrow> length xs = n" and "k < length xss"
  shows "slice n k (concat xss) = xss ! k"
  using assms
proof (induction xss arbitrary: k)
  case (Cons xs xss)
  then show ?case by (cases k) (simp_all add: slice_def)
qed simp

lemma slice_blocks:
  "k < length qs \<Longrightarrow> slice (length es) k (concat (map (\<lambda>q. map (f q) es) qs)) = map (f (qs ! k)) es"
  by (subst slice_concat) auto

lemma shared_list_slice: "shared_list S xs \<Longrightarrow> shared_list (\<lambda>p. slice n k (S p)) (slice n k xs)"
  unfolding slice_def by (intro shared_list_take shared_list_drop)

lemma shared_records_slice:
  "shared_records R ys \<Longrightarrow> shared_records (\<lambda>p. slice n k (R p)) (slice n k ys)"
  by (auto simp: shared_records_def slice_def)

lemma map2_blocks:
  "map2 h (concat (map (\<lambda>q. map (f q) es) qs)) (concat (map (\<lambda>q. map (g q) es) qs)) =
   concat (map (\<lambda>q. map (\<lambda>e. h (f q e) (g q e)) es) qs)"
  by (induction qs) (simp_all add: map2_map_map)

text \<open>What the scan of a batch must return: the circuit's outputs, one block per query.\<close>

definition scans_ok :: "'v::len word \<Rightarrow> 32 word list \<Rightarrow> 'v entries \<Rightarrow> 'v scan \<Rightarrow> bool" where
  "scans_ok ones qs es = (\<lambda>(x, y, found).
     shared_list x (concat (map (\<lambda>q. map (\<lambda>e. if fst e = q then fst e else 0) es) qs)) \<and>
     shared_records y (concat (map (\<lambda>q. map (clear_hit ones q) es) qs)) \<and>
     shared_list found (concat (map (\<lambda>q. map (\<lambda>e. of_bool (fst e = q)) es) qs)))"

text \<open>One entry's address after a batch: one exclusive or per query that hits it.\<close>

definition mark_step :: "nat \<Rightarrow> 32 word \<Rightarrow> 32 word \<Rightarrow> 32 word \<Rightarrow> 32 word" where
  "mark_step log_n x q a = (if x = q then a XOR (x XOR sentinel_of log_n) else a)"

lemma mark_steps:
  "fold (mark_step log_n x) qs a = a XOR (if odd (count_list qs x) then x XOR sentinel_of log_n else 0)"
proof (induction qs arbitrary: a)
  case (Cons q qs)
  have "mark_step log_n x q a = a XOR (if x = q then x XOR sentinel_of log_n else 0)"
    by (simp add: mark_step_def)
  with Cons.IH [of "mark_step log_n x q a"] show ?case by (auto simp: xor.assoc)
qed simp

lemma mark_block:
  "length as = length es \<Longrightarrow>
   map2 (marked log_n) as (zip (map (\<lambda>e. if fst e = q then fst e else 0) es) (map (\<lambda>e. of_bool (fst e = q)) es)) =
   map2 (\<lambda>e a. mark_step log_n (fst e) q a) es as"
  by (rule nth_equalityI) (auto simp: marked_def mark_step_def sentinel_of_def)

lemma fold_pointwise:
  "length as = length es \<Longrightarrow>
   fold (\<lambda>q as. map2 (\<lambda>e a. f e q a) es as) qs as = map2 (\<lambda>e a. fold (f e) qs a) es as"
proof (induction qs arbitrary: as)
  case Nil
  then show ?case by (intro nth_equalityI) simp_all
next
  case (Cons q qs)
  then show ?case by (intro nth_equalityI) simp_all
qed

lemma fold_marked:
  "fold (\<lambda>q as. map2 (\<lambda>e a. mark_step log_n (fst e) q a) es as) qs (map fst es) =
   map fst (retire log_n {a. odd (count_list qs a)} es)"
  by (subst fold_pointwise)
    (auto intro!: nth_equalityI simp: retire_def mark_steps case_prod_beta)

lemma mark_many_shared:
  assumes A: "shared_list A as" and as: "length as = length es"
    and x: "shared_list x (concat (map (\<lambda>q. map (\<lambda>e. if fst e = q then fst e else 0) es) qs))"
    and f: "shared_list f (concat (map (\<lambda>q. map (\<lambda>e. of_bool (fst e = q)) es) qs))"
    and "set ks \<subseteq> {..<length qs}"
  shows "shared_list (\<lambda>p. fold (\<lambda>k as. mark_addresses log_n as (slice (length es) k (x p)) (slice (length es) k (f p)))
      ks (A p))
    (fold (\<lambda>q as. map2 (\<lambda>e a. mark_step log_n (fst e) q a) es as) (map ((!) qs) ks) as)"
  using A as assms(5)
proof (induction ks arbitrary: A as)
  case (Cons k ks)
  let ?q = "qs ! k"
  have k: "k < length qs" using Cons.prems(3) by simp
  have "shared_list (\<lambda>p. slice (length es) k (x p)) (map (\<lambda>e. if fst e = ?q then fst e else 0) es)"
    "shared_list (\<lambda>p. slice (length es) k (f p)) (map (\<lambda>e. of_bool (fst e = ?q)) es)"
    using shared_list_slice [OF x, of "length es" k] shared_list_slice [OF f, of "length es" k]
    by (simp_all only: slice_blocks [OF k])
  from mark_addresses_shared [OF Cons.prems(1) this, of log_n]
  have "shared_list (\<lambda>p. mark_addresses log_n (A p) (slice (length es) k (x p)) (slice (length es) k (f p)))
      (map2 (\<lambda>e a. mark_step log_n (fst e) ?q a) es as)"
    by (simp only: mark_block [OF Cons.prems(2)] length_map Cons.prems(2) simp_thms)
  from Cons.IH [OF this] Cons.prems(2,3) show ?case by simp
qed simp

lemma scans_circuit:
  assumes V: "doram_value V blk ones" and C: "cache_holds C es" and Q: "shared_list Q qs"
    and env: "online net" "correlated rng"
  defines "n \<equiv> sc_num_stored C"
  defines "addrs \<equiv> \<lambda>p. concat (map (\<lambda>q. take n (sc_addrs C p)) (Q p))"
    and "queries \<equiv> \<lambda>p. concat (map (replicate n) (Q p))"
    and "vals \<equiv> \<lambda>p. concat (map (\<lambda>q. get_y_values (take n (sc_data C p))) (Q p))"
    and "alibis \<equiv> \<lambda>p. concat (map (\<lambda>q. get_alibis (take n (sc_data C p))) (Q p))"
  shows "\<exists>found x y a. is_zero_many fold_u32 net rng (\<lambda>p. xor_shares (addrs p) (queries p)) = Inr found \<and>
    cmux_many_custom V found addrs vals alibis net (skip_draws (5 * length (addrs ID0)) rng) = Inr (x, y, a) \<and>
    scans_ok ones qs es (x, \<lambda>p. from_columns (y p) (a p), found)"
proof -
  let ?hits = "concat (map (\<lambda>q. map (\<lambda>e. of_bool (fst e = q) :: 1 word) es) qs)"
  have n: "length es = n" and X: "shared_list (\<lambda>p. take n (sc_addrs C p)) (map fst es)"
    and Y: "shared_list (\<lambda>p. get_y_values (take n (sc_data C p))) (map fst (map snd es))"
    and A: "shared_list (\<lambda>p. get_alibis (take n (sc_data C p))) (map snd (map snd es))"
    using C by (simp_all add: cache_holds_def shared_records_columns n_def)
  have Xs: "shared_list addrs (concat (map (\<lambda>q. map fst es) qs))"
    unfolding addrs_def by (rule shared_concat_map [OF Q X])
  have Qs: "shared_list queries (concat (map (\<lambda>q. map (\<lambda>e. q) es) qs))"
    unfolding queries_def
    by (rule shared_concat_map [OF Q]) (simp add: map_replicate_const n shared_list_replicate)
  have Ys: "shared_list vals (concat (map (\<lambda>q. map (\<lambda>e. fst (snd e)) es) qs))"
    unfolding vals_def using shared_concat_map [OF Q Y] by (simp add: o_def)
  have As: "shared_list alibis (concat (map (\<lambda>q. map (\<lambda>e. snd (snd e)) es) qs))"
    unfolding alibis_def using shared_concat_map [OF Q A] by (simp add: o_def)
  have zeros: "map (\<lambda>x. of_bool (x = 0)) (map2 (XOR) (concat (map (\<lambda>q. map fst es) qs))
      (concat (map (\<lambda>q. map (\<lambda>e. q) es) qs))) = ?hits"
    by (simp add: map2_blocks map_concat o_def)
  obtain found where found: "is_zero_many fold_u32 net rng (\<lambda>p. xor_shares (addrs p) (queries p)) = Inr found"
    "shared_list found ?hits"
    using is_zero_many_correct [OF _ xor_shares_shared [OF Xs Qs] env, of fold_u32, unfolded zeros] folds_u32
    by (auto simp: o_def length_concat)
  have len: "length (concat (map (\<lambda>q. map fst es) qs)) = length ?hits"
    "length (concat (map (\<lambda>q. map (\<lambda>e. fst (snd e)) es) qs)) = length ?hits"
    "length (concat (map (\<lambda>q. map (\<lambda>e. snd (snd e)) es) qs)) = length ?hits"
    by (simp_all add: length_concat o_def)
  obtain x y a where circ: "cmux_many_custom V found addrs vals alibis net
      (skip_draws (5 * length (addrs ID0)) rng) = Inr (x, y, a)"
    "shared_list x (map2 (select (NOT 0)) ?hits (concat (map (\<lambda>q. map fst es) qs)))"
    "shared_list y (map2 (select ones) ?hits (concat (map (\<lambda>q. map (\<lambda>e. fst (snd e)) es) qs)))"
    "shared_list a (map2 (select (NOT 0)) ?hits (concat (map (\<lambda>q. map (\<lambda>e. snd (snd e)) es) qs)))"
    using cmux_many_custom_correct [OF V found(2) Xs Ys As len env(1) correlated_skip [OF env(2)]] by blast
  have "shared_list x (concat (map (\<lambda>q. map (\<lambda>e. if fst e = q then fst e else 0) es) qs))"
    using circ(2) by (simp add: map2_blocks cong: if_cong)
  moreover have "shared_records (\<lambda>p. from_columns (y p) (a p)) (concat (map (\<lambda>q. map (clear_hit ones q) es) qs))"
  proof (rule from_columns_shared)
    show "shared_list y (map fst (concat (map (\<lambda>q. map (clear_hit ones q) es) qs)))"
      using circ(3) by (simp add: map2_blocks map_concat o_def clear_hit_def if_distrib cong: if_cong)
    show "shared_list a (map snd (concat (map (\<lambda>q. map (clear_hit ones q) es) qs)))"
      using circ(4) by (simp add: map2_blocks map_concat o_def clear_hit_def if_distrib cong: if_cong)
  qed
  ultimately show ?thesis using found circ(1) by (auto simp: scans_ok_def)
qed


lemma scans_precomputed:
  assumes len: "length results = length qs"
    and ok: "\<And>k. k < length qs \<Longrightarrow> scan_ok ones (qs ! k) es (results ! k)"
  shows "scans_ok ones qs es (\<lambda>p. concat (map (\<lambda>(x, y, found). x p) results),
    \<lambda>p. concat (map (\<lambda>(x, y, found). y p) results), \<lambda>p. concat (map (\<lambda>(x, y, found). found p) results))"
proof -
  let ?x = "\<lambda>q. map (\<lambda>e. if fst e = q then fst e else 0) es"
    and ?f = "\<lambda>q. map (\<lambda>e. of_bool (fst e = q) :: 1 word) es"
  have ok': "shared_list (fst (results ! k)) (?x (qs ! k))"
    "shared_records (fst (snd (results ! k))) (map (clear_hit ones (qs ! k)) es)"
    "shared_list (snd (snd (results ! k))) (?f (qs ! k))" if "k < length qs" for k
    using ok [OF that] by (cases "results ! k"; simp add: scan_ok_def)+
  have "shared_cols (\<lambda>p. map (\<lambda>r. fst r p) results) (map ?x qs)"
    "shared_cols (\<lambda>p. map (\<lambda>r. get_y_values (fst (snd r) p)) results)
      (map (\<lambda>q. map fst (map (clear_hit ones q) es)) qs)"
    "shared_cols (\<lambda>p. map (\<lambda>r. get_alibis (fst (snd r) p)) results)
      (map (\<lambda>q. map snd (map (clear_hit ones q) es)) qs)"
    "shared_cols (\<lambda>p. map (\<lambda>r. snd (snd r) p) results) (map ?f qs)"
    using ok' len by (simp_all add: shared_cols_def shared_records_columns)
  from this [THEN shared_list_concat] show ?thesis
    by (simp add: scans_ok_def shared_records_columns get_y_values_def get_alibis_def case_prod_beta'
        map_concat o_def)
qed

definition precomputed_ok :: "'v::len word \<Rightarrow> 32 word list \<Rightarrow> 'v entries \<Rightarrow> 'v scan list option \<Rightarrow> bool" where
  "precomputed_ok ones qs es pre = (case pre of None \<Rightarrow> True
     | Some results \<Rightarrow> length results = length qs \<and> (\<forall>k < length qs. scan_ok ones (qs ! k) es (results ! k)))"

definition answers :: "'v::len word \<Rightarrow> 32 word list \<Rightarrow> 'v entries \<Rightarrow> (party \<Rightarrow> ('v dr_record \<times> 1 word share) list) \<Rightarrow> bool" where
  "answers ones qs es R \<longleftrightarrow> (\<forall>p. length (R p) = length qs) \<and> (\<forall>k < length qs.
     shared_record (\<lambda>p. fst (R p ! k)) (fst (scan_result ones (qs ! k) es)) \<and>
     shared (\<lambda>p. snd (R p ! k)) (snd (scan_result ones (qs ! k) es)))"

lemma scan_answers:
  assumes ok: "scans_ok ones qs es (x, y, found)" and "es \<noteq> []"
  shows "\<exists>R. each_party (\<lambda>p. mapE (\<lambda>query.
      bindE (reduceE xor_record (slice (length es) query (y p))) (\<lambda>y_xor.
      bindE (reduceE xor_share (slice (length es) query (found p))) (\<lambda>found_xor.
        Inr (y_xor, found_xor)))) [0..<length qs]) = Inr R \<and> answers ones qs es R"
proof -
  have y: "shared_records y (concat (map (\<lambda>q. map (clear_hit ones q) es) qs))"
    and f: "shared_list found (concat (map (\<lambda>q. map (\<lambda>e. of_bool (fst e = q)) es) qs))"
    using ok by (simp_all add: scans_ok_def)
  have "\<exists>Y. (\<forall>p. reduceE xor_record (slice (length es) k (y p)) = Inr (Y p)) \<and>
      shared_record Y (fst (scan_result ones (qs ! k) es))" if "k < length qs" for k
    using reduce_records [OF shared_records_slice [OF y, of "length es" k, unfolded slice_blocks [OF that]]]
      assms(2) by (simp only: scan_result_foldr) simp
  then obtain Y where Y: "\<And>k p. k < length qs \<Longrightarrow> reduceE xor_record (slice (length es) k (y p)) = Inr (Y k p)"
    "\<And>k. k < length qs \<Longrightarrow> shared_record (Y k) (fst (scan_result ones (qs ! k) es))" by metis
  have "\<exists>F. (\<forall>p. reduceE xor_share (slice (length es) k (found p)) = Inr (F p)) \<and>
      shared F (snd (scan_result ones (qs ! k) es))" if "k < length qs" for k
    using reduce_bits [OF shared_list_slice [OF f, of "length es" k, unfolded slice_blocks [OF that]]]
      assms(2) by (simp flip: scan_result_foldr(2) [of _ _ ones])
  then obtain F where F: "\<And>k p. k < length qs \<Longrightarrow> reduceE xor_share (slice (length es) k (found p)) = Inr (F k p)"
    "\<And>k. k < length qs \<Longrightarrow> shared (F k) (snd (scan_result ones (qs ! k) es))" by metis
  let ?R = "\<lambda>p. map (\<lambda>k. (Y k p, F k p)) [0..<length qs]"
  have "each_party (\<lambda>p. mapE (\<lambda>query.
      bindE (reduceE xor_record (slice (length es) query (y p))) (\<lambda>y_xor.
      bindE (reduceE xor_share (slice (length es) query (found p))) (\<lambda>found_xor.
        Inr (y_xor, found_xor)))) [0..<length qs]) = Inr ?R"
    by (intro each_party_Inr mapE_total) (simp add: Y(1) F(1))
  moreover have "answers ones qs es ?R" by (simp add: answers_def Y(2) F(2))
  ultimately show ?thesis by blast
qed

lemma cache_query_many_correct:
  assumes V: "doram_value V blk ones" and C: "cache_holds C es" and Q: "shared_list Q qs"
    and env: "online net" "correlated rng" and pre: "precomputed_ok ones qs es pre"
  shows "\<exists>R C'. cache_query_many V net rng Q pre C = Inr (R, C') \<and> answers ones qs es R \<and>
    cache_holds C' (retire (sc_log_address_space_size C) {a. odd (count_list qs a)} es) \<and>
    sc_num_stored C' = sc_num_stored C \<and> sc_length C' = sc_length C \<and>
    sc_log_address_space_size C' = sc_log_address_space_size C"
proof (cases "sc_num_stored C = 0")
  case True
  then have "es = []" using C by (simp add: cache_holds_def)
  then show ?thesis
    using True C shared_listD(1) [OF Q]
    by (simp add: cache_query_many_def Let_def answers_def scan_result_def retire_def
        record_zero_shared shared_promote_public)
next
  case False
  let ?n = "sc_num_stored C" and ?log = "sc_log_address_space_size C"
  have n: "?n = length es" and X: "shared_list (\<lambda>p. take ?n (sc_addrs C p)) (map fst es)"
    using C by (simp_all add: cache_holds_def)
  have num: "length (Q p) = length qs" for p using shared_listD(1) [OF Q] .
  obtain x y found where scan: "cache_scan_many V net rng Q pre C = Inr (x, y, found)"
    and ok: "scans_ok ones qs es (x, y, found)"
  proof (cases pre)
    case None
    show thesis
      using scans_circuit [OF V C Q env] None
      by (elim exE conjE) (rule that; simp add: cache_scan_many_def Let_def)
  next
    case (Some results)
    then show thesis
      using pre that scans_precomputed [of results qs ones es] num
      by (simp add: cache_scan_many_def precomputed_ok_def)
  qed
  have x: "shared_list x (concat (map (\<lambda>q. map (\<lambda>e. if fst e = q then fst e else 0) es) qs))"
    and f: "shared_list found (concat (map (\<lambda>q. map (\<lambda>e. of_bool (fst e = q)) es) qs))"
    using ok by (simp_all add: scans_ok_def)
  have ne: "es \<noteq> []" using False n by auto
  obtain R where R: "each_party (\<lambda>p. mapE (\<lambda>query.
      bindE (reduceE xor_record (slice ?n query (y p))) (\<lambda>y_xor.
      bindE (reduceE xor_share (slice ?n query (found p))) (\<lambda>found_xor.
        Inr (y_xor, found_xor)))) [0..<length qs]) = Inr R" "answers ones qs es R"
    using scan_answers [OF ok ne] unfolding n by blast
  let ?X = "\<lambda>p. fold (\<lambda>k as. mark_addresses ?log as (slice ?n k (x p)) (slice ?n k (found p)))
      [0..<length qs] (take ?n (sc_addrs C p))"
  let ?C' = "C\<lparr>sc_addrs := \<lambda>p. ?X p @ drop ?n (sc_addrs C p)\<rparr>"
  have "shared_list ?X (map fst (retire ?log {a. odd (count_list qs a)} es))"
    using mark_many_shared [OF X _ x f, of "[0..<length qs]" ?log] unfolding map_nth fold_marked n
    by (simp add: subset_eq)
  then have "cache_holds ?C' (zip (map fst (retire ?log {a. odd (count_list qs a)} es)) (map snd es))"
    by (rule cache_holds_addrs [OF C]) (simp add: retire_def)
  moreover have "zip (map fst (retire ?log S es)) (map snd es) = retire ?log S es" for S
    by (rule nth_equalityI) (auto simp: retire_def case_prod_beta)
  moreover have "cache_query_many V net rng Q pre C = Inr (R, ?C')"
    using False R(1) by (simp add: cache_query_many_def scan Let_def num)
  ultimately show ?thesis using R(2) by simp
qed


section \<open>Properties\<close>

lemma speed_cache_new_refines:
  assumes "log_n < 32"
  shows "cache_refines ones (speed_cache_new len log_n) Map.empty"
  using assms cache_new_holds [of len log_n]
  by (auto simp: cache_refines_def in_range_def no_duplicates_def cache_map_def speed_cache_new_def
      intro!: exI [of _ "[]"])

lemma cache_query_many_entries:
  assumes V: "doram_value V blk ones" and log: "sc_log_address_space_size C < 32"
    and es: "cache_holds C es" "in_range ones es" "no_duplicates (sc_log_address_space_size C) es"
    and m: "m = cache_map (sc_log_address_space_size C) es" and pre: "precomputed_ok ones qs es pre"
    and Q: "shared_list Q qs" "distinct qs" "\<forall>q \<in> set qs. real_address (sc_log_address_space_size C) q"
    and env: "online net" "correlated rng"
  shows "\<exists>R C'. cache_query_many V net rng Q pre C = Inr (R, C') \<and>
    (\<forall>p. length (R p) = length qs) \<and>
    (\<forall>k < length qs. shared_record (\<lambda>p. fst (R p ! k)) (fst (lookup_result (m (qs ! k)))) \<and>
       shared (\<lambda>p. snd (R p ! k)) (snd (lookup_result (m (qs ! k))))) \<and>
    cache_refines ones C' (m |` (- set qs)) \<and> sc_num_stored C' = sc_num_stored C \<and>
    sc_length C' = sc_length C \<and> sc_log_address_space_size C' = sc_log_address_space_size C"
proof -
  let ?log = "sc_log_address_space_size C"
  have "odd (count_list qs a) \<longleftrightarrow> a \<in> set qs" for a
    using Q(2) by (induction qs) (auto simp: count_list_0_iff)
  then have odd: "{a. odd (count_list qs a)} = set qs" by auto
  obtain R C' where run: "cache_query_many V net rng Q pre C = Inr (R, C')" "answers ones qs es R"
    and C': "cache_holds C' (retire ?log (set qs) es)" "sc_num_stored C' = sc_num_stored C"
    "sc_length C' = sc_length C" "sc_log_address_space_size C' = ?log"
    using cache_query_many_correct [OF V es(1) Q(1) env pre] unfolding odd by auto
  have "m |` (- set qs) = cache_map ?log (retire ?log (set qs) es)"
    by (auto simp: retire_map [OF log] m restrict_map_def)
  then have ref: "cache_refines ones C' (m |` (- set qs))"
    unfolding cache_refines_def C'(4) using log C'(1) retire_keeps [OF log] es(2,3) by blast
  have "scan_result ones (qs ! k) es = lookup_result (m (qs ! k))" if "k < length qs" for k
    using scan_is_lookup [OF es(3,2)] Q(3) that by (simp add: m)
  then show ?thesis using run ref C'(2-4) by (simp add: answers_def)
qed

text \<open>C13: A batch of queries at distinct real addresses answers each query with what the cache
  maps its address to (the record and found bit 1, or the zero record and found bit 0), and
  afterwards the cache is the same map without the queried addresses.\<close>

theorem cache_batch_lookup:
  assumes V: "doram_value V blk ones" and C: "cache_refines ones C m"
    and Q: "shared_list Q qs" "distinct qs" "\<forall>q \<in> set qs. real_address (sc_log_address_space_size C) q"
    and env: "online net" "correlated rng"
  shows "\<exists>R C'. cache_query_many V net rng Q None C = Inr (R, C') \<and>
    (\<forall>p. length (R p) = length qs) \<and>
    (\<forall>k < length qs. shared_record (\<lambda>p. fst (R p ! k)) (fst (lookup_result (m (qs ! k)))) \<and>
       shared (\<lambda>p. snd (R p ! k)) (snd (lookup_result (m (qs ! k))))) \<and>
    cache_refines ones C' (m |` (- set qs)) \<and> sc_num_stored C' = sc_num_stored C \<and>
    sc_length C' = sc_length C \<and> sc_log_address_space_size C' = sc_log_address_space_size C"
proof -
  obtain es where "sc_log_address_space_size C < 32" "cache_holds C es" "in_range ones es" "no_duplicates (sc_log_address_space_size C) es"
    "m = cache_map (sc_log_address_space_size C) es" using C by (auto simp: cache_refines_def)
  from cache_query_many_entries [OF V this, where pre = None] Q env show ?thesis by (simp add: precomputed_ok_def)
qed

lemmas cache_scalars = speed_cache_new_def cache_put_def is_writeable_def

lemma small_cache:
  obtains C where "cache_refines (NOT 0) C [5 \<mapsto> (7, 0), 9 \<mapsto> (8, 0)]"
    and "sc_log_address_space_size C = 5" and "sc_num_stored C = 2" and "sc_length C = (4 :: nat)"
    and "cache_put (\<lambda>p. promote_public_values p [5, 9])
      (\<lambda>p. map from_value (promote_public_values p [7, 8 :: 32 word])) (speed_cache_new 4 5) = Inr C"
proof -
  let ?D = "\<lambda>p. map from_value (promote_public_values p [7, 8 :: 32 word])"
  have D: "shared_records ?D [(7, 0), (8, 0)]"
    unfolding shared_records_columns
    by (simp add: get_y_values_def get_alibis_def o_def from_value_def promote_public_values_def)
      (auto simp: shared_list_def shared_def all_party less_Suc_eq zero_share_def)
  have w: "is_writeable (speed_cache_new 4 5 :: 32 speed_cache)"
    "sc_num_stored (speed_cache_new 4 5 :: 32 speed_cache) + length [5, 9 :: 32 word] \<le>
      sc_length (speed_cache_new 4 5 :: 32 speed_cache)"
    by (simp_all add: cache_scalars)
  obtain C where C: "cache_put (\<lambda>p. promote_public_values p [5, 9]) ?D (speed_cache_new 4 5) = Inr C"
    "cache_refines (NOT 0) C (Map.empty ++ cache_map 5 (zip [5, 9] [(7, 0), (8, 0)]))"
    "sc_num_stored C = 2" "sc_length C = 4" "sc_log_address_space_size C = 5"
    using cache_put_refines [OF speed_cache_new_refines [of 5 "NOT 0" 4]
        promote_public_values_shared D _ w]
    by (auto simp: in_range_def speed_cache_new_def)
  have "cache_map 5 (zip [5, 9] [(7, 0), (8, 0)]) = [5 \<mapsto> (7 :: 32 word, 0), 9 \<mapsto> (8, 0)]"
    by (auto simp: cache_map_def real_address_def fun_eq_iff bit_iff_odd)
  with C that show thesis by simp
qed

theorem cache_batch_lookup_witness:
  "\<exists>(C :: 32 speed_cache) R C'. cache_query_many ring_value all_online zero_rng
      (\<lambda>p. promote_public_values p [9, 3]) None C = Inr (R, C') \<and>
    shared_record (\<lambda>p. fst (R p ! 0)) (8, 0) \<and> shared (\<lambda>p. snd (R p ! 1)) 0 \<and>
    cache_refines (NOT 0) C' [5 \<mapsto> (7, 0)]"
proof -
  obtain C where C: "cache_refines (NOT 0) C [5 \<mapsto> (7 :: 32 word, 0), 9 \<mapsto> (8, 0)]"
    and log: "sc_log_address_space_size C = 5" by (rule small_cache)
  have real: "distinct [9, 3 :: 32 word]" "\<forall>q \<in> set [9, 3]. real_address (sc_log_address_space_size C) q"
    by (simp_all add: log real_address_def bit_iff_odd)
  let ?m = "[5 \<mapsto> (7, 0), 9 \<mapsto> (8, 0)] :: 32 word \<rightharpoonup> 32 clear_record"
  obtain R C' where run: "cache_query_many ring_value all_online zero_rng
      (\<lambda>p. promote_public_values p [9, 3]) None C = Inr (R, C')"
    and res: "\<forall>k < length [9, 3 :: 32 word].
      shared_record (\<lambda>p. fst (R p ! k)) (fst (lookup_result (?m ([9, 3] ! k)))) \<and>
      shared (\<lambda>p. snd (R p ! k)) (snd (lookup_result (?m ([9, 3] ! k))))"
    and C': "cache_refines (NOT 0) C' (?m |` (- set [9, 3]))"
    using cache_batch_lookup [OF u32_value.doram_value_axioms C promote_public_values_shared real
        concrete_environment] by blast
  have "?m |` (- set [9, 3]) = [5 \<mapsto> (7, 0)]"
    by (auto simp: restrict_map_def fun_eq_iff)
  moreover have "shared_record (\<lambda>p. fst (R p ! 0)) (8, 0)" "shared (\<lambda>p. snd (R p ! 1)) 0"
    using res [rule_format, of 0] res [rule_format, of 1] by (simp_all add: lookup_result_def)
  ultimately show ?thesis using run C' by auto
qed

text \<open>C24: A record that has been written comes back: a query for one of the addresses just
  written returns the record written for it, with found bit 1, and takes it out of the cache,
  which keeps everything else it held.\<close>

theorem cache_read_your_writes:
  assumes V: "doram_value V blk ones" and C: "cache_refines ones C m"
    and A: "shared_list A xs" and D: "shared_records D rs" and len: "length rs = length xs"
    and room: "is_writeable C" "sc_num_stored C + length xs \<le> sc_length C"
    and range: "in_range ones (zip xs rs)"
    and real: "\<forall>x \<in> set xs. real_address (sc_log_address_space_size C) x"
    and fresh: "distinct xs" "\<forall>x \<in> set xs. m x = None"
    and Q: "shared Q (xs ! k)" "k < length xs" and env: "online net" "correlated rng"
  shows "\<exists>C1 y found C2. cache_put A D C = Inr C1 \<and> cache_query V net rng Q None C1 = Inr (y, found, C2) \<and>
    shared_record y (rs ! k) \<and> shared found 1 \<and>
    cache_refines ones C2 ((m ++ map_of (zip xs rs))(xs ! k := None))"
proof -
  let ?log = "sc_log_address_space_size C"
  have "map_of (zip xs rs) a = None" if "a \<notin> set xs" for a
    using that by (auto simp: map_of_eq_None_iff dest: set_zip_leftD)
  then have map: "cache_map ?log (zip xs rs) = map_of (zip xs rs)"
    using real by (auto simp: cache_map_def fun_eq_iff)
  obtain C1 where C1: "cache_put A D C = Inr C1" "cache_refines ones C1 (m ++ map_of (zip xs rs))"
    "sc_log_address_space_size C1 = ?log"
    using cache_put_refines [OF C A D len room range fresh(1)] fresh(2) unfolding map by blast
  have k: "(m ++ map_of (zip xs rs)) (xs ! k) = Some (rs ! k)"
    using fresh(1) len Q(2) by (simp add: map_of_zip_nth)
  have "real_address (sc_log_address_space_size C1) (xs ! k)" using C1(3) real Q(2) by simp
  from cache_query_refines [OF V C1(2) Q(1) this env] show ?thesis
    using C1(1) by (auto simp: k lookup_result_def)
qed

theorem cache_read_your_writes_witness:
  "\<exists>(C2 :: 32 speed_cache) y found. bindE (cache_put (\<lambda>p. promote_public_values p [5, 9])
      (\<lambda>p. map from_value (promote_public_values p [7, 8])) (speed_cache_new 4 5))
      (cache_query ring_value all_online zero_rng (\<lambda>p. promote_public p 9) None) = Inr (y, found, C2) \<and>
    shared_record y (8, 0) \<and> shared found 1 \<and> cache_refines (NOT 0) C2 [5 \<mapsto> (7, 0)]"
proof -
  let ?C = "speed_cache_new 4 5 :: 32 speed_cache"
  have D: "shared_records (\<lambda>p. map from_value (promote_public_values p [7, 8 :: 32 word])) [(7, 0), (8, 0)]"
    unfolding shared_records_columns
    by (simp add: get_y_values_def get_alibis_def o_def from_value_def promote_public_values_def)
      (auto simp: shared_list_def shared_def all_party less_Suc_eq zero_share_def)
  have room: "is_writeable ?C" "sc_num_stored ?C + length [5, 9 :: 32 word] \<le> sc_length ?C"
    by (simp_all add: cache_scalars)
  have real: "\<forall>x \<in> set [5, 9]. real_address (sc_log_address_space_size ?C) x"
    by (simp add: speed_cache_new_def real_address_def bit_iff_odd)
  have m: "(Map.empty ++ map_of (zip [5, 9] [(7, 0), (8, 0)]))([5, 9] ! 1 := None) =
      [5 :: 32 word \<mapsto> (7 :: 32 word, 0 :: 8 word)]" by (auto simp: fun_eq_iff)
  show ?thesis
    using cache_read_your_writes [where k = 1, OF u32_value.doram_value_axioms
        speed_cache_new_refines [of 5 "NOT 0" 4] promote_public_values_shared D _ room _ real _ _
        shared_promote_public _ concrete_environment]
    unfolding m by (auto simp: in_range_def)
qed

text \<open>C33: Writing fails exactly where the code asserts: on vectors of different lengths, on a full
  cache and on a batch that exceeds the room left; otherwise the entries are appended to what the
  cache holds. A batch of no entries also needs a cache that is not full.\<close>

theorem cache_put_total:
  assumes C: "cache_holds C es" and A: "shared_list A xs" and D: "shared_records D rs"
  shows "case cache_put A D C of
      Inr C' \<Rightarrow> length rs = length xs \<and> sc_num_stored C < sc_length C \<and> length es + length xs \<le> sc_length C \<and>
        cache_holds C' (es @ zip xs rs)
    | Inl e \<Rightarrow> (\<exists>msg. e = Panic msg) \<and>
        (length rs \<noteq> length xs \<or> sc_num_stored C = sc_length C \<or> sc_length C < length es + length xs)"
proof (cases "length rs = length xs \<and> is_writeable C \<and> sc_num_stored C + length xs \<le> sc_length C")
  case True
  then obtain C' where "cache_put A D C = Inr C'" "cache_holds C' (es @ zip xs rs)"
    using cache_put_correct [OF C A D] by blast
  then show ?thesis using True C by (simp add: is_writeable_def cache_holds_def)
next
  case False
  then show ?thesis
    using C shared_listD(1) [OF A] shared_recordsD(1) [OF D]
    by (auto simp: cache_put_def checkE_def everywhere_def is_writeable_def cache_holds_def)
qed

theorem cache_put_total_witness:
  "cache_put (\<lambda>p. promote_public_values p [5, 9]) (\<lambda>p. [record_zero, record_zero :: 32 dr_record])
     (speed_cache_new 1 5) = Inl (Panic ''write batch exceeds remaining speed cache capacity'') \<and>
   \<not> length ([] :: 32 entries) + length [5, 9 :: 32 word] \<le> sc_length (speed_cache_new 1 5 :: 32 speed_cache)"
proof -
  have D: "shared_records (\<lambda>p. [record_zero, record_zero :: 32 dr_record]) [(0, 0), (0, 0)]"
    by (auto simp: shared_records_def less_Suc_eq)
  have "cache_put (\<lambda>p. promote_public_values p [5, 9]) (\<lambda>p. [record_zero, record_zero :: 32 dr_record])
     (speed_cache_new 1 5) = Inl (Panic ''write batch exceeds remaining speed cache capacity'')"
    by (simp add: cache_put_def speed_cache_new_def everywhere_def promote_public_values_def)
  then show ?thesis
    using cache_put_total [OF cache_new_holds [of 1 5] promote_public_values_shared [of "[5, 9]"] D]
    by (simp add: speed_cache_new_def)
qed

lemma scan_result_append:
  "scan_result ones q (es @ fs) =
    (xor_clear (fst (scan_result ones q es)) (fst (scan_result ones q fs)),
     snd (scan_result ones q es) XOR snd (scan_result ones q fs))"
  by (induction es) (simp_all add: scan_result_def xor_clear_laws xor.assoc)

lemma scan_result_hits:
  "scan_result ones q [] = ((0, 0), 0)"
  "scan_result ones q ((q, (v, a)) # es) =
    (xor_clear (ones AND v, a) (fst (scan_result ones q es)), 1 XOR snd (scan_result ones q es))"
  by (simp_all add: scan_result_def clear_hit_def)

text \<open>C40: A batch in which one address occurs twice corrupts the entry. Both queries return the
  stored record, and since each of them exclusive-ors the address with the sentinel the entry stays
  live; after both results have been written back the address has three entries, and the next
  query returns the exclusive or of the three records instead of the last one written.\<close>

theorem duplicate_batch_corrupts:
  assumes V: "doram_value V blk ones" and C: "cache_refines ones C m"
    and q: "shared Q q" "real_address (sc_log_address_space_size C) q" "m q = Some (v, a)"
    and W: "shared W1 w1" "shared W2 w2" "ones AND w1 = w1" "ones AND w2 = w2"
    and room: "sc_num_stored C + 2 \<le> sc_length C" and env: "online net" "correlated rng"
  shows "\<exists>R C1 C2 y found C3. cache_query_many V net rng (\<lambda>p. [Q p, Q p]) None C = Inr (R, C1) \<and>
    (\<forall>k < 2. shared_record (\<lambda>p. fst (R p ! k)) (v, a) \<and> shared (\<lambda>p. snd (R p ! k)) 1) \<and>
    cache_put (\<lambda>p. [Q p, Q p]) (\<lambda>p. [from_value (W1 p), from_value (W2 p)]) C1 = Inr C2 \<and>
    cache_query V net rng Q None C2 = Inr (y, found, C3) \<and>
    shared_record y (v XOR w1 XOR w2, a) \<and> shared found 1"
proof -
  let ?log = "sc_log_address_space_size C"
  obtain es where log: "?log < 32" and es: "cache_holds C es" "in_range ones es" "no_duplicates ?log es"
    and m: "m = cache_map ?log es" using C by (auto simp: cache_refines_def)
  have hit: "scan_result ones q es = ((v, a), 1)"
    using scan_is_lookup [OF es(3,2) q(2)] q(3) by (simp add: m lookup_result_def)
  have none: "{b. odd (count_list [q, q] b)} = {}" by auto
  have QQ: "shared_list (\<lambda>p. [Q p, Q p]) [q, q]" using q(1) by (simp add: shared_list_def less_Suc_eq)
  have WW: "shared_records (\<lambda>p. [from_value (W1 p), from_value (W2 p)]) [(w1, 0), (w2, 0)]"
    using from_value_shared W(1,2) by (auto simp: shared_records_def less_Suc_eq)
  obtain R C1 where batch: "cache_query_many V net rng (\<lambda>p. [Q p, Q p]) None C = Inr (R, C1)"
    "answers ones [q, q] es R" and C1: "cache_holds C1 (retire ?log {} es)"
    "sc_num_stored C1 = sc_num_stored C" "sc_length C1 = sc_length C"
    using cache_query_many_correct [OF V es(1) QQ env, of None] unfolding none
    by (auto simp: precomputed_ok_def)
  have "retire ?log {} es = es" by (simp add: retire_def)
  then obtain C2 where C2: "cache_put (\<lambda>p. [Q p, Q p]) (\<lambda>p. [from_value (W1 p), from_value (W2 p)]) C1 = Inr C2"
    "cache_holds C2 (es @ [(q, (w1, 0)), (q, (w2, 0))])"
    using cache_put_correct [OF C1(1) QQ WW] room by (auto simp: is_writeable_def C1(2,3))
  have "scan_result ones q (es @ [(q, (w1, 0)), (q, (w2, 0))]) = ((v XOR w1 XOR w2, a), 1)"
    by (simp add: scan_result_append hit scan_result_hits W(3,4) xor_clear_def xor.assoc)
  then obtain y found C3 where "cache_query V net rng Q None C2 = Inr (y, found, C3)"
    "shared_record y (v XOR w1 XOR w2, a)" "shared found 1"
    using cache_query_correct [OF V C2(2) q(1) env, of None] by auto
  moreover have "\<forall>k < 2. shared_record (\<lambda>p. fst (R p ! k)) (v, a) \<and> shared (\<lambda>p. snd (R p ! k)) 1"
    using batch(2) hit by (auto simp: answers_def less_2_cases_iff)
  ultimately show ?thesis using batch(1) C2(1) by blast
qed

theorem duplicate_batch_corrupts_witness:
  "\<exists>(C :: 32 speed_cache) R C1 C2 y found C3. cache_refines (NOT 0) C [5 \<mapsto> (7, 0), 9 \<mapsto> (8, 0)] \<and>
    cache_query_many ring_value all_online zero_rng (\<lambda>p. [promote_public p 9, promote_public p 9]) None C = Inr (R, C1) \<and>
    cache_put (\<lambda>p. [promote_public p 9, promote_public p 9])
      (\<lambda>p. [from_value (promote_public p 1), from_value (promote_public p 2)]) C1 = Inr C2 \<and>
    cache_query ring_value all_online zero_rng (\<lambda>p. promote_public p 9) None C2 = Inr (y, found, C3) \<and>
    shared_record y (11, 0)"
proof -
  obtain C where C: "cache_refines (NOT 0) C [5 \<mapsto> (7 :: 32 word, 0), 9 \<mapsto> (8, 0)]"
    and log: "sc_log_address_space_size C = 5" "sc_num_stored C = 2" "sc_length C = 4"
    by (rule small_cache)
  have real: "real_address (sc_log_address_space_size C) 9" by (simp add: log real_address_def bit_iff_odd)
  have v: "8 XOR 1 XOR 2 = (11 :: 32 word)" by simp
  show ?thesis
    using duplicate_batch_corrupts [OF u32_value.doram_value_axioms C shared_promote_public real _
        shared_promote_public [of 1] shared_promote_public [of 2] _ _ _ concrete_environment] C
    by (simp add: log v) blast
qed

end
