(* ===== verification/Fused_Query.thy ===== *)
theory Fused_Query
  imports Lowmc_Fused Cache_Map
begin

text \<open>
  What the fused query owes its callers in \<open>crates/doram/src/lib.rs\<close>: \<open>read_and_maybe_write\<close> and
  \<open>batch_access_chunk\<close> compute the tags of all live levels and scan the speed cache in one run of the
  rounds, and hand the scan's result to the cache, which then need not compare addresses itself.
\<close>

unbundle bit_operations_syntax

section \<open>The callers\<close>

text \<open>The tags and the cache answer of one access (\<open>read_and_maybe_write\<close>).\<close>

definition query_tags_and_cache ::
    "'v::len value_ops \<Rightarrow> network \<Rightarrow> rngs \<Rightarrow> rngs \<Rightarrow> (party \<Rightarrow> u8_share list list) \<Rightarrow> nat \<Rightarrow> (party \<Rightarrow> 32 word share) \<Rightarrow> 'v speed_cache \<Rightarrow>
     (128 shares \<times> (party \<Rightarrow> 'v dr_record) \<times> (party \<Rightarrow> 1 word share) \<times> 'v speed_cache) res" where
  "query_tags_and_cache V net rng rng_cache packed_query_key num_live query_x C =
     bindE (precompute_query C query_x) (\<lambda>data.
     bindE (encrypt_with_combined_round_keys V net rng packed_query_key num_live (\<lambda>p. upcast_x_to_block (query_x p)) data) (\<lambda>(qs, data).
     bindE (cache_query V net rng_cache query_x (Option.bind data pd_result) C) (\<lambda>(y_accum, found, C).
       Inr (qs, y_accum, found, C))))"

text \<open>The same for the queries of a chunk (\<open>batch_access_chunk\<close>).\<close>

definition batch_tags_and_cache ::
    "'v::len value_ops \<Rightarrow> network \<Rightarrow> rngs \<Rightarrow> rngs \<Rightarrow> (party \<Rightarrow> u8_share list list list) \<Rightarrow> nat \<Rightarrow> 32 shares \<Rightarrow> 'v speed_cache \<Rightarrow>
     ((party \<Rightarrow> 128 word share list list) \<times> (party \<Rightarrow> ('v dr_record \<times> 1 word share) list) \<times> 'v speed_cache) res" where
  "batch_tags_and_cache V net rng rng_cache keys num_live queries C =
     (let inputs = \<lambda>p. map upcast_x_to_block (queries p)
      in bindE (mapE (\<lambda>i. precompute_query C (\<lambda>p. queries p ! i)) [0..<length (queries ID0)]) (\<lambda>data.
         bindE (case those data of
             Some data \<Rightarrow> encrypt_many_inputs_with_cache V net rng keys num_live inputs (Some data)
           | None \<Rightarrow> bindE (encrypt_many_inputs_with_combined_keys net rng keys num_live inputs) (\<lambda>qs. Inr (qs, None))) (\<lambda>(qs, data).
         let precomputed = Option.bind data (\<lambda>data. those (map pd_result data))
         in bindE (cache_query_many V net rng_cache queries precomputed C) (\<lambda>(results, C).
              Inr (qs, results, C)))))"

section \<open>One input\<close>

text \<open>What a query has become after the rounds.\<close>

definition query_done :: "'v::len rows \<Rightarrow> 'v precompute_data option \<Rightarrow> 'v precompute_data option \<Rightarrow> bool" where
  "query_done rows T0 T' = (case T0 of None \<Rightarrow> T' = None
     | Some T \<Rightarrow> if rows = [] then T' = Some T else \<exists>res. T' = Some (T\<lparr>pd_result := Some res\<rparr>) \<and> rows_scanned rows res)"

lemma query_at_done: "query_at 9 rows T0 query \<Longrightarrow> query_done rows T0 (map_option fst query)"
  by (cases T0; cases "rows = []") (auto simp: query_at_def query_done_def simp del: split_paired_Ex)

lemma query_at_start:
  "target_holds T rows \<Longrightarrow> shared_list Z (differences rows) \<Longrightarrow> query_at 0 rows (Some T) (Some (start_query (T, Z)))"
  by (simp add: query_at_def start_query_def zero_values_new_ok)

lemma scanned_entries:
  assumes "rows_scanned (map (Pair q) es) r" and "in_range ones es"
  shows "scan_ok ones q es r"
proof -
  have e: "map (clear_hit (- 1) q) es = map (clear_hit ones q) es"
    using assms(2) by (auto simp: clear_hit_def in_range_def)
  show ?thesis
    using assms(1) unfolding rows_scanned_def scan_ok_def by (simp add: comp_def e split: prod.splits)
qed

lemma own_differences:
  assumes "shared_list A (map fst es)" and "shared Q q"
  shows "shared_list (\<lambda>p. map (\<lambda>addr. xor_share addr (Q p)) (A p)) (differences (map (Pair q) es))"
proof -
  have "shared_list (\<lambda>p. map (\<lambda>addr. xor_share addr (Q p)) (A p)) (map (\<lambda>a. a XOR q) (map fst es))"
    by (rule shared_list_map [OF assms(1)]) (rule shared_xor [OF _ assms(2)])
  then show ?thesis by (simp add: differences_def comp_def)
qed

lemma encrypt_with_combined_ok:
  fixes V :: "'v::len value_ops"
  assumes V: "doram_value V blk ones" "0 < num_blocks V" and K: "lane_keys K kss" and few: "length kss \<le> 8" and X: "shared X x"
    and T: "\<And>T. T0 = Some T \<Longrightarrow> target_holds T (map (Pair q) es) \<and> shared (pd_query_addr T) q"
    and env: "online net" "correlated rng"
  shows "\<exists>Y T'. encrypt_with_combined_round_keys V net rng (\<lambda>p. combine_round_keys (K p)) (length kss) X T0 = Inr (Y, T') \<and>
    shared_list Y (map (\<lambda>ks. lowmc_encrypt ks x) kss) \<and> (if kss = [] then T' = T0 else query_done (map (Pair q) es) T0 T')"
proof (cases "kss = []")
  case True
  then show ?thesis by (simp add: encrypt_with_combined_round_keys_def)
next
  case False
  let ?rows = "map (Pair q) es" and ?n = "length kss"
  let ?query = "map_option (\<lambda>target. start_query (target, \<lambda>p. map (\<lambda>addr. xor_share addr (pd_query_addr target p)) (pd_addrs target p))) T0"
  have Q: "query_at 0 ?rows T0 ?query"
  proof (cases T0)
    case (Some T)
    have h: "target_holds T ?rows" "shared (pd_query_addr T) q" using T [OF Some] by auto
    then have "shared_list (pd_addrs T) (map fst es)" by (simp add: target_holds_def comp_def)
    from query_at_start [OF h(1) own_differences [OF this h(2)]] show ?thesis by (simp add: Some)
  qed (simp add: query_at_def)
  have key: "shared_key_groups (\<lambda>p. [combine_round_keys (K p)]) 1 ((!) [?n]) (\<lambda>g j. kss ! j)"
    using combine_ok [OF K] few by (simp add: shared_key_groups_def)
  obtain wss where W: "shared_groups (\<lambda>p. [bit_slice [(X p, lane_mask ?n :: 8 word)]]) wss" "length wss = 1"
    "\<And>j. j < ?n \<Longrightarrow> lane j (wss ! 0) = x"
    using repeated_input_groups [OF X, of "[?n]"] few by auto
  have lens: "1 \<le> len \<and> len \<le> 8" if "len \<in> set [?n]" for len using that few False by (auto simp: Suc_le_eq)
  obtain Y query' where Y: "fused_lane_groups V net rng (\<lambda>p. [combine_round_keys (K p)]) (\<lambda>p. [bit_slice [(X p, lane_mask ?n)]]) [?n] ?query = Inr (Y, query')"
    "query_at 9 ?rows T0 query'" "shared_cols Y (map (\<lambda>g. map (\<lambda>j. lowmc_encrypt (kss ! j) (lane j (wss ! g))) [0..<[?n] ! g]) [0..<1])"
    using fused_lane_groups_ok [OF V key W(1,2) _ lens Q env] by auto
  have e: "map (\<lambda>j. lowmc_encrypt (kss ! j) (lane j (wss ! 0))) [0..<?n] = map (\<lambda>ks. lowmc_encrypt ks x) kss"
    by (rule nth_equalityI) (simp_all add: W(3))
  obtain y where y: "Y = (\<lambda>p. [y p])" "shared_list y (map (\<lambda>ks. lowmc_encrypt ks x) kss)"
    using Y(3) e by (auto simp: shared_cols_empty elim!: shared_cols_ConsE)
  show ?thesis
    using False few y query_at_done [OF Y(2)] by (simp add: encrypt_with_combined_round_keys_def Y(1) everywhere_def)
qed

section \<open>Several inputs\<close>

definition targets_hold :: "'v::len entries \<Rightarrow> 'v precompute_data list \<Rightarrow> 32 word list \<Rightarrow> bool" where
  "targets_hold es = list_all2 (\<lambda>T q. target_holds T (map (Pair q) es) \<and> shared (pd_query_addr T) q)"

definition all_rows :: "'v::len entries \<Rightarrow> 32 word list \<Rightarrow> 'v rows" where
  "all_rows es qs = concat (map (\<lambda>q. map (Pair q) es) qs)"

lemma all_rows_simps [simp]: "all_rows es [] = []" "all_rows es (q # qs) = map (Pair q) es @ all_rows es qs"
  by (simp_all add: all_rows_def)

lemma merged_columns:
  assumes "targets_hold es ts qs"
  shows "shared_list (\<lambda>p. concat (map (\<lambda>target. pd_addrs target p) ts)) (map (\<lambda>(q, e). fst e) (all_rows es qs))"
    and "shared_records (\<lambda>p. concat (map (\<lambda>target. pd_data target p) ts)) (map snd (map snd (all_rows es qs)))"
    and "shared_list (\<lambda>p. concat (map (\<lambda>target. map (\<lambda>x. xor_share x (pd_query_addr target p)) (pd_addrs target p)) ts)) (differences (all_rows es qs))"
proof -
  have "shared_list (\<lambda>p. concat (map (\<lambda>target. pd_addrs target p) ts)) (map (\<lambda>(q, e). fst e) (all_rows es qs)) \<and>
    shared_records (\<lambda>p. concat (map (\<lambda>target. pd_data target p) ts)) (map snd (map snd (all_rows es qs))) \<and>
    shared_list (\<lambda>p. concat (map (\<lambda>target. map (\<lambda>x. xor_share x (pd_query_addr target p)) (pd_addrs target p)) ts)) (differences (all_rows es qs))"
    using assms unfolding targets_hold_def
  proof (induction rule: list_all2_induct)
    case Nil
    then show ?case by (simp add: shared_records_def differences_def)
  next
    case (Cons T ts q qs)
    have a: "shared_list (pd_addrs T) (map (\<lambda>(q, e). fst e) (map (Pair q) es))" "shared_records (pd_data T) (map snd (map snd (map (Pair q) es)))"
      using Cons.hyps(1) unfolding target_holds_def by blast+
    have "shared_list (pd_addrs T) (map fst es)" using a(1) by (simp add: comp_def)
    note d = own_differences [OF this conjunct2 [OF Cons.hyps(1)]]
    show ?case
      using shared_list_append [OF a(1) conjunct1 [OF Cons.IH]] shared_records_append [OF a(2) conjunct1 [OF conjunct2 [OF Cons.IH]]]
        shared_list_append [OF d conjunct2 [OF conjunct2 [OF Cons.IH]]]
      by (simp add: differences_def)
  qed
  then show "shared_list (\<lambda>p. concat (map (\<lambda>target. pd_addrs target p) ts)) (map (\<lambda>(q, e). fst e) (all_rows es qs))"
    "shared_records (\<lambda>p. concat (map (\<lambda>target. pd_data target p) ts)) (map snd (map snd (all_rows es qs)))"
    "shared_list (\<lambda>p. concat (map (\<lambda>target. map (\<lambda>x. xor_share x (pd_query_addr target p)) (pd_addrs target p)) ts)) (differences (all_rows es qs))"
    by blast+
qed

lemma merge_ok:
  assumes "targets_hold es ts qs"
  shows "\<exists>M Z. merge_speed_caches ts = Inr (M, Z) \<and> target_holds M (all_rows es qs) \<and> shared_list Z (differences (all_rows es qs))"
proof -
  note m = merged_columns [OF assms]
  have "everywhere (\<lambda>p. length (concat (map (\<lambda>target. pd_addrs target p) ts)) = length (concat (map (\<lambda>target. pd_data target p) ts)))"
    using shared_listD(1) [OF m(1)] shared_recordsD(1) [OF m(2)] by (simp add: everywhere_def)
  then show ?thesis using m by (simp add: merge_speed_caches_def precompute_new_def target_holds_def)
qed

lemma take_prefixes:
  assumes "\<And>p. length (values p) = n + m p"
  shows "each_party (\<lambda>p. take_prefix n (values p)) = Inr (\<lambda>p. (take n (values p), drop n (values p)))"
  by (rule each_party_Inr) (simp add: take_prefix_def assms)

lemma shared_records_take: "shared_records R ys \<Longrightarrow> shared_records (\<lambda>p. take n (R p)) (take n ys)"
  and shared_records_drop: "shared_records R ys \<Longrightarrow> shared_records (\<lambda>p. drop n (R p)) (drop n ys)"
  by (simp_all add: shared_records_def)

lemma split_result_ok:
  assumes "targets_hold es ts qs" and "rows_scanned (all_rows es qs) r"
  shows "\<exists>ts'. split_speed_cache_result ts r = Inr ts' \<and>
    list_all2 (\<lambda>T q. \<exists>res. pd_result T = Some res \<and> rows_scanned (map (Pair q) es) res) ts' qs"
  using assms unfolding targets_hold_def
proof (induction arbitrary: r rule: list_all2_induct)
  case (Cons T ts q qs)
  obtain x y f where r: "r = (x, y, f)" by (cases r)
  let ?n = "length es"
  have x: "shared_list x (map (\<lambda>(q, e). if fst e = q then fst e else 0) (map (Pair q) es) @ map (\<lambda>(q, e). if fst e = q then fst e else 0) (all_rows es qs))"
    and y: "shared_records y (map (\<lambda>(q, e). clear_hit (NOT 0) q e) (map (Pair q) es) @ map (\<lambda>(q, e). clear_hit (NOT 0) q e) (all_rows es qs))"
    and f: "shared_list f (map (\<lambda>(q, e). of_bool (fst e = q)) (map (Pair q) es) @ map (\<lambda>(q, e). of_bool (fst e = q)) (all_rows es qs))"
    using Cons.prems unfolding r rows_scanned_def prod.case all_rows_simps map_append by blast+
  have n: "length (pd_addrs T p) = ?n" for p
    using Cons.hyps(1) shared_listD(1) [of "pd_addrs T" "map (\<lambda>(q, e). fst e) (map (Pair q) es)" p] by (simp add: target_holds_def)
  have pre: "each_party (\<lambda>p. take_prefix (length (pd_addrs T p)) (x p)) = Inr (\<lambda>p. (take ?n (x p), drop ?n (x p)))"
    "each_party (\<lambda>p. take_prefix (length (pd_addrs T p)) (y p)) = Inr (\<lambda>p. (take ?n (y p), drop ?n (y p)))"
    "each_party (\<lambda>p. take_prefix (length (pd_addrs T p)) (f p)) = Inr (\<lambda>p. (take ?n (f p), drop ?n (f p)))"
    using shared_listD(1) [OF x] shared_recordsD(1) [OF y] shared_listD(1) [OF f]
    unfolding n by (intro take_prefixes; simp)+
  have here: "rows_scanned (map (Pair q) es) (\<lambda>p. take ?n (x p), \<lambda>p. take ?n (y p), \<lambda>p. take ?n (f p))"
    using shared_list_take [OF x, of ?n] shared_records_take [OF y, of ?n] shared_list_take [OF f, of ?n] by (simp add: rows_scanned_def)
  have rest: "rows_scanned (all_rows es qs) (\<lambda>p. drop ?n (x p), \<lambda>p. drop ?n (y p), \<lambda>p. drop ?n (f p))"
    using shared_list_drop [OF x, of ?n] shared_records_drop [OF y, of ?n] shared_list_drop [OF f, of ?n] by (simp add: rows_scanned_def)
  obtain ts' where "split_speed_cache_result ts (\<lambda>p. drop ?n (x p), \<lambda>p. drop ?n (y p), \<lambda>p. drop ?n (f p)) = Inr ts'"
    "list_all2 (\<lambda>T q. \<exists>res. pd_result T = Some res \<and> rows_scanned (map (Pair q) es) res) ts' qs"
    using Cons.IH [OF rest] by blast
  then show ?case using here by (auto simp add: r pre simp del: split_paired_Ex)
qed simp

lemma encrypt_inputs_with_cache_ok:
  fixes V :: "'v::len value_ops"
  assumes V: "doram_value V blk ones" "0 < num_blocks V" and Q: "lane_keys Q kss" and len: "length kss = L * length xs"
    and X: "shared_list X xs" and T: "targets_hold es ts qs" "length qs = length xs" and ne: "es \<noteq> []" and env: "online net" "correlated rng"
  shows "\<exists>Y ts'. encrypt_many_inputs_with_cache V net rng (\<lambda>p. map combine_round_keys (chunks 8 (Q p))) L X (Some ts) = Inr (Y, Some ts') \<and>
    shared_cols Y (map (\<lambda>i. map (\<lambda>l. lowmc_encrypt (kss ! (i * L + l)) (xs ! i)) [0..<L]) [0..<length xs]) \<and>
    (if L = 0 \<or> xs = [] then ts' = ts
     else list_all2 (\<lambda>T q. \<exists>res. pd_result T = Some res \<and> rows_scanned (map (Pair q) es) res) ts' qs)"
proof (cases "L = 0 \<or> xs = []")
  case True
  then have "shared_cols (\<lambda>p. replicate (length (X p)) []) (map (\<lambda>i. map (\<lambda>l. lowmc_encrypt (kss ! (i * L + l)) (xs ! i)) [0..<L]) [0..<length xs])"
    using shared_listD(1) [OF X] by (auto simp: shared_cols_def)
  moreover have "L = 0 \<or> X ID0 = []" using True shared_listD(1) [OF X, of ID0] by auto
  ultimately show ?thesis using True by (simp add: encrypt_many_inputs_with_cache_def)
next
  case False
  then have L: "0 < L" and ne': "X ID0 \<noteq> []" using shared_listD(1) [OF X, of ID0] by auto
  let ?n = "(L * length xs + 7) div 8" and ?K = "\<lambda>p. map combine_round_keys (chunks 8 (Q p))" and ?lens = "group_lens (L * length xs)"
  let ?rows = "all_rows es qs"
  have l: "length (X p) = length xs" "length (?K p) = ?n" for p
    using shared_listD(1) [OF X] Q len by (simp_all add: lane_keys_def chunks_length add.commute)
  obtain M Z where M: "merge_speed_caches ts = Inr (M, Z)" "target_holds M ?rows" "shared_list Z (differences ?rows)"
    using merge_ok [OF T(1)] by blast
  have rows: "?rows \<noteq> []" using ne T(2) False by (cases qs) auto
  obtain wss where W: "shared_groups (\<lambda>p. fst (slice_input_groups ?n L (X p))) wss" "length wss = ?n"
    "\<And>g j. g < ?n \<Longrightarrow> j < min 8 (L * length xs - g * 8) \<Longrightarrow> lane j (wss ! g) = xs ! ((g * 8 + j) div L)"
    using input_groups_ok [OF X L] by blast
  obtain Y query where Y: "fused_lane_groups V net rng ?K (\<lambda>p. fst (slice_input_groups ?n L (X p))) ?lens (Some (start_query (M, Z))) = Inr (Y, query)"
    "query_at 9 ?rows (Some M) query"
    "shared_cols Y (map (\<lambda>g. map (\<lambda>j. lowmc_encrypt (kss ! (g * 8 + j)) (lane j (wss ! g))) [0..<?lens ! g]) [0..<?n])"
    using fused_lane_groups_ok [OF V input_keys [OF Q, unfolded len] W(1,2) group_lens_simps(1) group_lens_bounds [of _ "L * length xs"]
        query_at_start [OF M(2,3)] env] by blast
  obtain R where R: "each_party (\<lambda>p. regroup_tags_by_input (Y p) L (length (X p))) = Inr R"
    "shared_cols R (map (\<lambda>i. map (\<lambda>l. lowmc_encrypt (kss ! (i * L + l)) (xs ! i)) [0..<L]) [0..<length xs])"
    using outputs_regrouped [where X = X, OF L l(1) Y(3)] W(3) by blast
  obtain res Z' where res: "query = Some (M\<lparr>pd_result := Some res\<rparr>, Z')" "rows_scanned ?rows res"
    using Y(2) rows by (auto simp: query_at_def simp del: split_paired_Ex)
  obtain ts' where ts': "split_speed_cache_result ts res = Inr ts'"
    "list_all2 (\<lambda>T q. \<exists>res. pd_result T = Some res \<and> rows_scanned (map (Pair q) es) res) ts' qs"
    using split_result_ok [OF T(1) res(2)] by blast
  have g: "everywhere (\<lambda>p. length (?K p) = (L * length (X ID0) + 7) div 8)" using l by (simp add: everywhere_def)
  have "encrypt_many_inputs_with_cache V net rng ?K L X (Some ts) = Inr (R, Some ts')"
    unfolding encrypt_many_inputs_with_cache_def Let_def checkE_True [OF g]
    using ne' L R(1) Y(1) input_lens [of L "X ID0"] l by (simp add: M(1) res(1) ts'(1))
  then show ?thesis using R(2) ts'(2) False by auto
qed

section \<open>The cache with a scan on board\<close>

lemma precompute_ok':
  assumes C: "cache_holds C es" and Q: "shared Q q"
  shows "if es = [] then precompute_query C Q = Inr None
    else \<exists>T. precompute_query C Q = Inr (Some T) \<and> target_holds T (map (Pair q) es) \<and> shared (pd_query_addr T) q \<and> pd_result T = None"
proof -
  let ?n = "sc_num_stored C"
  have h: "length es = ?n" "shared_list (\<lambda>p. take ?n (sc_addrs C p)) (map fst es)" "shared_records (\<lambda>p. take ?n (sc_data C p)) (map snd es)"
    using C by (auto simp: cache_holds_def)
  then have "everywhere (\<lambda>p. length (take ?n (sc_addrs C p)) = length (take ?n (sc_data C p)))"
    using shared_listD(1) [OF h(2)] shared_recordsD(1) [OF h(3)] by (simp add: everywhere_def)
  then show ?thesis using h Q by (auto simp: precompute_query_def precompute_new_def target_holds_def comp_def)
qed

lemma precompute_many:
  assumes C: "cache_holds C es" and Q: "shared_list Q qs" and ne: "es \<noteq> []"
  shows "\<exists>ts. mapE (\<lambda>i. precompute_query C (\<lambda>p. Q p ! i)) [0..<length qs] = Inr (map Some ts) \<and> targets_hold es ts qs \<and>
    (\<forall>T \<in> set ts. pd_result T = None)"
proof -
  have "\<exists>T. precompute_query C (\<lambda>p. Q p ! i) = Inr (Some T) \<and> target_holds T (map (Pair (qs ! i)) es) \<and> shared (pd_query_addr T) (qs ! i) \<and> pd_result T = None"
    if "i < length qs" for i using precompute_ok' [OF C shared_listD(2) [OF Q that]] ne by simp
  then obtain t where t: "\<And>i. i < length qs \<Longrightarrow> precompute_query C (\<lambda>p. Q p ! i) = Inr (Some (t i)) \<and>
      target_holds (t i) (map (Pair (qs ! i)) es) \<and> shared (pd_query_addr (t i)) (qs ! i) \<and> pd_result (t i) = None" by metis
  have "mapE (\<lambda>i. precompute_query C (\<lambda>p. Q p ! i)) [0..<length qs] = Inr (map (\<lambda>i. Some (t i)) [0..<length qs])"
    by (rule mapE_total) (simp add: t)
  moreover have "targets_hold es (map t [0..<length qs]) qs" using t by (simp add: targets_hold_def list_all2_conv_all_nth)
  ultimately show ?thesis using t by (intro exI [of _ "map t [0..<length qs]"]) (auto simp: comp_def)
qed

lemma those_Some [simp]: "those (map Some xs) = Some xs"
  by (induction xs) simp_all

lemma those_None: "None \<in> set xs \<Longrightarrow> those xs = None"
  by (induction xs) (auto split: option.splits)

lemma query_pre_ok:
  fixes V :: "'v::len value_ops"
  assumes V: "doram_value V blk ones" "0 < num_blocks V" and K: "lane_keys K kss" "length kss \<le> 8"
    and C: "cache_holds C es" "in_range ones es" and Q: "shared Q q" and env: "online net" "correlated rng"
  shows "\<exists>data tags data'. precompute_query C Q = Inr data \<and>
    encrypt_with_combined_round_keys V net rng (\<lambda>p. combine_round_keys (K p)) (length kss) (\<lambda>p. upcast_x_to_block (Q p)) data = Inr (tags, data') \<and>
    shared_list tags (map (\<lambda>ks. lowmc_encrypt ks (ucast q)) kss) \<and>
    (\<forall>r. Option.bind data' pd_result = Some r \<longrightarrow> scan_ok ones q es r)"
proof -
  have X: "shared (\<lambda>p. upcast_x_to_block (Q p)) (ucast q)" unfolding upcast_x_to_block_def by (rule shared_cast [OF Q])
  obtain data where data: "precompute_query C Q = Inr data" "data = None \<longleftrightarrow> es = []"
    "\<And>T. data = Some T \<Longrightarrow> target_holds T (map (Pair q) es) \<and> shared (pd_query_addr T) q \<and> pd_result T = None"
    using precompute_ok' [OF C(1) Q] by (cases "es = []") auto
  obtain tags data' where run: "encrypt_with_combined_round_keys V net rng (\<lambda>p. combine_round_keys (K p)) (length kss) (\<lambda>p. upcast_x_to_block (Q p)) data = Inr (tags, data')"
    "shared_list tags (map (\<lambda>ks. lowmc_encrypt ks (ucast q)) kss)" "if kss = [] then data' = data else query_done (map (Pair q) es) data data'"
    using encrypt_with_combined_ok [OF V K X _ env, of data q es] data(3) by blast
  have "scan_ok ones q es r" if h: "Option.bind data' pd_result = Some r" for r
  proof -
    obtain T' where T': "data' = Some T'" "pd_result T' = Some r" using h by (cases data') auto
    then obtain T where T: "data = Some T" using run(3) by (auto simp: query_done_def split: if_splits option.splits)
    then have "es \<noteq> []" "pd_result T = None" using data by auto
    then obtain res where "T' = T\<lparr>pd_result := Some res\<rparr>" "rows_scanned (map (Pair q) es) res"
      using run(3) T T' by (auto simp: query_done_def simp del: split_paired_Ex split: if_splits)
    then show ?thesis using T'(2) scanned_entries [OF _ C(2)] by auto
  qed
  then show ?thesis using data(1) run(1,2) by blast
qed

lemma batch_pre_ok:
  fixes V :: "'v::len value_ops"
  assumes V: "doram_value V blk ones" "0 < num_blocks V" and K: "lane_keys K kss" "length kss = L * length qs"
    and C: "cache_holds C es" "in_range ones es" and Q: "shared_list Q qs" and env: "online net" "correlated rng"
  shows "\<exists>data tags data'. mapE (\<lambda>i. precompute_query C (\<lambda>p. Q p ! i)) [0..<length (Q ID0)] = Inr data \<and>
    (case those data of
        Some data \<Rightarrow> encrypt_many_inputs_with_cache V net rng (\<lambda>p. map combine_round_keys (chunks 8 (K p))) L (\<lambda>p. map upcast_x_to_block (Q p)) (Some data)
      | None \<Rightarrow> bindE (encrypt_many_inputs_with_combined_keys net rng (\<lambda>p. map combine_round_keys (chunks 8 (K p))) L (\<lambda>p. map upcast_x_to_block (Q p)))
          (\<lambda>qs. Inr (qs, None))) = Inr (tags, data') \<and>
    shared_cols tags (map (\<lambda>i. map (\<lambda>l. lowmc_encrypt (kss ! (i * L + l)) (ucast (qs ! i))) [0..<L]) [0..<length qs]) \<and>
    precomputed_ok ones qs es (Option.bind data' (\<lambda>data. those (map pd_result data)))"
proof -
  let ?xs = "map ucast qs :: 128 word list" and ?X = "\<lambda>p. map upcast_x_to_block (Q p)"
  let ?tags = "map (\<lambda>i. map (\<lambda>l. lowmc_encrypt (kss ! (i * L + l)) (ucast (qs ! i))) [0..<L]) [0..<length qs]"
  have lq: "length (Q p) = length qs" for p using shared_listD(1) [OF Q] .
  have X: "shared_list ?X ?xs" using upcast_x_shared [OF Q] by (simp add: upcast_x_to_block_many_def)
  have tags: "map (\<lambda>i. map (\<lambda>l. lowmc_encrypt (kss ! (i * L + l)) (?xs ! i)) [0..<L]) [0..<length ?xs] = ?tags"
    by (simp cong: map_cong)
  have len: "length kss = L * length ?xs" using K(2) by simp
  show ?thesis
  proof (cases "es = [] \<and> qs \<noteq> []")
    case True
    have "mapE (\<lambda>i. precompute_query C (\<lambda>p. Q p ! i)) [0..<length qs] = Inr (map (\<lambda>i. None) [0..<length qs])"
      by (rule mapE_total) (use True precompute_ok' [OF C(1) shared_listD(2) [OF Q]] in simp)
    moreover have "those (map (\<lambda>i. None) [0..<length qs]) = (None :: 'v precompute_data list option)"
      using True by (simp add: upt_conv_Cons)
    moreover obtain Y where "encrypt_many_inputs_with_combined_keys net rng (\<lambda>p. map combine_round_keys (chunks 8 (K p))) L ?X = Inr Y" "shared_cols Y ?tags"
      using encrypt_inputs_ok [OF K(1) len X env] unfolding tags by blast
    ultimately show ?thesis by (simp add: lq precomputed_ok_def)
  next
    case False
    have "\<exists>ts. mapE (\<lambda>i. precompute_query C (\<lambda>p. Q p ! i)) [0..<length qs] = Inr (map Some ts) \<and> targets_hold es ts qs \<and> (\<forall>T \<in> set ts. pd_result T = None)"
      using False precompute_many [OF C(1) Q] by (cases "es = []") (auto simp: targets_hold_def)
    then obtain ts where ts: "mapE (\<lambda>i. precompute_query C (\<lambda>p. Q p ! i)) [0..<length qs] = Inr (map Some ts)" "targets_hold es ts qs"
      "\<forall>T \<in> set ts. pd_result T = None" by blast
    have lts: "length ts = length qs" using ts(2) unfolding targets_hold_def by (rule list_all2_lengthD)
    have "\<exists>Y ts'. encrypt_many_inputs_with_cache V net rng (\<lambda>p. map combine_round_keys (chunks 8 (K p))) L ?X (Some ts) = Inr (Y, Some ts') \<and>
        shared_cols Y ?tags \<and> precomputed_ok ones qs es (those (map pd_result ts'))"
    proof (cases "es = []")
      case True
      then have "qs = []" "ts = []" using False lts by auto
      then have e: "encrypt_many_inputs_with_cache V net rng (\<lambda>p. map combine_round_keys (chunks 8 (K p))) L ?X (Some ts) = Inr (\<lambda>p. [], Some [])"
        using lq by (simp add: encrypt_many_inputs_with_cache_def)
      show ?thesis unfolding e using \<open>qs = []\<close> by (simp add: precomputed_ok_def)
    next
      case ne: False
      obtain Y ts' where Y: "encrypt_many_inputs_with_cache V net rng (\<lambda>p. map combine_round_keys (chunks 8 (K p))) L ?X (Some ts) = Inr (Y, Some ts')"
        "shared_cols Y ?tags" "if L = 0 \<or> ?xs = [] then ts' = ts
          else list_all2 (\<lambda>T q. \<exists>res. pd_result T = Some res \<and> rows_scanned (map (Pair q) es) res) ts' qs"
        using encrypt_inputs_with_cache_ok [OF V K(1) len X ts(2) _ ne env] unfolding tags by auto
      have "precomputed_ok ones qs es (those (map pd_result ts'))"
      proof (cases "L = 0 \<or> qs = []")
        case True
        then have "ts' = ts" using Y(3) by auto
        then have "those (map pd_result ts') = None" if "qs \<noteq> []" using ts(3) that lts by (intro those_None) (cases ts; auto)
        then show ?thesis using \<open>ts' = ts\<close> lts by (cases "qs = []") (auto simp: precomputed_ok_def)
      next
        case r: False
        then have r: "list_all2 (\<lambda>T q. \<exists>res. pd_result T = Some res \<and> rows_scanned (map (Pair q) es) res) ts' qs" using Y(3) by simp
        define rs where "rs = map (the \<circ> pd_result) ts'"
        have l: "length ts' = length qs" using r by (rule list_all2_lengthD)
        have r': "pd_result (ts' ! k) = Some (rs ! k) \<and> scan_ok ones (qs ! k) es (rs ! k)" if k: "k < length qs" for k
        proof -
          obtain res where "pd_result (ts' ! k) = Some res" "rows_scanned (map (Pair (qs ! k)) es) res"
            using list_all2_nthD2 [OF r k] by blast
          then show ?thesis using scanned_entries [OF _ C(2)] l k by (simp add: rs_def)
        qed
        then have "map pd_result ts' = map Some rs" using l by (intro nth_equalityI) (auto simp: rs_def)
        then have e: "those (map pd_result ts') = Some rs" by (simp only: those_Some)
        show ?thesis unfolding e using r' l by (simp add: precomputed_ok_def) (simp add: rs_def)
      qed
      then show ?thesis using Y(1,2) by blast
    qed
    then show ?thesis using ts(1) by (auto simp: lq)
  qed
qed

section \<open>The cache's answer\<close>

lemma query_tags_and_cache_ok:
  fixes V :: "'v::len value_ops"
  assumes V: "doram_value V blk ones" "0 < num_blocks V" and K: "lane_keys K kss" "length kss \<le> 8"
    and C: "cache_refines ones C m" and Q: "shared Q q" and real: "real_address (sc_log_address_space_size C) q"
    and env: "online net" "correlated rng" "correlated rng_cache"
  shows "\<exists>tags y found C'. query_tags_and_cache V net rng rng_cache (\<lambda>p. combine_round_keys (K p)) (length kss) Q C = Inr (tags, y, found, C') \<and>
    shared_list tags (map (\<lambda>ks. lowmc_encrypt ks (ucast q)) kss) \<and>
    shared_record y (fst (lookup_result (m q))) \<and> shared found (snd (lookup_result (m q))) \<and>
    cache_refines ones C' (m(q := None)) \<and> sc_num_stored C' = sc_num_stored C \<and> sc_length C' = sc_length C \<and>
    sc_log_address_space_size C' = sc_log_address_space_size C"
proof -
  let ?log = "sc_log_address_space_size C"
  obtain es where log: "?log < 32" and es: "cache_holds C es" "in_range ones es" "no_duplicates ?log es"
    and m: "m = cache_map ?log es" using C by (auto simp: cache_refines_def)
  obtain data tags data' where run: "precompute_query C Q = Inr data"
    "encrypt_with_combined_round_keys V net rng (\<lambda>p. combine_round_keys (K p)) (length kss) (\<lambda>p. upcast_x_to_block (Q p)) data = Inr (tags, data')"
    "shared_list tags (map (\<lambda>ks. lowmc_encrypt ks (ucast q)) kss)" "\<forall>r. Option.bind data' pd_result = Some r \<longrightarrow> scan_ok ones q es r"
    using query_pre_ok [OF V K es(1,2) Q env(1,2)] by blast
  then show ?thesis
    using cache_query_entries [OF V(1) log es m _ Q real env(1,3), of "Option.bind data' pd_result"]
    by (auto simp: query_tags_and_cache_def simp del: split_paired_Ex)
qed

section \<open>Properties\<close>

text \<open>C6: One run of the cipher's rounds serves an access: it gives the tags of the address under the
  keys of all live levels, and with the scan it carried along the cache answers the query as the map
  it stands for: the record found (or zero), the found bit, and the entry gone afterwards. Without
  live levels nothing is encrypted and the cache compares the addresses itself.\<close>

theorem fused_query_serves_cache:
  fixes V :: "'v::len value_ops"
  assumes "doram_value V blk ones" and "0 < num_blocks V" and "shared_keys K kss" and "length kss \<le> 8"
    and "cache_refines ones C m" and "shared Q q" and "real_address (sc_log_address_space_size C) q"
    and "online net" and "correlated rng" and "correlated rng_cache"
  shows "\<exists>tags y found C'. bindE (each_party (\<lambda>p. mapE precompute_round_keys (K p))) (\<lambda>keys.
      query_tags_and_cache V net rng rng_cache (\<lambda>p. combine_round_keys (keys p)) (length kss) Q C) = Inr (tags, y, found, C') \<and>
    shared_list tags (map (\<lambda>ks. lowmc_encrypt ks (ucast q)) kss) \<and>
    shared_record y (fst (lookup_result (m q))) \<and> shared found (snd (lookup_result (m q))) \<and>
    cache_refines ones C' (m(q := None))"
proof -
  obtain keys where keys: "each_party (\<lambda>p. mapE precompute_round_keys (K p)) = Inr keys" "lane_keys keys kss"
    using precompute_ok [OF assms(3)] by blast
  from query_tags_and_cache_ok [OF assms(1,2) keys(2) assms(4-10)] show ?thesis
    by (simp add: keys(1)) blast
qed

theorem fused_query_serves_cache_witness:
  "\<exists>(C :: 32 speed_cache) tags y found C'.
    bindE (each_party (\<lambda>p. mapE precompute_round_keys (replicate 3 (promote_public_values p (replicate 10 7))))) (\<lambda>keys.
      query_tags_and_cache ring_value all_online zero_rng zero_rng (\<lambda>p. combine_round_keys (keys p)) 3 (\<lambda>p. promote_public p 9) C) =
        Inr (tags, y, found, C') \<and>
    shared_list tags (replicate 3 (lowmc_encrypt (replicate 10 7) 9)) \<and> shared_record y (8, 0) \<and> shared found 1 \<and>
    cache_refines (NOT 0) C' [5 \<mapsto> (7, 0)]"
proof -
  obtain C where C: "cache_refines (NOT 0) C [5 \<mapsto> (7 :: 32 word, 0), 9 \<mapsto> (8, 0)]"
    and log: "sc_log_address_space_size C = 5" by (rule small_cache)
  have k: "shared_keys (\<lambda>p. replicate 3 (promote_public_values p (replicate 10 7))) (replicate 3 (replicate 10 7))"
    by (rule shared_keys_replicate [OF promote_public_values_shared]) simp
  have real: "real_address (sc_log_address_space_size C) 9" by (simp add: log real_address_def bit_iff_odd)
  have m: "[5 :: 32 word \<mapsto> (7 :: 32 word, 0 :: 8 word), 9 \<mapsto> (8, 0)](9 := None) = [5 \<mapsto> (7, 0)]" by (simp add: fun_eq_iff)
  show ?thesis
    using fused_query_serves_cache [OF u32_value.doram_value_axioms _ k _ C shared_promote_public [of 9] real
        concrete_environment(1) concrete_environment(2) concrete_environment(2)]
    by (simp add: ring_value_def lookup_result_def m) blast
qed

text \<open>C18: The same for a chunk of queries at distinct addresses: the tags come back by query and live
  level, and each query is answered by the map the cache stands for, from which all of them are
  removed.\<close>

theorem fused_batch_serves_cache:
  fixes V :: "'v::len value_ops"
  assumes "doram_value V blk ones" and "0 < num_blocks V" and "shared_keys K kss" and "length kss = num_live * length qs"
    and "cache_refines ones C m" and "shared_list Q qs" and "distinct qs"
    and "\<forall>q \<in> set qs. real_address (sc_log_address_space_size C) q"
    and "online net" and "correlated rng" and "correlated rng_cache"
  shows "\<exists>tags R C'. bindE (each_party (\<lambda>p. mapE precompute_round_keys (K p))) (\<lambda>keys.
      batch_tags_and_cache V net rng rng_cache (\<lambda>p. map combine_round_keys (chunks 8 (keys p))) num_live Q C) = Inr (tags, R, C') \<and>
    shared_cols tags (map (\<lambda>i. map (\<lambda>level. lowmc_encrypt (kss ! (i * num_live + level)) (ucast (qs ! i))) [0..<num_live]) [0..<length qs]) \<and>
    (\<forall>k < length qs. shared_record (\<lambda>p. fst (R p ! k)) (fst (lookup_result (m (qs ! k)))) \<and>
       shared (\<lambda>p. snd (R p ! k)) (snd (lookup_result (m (qs ! k))))) \<and>
    cache_refines ones C' (m |` (- set qs))"
proof -
  let ?log = "sc_log_address_space_size C"
  obtain es where log: "?log < 32" and es: "cache_holds C es" "in_range ones es" "no_duplicates ?log es"
    and m: "m = cache_map ?log es" using assms(5) by (auto simp: cache_refines_def)
  obtain keys where keys: "each_party (\<lambda>p. mapE precompute_round_keys (K p)) = Inr keys" "lane_keys keys kss"
    using precompute_ok [OF assms(3)] by blast
  from batch_pre_ok [OF assms(1,2) keys(2) assms(4) es(1,2) assms(6,9,10)]
  obtain data tags data' where run: "mapE (\<lambda>i. precompute_query C (\<lambda>p. Q p ! i)) [0..<length (Q ID0)] = Inr data"
    "(case those data of
        Some data \<Rightarrow> encrypt_many_inputs_with_cache V net rng (\<lambda>p. map combine_round_keys (chunks 8 (keys p))) num_live (\<lambda>p. map upcast_x_to_block (Q p)) (Some data)
      | None \<Rightarrow> bindE (encrypt_many_inputs_with_combined_keys net rng (\<lambda>p. map combine_round_keys (chunks 8 (keys p))) num_live (\<lambda>p. map upcast_x_to_block (Q p)))
          (\<lambda>qs. Inr (qs, None))) = Inr (tags, data')"
    "shared_cols tags (map (\<lambda>i. map (\<lambda>level. lowmc_encrypt (kss ! (i * num_live + level)) (ucast (qs ! i))) [0..<num_live]) [0..<length qs])"
    "precomputed_ok ones qs es (Option.bind data' (\<lambda>data. those (map pd_result data)))"
    by blast
  obtain R C' where "cache_query_many V net rng_cache Q (Option.bind data' (\<lambda>data. those (map pd_result data))) C = Inr (R, C')"
    "\<forall>k < length qs. shared_record (\<lambda>p. fst (R p ! k)) (fst (lookup_result (m (qs ! k)))) \<and>
       shared (\<lambda>p. snd (R p ! k)) (snd (lookup_result (m (qs ! k))))" "cache_refines ones C' (m |` (- set qs))"
    using cache_query_many_entries [OF assms(1) log es m run(4) assms(6,7,8,9,11)] by blast
  then show ?thesis using run(3) by (simp add: batch_tags_and_cache_def Let_def keys(1) run(1,2))
qed

theorem fused_batch_serves_cache_witness:
  "\<exists>(C :: 32 speed_cache) tags R C'.
    bindE (each_party (\<lambda>p. mapE precompute_round_keys (replicate 10 (promote_public_values p (replicate 10 7))))) (\<lambda>keys.
      batch_tags_and_cache ring_value all_online zero_rng zero_rng (\<lambda>p. map combine_round_keys (chunks 8 (keys p))) 5
        (\<lambda>p. promote_public_values p [9, 3]) C) = Inr (tags, R, C') \<and>
    shared_record (\<lambda>p. fst (R p ! 0)) (8, 0) \<and> shared (\<lambda>p. snd (R p ! 1)) 0 \<and> cache_refines (NOT 0) C' [5 \<mapsto> (7, 0)]"
proof -
  obtain C where C: "cache_refines (NOT 0) C [5 \<mapsto> (7 :: 32 word, 0), 9 \<mapsto> (8, 0)]"
    and log: "sc_log_address_space_size C = 5" by (rule small_cache)
  let ?m = "[5 \<mapsto> (7, 0), 9 \<mapsto> (8, 0)] :: 32 word \<rightharpoonup> 32 clear_record"
  have k: "shared_keys (\<lambda>p. replicate 10 (promote_public_values p (replicate 10 7))) (replicate 10 (replicate 10 7))"
    by (rule shared_keys_replicate [OF promote_public_values_shared]) simp
  have real: "distinct [9, 3 :: 32 word]" "\<forall>q \<in> set [9, 3]. real_address (sc_log_address_space_size C) q"
    by (simp_all add: log real_address_def bit_iff_odd)
  have "0 < num_blocks (ring_value :: 32 value_ops)" "length (replicate 10 (replicate 10 (7 :: 128 word))) = 5 * length [9, 3 :: 32 word]"
    by (simp_all add: ring_value_def)
  from fused_batch_serves_cache [OF u32_value.doram_value_axioms this(1) k this(2) C promote_public_values_shared real
      concrete_environment(1) concrete_environment(2) concrete_environment(2)]
  obtain tags R C' where run: "bindE (each_party (\<lambda>p. mapE precompute_round_keys (replicate 10 (promote_public_values p (replicate 10 7))))) (\<lambda>keys.
      batch_tags_and_cache ring_value all_online zero_rng zero_rng (\<lambda>p. map combine_round_keys (chunks 8 (keys p))) 5
        (\<lambda>p. promote_public_values p [9, 3]) C) = Inr (tags, R, C')"
    and res: "\<forall>k < length [9, 3 :: 32 word]. shared_record (\<lambda>p. fst (R p ! k)) (fst (lookup_result (?m ([9, 3] ! k)))) \<and>
      shared (\<lambda>p. snd (R p ! k)) (snd (lookup_result (?m ([9, 3] ! k))))" and C': "cache_refines (NOT 0) C' (?m |` (- set [9, 3]))"
    by blast
  have "?m |` (- set [9, 3]) = [5 \<mapsto> (7, 0)]" by (auto simp: restrict_map_def fun_eq_iff)
  moreover have "shared_record (\<lambda>p. fst (R p ! 0)) (8, 0)" "shared (\<lambda>p. snd (R p ! 1)) 0"
    using res [rule_format, of 0] res [rule_format, of 1] by (simp_all add: lookup_result_def)
  ultimately show ?thesis using run C' by (metis (no_types, lifting))
qed

end
