(* ===== verification/Lowmc_Sliced.thy ===== *)
theory Lowmc_Sliced
  imports Lowmc_Wires
begin

text \<open>
  Bit-sliced LowMC, \<open>crates/circuits/src/lowmc/bit_sliced.rs\<close>: up to 128 blocks in the lanes of 128
  wires, the S-boxes of all slices in one batch of ANDs, and the linear layer by the method of the
  four Russians on wires. The backend's \<open>binary::and_vec\<close> is a parameter, one function per round
  because every call draws fresh randomness; what is relied on is \<open>and_protocol\<close>.
\<close>

unbundle bit_operations_syntax

section \<open>The linear layer on wires\<close>

definition fill_out_lut :: "128 word share list \<Rightarrow> 128 word share list" where
  "fill_out_lut input = fold (\<lambda>i lut. lut[i := xor_share (lut ! (i - 1)) (input ! trailing_zeros i)])
     [1..<16] (replicate 16 zero_share)"

definition four_russians_window :: "nat \<Rightarrow> 128 word share list \<Rightarrow> nat \<Rightarrow> 128 word share list \<Rightarrow> 128 word share list" where
  "four_russians_window round input window output =
     (let lut = fill_out_lut (take 4 (drop (window * 4) input))
      in map2 (\<lambda>output_wire output_bit.
           let selected = lut ! mask_at round window output_wire
           in if window = 0 then selected else xor_share output_bit selected) [0..<128] output)"

definition four_russians_matrix_mult :: "nat \<Rightarrow> 128 word share list \<Rightarrow> 128 word share list" where
  "four_russians_matrix_mult round input =
     fold (four_russians_window round input) [0..<32] (replicate 128 zero_share)"

text \<open>The entry at position \<open>m\<close> is the sum of the wires that the Gray code of \<open>m\<close> selects.\<close>

definition gray_sum :: "'w::len word list \<Rightarrow> nat \<Rightarrow> 'w word" where
  "gray_sum ws m = word_of (\<lambda>k. parity (\<lambda>j. bit (gray m) j \<and> bit (ws ! j) k) [0..<4])"

lemma parity_False [simp]: "\<not> parity (\<lambda>k. False) ks"
  by (induction ks) simp_all

lemma gray_sum_0: "gray_sum ws 0 = 0"
  by (rule bit_word_eqI) (simp add: gray_sum_def gray_def upt_rec)

lemma gray_sum_Suc:
  assumes "Suc m < 16"
  shows "gray_sum ws (Suc m) = gray_sum ws m XOR ws ! trailing_zeros (Suc m)"
proof (rule bit_word_eqI)
  fix k
  let ?t = "trailing_zeros (Suc m)"
  have t: "?t < 4" "gray (Suc m) = gray m XOR 2 ^ ?t" using gray_step [of "Suc m"] assms by simp_all
  have "parity (\<lambda>j. bit (gray (Suc m)) j \<and> bit (ws ! j) k) [0..<4] =
      parity (\<lambda>j. (bit (gray m) j \<and> bit (ws ! j) k) \<noteq> (j = ?t \<and> bit (ws ! j) k)) [0..<4]"
    unfolding t(2) by (rule parity_cong) (auto simp: bit_xor_iff bit_exp_iff)
  then have "parity (\<lambda>j. bit (gray (Suc m)) j \<and> bit (ws ! j) k) [0..<4] =
      (parity (\<lambda>j. bit (gray m) j \<and> bit (ws ! j) k) [0..<4] \<noteq> bit (ws ! ?t) k)"
    by (simp only: parity_neq parity_at [OF t(1)])
  then show "bit (gray_sum ws (Suc m)) k = bit (gray_sum ws m XOR ws ! ?t) k" if "k < LENGTH('a)"
    using that by (simp only: gray_sum_def bit_word_of bit_xor_iff) blast
qed

lemma fill_out_lut_shared:
  assumes "\<And>j. j < 4 \<Longrightarrow> shared (\<lambda>p. S p ! j) (ws ! j)" and "m < 16"
  shows "shared (\<lambda>p. fill_out_lut (S p) ! m) (gray_sum ws m)"
  using assms(2)
proof (induction m)
  case 0
  have "fill_out_lut (S p) ! 0 = zero_share" for p unfolding fill_out_lut_def by (subst fold_chain(2)) simp_all
  then show ?case by (auto simp: gray_sum_0)
next
  case (Suc m)
  have "fill_out_lut (S p) ! Suc m = xor_share (fill_out_lut (S p) ! m) (S p ! trailing_zeros (Suc m))" for p
    unfolding fill_out_lut_def using Suc.prems by (subst fold_chain(2)) simp_all
  then show ?case using Suc gray_step(1) [of "Suc m"] assms(1) by (auto simp: gray_sum_Suc)
qed

lemma four_russians_shared:
  assumes S: "shared_wires S ws" and r: "round < 9"
  defines "ws' \<equiv> map (\<lambda>row. word_of (\<lambda>k. parity (\<lambda>w. bit (gray_sum (take 4 (drop (w * 4) ws)) (mask_at round w row)) k) [0..<32])) [0..<128]"
  shows "shared_wires (\<lambda>p. four_russians_matrix_mult round (S p)) ws'" and "lane j ws' = matrix_mult round (lane j ws)"
proof -
  note l = shared_wiresD [OF S]
  have "(\<forall>p. length (fold (four_russians_window round (S p)) [0..<n] (replicate 128 zero_share)) = 128) \<and>
    (\<forall>row < 128. shared (\<lambda>p. fold (four_russians_window round (S p)) [0..<n] (replicate 128 zero_share) ! row)
      (word_of (\<lambda>k. parity (\<lambda>w. bit (gray_sum (take 4 (drop (w * 4) ws)) (mask_at round w row)) k) [0..<n])))"
    if "n \<le> 32" for n
    using that
  proof (induction n)
    case 0
    have "word_of (\<lambda>k. False) = (0 :: 128 word)" by (rule bit_word_eqI) simp
    then show ?case by (auto simp: shared_zero)
  next
    case (Suc n)
    let ?F = "\<lambda>p. fold (four_russians_window round (S p)) [0..<n] (replicate 128 zero_share)"
    let ?sum = "\<lambda>n row. word_of (\<lambda>k. parity (\<lambda>w. bit (gray_sum (take 4 (drop (w * 4) ws)) (mask_at round w row)) k) [0..<n]) :: 128 word"
    have F: "length (?F p) = 128" "row < 128 \<Longrightarrow> shared (\<lambda>p. ?F p ! row) (?sum n row)" for p row using Suc by auto
    have row: "shared (\<lambda>p. four_russians_window round (S p) n (?F p) ! row) (?sum (Suc n) row)" if "row < 128" for row
    proof -
      let ?sel = "\<lambda>p. fill_out_lut (take 4 (drop (n * 4) (S p))) ! mask_at round n row"
      have sel: "shared ?sel (gray_sum (take 4 (drop (n * 4) ws)) (mask_at round n row))"
        by (rule fill_out_lut_shared) (use l Suc.prems mask_at_less [OF r _ that] in auto)
      have "?sum (Suc n) row = ?sum n row XOR gray_sum (take 4 (drop (n * 4) ws)) (mask_at round n row)"
        by (rule bit_word_eqI) (simp add: parity_append bit_xor_iff)
      moreover have "four_russians_window round (S p) n (?F p) ! row = (if n = 0 then ?sel p else xor_share (?F p ! row) (?sel p))" for p
        using that F(1) by (simp add: four_russians_window_def Let_def)
      moreover have "?sum 0 row = 0" by (rule bit_word_eqI) simp
      ultimately show ?thesis using sel shared_xor [OF F(2) [OF that] sel] by (cases "n = 0") simp_all
    qed
    have "length (four_russians_window round (S p) n (?F p)) = 128" for p
      using F(1) by (simp add: four_russians_window_def Let_def)
    with row show ?case by simp
  qed
  from this [of 32] show "shared_wires (\<lambda>p. four_russians_matrix_mult round (S p)) ws'"
    by (intro shared_wiresI) (simp_all add: four_russians_matrix_mult_def ws'_def del: upt_rec_numeral)
  show "lane j ws' = matrix_mult round (lane j ws)"
  proof (rule lane_eqI)
    fix row :: nat assume row: "row < 128"
    show "bit (ws' ! row) j = bit (matrix_mult round (lane j ws)) row"
    proof (cases "j < 128")
      case True
      have "bit (gray_sum (take 4 (drop (w * 4) ws)) (mask_at round w row)) j =
          parity (\<lambda>i. matrix_bit round row (4 * w + i) \<and> bit (lane j ws) (4 * w + i)) [0..<4]" if "w < 32" for w
        using True that l(2) by (auto simp: gray_sum_def matrix_bit_def mult.commute simp del: upt_rec_numeral intro!: parity_cong)
      then have "parity (\<lambda>w. bit (gray_sum (take 4 (drop (w * 4) ws)) (mask_at round w row)) j) [0..<32] =
          parity (\<lambda>w. parity (\<lambda>i. matrix_bit round row (4 * w + i) \<and> bit (lane j ws) (4 * w + i)) [0..<4]) [0..<32]"
        by (intro parity_cong) (simp only: set_upt atLeastLessThan_iff)
      moreover have "bit (ws' ! row) j = parity (\<lambda>w. bit (gray_sum (take 4 (drop (w * 4) ws)) (mask_at round w row)) j) [0..<32]"
        using True row by (simp add: ws'_def del: upt_rec_numeral)
      ultimately have "bit (ws' ! row) j =
          parity (\<lambda>w. parity (\<lambda>i. matrix_bit round row (4 * w + i) \<and> bit (lane j ws) (4 * w + i)) [0..<4]) [0..<32]" by simp
      also have "\<dots> = parity (\<lambda>col. matrix_bit round row col \<and> bit (lane j ws) col) [0..<128]"
        unfolding blocks_of_four [symmetric] parity_concat parity_map ..
      finally show ?thesis using row by (simp add: matrix_mult_def)
    next
      case False
      have "\<not> bit (w :: 128 word) j" for w using False bit_imp_le_length [of w j] by auto
      then show ?thesis using row by (simp add: matrix_mult_def lane_def parity_False)
    qed
  qed
qed

interpretation sliced_linear: lane_linear four_russians_matrix_mult "\<lambda>j. j < len" for len
  by unfold_locales (use four_russians_shared in blast)


section \<open>The S-boxes of all slices\<close>

definition sbox_layer_many ::
    "(128 shares \<Rightarrow> 128 shares \<Rightarrow> 128 shares res) \<Rightarrow> (party \<Rightarrow> 128 word share list list) \<Rightarrow>
     (party \<Rightarrow> 128 word share list list) res" where
  "sbox_layer_many and_vec inputs =
     (let ands = \<lambda>p. fold collect_sbox_ands (inputs p) ([], [])
      in bindE (and_vec (\<lambda>p. fst (ands p)) (\<lambda>p. snd (ands p))) (\<lambda>ands.
           Inr (\<lambda>p. map (\<lambda>(batch_index, input). apply_sbox_ands input (take 126 (drop (batch_index * 126) (ands p))))
             (enumerate 0 (inputs p)))))"

section \<open>Round keys\<close>

definition bit_slice_round_keys :: "128 word share list list \<Rightarrow> nat \<Rightarrow> nat \<Rightarrow> 128 word share list list res" where
  "bit_slice_round_keys keys start len = mapE (\<lambda>round.
     bindE (mapE (\<lambda>index. bindE (getE keys index) (\<lambda>key. Inr (key ! round))) [start..<start + len]) (\<lambda>round_keys.
       Inr (bit_slice_blocks round_keys))) [0..<10]"

definition bit_slice_repeated_round_keys :: "128 word share list \<Rightarrow> nat \<Rightarrow> 128 word share list list" where
  "bit_slice_repeated_round_keys key len =
     map (\<lambda>round. slice_into (key ! round, lane_mask len) (replicate 128 zero_share)) [0..<10]"

section \<open>Encryption\<close>

definition sliced_round ::
    "(nat \<Rightarrow> 128 shares \<Rightarrow> 128 shares \<Rightarrow> 128 shares res) \<Rightarrow> (party \<Rightarrow> nat list) \<Rightarrow>
     (party \<Rightarrow> 128 word share list list list) \<Rightarrow> nat \<Rightarrow> (party \<Rightarrow> 128 word share list list) \<Rightarrow>
     (party \<Rightarrow> 128 word share list list) res" where
  "sliced_round and_vecs chunk_lens round_keys_by_chunk round state_bits =
     bindE (sbox_layer_many (and_vecs round) state_bits) (\<lambda>state_bits.
       Inr (\<lambda>p. map (\<lambda>((state_bits, round_keys), len).
           add_round_key (xor_constants p round (lane_mask len) (four_russians_matrix_mult round state_bits))
             (round_keys ! (round + 1)))
         (zip (zip (state_bits p) (round_keys_by_chunk p)) (chunk_lens p))))"

definition encrypt_many_inner ::
    "(nat \<Rightarrow> 128 shares \<Rightarrow> 128 shares \<Rightarrow> 128 shares res) \<Rightarrow> 128 shares \<Rightarrow>
     (party \<Rightarrow> nat \<Rightarrow> nat \<Rightarrow> 128 word share list list res) \<Rightarrow> 128 shares res" where
  "encrypt_many_inner and_vecs inputs round_keys_for_chunk =
     (let chunk_lens = \<lambda>p. map length (chunks 128 (inputs p));
          state_bits = \<lambda>p. map bit_slice_blocks (chunks 128 (inputs p))
      in bindE (each_party (\<lambda>p. mapE (\<lambda>(chunk, len). round_keys_for_chunk p chunk len) (enumerate 0 (chunk_lens p))))
           (\<lambda>round_keys_by_chunk.
         bindE (foldE (sliced_round and_vecs chunk_lens round_keys_by_chunk) [0..<9]
             (\<lambda>p. map2 (\<lambda>state_bits round_keys. add_round_key state_bits (round_keys ! 0))
               (state_bits p) (round_keys_by_chunk p)))
           (\<lambda>state_bits. Inr (\<lambda>p. concat (map2 pack_wires (state_bits p) (chunk_lens p))))))"

definition encrypt_many_sliced ::
    "(nat \<Rightarrow> 128 shares \<Rightarrow> 128 shares \<Rightarrow> 128 shares res) \<Rightarrow> (party \<Rightarrow> 128 word share list list) \<Rightarrow>
     128 shares \<Rightarrow> 128 shares res" where
  "encrypt_many_sliced and_vecs expanded_keys inputs =
     bindE (each_party (\<lambda>p. mapE round_keys_from (expanded_keys p))) (\<lambda>keys.
       encrypt_many_inner and_vecs inputs (\<lambda>p chunk len. bit_slice_round_keys (keys p) (chunk * 128) len))"

definition encrypt_many_sliced_same_key ::
    "(nat \<Rightarrow> 128 shares \<Rightarrow> 128 shares \<Rightarrow> 128 shares res) \<Rightarrow> 128 shares \<Rightarrow> 128 shares \<Rightarrow> 128 shares res" where
  "encrypt_many_sliced_same_key and_vecs expanded_key inputs =
     bindE (each_party (\<lambda>p. round_keys_from (expanded_key p))) (\<lambda>key.
       let full_round_keys = \<lambda>p. bit_slice_repeated_round_keys (key p) 128
       in encrypt_many_inner and_vecs inputs (\<lambda>p chunk len. Inr
            (if len = 128 then full_round_keys p else bit_slice_repeated_round_keys (key p) len)))"

section \<open>The evaluation encrypts\<close>

lemma sbox_layer_many_ok:
  assumes "and_protocol and_vec True" and G: "shared_groups G wss"
  obtains A where "sbox_layer_many and_vec G = Inr (\<lambda>p. map (\<lambda>g. apply_sbox_ands (G p ! g) (A p g)) [0..<length wss])"
    and "\<And>g k. g < length wss \<Longrightarrow> k < 126 \<Longrightarrow> shared (\<lambda>p. A p g ! k) (and_wires (wss ! g) ! k)"
proof -
  obtain A where A: "and_vec (\<lambda>p. fst (fold collect_sbox_ands (G p) ([], []))) (\<lambda>p. snd (fold collect_sbox_ands (G p) ([], []))) = Inr A"
    "shared_list A (concat (map and_wires wss))" using sbox_groups_ok [OF assms] by blast
  let ?A = "\<lambda>p g. take 126 (drop (g * 126) (A p))"
  have m: "map (\<lambda>(batch_index, input). apply_sbox_ands input (take 126 (drop (batch_index * 126) (A p)))) (enumerate 0 (G p)) =
      map (\<lambda>g. apply_sbox_ands (G p ! g) (?A p g)) [0..<length wss]" for p
    by (rule nth_equalityI) (simp_all add: nth_enumerate_eq shared_groupsD(1) [OF G])
  have l: "length (A p) = length wss * 126" for p
    using shared_listD(1) [OF A(2)] by (simp add: length_concat comp_def sum_list_triv)
  have "shared (\<lambda>p. ?A p g ! k) (and_wires (wss ! g) ! k)" if "g < length wss" "k < 126" for g k
  proof -
    have "g * 126 + k < length wss * 126" using that by simp
    then have "?A p g ! k = A p ! (g * 126 + k)" for p using that l [of p] by simp
    then show ?thesis using nth_group_ands [OF A(2) that] by simp
  qed
  with that [of ?A] show ?thesis by (simp add: sbox_layer_many_def A(1) m)
qed

lemma sliced_round_ok:
  assumes and_ok: "\<And>r. and_protocol (and_vecs r) True" and K: "shared_key_groups K n lens keys"
    and r: "r < 9" and G: "shared_groups G wss" and n: "length wss = n"
    and L: "\<And>p. cl p = map lens [0..<n]" and le: "\<And>g. g < n \<Longrightarrow> lens g \<le> 128"
  shows "\<exists>G' wss'. sliced_round and_vecs cl K r G = Inr G' \<and> shared_groups G' wss' \<and> length wss' = n \<and>
    (\<forall>g < n. \<forall>j < lens g. lane j (wss' ! g) = lowmc_round (keys g j) r (lane j (wss ! g)))"
proof -
  obtain A where A: "sbox_layer_many (and_vecs r) G = Inr (\<lambda>p. map (\<lambda>g. apply_sbox_ands (G p ! g) (A p g)) [0..<length wss])"
    "\<And>g k. g < length wss \<Longrightarrow> k < 126 \<Longrightarrow> shared (\<lambda>p. A p g ! k) (and_wires (wss ! g) ! k)"
    using sbox_layer_many_ok [OF and_ok G] by blast
  define G' where "G' = (\<lambda>p. map (\<lambda>((state_bits, round_keys), len).
      add_round_key (xor_constants p r (lane_mask len) (four_russians_matrix_mult r state_bits)) (round_keys ! (r + 1)))
    (zip (zip (map (\<lambda>g. apply_sbox_ands (G p ! g) (A p g)) [0..<length wss]) (K p)) (cl p)))"
  have run: "sliced_round and_vecs cl K r G = Inr G'" by (simp add: sliced_round_def A(1) G'_def)
  have k: "length (K p) = n" for p using K by (simp add: shared_key_groups_def)
  have am: "bit (lane_mask (lens g) :: 128 word) j" if "g < length wss" "j < lens g" for g j
    using that le [of g] n by (simp add: bit_lane_mask)
  have l: "length (G' p) = length wss" for p using n k L by (simp add: G'_def)
  have nth: "G' p ! g = add_round_key (xor_constants p r (lane_mask (lens g))
      (four_russians_matrix_mult r (apply_sbox_ands (G p ! g) (A p g)))) (K p ! g ! (r + 1))"
    if "g < length wss" for p g using that n k L by (simp add: G'_def)
  have "\<exists>wss'. shared_groups G' wss' \<and> length wss' = length wss \<and>
      (\<forall>g < length wss. \<forall>j < lens g. lane j (wss' ! g) = lowmc_round (keys g j) r (lane j (wss ! g)))"
    by (rule group_round [where linear = "\<lambda>g. four_russians_matrix_mult", OF G K [folded n] r sliced_linear.lane_linear_axioms am A(2) l nth])
  then show ?thesis using run n by simp
qed


lemma encrypt_inner_correct:
  assumes and_ok: "\<And>r. and_protocol (and_vecs r) True" and X: "shared_list X xs"
    and keys: "\<And>p g. g * 128 < length xs \<Longrightarrow> rk p g (min 128 (length xs - g * 128)) = Inr (K p ! g)"
    and K: "shared_key_groups K ((length xs + 127) div 128) (\<lambda>g. min 128 (length xs - g * 128)) (\<lambda>g j. kf (g * 128 + j))"
  shows "\<exists>Y. encrypt_many_inner and_vecs X rk = Inr Y \<and> shared_list Y (map (\<lambda>i. lowmc_encrypt (kf i) (xs ! i)) [0..<length xs])"
proof -
  let ?n = "(length xs + 127) div 128" and ?lens = "\<lambda>g. min 128 (length xs - g * 128)"
  let ?keys = "\<lambda>g j. kf (g * 128 + j)"
  have bound: "g < ?n \<longleftrightarrow> g * 128 < length xs" for g using chunk_bounds [of 128 g "length xs"] by (simp add: add.commute)
  have lx: "length (X p) = length xs" for p using shared_listD(1) [OF X] .
  have chunk: "length (chunks 128 (X p)) = ?n" "g < ?n \<Longrightarrow> chunks 128 (X p) ! g = take 128 (drop (g * 128) (X p))" for p g
    by (simp_all add: chunks_length chunks_nth lx)
  have cl: "map length (chunks 128 (X p)) = map ?lens [0..<?n]" for p
    by (rule nth_equalityI) (simp_all add: chunk lx min.commute)
  have lK: "length (K p) = ?n" for p using K by (simp add: shared_key_groups_def)
  have "mapE (\<lambda>(chunk, len). rk p chunk len) (enumerate 0 (map ?lens [0..<?n])) = Inr (K p)" for p
  proof -
    have "mapE (\<lambda>(chunk, len). rk p chunk len) (enumerate 0 (map ?lens [0..<?n])) =
        Inr (map (\<lambda>(chunk, len). K p ! chunk) (enumerate 0 (map ?lens [0..<?n])))"
    proof (rule mapE_total)
      fix x assume "x \<in> set (enumerate 0 (map ?lens [0..<?n]))"
      then obtain g where "g < ?n" "x = (g, ?lens g)" by (auto simp: in_set_enumerate_eq)
      then show "(case x of (chunk, len) \<Rightarrow> rk p chunk len) = Inr (case x of (chunk, len) \<Rightarrow> K p ! chunk)"
        using keys [of g p] bound [of g] by simp
    qed
    also have "map (\<lambda>(chunk, len). K p ! chunk) (enumerate 0 (map ?lens [0..<?n])) = K p"
      by (rule nth_equalityI) (simp_all add: lK nth_enumerate_eq)
    finally show ?thesis .
  qed
  then have rks: "each_party (\<lambda>p. mapE (\<lambda>(chunk, len). rk p chunk len) (enumerate 0 (map length (chunks 128 (X p))))) = Inr K"
    unfolding cl by (rule each_party_Inr)
  let ?B = "\<lambda>p. map bit_slice_blocks (chunks 128 (X p)) :: 128 word share list list"
  have "\<exists>ws. shared_wires (\<lambda>p. ?B p ! g) ws \<and> (\<forall>j < ?lens g. lane j ws = xs ! (g * 128 + j))" if g: "g < ?n" for g
  proof -
    have "shared_list (\<lambda>p. chunks 128 (X p) ! g) (take 128 (drop (g * 128) xs))"
      unfolding chunk(2) [OF g] by (intro shared_list_take shared_list_drop X)
    from bit_slice_blocks_shared [OF this, where 'w = 128] obtain ws :: "128 word list"
      where "shared_wires (\<lambda>p. bit_slice_blocks (chunks 128 (X p) ! g)) ws"
        "\<forall>j < length (take 128 (drop (g * 128) xs)). lane j ws = take 128 (drop (g * 128) xs) ! j" by auto
    then show ?thesis using g by (intro exI [of _ ws]) (simp add: chunk(1))
  qed
  then obtain wss where W: "shared_groups ?B wss" "length wss = ?n"
    "\<And>g. g < ?n \<Longrightarrow> \<forall>j < ?lens g. lane j (wss ! g) = xs ! (g * 128 + j)"
    by (rule groups_by_choice [rotated]) (simp_all add: chunk(1))
  let ?G0 = "\<lambda>p. map2 (\<lambda>state_bits round_keys. add_round_key state_bits (round_keys ! 0)) (?B p) (K p)"
  have K': "shared_key_groups K (length wss) ?lens ?keys" using K W(2) by simp
  obtain wss0 where W0: "shared_groups ?G0 wss0" "length wss0 = ?n"
    "\<And>g j. g < ?n \<Longrightarrow> j < ?lens g \<Longrightarrow> lane j (wss0 ! g) = xs ! (g * 128 + j) XOR kf (g * 128 + j) ! 0"
    by (rule group_start [OF W(1) K']) (use W(2,3) in simp)
  let ?f = "sliced_round and_vecs (\<lambda>p. map length (chunks 128 (X p))) K"
  have step: "\<exists>G' wss'. ?f r G = Inr G' \<and> shared_groups G' wss' \<and> length wss' = ?n \<and>
      (\<forall>g < ?n. \<forall>j < ?lens g. lane j (wss' ! g) = lowmc_round (?keys g j) r (lane j (wss ! g)))"
    if "r < 9" "shared_groups G wss" "length wss = ?n" for r G wss
    by (rule sliced_round_ok [OF and_ok K that cl]) simp
  obtain G' wss' where G': "foldE (sliced_round and_vecs (\<lambda>p. map length (chunks 128 (X p))) K) [0..<9] ?G0 = Inr G'"
    "shared_groups G' wss'" "length wss' = ?n"
    "\<forall>g < ?n. \<forall>j < ?lens g. lane j (wss' ! g) = fold (lowmc_round (?keys g j)) [0..<9] (lane j (wss0 ! g))"
    using wire_rounds [where f = ?f and rounds = "[0..<9]", OF step _ W0(1,2)] by auto
  have "shared_list (\<lambda>p. concat (map2 pack_wires (G' p) (map ?lens [0..<?n])))
      (concat (map2 (\<lambda>ws len. map (\<lambda>j. lane j ws) [0..<len]) wss' (map ?lens [0..<?n])))"
    by (rule shared_list_concat, rule group_pack [OF G'(2)]) (simp add: G'(3))
  also have "map2 (\<lambda>ws len. map (\<lambda>j. lane j ws) [0..<len]) wss' (map ?lens [0..<?n]) =
      map (\<lambda>g. map (\<lambda>j. lowmc_encrypt (kf (g * 128 + j)) (xs ! (g * 128 + j))) [0..<?lens g]) [0..<?n]"
    by (rule nth_equalityI) (auto simp: G'(3,4) W0(3) lowmc_encrypt_def)
  also have "concat \<dots> = map (\<lambda>i. lowmc_encrypt (kf i) (xs ! i)) [0..<length xs]"
    using concat_by_chunks [of 128 "\<lambda>i. lowmc_encrypt (kf i) (xs ! i)" "length xs"] by (simp add: add.commute)
  finally show ?thesis using G'(1) by (simp add: encrypt_many_inner_def Let_def rks [unfolded cl] cl)
qed


text \<open>The two ways to slice the round keys: one key to a lane, and one key in every lane.\<close>

lemma sliced_keys_ok:
  assumes K: "shared_keys K kss" and "length xs \<le> length kss"
  shows "\<exists>R. (\<forall>p g. g * 128 < length xs \<longrightarrow>
      bit_slice_round_keys (K p) (g * 128) (min 128 (length xs - g * 128)) = Inr (R p ! g)) \<and>
    shared_key_groups R ((length xs + 127) div 128) (\<lambda>g. min 128 (length xs - g * 128)) (\<lambda>g j. kss ! (g * 128 + j))"
proof -
  let ?n = "(length xs + 127) div 128" and ?len = "\<lambda>g. min 128 (length xs - g * 128)"
  let ?keys = "\<lambda>p g r. map (\<lambda>i. K p ! i ! r) [g * 128..<g * 128 + ?len g]"
  let ?R = "\<lambda>p. map (\<lambda>g. map (\<lambda>r. bit_slice_blocks (?keys p g r)) [0..<10]) [0..<?n] :: 128 word share list list list"
  have bound: "g < ?n \<longleftrightarrow> g * 128 < length xs" for g using chunk_bounds [of 128 g "length xs"] by (simp add: add.commute)
  have run: "bit_slice_round_keys (K p) (g * 128) (?len g) = Inr (?R p ! g)" if "g * 128 < length xs" for p g
  proof -
    have "mapE (\<lambda>i. bindE (getE (K p) i) (\<lambda>key. Inr (key ! r))) [g * 128..<g * 128 + ?len g] = Inr (?keys p g r)" for r
    proof (rule mapE_total)
      fix i assume "i \<in> set [g * 128..<g * 128 + ?len g]"
      then have "i < length (K p)" using assms(2) shared_keysD(1) [OF K] by auto
      then show "bindE (getE (K p) i) (\<lambda>key. Inr (key ! r)) = Inr (K p ! i ! r)" by simp
    qed
    then have "bit_slice_round_keys (K p) (g * 128) (?len g) = Inr (map (\<lambda>r. bit_slice_blocks (?keys p g r)) [0..<10])"
      unfolding bit_slice_round_keys_def by (intro mapE_total) simp
    then show ?thesis using that bound [of g] by simp
  qed
  have "\<exists>kws. shared_wires (\<lambda>p. ?R p ! g ! r) kws \<and> (\<forall>j < ?len g. lane j kws = kss ! (g * 128 + j) ! r)"
    if g: "g < ?n" and r: "r < 10" for g r
  proof -
    have "shared_list (\<lambda>p. ?keys p g r) (map (\<lambda>i. kss ! i ! r) [g * 128..<g * 128 + ?len g])"
      using assms(2) g r bound [of g] by (intro shared_listI) (auto intro!: shared_keysD(3) [OF K])
    from bit_slice_blocks_shared [OF this, where 'w = 128] show ?thesis using g r by (simp del: upt_rec_numeral)
  qed
  then have "shared_key_groups ?R ?n ?len (\<lambda>g j. kss ! (g * 128 + j))" by (simp add: shared_key_groups_def del: upt_rec_numeral)
  then show ?thesis using run by (intro exI [of _ ?R] conjI allI impI)
qed

lemma repeated_keys_ok:
  assumes K: "shared_list K ks" "length ks = 10" and r: "r < 10" and "len \<le> 128"
  shows "\<exists>kws. shared_wires (\<lambda>p. bit_slice_repeated_round_keys (K p) len ! r) kws \<and> (\<forall>j < len. lane j kws = ks ! r)"
proof -
  have "shared (\<lambda>p. K p ! r) (ks ! r)" using shared_listD(2) [OF K(1)] K(2) r by simp
  from slice_into_shared [OF this shared_wires_zero, of "lane_mask len"]
  show ?thesis using r assms(4) by (intro exI [of _ "slice_step (ks ! r, lane_mask len) (replicate 128 0)"])
      (simp add: bit_slice_repeated_round_keys_def lane_slice_step bit_lane_mask del: upt_rec_numeral)
qed

lemma encrypt_many_sliced_correct:
  assumes and_ok: "\<And>r. and_protocol (and_vecs r) True" and K: "shared_keys K kss" and X: "shared_list X xs"
    and len: "length xs \<le> length kss"
  shows "\<exists>Y. encrypt_many_sliced and_vecs K X = Inr Y \<and> shared_list Y (map (\<lambda>i. lowmc_encrypt (kss ! i) (xs ! i)) [0..<length xs])"
proof -
  obtain R where R: "\<And>p g. g * 128 < length xs \<Longrightarrow>
      bit_slice_round_keys (K p) (g * 128) (min 128 (length xs - g * 128)) = Inr (R p ! g)"
    "shared_key_groups R ((length xs + 127) div 128) (\<lambda>g. min 128 (length xs - g * 128)) (\<lambda>g j. kss ! (g * 128 + j))"
    using sliced_keys_ok [OF K len] by blast
  from encrypt_inner_correct [OF and_ok X, of "\<lambda>p chunk len. bit_slice_round_keys (K p) (chunk * 128) len", OF R]
  show ?thesis by (simp add: encrypt_many_sliced_def round_keys_all [OF K])
qed

lemma encrypt_many_sliced_same_key_correct:
  assumes and_ok: "\<And>r. and_protocol (and_vecs r) True" and K: "shared_list K ks" "length ks = 10" and X: "shared_list X xs"
  shows "\<exists>Y. encrypt_many_sliced_same_key and_vecs K X = Inr Y \<and> shared_list Y (map (lowmc_encrypt ks) xs)"
proof -
  let ?n = "(length xs + 127) div 128" and ?len = "\<lambda>g. min 128 (length xs - g * 128)"
  let ?rk = "\<lambda>p (chunk :: nat) len. Inr (if len = 128 then bit_slice_repeated_round_keys (K p) 128 else bit_slice_repeated_round_keys (K p) len)"
  let ?R = "\<lambda>p. map (\<lambda>g. bit_slice_repeated_round_keys (K p) (?len g)) [0..<?n]"
  have bound: "g < ?n \<longleftrightarrow> g * 128 < length xs" for g using chunk_bounds [of 128 g "length xs"] by (simp add: add.commute)
  have run: "?rk p g (?len g) = Inr (?R p ! g)" if "g * 128 < length xs" for p g using that bound [of g] by simp
  have "shared_key_groups ?R ?n ?len (\<lambda>g j. ks)"
    using repeated_keys_ok [OF K] unfolding shared_key_groups_def by (auto simp: min_def)
  from encrypt_inner_correct [where rk = ?rk and K = ?R and kf = "\<lambda>i. ks", OF and_ok X run this]
  have "\<exists>Y. encrypt_many_inner and_vecs X ?rk = Inr Y \<and> shared_list Y (map (\<lambda>i. lowmc_encrypt ks (xs ! i)) [0..<length xs])" .
  moreover have "map (\<lambda>i. lowmc_encrypt ks (xs ! i)) [0..<length xs] = map (lowmc_encrypt ks) xs" by (rule nth_equalityI) simp_all
  moreover have "each_party (\<lambda>p. round_keys_from (K p)) = Inr K"
    using K shared_listD(1) [OF K(1)] by (intro each_party_Inr) (simp add: round_keys_from_def)
  ultimately show ?thesis by (simp add: encrypt_many_sliced_same_key_def Let_def)
qed


section \<open>Properties\<close>

lemma shared_keys_take: "shared_keys K kss \<Longrightarrow> shared_keys (\<lambda>p. take n (K p)) (take n kss)"
  unfolding shared_keys_def by (auto intro: shared_cols_take dest: in_set_takeD)

text \<open>C17: Bit-sliced encryption agrees with the word-parallel evaluation: whatever the backend's AND
  draws, both open to the encryption of every block under its own key, also when the blocks do not
  fill the last slice, when there are none, and when more keys than blocks are passed; the entry
  point for one key, which reuses the sliced round keys, gives what its packed counterpart gives.\<close>

theorem bit_sliced_equals_packed:
  assumes "\<And>r. and_protocol (and_vecs r) True" and "shared_keys K kss" and "shared_list X xs"
    and "length xs \<le> length kss" and "shared_list K1 ks" and "length ks = 10" and "online net" and "correlated rng"
  shows "bindE (encrypt_many_sliced and_vecs K X) (open_many net) = Inr (\<lambda>p. map2 lowmc_encrypt kss xs) \<and>
    bindE (encrypt_many_sliced and_vecs K X) (open_many net) =
      bindE (encrypt_many net rng (\<lambda>p. take (length xs) (K p)) X) (open_many net) \<and>
    bindE (encrypt_many_sliced_same_key and_vecs K1 X) (open_many net) =
      bindE (encrypt_many_with_same_key net rng K1 X) (open_many net)"
proof -
  have e: "map (\<lambda>i. lowmc_encrypt (kss ! i) (xs ! i)) [0..<length xs] = map2 lowmc_encrypt kss xs"
    "map2 lowmc_encrypt (take (length xs) kss) xs = map2 lowmc_encrypt kss xs"
    using assms(4) by (auto intro!: nth_equalityI)
  show ?thesis
    using encrypt_many_sliced_correct [where and_vecs = and_vecs, OF assms(1-4)]
      encrypt_many_sliced_same_key_correct [where and_vecs = and_vecs, OF assms(1,5,6,3)]
      encrypt_many_correct [OF shared_keys_take [OF assms(2)] assms(3) _ assms(7,8), of "length xs"]
      encrypt_many_with_same_key_correct [OF assms(5,6,3,7,8)] assms(4,7)
    by (auto simp: open_many_correct e)
qed

theorem bit_sliced_equals_packed_witness:
  "bindE (encrypt_many_sliced (\<lambda>r. ring_and_many all_online (skip_draws (126 * r) zero_rng))
      (\<lambda>p. [promote_public_values p (replicate 10 7), promote_public_values p (replicate 10 1)])
      (\<lambda>p. promote_public_values p [5])) (open_many all_online) = Inr (\<lambda>p. [lowmc_encrypt (replicate 10 7) 5])"
proof -
  have k: "shared_keys (\<lambda>p. [promote_public_values p (replicate 10 7), promote_public_values p (replicate 10 1)])
      [replicate 10 7, replicate 10 1]" by (simp add: shared_keys_def shared_cols_Cons)
  have a: "and_protocol (ring_and_many all_online (skip_draws (126 * r) zero_rng)) True" for r
    using ring_and.and_protocol_axioms [of all_online "skip_draws (126 * r) zero_rng"] concrete_environment by simp
  from bit_sliced_equals_packed [where and_vecs = "\<lambda>r. ring_and_many all_online (skip_draws (126 * r) zero_rng)", OF a k promote_public_values_shared [of "[5]"] _
      promote_public_values_shared [of "replicate 10 7"] _ concrete_environment]
  show ?thesis by simp
qed

end
