(* ===== verification/Cht_Lookup.thy ===== *)
theory Cht_Lookup
  imports Cht_Correct
begin

text \<open>
  Lookup in a cuckoo table: the boolean circuit of \<open>crates/circuits/src/cht_lookup.rs\<close> and the
  protocols \<open>lookup_from_2shares\<close> and \<open>lookup_from_2shares_many\<close> of \<open>crates/data-structures/src/cht.rs\<close>.

  The circuit is written against the gates of \<open>fancy_garbling::FancyBinary\<close>, here the record
  \<open>fancy\<close>; the locale \<open>fancy_binary\<close> is their contract and the circuit is proved under it. Garbling
  itself (\<open>Rep3Garbler\<close>, \<open>Rep3Evaluator\<close>, \<open>y2b\<close>) is not part of the repository: it is the parameter
  \<open>yao\<close>, which takes the circuit and the input bits of the two garblers and returns a sharing of
  the output wires; \<open>yao_ok\<close> states this behaviour.
\<close>

unbundle bit_operations_syntax

section \<open>The circuit\<close>

record 'w fancy =
  fancy_xor :: "'w \<Rightarrow> 'w \<Rightarrow> 'w res"
  fancy_negate :: "'w \<Rightarrow> 'w res"
  fancy_and_many :: "'w list \<Rightarrow> 'w res"
  fancy_mux :: "'w \<Rightarrow> 'w \<Rightarrow> 'w \<Rightarrow> 'w res"
  fancy_zero :: "'w res"

definition tags_equal :: "'w fancy \<Rightarrow> 'w list \<Rightarrow> 'w list \<Rightarrow> 'w res" where
  "tags_equal g lhs rhs =
     bindE (mapE (\<lambda>(l, r). bindE (fancy_xor g l r) (fancy_negate g)) (zip lhs rhs)) (fancy_and_many g)"

definition mux_many :: "'w fancy \<Rightarrow> 'w \<Rightarrow> 'w list \<Rightarrow> 'w list \<Rightarrow> 'w list res" where
  "mux_many g condition truthy falsey =
     mapE (\<lambda>(t, f). fancy_mux g condition f t) (zip truthy falsey)"

definition split_atE :: "nat \<Rightarrow> 'w list \<Rightarrow> ('w list \<times> 'w list) res" where
  "split_atE n xs = checkE (n \<le> length xs) (Panic ''split_at'') (Inr (take n xs, drop n xs))"

definition evaluate_lookup_circuit :: "'w fancy \<Rightarrow> 'w list \<Rightarrow> 'w list \<Rightarrow> 'w list res" where
  "evaluate_lookup_circuit g x01 x2 =
     bindE (mapE (\<lambda>(l, r). fancy_xor g l r) (zip x01 x2)) (\<lambda>inputs.
     checkE (256 \<le> length inputs) index_out_of_bounds
    (bindE (split_atE 96 (take 128 inputs)) (\<lambda>(key_tag, b0_index).
     bindE (split_atE 96 (take 128 (drop 128 inputs))) (\<lambda>(b0_tag, b1_index).
     bindE (split_atE 96 (drop 256 inputs)) (\<lambda>(b1_tag, dummy_index).
     bindE (tags_equal g key_tag b0_tag) (\<lambda>key_equals_b0.
     bindE (tags_equal g key_tag b1_tag) (\<lambda>key_equals_b1.
     bindE (mux_many g key_equals_b1 b1_index dummy_index) (\<lambda>b1_or_dummy.
     bindE (mux_many g key_equals_b0 b0_index b1_or_dummy) (\<lambda>selected_index.
     bindE (fancy_xor g key_equals_b0 key_equals_b1) (\<lambda>found.
       Inr (selected_index @ [found])))))))))))"

definition evaluate_lookup_circuit_padded :: "'w fancy \<Rightarrow> 'w list \<Rightarrow> 'w list \<Rightarrow> 'w list res" where
  "evaluate_lookup_circuit_padded g x01 x2 =
     bindE (evaluate_lookup_circuit g x01 x2) (\<lambda>wires.
     bindE (fancy_zero g) (\<lambda>zero.
       Inr (take 128 wires @ replicate (128 - length wires) zero)))"

text \<open>What the gates promise: \<open>val\<close> is the bit a wire carries.\<close>

locale fancy_binary =
  fixes g :: "'w fancy" and val :: "'w \<Rightarrow> bool"
  assumes xor_ok: "\<exists>z. fancy_xor g x y = Inr z \<and> val z = (val x \<noteq> val y)"
    and negate_ok: "\<exists>z. fancy_negate g x = Inr z \<and> val z = (\<not> val x)"
    and and_many_ok: "xs \<noteq> [] \<Longrightarrow> \<exists>z. fancy_and_many g xs = Inr z \<and> val z = (\<forall>x \<in> set xs. val x)"
    and mux_ok: "\<exists>z. fancy_mux g b x y = Inr z \<and> val z = (if val b then val y else val x)"
    and zero_ok: "\<exists>z. fancy_zero g = Inr z \<and> \<not> val z"
begin

lemma mapE_val:
  assumes "\<And>x. x \<in> set xs \<Longrightarrow> \<exists>z. f x = Inr z \<and> val z = h x"
  shows "\<exists>zs. mapE f xs = Inr zs \<and> map val zs = map h xs"
  using assms
proof (induction xs)
  case (Cons x xs)
  from Cons.prems [of x] obtain z where "f x = Inr z" "val z = h x" by auto
  moreover from Cons obtain zs where "mapE f xs = Inr zs" "map val zs = map h xs" by auto
  ultimately show ?case by simp
qed simp

lemma tags_equal_ok:
  assumes "length ls = length rs" and "ls \<noteq> []"
  shows "\<exists>z. tags_equal g ls rs = Inr z \<and> val z = (map val ls = map val rs)"
proof -
  have "\<exists>z. bindE (fancy_xor g l r) (fancy_negate g) = Inr z \<and> val z = (val l = val r)" for l r
  proof -
    obtain x where x: "fancy_xor g l r = Inr x" "val x = (val l \<noteq> val r)" using xor_ok by blast
    obtain z where "fancy_negate g x = Inr z" "val z = (\<not> val x)" using negate_ok by blast
    with x show ?thesis by simp
  qed
  then have "\<exists>zs. mapE (\<lambda>(l, r). bindE (fancy_xor g l r) (fancy_negate g)) (zip ls rs) = Inr zs \<and>
      map val zs = map (\<lambda>(l, r). val l = val r) (zip ls rs)"
    by (intro mapE_val) auto
  then obtain zs where zs: "mapE (\<lambda>(l, r). bindE (fancy_xor g l r) (fancy_negate g)) (zip ls rs) = Inr zs"
    "map val zs = map (\<lambda>(l, r). val l = val r) (zip ls rs)" by blast
  have len: "length zs = length ls" using arg_cong [OF zs(2), of length] assms(1) by simp
  then obtain z where z: "fancy_and_many g zs = Inr z" "val z = (\<forall>x \<in> set zs. val x)"
    using and_many_ok [of zs] assms(2) by (metis length_0_conv)
  have "val (zs ! i) = (val (ls ! i) = val (rs ! i))" if "i < length ls" for i
    using arg_cong [OF zs(2), of "\<lambda>v. v ! i"] that assms(1) len by simp
  then have "val z = (map val ls = map val rs)"
    using assms(1) len by (auto simp: z(2) list_eq_iff_nth_eq all_set_conv_all_nth)
  then show ?thesis using zs(1) z(1) by (simp add: tags_equal_def)
qed

lemma mux_many_ok:
  assumes "length ts = length fs"
  shows "\<exists>zs. mux_many g c ts fs = Inr zs \<and> map val zs = (if val c then map val ts else map val fs)"
proof -
  have "\<exists>zs. mux_many g c ts fs = Inr zs \<and>
      map val zs = map (\<lambda>(t, f). if val c then val t else val f) (zip ts fs)"
    unfolding mux_many_def by (rule mapE_val) (use mux_ok in \<open>simp add: case_prod_beta\<close>)
  moreover have "map (\<lambda>(t, f). if val c then val t else val f) (zip ts fs) =
      (if val c then map val ts else map val fs)"
    using assms by (intro nth_equalityI) auto
  ultimately show ?thesis by simp
qed

lemma map_val_length: "map val zs = ws \<Longrightarrow> length zs = length ws"
  by auto

text \<open>The circuit on bits: three tags of 96 bits and three indices of 32 bits.\<close>

lemma evaluate_lookup_circuit_ok:
  assumes x: "map (\<lambda>(l, r). val l \<noteq> val r) (zip x01 x2) =
      key @ i0 @ t0 @ i1 @ t1 @ d"
    and len: "length key = 96" "length t0 = 96" "length t1 = 96" "length i0 = 32" "length i1 = 32" "length d = 32"
  shows "\<exists>out. evaluate_lookup_circuit g x01 x2 = Inr out \<and>
    map val out = (if key = t0 then i0 else if key = t1 then i1 else d) @ [(key = t0) \<noteq> (key = t1)]"
proof -
  obtain ins where ins: "mapE (\<lambda>(l, r). fancy_xor g l r) (zip x01 x2) = Inr ins"
    "map val ins = key @ i0 @ t0 @ i1 @ t1 @ d"
    using mapE_val [of "zip x01 x2" "\<lambda>(l, r). fancy_xor g l r" "\<lambda>(l, r). val l \<noteq> val r"] xor_ok x
    by auto
  have lins: "length ins = 384" using arg_cong [OF ins(2), of length] len by simp
  define kt where "kt = take 96 (take 128 ins)"
  define bi where "bi = drop 96 (take 128 ins)"
  define bt where "bt = take 96 (take 128 (drop 128 ins))"
  define ci where "ci = drop 96 (take 128 (drop 128 ins))"
  define ct where "ct = take 96 (drop 256 ins)"
  define di where "di = drop 96 (drop 256 ins)"
  note parts = kt_def bi_def bt_def ci_def ct_def di_def
  have v: "map val kt = key" "map val bi = i0" "map val bt = t0" "map val ci = i1" "map val ct = t1"
    "map val di = d"
    by (simp_all add: parts ins(2) len flip: take_map drop_map)
  have l: "length kt = 96" "length bi = 32" "length bt = 96" "length ci = 32" "length ct = 96" "length di = 32"
    using v len by (auto dest!: map_val_length)
  obtain e0 where e0: "tags_equal g kt bt = Inr e0" "val e0 = (key = t0)"
    using tags_equal_ok [of kt bt] l v by force
  obtain e1 where e1: "tags_equal g kt ct = Inr e1" "val e1 = (key = t1)"
    using tags_equal_ok [of kt ct] l v by force
  obtain m1 where m1: "mux_many g e1 ci di = Inr m1" "map val m1 = (if key = t1 then i1 else d)"
    using mux_many_ok [of ci di e1] l v e1(2) by auto
  have "length m1 = 32" using map_val_length [OF m1(2)] len by simp
  then obtain m0 where m0: "mux_many g e0 bi m1 = Inr m0"
    "map val m0 = (if key = t0 then i0 else if key = t1 then i1 else d)"
    using mux_many_ok [of bi m1 e0] l v e0(2) m1(2) by auto
  obtain fd where fd: "fancy_xor g e0 e1 = Inr fd" "val fd = ((key = t0) \<noteq> (key = t1))"
    using xor_ok [of e0 e1] e0(2) e1(2) by auto
  have s: "split_atE 96 (take 128 ins) = Inr (kt, bi)"
    "split_atE 96 (take 128 (drop 128 ins)) = Inr (bt, ci)" "split_atE 96 (drop 256 ins) = Inr (ct, di)"
    by (simp_all add: split_atE_def parts lins)
  have "evaluate_lookup_circuit g x01 x2 = Inr (m0 @ [fd])"
    by (simp add: evaluate_lookup_circuit_def ins(1) lins s e0(1) e1(1) m1(1) m0(1) fd(1))
  then show ?thesis by (simp add: m0(2) fd(2))
qed

lemma evaluate_padded_ok:
  assumes "evaluate_lookup_circuit g x01 x2 = Inr out" and "length out \<le> 128"
  shows "\<exists>out'. evaluate_lookup_circuit_padded g x01 x2 = Inr out' \<and>
    map val out' = map val out @ replicate (128 - length out) False"
  using zero_ok assms by (auto simp: evaluate_lookup_circuit_padded_def)

end

text \<open>The gates on plain bits, on which the circuit's function is evaluated.\<close>

definition plain_gates :: "bool fancy" where
  "plain_gates = \<lparr>fancy_xor = (\<lambda>x y. Inr (x \<noteq> y)), fancy_negate = (\<lambda>x. Inr (\<not> x)),
     fancy_and_many = (\<lambda>xs. if xs = [] then Inl (Report ''and_many'') else Inr (list_all id xs)),
     fancy_mux = (\<lambda>b x y. Inr (if b then y else x)), fancy_zero = Inr False\<rparr>"

interpretation plain: fancy_binary plain_gates "\<lambda>b. b"
  by unfold_locales (auto simp: plain_gates_def list_all_iff)

lemma mapE_map: "mapE f (map g xs) = mapE (\<lambda>x. f (g x)) xs"
  by (induction xs) simp_all

section \<open>Packing the inputs and running the circuit\<close>

definition INDEX_MASK :: "128 word" where
  "INDEX_MASK = ucast (NOT 0 :: 32 word)"

definition pack_word :: "128 word \<Rightarrow> 128 word \<Rightarrow> 128 word" where
  "pack_word tag index = drop_bit 32 tag OR push_bit 96 (index AND INDEX_MASK)"

definition pack_tag_and_index :: "128 word share \<Rightarrow> 128 word \<Rightarrow> 128 word \<Rightarrow> 128 word share" where
  "pack_tag_and_index tag index_a index_b =
     mk_share (pack_word (sh_a tag) index_a) (pack_word (sh_b tag) index_b)"

definition pack_lookup_inputs ::
    "128 word share \<Rightarrow> 128 word share \<Rightarrow> 128 word share \<Rightarrow> 32 word share \<Rightarrow> 128 word share list" where
  "pack_lookup_inputs key cht_b0 cht_b1 dummy_index =
     [pack_tag_and_index key (sh_a cht_b0) (sh_b cht_b0),
      pack_tag_and_index cht_b0 (sh_a cht_b1) (sh_b cht_b1),
      pack_tag_and_index cht_b1 (ucast (sh_a dummy_index)) (ucast (sh_b dummy_index))]"

definition word_bits :: "128 word \<Rightarrow> bool list" where
  "word_bits w = map (bit w) [0..<128]"

text \<open>What each garbler encodes: two components of its share for one, the missing one for the other.\<close>

definition lookup_input_bits :: "party \<Rightarrow> 128 word share list \<Rightarrow> bool list" where
  "lookup_input_bits p inputs = concat (map (\<lambda>s. word_bits (case p of
     ID1 \<Rightarrow> sh_a s XOR sh_b s | ID2 \<Rightarrow> sh_a s | ID0 \<Rightarrow> 0)) inputs)"

type_synonym circuit = "bool list \<Rightarrow> bool list \<Rightarrow> bool list res"

record yao =
  yao_eval :: "circuit \<Rightarrow> bool list \<Rightarrow> bool list \<Rightarrow> (party \<Rightarrow> 128 word share) res"
  yao_eval_many :: "circuit \<Rightarrow> (bool list \<times> bool list) list \<Rightarrow> 128 shares res"

definition yao_ok :: "yao \<Rightarrow> bool" where
  "yao_ok Y \<longleftrightarrow>
     (\<forall>C u v out. C u v = Inr out \<longrightarrow> length out \<le> 128 \<longrightarrow>
        (\<exists>S x. yao_eval Y C u v = Inr S \<and> shared S x \<and> (\<forall>i < length out. bit x i = out ! i))) \<and>
     (\<forall>C ins outs. mapE (\<lambda>(u, v). C u v) ins = Inr outs \<longrightarrow> (\<forall>out \<in> set outs. length out = 128) \<longrightarrow>
        (\<exists>S xs. yao_eval_many Y C ins = Inr S \<and> shared_list S xs \<and> map word_bits xs = outs))"

lemma yao_okD:
  "yao_ok Y \<Longrightarrow> C u v = Inr out \<Longrightarrow> length out \<le> 128 \<Longrightarrow>
     \<exists>S x. yao_eval Y C u v = Inr S \<and> shared S x \<and> (\<forall>i < length out. bit x i = out ! i)"
  "yao_ok Y \<Longrightarrow> mapE (\<lambda>(u, v). C u v) ins = Inr outs \<Longrightarrow> (\<forall>out \<in> set outs. length out = 128) \<Longrightarrow>
     \<exists>S xs. yao_eval_many Y C ins = Inr S \<and> shared_list S xs \<and> map word_bits xs = outs"
  by (simp_all add: yao_ok_def)

definition lookup_compute ::
    "yao \<Rightarrow> (party \<Rightarrow> 128 word share) \<Rightarrow> (party \<Rightarrow> 128 word share) \<Rightarrow> (party \<Rightarrow> 128 word share) \<Rightarrow>
     (party \<Rightarrow> 32 word share) \<Rightarrow> (party \<Rightarrow> 32 word share \<times> 1 word share) res" where
  "lookup_compute Y key cht_b0 cht_b1 dummy_index =
     (let inputs = (\<lambda>p. pack_lookup_inputs (key p) (cht_b0 p) (cht_b1 p) (dummy_index p))
      in bindE (yao_eval Y (evaluate_lookup_circuit plain_gates)
             (lookup_input_bits ID1 (inputs ID1)) (lookup_input_bits ID2 (inputs ID2))) (\<lambda>output.
           Inr (\<lambda>p. (cast_share (output p), get_bit_share (output p) 32))))"

definition lookup_compute_many ::
    "yao \<Rightarrow> (party \<Rightarrow> (128 word share \<times> 128 word share \<times> 128 word share) list) \<Rightarrow> 32 shares \<Rightarrow>
     (party \<Rightarrow> (32 word share \<times> 1 word share) list) res" where
  "lookup_compute_many Y values dummy_indices =
     checkE (everywhere (\<lambda>p. length (values p) = length (dummy_indices p)))
       (Panic ''compute_many: lengths'')
     (if values ID0 = [] then Inr (\<lambda>p. [])
      else let inputs = (\<lambda>p. map2 (\<lambda>(key, b0, b1). pack_lookup_inputs key b0 b1)
                               (values p) (dummy_indices p))
           in bindE (yao_eval_many Y (evaluate_lookup_circuit_padded plain_gates)
                  (zip (map (lookup_input_bits ID1) (inputs ID1)) (map (lookup_input_bits ID2) (inputs ID2))))
                (\<lambda>outputs. Inr (\<lambda>p. map (\<lambda>o'. (cast_share o', get_bit_share o' 32)) (outputs p))))"

subsection \<open>Its function\<close>

definition block_tag :: "128 word \<Rightarrow> 96 word" where
  "block_tag b = ucast (drop_bit 32 b)"

definition cht_select :: "128 word \<Rightarrow> 128 word \<Rightarrow> 128 word \<Rightarrow> 32 word \<Rightarrow> 32 word" where
  "cht_select key b0 b1 dummy =
     (if block_tag key = block_tag b0 then low_u32 b0
      else if block_tag key = block_tag b1 then low_u32 b1 else dummy)"

definition cht_found :: "128 word \<Rightarrow> 128 word \<Rightarrow> 128 word \<Rightarrow> 1 word" where
  "cht_found key b0 b1 = of_bool ((block_tag key = block_tag b0) \<noteq> (block_tag key = block_tag b1))"

lemma length_word_bits [simp]: "length (word_bits w) = 128"
  by (simp add: word_bits_def)

lemma word_bits_inject: "word_bits v = word_bits w \<longleftrightarrow> v = w"
  by (auto simp: word_bits_def intro!: bit_word_eqI)

lemma pack_word_xor: "pack_word (s XOR t) (i XOR j) = pack_word s i XOR pack_word t j"
  by (rule bit_word_eqI) (auto simp: pack_word_def INDEX_MASK_def bit_simps dest: bit_imp_le_length)

lemma pack_tag_and_index_shared:
  assumes "shared T t" and "shared S i"
  shows "shared (\<lambda>p. pack_tag_and_index (T p) (sh_a (S p)) (sh_b (S p))) (pack_word t i)"
  using assms by (simp add: shared_def pack_tag_and_index_def pack_word_xor)

lemma tag_bits: "map (bit v) [32..<128] = map (bit w) [32..<128] \<longleftrightarrow> block_tag v = block_tag w"
  for v w :: "128 word"
proof -
  have shift: "(\<forall>k :: nat. 32 \<le> k \<and> k < 128 \<longrightarrow> P k) \<longleftrightarrow> (\<forall>k < 96. P (k + 32))" for P :: "nat \<Rightarrow> bool"
  proof (intro iffI allI impI)
    fix k :: nat
    assume *: "\<forall>k < 96. P (k + 32)" and k: "32 \<le> k \<and> k < 128"
    from k have "k - 32 < 96" by arith
    with * k show "P k" by (metis le_add_diff_inverse2)
  qed auto
  have "map (bit v) [32..<128] = map (bit w) [32..<128] \<longleftrightarrow> (\<forall>k. 32 \<le> k \<and> k < 128 \<longrightarrow> bit v k = bit w k)"
    by (auto simp del: upt_rec_numeral)
  also have "\<dots> \<longleftrightarrow> (\<forall>k < 96. bit v (k + 32) = bit w (k + 32))" by (rule shift)
  also have "\<dots> \<longleftrightarrow> block_tag v = block_tag w"
    by (auto simp: block_tag_def bit_eq_iff bit_simps add.commute)
  finally show ?thesis .
qed

lemma word_bits_pack: "word_bits (pack_word t i) = map (bit t) [32..<128] @ map (bit i) [0..<32]"
proof (rule nth_equalityI)
  fix k assume "k < length (word_bits (pack_word t i))"
  then have k: "k < 128" by simp
  show "word_bits (pack_word t i) ! k = (map (bit t) [32..<128] @ map (bit i) [0..<32]) ! k"
    using k by (cases "k < 96")
      (auto simp: word_bits_def nth_append pack_word_def INDEX_MASK_def bit_simps add.commute
        simp del: upt_rec_numeral dest: bit_imp_le_length)
qed simp

lemma lookup_wires:
  assumes k: "shared K k" and x: "shared X x" and y: "shared Y y" and d: "shared D d"
  defines "inputs \<equiv> \<lambda>p. pack_lookup_inputs (K p) (X p) (Y p) (D p)"
  shows "map (\<lambda>(l, r). l \<noteq> r) (zip (lookup_input_bits ID1 (inputs ID1)) (lookup_input_bits ID2 (inputs ID2))) =
    map (bit k) [32..<128] @ map (bit x) [0..<32] @ map (bit x) [32..<128] @ map (bit y) [0..<32] @
    map (bit y) [32..<128] @ map (bit (ucast d :: 128 word)) [0..<32]"
proof -
  have wires: "map (\<lambda>(l, r). l \<noteq> r) (zip (word_bits (sh_a (S ID1) XOR sh_b (S ID1))) (word_bits (sh_a (S ID2)))) =
      word_bits z" if "shared S z" for S z
  proof -
    have "sh_a (S ID1) XOR sh_b (S ID1) XOR sh_a (S ID2) = z"
      using that by (simp add: shared_def xor_ac)
    then show ?thesis by (intro nth_equalityI) (auto simp: word_bits_def bit_simps)
  qed
  have "shared (\<lambda>p. cast_share (D p) :: 128 word share) (ucast d)" using d by (rule shared_cast)
  from pack_tag_and_index_shared [OF k x] pack_tag_and_index_shared [OF x y]
    pack_tag_and_index_shared [OF y this]
  have s: "shared (\<lambda>p. pack_tag_and_index (K p) (sh_a (X p)) (sh_b (X p))) (pack_word k x)"
    "shared (\<lambda>p. pack_tag_and_index (X p) (sh_a (Y p)) (sh_b (Y p))) (pack_word x y)"
    "shared (\<lambda>p. pack_tag_and_index (Y p) (ucast (sh_a (D p))) (ucast (sh_b (D p)))) (pack_word y (ucast d))"
    by (simp_all add: cast_share_def map_share_def)
  show ?thesis
    using s [THEN wires]
    by (simp add: inputs_def pack_lookup_inputs_def lookup_input_bits_def word_bits_pack
        del: upt_rec_numeral)
qed

lemma low_bits_of:
  "map (bit (w :: 128 word)) [0..<32] = map (bit (low_u32 w)) [0..<32]"
  by (auto simp: low_u32_def bit_simps simp del: upt_rec_numeral)

lemma lookup_circuit_plain:
  assumes "shared K k" and "shared X x" and "shared Y y" and "shared D d"
  defines "inputs \<equiv> \<lambda>p. pack_lookup_inputs (K p) (X p) (Y p) (D p)"
  shows "\<exists>out. evaluate_lookup_circuit plain_gates (lookup_input_bits ID1 (inputs ID1))
      (lookup_input_bits ID2 (inputs ID2)) = Inr out \<and>
    out = map (bit (cht_select k x y d)) [0..<32] @ [cht_found k x y \<noteq> 0]"
proof -
  have d: "low_u32 (ucast d) = d" by (simp add: low_u32_def ucast_ucast_up)
  let ?key = "map (bit k) [32..<128]" and ?i0 = "map (bit (low_u32 x)) [0..<32]"
    and ?t0 = "map (bit x) [32..<128]" and ?i1 = "map (bit (low_u32 y)) [0..<32]"
    and ?t1 = "map (bit y) [32..<128]" and ?d = "map (bit d) [0..<32]"
  have "map (\<lambda>(l, r). l \<noteq> r) (zip (lookup_input_bits ID1 (inputs ID1)) (lookup_input_bits ID2 (inputs ID2))) =
      ?key @ ?i0 @ ?t0 @ ?i1 @ ?t1 @ ?d"
    unfolding inputs_def lookup_wires [OF assms(1-4)] low_bits_of d ..
  from plain.evaluate_lookup_circuit_ok [OF this] obtain out where
    out: "evaluate_lookup_circuit plain_gates (lookup_input_bits ID1 (inputs ID1))
      (lookup_input_bits ID2 (inputs ID2)) = Inr out"
    "out = (if ?key = ?t0 then ?i0 else if ?key = ?t1 then ?i1 else ?d) @ [(?key = ?t0) \<noteq> (?key = ?t1)]"
    by (auto simp del: upt_rec_numeral)
  then show ?thesis unfolding tag_bits by (auto simp: cht_select_def cht_found_def simp del: upt_rec_numeral)
qed

lemma shared_components:
  fixes w :: "128 word" and v :: "32 word" and f :: "1 word"
  assumes "shared S w" and "\<And>i. i < 32 \<Longrightarrow> bit w i = bit v i" and "bit w 32 = (f \<noteq> 0)"
  shows "shared (\<lambda>p. cast_share (S p)) v" and "shared (\<lambda>p. get_bit_share (S p) 32) f"
proof -
  have "ucast w = v" by (rule bit_word_eqI) (auto simp: bit_simps assms(2))
  then show "shared (\<lambda>p. cast_share (S p)) v" using shared_cast [OF assms(1)] by metis
  have "of_bool (bit w 32) = f" using one_bit_cases [of f] by (auto simp: assms(3))
  then show "shared (\<lambda>p. get_bit_share (S p) 32) f" using shared_get_bit [OF assms(1)] by metis
qed

lemma lookup_compute_correct:
  assumes "yao_ok Y" and "shared K k" and "shared X0 x" and "shared X1 y" and "shared D d"
  shows "\<exists>R. lookup_compute Y K X0 X1 D = Inr R \<and>
    shared (\<lambda>p. fst (R p)) (cht_select k x y d) \<and> shared (\<lambda>p. snd (R p)) (cht_found k x y)"
proof -
  let ?in = "\<lambda>p. pack_lookup_inputs (K p) (X0 p) (X1 p) (D p)"
  let ?out = "map (bit (cht_select k x y d)) [0..<32] @ [cht_found k x y \<noteq> 0]"
  have run: "evaluate_lookup_circuit plain_gates (lookup_input_bits ID1 (?in ID1)) (lookup_input_bits ID2 (?in ID2)) =
      Inr ?out" using lookup_circuit_plain [OF assms(2-5)] by blast
  have "length ?out \<le> 128" by simp
  with run assms(1) obtain S w where S: "yao_eval Y (evaluate_lookup_circuit plain_gates)
      (lookup_input_bits ID1 (?in ID1)) (lookup_input_bits ID2 (?in ID2)) = Inr S"
    "shared S w" "\<forall>i < length ?out. bit w i = ?out ! i" unfolding yao_ok_def by metis
  have "bit w i = bit (cht_select k x y d) i" if "i < 32" for i
    using S(3) [rule_format, of i] that by (simp add: nth_append del: upt_rec_numeral)
  moreover have "bit w 32 = (cht_found k x y \<noteq> 0)"
    using S(3) [rule_format, of 32] by (simp add: nth_append del: upt_rec_numeral)
  ultimately show ?thesis
    using S(1) shared_components [OF S(2)] by (simp add: lookup_compute_def Let_def)
qed

text \<open>Several lookups at once: each party holds a list of triples of shares.\<close>

type_synonym triples = "party \<Rightarrow> (128 word share \<times> 128 word share \<times> 128 word share) list"

definition shared_triples :: "triples \<Rightarrow> (128 word \<times> 128 word \<times> 128 word) list \<Rightarrow> bool" where
  "shared_triples V ts \<longleftrightarrow> (\<forall>p. length (V p) = length ts) \<and>
     (\<forall>i < length ts. shared (\<lambda>p. fst (V p ! i)) (fst (ts ! i)) \<and>
        shared (\<lambda>p. fst (snd (V p ! i))) (fst (snd (ts ! i))) \<and>
        shared (\<lambda>p. snd (snd (V p ! i))) (snd (snd (ts ! i))))"

lemma shared_triplesD:
  "shared_triples V ts \<Longrightarrow> length (V p) = length ts"
  "shared_triples V ts \<Longrightarrow> i < length ts \<Longrightarrow> shared (\<lambda>p. fst (V p ! i)) (fst (ts ! i))"
  "shared_triples V ts \<Longrightarrow> i < length ts \<Longrightarrow> shared (\<lambda>p. fst (snd (V p ! i))) (fst (snd (ts ! i)))"
  "shared_triples V ts \<Longrightarrow> i < length ts \<Longrightarrow> shared (\<lambda>p. snd (snd (V p ! i))) (snd (snd (ts ! i)))"
  by (simp_all add: shared_triples_def)

lemma lookup_padded_plain:
  assumes "shared K k" and "shared X x" and "shared Y y" and "shared D d"
  defines "inputs \<equiv> \<lambda>p. pack_lookup_inputs (K p) (X p) (Y p) (D p)"
  shows "evaluate_lookup_circuit_padded plain_gates (lookup_input_bits ID1 (inputs ID1))
      (lookup_input_bits ID2 (inputs ID2)) =
    Inr (map (bit (cht_select k x y d)) [0..<32] @ [cht_found k x y \<noteq> 0] @ replicate 95 False)"
proof -
  let ?out = "map (bit (cht_select k x y d)) [0..<32] @ [cht_found k x y \<noteq> 0]"
  have run: "evaluate_lookup_circuit plain_gates (lookup_input_bits ID1 (inputs ID1))
      (lookup_input_bits ID2 (inputs ID2)) = Inr ?out"
    using lookup_circuit_plain [OF assms(1-4)] by (auto simp: inputs_def simp del: upt_rec_numeral)
  have "length ?out = 33" by simp
  with plain.evaluate_padded_ok [OF run] show ?thesis by (auto simp del: upt_rec_numeral)
qed

lemma shared_components_of_bits:
  assumes "shared S w" and "word_bits w = map (bit v) [0..<32] @ [f \<noteq> 0] @ replicate 95 False"
  shows "shared (\<lambda>p. cast_share (S p)) (v :: 32 word)" and "shared (\<lambda>p. get_bit_share (S p) 32) (f :: 1 word)"
proof -
  have b: "bit w i = (map (bit v) [0..<32] @ [f \<noteq> 0] @ replicate 95 False) ! i" if "i < 128" for i
    using that unfolding assms(2) [symmetric] by (simp add: word_bits_def del: upt_rec_numeral)
  have low: "bit w i = bit v i" if "i < 32" for i
    using b [of i] that by (simp add: nth_append del: upt_rec_numeral)
  have top: "bit w 32 = (f \<noteq> 0)"
    using b [of 32] by (simp add: nth_append del: upt_rec_numeral)
  show "shared (\<lambda>p. cast_share (S p)) v" "shared (\<lambda>p. get_bit_share (S p) 32) f"
    by (rule shared_components [OF assms(1) low top]; assumption)+
qed

lemma lookup_compute_many_correct:
  assumes Y: "yao_ok Y" and V: "shared_triples V ts" and D: "shared_list D ds" and len: "length ds = length ts"
  shows "\<exists>R. lookup_compute_many Y V D = Inr R \<and> (\<forall>p. length (R p) = length ts) \<and>
    (\<forall>i < length ts. case ts ! i of (k, x, y) \<Rightarrow>
       shared (\<lambda>p. fst (R p ! i)) (cht_select k x y (ds ! i)) \<and> shared (\<lambda>p. snd (R p ! i)) (cht_found k x y))"
proof (cases "ts = []")
  case True
  then show ?thesis using shared_triplesD(1) [OF V] shared_listD(1) [OF D] len
    by (simp add: lookup_compute_many_def everywhereI)
next
  case False
  let ?C = "evaluate_lookup_circuit_padded plain_gates"
  let ?in = "\<lambda>p. map2 (\<lambda>(key, b0, b1). pack_lookup_inputs key b0 b1) (V p) (D p)"
  let ?ins = "zip (map (lookup_input_bits ID1) (?in ID1)) (map (lookup_input_bits ID2) (?in ID2))"
  let ?out = "\<lambda>i. case ts ! i of (k, x, y) \<Rightarrow>
    map (bit (cht_select k x y (ds ! i))) [0..<32] @ [cht_found k x y \<noteq> 0] @ replicate 95 False"
  have l: "length (V p) = length ts" "length (D p) = length ts" for p
    using shared_triplesD(1) [OF V] shared_listD(1) [OF D] len by simp_all
  have "(case ?ins ! i of (u, v) \<Rightarrow> ?C u v) = Inr (?out i)" if i: "i < length ts" for i
  proof -
    obtain k x y where t: "ts ! i = (k, x, y)" by (cases "ts ! i")
    have D': "shared (\<lambda>p. D p ! i) (ds ! i)" using shared_listD(2) [OF D] i len by simp
    have "?ins ! i = (lookup_input_bits ID1 (pack_lookup_inputs (fst (V ID1 ! i)) (fst (snd (V ID1 ! i)))
          (snd (snd (V ID1 ! i))) (D ID1 ! i)),
        lookup_input_bits ID2 (pack_lookup_inputs (fst (V ID2 ! i)) (fst (snd (V ID2 ! i)))
          (snd (snd (V ID2 ! i))) (D ID2 ! i)))"
      by (simp add: l i case_prod_beta)
    then show ?thesis
      using lookup_padded_plain [OF shared_triplesD(2-4) [OF V i] D'] by (simp only: t fst_conv snd_conv prod.case)
  qed
  then have "mapE (\<lambda>i. case ?ins ! i of (u, v) \<Rightarrow> ?C u v) [0..<length ts] = Inr (map ?out [0..<length ts])"
    by (intro mapE_total) simp
  then have "mapE (\<lambda>(u, v). ?C u v) (map ((!) ?ins) [0..<length ts]) = Inr (map ?out [0..<length ts])"
    unfolding mapE_map .
  moreover have "map ((!) ?ins) [0..<length ts] = ?ins"
    using map_nth [of ?ins] by (simp add: l)
  ultimately have run: "mapE (\<lambda>(u, v). ?C u v) ?ins = Inr (map ?out [0..<length ts])" by (simp only:)
  have "\<forall>out \<in> set (map ?out [0..<length ts]). length out = 128" by (auto split: prod.split)
  from yao_okD(2) [OF Y run this] obtain S xs where S: "yao_eval_many Y ?C ?ins = Inr S" "shared_list S xs"
    "map word_bits xs = map ?out [0..<length ts]" by blast
  have lx: "length xs = length ts" using arg_cong [OF S(3), of length] by simp
  have "case ts ! i of (k, x, y) \<Rightarrow>
       shared (\<lambda>p. cast_share (S p ! i) :: 32 word share) (cht_select k x y (ds ! i)) \<and>
       shared (\<lambda>p. get_bit_share (S p ! i) 32) (cht_found k x y)" if i: "i < length ts" for i
  proof -
    obtain k x y where t: "ts ! i = (k, x, y)" by (cases "ts ! i")
    have "word_bits (xs ! i) = ?out i" using arg_cong [OF S(3), of "\<lambda>l. l ! i"] i lx by simp
    then show ?thesis
      using shared_components_of_bits [OF shared_listD(2) [OF S(2)]] i lx by (simp add: t)
  qed
  moreover have lS: "length (S p) = length ts" for p using shared_listD(1) [OF S(2)] lx by simp
  moreover have "lookup_compute_many Y V D =
      Inr (\<lambda>p. map (\<lambda>o'. (cast_share o', get_bit_share o' 32)) (S p))"
  proof -
    have "V ID0 \<noteq> []" using l(1) [of ID0] False by auto
    then show ?thesis
      unfolding lookup_compute_many_def Let_def using S(1) by (simp add: everywhereI l)
  qed
  ultimately show ?thesis by (simp add: case_prod_beta)
qed

section \<open>Lookups in a shared table\<close>

record cht_lookup_result =
  lr_index :: nat
  lr_found :: "1 word share"

text \<open>What party \<open>p\<close> contributes for one key: the receivers their parts of the two locations, and one
  of them the key.\<close>

definition lookup_values ::
    "nat \<Rightarrow> party \<Rightarrow> party \<Rightarrow> 128 word list \<Rightarrow> 128 word \<Rightarrow> 128 word list res" where
  "lookup_values l builder p table key =
     (if p = builder then Inr [0, 0, 0]
      else bindE (getE table (h0 key l)) (\<lambda>b0. bindE (getE table (h1 key l)) (\<lambda>b1.
             Inr [if p = next_party builder then key else 0, b0, b1])))"

definition reveal_indices_to_receivers :: "network \<Rightarrow> party \<Rightarrow> 32 shares \<Rightarrow> (party \<Rightarrow> nat list) res" where
  "reveal_indices_to_receivers net builder indices =
     bindE (deliver net builder (next_party builder) (map sh_b (indices builder))) (\<lambda>c_next.
     bindE (deliver net (next_party builder) (prev_party builder) (map sh_b (indices (next_party builder)))) (\<lambda>c_prev.
       let reconstruct = (\<lambda>p cs. map2 (\<lambda>s c. unat (sh_a s XOR sh_b s XOR c)) (indices p) cs)
       in Inr (\<lambda>p. if p = builder then replicate (length (indices p)) 0
                  else if p = next_party builder then reconstruct p c_next
                  else reconstruct p c_prev)))"

definition reveal_index_to_receivers ::
    "network \<Rightarrow> party \<Rightarrow> (party \<Rightarrow> 32 word share) \<Rightarrow> (party \<Rightarrow> nat) res" where
  "reveal_index_to_receivers net builder index =
     bindE (deliver net builder (next_party builder) (sh_b (index builder))) (\<lambda>c_next.
     bindE (deliver net (next_party builder) (prev_party builder) (sh_b (index (next_party builder)))) (\<lambda>c_prev.
       Inr (\<lambda>p. if p = builder then 0
                else if p = next_party builder then unat (sh_a (index p) XOR sh_b (index p) XOR c_next)
                else unat (sh_a (index p) XOR sh_b (index p) XOR c_prev))))"

definition lookup_from_2shares ::
    "yao \<Rightarrow> nat \<Rightarrow> (party \<Rightarrow> 128 word list) \<Rightarrow> (party \<Rightarrow> 128 word) \<Rightarrow> (party \<Rightarrow> 32 word share) \<Rightarrow> party \<Rightarrow>
     network \<Rightarrow> rngs \<Rightarrow> (party \<Rightarrow> cht_lookup_result) res" where
  "lookup_from_2shares Y l table key dummy_index builder net rng =
     bindE (each_party (\<lambda>p. lookup_values l builder p (table p) (key p))) (\<lambda>values.
     bindE (from_2_shares values (prev_party builder) (next_party builder) net rng) (\<lambda>shares.
     checkE (everywhere (\<lambda>p. length (shares p) = 3)) (Panic ''unwrap'')
    (bindE (lookup_compute Y (\<lambda>p. shares p ! 0) (\<lambda>p. shares p ! 1) (\<lambda>p. shares p ! 2) dummy_index)
       (\<lambda>result.
     bindE (reveal_index_to_receivers net builder (\<lambda>p. fst (result p))) (\<lambda>index.
       Inr (\<lambda>p. \<lparr>lr_index = index p, lr_found = snd (result p)\<rparr>))))))"

fun chunks3 :: "'a list \<Rightarrow> ('a \<times> 'a \<times> 'a) list" where
  "chunks3 (a # b # c # xs) = (a, b, c) # chunks3 xs"
| "chunks3 _ = []"

definition lookup_from_2shares_many ::
    "yao \<Rightarrow> nat \<Rightarrow> (party \<Rightarrow> 128 word list) \<Rightarrow> (party \<Rightarrow> 128 word list) \<Rightarrow> 32 shares \<Rightarrow> party \<Rightarrow>
     network \<Rightarrow> rngs \<Rightarrow> (party \<Rightarrow> cht_lookup_result list) res" where
  "lookup_from_2shares_many Y l table keys dummy_indices builder net rng =
     checkE (everywhere (\<lambda>p. length (keys p) = length (dummy_indices p))) (Panic ''keys.len() == dummy_indices.len()'')
    (bindE (each_party (\<lambda>p. mapE (lookup_values l builder p (table p)) (keys p))) (\<lambda>values.
     bindE (from_2_shares (\<lambda>p. concat (values p)) (prev_party builder) (next_party builder) net rng) (\<lambda>shares.
     bindE (lookup_compute_many Y (\<lambda>p. chunks3 (shares p)) dummy_indices) (\<lambda>looked_up.
     bindE (reveal_indices_to_receivers net builder (\<lambda>p. map fst (looked_up p))) (\<lambda>indices.
       Inr (\<lambda>p. map2 (\<lambda>index (i, found). \<lparr>lr_index = index, lr_found = found\<rparr>)
                   (indices p) (looked_up p)))))))"

text \<open>What a key finds in a clear table.\<close>

definition find_index :: "nat \<Rightarrow> 128 word list \<Rightarrow> 128 word \<Rightarrow> 32 word \<Rightarrow> 32 word" where
  "find_index l table key dummy = cht_select key (table ! h0 key l) (table ! h1 key l) dummy"

definition find_flag :: "nat \<Rightarrow> 128 word list \<Rightarrow> 128 word \<Rightarrow> 1 word" where
  "find_flag l table key = cht_found key (table ! h0 key l) (table ! h1 key l)"

lemma reveal_index_correct:
  assumes "shared S x" and "online net"
  shows "reveal_index_to_receivers net builder S = Inr (\<lambda>p. if p = builder then 0 else unat x)"
proof -
  have "sh_a (S (next_party b)) XOR sh_b (S (next_party b)) XOR sh_b (S b) = x"
    "sh_a (S (prev_party b)) XOR sh_b (S (prev_party b)) XOR sh_b (S (next_party b)) = x" for b
    using shared_open_at [OF assms(1), of "next_party b"] shared_open_at [OF assms(1), of "prev_party b"]
    by simp_all
  then have "(if p = builder then 0
      else if p = next_party builder then unat (sh_a (S p) XOR sh_b (S p) XOR sh_b (S builder))
      else unat (sh_a (S p) XOR sh_b (S p) XOR sh_b (S (next_party builder)))) =
    (if p = builder then 0 else unat x)" for p
    using party_cases_around [of p builder] by auto
  then show ?thesis using assms(2) by (simp add: reveal_index_to_receivers_def fun_eq_iff)
qed

lemma reveal_indices_correct:
  assumes S: "shared_list S xs" and "online net"
  shows "reveal_indices_to_receivers net builder S =
    Inr (\<lambda>p. if p = builder then replicate (length xs) 0 else map unat xs)"
proof -
  have open_at: "map2 (\<lambda>s c. unat (sh_a s XOR sh_b s XOR c)) (S p) (map sh_b (S (prev_party p))) = map unat xs" for p
    using shared_listD(1) [OF S]
    by (intro nth_equalityI) (simp_all add: shared_list_open_at [OF S])
  have p: "prev_party (next_party b) = b" "prev_party (prev_party b) = next_party b" for b by simp_all
  have "(if p = builder then replicate (length (S p)) 0
      else if p = next_party builder then map2 (\<lambda>s c. unat (sh_a s XOR sh_b s XOR c)) (S p) (map sh_b (S builder))
      else map2 (\<lambda>s c. unat (sh_a s XOR sh_b s XOR c)) (S p) (map sh_b (S (next_party builder)))) =
    (if p = builder then replicate (length xs) 0 else map unat xs)" for p
    using party_cases_around [of p builder] open_at [of "next_party builder"] open_at [of "prev_party builder"]
    by (auto simp: shared_listD(1) [OF S])
  then show ?thesis using assms(2) by (simp add: reveal_indices_to_receivers_def Let_def fun_eq_iff)
qed

text \<open>The receivers' table parts and the key they both hold.\<close>

definition table_shared :: "party \<Rightarrow> (party \<Rightarrow> 128 word list) \<Rightarrow> nat \<Rightarrow> 128 word list \<Rightarrow> bool" where
  "table_shared builder T l table \<longleftrightarrow> l \<le> 62 \<and> length table = 2 * 2 ^ l \<and>
     two_shared T (prev_party builder) (next_party builder) table"

definition lookup_parts :: "(party \<Rightarrow> 128 word list) \<Rightarrow> nat \<Rightarrow> party \<Rightarrow> 128 word \<Rightarrow> party \<Rightarrow> 128 word list" where
  "lookup_parts T l builder key p = (if p = builder then [0, 0, 0]
     else [if p = next_party builder then key else 0, T p ! h0 key l, T p ! h1 key l])"

definition lookup_row :: "nat \<Rightarrow> 128 word list \<Rightarrow> 128 word \<Rightarrow> 128 word list" where
  "lookup_row l table key = [key, table ! h0 key l, table ! h1 key l]"

lemma hash_in_table:
  assumes "table_shared builder T l table"
  shows "h0 key l < length table" "h1 key l < length table" "length (T p) = length table"
proof -
  have l: "l \<le> 62" using assms by (simp add: table_shared_def)
  show "h0 key l < length table" "h1 key l < length table" "length (T p) = length table"
    using assms h0_less [OF l, of key] h1_less [OF l, of key] by (simp_all add: table_shared_def two_shared_def)
qed

lemma lookup_values_eq:
  assumes "table_shared builder T l table" and "p \<noteq> builder \<Longrightarrow> k = key"
  shows "lookup_values l builder p (T p) k = Inr (lookup_parts T l builder key p)"
  using hash_in_table [OF assms(1)] assms(2) by (auto simp: lookup_values_def lookup_parts_def)

lemma lookup_parts_shared:
  assumes "table_shared builder T l table"
  shows "two_shared (lookup_parts T l builder key) (prev_party builder) (next_party builder) (lookup_row l table key)"
  using assms hash_in_table(1,2) [OF assms, of key] hash_in_table(3) [OF assms]
  by (auto simp: table_shared_def two_shared_def lookup_parts_def lookup_row_def less_Suc_eq numeral_3_eq_3)

lemma two_shared_append:
  "two_shared L p q xs \<Longrightarrow> two_shared M p q ys \<Longrightarrow> two_shared (\<lambda>i. L i @ M i) p q (xs @ ys)"
  by (auto simp: two_shared_def nth_append)

lemma two_shared_concat:
  "(\<And>k. k \<in> set ks \<Longrightarrow> two_shared (f k) p q (g k)) \<Longrightarrow>
   two_shared (\<lambda>i. concat (map (\<lambda>k. f k i) ks)) p q (concat (map g ks))"
  by (induction ks) (auto simp: two_shared_append, simp add: two_shared_def)

lemma lookup_from_2shares_correct:
  assumes Y: "yao_ok Y" and T: "table_shared builder T l table"
    and keys: "\<And>p. p \<noteq> builder \<Longrightarrow> ks p = key" and D: "shared D d"
    and env: "online net" "correlated rng"
  shows "\<exists>R. lookup_from_2shares Y l T ks D builder net rng = Inr R \<and>
    (\<forall>p. p \<noteq> builder \<longrightarrow> lr_index (R p) = unat (find_index l table key d)) \<and>
    shared (\<lambda>p. lr_found (R p)) (find_flag l table key)"
proof -
  let ?L = "lookup_parts T l builder key"
  have L: "lookup_values l builder p (T p) (ks p) = Inr (?L p)" for p
    using lookup_values_eq [OF T keys] .
  obtain S where S: "from_2_shares ?L (prev_party builder) (next_party builder) net rng = Inr S"
    "shared_list S [key, table ! h0 key l, table ! h1 key l]"
    using from_2_shares_correct [OF lookup_parts_shared [OF T] _ env] by (auto simp: lookup_row_def)
  have "shared (\<lambda>p. S p ! 0) key" "shared (\<lambda>p. S p ! 1) (table ! h0 key l)" "shared (\<lambda>p. S p ! 2) (table ! h1 key l)"
    using shared_listD(2) [OF S(2), of 0] shared_listD(2) [OF S(2), of 1] shared_listD(2) [OF S(2), of 2]
    by simp_all
  from lookup_compute_correct [OF Y this D] obtain R where
    R: "lookup_compute Y (\<lambda>p. S p ! 0) (\<lambda>p. S p ! 1) (\<lambda>p. S p ! 2) D = Inr R"
    "shared (\<lambda>p. fst (R p)) (find_index l table key d)" "shared (\<lambda>p. snd (R p)) (find_flag l table key)"
    unfolding find_index_def find_flag_def by blast
  have "length (S p) = 3" for p using shared_listD(1) [OF S(2)] by simp
  then show ?thesis
    using L S(1) R by (simp add: lookup_from_2shares_def each_party_Inr everywhereI
        reveal_index_correct [OF R(2) env(1)])
qed

lemma chunks3_concat:
  "length xs = 3 * n \<Longrightarrow> length (chunks3 xs) = n \<and>
     (\<forall>i < n. chunks3 xs ! i = (xs ! (3 * i), xs ! (3 * i + 1), xs ! (3 * i + 2)))"
proof (induction xs arbitrary: n rule: chunks3.induct)
  case (1 a b c xs)
  then obtain m where "n = Suc m" "length xs = 3 * m" by (cases n) auto
  with 1 show ?case by (auto simp: nth_Cons less_Suc_eq_0_disj numeral_eq_Suc split: nat.splits)
qed auto

lemma shared_chunks:
  assumes S: "shared_list S (concat (map (lookup_row l table) keys))"
  shows "shared_triples (\<lambda>p. chunks3 (S p)) (map (\<lambda>key. (key, table ! h0 key l, table ! h1 key l)) keys)"
proof -
  let ?xs = "concat (map (lookup_row l table) keys)"
  have len: "length ?xs = 3 * length keys" by (induction keys) (simp_all add: lookup_row_def)
  have nth: "?xs ! (3 * i) = keys ! i \<and> ?xs ! (3 * i + 1) = table ! h0 (keys ! i) l \<and>
      ?xs ! (3 * i + 2) = table ! h1 (keys ! i) l" if "i < length keys" for i
    using that by (induction keys arbitrary: i)
      (auto simp: lookup_row_def nth_Cons numeral_eq_Suc split: nat.splits)
  have c: "length (chunks3 (S p)) = length keys"
    "i < length keys \<Longrightarrow> chunks3 (S p) ! i = (S p ! (3 * i), S p ! (3 * i + 1), S p ! (3 * i + 2))" for p i
    using chunks3_concat [of "S p" "length keys"] shared_listD(1) [OF S] len by simp_all
  have "shared (\<lambda>p. S p ! (3 * i)) (keys ! i) \<and> shared (\<lambda>p. S p ! (3 * i + 1)) (table ! h0 (keys ! i) l) \<and>
      shared (\<lambda>p. S p ! (3 * i + 2)) (table ! h1 (keys ! i) l)" if i: "i < length keys" for i
    using shared_listD(2) [OF S, of "3 * i"] shared_listD(2) [OF S, of "3 * i + 1"]
      shared_listD(2) [OF S, of "3 * i + 2"] nth [OF i] i len by simp
  then show ?thesis by (simp add: shared_triples_def c)
qed

lemma lookup_from_2shares_many_correct:
  assumes Y: "yao_ok Y" and T: "table_shared builder T l table"
    and keys: "\<And>p. p \<noteq> builder \<Longrightarrow> ks p = keys" "length (ks builder) = length keys"
    and D: "shared_list D ds" and len: "length ds = length keys"
    and env: "online net" "correlated rng"
  shows "\<exists>R. lookup_from_2shares_many Y l T ks D builder net rng = Inr R \<and>
    (\<forall>p. length (R p) = length keys) \<and>
    (\<forall>p i. p \<noteq> builder \<longrightarrow> i < length keys \<longrightarrow>
      lr_index (R p ! i) = unat (find_index l table (keys ! i) (ds ! i))) \<and>
    (\<forall>i < length keys. shared (\<lambda>p. lr_found (R p ! i)) (find_flag l table (keys ! i)))"
proof -
  let ?ts = "map (\<lambda>key. (key, table ! h0 key l, table ! h1 key l)) keys"
  let ?L = "\<lambda>p. map (\<lambda>key. lookup_parts T l builder key p) keys"
  have lk: "length (ks p) = length keys" for p using keys by (cases "p = builder") auto
  have L: "mapE (lookup_values l builder p (T p)) (ks p) = Inr (?L p)" for p
  proof -
    have "mapE (\<lambda>i. lookup_values l builder p (T p) (ks p ! i)) [0..<length keys] =
        Inr (map (\<lambda>i. lookup_parts T l builder (keys ! i) p) [0..<length keys])"
      by (rule mapE_total, rule lookup_values_eq [OF T]) (simp add: keys(1))
    moreover have "ks p = map ((!) (ks p)) [0..<length keys]" using map_nth [of "ks p"] by (simp add: lk)
    moreover have "?L p = map (\<lambda>i. lookup_parts T l builder (keys ! i) p) [0..<length keys]"
      by (rule nth_equalityI) simp_all
    ultimately show ?thesis by (metis mapE_map)
  qed
  have two: "two_shared (\<lambda>p. concat (?L p)) (prev_party builder) (next_party builder)
      (concat (map (lookup_row l table) keys))"
    by (rule two_shared_concat) (rule lookup_parts_shared [OF T])
  obtain S where S: "from_2_shares (\<lambda>p. concat (?L p)) (prev_party builder) (next_party builder) net rng = Inr S"
    "shared_list S (concat (map (lookup_row l table) keys))"
    using from_2_shares_correct [OF two _ env] by auto
  obtain R where R: "lookup_compute_many Y (\<lambda>p. chunks3 (S p)) D = Inr R" "\<forall>p. length (R p) = length keys"
    "\<forall>i < length keys. shared (\<lambda>p. fst (R p ! i)) (find_index l table (keys ! i) (ds ! i)) \<and>
       shared (\<lambda>p. snd (R p ! i)) (find_flag l table (keys ! i))"
    using lookup_compute_many_correct [OF Y shared_chunks [OF S(2)] D] len
    by (auto simp: find_index_def find_flag_def)
  let ?is = "map (\<lambda>i. find_index l table (keys ! i) (ds ! i)) [0..<length keys]"
  have "shared_list (\<lambda>p. map fst (R p)) ?is" using R(2,3) by (simp add: shared_list_def)
  note rev = reveal_indices_correct [OF this env(1)]
  let ?R = "\<lambda>p. map2 (\<lambda>index (i, found). \<lparr>lr_index = index, lr_found = found\<rparr>)
    (if p = builder then replicate (length ?is) 0 else map unat ?is) (R p)"
  have ok: "everywhere (\<lambda>p. length (ks p) = length (D p))"
    by (rule everywhereI) (simp add: lk shared_listD(1) [OF D] len)
  have "lookup_from_2shares_many Y l T ks D builder net rng = Inr ?R"
    unfolding lookup_from_2shares_many_def checkE_True [OF ok] each_party_Inr [OF L] bindE_simps S(1) R(1) rev ..
  then show ?thesis using R(2,3) by (intro exI [of _ ?R]) (auto simp: case_prod_beta)
qed

section \<open>Lookups in a built table\<close>

lemma block_tag_eq: "block_tag a = block_tag b \<longleftrightarrow> drop_bit 32 a = drop_bit 32 b"
proof -
  have "ucast (block_tag c) = drop_bit 32 c" for c
    by (rule bit_word_eqI) (auto simp: block_tag_def bit_simps dest: bit_imp_le_length)
  then show ?thesis unfolding block_tag_def by metis
qed

lemma hash_of_tag:
  assumes "block_tag a = block_tag b"
  shows "h0 a l = h0 b l" and "h1 a l = h1 b l"
proof -
  have "drop_bit 32 (drop_bit 32 a) = drop_bit 32 (drop_bit 32 b)"
    "drop_bit 64 (drop_bit 32 a) = drop_bit 64 (drop_bit 32 b)"
    using assms by (simp_all add: block_tag_eq)
  then show "h0 a l = h0 b l" "h1 a l = h1 b l" by (simp_all add: h0_def h1_def)
qed

lemma block_tag_0 [simp]: "block_tag 0 = 0"
  by (simp add: block_tag_def)

text \<open>Tags that tell the blocks apart from each other and from an empty location.\<close>

definition good_tags :: "128 word list \<Rightarrow> bool" where
  "good_tags xs \<longleftrightarrow> distinct (map block_tag xs) \<and> 0 \<notin> set (map block_tag xs)"

lemma good_tagsD:
  "good_tags xs \<Longrightarrow> i < length xs \<Longrightarrow> block_tag (xs ! i) \<noteq> 0"
  "good_tags xs \<Longrightarrow> i < length xs \<Longrightarrow> j < length xs \<Longrightarrow> block_tag (xs ! i) = block_tag (xs ! j) \<Longrightarrow> i = j"
  unfolding good_tags_def by (metis length_map nth_map nth_mem, metis distinct_conv_nth length_map nth_map)

text \<open>What a built table answers; the stashed positions \<open>K\<close> are not in it.\<close>

definition table_answers :: "nat \<Rightarrow> 128 word list \<Rightarrow> 128 word list \<Rightarrow> nat set \<Rightarrow> bool" where
  "table_answers l xs table K \<longleftrightarrow>
     (\<forall>key d. \<forall>e < length xs. e \<notin> K \<longrightarrow> block_tag key = block_tag (xs ! e) \<longrightarrow>
        find_index l table key d = low_u32 (xs ! e) \<and> find_flag l table key = 1) \<and>
     (\<forall>key d. block_tag key \<noteq> 0 \<longrightarrow> (\<forall>e < length xs. e \<notin> K \<longrightarrow> block_tag key \<noteq> block_tag (xs ! e)) \<longrightarrow>
        find_index l table key d = d \<and> find_flag l table key = 0)"

lemma represents_answers:
  assumes l: "l \<le> 62" and rep: "cht_represents s l xs table stash" and tags: "good_tags xs"
  shows "length table = 2 * 2 ^ l \<and> (\<exists>K. K \<subseteq> {..<length xs} \<and> card K = s \<and>
    stash = map (\<lambda>e. unat (low_u32 (xs ! e))) (filter (\<lambda>e. e \<in> K) [0..<length xs]) \<and>
    table_answers l xs table K)"
proof -
  from rep obtain K f where len: "length table = 2 * 2 ^ l" and K: "K \<subseteq> {..<length xs}" "card K = s"
    "stash = map (\<lambda>e. unat (low_u32 (xs ! e))) (filter (\<lambda>e. e \<in> K) [0..<length xs])"
    and inj: "inj_on f ({..<length xs} - K)"
    and at: "\<And>e. e < length xs \<Longrightarrow> e \<notin> K \<Longrightarrow> (f e = h0 (xs ! e) l \<or> f e = h1 (xs ! e) l) \<and> table ! f e = xs ! e"
    and free: "\<And>i. i < length table \<Longrightarrow> i \<notin> f ` ({..<length xs} - K) \<Longrightarrow> table ! i = 0"
    unfolding cht_represents_def by blast
  have slots: "h0 key l < length table" "h1 key l < length table" "h0 key l \<noteq> h1 key l" for key
    using h0_less [OF l, of key] h1_less [OF l, of key] h1_ge [OF l, of key] len by simp_all
  have content: "block_tag (table ! i) = 0 \<or> (\<exists>e < length xs. e \<notin> K \<and> f e = i \<and> table ! i = xs ! e)"
    if "i < length table" for i
    using free [OF that] at by (cases "i \<in> f ` ({..<length xs} - K)") auto
  have "find_index l table key d = low_u32 (xs ! e) \<and> find_flag l table key = 1"
    if e: "e < length xs" "e \<notin> K" and t: "block_tag key = block_tag (xs ! e)" for key d e
  proof -
    have other: "block_tag (table ! i) \<noteq> block_tag key" if "i < length table" "i \<noteq> f e" for i
      using content [OF that(1)] that(2) t good_tagsD [OF tags] e by metis
    have "f e = h0 key l \<or> f e = h1 key l" using at [OF e] hash_of_tag [OF t] by simp
    then show ?thesis
    proof
      assume "f e = h0 key l"
      then show ?thesis
        using at [OF e] t other [of "h1 key l"] slots [of key]
        by (simp add: find_index_def find_flag_def cht_select_def cht_found_def)
    next
      assume "f e = h1 key l"
      then show ?thesis
        using at [OF e] t other [of "h0 key l"] slots [of key]
        by (simp add: find_index_def find_flag_def cht_select_def cht_found_def eq_commute [of "block_tag key"])
    qed
  qed
  moreover have "find_index l table key d = d \<and> find_flag l table key = 0"
    if "block_tag key \<noteq> 0" "\<forall>e < length xs. e \<notin> K \<longrightarrow> block_tag key \<noteq> block_tag (xs ! e)" for key d
  proof -
    have "block_tag (table ! i) \<noteq> block_tag key" if "i < length table" for i
      using content [OF that] that \<open>block_tag key \<noteq> 0\<close>
        \<open>\<forall>e < length xs. e \<notin> K \<longrightarrow> block_tag key \<noteq> block_tag (xs ! e)\<close> by metis
    then show ?thesis
      using slots [of key] by (simp add: find_index_def find_flag_def cht_select_def cht_found_def eq_commute [of "block_tag key"])
  qed
  ultimately show ?thesis using len K unfolding table_answers_def by blast
qed

section \<open>Properties\<close>

text \<open>A garbled evaluation that simply computes the circuit, for concrete runs.\<close>

definition plain_yao :: yao where
  "plain_yao = \<lparr>yao_eval = (\<lambda>C u v. bindE (C u v) (\<lambda>out.
       Inr (\<lambda>p. promote_public p (word_of (\<lambda>i. i < length out \<and> out ! i))))),
     yao_eval_many = (\<lambda>C ins. bindE (mapE (\<lambda>(u, v). C u v) ins) (\<lambda>outs.
       Inr (\<lambda>p. map (\<lambda>out. promote_public p (word_of (\<lambda>i. i < length out \<and> out ! i))) outs)))\<rparr>"

lemma plain_yao_ok: "yao_ok plain_yao"
  unfolding yao_ok_def
proof (intro conjI allI impI)
  fix C :: circuit and u v out
  assume "C u v = Inr out" "length out \<le> 128"
  then show "\<exists>S x. yao_eval plain_yao C u v = Inr S \<and> shared S x \<and> (\<forall>i < length out. bit x i = out ! i)"
    by (auto simp: plain_yao_def intro!: exI [of _ "word_of (\<lambda>i. i < length out \<and> out ! i)"] shared_promote_public)
next
  fix C :: circuit and ins outs
  assume "mapE (\<lambda>(u, v). C u v) ins = Inr outs" and len: "\<forall>out \<in> set outs. length out = 128"
  moreover have "word_bits (word_of (\<lambda>i. i < length out \<and> out ! i)) = out" if "out \<in> set outs" for out
    using len that by (intro nth_equalityI) (simp_all add: word_bits_def del: upt_rec_numeral)
  ultimately show "\<exists>S xs. yao_eval_many plain_yao C ins = Inr S \<and> shared_list S xs \<and> map word_bits xs = outs"
    by (auto simp: plain_yao_def shared_list_def map_idI comp_def
        intro!: exI [of _ "map (\<lambda>out. word_of (\<lambda>i. i < length out \<and> out ! i)) outs"] shared_promote_public)
qed

text \<open>C20: A lookup in a table that \<open>build\<close> returned, its parts held by the two receivers, finds the
  index of the block with the key's tag unless this block was stashed, and returns the dummy index,
  and "not found", for a tag that no block has. The builder learns neither.\<close>

theorem cht_lookup_finds:
  assumes "l \<le> 62" and "cht_build s l xs = Inr (table, stash)" and "good_tags xs"
    and "two_shared T (prev_party builder) (next_party builder) table" and "shared D d"
    and "yao_ok Y" and "online net" and "correlated rng" and "block_tag key \<noteq> 0"
  shows "\<exists>R. lookup_from_2shares Y l T (\<lambda>p. if p = builder then 0 else key) D builder net rng = Inr R \<and>
    (\<forall>e < length xs. block_tag key = block_tag (xs ! e) \<and> unat (low_u32 (xs ! e)) \<notin> set stash \<longrightarrow>
       shared (\<lambda>p. lr_found (R p)) 1 \<and> (\<forall>p. p \<noteq> builder \<longrightarrow> lr_index (R p) = unat (low_u32 (xs ! e)))) \<and>
    (block_tag key \<notin> block_tag ` set xs \<longrightarrow>
       shared (\<lambda>p. lr_found (R p)) 0 \<and> (\<forall>p. p \<noteq> builder \<longrightarrow> lr_index (R p) = unat d))"
proof -
  from represents_answers [OF assms(1) cht_built_represents [OF assms(1,2)] assms(3)]
  obtain K where len: "length table = 2 * 2 ^ l"
    and stash: "stash = map (\<lambda>e. unat (low_u32 (xs ! e))) (filter (\<lambda>e. e \<in> K) [0..<length xs])"
    and ans: "table_answers l xs table K" by blast
  have T: "table_shared builder T l table" using assms(1,4) len by (simp add: table_shared_def)
  obtain R where R: "lookup_from_2shares Y l T (\<lambda>p. if p = builder then 0 else key) D builder net rng = Inr R"
    "\<forall>p. p \<noteq> builder \<longrightarrow> lr_index (R p) = unat (find_index l table key d)"
    "shared (\<lambda>p. lr_found (R p)) (find_flag l table key)"
    using lookup_from_2shares_correct [OF assms(6) T _ assms(5,7,8), of "\<lambda>p. if p = builder then 0 else key" key]
    by auto
  have "e \<notin> K" if "e < length xs" "unat (low_u32 (xs ! e)) \<notin> set stash" for e
    using that by (auto simp: stash)
  then have "find_index l table key d = low_u32 (xs ! e) \<and> find_flag l table key = 1"
    if "e < length xs" "block_tag key = block_tag (xs ! e)" "unat (low_u32 (xs ! e)) \<notin> set stash" for e
    using ans that unfolding table_answers_def by blast
  then have hit: "shared (\<lambda>p. lr_found (R p)) 1 \<and> (\<forall>p. p \<noteq> builder \<longrightarrow> lr_index (R p) = unat (low_u32 (xs ! e)))"
    if "e < length xs" "block_tag key = block_tag (xs ! e)" "unat (low_u32 (xs ! e)) \<notin> set stash" for e
    using R(2,3) that by simp
  have "find_index l table key d = d \<and> find_flag l table key = 0" if "block_tag key \<notin> block_tag ` set xs"
    using ans that assms(9) nth_mem unfolding table_answers_def by blast
  then have miss: "shared (\<lambda>p. lr_found (R p)) 0 \<and> (\<forall>p. p \<noteq> builder \<longrightarrow> lr_index (R p) = unat d)"
    if "block_tag key \<notin> block_tag ` set xs"
    using R(2,3) that by simp
  show ?thesis using R(1) hit miss by blast
qed

theorem cht_lookup_finds_witness:
  "\<exists>R. lookup_from_2shares plain_yao 1
      (\<lambda>p. if p = ID2 then [0x100000000, 0, 0x200000001, 0] else [0, 0, 0, 0])
      (\<lambda>p. if p = ID0 then 0 else 0x200000009) (\<lambda>p. promote_public p 7) ID0 all_online zero_rng = Inr R \<and>
    shared (\<lambda>p. lr_found (R p)) 1 \<and> lr_index (R ID1) = 1"
proof -
  have b: "cht_build 0 1 [0x100000000, 0x200000001] = Inr ([0x100000000, 0, 0x200000001, 0], [])" by code_simp
  have t: "two_shared (\<lambda>p. if p = ID2 then [0x100000000, 0, 0x200000001, 0] else [0, 0, 0, 0])
      (prev_party ID0) (next_party ID0) [0x100000000, 0, 0x200000001 :: 128 word, 0]"
    by (simp add: two_shared_def less_Suc_eq numeral_eq_Suc)
  have g: "good_tags [0x100000000, 0x200000001]"
    and k: "block_tag 0x200000009 = block_tag 0x200000001" "block_tag 0x200000009 \<noteq> 0"
    and u: "unat (low_u32 0x200000001) = 1"
    by (simp_all add: good_tags_def block_tag_def low_u32_def drop_bit_eq_div)
  note f = cht_lookup_finds [OF _ b g t shared_promote_public plain_yao_ok concrete_environment k(2), of 7]
  obtain R where R: "lookup_from_2shares plain_yao 1
      (\<lambda>p. if p = ID2 then [0x100000000, 0, 0x200000001, 0] else [0, 0, 0, 0])
      (\<lambda>p. if p = ID0 then 0 else 0x200000009) (\<lambda>p. promote_public p 7) ID0 all_online zero_rng = Inr R"
    "\<forall>e < length [0x100000000, 0x200000001 :: 128 word].
       block_tag 0x200000009 = block_tag ([0x100000000, 0x200000001] ! e) \<and>
       unat (low_u32 ([0x100000000, 0x200000001] ! e)) \<notin> set [] \<longrightarrow>
       shared (\<lambda>p. lr_found (R p)) 1 \<and>
       (\<forall>p. p \<noteq> ID0 \<longrightarrow> lr_index (R p) = unat (low_u32 ([0x100000000, 0x200000001] ! e)))"
    using f by auto
  have "shared (\<lambda>p. lr_found (R p)) 1 \<and> lr_index (R ID1) = 1"
    using R(2) [rule_format, of 1] k(1) u by simp
  then show ?thesis using R(1) by blast
qed

end
