(* ===== verification/Oht.thy ===== *)
theory Oht
  imports Cht_Lookup Lowmc Array_Shuffle Speed_Cache Config
begin

text \<open>
  The oblivious hash table on shares: \<open>crates/data-structures/src/ohtable.rs\<close>. Entries get a LowMC
  tag, are shuffled together with dummies into builder order, placed by the builder, who sees the
  tags only, into a cuckoo table, and shuffled again into receiver order by a permutation that the
  two receivers share. A query reveals its tag to the receivers, who look up a builder-order index,
  or a dummy's, and learn the receiver-order slot to touch.

  The table of the three parties is a function of the party. What comes from the backend is a
  parameter: \<open>cmux\<close> and \<open>and_vec\<close> are \<open>binary::cmux\<close> and \<open>binary::and_vec\<close>, \<open>rand\<close> what
  \<open>arithmetic::rand\<close> drew, \<open>gen\<close> the local generator of the builder's permutation, and \<open>rng\<close> the
  common generators at the start of an operation.
\<close>

unbundle bit_operations_syntax

section \<open>State\<close>

definition BUILDER_ID :: party where "BUILDER_ID = ID0"

record oht_query_trace =
  old_query_count :: nat
  selected_receiver_index :: nat
  was_touched_before :: bool

record (overloaded) 'v oh_table =
  oht_params :: ohtable_params
  oht_key :: "128 word share list"
  stash_xs :: "32 word share list"
  stash_ys :: "'v dr_record list"
  builder_stash_indices :: "nat list"
  qs_builder_order :: "128 word share list"
  xs_builder_order :: "32 word share list"
  ys_builder_order :: "'v dr_record list"
  dummy_indices :: "32 word share list"
  xs_receiver_order :: "32 word share list"
  ys_receiver_order :: "'v dr_record list"
  cht_2shares :: "128 word list option"
  receiver_shuffle :: "local_permutation option"
  query_count :: nat
  touched :: "bool list"
  last_query_trace :: "oht_query_trace option"

type_synonym 'v oh_tables = "party \<Rightarrow> 'v oh_table"

definition fresh_table :: "ohtable_params \<Rightarrow> (party \<Rightarrow> 128 word share list) \<Rightarrow> 'v::len oh_tables" where
  "fresh_table params key = (\<lambda>p.
     (let total = oh_total_size params; stash = oh_stash_size params
      in \<lparr>oht_params = params, oht_key = key p,
          stash_xs = replicate stash zero_share, stash_ys = replicate stash record_zero,
          builder_stash_indices = replicate stash 0,
          qs_builder_order = replicate total zero_share,
          xs_builder_order = replicate total (dummy_x p (oh_log_address_space_size params)),
          ys_builder_order = replicate total record_zero,
          dummy_indices = replicate (oh_num_dummies params) zero_share,
          xs_receiver_order = replicate total zero_share,
          ys_receiver_order = replicate total record_zero,
          cht_2shares = None, receiver_shuffle = None, query_count = 0,
          touched = replicate total False, last_query_trace = None\<rparr>))"

section \<open>Building\<close>

text \<open>\<open>dst[..n].copy_from_slice(src)\<close>\<close>

definition copy_prefix :: "nat \<Rightarrow> 'a list \<Rightarrow> 'a list \<Rightarrow> 'a list res" where
  "copy_prefix n src dst =
     checkE (n \<le> length dst \<and> length src = n) (Panic ''copy_from_slice: lengths'') (Inr (src @ drop n dst))"

definition fill_prf_tags ::
    "network \<Rightarrow> rngs \<Rightarrow> 32 shares \<Rightarrow> 'v::len oh_tables \<Rightarrow> ('v oh_tables \<times> rngs) res" where
  "fill_prf_tags net rng xs T =
     (let inputs = (\<lambda>p. upcast_x_to_block_many (xs p));
          keys = (\<lambda>p. replicate (length (inputs p)) (oht_key (T p)))
      in bindE (encrypt_many net rng keys inputs) (\<lambda>qs.
         bindE (each_party (\<lambda>p.
             bindE (copy_prefix (oh_num_elements (oht_params (T p))) (qs p) (qs_builder_order (T p))) (\<lambda>q.
               Inr ((T p)\<lparr>qs_builder_order := q\<rparr>)))) (\<lambda>T'.
           Inr (T', skip_draws (9 * length (inputs ID0)) rng))))"

text \<open>\<open>ArrayShuffler::new\<close> of all parties; each goes on with its own position in its generators.\<close>

definition new_shufflers :: "rngs \<Rightarrow> nat \<Rightarrow> ((party \<Rightarrow> array_shuffler) \<times> rngs) res" where
  "new_shufflers rng len =
     bindE (each_party (\<lambda>p. case shuffler_new rng p 0 len of None \<Rightarrow> Inl OutOfFuel | Some r \<Rightarrow> Inr r))
       (\<lambda>r. Inr (\<lambda>p. fst (r p), \<lambda>k p. rng (snd (r p) + k) p))"

definition payload_columns :: "'v::len value_ops \<Rightarrow> 32 word share list \<Rightarrow> 'v dr_record list \<Rightarrow> 128 word share list list" where
  "payload_columns V xs ys =
     [upcast_x_to_block_many xs] @ to_blocks V (get_y_values ys) @ [alibi_to_blocks (get_alibis ys)]"

definition columns_payload ::
    "'v::len value_ops \<Rightarrow> 128 word share list list \<Rightarrow> 32 word share list \<times> 'v dr_record list" where
  "columns_payload V cols =
     (downcast_many (cols ! 0),
      from_columns (from_blocks V (take (num_blocks V) (drop 1 cols)))
        (alibi_from_blocks (cols ! (num_blocks V + 1))))"

definition shuffle_builder_order ::
    "'v::len value_ops \<Rightarrow> network \<Rightarrow> rngs \<Rightarrow> 32 shares \<Rightarrow> (party \<Rightarrow> 'v dr_record list) \<Rightarrow> 'v oh_tables \<Rightarrow>
     ('v oh_tables \<times> rngs) res" where
  "shuffle_builder_order V net rng xs ys T =
     bindE (each_party (\<lambda>p.
         bindE (copy_prefix (oh_num_elements (oht_params (T p))) (xs p) (xs_builder_order (T p))) (\<lambda>xs'.
         bindE (copy_prefix (oh_num_elements (oht_params (T p))) (ys p) (ys_builder_order (T p))) (\<lambda>ys'.
           Inr ((T p)\<lparr>xs_builder_order := xs', ys_builder_order := ys'\<rparr>))))) (\<lambda>T1.
     let columns = (\<lambda>p. qs_builder_order (T1 p) #
            payload_columns V (xs_builder_order (T1 p)) (ys_builder_order (T1 p)));
         indices = (\<lambda>p. [map (\<lambda>i. promote_public p (of_nat i)) [0..<oh_total_size (oht_params (T1 p))]])
     in bindE (new_shufflers rng (oh_total_size (oht_params (T1 ID0)))) (\<lambda>(sh, rng1).
        bindE (shuffle_many sh columns indices net rng1) (\<lambda>(cols, inds).
          Inr (\<lambda>p. (T1 p)\<lparr>qs_builder_order := cols p ! 0,
                 xs_builder_order := fst (columns_payload V (tl (cols p))),
                 ys_builder_order := snd (columns_payload V (tl (cols p))),
                 dummy_indices := downcast_many (drop (oh_num_elements (oht_params (T1 p))) (inds p ! 0))\<rparr>,
               skip_draws (3 * (total_length (columns ID0) + total_length (indices ID0))) rng1))))"

definition reveal_qs_to_builder :: "network \<Rightarrow> 'v::len oh_tables \<Rightarrow> (party \<Rightarrow> 128 word list option) res" where
  "reveal_qs_to_builder net T =
     bindE (deliver net (prev_party BUILDER_ID) BUILDER_ID (map sh_b (qs_builder_order (T (prev_party BUILDER_ID)))))
       (\<lambda>prev_b. Inr (\<lambda>p. if p = BUILDER_ID
          then Some (map2 (\<lambda>own b. sh_a own XOR sh_b own XOR b) (qs_builder_order (T p)) prev_b) else None))"

definition compact_tags :: "128 word list \<Rightarrow> 128 word list" where
  "compact_tags qs =
     map (\<lambda>(i, q). set_low_u32 q (of_nat i)) (filter (\<lambda>(i, q). q \<noteq> 0) (enumerate 0 qs))"

definition local_table ::
    "(nat \<Rightarrow> nat) \<Rightarrow> ohtable_params \<Rightarrow> 128 word list option \<Rightarrow> (128 word list \<times> nat list) res" where
  "local_table gen params revealed =
     (case revealed of
        Some qs \<Rightarrow> bindE (shuffle_lp (sample_from_rng (oh_num_elements params) gen) (compact_tags qs))
                     (cht_build (oh_stash_size params) (oh_log_single_col_len params))
      | None \<Rightarrow> Inr (cht_dummy (oh_stash_size params) (oh_log_single_col_len params)))"

definition build_cht ::
    "network \<Rightarrow> rngs \<Rightarrow> (nat \<Rightarrow> nat) \<Rightarrow> 'v::len oh_tables \<Rightarrow> ('v oh_tables \<times> (party \<Rightarrow> nat list) \<times> rngs) res" where
  "build_cht net rng gen T =
     bindE (reveal_qs_to_builder net T) (\<lambda>revealed.
     bindE (each_party (\<lambda>p. local_table gen (oht_params (T p)) (revealed p))) (\<lambda>local.
     bindE (input_shares BUILDER_ID (\<lambda>p. fst (local p)) net rng) (\<lambda>cht_shares.
       Inr (\<lambda>p. (T p)\<lparr>cht_2shares := Some (reshare_3_to_2 (cht_shares p)
                (next_party BUILDER_ID) (prev_party BUILDER_ID) p)\<rparr>,
            \<lambda>p. snd (local p), skip_draws (length (fst (local ID0))) rng))))"

definition shuffle_receiver_order ::
    "'v::len value_ops \<Rightarrow> network \<Rightarrow> rngs \<Rightarrow> 'v oh_tables \<Rightarrow>
     ('v oh_tables \<times> (party \<Rightarrow> local_permutation option)) res" where
  "shuffle_receiver_order V net rng T =
     (let columns = (\<lambda>p. payload_columns V (xs_builder_order (T p)) (ys_builder_order (T p)))
      in bindE (new_shufflers rng (oh_total_size (oht_params (T ID0)))) (\<lambda>(sh, rng1).
         bindE (forward_many_known_to_p_and_next sh (next_party BUILDER_ID) columns net rng1) (\<lambda>cols.
           Inr (\<lambda>p. (T p)\<lparr>xs_receiver_order := fst (columns_payload V (cols p)),
                           ys_receiver_order := snd (columns_payload V (cols p))\<rparr>,
                \<lambda>p. if p = BUILDER_ID then None
                    else if p = next_party BUILDER_ID then Some (next_shared_perm (sh p))
                    else Some (prev_shared_perm (sh p))))))"

text \<open>Evaluating a receiver's permutation at several indices; its table is computed on the first call.\<close>

definition unwrap_shuffle :: "string \<Rightarrow> local_permutation option \<Rightarrow> local_permutation res" where
  "unwrap_shuffle msg lp = (case lp of Some p \<Rightarrow> Inr p | None \<Rightarrow> Inl (Panic msg))"

definition evaluate_all :: "local_permutation \<Rightarrow> nat list \<Rightarrow> (nat list \<times> local_permutation) res" where
  "evaluate_all lp is = foldE (\<lambda>i (outs, lp). bindE (evaluate_at lp i) (\<lambda>(j, lp'). Inr (outs @ [j], lp'))) is ([], lp)"

definition place_one :: "nat \<times> nat \<Rightarrow> 'v::len oh_table \<Rightarrow> 'v oh_table res" where
  "place_one = (\<lambda>(stash_pos, receiver_index) t.
     bindE (setE (touched t) receiver_index True) (\<lambda>touched'.
     bindE (getE (xs_receiver_order t) receiver_index) (\<lambda>x.
     bindE (setE (stash_xs t) stash_pos x) (\<lambda>sxs.
     bindE (getE (ys_receiver_order t) receiver_index) (\<lambda>y.
     bindE (setE (stash_ys t) stash_pos y) (\<lambda>sys.
       Inr (t\<lparr>touched := touched', stash_xs := sxs, stash_ys := sys\<rparr>)))))))"

definition place_stash ::
    "network \<Rightarrow> (party \<Rightarrow> nat list) \<Rightarrow> (party \<Rightarrow> local_permutation option) \<Rightarrow> 'v::len oh_tables \<Rightarrow>
     'v oh_tables res" where
  "place_stash net stashed_indices shuffle T =
     (let B = BUILDER_ID
      in bindE (deliver net B (prev_party B) (stashed_indices B)) (\<lambda>at_prev.
         bindE (deliver net B (next_party B) (stashed_indices B)) (\<lambda>at_next.
         bindE (bindE (unwrap_shuffle ''receiver party should have a receiver shuffle'' (shuffle (prev_party B)))
                  (\<lambda>lp. evaluate_all lp at_prev)) (\<lambda>(inds_prev, lp_prev).
         bindE (bindE (unwrap_shuffle ''receiver party should have a receiver shuffle'' (shuffle (next_party B)))
                  (\<lambda>lp. evaluate_all lp at_next)) (\<lambda>(inds_next, lp_next).
         bindE (deliver net (prev_party B) B inds_prev) (\<lambda>inds_builder.
         each_party (\<lambda>p.
           let (bsi, inds, lp) = (if p = B then (stashed_indices B, inds_builder, shuffle B)
                else if p = prev_party B then (at_prev, inds_prev, Some lp_prev)
                else (at_next, inds_next, Some lp_next))
           in bindE (foldE place_one (enumerate 0 inds) ((T p)\<lparr>builder_stash_indices := bsi\<rparr>)) (\<lambda>t.
                Inr (t\<lparr>receiver_shuffle := lp\<rparr>)))))))))"

definition oht_build ::
    "'v::len value_ops \<Rightarrow> network \<Rightarrow> rngs \<Rightarrow> (nat \<Rightarrow> nat) \<Rightarrow> 32 shares \<Rightarrow> (party \<Rightarrow> 'v dr_record list) \<Rightarrow>
     'v oh_tables \<Rightarrow> 'v oh_tables res" where
  "oht_build V net rng gen xs ys T =
     checkE (everywhere (\<lambda>p. length (xs p) = oh_num_elements (oht_params (T p)) \<and>
                             length (ys p) = oh_num_elements (oht_params (T p)))) (Panic ''build: lengths'')
    (bindE (fill_prf_tags net rng xs T) (\<lambda>(T1, rng1).
     bindE (shuffle_builder_order V net rng1 xs ys T1) (\<lambda>(T2, rng2).
     bindE (build_cht net rng2 gen T2) (\<lambda>(T3, stashed_indices, rng3).
     bindE (shuffle_receiver_order V net rng3 T3) (\<lambda>(T4, shuffle).
       place_stash net stashed_indices shuffle T4)))))"

definition oht_new ::
    "'v::len value_ops \<Rightarrow> network \<Rightarrow> rngs \<Rightarrow> (nat \<Rightarrow> nat) \<Rightarrow> ohtable_params \<Rightarrow> 32 shares \<Rightarrow>
     (party \<Rightarrow> 'v dr_record list) \<Rightarrow> (party \<Rightarrow> 128 word share list) \<Rightarrow> 'v oh_tables res" where
  "oht_new V net rng gen params xs ys key =
     bindE (oh_validate params) (\<lambda>_.
     checkE (everywhere (\<lambda>p. length (xs p) = oh_num_elements params \<and>
         length (ys p) = oh_num_elements params \<and> length (key p) = 10)) (Panic ''new: lengths'')
       (unwrapE (oht_build V net rng gen xs ys (fresh_table params key))))"

section \<open>Queries\<close>

definition reveal_to_receivers ::
    "network \<Rightarrow> (party \<Rightarrow> 128 word share) \<Rightarrow> party \<Rightarrow> (party \<Rightarrow> 128 word) res" where
  "reveal_to_receivers net share builder =
     bindE (reveal_to_party net share (prev_party builder)) (\<lambda>prev_open.
     bindE (reveal_to_party net share (next_party builder)) (\<lambda>next_open.
       each_party (\<lambda>p.
         if p = prev_party builder then
           (case prev_open p of Some k \<Rightarrow> Inr k
            | None \<Rightarrow> Inl (Panic ''previous receiver should reconstruct the query tag''))
         else if p = next_party builder then
           (case next_open p of Some k \<Rightarrow> Inr k
            | None \<Rightarrow> Inl (Panic ''next receiver should reconstruct the query tag''))
         else Inr 0)))"

definition reveal_to_receivers_many ::
    "network \<Rightarrow> 128 shares \<Rightarrow> party \<Rightarrow> (party \<Rightarrow> 128 word list) res" where
  "reveal_to_receivers_many net shares builder =
     bindE (reveal_to_party_many net shares (prev_party builder)) (\<lambda>prev_open.
     bindE (reveal_to_party_many net shares (next_party builder)) (\<lambda>next_open.
       each_party (\<lambda>p.
         if p = prev_party builder then
           (case prev_open p of Some k \<Rightarrow> Inr k
            | None \<Rightarrow> Inl (Panic ''previous receiver should reconstruct query tags''))
         else if p = next_party builder then
           (case next_open p of Some k \<Rightarrow> Inr k
            | None \<Rightarrow> Inl (Panic ''next receiver should reconstruct query tags''))
         else Inr (replicate (length (shares p)) 0))))"

definition shares_table :: "'v::len oh_table \<Rightarrow> 128 word list res" where
  "shares_table t = (case cht_2shares t of Some c \<Rightarrow> Inr c | None \<Rightarrow> Inl (Panic ''unwrap''))"

text \<open>The receivers turn builder-order indices into receiver-order slots, with their own copy of the
  receiver shuffle, and the builder gets the slots from one of them.\<close>

definition receiver_slots ::
    "network \<Rightarrow> (party \<Rightarrow> nat list) \<Rightarrow> 'v::len oh_tables \<Rightarrow> ((party \<Rightarrow> nat list) \<times> 'v oh_tables) res" where
  "receiver_slots net indices T =
     (let B = BUILDER_ID;
          evaluate = (\<lambda>p. bindE (unwrap_shuffle ''OHTable must be built before querying'' (receiver_shuffle (T p)))
             (\<lambda>lp. evaluate_all lp (indices p)))
      in bindE (evaluate (prev_party B)) (\<lambda>(slots_prev, lp_prev).
         bindE (evaluate (next_party B)) (\<lambda>(slots_next, lp_next).
         bindE (deliver net (prev_party B) B slots_prev) (\<lambda>slots_builder.
           Inr (\<lambda>p. if p = B then slots_builder else if p = prev_party B then slots_prev else slots_next,
                \<lambda>p. if p = B then T p
                    else if p = prev_party B then (T p)\<lparr>receiver_shuffle := Some lp_prev\<rparr>
                    else (T p)\<lparr>receiver_shuffle := Some lp_next\<rparr>)))))"

text \<open>One slot is touched and its record returned.\<close>

definition touch_slot :: "nat \<Rightarrow> nat \<Rightarrow> 'v::len oh_table \<Rightarrow> ('v oh_table \<times> 'v dr_record) res" where
  "touch_slot old slot t =
     bindE (getE (touched t) slot) (\<lambda>was.
     checkE (\<not> was) (Panic ''assertion failed: !was_touched_before'')
    (bindE (setE (touched t) slot True) (\<lambda>touched'.
     bindE (getE (ys_receiver_order t) slot) (\<lambda>y.
       Inr (t\<lparr>touched := touched',
             last_query_trace := Some \<lparr>old_query_count = old, selected_receiver_index = slot,
               was_touched_before = was\<rparr>\<rparr>, y)))))"

definition oht_query ::
    "yao \<Rightarrow> ((party \<Rightarrow> 128 word share) \<Rightarrow> (party \<Rightarrow> 128 word share) \<Rightarrow> (party \<Rightarrow> 128 word share) \<Rightarrow>
        (party \<Rightarrow> 128 word share) res) \<Rightarrow>
     network \<Rightarrow> rngs \<Rightarrow> (party \<Rightarrow> 128 word share) \<Rightarrow> (party \<Rightarrow> 128 word share) \<Rightarrow> (party \<Rightarrow> 1 word share) \<Rightarrow>
     'v::len oh_tables \<Rightarrow> ((party \<Rightarrow> 'v dr_record) \<times> (party \<Rightarrow> 1 word share) \<times> 'v oh_tables) res" where
  "oht_query Y cmux net rng rand q use_dummy T =
     checkE (everywhere (\<lambda>p. query_count (T p) < oh_num_dummies (oht_params (T p)))) (Panic ''query budget'')
    (bindE (cmux (\<lambda>p. bit_to_binary_mask (use_dummy p)) rand q) (\<lambda>q_or_dummy.
     bindE (reveal_to_receivers net q_or_dummy BUILDER_ID) (\<lambda>q_clear.
     bindE (each_party (\<lambda>p. getE (dummy_indices (T p)) (query_count (T p)))) (\<lambda>dummy_index.
     bindE (each_party (\<lambda>p. shares_table (T p))) (\<lambda>table.
     bindE (lookup_from_2shares Y (oh_log_single_col_len (oht_params (T ID0))) table q_clear
              (\<lambda>p. cast_share (dummy_index p)) BUILDER_ID net rng) (\<lambda>lookup_result.
     bindE (receiver_slots net (\<lambda>p. [lr_index (lookup_result p)]) T) (\<lambda>(slot, T1).
     bindE (each_party (\<lambda>p. touch_slot (query_count (T1 p)) (hd (slot p)) (T1 p))) (\<lambda>r.
       Inr (\<lambda>p. snd (r p), \<lambda>p. lr_found (lookup_result p),
            \<lambda>p. (fst (r p))\<lparr>query_count := query_count (fst (r p)) + 1\<rparr>)))))))))"

definition oht_query_many ::
    "yao \<Rightarrow> (128 shares \<Rightarrow> 128 shares \<Rightarrow> 128 shares res) \<Rightarrow> network \<Rightarrow> rngs \<Rightarrow> 128 shares \<Rightarrow> 128 shares \<Rightarrow>
     1 shares \<Rightarrow> 'v::len oh_tables \<Rightarrow>
     ((party \<Rightarrow> 'v dr_record list) \<times> 1 shares \<times> 'v oh_tables) res" where
  "oht_query_many Y and_vec net rng rands qs use_dummies T =
     checkE (everywhere (\<lambda>p. length (qs p) = length (use_dummies p))) (Panic ''count == use_dummies.len()'')
    (checkE (everywhere (\<lambda>p. query_count (T p) + length (qs p) \<le> oh_num_dummies (oht_params (T p))))
       (Panic ''query budget'')
    (bindE (and_vec (\<lambda>p. map bit_to_binary_mask (use_dummies p)) (\<lambda>p. xor_shares (rands p) (qs p))) (\<lambda>selected.
     let qs' = (\<lambda>p. xor_shares (qs p) (selected p))
     in bindE (reveal_to_receivers_many net qs' BUILDER_ID) (\<lambda>keys.
     bindE (each_party (\<lambda>p. mapE (\<lambda>i. getE (dummy_indices (T p)) (query_count (T p) + i)) [0..<length (qs p)]))
       (\<lambda>dummies.
     bindE (each_party (\<lambda>p. shares_table (T p))) (\<lambda>table.
     bindE (lookup_from_2shares_many Y (oh_log_single_col_len (oht_params (T ID0))) table keys
              (\<lambda>p. map cast_share (dummies p)) BUILDER_ID net rng) (\<lambda>lookup.
     bindE (receiver_slots net (\<lambda>p. map lr_index (lookup p)) T) (\<lambda>(slots, T1).
     bindE (each_party (\<lambda>p. foldE (\<lambda>(offset, slot) (t, ys).
           bindE (touch_slot (query_count (T1 p) + offset) slot t) (\<lambda>(t', y). Inr (t', ys @ [y])))
         (enumerate 0 (slots p)) (T1 p, []))) (\<lambda>r.
       Inr (\<lambda>p. snd (r p), \<lambda>p. map lr_found (lookup p),
            \<lambda>p. (fst (r p))\<lparr>query_count := query_count (fst (r p)) + length (qs p)\<rparr>))))))))))"

section \<open>Extraction\<close>

definition untouched_rows :: "'v::len oh_table \<Rightarrow> (32 word share \<times> 'v dr_record) list res" where
  "untouched_rows t = mapE (\<lambda>(i, b). bindE (getE (xs_receiver_order t) i) (\<lambda>x.
       bindE (getE (ys_receiver_order t) i) (\<lambda>y. Inr (x, y))))
     (filter (\<lambda>(i, b). \<not> b) (enumerate 0 (touched t)))"

definition oht_extract_untouched :: "'v::len oh_table \<Rightarrow> (32 word share list \<times> 'v dr_record list) res" where
  "oht_extract_untouched t =
     bindE (sub_usize (oh_total_size (oht_params t)) (oh_stash_size (oht_params t))) (\<lambda>m.
     bindE (sub_usize m (query_count t)) (\<lambda>_.
     bindE (untouched_rows t) (\<lambda>rows. Inr (map fst rows, map snd rows))))"

definition oht_extract :: "'v::len oh_table \<Rightarrow> (32 word share list \<times> 'v dr_record list) res" where
  "oht_extract t =
     checkE (query_count t = oh_num_dummies (oht_params t)) (Panic ''query_count == num_dummies'')
    (bindE (oht_extract_untouched t) (\<lambda>(xs, ys).
     bindE (sub_usize (oh_num_elements (oht_params t)) (oh_stash_size (oht_params t))) (\<lambda>n.
     checkE (length xs = n \<and> length ys = n) (Panic ''extract: lengths'') (Inr (xs, ys)))))"

end
