(* ===== verification/Oht_Stages.thy ===== *)
theory Oht_Stages
  imports Oht
begin

text \<open>
  What each stage of building an oblivious hash table establishes: tags, builder order, cuckoo
  table, receiver order, stash. The columns of all parties are sharings throughout; a stage's lemma
  names the clear columns they open to.
\<close>

unbundle bit_operations_syntax

section \<open>The columns of a table\<close>

definition clear_columns ::
    "'v value_ops \<Rightarrow> (nat \<Rightarrow> 'v word \<Rightarrow> 128 word) \<Rightarrow> 32 word list \<Rightarrow> 'v::len clear_record list \<Rightarrow> 128 word list list" where
  "clear_columns V blk xs ys = map ucast xs # map (\<lambda>j. map (blk j) (map fst ys)) [0..<num_blocks V] @ [map ucast (map snd ys)]"

lemma payload_columns_shared:
  assumes V: "doram_value V blk ones" and X: "shared_list X xs" and Y: "shared_records Y ys"
  shows "shared_cols (\<lambda>p. payload_columns V (X p) (Y p)) (clear_columns V blk xs ys)"
proof -
  have v: "shared_list (\<lambda>p. get_y_values (Y p)) (map fst ys)" and a: "shared_list (\<lambda>p. get_alibis (Y p)) (map snd ys)"
    using Y by (simp_all add: shared_records_columns)
  have "shared_cols (\<lambda>p. [upcast_x_to_block_many (X p)] @ to_blocks V (get_y_values (Y p)) @ [alibi_to_blocks (get_alibis (Y p))])
      ([map ucast xs] @ map (\<lambda>j. map (blk j) (map fst ys)) [0..<num_blocks V] @ [map ucast (map snd ys)])"
    using upcast_x_shared [OF X] doram_value.to_blocks_ok [OF V v] alibi_to_blocks_shared [OF a]
    by (intro shared_cols_append shared_cols_single)
  then show ?thesis by (simp add: payload_columns_def clear_columns_def)
qed

lemma columns_payload_shared:
  assumes V: "doram_value V blk ones" "0 < num_blocks V" and C: "shared_cols C (clear_columns V blk xs ys)"
  shows "shared_list (\<lambda>p. fst (columns_payload V (C p))) xs"
    and "shared_records (\<lambda>p. snd (columns_payload V (C p))) ys"
proof -
  let ?m = "num_blocks V"
  have "shared_list (\<lambda>p. C p ! 0) (map ucast xs)"
    using shared_colsD(2) [OF C, of 0] by (simp add: clear_columns_def)
  then show "shared_list (\<lambda>p. fst (columns_payload V (C p))) xs"
    by (simp add: columns_payload_def downcast_x_shared)
  have "shared_cols (\<lambda>p. take ?m (drop 1 (C p))) (map (\<lambda>j. map (blk j) (map fst ys)) [0..<?m])"
    using shared_cols_take [OF shared_cols_drop [OF C, of 1], of ?m] by (simp add: clear_columns_def)
  then have v: "shared_list (\<lambda>p. from_blocks V (take ?m (drop 1 (C p)))) (map fst ys)"
    using doram_value.from_blocks_ok [OF V] by blast
  have "shared_list (\<lambda>p. C p ! (?m + 1)) (map ucast (map snd ys))"
    using shared_colsD(2) [OF C, of "?m + 1"] by (simp add: clear_columns_def nth_append)
  then have "shared_list (\<lambda>p. alibi_from_blocks (C p ! (?m + 1))) (map snd ys)"
    by (rule alibi_from_blocks_shared)
  with v show "shared_records (\<lambda>p. snd (columns_payload V (C p))) ys"
    by (simp add: columns_payload_def from_columns_shared)
qed

text \<open>Rearranging all columns alike rearranges the rows.\<close>

lemma map_clear_columns:
  assumes "f128 (map ucast xs) = map ucast (f32 xs)"
    and "\<And>g :: _ \<Rightarrow> 128 word. f128 (map g ys) = map g (frec ys)"
  shows "map f128 (clear_columns V blk xs ys) = clear_columns V blk (f32 xs) (frec ys)"
  using assms by (simp add: clear_columns_def comp_def)

lemma clear_columns_length:
  "length ys = length xs \<Longrightarrow> c \<in> set (clear_columns V blk xs ys) \<Longrightarrow> length c = length xs"
  by (auto simp: clear_columns_def)

lemma shuffled_by_map:
  assumes "valid_perms n perm" and "length xs = n"
  shows "shuffled_by perm (map f xs) = map f (shuffled_by perm xs)"
  using assms by (simp add: shuffled_by_def shuffled_map valid_perms_def)

lemma mset_shuffled_by:
  "valid_perms n perm \<Longrightarrow> length xs = n \<Longrightarrow> mset (shuffled_by perm xs) = mset xs"
  by (simp add: shuffled_by_def valid_perms_def)

section \<open>Fresh shufflers\<close>

definition never_rejected :: "rngs \<Rightarrow> nat \<Rightarrow> bool" where
  "never_rejected rng n \<longleftrightarrow> (\<forall>k b. 0 < b \<longrightarrow> b \<le> n \<longrightarrow> accepted rng k b)"

lemma never_rejected_skip [simp]: "never_rejected rng n \<Longrightarrow> never_rejected (skip_draws m rng) n"
  by (simp add: never_rejected_def accepted_def draw_u128_def random_elements_def skip_draws_def)

lemma zero_rng_never_rejected: "n < 2 ^ 128 - 1 \<Longrightarrow> never_rejected zero_rng n"
  unfolding never_rejected_def accepted_def
proof (intro allI impI)
  fix k b p assume "n < 2 ^ 128 - 1" and b: "0 < b" "b \<le> n"
  moreover have "(2 ^ 128 - 1) mod b < b" using b(1) by simp
  ultimately show "fst (draw_u128 zero_rng k p) < sample_zone b"
    by (simp add: sample_zone_def draw_u128_def random_elements_def zero_rng_def)
qed

lemma new_shufflers_ok:
  assumes "correlated rng" and "never_rejected rng n"
  shows "\<exists>sh perm. new_shufflers rng n = Inr (sh, skip_draws (n - 1) rng) \<and> agreed sh perm n \<and>
    (\<forall>p. valid_lp (next_shared_perm (sh p)) \<and> valid_lp (prev_shared_perm (sh p)))"
proof -
  have "\<And>j. j \<in> {1..<n} \<Longrightarrow> accepted rng (0 + (j - 1)) (j + 1)"
    using assms(2) by (simp add: never_rejected_def)
  from shuffler_new_agree [where len = n and k = 0, OF assms(1) this] obtain sh where
    sh: "\<And>p. shuffler_new rng p 0 n = Some (sh p, n - 1)"
    "\<And>p. prev_shared_perm (sh (next_party p)) = next_shared_perm (sh p)" by auto
  have "agreed sh (\<lambda>p. next_shared_perm (sh p)) n"
    using shuffler_new_valid [OF sh(1)] sh(2) by (auto simp: agreed_def)
  moreover have "new_shufflers rng n = Inr (sh, skip_draws (n - 1) rng)"
    by (simp add: new_shufflers_def sh(1) each_party_Inr skip_draws_def [abs_def])
  ultimately show ?thesis using shuffler_new_valid [OF sh(1)] by blast
qed

section \<open>Tags\<close>

lemma copy_prefix_ok: "length src = n \<Longrightarrow> n \<le> length dst \<Longrightarrow> copy_prefix n src dst = Inr (src @ drop n dst)"
  by (simp add: copy_prefix_def)

definition prf_tag :: "128 word list \<Rightarrow> 32 word \<Rightarrow> 128 word" where
  "prf_tag ks x = lowmc_encrypt ks (ucast x)"

lemma fill_prf_tags_ok:
  assumes X: "shared_list X xs" and K: "shared_list (\<lambda>p. oht_key (T p)) ks" "length ks = 10"
    and N: "\<And>p. oh_num_elements (oht_params (T p)) = length xs"
    and Q: "\<And>p. qs_builder_order (T p) = replicate (length xs + D) zero_share"
    and env: "online net" "correlated rng"
  shows "\<exists>Q. fill_prf_tags net rng X T = Inr (\<lambda>p. (T p)\<lparr>qs_builder_order := Q p\<rparr>, skip_draws (9 * length xs) rng) \<and>
    shared_list Q (map (prf_tag ks) xs @ replicate D 0)"
proof -
  let ?in = "\<lambda>p. upcast_x_to_block_many (X p)"
  note I = upcast_x_shared [OF X]
  have len: "length (?in p) = length xs" for p using shared_listD(1) [OF I] by simp
  have keys: "shared_keys (\<lambda>p. replicate (length xs) (oht_key (T p))) (replicate (length xs) ks)"
    by (rule shared_keys_replicate [OF K])
  obtain E where E: "encrypt_many net rng (\<lambda>p. replicate (length xs) (oht_key (T p))) ?in = Inr E"
    "shared_list E (map2 lowmc_encrypt (replicate (length xs) ks) (map ucast xs))"
    using encrypt_many_correct [OF keys I _ env] by auto
  have tags: "map2 lowmc_encrypt (replicate (length xs) ks) (map ucast xs) = map (prf_tag ks) xs"
    by (rule nth_equalityI) (simp_all add: prf_tag_def)
  have lE: "length (E p) = length xs" for p using shared_listD(1) [OF E(2)] by simp
  have "shared_list (\<lambda>p. E p @ replicate D zero_share) (map (prf_tag ks) xs @ replicate D 0)"
    using E(2) unfolding tags by (rule shared_list_append) (rule shared_list_replicate [OF shared_zero])
  moreover have "fill_prf_tags net rng X T =
      Inr (\<lambda>p. (T p)\<lparr>qs_builder_order := E p @ replicate D zero_share\<rparr>, skip_draws (9 * length xs) rng)"
    by (simp add: fill_prf_tags_def Let_def E(1) copy_prefix_ok lE N Q len each_party_Inr)
  ultimately show ?thesis by (intro exI [of _ "\<lambda>p. E p @ replicate D zero_share"]) simp
qed

section \<open>Builder order\<close>

lemma unshuffled_by_map:
  assumes "valid_perms n perm" and "length xs = n"
  shows "unshuffled_by perm (map f xs) = map f (unshuffled_by perm xs)"
  using assms by (simp add: unshuffled_by_def unshuffled_map valid_perms_def)

lemma shared_downcast_indices:
  assumes "shared_list S (map of_nat is :: 128 word list)"
  shows "shared_list (\<lambda>p. downcast_many (S p)) (map of_nat is :: 32 word list)"
proof -
  have "ucast (of_nat i :: 128 word) = (of_nat i :: 32 word)" for i
    by (rule bit_word_eqI) (simp add: bit_simps bit_of_nat_iff)
  moreover have "shared_list (\<lambda>p. map cast_share (S p)) (map ucast (map of_nat is :: 128 word list) :: 32 word list)"
    by (rule shared_list_map [OF assms]) (rule shared_cast)
  ultimately show ?thesis by (simp add: downcast_many_def comp_def)
qed

text \<open>The rows of a table in its initial order: the entries, then the dummies.\<close>

definition table_xs :: "nat \<Rightarrow> nat \<Rightarrow> 32 word list \<Rightarrow> 32 word list" where
  "table_xs log_n D xs = xs @ replicate D (sentinel_of log_n)"

definition table_ys :: "nat \<Rightarrow> 'v::len clear_record list \<Rightarrow> 'v clear_record list" where
  "table_ys D ys = ys @ replicate D (0, 0)"

lemma length_table_rows [simp]:
  "length (table_xs log_n D xs) = length xs + D" "length (table_ys D ys) = length ys + D"
  by (simp_all add: table_xs_def table_ys_def)

lemma shuffle_builder_order_ok:
  assumes V: "doram_value V blk ones" "0 < num_blocks V" and X: "shared_list X xs" and Y: "shared_records Y ys"
    and ly: "length ys = length xs" and Q: "shared_list (\<lambda>p. qs_builder_order (T p)) qv" "length qv = length xs + D"
    and P: "\<And>p. oht_params (T p) = P" "oh_num_elements P = length xs" "oh_num_dummies P = D"
    and rows: "\<And>p. xs_builder_order (T p) = replicate (length xs + D) (dummy_x p log_n)"
      "\<And>p. ys_builder_order (T p) = replicate (length xs + D) record_zero"
    and env: "online net" "correlated rng" "never_rejected rng (length xs + D)"
  shows "\<exists>perm Qb Xb Yb Di m. shuffle_builder_order V net rng X Y T = Inr (\<lambda>p. (T p)\<lparr>qs_builder_order := Qb p,
      xs_builder_order := Xb p, ys_builder_order := Yb p, dummy_indices := Di p\<rparr>, skip_draws m rng) \<and>
    valid_perms (length xs + D) perm \<and> shared_list Qb (shuffled_by perm qv) \<and>
    shared_list Xb (shuffled_by perm (table_xs log_n D xs)) \<and>
    shared_records Yb (shuffled_by perm (table_ys D ys)) \<and>
    shared_list Di (map of_nat (drop (length xs) (unshuffled_by perm [0..<length xs + D])))"
proof -
  let ?n = "length xs + D" and ?N = "length xs"
  let ?X = "\<lambda>p. X p @ replicate D (dummy_x p log_n)" and ?Y = "\<lambda>p. Y p @ replicate D record_zero"
  have X': "shared_list ?X (table_xs log_n D xs)"
    unfolding table_xs_def sentinel_of_def
    by (rule shared_list_append [OF X]) (rule shared_list_replicate [OF shared_dummy_x])
  have Y': "shared_records ?Y (table_ys D ys)"
    unfolding table_ys_def
    by (rule shared_records_append [OF Y]) (rule shared_records_replicate [OF record_zero_shared])
  let ?T1 = "\<lambda>p. (T p)\<lparr>xs_builder_order := ?X p, ys_builder_order := ?Y p\<rparr>"
  let ?cols = "\<lambda>p. qs_builder_order (T p) # payload_columns V (?X p) (?Y p)"
  let ?inds = "\<lambda>p. [map (\<lambda>i. promote_public p (of_nat i :: 128 word)) [0..<?n]]"
  let ?clear = "qv # clear_columns V blk (table_xs log_n D xs) (table_ys D ys)"
  have C: "shared_cols ?cols ?clear"
    unfolding shared_cols_Cons using Q(1) payload_columns_shared [OF V(1) X' Y'] by blast
  have "shared_list (\<lambda>p. map (\<lambda>i. promote_public p (of_nat i :: 128 word)) [0..<?n]) (map of_nat [0..<?n])"
    by (simp add: shared_list_def shared_promote_public)
  then have I: "shared_cols ?inds [map of_nat [0..<?n]]" by (rule shared_cols_single)
  obtain sh perm k where sh: "new_shufflers rng ?n = Inr (sh, skip_draws k rng)" "agreed sh perm ?n"
    using new_shufflers_ok [OF env(2,3)] by blast
  note v = valid_perms_agreed [OF sh(2)]
  have lens: "\<forall>c \<in> set (?clear @ [map of_nat [0..<?n]]). length c = ?n"
    using ly Q(2) clear_columns_length [of "table_ys D ys" "table_xs log_n D xs"] by auto
  obtain F J where F: "shuffle_many sh ?cols ?inds net (skip_draws k rng) = Inr (F, J)"
    "shared_cols F (map (shuffled_by perm) ?clear)" "shared_cols J (map (unshuffled_by perm) [map of_nat [0..<?n]])"
    using shuffle_many_correct [OF sh(2) env(1) correlated_skip [OF env(2)] C I lens] by blast
  have "map (shuffled_by perm) (clear_columns V blk (table_xs log_n D xs) (table_ys D ys)) =
      clear_columns V blk (shuffled_by perm (table_xs log_n D xs)) (shuffled_by perm (table_ys D ys))"
    by (rule map_clear_columns) (simp_all add: shuffled_by_map [OF v] ly)
  then have cl: "map (shuffled_by perm) ?clear = shuffled_by perm qv #
      clear_columns V blk (shuffled_by perm (table_xs log_n D xs)) (shuffled_by perm (table_ys D ys))" by simp
  obtain Qb C' where C': "F = (\<lambda>p. Qb p # C' p)" "shared_list Qb (shuffled_by perm qv)"
    "shared_cols C' (clear_columns V blk (shuffled_by perm (table_xs log_n D xs)) (shuffled_by perm (table_ys D ys)))"
    using shared_cols_ConsE [OF F(2) [unfolded cl]] by blast
  have "shared_list (\<lambda>p. J p ! 0) (map of_nat (unshuffled_by perm [0..<?n]))"
    using shared_colsD(2) [OF F(3), of 0] by (simp add: unshuffled_by_map [OF v])
  from shared_list_drop [OF this, of ?N]
  have "shared_list (\<lambda>p. drop ?N (J p ! 0)) (map of_nat (drop ?N (unshuffled_by perm [0..<?n])))"
    by (simp add: drop_map)
  note D' = shared_downcast_indices [OF this]
  have l: "length (X p) = ?N" "length (Y p) = ?N" for p
    using shared_listD(1) [OF X] shared_recordsD(1) [OF Y] ly by simp_all
  have T1: "each_party (\<lambda>p.
         bindE (copy_prefix (oh_num_elements (oht_params (T p))) (X p) (xs_builder_order (T p))) (\<lambda>xs'.
         bindE (copy_prefix (oh_num_elements (oht_params (T p))) (Y p) (ys_builder_order (T p))) (\<lambda>ys'.
           Inr ((T p)\<lparr>xs_builder_order := xs', ys_builder_order := ys'\<rparr>)))) = Inr ?T1"
    by (rule each_party_Inr) (simp add: copy_prefix_ok l P rows)
  have "shuffle_builder_order V net rng X Y T = Inr (\<lambda>p. (T p)\<lparr>qs_builder_order := Qb p,
      xs_builder_order := fst (columns_payload V (C' p)), ys_builder_order := snd (columns_payload V (C' p)),
      dummy_indices := downcast_many (drop ?N (J p ! 0))\<rparr>,
      skip_draws (3 * (total_length (?cols ID0) + total_length (?inds ID0))) (skip_draws k rng))"
    unfolding shuffle_builder_order_def T1 by (simp add: Let_def P oh_total_size_def sh(1) F(1) C'(1))
  moreover have "skip_draws a (skip_draws b rng) = skip_draws (b + a) rng" for a b
    by (simp add: skip_draws_def add.assoc)
  ultimately show ?thesis
    using v C'(2) columns_payload_shared [OF V C'(3)] D'
    by (intro exI [of _ perm] exI [of _ Qb] exI [of _ "\<lambda>p. fst (columns_payload V (C' p))"]
        exI [of _ "\<lambda>p. snd (columns_payload V (C' p))"] exI [of _ "\<lambda>p. downcast_many (drop ?N (J p ! 0))"]
        exI [of _ "k + 3 * (total_length (?cols ID0) + total_length (?inds ID0))"]) simp
qed

section \<open>The builder's cuckoo table\<close>

lemma compact_tags_eq:
  "compact_tags qs = map (\<lambda>i. set_low_u32 (qs ! i) (of_nat i)) (filter (\<lambda>i. qs ! i \<noteq> 0) [0..<length qs])"
proof -
  have "enumerate 0 qs = map (\<lambda>i. (i, qs ! i)) [0..<length qs]"
    by (rule nth_equalityI) (simp_all add: nth_enumerate_eq)
  then show ?thesis by (simp add: compact_tags_def filter_map comp_def)
qed

lemma block_tag_set_low [simp]: "block_tag (set_low_u32 q i) = block_tag q"
  by (simp add: block_tag_def)

text \<open>All but \<open>s\<close> blocks have a place of their own among their two; this depends on the tags only,
  and so not on the order in which the builder inserts them.\<close>

definition placeable :: "nat \<Rightarrow> nat \<Rightarrow> 128 word list \<Rightarrow> bool" where
  "placeable l s ts \<longleftrightarrow> s \<le> length ts \<and> (\<exists>A f. cuckoo_placement l ts A f \<and> length ts \<le> s + card A)"

lemma placeable_tags:
  assumes "placeable l s ts" and tags: "good_tags ts" "good_tags zs"
    and m: "mset (map block_tag zs) = mset (map block_tag ts)"
  shows "placeable l s zs"
proof -
  obtain A f where A: "s \<le> length ts" "cuckoo_placement l ts A f" "length ts \<le> s + card A"
    using assms(1) unfolding placeable_def by blast
  have len: "length zs = length ts" using mset_eq_length [OF m] by simp
  have "\<exists>i. i < length ts \<and> block_tag (ts ! i) = block_tag (zs ! e)" if "e < length zs" for e
  proof -
    have "block_tag (zs ! e) \<in> set (map block_tag ts)" using mset_eq_setD [OF m] that by auto
    then show ?thesis by (auto simp: in_set_conv_nth)
  qed
  then have "\<forall>e. \<exists>i. e < length zs \<longrightarrow> i < length ts \<and> block_tag (ts ! i) = block_tag (zs ! e)" by blast
  from choice [OF this] obtain g where g: "\<And>e. e < length zs \<Longrightarrow> g e < length ts \<and> block_tag (ts ! g e) = block_tag (zs ! e)"
    by blast
  have inj: "inj_on g {..<length zs}"
    using g good_tagsD(2) [OF tags(2)] by (intro inj_onI) (metis lessThan_iff)
  then have img: "g ` {..<length zs} = {..<length ts}"
    using g len by (intro card_subset_eq) (auto simp: card_image)
  let ?A = "{e. e < length zs \<and> g e \<in> A}"
  have "A \<subseteq> {..<length ts}" using A(2) by (simp add: cuckoo_placement_def)
  then have "A \<subseteq> g ` {..<length zs}" using img by simp
  then have "g ` ?A = A" by auto
  then have card: "card ?A = card A" using card_image [of g ?A] inj by (simp add: inj_on_subset subset_iff)
  have "inj_on (f \<circ> g) ?A"
    using inj A(2) \<open>g ` ?A = A\<close> by (intro comp_inj_on) (auto simp: cuckoo_placement_def intro: inj_on_subset)
  moreover have "h0 (ts ! g e) l = h0 (zs ! e) l" "h1 (ts ! g e) l = h1 (zs ! e) l" if "e < length zs" for e
    using g [OF that] by (metis hash_of_tag(1), metis hash_of_tag(2))
  ultimately have "cuckoo_placement l zs ?A (f \<circ> g)"
    using A(2) by (auto simp: cuckoo_placement_def)
  then show ?thesis using A(1,3) card len unfolding placeable_def by auto
qed

text \<open>What the table answers, in terms of builder-order positions; those in \<open>K\<close> are stashed.\<close>

definition builder_answers :: "nat \<Rightarrow> 128 word list \<Rightarrow> 128 word list \<Rightarrow> nat set \<Rightarrow> bool" where
  "builder_answers l qs table K \<longleftrightarrow>
     (\<forall>key d. \<forall>i < length qs. qs ! i \<noteq> 0 \<longrightarrow> i \<notin> K \<longrightarrow> block_tag key = block_tag (qs ! i) \<longrightarrow>
        find_index l table key d = of_nat i \<and> find_flag l table key = 1) \<and>
     (\<forall>key d. block_tag key \<noteq> 0 \<longrightarrow>
        (\<forall>i < length qs. qs ! i \<noteq> 0 \<longrightarrow> i \<notin> K \<longrightarrow> block_tag key \<noteq> block_tag (qs ! i)) \<longrightarrow>
        find_index l table key d = d \<and> find_flag l table key = 0)"

lemma two_shared_swap: "two_shared L p q xs \<Longrightarrow> two_shared L q p xs"
  by (simp add: two_shared_def xor.commute)

lemma reveal_qs_ok:
  assumes "shared_list (\<lambda>p. qs_builder_order (T p)) qs" and "online net"
  shows "reveal_qs_to_builder net T = Inr (\<lambda>p. if p = BUILDER_ID then Some qs else None)"
  using map2_open [OF assms(1), of BUILDER_ID] assms(2) by (auto simp: reveal_qs_to_builder_def)

lemma good_tags_mset:
  assumes "good_tags xs" and "mset (map block_tag ys) = mset (map block_tag xs)"
  shows "good_tags ys"
  using assms mset_eq_imp_distinct_iff [OF assms(2)] mset_eq_setD [OF assms(2)] by (simp add: good_tags_def)

lemma local_table_ok:
  assumes q: "mset qs = mset (ts @ replicate D 0)" and tags: "good_tags ts"
    and P: "oh_num_elements P = length ts" "oh_stash_size P = s" "oh_log_single_col_len P = l"
    and bounds: "l \<le> 62" "length ts + D \<le> 2 ^ 32" and gen: "\<And>i. gen i \<le> i" and place: "placeable l s ts"
  shows "\<exists>table stash. local_table gen P (Some qs) = Inr (table, stash) \<and> length table = 2 * 2 ^ l \<and>
    distinct stash \<and> length stash = s \<and> (\<forall>i \<in> set stash. i < length qs \<and> qs ! i \<noteq> 0) \<and>
    builder_answers l qs table (set stash)"
proof -
  let ?lp = "sample_from_rng (length ts) gen" and ?js = "filter (\<lambda>i. qs ! i \<noteq> 0) [0..<length qs]"
  let ?f = "\<lambda>i. set_low_u32 (qs ! i) (of_nat i)"
  have lq: "length qs = length ts + D" using arg_cong [OF q, of size] by simp
  have nz: "0 \<notin> set ts" using tags unfolding good_tags_def by (metis block_tag_0 image_eqI list.set_map)
  have "mset (map ((!) qs) ?js) = mset (filter (\<lambda>q. q \<noteq> 0) qs)"
    by (metis (no_types, lifting) filter_map comp_apply filter_cong map_nth)
  also have "\<dots> = filter_mset (\<lambda>q. q \<noteq> 0) (mset qs)" by (simp add: mset_filter)
  also have "\<dots> = mset ts"
  proof -
    have "filter (\<lambda>q. q \<noteq> 0) ts = ts" using nz by (intro filter_True) auto
    then show ?thesis unfolding q by (simp flip: mset_filter)
  qed
  finally have mj: "mset (map ((!) qs) ?js) = mset ts" .
  have lj: "length ?js = length ts" using arg_cong [OF mj, of size] by (simp only: size_mset length_map)
  have lp: "valid_choices ?lp" "lp_n ?lp = length ts" using sample_from_rng_valid [of gen "length ts"] gen by auto
  define js where "js = ?js"
  have js: "length js = length ts" "mset (map ((!) qs) js) = mset ts" "distinct js" "set js = {i. i < length qs \<and> qs ! i \<noteq> 0}"
    "compact_tags qs = map ?f js"
    using lj mj by (auto simp: js_def compact_tags_eq)
  define ks where "ks = shuffled ?lp js"
  have ks: "mset ks = mset js" unfolding ks_def by (rule mset_shuffled) (use lp js(1) in simp_all)
  then have dk: "distinct ks" "set ks = {i. i < length qs \<and> qs ! i \<noteq> 0}" "length ks = length ts"
    using mset_eq_imp_distinct_iff [OF ks] mset_eq_setD [OF ks] mset_eq_length [OF ks] js by simp_all
  define zs where "zs = map ?f ks"
  have "shuffle_lp ?lp (map ?f js) = Inr (shuffled ?lp (map ?f js))"
    using lp js(1) by (intro shuffle_lp_total) simp_all
  also have "shuffled ?lp (map ?f js) = zs"
    unfolding zs_def ks_def using lp js(1) by (intro shuffled_map) simp_all
  finally have zs: "shuffle_lp ?lp (compact_tags qs) = Inr zs" unfolding js(5) .
  have "map block_tag zs = map block_tag (map ((!) qs) ks)" by (simp add: zs_def)
  moreover have "mset (map block_tag (map ((!) qs) ks)) = mset (map block_tag (map ((!) qs) js))"
    using ks by (metis mset_map)
  ultimately have mz: "mset (map block_tag zs) = mset (map block_tag ts)" using js(2) by (metis mset_map)
  have gz: "good_tags zs" by (rule good_tags_mset [OF tags mz])
  have lz: "length zs = length ts" using dk(3) by (simp add: zs_def)
  obtain table stash where b: "cht_build s l zs = Inr (table, stash)"
    using cht_build_ok_iff [OF bounds(1), of s zs] placeable_tags [OF place tags gz mz] unfolding placeable_def by (metis surj_pair)
  obtain K where K: "length table = 2 * 2 ^ l" "K \<subseteq> {..<length zs}" "card K = s"
    "stash = map (\<lambda>e. unat (low_u32 (zs ! e))) (filter (\<lambda>e. e \<in> K) [0..<length zs])"
    "table_answers l zs table K"
    using represents_answers [OF bounds(1) cht_built_represents [OF bounds(1) b] gz] by blast
  have low: "unat (low_u32 (zs ! e)) = ks ! e" if "e < length zs" for e
  proof -
    have "ks ! e \<in> set ks" using that dk(3) lz by simp
    then have "ks ! e < 2 ^ 32" using dk(2) lq bounds(2) by auto
    then have "unat (of_nat (ks ! e) :: 32 word) = ks ! e" by (simp add: unsigned_of_nat take_bit_nat_eq_self)
    moreover have "low_u32 (zs ! e) = of_nat (ks ! e)" using that dk(3) lz by (simp add: zs_def)
    ultimately show ?thesis by simp
  qed
  have stash: "stash = map ((!) ks) (filter (\<lambda>e. e \<in> K) [0..<length zs])" using low unfolding K(4) by simp
  have set_stash: "set stash = (!) ks ` K" using K(2) unfolding stash by auto
  have inj: "inj_on ((!) ks) {..<length zs}" using dk(1,3) lz by (simp add: inj_on_nth)
  then have ds: "distinct stash" unfolding stash using K(2) by (auto simp: distinct_map intro: inj_on_subset)
  have "card (set stash) = s" unfolding set_stash using K(2,3) inj
    by (metis card_image inj_on_subset)
  then have ls: "length stash = s" using distinct_card [OF ds] by simp
  have position: "\<exists>e < length zs. ks ! e = i \<and> (i \<notin> set stash \<longrightarrow> e \<notin> K)" if "i < length qs" "qs ! i \<noteq> 0" for i
  proof -
    have "i \<in> set ks" using that dk(2) by simp
    then obtain e where "e < length zs" "ks ! e = i" using dk(3) lz by (metis in_set_conv_nth)
    then show ?thesis using set_stash by blast
  qed
  have origin: "ks ! e < length qs \<and> qs ! (ks ! e) \<noteq> 0 \<and> (e \<notin> K \<longrightarrow> ks ! e \<notin> set stash)" if e: "e < length zs" for e
  proof -
    have "ks ! e \<in> set ks" using e dk(3) lz by simp
    moreover have "ks ! e \<notin> set stash" if "e \<notin> K"
      using that e K(2) inj_onD [OF inj] unfolding set_stash by blast
    ultimately show ?thesis using dk(2) by blast
  qed
  have zt: "block_tag (zs ! e) = block_tag (qs ! (ks ! e))" "low_u32 (zs ! e) = of_nat (ks ! e)" if "e < length zs" for e
    using that lz dk(3) by (simp_all add: zs_def)
  have "builder_answers l qs table (set stash)"
    unfolding builder_answers_def
  proof (intro conjI allI impI)
    fix key d i assume "i < length qs" "qs ! i \<noteq> 0" "i \<notin> set stash" "block_tag key = block_tag (qs ! i)"
    then show "find_index l table key d = of_nat i" "find_flag l table key = 1"
      using position [of i] K(5) zt unfolding table_answers_def by metis+
  next
    fix key d assume "block_tag key \<noteq> 0"
      and "\<forall>i < length qs. qs ! i \<noteq> 0 \<longrightarrow> i \<notin> set stash \<longrightarrow> block_tag key \<noteq> block_tag (qs ! i)"
    then show "find_index l table key d = d" "find_flag l table key = 0"
      using origin K(5) zt unfolding table_answers_def by metis+
  qed
  moreover have "\<forall>i \<in> set stash. i < length qs \<and> qs ! i \<noteq> 0"
    unfolding set_stash using K(2) origin by blast
  ultimately show ?thesis
    using zs b K(1) ds ls by (simp add: local_table_def P)
qed

lemma dummy_table_length: "l \<le> 62 \<Longrightarrow> length (fst (cht_dummy s l)) = 2 * 2 ^ l"
  by (simp add: cht_dummy_def table_length_eq)

lemma build_cht_ok:
  assumes Q: "shared_list (\<lambda>p. qs_builder_order (T p)) qs"
    and q: "mset qs = mset (ts @ replicate D 0)" and tags: "good_tags ts"
    and P: "\<And>p. oht_params (T p) = P" "oh_num_elements P = length ts" "oh_stash_size P = s"
      "oh_log_single_col_len P = l"
    and bounds: "l \<le> 62" "length ts + D \<le> 2 ^ 32" and gen: "\<And>i. gen i \<le> i" and place: "placeable l s ts"
    and env: "online net" "correlated rng"
  shows "\<exists>C st table m. build_cht net rng gen T = Inr (\<lambda>p. (T p)\<lparr>cht_2shares := Some (C p)\<rparr>, st, skip_draws m rng) \<and>
    table_shared BUILDER_ID C l table \<and> distinct (st BUILDER_ID) \<and> length (st BUILDER_ID) = s \<and>
    (\<forall>i \<in> set (st BUILDER_ID). i < length qs \<and> qs ! i \<noteq> 0) \<and> builder_answers l qs table (set (st BUILDER_ID))"
proof -
  obtain table stash where L: "local_table gen P (Some qs) = Inr (table, stash)" "length table = 2 * 2 ^ l"
    "distinct stash" "length stash = s" "\<forall>i \<in> set stash. i < length qs \<and> qs ! i \<noteq> 0"
    "builder_answers l qs table (set stash)"
    using local_table_ok [OF q tags P(2-4) bounds gen place] by blast
  let ?loc = "\<lambda>p. if p = BUILDER_ID then (table, stash) else cht_dummy s l"
  have loc: "each_party (\<lambda>p. local_table gen (oht_params (T p)) ((\<lambda>p. if p = BUILDER_ID then Some qs else None) p)) = Inr ?loc"
  proof (rule each_party_Inr)
    fix p show "local_table gen (oht_params (T p)) (if p = BUILDER_ID then Some qs else None) = Inr (?loc p)"
      using L(1) P by (cases "p = BUILDER_ID") (simp_all add: local_table_def)
  qed
  have "length (fst (?loc p)) = length table" for p
    using L(2) dummy_table_length [OF bounds(1)] by simp
  then obtain S where S: "input_shares BUILDER_ID (\<lambda>p. fst (?loc p)) net rng = Inr S" "shared_list S table"
    using input_shares_correct [of "\<lambda>p. fst (?loc p)" table BUILDER_ID, OF _ _ env] by auto
  let ?C = "\<lambda>p. reshare_3_to_2 (S p) (next_party BUILDER_ID) (prev_party BUILDER_ID) p"
  have "two_shared ?C (next_party BUILDER_ID) (prev_party BUILDER_ID) table"
    by (rule reshare_3_to_2_correct [OF S(2)]) simp
  then have "table_shared BUILDER_ID ?C l table"
    using bounds(1) L(2) by (simp add: table_shared_def two_shared_swap)
  moreover have "build_cht net rng gen T = Inr (\<lambda>p. (T p)\<lparr>cht_2shares := Some (?C p)\<rparr>, \<lambda>p. snd (?loc p),
      skip_draws (length (fst (?loc ID0))) rng)"
    unfolding build_cht_def reveal_qs_ok [OF Q env(1)] bindE_simps loc S(1) ..
  ultimately show ?thesis
    using L(3-6) by (intro exI [of _ ?C] exI [of _ "\<lambda>p. snd (?loc p)"] exI [of _ table]
        exI [of _ "length (fst (?loc ID0))"]) simp
qed

section \<open>Receiver order and the stash\<close>

lemma shuffle_receiver_order_ok:
  assumes V: "doram_value V blk ones" "0 < num_blocks V"
    and X: "shared_list (\<lambda>p. xs_builder_order (T p)) xs" and Y: "shared_records (\<lambda>p. ys_builder_order (T p)) ys"
    and len: "length xs = n" "length ys = n" and P: "\<And>p. oht_params (T p) = P" "oh_total_size P = n"
    and env: "online net" "correlated rng" "never_rejected rng n"
  shows "\<exists>lp Xr Yr sh. shuffle_receiver_order V net rng T =
      Inr (\<lambda>p. (T p)\<lparr>xs_receiver_order := Xr p, ys_receiver_order := Yr p\<rparr>, sh) \<and>
    valid_lp lp \<and> lp_n lp = n \<and> (\<forall>p. p \<noteq> BUILDER_ID \<longrightarrow> sh p = Some lp) \<and>
    shared_list Xr (shuffled lp xs) \<and> shared_records Yr (shuffled lp ys)"
proof -
  let ?cols = "\<lambda>p. payload_columns V (xs_builder_order (T p)) (ys_builder_order (T p))"
  let ?clear = "clear_columns V blk xs ys" and ?R = "next_party BUILDER_ID"
  obtain sh perm k where sh: "new_shufflers rng n = Inr (sh, skip_draws k rng)" "agreed sh perm n"
    "\<And>p. valid_lp (next_shared_perm (sh p))"
    using new_shufflers_ok [OF env(2,3)] by blast
  let ?lp = "perm ?R"
  have lp: "valid_lp ?lp" "lp_n ?lp = n" "next_shared_perm (sh ?R) = ?lp" "prev_shared_perm (sh (prev_party BUILDER_ID)) = ?lp"
    using sh(2) sh(3) [of ?R] unfolding agreed_def by (simp_all flip: next_next_party(1))
  note vc = valid_lp_choices [OF lp(1)]
  have lens: "\<forall>c \<in> set (?clear @ []). length c = n"
    using len clear_columns_length [of ys xs] by auto
  have emp: "shared_cols (\<lambda>p. []) []" by simp
  obtain F where F: "apply_step_many sh (Some ?R) None ?cols (\<lambda>i. []) net (skip_draws k rng) = Inr F"
    "shared_cols (fst F) (map (perm_step shuffled perm (Some ?R)) ?clear)"
    using apply_step_many_correct [where fp = "Some ?R" and ip = None, OF sh(2)
        payload_columns_shared [OF V(1) X Y] emp lens _ _ env(1) correlated_skip [OF env(2), of k]]
    by (auto simp: step_ok_def)
  have "map (perm_step shuffled perm (Some ?R)) ?clear = clear_columns V blk (shuffled ?lp xs) (shuffled ?lp ys)"
    unfolding perm_step_def option.case
    by (rule map_clear_columns) (simp_all add: shuffled_map [OF vc] len lp(2))
  note C = F(2) [unfolded this]
  let ?sh = "\<lambda>p. if p = BUILDER_ID then None else if p = ?R then Some (next_shared_perm (sh p))
    else Some (prev_shared_perm (sh p))"
  have "?sh p = Some ?lp" if "p \<noteq> BUILDER_ID" for p
    using that party_cases_around [of p BUILDER_ID] lp(3,4) by auto
  moreover have "shuffle_receiver_order V net rng T = Inr (\<lambda>p. (T p)\<lparr>xs_receiver_order := fst (columns_payload V (fst F p)),
      ys_receiver_order := snd (columns_payload V (fst F p))\<rparr>, ?sh)"
    unfolding shuffle_receiver_order_def Let_def P sh(1) bindE_simps prod.case
      forward_many_known_to_p_and_next_def F(1) case_prod_beta [of _ F] .. 
  ultimately show ?thesis
    using columns_payload_shared [OF V C] lp(1,2)
    by (intro exI [of _ ?lp] exI [of _ "\<lambda>p. fst (columns_payload V (fst F p))"]
        exI [of _ "\<lambda>p. snd (columns_payload V (fst F p))"] exI [of _ ?sh]) simp
qed

lemma dest_cong:
  assumes "lp_n lp' = lp_n lp" and "lp_fy lp' = lp_fy lp"
  shows "dest lp' = dest lp"
proof -
  have "swap_at lp' = (swap_at lp :: nat \<Rightarrow> nat list \<Rightarrow> nat list)"
    by (auto simp: swap_at_def assms fun_eq_iff)
  then show ?thesis by (intro ext) (simp only: dest_def unshuffled_def assms(1))
qed

lemma evaluate_all_append:
  assumes "valid_lp lp" and "\<forall>i \<in> set is. i < lp_n lp"
  shows "\<exists>lp'. foldE (\<lambda>i (outs, lp). bindE (evaluate_at lp i) (\<lambda>(j, lp'). Inr (outs @ [j], lp'))) is (outs, lp) =
      Inr (outs @ map (dest lp) is, lp') \<and> valid_lp lp' \<and> lp_n lp' = lp_n lp \<and> lp_fy lp' = lp_fy lp"
  using assms
proof (induction "is" arbitrary: outs lp)
  case (Cons i "is")
  then obtain lp1 where e: "evaluate_at lp i = Inr (dest lp i, lp1)" "valid_lp lp1" "lp_n lp1 = lp_n lp" "lp_fy lp1 = lp_fy lp"
    using evaluate_at_correct [of lp i] by auto
  then have "dest lp1 = dest lp" by (intro dest_cong)
  then show ?case using Cons.IH [of lp1 "outs @ [dest lp i]"] Cons.prems e by auto
qed auto

lemma evaluate_all_ok:
  "valid_lp lp \<Longrightarrow> \<forall>i \<in> set is. i < lp_n lp \<Longrightarrow>
   \<exists>lp'. evaluate_all lp is = Inr (map (dest lp) is, lp') \<and> valid_lp lp' \<and> lp_n lp' = lp_n lp \<and> dest lp' = dest lp"
proof -
  assume a: "valid_lp lp" "\<forall>i \<in> set is. i < lp_n lp"
  obtain lp' where e: "evaluate_all lp is = Inr (map (dest lp) is, lp')" "valid_lp lp'" "lp_n lp' = lp_n lp" "lp_fy lp' = lp_fy lp"
    using evaluate_all_append [OF a, of "[]"] by (auto simp: evaluate_all_def)
  then show ?thesis using dest_cong by blast
qed

lemma take_Suc_update: "k < length ys \<Longrightarrow> take (Suc k) (ys[k := y]) = take k ys @ [y]"
  by (simp add: take_Suc_conv_app_nth)

lemma place_ones:
  assumes "\<forall>r \<in> set inds. r < length (touched t) \<and> r < length (xs_receiver_order t) \<and> r < length (ys_receiver_order t)"
    and "k + length inds \<le> length (stash_xs t)" and "k + length inds \<le> length (stash_ys t)"
  shows "foldE place_one (enumerate k inds) t = Inr (t\<lparr>
      touched := map (\<lambda>r. touched t ! r \<or> r \<in> set inds) [0..<length (touched t)],
      stash_xs := take k (stash_xs t) @ map ((!) (xs_receiver_order t)) inds @ drop (k + length inds) (stash_xs t),
      stash_ys := take k (stash_ys t) @ map ((!) (ys_receiver_order t)) inds @ drop (k + length inds) (stash_ys t)\<rparr>)"
  using assms
proof (induction inds arbitrary: k t)
  case Nil
  then show ?case by (simp add: map_nth)
next
  case (Cons r inds)
  let ?t = "t\<lparr>touched := (touched t)[r := True], stash_xs := (stash_xs t)[k := xs_receiver_order t ! r],
      stash_ys := (stash_ys t)[k := ys_receiver_order t ! r]\<rparr>"
  have one: "place_one (k, r) t = Inr ?t" using Cons.prems by (simp add: place_one_def)
  have m: "map (\<lambda>i. (touched t)[r := True] ! i \<or> i \<in> set inds) [0..<length (touched t)] =
      map (\<lambda>i. touched t ! i \<or> i = r \<or> i \<in> set inds) [0..<length (touched t)]"
    using Cons.prems(1) by (intro map_cong) (auto simp: nth_list_update)
  show ?case
    using Cons.IH [of ?t "Suc k"] Cons.prems by (simp add: one m take_Suc_update)
qed

lemma place_stash_ok:
  assumes lp: "valid_lp lp" "lp_n lp = n" "\<forall>p. p \<noteq> BUILDER_ID \<longrightarrow> sh p = Some lp"
    and st: "\<forall>i \<in> set (st BUILDER_ID). i < n" and online: "online net"
    and len: "\<And>p. length (xs_receiver_order (T p)) = n" "\<And>p. length (ys_receiver_order (T p)) = n"
      "\<And>p. touched (T p) = replicate n False"
      "\<And>p. length (stash_xs (T p)) = length (st BUILDER_ID)" "\<And>p. length (stash_ys (T p)) = length (st BUILDER_ID)"
  defines "inds \<equiv> map (dest lp) (st BUILDER_ID)"
  shows "\<exists>lps. place_stash net st sh T = Inr (\<lambda>p. (T p)\<lparr>touched := map (\<lambda>r. r \<in> set inds) [0..<n],
      stash_xs := map ((!) (xs_receiver_order (T p))) inds, stash_ys := map ((!) (ys_receiver_order (T p))) inds,
      builder_stash_indices := st BUILDER_ID, receiver_shuffle := lps p\<rparr>) \<and>
    (\<forall>p. p \<noteq> BUILDER_ID \<longrightarrow> (\<exists>lp'. lps p = Some lp' \<and> valid_lp lp' \<and> lp_n lp' = n \<and> dest lp' = dest lp))"
proof -
  let ?B = BUILDER_ID
  obtain lp' where e: "evaluate_all lp (st ?B) = Inr (inds, lp')" "valid_lp lp'" "lp_n lp' = n" "dest lp' = dest lp"
    using evaluate_all_ok [OF lp(1), of "st ?B"] st lp(2) unfolding inds_def by auto
  have un: "unwrap_shuffle msg (sh p) = Inr lp" if "p \<noteq> ?B" for p msg
    using lp(3) that by (simp add: unwrap_shuffle_def)
  have less: "\<forall>r \<in> set inds. r < n"
    using st fy.target_less [of lp] lp(1,2) unfolding inds_def by auto
  let ?lps = "\<lambda>p. if p = ?B then sh ?B else Some lp'"
  let ?T = "\<lambda>p. (T p)\<lparr>touched := map (\<lambda>r. r \<in> set inds) [0..<n],
      stash_xs := map ((!) (xs_receiver_order (T p))) inds, stash_ys := map ((!) (ys_receiver_order (T p))) inds,
      builder_stash_indices := st ?B, receiver_shuffle := ?lps p\<rparr>"
  have marks: "map (\<lambda>r. replicate n False ! r \<or> r \<in> set inds) [0..<n] = map (\<lambda>r. r \<in> set inds) [0..<n]"
    by (rule map_cong) simp_all
  have place: "foldE place_one (enumerate 0 inds) ((T p)\<lparr>builder_stash_indices := st ?B\<rparr>) =
     Inr ((T p)\<lparr>builder_stash_indices := st ?B, touched := map (\<lambda>r. r \<in> set inds) [0..<n],
      stash_xs := map ((!) (xs_receiver_order (T p))) inds, stash_ys := map ((!) (ys_receiver_order (T p))) inds\<rparr>)" for p
    using place_ones [of inds "(T p)\<lparr>builder_stash_indices := st ?B\<rparr>" 0] less len by (simp add: inds_def marks [unfolded inds_def])
  have neq: "prev_party ?B \<noteq> ?B" "next_party ?B \<noteq> ?B" by (simp_all add: BUILDER_ID_def)
  have "place_stash net st sh T = Inr ?T"
    unfolding place_stash_def Let_def online_simps(2) [OF online] bindE_simps un [OF neq(1)] un [OF neq(2)] e(1) prod.case
    by (rule each_party_Inr) (simp add: place)
  then show ?thesis using e(2-4) by (intro exI [of _ ?lps]) simp
qed

end
