(* ===== verification/Oht_Build.thy ===== *)
theory Oht_Build
  imports Oht_Stages
begin

text \<open>
  The state of a built oblivious hash table, as the invariant \<open>oht_holds\<close> that queries keep, and
  building as a whole: \<open>OhTable::new\<close> establishes the invariant and shares the stashed entries.
\<close>

section \<open>The state of a built table\<close>

text \<open>
  What does not change after building: \<open>bpos j\<close> is the builder-order position of row \<open>j\<close>, and
  \<open>lp\<close> the receivers' permutation from there; the rows \<open>J\<close> are stashed, so that the cuckoo table
  does not answer for them.
\<close>

definition table_layout ::
    "ohtable_params \<Rightarrow> 128 word list \<Rightarrow> 32 word list \<Rightarrow> nat set \<Rightarrow> (nat \<Rightarrow> nat) \<Rightarrow> local_permutation \<Rightarrow>
     128 word list \<Rightarrow> bool" where
  "table_layout P ks xs J bpos lp table \<longleftrightarrow>
     length xs = oh_num_elements P \<and> oh_total_size P \<le> 2 ^ 32 \<and>
     bij_betw bpos {..<oh_total_size P} {..<oh_total_size P} \<and>
     valid_lp lp \<and> lp_n lp = oh_total_size P \<and> J \<subseteq> {..<length xs} \<and> card J = oh_stash_size P \<and>
     good_tags (map (prf_tag ks) xs) \<and>
     (\<forall>key d. \<forall>j < length xs. j \<notin> J \<longrightarrow> block_tag key = block_tag (prf_tag ks (xs ! j)) \<longrightarrow>
        find_index (oh_log_single_col_len P) table key d = of_nat (bpos j) \<and>
        find_flag (oh_log_single_col_len P) table key = 1) \<and>
     (\<forall>key d. block_tag key \<noteq> 0 \<longrightarrow>
        (\<forall>j < length xs. j \<notin> J \<longrightarrow> block_tag key \<noteq> block_tag (prf_tag ks (xs ! j))) \<longrightarrow>
        find_index (oh_log_single_col_len P) table key d = d \<and>
        find_flag (oh_log_single_col_len P) table key = 0)"

text \<open>
  The tables of the three parties after \<open>c\<close> queries: the rows \<open>live\<close> are untouched, among them the
  dummies that no query has used; every row is in its receiver-order slot.
\<close>

definition table_state ::
    "ohtable_params \<Rightarrow> 32 word list \<Rightarrow> 'v::len clear_record list \<Rightarrow> (nat \<Rightarrow> nat) \<Rightarrow> local_permutation \<Rightarrow>
     128 word list \<Rightarrow> nat set \<Rightarrow> nat \<Rightarrow> 'v oh_tables \<Rightarrow> bool" where
  "table_state P xs ys bpos lp table live c T \<longleftrightarrow>
     (\<forall>p. oht_params (T p) = P \<and> query_count (T p) = c \<and>
        touched (T p) = map (\<lambda>r. r \<notin> (\<lambda>j. dest lp (bpos j)) ` live) [0..<oh_total_size P]) \<and>
     (\<exists>xr. shared_list (\<lambda>p. xs_receiver_order (T p)) xr \<and> length xr = oh_total_size P \<and>
        (\<forall>j < oh_total_size P. xr ! dest lp (bpos j) =
           table_xs (oh_log_address_space_size P) (oh_num_dummies P) xs ! j)) \<and>
     (\<exists>yr. shared_records (\<lambda>p. ys_receiver_order (T p)) yr \<and> length yr = oh_total_size P \<and>
        (\<forall>j < oh_total_size P. yr ! dest lp (bpos j) = table_ys (oh_num_dummies P) ys ! j)) \<and>
     shared_list (\<lambda>p. dummy_indices (T p)) (map (\<lambda>j. of_nat (bpos j)) [oh_num_elements P..<oh_total_size P]) \<and>
     (\<forall>p. p \<noteq> BUILDER_ID \<longrightarrow> (\<exists>lp'. receiver_shuffle (T p) = Some lp' \<and> valid_lp lp' \<and>
        lp_n lp' = oh_total_size P \<and> dest lp' = dest lp)) \<and>
     (\<exists>C. (\<forall>p. cht_2shares (T p) = Some (C p)) \<and> table_shared BUILDER_ID C (oh_log_single_col_len P) table)"

definition oht_holds ::
    "ohtable_params \<Rightarrow> 128 word list \<Rightarrow> 32 word list \<Rightarrow> 'v::len clear_record list \<Rightarrow> nat set \<Rightarrow> nat set \<Rightarrow>
     nat \<Rightarrow> 'v oh_tables \<Rightarrow> bool" where
  "oht_holds P ks xs ys J live c T \<longleftrightarrow>
     length ys = length xs \<and> c \<le> oh_num_dummies P \<and> live \<subseteq> {..<oh_total_size P} - J \<and>
     {oh_num_elements P + c..<oh_total_size P} \<subseteq> live \<and> card live + oh_stash_size P + c = oh_total_size P \<and>
     (\<exists>bpos lp table. table_layout P ks xs J bpos lp table \<and> table_state P xs ys bpos lp table live c T)"

lemma oht_holds_stash: "oht_holds P ks xs ys J live c T \<Longrightarrow> card J = oh_stash_size P"
  unfolding oht_holds_def table_layout_def by blast

section \<open>Building as a whole\<close>

lemma unshuffled_by_upt:
  assumes "valid_perms n perm"
  shows "drop k (unshuffled_by perm [0..<n]) = map (dest_by perm) [k..<n]"
proof (rule nth_equalityI)
  fix i assume "i < length (drop k (unshuffled_by perm [0..<n]))"
  then have i: "k + i < n" by (simp add: unshuffled_by_def)
  then show "drop k (unshuffled_by perm [0..<n]) ! i = map (dest_by perm) [k..<n] ! i"
    using three.bwd_nth [of n perm "[0..<n]" "k + i"] three.target_less [OF assms i] assms
    by (simp add: unshuffled_by_def)
qed (simp add: unshuffled_by_def)

lemma layout_of_build:
  fixes P ks xs perm
  defines "n \<equiv> length xs + oh_num_dummies P" and "qs \<equiv> shuffled_by perm (map (prf_tag ks) xs @ replicate (oh_num_dummies P) 0)"
  assumes P: "oh_num_elements P = length xs" and n: "n \<le> 2 ^ 32" and perm: "valid_perms n perm"
    and lp: "valid_lp lp" "lp_n lp = n" and tags: "good_tags (map (prf_tag ks) xs)"
    and st: "distinct st" "length st = oh_stash_size P" "\<forall>i \<in> set st. i < length qs \<and> qs ! i \<noteq> 0"
    and ans: "builder_answers (oh_log_single_col_len P) qs table (set st)"
  shows "table_layout P ks xs {j. j < length xs \<and> dest_by perm j \<in> set st} (dest_by perm) lp table"
    and "set st = dest_by perm ` {j. j < length xs \<and> dest_by perm j \<in> set st}"
proof -
  let ?J = "{j. j < length xs \<and> dest_by perm j \<in> set st}" and ?b = "dest_by perm" and ?D = "oh_num_dummies P"
  let ?qs = "map (prf_tag ks) xs @ replicate ?D 0"
  have lq: "length qs = n" by (simp add: qs_def n_def shuffled_by_def)
  have q: "qs ! ?b j = ?qs ! j" if "j < n" for j
    unfolding qs_def using three.fwd_target [OF perm _ that, of ?qs] by (simp add: n_def)
  have nz: "prf_tag ks (xs ! j) \<noteq> 0" if "j < length xs" for j
    using good_tagsD(1) [OF tags, of j] that by auto
  have bij: "bij_betw ?b {..<n} {..<n}" by (rule bij_betw_dest_by [OF perm])
  have source: "\<exists>j < length xs. ?b j = i \<and> qs ! i = prf_tag ks (xs ! j)" if "i < n" "qs ! i \<noteq> 0" for i
  proof -
    have "i \<in> ?b ` {..<n}" using bij that(1) by (simp add: bij_betw_def)
    then obtain j where j: "j < n" "?b j = i" by auto
    then have "j < length xs" using that(2) q [of j] by (auto simp: nth_append n_def split: if_splits)
    then show ?thesis using j q [of j] by (auto simp: nth_append)
  qed
  show im: "set st = ?b ` ?J"
  proof
    show "set st \<subseteq> ?b ` ?J"
    proof
      fix i assume i: "i \<in> set st"
      then obtain j where "j < length xs" "?b j = i" using st(3) lq source [of i] by auto
      then show "i \<in> ?b ` ?J" using i by blast
    qed
  qed auto
  have "inj_on ?b ?J" using bij by (auto simp: bij_betw_def n_def intro: inj_on_subset)
  then have "card ?J = card (set st)" using im card_image by metis
  then have card: "card ?J = oh_stash_size P" using distinct_card [OF st(1)] st(2) by simp
  have hit: "find_index (oh_log_single_col_len P) table key d = of_nat (?b j) \<and> find_flag (oh_log_single_col_len P) table key = 1"
    if "j < length xs" "j \<notin> ?J" "block_tag key = block_tag (prf_tag ks (xs ! j))" for key d j
  proof -
    have j: "j < n" using that(1) by (simp add: n_def)
    have "qs ! ?b j = prf_tag ks (xs ! j)" "?b j < length qs" "?b j \<notin> set st"
      using q [OF j] three.target_less [OF perm j] lq that(1,2) by (simp_all add: nth_append)
    then show ?thesis using ans nz [OF that(1)] that(3) unfolding builder_answers_def by metis
  qed
  have miss: "find_index (oh_log_single_col_len P) table key d = d \<and> find_flag (oh_log_single_col_len P) table key = 0"
    if "block_tag key \<noteq> 0" "\<forall>j < length xs. j \<notin> ?J \<longrightarrow> block_tag key \<noteq> block_tag (prf_tag ks (xs ! j))" for key d
  proof -
    have "block_tag key \<noteq> block_tag (qs ! i)" if i: "i < length qs" "qs ! i \<noteq> 0" "i \<notin> set st" for i
    proof -
      obtain j where "j < length xs" "?b j = i" "qs ! i = prf_tag ks (xs ! j)" using source [of i] i lq by auto
      then show ?thesis using \<open>\<forall>j < length xs. _\<close> i(3) by auto
    qed
    then show ?thesis using ans that(1) unfolding builder_answers_def by blast
  qed
  show "table_layout P ks xs ?J ?b lp table"
    using P n bij lp card tags hit miss by (auto simp: table_layout_def oh_total_size_def n_def)
qed

lemma bij_complement:
  assumes "bij_betw f {..<n} {..<n}" and "J \<subseteq> {..<n}" and "r < (n :: nat)"
  shows "r \<in> f ` J \<longleftrightarrow> r \<notin> f ` ({..<n} - J)"
proof -
  have "f ` ({..<n} - J) = f ` {..<n} - f ` J"
    using assms(1,2) by (intro inj_on_image_set_diff [of f "{..<n}"]) (auto simp: bij_betw_def)
  then show ?thesis using assms(1,3) by (simp add: bij_betw_def)
qed

text \<open>A row's receiver-order slot holds the row.\<close>

lemma slot_holds_row:
  assumes "valid_perms n perm" and "valid_lp lp" "lp_n lp = n" and "length rows = n" and "j < n"
  shows "shuffled lp (shuffled_by perm rows) ! dest lp (dest_by perm j) = rows ! j"
proof -
  have "shuffled lp (shuffled_by perm rows) ! dest lp (dest_by perm j) = shuffled_by perm rows ! dest_by perm j"
    using fy.fwd_target [of lp "shuffled_by perm rows" "dest_by perm j"] assms three.target_less [OF assms(1,5)]
    by (simp add: shuffled_by_def)
  also have "\<dots> = rows ! j" by (rule three.fwd_target [OF assms(1,4,5)])
  finally show ?thesis .
qed

text \<open>The layout, the opened columns and the marks of the last two stages make the table a built one.\<close>

lemma built_table_holds:
  fixes T :: "'v::len oh_tables" and P ks xs ys perm lp
  defines "n \<equiv> length xs + oh_num_dummies P"
    and "xr \<equiv> shuffled lp (shuffled_by perm (table_xs (oh_log_address_space_size P) (oh_num_dummies P) xs))"
    and "yr \<equiv> shuffled lp (shuffled_by perm (table_ys (oh_num_dummies P) ys))"
  assumes ly: "length ys = length xs" and P: "oh_num_elements P = length xs"
    and lay: "table_layout P ks xs J (dest_by perm) lp table"
    and perm: "valid_perms n perm" and lp: "valid_lp lp" "lp_n lp = n"
    and st: "distinct st" "length st = oh_stash_size P" "set st = dest_by perm ` J"
    and public: "\<And>p. oht_params (T p) = P" "\<And>p. query_count (T p) = 0"
      "\<And>p. touched (T p) = map (\<lambda>r. r \<in> dest lp ` set st) [0..<n]"
    and rows: "shared_list (\<lambda>p. xs_receiver_order (T p)) xr" "shared_records (\<lambda>p. ys_receiver_order (T p)) yr"
    and dummies: "shared_list (\<lambda>p. dummy_indices (T p)) (map of_nat (drop (length xs) (unshuffled_by perm [0..<n])))"
    and lps: "\<forall>p. p \<noteq> BUILDER_ID \<longrightarrow> (\<exists>lp'. receiver_shuffle (T p) = Some lp' \<and> valid_lp lp' \<and> lp_n lp' = n \<and> dest lp' = dest lp)"
    and cht: "\<And>p. cht_2shares (T p) = Some (C p)" "table_shared BUILDER_ID C (oh_log_single_col_len P) table"
    and stash: "\<And>p. stash_xs (T p) = map (\<lambda>i. xs_receiver_order (T p) ! dest lp i) st"
      "\<And>p. stash_ys (T p) = map (\<lambda>i. ys_receiver_order (T p) ! dest lp i) st"
  shows "\<exists>js. distinct js \<and> oht_holds P ks xs ys (set js) ({..<n} - set js) 0 T \<and>
    shared_list (\<lambda>p. stash_xs (T p)) (map ((!) xs) js) \<and> shared_records (\<lambda>p. stash_ys (T p)) (map ((!) ys) js)"
proof -
  let ?D = "oh_num_dummies P" and ?s = "oh_stash_size P" and ?log = "oh_log_address_space_size P" and ?N = "length xs"
  let ?slot = "\<lambda>j. dest lp (dest_by perm j)"
  have nP: "oh_total_size P = n" by (simp add: n_def oh_total_size_def P)
  have len: "length xr = n" "length yr = n" by (simp_all add: xr_def yr_def shuffled_by_def n_def ly)
  have JN: "J \<subseteq> {..<?N}" "card J = ?s" using lay unfolding table_layout_def by blast+
  then have J: "J \<subseteq> {..<n}" by (auto simp: n_def)
  have bij: "bij_betw ?slot {..<n} {..<n}"
    using bij_betw_trans [OF bij_betw_dest_by [OF perm], of "dest lp"] bij_betw_dest [of lp] lp by (simp add: comp_def)
  have touched: "map (\<lambda>r. r \<in> dest lp ` set st) [0..<n] = map (\<lambda>r. r \<notin> ?slot ` ({..<n} - J)) [0..<n]"
  proof (rule map_cong)
    fix r assume "r \<in> set [0..<n]"
    then show "(r \<in> dest lp ` set st) = (r \<notin> ?slot ` ({..<n} - J))"
      using bij_complement [OF bij J, of r] by (simp add: st(3) image_image)
  qed simp
  have at: "xr ! ?slot j = table_xs ?log ?D xs ! j" "yr ! ?slot j = table_ys ?D ys ! j" if "j < n" for j
    unfolding xr_def yr_def by (rule slot_holds_row [OF perm lp _ that], simp add: n_def ly)+
  have "st \<in> lists (dest_by perm ` J)" using st(3) by auto
  then obtain js where js: "st = map (dest_by perm) js" "set js \<subseteq> J" unfolding lists_image by auto
  have dj: "distinct js" using st(1) unfolding js(1) by (simp add: distinct_map)
  then have set_js: "set js = J" using js JN finite_subset [OF J] st(2) distinct_card [OF dj]
    by (metis card_subset_eq finite_lessThan length_map)
  have slots: "\<forall>r \<in> set (map ?slot js). r < n" using bij J js(2) by (auto simp: bij_betw_def)
  have picked: "map ((!) xr) (map ?slot js) = map ((!) xs) js" "map ((!) yr) (map ?slot js) = map ((!) ys) js"
    using at JN(1) js(2) by (auto simp: n_def table_xs_def table_ys_def nth_append ly)
  have "table_state P xs ys (dest_by perm) lp table ({..<n} - J) 0 T"
    unfolding table_state_def nP
  proof (intro conjI)
    show "\<forall>p. oht_params (T p) = P \<and> query_count (T p) = 0 \<and> touched (T p) = map (\<lambda>r. r \<notin> ?slot ` ({..<n} - J)) [0..<n]"
      unfolding touched [symmetric] by (simp add: public)
    show "shared_list (\<lambda>p. dummy_indices (T p)) (map (\<lambda>j. of_nat (dest_by perm j)) [oh_num_elements P..<n])"
      using dummies by (simp add: P unshuffled_by_upt [OF perm] comp_def)
  qed (use rows len at lps cht in blast)+
  then have ex: "\<exists>bpos lp table. table_layout P ks xs J bpos lp table \<and> table_state P xs ys bpos lp table ({..<n} - J) 0 T"
    using lay by blast
  have "card ({..<n} - J) = n - ?s" "card J \<le> n"
    using card_Diff_subset [OF finite_subset [OF J] J] card_mono [OF _ J] JN(2) by simp_all
  then have "oht_holds P ks xs ys J ({..<n} - J) 0 T"
    using JN ly P ex unfolding oht_holds_def nP by (auto simp: subset_iff)
  moreover have "shared_list (\<lambda>p. stash_xs (T p)) (map ((!) xs) js)" "shared_records (\<lambda>p. stash_ys (T p)) (map ((!) ys) js)"
    using shared_list_pick [OF rows(1), of "map ?slot js"] shared_records_pick [OF rows(2), of "map ?slot js"] slots len
    unfolding picked by (simp_all add: stash js(1) comp_def)
  ultimately show ?thesis using dj set_js by (intro exI [of _ js]) simp
qed

lemma oht_build_ok:
  fixes V :: "'v::len value_ops"
  assumes V: "doram_value V blk ones" "0 < num_blocks V" and X: "shared_list X xs" and Y: "shared_records Y ys"
    and ly: "length ys = length xs" and K: "shared_list key ks" "length ks = 10"
    and P: "oh_num_elements P = length xs" "oh_total_size P \<le> 2 ^ 32" "oh_log_single_col_len P \<le> 62"
    and tags: "good_tags (map (prf_tag ks) xs)"
    and place: "placeable (oh_log_single_col_len P) (oh_stash_size P) (map (prf_tag ks) xs)"
    and gen: "\<And>i. gen i \<le> i" and env: "online net" "correlated rng" "never_rejected rng (oh_total_size P)"
  shows "\<exists>js T. oht_build V net rng gen X Y (fresh_table P key) = Inr T \<and> distinct js \<and>
    oht_holds P ks xs ys (set js) ({..<oh_total_size P} - set js) 0 T \<and>
    shared_list (\<lambda>p. stash_xs (T p)) (map ((!) xs) js) \<and> shared_records (\<lambda>p. stash_ys (T p)) (map ((!) ys) js)"
proof -
  let ?T0 = "fresh_table P key :: 'v oh_tables" and ?D = "oh_num_dummies P" and ?l = "oh_log_single_col_len P" and ?s = "oh_stash_size P"
  let ?log = "oh_log_address_space_size P" and ?N = "length xs"
  define n where "n = length xs + ?D"
  have nP: "oh_total_size P = n" by (simp add: n_def oh_total_size_def P)
  have n32: "n \<le> 2 ^ 32" using P(2) nP by simp
  obtain Q where Q: "fill_prf_tags net rng X ?T0 = Inr (\<lambda>p. (?T0 p)\<lparr>qs_builder_order := Q p\<rparr>, skip_draws (9 * ?N) rng)"
    "shared_list Q (map (prf_tag ks) xs @ replicate ?D 0)"
    using fill_prf_tags_ok [OF X, of ?T0 ks ?D net rng] K P env(1,2) nP by (auto simp: fresh_table_def Let_def n_def)
  let ?rng1 = "skip_draws (9 * ?N) rng" and ?T1 = "\<lambda>p. (?T0 p)\<lparr>qs_builder_order := Q p\<rparr>"
  let ?qv = "map (prf_tag ks) xs @ replicate ?D 0"
  have T1: "\<exists>perm Qb Xb Yb Di m. shuffle_builder_order V net ?rng1 X Y ?T1 = Inr (\<lambda>p. (?T1 p)\<lparr>qs_builder_order := Qb p,
      xs_builder_order := Xb p, ys_builder_order := Yb p, dummy_indices := Di p\<rparr>, skip_draws m ?rng1) \<and>
    valid_perms (?N + ?D) perm \<and> shared_list Qb (shuffled_by perm ?qv) \<and>
    shared_list Xb (shuffled_by perm (table_xs ?log ?D xs)) \<and>
    shared_records Yb (shuffled_by perm (table_ys ?D ys)) \<and>
    shared_list Di (map of_nat (drop ?N (unshuffled_by perm [0..<?N + ?D])))"
    by (rule shuffle_builder_order_ok [OF V X Y ly, where P = P])
      (use Q(2) P nP env in \<open>simp_all add: fresh_table_def Let_def n_def\<close>)
  then obtain perm Qb Xb Yb Di m where
    sb: "shuffle_builder_order V net ?rng1 X Y ?T1 = Inr (\<lambda>p. (?T1 p)\<lparr>qs_builder_order := Qb p,
      xs_builder_order := Xb p, ys_builder_order := Yb p, dummy_indices := Di p\<rparr>, skip_draws m ?rng1)"
    "valid_perms n perm" "shared_list Qb (shuffled_by perm ?qv)"
    "shared_list Xb (shuffled_by perm (table_xs ?log ?D xs))"
    "shared_records Yb (shuffled_by perm (table_ys ?D ys))"
    "shared_list Di (map of_nat (drop ?N (unshuffled_by perm [0..<n])))"
    unfolding n_def by blast
  let ?rng2 = "skip_draws m ?rng1"
  let ?T2 = "\<lambda>p. (?T1 p)\<lparr>qs_builder_order := Qb p, xs_builder_order := Xb p, ys_builder_order := Yb p, dummy_indices := Di p\<rparr>"
  let ?qs = "shuffled_by perm ?qv"
  have mq: "mset ?qs = mset ?qv" by (rule mset_shuffled_by [OF sb(2)]) (simp add: n_def)
  have T2: "\<exists>C st table m. build_cht net ?rng2 gen ?T2 = Inr (\<lambda>p. (?T2 p)\<lparr>cht_2shares := Some (C p)\<rparr>, st, skip_draws m ?rng2) \<and>
    table_shared BUILDER_ID C ?l table \<and> distinct (st BUILDER_ID) \<and> length (st BUILDER_ID) = ?s \<and>
    (\<forall>i \<in> set (st BUILDER_ID). i < length ?qs \<and> ?qs ! i \<noteq> 0) \<and> builder_answers ?l ?qs table (set (st BUILDER_ID))"
    by (rule build_cht_ok [OF _ mq tags, where P = P])
      (use sb(3) P place gen env n32 in \<open>simp_all add: fresh_table_def Let_def n_def\<close>)
  then obtain C st table m' where
    bc: "build_cht net ?rng2 gen ?T2 = Inr (\<lambda>p. (?T2 p)\<lparr>cht_2shares := Some (C p)\<rparr>, st, skip_draws m' ?rng2)"
    "table_shared BUILDER_ID C ?l table" "distinct (st BUILDER_ID)" "length (st BUILDER_ID) = ?s"
    "\<forall>i \<in> set (st BUILDER_ID). i < length ?qs \<and> ?qs ! i \<noteq> 0" "builder_answers ?l ?qs table (set (st BUILDER_ID))" by blast
  let ?rng3 = "skip_draws m' ?rng2" and ?T3 = "\<lambda>p. (?T2 p)\<lparr>cht_2shares := Some (C p)\<rparr>"
  let ?xb = "shuffled_by perm (table_xs ?log ?D xs)" and ?yb = "shuffled_by perm (table_ys ?D ys)"
  have lb: "length ?xb = n" "length ?yb = n" "length ?qs = n" by (simp_all add: shuffled_by_def n_def ly)
  have T3: "\<exists>lp Xr Yr sh. shuffle_receiver_order V net ?rng3 ?T3 =
      Inr (\<lambda>p. (?T3 p)\<lparr>xs_receiver_order := Xr p, ys_receiver_order := Yr p\<rparr>, sh) \<and>
    valid_lp lp \<and> lp_n lp = n \<and> (\<forall>p. p \<noteq> BUILDER_ID \<longrightarrow> sh p = Some lp) \<and>
    shared_list Xr (shuffled lp ?xb) \<and> shared_records Yr (shuffled lp ?yb)"
    by (rule shuffle_receiver_order_ok [OF V _ _ lb(1,2), where P = P])
      (use sb(4,5) env nP in \<open>simp_all add: fresh_table_def Let_def\<close>)
  then obtain lp Xr Yr sh where
    sr: "shuffle_receiver_order V net ?rng3 ?T3 = Inr (\<lambda>p. (?T3 p)\<lparr>xs_receiver_order := Xr p, ys_receiver_order := Yr p\<rparr>, sh)"
    "valid_lp lp" "lp_n lp = n" "\<forall>p. p \<noteq> BUILDER_ID \<longrightarrow> sh p = Some lp"
    "shared_list Xr (shuffled lp ?xb)" "shared_records Yr (shuffled lp ?yb)" by blast
  let ?T4 = "\<lambda>p. (?T3 p)\<lparr>xs_receiver_order := Xr p, ys_receiver_order := Yr p\<rparr>"
  let ?inds = "map (dest lp) (st BUILDER_ID)" and ?J = "{j. j < length xs \<and> dest_by perm j \<in> set (st BUILDER_ID)}"
  have st: "\<forall>i \<in> set (st BUILDER_ID). i < n" using bc(5) lb(3) by auto
  have T4: "\<exists>lps. place_stash net st sh ?T4 = Inr (\<lambda>p. (?T4 p)\<lparr>touched := map (\<lambda>r. r \<in> set ?inds) [0..<n],
      stash_xs := map ((!) (xs_receiver_order (?T4 p))) ?inds, stash_ys := map ((!) (ys_receiver_order (?T4 p))) ?inds,
      builder_stash_indices := st BUILDER_ID, receiver_shuffle := lps p\<rparr>) \<and>
    (\<forall>p. p \<noteq> BUILDER_ID \<longrightarrow> (\<exists>lp'. lps p = Some lp' \<and> valid_lp lp' \<and> lp_n lp' = n \<and> dest lp' = dest lp))"
    by (rule place_stash_ok [where sh = sh and st = st, OF sr(2,3,4) st env(1)])
      (use nP bc(4) shared_listD(1) [OF sr(5)] shared_recordsD(1) [OF sr(6)] lb(1,2) in \<open>simp_all add: fresh_table_def Let_def\<close>)
  then obtain lps where
    ps: "place_stash net st sh ?T4 = Inr (\<lambda>p. (?T4 p)\<lparr>touched := map (\<lambda>r. r \<in> set ?inds) [0..<n],
      stash_xs := map ((!) (Xr p)) ?inds, stash_ys := map ((!) (Yr p)) ?inds,
      builder_stash_indices := st BUILDER_ID, receiver_shuffle := lps p\<rparr>)"
    "\<forall>p. p \<noteq> BUILDER_ID \<longrightarrow> (\<exists>lp'. lps p = Some lp' \<and> valid_lp lp' \<and> lp_n lp' = n \<and> dest lp' = dest lp)" by auto
  let ?R = "\<lambda>p. (?T4 p)\<lparr>touched := map (\<lambda>r. r \<in> set ?inds) [0..<n],
      stash_xs := map ((!) (Xr p)) ?inds, stash_ys := map ((!) (Yr p)) ?inds,
      builder_stash_indices := st BUILDER_ID, receiver_shuffle := lps p\<rparr>"
  have guard: "everywhere (\<lambda>p. length (X p) = oh_num_elements (oht_params (?T0 p)) \<and> length (Y p) = oh_num_elements (oht_params (?T0 p)))"
    using shared_listD(1) [OF X] shared_recordsD(1) [OF Y] ly P(1) by (simp add: everywhere_def fresh_table_def Let_def)
  have built: "oht_build V net rng gen X Y ?T0 = Inr ?R"
    unfolding oht_build_def checkE_True [OF guard] Q(1) bindE_simps prod.case sb(1) bc(1) sr(1) ps(1) ..
  have stashed: "set (st BUILDER_ID) = dest_by perm ` {j. j < length xs \<and> dest_by perm j \<in> set (st BUILDER_ID)}"
    and lay: "table_layout P ks xs {j. j < length xs \<and> dest_by perm j \<in> set (st BUILDER_ID)} (dest_by perm) lp table"
    using layout_of_build [where st = "st BUILDER_ID", OF P(1) _ _ sr(2) _ tags bc(3,4)] n32 sb(2) sr(3) bc(5,6)
    unfolding n_def by blast+
  have "\<exists>js. distinct js \<and> oht_holds P ks xs ys (set js) ({..<length xs + ?D} - set js) 0 ?R \<and>
    shared_list (\<lambda>p. stash_xs (?R p)) (map ((!) xs) js) \<and> shared_records (\<lambda>p. stash_ys (?R p)) (map ((!) ys) js)"
    by (rule built_table_holds [OF ly P(1) lay _ sr(2) _ bc(3,4) stashed])
      (use sb(2,6) sr(3,5,6) ps(2) bc(2) in \<open>simp_all add: fresh_table_def Let_def n_def comp_def\<close>)
  then obtain js where "distinct js" "oht_holds P ks xs ys (set js) ({..<length xs + ?D} - set js) 0 ?R"
    "shared_list (\<lambda>p. stash_xs (?R p)) (map ((!) xs) js)" "shared_records (\<lambda>p. stash_ys (?R p)) (map ((!) ys) js)"
    by blast
  then show ?thesis using built unfolding nP n_def by blast
qed

lemma oht_new_ok:
  assumes V: "doram_value V blk ones" "0 < num_blocks V" and X: "shared_list X xs" and Y: "shared_records Y ys"
    and ly: "length ys = length xs" and K: "shared_list key ks" "length ks = 10"
    and P: "oh_validate P = Inr ()" "oh_num_elements P = length xs" "oh_total_size P \<le> 2 ^ 32" "oh_log_single_col_len P \<le> 62"
    and tags: "good_tags (map (prf_tag ks) xs)"
    and place: "placeable (oh_log_single_col_len P) (oh_stash_size P) (map (prf_tag ks) xs)"
    and gen: "\<And>i. gen i \<le> i" and env: "online net" "correlated rng" "never_rejected rng (oh_total_size P)"
  shows "\<exists>js T. oht_new V net rng gen P X Y key = Inr T \<and> distinct js \<and>
    oht_holds P ks xs ys (set js) ({..<oh_total_size P} - set js) 0 T \<and>
    shared_list (\<lambda>p. stash_xs (T p)) (map ((!) xs) js) \<and> shared_records (\<lambda>p. stash_ys (T p)) (map ((!) ys) js)"
proof -
  have guard: "everywhere (\<lambda>p. length (X p) = oh_num_elements P \<and> length (Y p) = oh_num_elements P \<and> length (key p) = 10)"
    using shared_listD(1) [OF X] shared_recordsD(1) [OF Y] shared_listD(1) [OF K(1)] ly P(2) K(2) by (intro everywhereI) simp
  show ?thesis
    using oht_build_ok [OF V X Y ly K P(2-4) tags place gen env]
    by (simp add: oht_new_def P(1) checkE_True [OF guard])
qed

text \<open>The last round key shifts the tags, so that any one tag can be had.\<close>

lemma prf_tag_shift: "prf_tag (replicate 9 0 @ [k]) x = prf_tag (replicate 10 0) x XOR k"
proof -
  let ?k = "replicate 9 0 @ [k]"
  have r: "lowmc_round ?k i y = lowmc_round (replicate 10 0) i y" if "i < 8" for i y
    using that by (simp add: lowmc_round_def nth_append)
  have f: "fold (lowmc_round ?k) [0..<8] y = fold (lowmc_round (replicate 10 0)) [0..<8] y" for y
    by (rule fold_cong) (auto simp: fun_eq_iff r simp del: upt_rec_numeral)
  have split: "fold h [0..<9] y = h 8 (fold h [0..<8] y)" for h :: "nat \<Rightarrow> 128 word \<Rightarrow> 128 word" and y
    using upt_Suc [of 0 8] by (simp del: upt_rec_numeral upt_Suc)
  show ?thesis
    unfolding prf_tag_def lowmc_encrypt_def split f by (simp add: lowmc_round_def nth_append xor.assoc del: upt_rec_numeral)
qed

lemma prf_tag_last_key: "prf_tag (replicate 9 0 @ [prf_tag (replicate 10 0) x XOR t]) x = t"
  by (simp only: prf_tag_shift xor_cancel_left)

lemma shared_record_trivial: "shared_record (\<lambda>p. record_new (promote_public p v) (promote_public p a)) (v, a)"
  by (simp add: shared_record_def record_new_def shared_promote_public)

section \<open>A table of one entry\<close>

text \<open>One entry, two dummies, no stash; the keys give the entry a tag that can be written down.\<close>

definition sample_params :: ohtable_params where
  "sample_params = \<lparr>oh_num_elements = 1, oh_num_dummies = 2, oh_stash_size = 0, oh_log_single_col_len = 1,
     oh_log_address_space_size = 4\<rparr>"

definition sample_keys :: "128 word list" where
  "sample_keys = replicate 9 0 @ [prf_tag (replicate 10 0) 5 XOR 0x10000000000000000]"

lemma sample_tag: "prf_tag sample_keys 5 = 0x10000000000000000"
  unfolding sample_keys_def by (rule prf_tag_last_key)

lemma sample_block_tag: "block_tag 0x10000000000000000 \<noteq> 0"
  by (simp add: block_tag_def)

lemma sample_hypotheses:
  "shared_list (\<lambda>p. [promote_public p 5]) [5 :: 32 word]"
  "shared_records (\<lambda>p. [record_new (promote_public p 7) (promote_public p 0)]) [(7 :: 64 word, 0)]"
  "length [(7 :: 64 word, 0 :: 8 word)] = length [5 :: 32 word]"
  "shared_list (\<lambda>p. promote_public_values p sample_keys) sample_keys" "length sample_keys = 10"
  "oh_validate sample_params = Inr ()" "oh_num_elements sample_params = length [5 :: 32 word]"
  "oh_total_size sample_params \<le> 2 ^ 32" "oh_log_single_col_len sample_params \<le> 62"
  "good_tags (map (prf_tag sample_keys) [5])"
  "placeable (oh_log_single_col_len sample_params) (oh_stash_size sample_params) (map (prf_tag sample_keys) [5])"
  "online all_online" "correlated zero_rng" "never_rejected zero_rng (oh_total_size sample_params)"
proof -
  have tag: "map (prf_tag sample_keys) [5] = [0x10000000000000000]" by (simp only: list.map sample_tag)
  show "good_tags (map (prf_tag sample_keys) [5])" unfolding tag by (simp add: good_tags_def sample_block_tag)
  show "placeable (oh_log_single_col_len sample_params) (oh_stash_size sample_params) (map (prf_tag sample_keys) [5])"
    unfolding tag placeable_def cuckoo_placement_def
    by (intro conjI exI [of _ "{0}"] exI [of _ "\<lambda>e. h0 0x10000000000000000 (oh_log_single_col_len sample_params)"]) (simp_all add: sample_params_def)
  show "never_rejected zero_rng (oh_total_size sample_params)"
    by (rule zero_rng_never_rejected) (simp add: oh_total_size_def sample_params_def)
  show "oh_validate sample_params = Inr ()"
    by (simp add: oh_validate_def cht_full_table_length_def shl_usize_def usize_bits_def oh_total_size_def sample_params_def)
  show "length sample_keys = 10" by (simp add: sample_keys_def)
qed (simp_all add: shared_list_def shared_promote_public shared_records_def shared_record_trivial
    oh_total_size_def sample_params_def promote_public_values_def)

lemma sample_blocks: "0 < num_blocks (ring_value :: 64 value_ops)"
  by (simp add: ring_value_def)

lemma sample_stash:
  assumes "oht_holds sample_params ks xs ys (set js) ({..<oh_total_size sample_params} - set js) 0 T"
  shows "oht_holds sample_params ks xs ys {} {..<3} 0 T"
proof -
  have "set js = {}" using oht_holds_stash [OF assms] by (simp add: sample_params_def)
  moreover have "oh_total_size sample_params = 3" by (simp add: oh_total_size_def sample_params_def)
  ultimately show ?thesis using assms by simp
qed

lemma sample_table: "\<exists>T :: 64 oh_tables. oht_holds sample_params sample_keys [5] [(7, 0)] {} {..<3} 0 T"
  using oht_new_ok [where gen = "\<lambda>i. 0" and xs = "[5]", OF u64_value.doram_value_axioms sample_blocks
      sample_hypotheses(1-11) _ sample_hypotheses(12-14)] sample_stash by blast

section \<open>Properties\<close>

text \<open>C5: Building an oblivious hash table from shared entries succeeds when all but the stash fits in
  the cuckoo table, and its three parts then agree: a row's tag leads to its builder-order position,
  the receivers' permutation from there to the slot that holds the row, and exactly the stashed
  rows are marked as touched and shared out as the stash.\<close>

theorem oht_build_correct:
  assumes "doram_value V blk ones" and "0 < num_blocks V"
    and "shared_list X xs" and "shared_records Y ys" and "length ys = length xs"
    and "shared_list key ks" and "length ks = 10"
    and "oh_validate P = Inr ()" and "oh_num_elements P = length xs"
    and "oh_total_size P \<le> 2 ^ 32" and "oh_log_single_col_len P \<le> 62"
    and "good_tags (map (prf_tag ks) xs)"
    and "placeable (oh_log_single_col_len P) (oh_stash_size P) (map (prf_tag ks) xs)"
    and "\<And>i. gen i \<le> i" and "online net" and "correlated rng" and "never_rejected rng (oh_total_size P)"
  shows "\<exists>js T. oht_new V net rng gen P X Y key = Inr T \<and> distinct js \<and>
    oht_holds P ks xs ys (set js) ({..<oh_total_size P} - set js) 0 T \<and>
    shared_list (\<lambda>p. stash_xs (T p)) (map ((!) xs) js) \<and> shared_records (\<lambda>p. stash_ys (T p)) (map ((!) ys) js)"
  by (rule oht_new_ok [OF assms])

theorem oht_build_correct_witness:
  "\<exists>T. oht_new (ring_value :: 64 value_ops) all_online zero_rng (\<lambda>i. 0) sample_params (\<lambda>p. [promote_public p 5])
      (\<lambda>p. [record_new (promote_public p 7) (promote_public p 0)]) (\<lambda>p. promote_public_values p sample_keys) = Inr T \<and>
    oht_holds sample_params sample_keys [5] [(7, 0)] {} {..<3} 0 T"
  using oht_build_correct [where gen = "\<lambda>i. 0" and xs = "[5]", OF u64_value.doram_value_axioms sample_blocks
      sample_hypotheses(1-11) _ sample_hypotheses(12-14)] sample_stash by blast

end
