(* ===== verification/Oht_Query.thy ===== *)
theory Oht_Query
  imports Oht_Build
begin

text \<open>
  Queries of a built oblivious hash table. A query's tag selects a row: the one with this tag, or
  the next dummy when no row in the table has it. The receivers learn the row's slot, the slot is
  marked, and its record is handed out; the entries that are left are those of the map without the
  queried tag.
\<close>

section \<open>The row of a query\<close>

definition selected_row :: "128 word list \<Rightarrow> 32 word list \<Rightarrow> nat set \<Rightarrow> 128 word \<Rightarrow> nat \<Rightarrow> nat" where
  "selected_row ks xs J key c =
     (case find (\<lambda>j. j \<notin> J \<and> block_tag (prf_tag ks (xs ! j)) = block_tag key) [0..<length xs] of
        Some j \<Rightarrow> j | None \<Rightarrow> length xs + c)"

lemma selected_row_cases:
  obtains (hit) "selected_row ks xs J key c < length xs" "selected_row ks xs J key c \<notin> J"
      "block_tag (prf_tag ks (xs ! selected_row ks xs J key c)) = block_tag key"
    | (miss) "selected_row ks xs J key c = length xs + c"
      "\<forall>j < length xs. j \<notin> J \<longrightarrow> block_tag key \<noteq> block_tag (prf_tag ks (xs ! j))"
proof (cases "find (\<lambda>j. j \<notin> J \<and> block_tag (prf_tag ks (xs ! j)) = block_tag key) [0..<length xs]")
  case None
  then have "\<forall>j < length xs. j \<notin> J \<longrightarrow> block_tag key \<noteq> block_tag (prf_tag ks (xs ! j))"
    by (auto simp: find_None_iff)
  then show ?thesis using miss None by (simp add: selected_row_def)
next
  case (Some j)
  then have "j < length xs \<and> j \<notin> J \<and> block_tag (prf_tag ks (xs ! j)) = block_tag key"
    unfolding find_Some_iff by auto
  then show ?thesis using hit Some by (simp add: selected_row_def)
qed

lemma selected_row_unique:
  assumes tags: "good_tags (map (prf_tag ks) xs)" and j: "j < length xs" "j \<notin> J"
    and key: "block_tag key = block_tag (prf_tag ks (xs ! j))"
  shows "selected_row ks xs J key c = j"
proof (cases rule: selected_row_cases [where ks = ks and xs = xs and J = J and key = key and c = c])
  case hit
  define i where "i = selected_row ks xs J key c"
  have "i < length xs" "block_tag (prf_tag ks (xs ! i)) = block_tag (prf_tag ks (xs ! j))"
    using hit key by (simp_all add: i_def)
  then have "i = j" using good_tagsD(2) [OF tags, of i j] j(1) by simp
  then show ?thesis by (simp add: i_def)
next
  case miss
  then show ?thesis using j key by blast
qed

lemma layoutD:
  assumes "table_layout P ks xs J bpos lp table"
  shows "length xs = oh_num_elements P" "oh_total_size P \<le> 2 ^ 32"
    "bij_betw bpos {..<oh_total_size P} {..<oh_total_size P}" "valid_lp lp" "lp_n lp = oh_total_size P"
    "J \<subseteq> {..<length xs}" "good_tags (map (prf_tag ks) xs)"
  using assms unfolding table_layout_def by blast+

text \<open>What the cuckoo table says of a tag, with the position of the next dummy as default.\<close>

lemma layout_find:
  fixes c :: nat
  assumes lay: "table_layout P ks xs J bpos lp table" and "block_tag key \<noteq> 0"
  defines "r \<equiv> selected_row ks xs J key c" and "l \<equiv> oh_log_single_col_len P"
  shows "find_index l table key (of_nat (bpos (length xs + c))) = of_nat (bpos r)"
    and "find_flag l table key = of_bool (r < length xs)"
proof -
  have "find_index l table key (of_nat (bpos (length xs + c))) = of_nat (bpos r) \<and>
      find_flag l table key = of_bool (r < length xs)"
  proof (cases rule: selected_row_cases [where ks = ks and xs = xs and J = J and key = key and c = c])
    case hit
    then have "find_index l table key d = of_nat (bpos r) \<and> find_flag l table key = 1" for d
      using lay unfolding table_layout_def r_def l_def by metis
    then show ?thesis using hit(1) by (simp add: r_def)
  next
    case miss
    then have "find_index l table key d = d \<and> find_flag l table key = 0" for d
      using lay assms(2) unfolding table_layout_def l_def by blast
    then show ?thesis using miss(1) by (simp add: r_def)
  qed
  then show "find_index l table key (of_nat (bpos (length xs + c))) = of_nat (bpos r)"
    "find_flag l table key = of_bool (r < length xs)" by blast+
qed

lemma slot_bij:
  assumes "table_layout P ks xs J bpos lp table"
  shows "bij_betw (\<lambda>j. dest lp (bpos j)) {..<oh_total_size P} {..<oh_total_size P}"
proof -
  have "bij_betw (dest lp) {..<oh_total_size P} {..<oh_total_size P}"
    using bij_betw_dest [of lp] layoutD(4,5) [OF assms] by simp
  from bij_betw_trans [OF layoutD(3) [OF assms] this] show ?thesis by (simp add: comp_def)
qed

lemma bpos_less:
  "table_layout P ks xs J bpos lp table \<Longrightarrow> j < oh_total_size P \<Longrightarrow> bpos j < oh_total_size P"
  using layoutD(3) [of P ks xs J bpos lp table] by (auto simp: bij_betw_def)

lemma unat_bpos:
  "table_layout P ks xs J bpos lp table \<Longrightarrow> j < oh_total_size P \<Longrightarrow> unat (of_nat (bpos j) :: 32 word) = bpos j"
  using bpos_less [of P ks xs J bpos lp table j] layoutD(2) [of P ks xs J bpos lp table]
  by (simp add: unsigned_of_nat take_bit_nat_eq_self)

section \<open>Touching slots\<close>

lemma table_stateD:
  assumes "table_state P xs ys bpos lp table live c T"
  shows "oht_params (T p) = P" "query_count (T p) = c"
    "touched (T p) = map (\<lambda>r. r \<notin> (\<lambda>j. dest lp (bpos j)) ` live) [0..<oh_total_size P]"
    "shared_list (\<lambda>p. dummy_indices (T p)) (map (\<lambda>j. of_nat (bpos j)) [oh_num_elements P..<oh_total_size P])"
    "p \<noteq> BUILDER_ID \<Longrightarrow> \<exists>lp'. receiver_shuffle (T p) = Some lp' \<and> valid_lp lp' \<and>
        lp_n lp' = oh_total_size P \<and> dest lp' = dest lp"
    "\<exists>C. (\<forall>p. cht_2shares (T p) = Some (C p)) \<and> table_shared BUILDER_ID C (oh_log_single_col_len P) table"
    "\<exists>yr. shared_records (\<lambda>p. ys_receiver_order (T p)) yr \<and> length yr = oh_total_size P \<and>
        (\<forall>j < oh_total_size P. yr ! dest lp (bpos j) = table_ys (oh_num_dummies P) ys ! j)"
  using assms unfolding table_state_def by blast+

text \<open>The fields a query may change without touching a row.\<close>

lemma table_state_update:
  assumes "table_state P xs ys bpos lp table live c T"
    and "\<And>p. oht_params (T' p) = oht_params (T p) \<and> xs_receiver_order (T' p) = xs_receiver_order (T p) \<and>
      ys_receiver_order (T' p) = ys_receiver_order (T p) \<and> dummy_indices (T' p) = dummy_indices (T p) \<and>
      cht_2shares (T' p) = cht_2shares (T p)"
    and "\<And>p. query_count (T' p) = c'"
    and "\<And>p. touched (T' p) = map (\<lambda>r. r \<notin> (\<lambda>j. dest lp (bpos j)) ` live') [0..<oh_total_size P]"
    and "\<And>p. p \<noteq> BUILDER_ID \<Longrightarrow> \<exists>lp'. receiver_shuffle (T' p) = Some lp' \<and> valid_lp lp' \<and>
        lp_n lp' = oh_total_size P \<and> dest lp' = dest lp"
  shows "table_state P xs ys bpos lp table live' c' T'"
  using assms unfolding table_state_def by simp

lemma marks_of_live:
  assumes "bij_betw f {..<n} {..<n}" and "live \<subseteq> {..<n}" and "r < n"
  shows "map (\<lambda>i. i \<notin> f ` live) [0..<n] ! f r \<longleftrightarrow> r \<notin> live" and "f r < n"
    and "(map (\<lambda>i. i \<notin> f ` live) [0..<n])[f r := True] = map (\<lambda>i. i \<notin> f ` (live - {r})) [0..<n]"
proof -
  have inj: "inj_on f {..<n}" and less: "\<And>j. j < n \<Longrightarrow> f j < n" using assms(1) by (auto simp: bij_betw_def)
  have mem: "f j \<in> f ` live \<longleftrightarrow> j \<in> live" if "j < n" for j
    using inj_on_image_mem_iff [OF inj _ assms(2)] that by simp
  show fr: "f r < n" by (rule less [OF assms(3)])
  show "map (\<lambda>i. i \<notin> f ` live) [0..<n] ! f r \<longleftrightarrow> r \<notin> live" using mem [OF assms(3)] fr by simp
  have "f ` (live - {r}) = f ` live - {f r}"
    using inj_on_image_set_diff [of f "{..<n}" live "{r}"] inj assms(2,3) by auto
  then show "(map (\<lambda>i. i \<notin> f ` live) [0..<n])[f r := True] = map (\<lambda>i. i \<notin> f ` (live - {r})) [0..<n]"
    using fr by (intro nth_equalityI) (auto simp: nth_list_update)
qed

text \<open>A party's step on a live row marks it and hands out its record; on a spent row it panics.\<close>

lemma touch_live:
  fixes t :: "'v::len oh_table"
  assumes "bij_betw f {..<n} {..<n}" and "live \<subseteq> {..<n}" and "r \<in> live"
    and "touched t = map (\<lambda>i. i \<notin> f ` live) [0..<n]" and "length (ys_receiver_order t) = n"
  shows "touch_slot old (f r) t = Inr (t\<lparr>touched := map (\<lambda>i. i \<notin> f ` (live - {r})) [0..<n],
      last_query_trace := Some \<lparr>old_query_count = old, selected_receiver_index = f r, was_touched_before = False\<rparr>\<rparr>,
    ys_receiver_order t ! f r)"
proof -
  have r: "r < n" using assms(2,3) by auto
  note m = marks_of_live [OF assms(1,2) r]
  have len: "length (touched t) = n" by (simp add: assms(4))
  have get: "getE (touched t) (f r) = Inr False" using m(1,2) assms(3) len by (simp add: assms(4))
  have set: "setE (touched t) (f r) True = Inr (map (\<lambda>i. i \<notin> f ` (live - {r})) [0..<n])"
    unfolding m(3) [symmetric] assms(4) [symmetric] using m(2) len by simp
  show ?thesis using m(2) assms(5) by (simp add: touch_slot_def get set)
qed

lemma touch_spent:
  assumes "bij_betw f {..<n} {..<n}" and "live \<subseteq> {..<n}" and "r \<notin> live" "r < n"
    and "touched t = map (\<lambda>i. i \<notin> f ` live) [0..<n]"
  shows "touch_slot old (f r) t = Inl (Panic ''assertion failed: !was_touched_before'')"
proof -
  note m = marks_of_live [OF assms(1,2,4)]
  have "getE (touched t) (f r) = Inr True" using m(1,2) assms(3) by (simp add: assms(5))
  then show ?thesis by (simp add: touch_slot_def)
qed

text \<open>The receivers' slots for a list of builder-order positions.\<close>

lemma receiver_slots_ok:
  assumes st: "table_state P xs ys bpos lp table live c T" and lay: "table_layout P ks xs J bpos lp table"
    and inds: "\<And>p. p \<noteq> BUILDER_ID \<Longrightarrow> inds p = map bpos rows" and rows: "\<forall>r \<in> set rows. r < oh_total_size P"
    and env: "online net"
  shows "\<exists>T'. receiver_slots net inds T = Inr (\<lambda>p. map (\<lambda>r. dest lp (bpos r)) rows, T') \<and>
    table_state P xs ys bpos lp table live c T'"
proof -
  let ?B = BUILDER_ID and ?slots = "map (\<lambda>r. dest lp (bpos r)) rows"
  have "\<exists>lp'. bindE (unwrap_shuffle msg (receiver_shuffle (T p))) (\<lambda>lp. evaluate_all lp (inds p)) = Inr (?slots, lp') \<and>
      valid_lp lp' \<and> lp_n lp' = oh_total_size P \<and> dest lp' = dest lp" if p: "p \<noteq> ?B" for p msg
  proof -
    obtain lp1 where lp1: "receiver_shuffle (T p) = Some lp1" "valid_lp lp1" "lp_n lp1 = oh_total_size P" "dest lp1 = dest lp"
      using table_stateD(5) [OF st p] by blast
    have "\<forall>i \<in> set (map bpos rows). i < lp_n lp1" using rows bpos_less [OF lay] lp1(3) by auto
    from evaluate_all_ok [OF lp1(2) this] show ?thesis
      using lp1 by (auto simp: unwrap_shuffle_def inds [OF p] comp_def)
  qed
  moreover have "prev_party ?B \<noteq> ?B" "next_party ?B \<noteq> ?B" by (simp_all add: BUILDER_ID_def)
  ultimately obtain lp1 lp2 where
    e: "bindE (unwrap_shuffle ''OHTable must be built before querying'' (receiver_shuffle (T (prev_party ?B))))
        (\<lambda>lp. evaluate_all lp (inds (prev_party ?B))) = Inr (?slots, lp1)"
      "valid_lp lp1 \<and> lp_n lp1 = oh_total_size P \<and> dest lp1 = dest lp"
      "bindE (unwrap_shuffle ''OHTable must be built before querying'' (receiver_shuffle (T (next_party ?B))))
        (\<lambda>lp. evaluate_all lp (inds (next_party ?B))) = Inr (?slots, lp2)"
      "valid_lp lp2 \<and> lp_n lp2 = oh_total_size P \<and> dest lp2 = dest lp" by meson
  let ?T = "\<lambda>p. if p = ?B then T p else if p = prev_party ?B then (T p)\<lparr>receiver_shuffle := Some lp1\<rparr>
      else (T p)\<lparr>receiver_shuffle := Some lp2\<rparr>"
  have "receiver_slots net inds T = Inr (\<lambda>p. ?slots, ?T)"
    using env by (simp add: receiver_slots_def Let_def e(1,3) cong: if_cong)
  moreover have "table_state P xs ys bpos lp table live c ?T"
    by (rule table_state_update [OF st]) (use e(2,4) table_stateD [OF st] in auto)
  ultimately show ?thesis by blast
qed

definition same_static :: "'v::len oh_table \<Rightarrow> 'v oh_table \<Rightarrow> bool" where
  "same_static t t' \<longleftrightarrow> oht_params t' = oht_params t \<and> xs_receiver_order t' = xs_receiver_order t \<and>
     ys_receiver_order t' = ys_receiver_order t \<and> dummy_indices t' = dummy_indices t \<and>
     cht_2shares t' = cht_2shares t \<and> receiver_shuffle t' = receiver_shuffle t \<and> query_count t' = query_count t"

lemma touch_rows:
  fixes t :: "'v::len oh_table"
  assumes bij: "bij_betw f {..<n} {..<n}" and "live \<subseteq> {..<n}" and "distinct rows" and "set rows \<subseteq> live"
    and "touched t = map (\<lambda>i. i \<notin> f ` live) [0..<n]" and "length (ys_receiver_order t) = n"
  shows "\<exists>t'. foldE (\<lambda>(offset, slot) (t, ys). bindE (touch_slot (c + offset) slot t) (\<lambda>(t', y). Inr (t', ys @ [y])))
      (enumerate k (map f rows)) (t, zs) = Inr (t', zs @ map (\<lambda>r. ys_receiver_order t ! f r) rows) \<and>
    touched t' = map (\<lambda>i. i \<notin> f ` (live - set rows)) [0..<n] \<and> same_static t t'"
  using assms(2-)
proof (induction rows arbitrary: live t k zs)
  case Nil
  then show ?case by (simp add: same_static_def)
next
  case (Cons r rows)
  let ?t = "t\<lparr>touched := map (\<lambda>i. i \<notin> f ` (live - {r})) [0..<n], last_query_trace := Some
      \<lparr>old_query_count = c + k, selected_receiver_index = f r, was_touched_before = False\<rparr>\<rparr>"
  have one: "touch_slot (c + k) (f r) t = Inr (?t, ys_receiver_order t ! f r)"
    using Cons.prems by (intro touch_live [OF bij]) auto
  obtain t' where "foldE (\<lambda>(offset, slot) (t, ys). bindE (touch_slot (c + offset) slot t) (\<lambda>(t', y). Inr (t', ys @ [y])))
      (enumerate (Suc k) (map f rows)) (?t, zs @ [ys_receiver_order t ! f r]) =
      Inr (t', (zs @ [ys_receiver_order t ! f r]) @ map (\<lambda>r. ys_receiver_order t ! f r) rows)"
    "touched t' = map (\<lambda>i. i \<notin> f ` (live - {r} - set rows)) [0..<n]" "same_static ?t t'"
    using Cons.IH [of "live - {r}" ?t "Suc k" "zs @ [ys_receiver_order t ! f r]"] Cons.prems by auto
  moreover have "live - {r} - set rows = live - set (r # rows)" by auto
  ultimately show ?case by (intro exI [of _ t']) (simp add: one same_static_def)
qed

text \<open>All parties touch the rows: the records open to the rows', and the table loses the rows.\<close>

lemma table_rows_shared:
  assumes "table_state P xs ys bpos lp table live c T" and lay: "table_layout P ks xs J bpos lp table"
    and "\<forall>r \<in> set rows. r < oh_total_size P"
  shows "shared_records (\<lambda>p. map (\<lambda>r. ys_receiver_order (T p) ! dest lp (bpos r)) rows)
    (map ((!) (table_ys (oh_num_dummies P) ys)) rows)" and "length (ys_receiver_order (T p)) = oh_total_size P"
proof -
  obtain yr where yr: "shared_records (\<lambda>p. ys_receiver_order (T p)) yr" "length yr = oh_total_size P"
    "\<forall>j < oh_total_size P. yr ! dest lp (bpos j) = table_ys (oh_num_dummies P) ys ! j"
    using table_stateD(7) [OF assms(1)] by blast
  have "\<forall>r \<in> set (map (\<lambda>r. dest lp (bpos r)) rows). r < length yr"
    using slot_bij [OF lay] assms(3) yr(2) by (auto simp: bij_betw_def)
  from shared_records_pick [OF yr(1) this]
  have "shared_records (\<lambda>p. map (\<lambda>r. ys_receiver_order (T p) ! dest lp (bpos r)) rows) (map (\<lambda>r. yr ! dest lp (bpos r)) rows)"
    by (simp add: comp_def)
  moreover have "map (\<lambda>r. yr ! dest lp (bpos r)) rows = map ((!) (table_ys (oh_num_dummies P) ys)) rows"
    using yr(3) assms(3) by simp
  ultimately show "shared_records (\<lambda>p. map (\<lambda>r. ys_receiver_order (T p) ! dest lp (bpos r)) rows)
      (map ((!) (table_ys (oh_num_dummies P) ys)) rows)" by simp
  show "length (ys_receiver_order (T p)) = oh_total_size P"
    using shared_recordsD(1) [OF yr(1)] yr(2) by simp
qed

lemma table_state_touched:
  assumes st: "table_state P xs ys bpos lp table live c T"
    and t: "\<And>p. same_static (T p) (T' p)" "\<And>p. touched (T' p) = map (\<lambda>r. r \<notin> (\<lambda>j. dest lp (bpos j)) ` live') [0..<oh_total_size P]"
  shows "table_state P xs ys bpos lp table live' (c + k) (\<lambda>p. (T' p)\<lparr>query_count := query_count (T' p) + k\<rparr>)"
  by (rule table_state_update [OF st]) (use t table_stateD(2,5) [OF st] in \<open>simp_all add: same_static_def\<close>)

text \<open>The state after the queries that touched \<open>rows\<close>.\<close>

lemma oht_holds_after:
  assumes "oht_holds P ks xs ys J live c T" and lay: "table_layout P ks xs J bpos lp table"
    and st: "table_state P xs ys bpos lp table (live - set rows) (c + length rows) T'"
    and "distinct rows" and "set rows \<subseteq> live" and "set rows \<inter> {length xs + (c + length rows)..} = {}"
    and "c + length rows \<le> oh_num_dummies P"
  shows "oht_holds P ks xs ys J (live - set rows) (c + length rows) T'"
proof -
  have h: "length ys = length xs" "live \<subseteq> {..<oh_total_size P} - J" "{oh_num_elements P + c..<oh_total_size P} \<subseteq> live"
    "card live + oh_stash_size P + c = oh_total_size P"
    using assms(1) unfolding oht_holds_def by blast+
  have fin: "finite live" using h(2) by (meson finite_Diff finite_lessThan finite_subset)
  have "card (live - set rows) = card live - length rows" "length rows \<le> card live"
    using card_Diff_subset [OF _ assms(5)] card_mono [OF fin assms(5)] distinct_card [OF assms(4)] by simp_all
  then have "card (live - set rows) + oh_stash_size P + (c + length rows) = oh_total_size P" using h(4) by simp
  moreover have "{oh_num_elements P + (c + length rows)..<oh_total_size P} \<subseteq> live - set rows"
    using h(3) assms(6) layoutD(1) [OF lay] by auto
  ultimately show ?thesis using h(1,2) lay st assms(7) unfolding oht_holds_def by blast
qed

section \<open>The keys that the receivers see\<close>

definition query_keys :: "1 word list \<Rightarrow> 128 word list \<Rightarrow> 128 word list \<Rightarrow> 128 word list" where
  "query_keys us rs qs = map2 (\<lambda>u (r, q). if u \<noteq> 0 then r else q) us (zip rs qs)"

lemma length_query_keys [simp]: "length (query_keys us rs qs) = min (length us) (min (length rs) (length qs))"
  by (simp add: query_keys_def)

lemma nth_query_keys:
  "i < length us \<Longrightarrow> i < length rs \<Longrightarrow> i < length qs \<Longrightarrow> query_keys us rs qs ! i = (if us ! i \<noteq> 0 then rs ! i else qs ! i)"
  by (simp add: query_keys_def)

lemma select_keys:
  assumes "and_protocol and_vec True" and U: "shared_list U us" and R: "shared_list R rs" and Q: "shared_list Q qs"
    and len: "length rs = length qs" "length us = length qs"
  shows "\<exists>S. and_vec (\<lambda>p. map bit_to_binary_mask (U p)) (\<lambda>p. xor_shares (R p) (Q p)) = Inr S \<and>
    shared_list (\<lambda>p. xor_shares (Q p) (S p)) (query_keys us rs qs)"
proof -
  have M: "shared_list (\<lambda>p. map bit_to_binary_mask (U p)) (map bit_mask us :: 128 word list)"
    by (rule shared_list_map [OF U]) (rule shared_bit_to_binary_mask)
  have D: "shared_list (\<lambda>p. xor_shares (R p) (Q p)) (map2 (XOR) rs qs)" by (rule xor_shares_shared [OF R Q len(1)])
  obtain S where S: "and_vec (\<lambda>p. map bit_to_binary_mask (U p)) (\<lambda>p. xor_shares (R p) (Q p)) = Inr S"
    "shared_list S (map2 (AND) (map bit_mask us) (map2 (XOR) rs qs))"
    using and_protocol.and_vec_ok [OF assms(1) _ M D] len by auto
  have "shared_list (\<lambda>p. xor_shares (Q p) (S p)) (map2 (XOR) qs (map2 (AND) (map bit_mask us) (map2 (XOR) rs qs)))"
    by (rule xor_shares_shared [OF Q S(2)]) (simp add: len)
  moreover have "map2 (XOR) qs (map2 (AND) (map bit_mask us) (map2 (XOR) rs qs)) = query_keys us rs qs"
    by (rule nth_equalityI) (auto simp: nth_query_keys len bit_mask_def)
  ultimately show ?thesis using S(1) by auto
qed

lemma reveal_to_receivers_many_ok:
  assumes "shared_list S xs" and "online net"
  shows "reveal_to_receivers_many net S B = Inr (\<lambda>p. if p = B then replicate (length xs) 0 else xs)"
proof -
  have "p = B \<or> p = prev_party B \<or> p = next_party B" for p using party_cases_around [of p B] by blast
  then show ?thesis
    using shared_listD(1) [OF assms(1)] unfolding reveal_to_receivers_many_def reveal_to_party_many_correct [OF assms] bindE_simps
    by (intro each_party_Inr) (auto dest: spec)
qed

lemma reveal_to_receivers_ok:
  assumes "shared S x" and "online net"
  shows "reveal_to_receivers net S B = Inr (\<lambda>p. if p = B then 0 else x)"
proof -
  have "p = B \<or> p = prev_party B \<or> p = next_party B" for p using party_cases_around [of p B] by blast
  then show ?thesis
    unfolding reveal_to_receivers_def reveal_to_party_correct [OF assms] bindE_simps
    by (intro each_party_Inr) auto
qed

section \<open>Queries as a whole\<close>

definition query_rows :: "128 word list \<Rightarrow> 32 word list \<Rightarrow> nat set \<Rightarrow> 128 word list \<Rightarrow> nat \<Rightarrow> nat list" where
  "query_rows ks xs J keys c = map (\<lambda>i. selected_row ks xs J (keys ! i) (c + i)) [0..<length keys]"

lemma next_dummies:
  assumes st: "table_state P xs ys bpos lp table live c T" and "length xs = oh_num_elements P"
    and "c + k \<le> oh_num_dummies P"
  shows "\<exists>D. (\<forall>p. mapE (\<lambda>i. getE (dummy_indices (T p)) (c + i)) [0..<k] = Inr (D p)) \<and>
    shared_list (\<lambda>p. map cast_share (D p)) (map (\<lambda>i. of_nat (bpos (length xs + (c + i))) :: 32 word) [0..<k])"
proof -
  note d = table_stateD(4) [OF st]
  have len: "length (dummy_indices (T p)) = oh_num_dummies P" for p
    using shared_listD(1) [OF d] by (simp add: oh_total_size_def)
  let ?D = "\<lambda>p. map (\<lambda>i. dummy_indices (T p) ! (c + i)) [0..<k]"
  have "mapE (\<lambda>i. getE (dummy_indices (T p)) (c + i)) [0..<k] = Inr (?D p)" for p
    using assms(3) by (intro mapE_total) (simp add: len)
  moreover have "shared (\<lambda>p. cast_share (dummy_indices (T p) ! (c + i))) (of_nat (bpos (length xs + (c + i))) :: 32 word)" if "i < k" for i
    using shared_cast [OF shared_listD(2) [OF d, of "c + i"], where 'b = 32] that assms(2,3)
    by (simp add: oh_total_size_def)
  then have "shared_list (\<lambda>p. map cast_share (?D p)) (map (\<lambda>i. of_nat (bpos (length xs + (c + i))) :: 32 word) [0..<k])"
    by (intro shared_listI) simp_all
  ultimately show ?thesis by (intro exI [of _ ?D]) simp
qed

lemma query_rows_facts:
  assumes lay: "table_layout P ks xs J bpos lp table" and "c + length keys \<le> oh_num_dummies P"
  shows "\<forall>r \<in> set (query_rows ks xs J keys c). r < oh_total_size P"
    and "set (query_rows ks xs J keys c) \<inter> {length xs + (c + length keys)..} = {}"
proof -
  have r: "selected_row ks xs J (keys ! i) (c + i) < length xs \<or> selected_row ks xs J (keys ! i) (c + i) = length xs + (c + i)" for i
    by (cases rule: selected_row_cases [where ks = ks and xs = xs and J = J and key = "keys ! i" and c = "c + i"]) auto
  show "set (query_rows ks xs J keys c) \<inter> {length xs + (c + length keys)..} = {}"
  proof -
    have "selected_row ks xs J (keys ! i) (c + i) < length xs + (c + length keys)" if "i < length keys" for i
      using r [of i] that by auto
    then show ?thesis by (force simp: query_rows_def)
  qed
  then show "\<forall>r \<in> set (query_rows ks xs J keys c). r < oh_total_size P"
    using assms(2) layoutD(1) [OF lay] by (auto simp: oh_total_size_def disjoint_iff)
qed

lemma lookup_rows:
  assumes lay: "table_layout P ks xs J bpos lp table" and "i < length keys" and "block_tag (keys ! i) \<noteq> 0"
    and "c + length keys \<le> oh_num_dummies P"
  shows "unat (find_index (oh_log_single_col_len P) table (keys ! i) (of_nat (bpos (length xs + (c + i))))) =
      bpos (query_rows ks xs J keys c ! i)"
    and "find_flag (oh_log_single_col_len P) table (keys ! i) = of_bool (query_rows ks xs J keys c ! i < length xs)"
proof -
  let ?r = "selected_row ks xs J (keys ! i) (c + i)"
  have r: "query_rows ks xs J keys c ! i = ?r" using assms(2) by (simp add: query_rows_def)
  have "query_rows ks xs J keys c ! i \<in> set (query_rows ks xs J keys c)"
    using assms(2) by (intro nth_mem) (simp add: query_rows_def)
  then have "?r < oh_total_size P" using query_rows_facts(1) [OF lay assms(4)] r by auto
  then show "unat (find_index (oh_log_single_col_len P) table (keys ! i) (of_nat (bpos (length xs + (c + i))))) =
      bpos (query_rows ks xs J keys c ! i)"
    and "find_flag (oh_log_single_col_len P) table (keys ! i) = of_bool (query_rows ks xs J keys c ! i < length xs)"
    unfolding r using layout_find [OF lay assms(3), of "c + i"] unat_bpos [OF lay] by simp_all
qed

lemma oht_query_many_ok:
  fixes T :: "'v::len oh_tables"
  assumes holds: "oht_holds P ks xs ys J live c T" and "and_protocol and_vec True" and Y: "yao_ok Y"
    and U: "shared_list U us" and R: "shared_list R rs" and Q: "shared_list Q qs"
    and len: "length rs = length qs" "length us = length qs" and budget: "c + length qs \<le> oh_num_dummies P"
    and env: "online net" "correlated rng"
  defines "keys \<equiv> query_keys us rs qs"
  defines "rows \<equiv> query_rows ks xs J keys c"
  assumes tags: "\<forall>i < length keys. block_tag (keys ! i) \<noteq> 0" and rows: "distinct rows" "set rows \<subseteq> live"
  shows "\<exists>Z F T'. oht_query_many Y and_vec net rng R Q U T = Inr (Z, F, T') \<and>
    shared_records Z (map ((!) (table_ys (oh_num_dummies P) ys)) rows) \<and>
    shared_list F (map (\<lambda>r. of_bool (r < length xs)) rows) \<and>
    oht_holds P ks xs ys J (live - set rows) (c + length qs) T'"
proof -
  let ?n = "oh_total_size P" and ?B = BUILDER_ID and ?l = "oh_log_single_col_len P"
  obtain bpos lp table where lay: "table_layout P ks xs J bpos lp table"
    and st: "table_state P xs ys bpos lp table live c T" using holds unfolding oht_holds_def by blast
  let ?slot = "\<lambda>j. dest lp (bpos j)"
  have lk: "length keys = length qs" by (simp add: keys_def len)
  have lr: "length rows = length qs" by (simp add: rows_def query_rows_def lk)
  note b = budget [folded lk]
  note rf = query_rows_facts [OF lay b, folded rows_def]
  have ll: "length (Q p) = length qs" "length (U p) = length qs" for p
    using shared_listD(1) [OF Q] shared_listD(1) [OF U] len(2) by simp_all
  have g1: "everywhere (\<lambda>p. length (Q p) = length (U p))"
    and g2: "everywhere (\<lambda>p. query_count (T p) + length (Q p) \<le> oh_num_dummies (oht_params (T p)))"
    using ll budget table_stateD(1,2) [OF st] by (auto intro!: everywhereI)
  obtain S where S: "and_vec (\<lambda>p. map bit_to_binary_mask (U p)) (\<lambda>p. xor_shares (R p) (Q p)) = Inr S"
    "shared_list (\<lambda>p. xor_shares (Q p) (S p)) keys"
    using select_keys [OF assms(2) U R Q len] unfolding keys_def by blast
  note reveal = reveal_to_receivers_many_ok [OF S(2) env(1), of ?B]
  obtain D where D: "\<forall>p. mapE (\<lambda>i. getE (dummy_indices (T p)) (c + i)) [0..<length qs] = Inr (D p)"
    "shared_list (\<lambda>p. map cast_share (D p)) (map (\<lambda>i. of_nat (bpos (length xs + (c + i))) :: 32 word) [0..<length qs])"
    using next_dummies [OF st layoutD(1) [OF lay] budget] by blast
  have dummies: "each_party (\<lambda>p. mapE (\<lambda>i. getE (dummy_indices (T p)) (query_count (T p) + i)) [0..<length (Q p)]) = Inr D"
    using D(1) by (intro each_party_Inr) (simp add: ll table_stateD(2) [OF st])
  obtain C where C: "\<forall>p. cht_2shares (T p) = Some (C p)" "table_shared ?B C ?l table"
    using table_stateD(6) [OF st] by blast
  have tables: "each_party (\<lambda>p. shares_table (T p)) = Inr C"
    using C(1) by (intro each_party_Inr) (simp add: shares_table_def)
  obtain L where L: "lookup_from_2shares_many Y ?l C (\<lambda>p. if p = ?B then replicate (length keys) 0 else keys)
      (\<lambda>p. map cast_share (D p)) ?B net rng = Inr L" "\<forall>p. length (L p) = length keys"
    "\<forall>p i. p \<noteq> ?B \<longrightarrow> i < length keys \<longrightarrow> lr_index (L p ! i) = unat (find_index ?l table (keys ! i)
       (map (\<lambda>i. of_nat (bpos (length xs + (c + i)))) [0..<length qs] ! i))"
    "\<forall>i < length keys. shared (\<lambda>p. lr_found (L p ! i)) (find_flag ?l table (keys ! i))"
    using lookup_from_2shares_many_correct [OF Y C(2), of "\<lambda>p. if p = ?B then replicate (length keys) 0 else keys" keys,
        OF _ _ D(2) _ env] lk by auto
  have inds: "map lr_index (L p) = map bpos rows" if "p \<noteq> ?B" for p
    using L(2,3) lookup_rows(1) [OF lay _ _ b] tags that lk lr unfolding rows_def by (intro nth_equalityI) simp_all
  obtain T1 where T1: "receiver_slots net (\<lambda>p. map lr_index (L p)) T = Inr (\<lambda>p. map ?slot rows, T1)"
    "table_state P xs ys bpos lp table live c T1"
    using receiver_slots_ok [where inds = "\<lambda>p. map lr_index (L p)", OF st lay inds rf(1) env(1)] by blast
  have live: "live \<subseteq> {..<?n}" using holds unfolding oht_holds_def by blast
  have "\<exists>t'. foldE (\<lambda>(offset, slot) (t, ys). bindE (touch_slot (query_count (T1 p) + offset) slot t) (\<lambda>(t', y). Inr (t', ys @ [y])))
      (enumerate 0 (map ?slot rows)) (T1 p, []) = Inr (t', map (\<lambda>r. ys_receiver_order (T1 p) ! ?slot r) rows) \<and>
    touched t' = map (\<lambda>i. i \<notin> ?slot ` (live - set rows)) [0..<?n] \<and> same_static (T1 p) t'" for p
    using touch_rows [where c = "query_count (T1 p)" and k = 0 and zs = "[]", OF slot_bij [OF lay] live rows
        table_stateD(3) [OF T1(2)] table_rows_shared(2) [OF T1(2) lay rf(1)]] by simp
  then obtain T2 where T2: "\<And>p. foldE (\<lambda>(offset, slot) (t, ys). bindE (touch_slot (query_count (T1 p) + offset) slot t) (\<lambda>(t', y). Inr (t', ys @ [y])))
      (enumerate 0 (map ?slot rows)) (T1 p, []) = Inr (T2 p, map (\<lambda>r. ys_receiver_order (T1 p) ! ?slot r) rows)"
    "\<And>p. touched (T2 p) = map (\<lambda>i. i \<notin> ?slot ` (live - set rows)) [0..<?n]" "\<And>p. same_static (T1 p) (T2 p)"
    by metis
  let ?Z = "\<lambda>p. map (\<lambda>r. ys_receiver_order (T1 p) ! ?slot r) rows" and ?F = "\<lambda>p. map lr_found (L p)"
  let ?T = "\<lambda>p. (T2 p)\<lparr>query_count := query_count (T2 p) + length qs\<rparr>"
  have "oht_query_many Y and_vec net rng R Q U T = Inr (?Z, ?F, ?T)"
    unfolding oht_query_many_def checkE_True [OF g1] checkE_True [OF g2] S(1) bindE_simps Let_def reveal dummies tables
    unfolding table_stateD(1) [OF st] L(1) bindE_simps T1(1) prod.case each_party_Inr [OF T2(1)] fst_conv snd_conv ll ..
  moreover have "shared_records ?Z (map ((!) (table_ys (oh_num_dummies P) ys)) rows)"
    by (rule table_rows_shared(1) [OF T1(2) lay rf(1)])
  moreover have "shared_list ?F (map (\<lambda>r. of_bool (r < length xs)) rows)"
    using L(2,4) lookup_rows(2) [OF lay _ _ b] tags lk lr unfolding rows_def by (intro shared_listI) simp_all
  moreover have "oht_holds P ks xs ys J (live - set rows) (c + length rows) ?T"
    using table_state_touched [OF T1(2) T2(3,2), of "length qs"] rf(2) rows budget lk lr
    by (intro oht_holds_after [OF holds lay]) simp_all
  ultimately show ?thesis by (simp add: lr)
qed

text \<open>The contract of \<open>binary::cmux\<close>: the second argument where the condition's bits are set, the third elsewhere.\<close>

locale cmux_protocol =
  fixes cmux :: "(party \<Rightarrow> 'w::len word share) \<Rightarrow> (party \<Rightarrow> 'w word share) \<Rightarrow> (party \<Rightarrow> 'w word share) \<Rightarrow>
      (party \<Rightarrow> 'w word share) res"
    and ready :: bool
  assumes cmux_ok: "ready \<Longrightarrow> shared C c \<Longrightarrow> shared A a \<Longrightarrow> shared B b \<Longrightarrow>
    \<exists>S. cmux C A B = Inr S \<and> shared S ((c AND (a XOR b)) XOR b)"
begin

lemma cmux_mask:
  assumes ready and "shared U u" and "shared A a" and "shared B b"
  shows "\<exists>S. cmux (\<lambda>p. bit_to_binary_mask (U p)) A B = Inr S \<and> shared S (if u \<noteq> 0 then a else b)"
  using cmux_ok [OF assms(1) shared_bit_to_binary_mask [OF assms(2)] assms(3,4)]
  by (auto simp: bit_mask_def xor.assoc split: if_splits)

end

text \<open>With the AND protocol of \<open>utils.rs\<close> it is one AND of the condition and the difference.\<close>

definition cmux_by_and ::
    "network \<Rightarrow> rngs \<Rightarrow> (party \<Rightarrow> 'w::len word share) \<Rightarrow> (party \<Rightarrow> 'w word share) \<Rightarrow> (party \<Rightarrow> 'w word share) \<Rightarrow>
     (party \<Rightarrow> 'w word share) res" where
  "cmux_by_and net rng C A B =
     bindE (ring_and_many net rng (\<lambda>p. [C p]) (\<lambda>p. [xor_share (A p) (B p)])) (\<lambda>S.
       Inr (\<lambda>p. xor_share (hd (S p)) (B p)))"

interpretation ring_cmux: cmux_protocol "cmux_by_and net rng" "online net \<and> correlated rng"
  for net rng
proof
  fix C A B :: "party \<Rightarrow> 'w::len word share" and c a b
  assume env: "online net \<and> correlated rng" and C: "shared C c" and A: "shared A a" and B: "shared B b"
  have "shared_list (\<lambda>p. [C p]) [c]" "shared_list (\<lambda>p. [xor_share (A p) (B p)]) [a XOR b]"
    using C shared_xor [OF A B] by (simp_all add: shared_list_def)
  then obtain S where S: "ring_and_many net rng (\<lambda>p. [C p]) (\<lambda>p. [xor_share (A p) (B p)]) = Inr S" "shared_list S [c AND (a XOR b)]"
    using ring_and_many_correct [where net = net and rng = rng] env by fastforce
  have "length (S p) = 1" for p using shared_listD(1) [OF S(2)] by simp
  then have hd: "hd (S p) = S p ! 0" for p by (metis hd_conv_nth length_0_conv zero_neq_one)
  have "shared (\<lambda>p. xor_share (hd (S p)) (B p)) ((c AND (a XOR b)) XOR b)"
    using shared_xor [OF shared_listD(2) [OF S(2), of 0] B] by (simp add: hd)
  then show "\<exists>S. cmux_by_and net rng C A B = Inr S \<and> shared S ((c AND (a XOR b)) XOR b)"
    by (simp add: cmux_by_and_def S(1))
qed

text \<open>The steps of a query up to the receivers' slots.\<close>

lemma oht_query_to_slots:
  fixes T :: "'v::len oh_tables"
  assumes holds: "oht_holds P ks xs ys J live c T" and "cmux_protocol cmux True" and Y: "yao_ok Y"
    and U: "shared U u" and R: "shared R r" and Q: "shared Q q" and budget: "c < oh_num_dummies P"
    and env: "online net" "correlated rng"
  defines "key \<equiv> if u \<noteq> 0 then r else q"
  defines "row \<equiv> selected_row ks xs J key c"
  assumes tag: "block_tag key \<noteq> 0"
  shows "\<exists>bpos lp table T1 F. table_layout P ks xs J bpos lp table \<and> table_state P xs ys bpos lp table live c T1 \<and>
    shared F (of_bool (row < length xs)) \<and> row < oh_total_size P \<and>
    oht_query Y cmux net rng R Q U T =
      bindE (each_party (\<lambda>p. touch_slot (query_count (T1 p)) (dest lp (bpos row)) (T1 p))) (\<lambda>r.
        Inr (\<lambda>p. snd (r p), F, \<lambda>p. (fst (r p))\<lparr>query_count := query_count (fst (r p)) + 1\<rparr>))"
proof -
  let ?n = "oh_total_size P" and ?B = BUILDER_ID and ?l = "oh_log_single_col_len P"
  obtain bpos lp table where lay: "table_layout P ks xs J bpos lp table"
    and st: "table_state P xs ys bpos lp table live c T" using holds unfolding oht_holds_def by blast
  have g: "everywhere (\<lambda>p. query_count (T p) < oh_num_dummies (oht_params (T p)))"
    using budget table_stateD(1,2) [OF st] by (auto intro!: everywhereI)
  obtain S where S: "cmux (\<lambda>p. bit_to_binary_mask (U p)) R Q = Inr S" "shared S key"
    using cmux_protocol.cmux_mask [OF assms(2) _ U R Q] unfolding key_def by auto
  note reveal = reveal_to_receivers_ok [OF S(2) env(1), of ?B]
  note d = table_stateD(4) [OF st]
  have c: "c < length (dummy_indices (T p))" for p
    using shared_listD(1) [OF d] budget by (simp add: oh_total_size_def)
  have dummy: "each_party (\<lambda>p. getE (dummy_indices (T p)) (query_count (T p))) = Inr (\<lambda>p. dummy_indices (T p) ! c)"
    using c by (intro each_party_Inr) (simp add: table_stateD(2) [OF st])
  have D: "shared (\<lambda>p. cast_share (dummy_indices (T p) ! c)) (of_nat (bpos (length xs + c)) :: 32 word)"
    using shared_cast [OF shared_listD(2) [OF d, of c], where 'b = 32] budget layoutD(1) [OF lay] by (simp add: oh_total_size_def)
  obtain C where C: "\<forall>p. cht_2shares (T p) = Some (C p)" "table_shared ?B C ?l table"
    using table_stateD(6) [OF st] by blast
  have tables: "each_party (\<lambda>p. shares_table (T p)) = Inr C"
    using C(1) by (intro each_party_Inr) (simp add: shares_table_def)
  obtain L where L: "lookup_from_2shares Y ?l C (\<lambda>p. if p = ?B then 0 else key) (\<lambda>p. cast_share (dummy_indices (T p) ! c)) ?B net rng = Inr L"
    "\<forall>p. p \<noteq> ?B \<longrightarrow> lr_index (L p) = unat (find_index ?l table key (of_nat (bpos (length xs + c))))"
    "shared (\<lambda>p. lr_found (L p)) (find_flag ?l table key)"
    using lookup_from_2shares_correct [OF Y C(2) _ D env, of "\<lambda>p. if p = ?B then 0 else key" key] by auto
  have rows: "query_rows ks xs J [key] c = [row]" by (simp add: query_rows_def row_def)
  have "c + length [key] \<le> oh_num_dummies P" using budget by simp
  note rf = query_rows_facts(1) [OF lay this] and lr = lookup_rows [OF lay _ _ this, of 0]
  have found: "find_flag ?l table key = of_bool (row < length xs)"
    and ind: "unat (find_index ?l table key (of_nat (bpos (length xs + c)))) = bpos row"
    using lr tag by (simp_all add: rows)
  obtain T1 where T1: "receiver_slots net (\<lambda>p. [lr_index (L p)]) T = Inr (\<lambda>p. [dest lp (bpos row)], T1)"
    "table_state P xs ys bpos lp table live c T1"
    using receiver_slots_ok [where inds = "\<lambda>p. [lr_index (L p)]" and rows = "[row]", OF st lay _ _ env(1)] L(2) ind rf
    by (auto simp: rows)
  have "oht_query Y cmux net rng R Q U T =
      bindE (each_party (\<lambda>p. touch_slot (query_count (T1 p)) (dest lp (bpos row)) (T1 p))) (\<lambda>r.
        Inr (\<lambda>p. snd (r p), \<lambda>p. lr_found (L p), \<lambda>p. (fst (r p))\<lparr>query_count := query_count (fst (r p)) + 1\<rparr>))"
    unfolding oht_query_def checkE_True [OF g] S(1) bindE_simps reveal dummy tables
    unfolding table_stateD(1) [OF st] L(1) bindE_simps T1(1) prod.case list.sel ..
  moreover have "shared (\<lambda>p. lr_found (L p)) (of_bool (row < length xs))" "row < ?n"
    using L(3) found rf by (simp_all add: rows)
  ultimately show ?thesis using lay T1(2)
    by (intro exI [of _ bpos] exI [of _ lp] exI [of _ table] exI [of _ T1] exI [of _ "\<lambda>p. lr_found (L p)"] conjI)
qed

lemma oht_query_live:
  fixes T :: "'v::len oh_tables"
  assumes holds: "oht_holds P ks xs ys J live c T" and "cmux_protocol cmux True" and "yao_ok Y"
    and "shared U u" and "shared R r" and "shared Q q" and budget: "c < oh_num_dummies P"
    and "online net" "correlated rng"
  defines "key \<equiv> if u \<noteq> 0 then r else q"
  defines "row \<equiv> selected_row ks xs J key c"
  assumes tag: "block_tag key \<noteq> 0" and live: "row \<in> live"
  shows "\<exists>Z F T'. oht_query Y cmux net rng R Q U T = Inr (Z, F, T') \<and>
    shared_record Z (table_ys (oh_num_dummies P) ys ! row) \<and> shared F (of_bool (row < length xs)) \<and>
    oht_holds P ks xs ys J (live - {row}) (c + 1) T'"
proof -
  let ?n = "oh_total_size P"
  from oht_query_to_slots [OF assms(1-9) tag [unfolded key_def], folded key_def, folded row_def]
  obtain bpos lp table T1 F where lay: "table_layout P ks xs J bpos lp table"
    and st: "table_state P xs ys bpos lp table live c T1" and F: "shared F (of_bool (row < length xs))"
    and row: "row < ?n" and q: "oht_query Y cmux net rng R Q U T =
      bindE (each_party (\<lambda>p. touch_slot (query_count (T1 p)) (dest lp (bpos row)) (T1 p))) (\<lambda>r.
        Inr (\<lambda>p. snd (r p), F, \<lambda>p. (fst (r p))\<lparr>query_count := query_count (fst (r p)) + 1\<rparr>))"
    by blast
  let ?slot = "\<lambda>j. dest lp (bpos j)"
  have sub: "live \<subseteq> {..<?n}" using holds unfolding oht_holds_def by blast
  have one: "\<forall>r \<in> set [row]. r < ?n" using row by simp
  let ?T = "\<lambda>p. (T1 p)\<lparr>touched := map (\<lambda>i. i \<notin> ?slot ` (live - {row})) [0..<?n], last_query_trace := Some
      \<lparr>old_query_count = query_count (T1 p), selected_receiver_index = ?slot row, was_touched_before = False\<rparr>\<rparr>"
  have touch: "each_party (\<lambda>p. touch_slot (query_count (T1 p)) (?slot row) (T1 p)) =
      Inr (\<lambda>p. (?T p, ys_receiver_order (T1 p) ! ?slot row))"
    by (rule each_party_Inr) (rule touch_live [OF slot_bij [OF lay] sub live table_stateD(3) [OF st]
        table_rows_shared(2) [OF st lay one]])
  have "shared_record (\<lambda>p. ys_receiver_order (T1 p) ! ?slot row) (table_ys (oh_num_dummies P) ys ! row)"
    using shared_recordsD(2) [OF table_rows_shared(1) [OF st lay one], of 0] by simp
  moreover have "table_state P xs ys bpos lp table (live - set [row]) (c + length [row]) (\<lambda>p. (?T p)\<lparr>query_count := query_count (?T p) + length [row]\<rparr>)"
    by (rule table_state_touched [OF st]) (simp_all add: same_static_def)
  then have "oht_holds P ks xs ys J (live - set [row]) (c + length [row]) (\<lambda>p. (?T p)\<lparr>query_count := query_count (?T p) + length [row]\<rparr>)"
    using budget live query_rows_facts(2) [OF lay, of c "[key]"]
    by (intro oht_holds_after [OF holds lay]) (simp_all add: query_rows_def row_def)
  ultimately show ?thesis using F unfolding q touch bindE_simps fst_conv snd_conv by auto
qed

lemma oht_query_spent:
  fixes T :: "'v::len oh_tables"
  assumes holds: "oht_holds P ks xs ys J live c T" and "cmux_protocol cmux True" and "yao_ok Y"
    and "shared U u" and "shared R r" and "shared Q q" and "c < oh_num_dummies P"
    and "online net" "correlated rng"
  defines "key \<equiv> if u \<noteq> 0 then r else q"
  defines "row \<equiv> selected_row ks xs J key c"
  assumes tag: "block_tag key \<noteq> 0" and spent: "row \<notin> live"
  shows "oht_query Y cmux net rng R Q U T = Inl (Panic ''assertion failed: !was_touched_before'')"
proof -
  let ?n = "oh_total_size P"
  from oht_query_to_slots [OF assms(1-9) tag [unfolded key_def], folded key_def, folded row_def]
  obtain bpos lp table T1 F where lay: "table_layout P ks xs J bpos lp table"
    and st: "table_state P xs ys bpos lp table live c T1" and row: "row < ?n"
    and q: "oht_query Y cmux net rng R Q U T =
      bindE (each_party (\<lambda>p. touch_slot (query_count (T1 p)) (dest lp (bpos row)) (T1 p))) (\<lambda>r.
        Inr (\<lambda>p. snd (r p), F, \<lambda>p. (fst (r p))\<lparr>query_count := query_count (fst (r p)) + 1\<rparr>))"
    by blast
  have sub: "live \<subseteq> {..<?n}" using holds unfolding oht_holds_def by blast
  show ?thesis unfolding q each_party_def
    by (simp add: touch_spent [OF slot_bij [OF lay] sub spent row table_stateD(3) [OF st]])
qed

end
