(* ===== verification/Oht_Refine.thy ===== *)
theory Oht_Refine
  imports Oht_Query
begin

text \<open>
  The oblivious hash table as a map from tags to entries: a query is lookup and removal, a batch of
  queries the same for each of its tags, a repeated query is stopped, and extraction returns what no
  query took. The witnesses follow a table of one entry and two dummies through its life.
\<close>

unbundle bit_operations_syntax

section \<open>The entries as a map\<close>

definition oht_entries ::
    "128 word list \<Rightarrow> 32 word list \<Rightarrow> 'v::len clear_record list \<Rightarrow> nat set \<Rightarrow> 96 word \<Rightarrow> 'v clear_record option" where
  "oht_entries ks xs ys live =
     map_of (map (\<lambda>j. (block_tag (prf_tag ks (xs ! j)), ys ! j)) (filter (\<lambda>j. j \<in> live) [0..<length xs]))"

definition oht_spent :: "128 word list \<Rightarrow> 32 word list \<Rightarrow> nat set \<Rightarrow> nat set \<Rightarrow> 96 word set" where
  "oht_spent ks xs J live = (\<lambda>j. block_tag (prf_tag ks (xs ! j))) ` ({..<length xs} - J - live)"

lemma oht_entries_Some:
  assumes "good_tags (map (prf_tag ks) xs)"
  shows "oht_entries ks xs ys live t = Some y \<longleftrightarrow>
    (\<exists>j < length xs. j \<in> live \<and> block_tag (prf_tag ks (xs ! j)) = t \<and> ys ! j = y)"
proof -
  let ?f = "\<lambda>j. block_tag (prf_tag ks (xs ! j))" and ?js = "filter (\<lambda>j. j \<in> live) [0..<length xs]"
  have "inj_on ?f (set ?js)" using good_tagsD(2) [OF assms] by (intro inj_onI) simp
  then have "distinct (map fst (map (\<lambda>j. (?f j, ys ! j)) ?js))" by (simp add: comp_def distinct_map)
  then show ?thesis unfolding oht_entries_def by (auto simp: map_of_eq_Some_iff)
qed

lemma oht_entries_None:
  assumes "good_tags (map (prf_tag ks) xs)"
  shows "oht_entries ks xs ys live t = None \<longleftrightarrow> (\<forall>j < length xs. j \<in> live \<longrightarrow> block_tag (prf_tag ks (xs ! j)) \<noteq> t)"
  unfolding not_Some_eq [symmetric] oht_entries_Some [OF assms] by blast

lemma oht_holdsD:
  assumes "oht_holds P ks xs ys J live c T"
  shows "length ys = length xs" "live \<subseteq> {..<oh_total_size P} - J" "{length xs + c..<oh_total_size P} \<subseteq> live"
    "card live + oh_stash_size P + c = oh_total_size P" "length xs = oh_num_elements P" "good_tags (map (prf_tag ks) xs)"
  using assms unfolding oht_holds_def table_layout_def by auto

text \<open>A tag that was not queried before selects a live row: its entry's, or the next dummy.\<close>

lemma row_of_tag:
  assumes holds: "oht_holds P ks xs ys J live c T" and c: "c + i < oh_num_dummies P"
    and fresh: "block_tag key \<notin> oht_spent ks xs J live"
  defines "row \<equiv> selected_row ks xs J key (c + i)"
  shows "row \<in> live" and "oht_entries ks xs ys live (block_tag key) = (if row < length xs then Some (ys ! row) else None)"
    and "oht_entries ks xs ys (live - {row}) = (oht_entries ks xs ys live)(block_tag key := None)"
    and "row < length xs \<Longrightarrow> block_tag (prf_tag ks (xs ! row)) = block_tag key" and "row < length xs \<or> row = length xs + (c + i)"
proof -
  note h = oht_holdsD [OF holds] and tags = oht_holdsD(6) [OF holds]
  have inj: "j = k" if "j < length xs" "k < length xs" "block_tag (prf_tag ks (xs ! j)) = block_tag (prf_tag ks (xs ! k))" for j k
    using good_tagsD(2) [OF tags, of j k] that by simp
  have main: "row \<in> live \<and> oht_entries ks xs ys live (block_tag key) = (if row < length xs then Some (ys ! row) else None) \<and>
      oht_entries ks xs ys (live - {row}) t = ((oht_entries ks xs ys live)(block_tag key := None)) t \<and>
      (row < length xs \<longrightarrow> block_tag (prf_tag ks (xs ! row)) = block_tag key) \<and> (row < length xs \<or> row = length xs + (c + i))" for t
  proof (cases rule: selected_row_cases [where ks = ks and xs = xs and J = J and key = key and c = "c + i"])
    case hit
    then have r: "row < length xs" "row \<notin> J" "block_tag (prf_tag ks (xs ! row)) = block_tag key" by (simp_all add: row_def)
    have live: "row \<in> live"
    proof (rule ccontr)
      assume "row \<notin> live"
      then have "block_tag key \<in> oht_spent ks xs J live" using r unfolding oht_spent_def by (intro image_eqI [of _ _ row]) auto
      then show False using fresh by blast
    qed
    then have e: "oht_entries ks xs ys live (block_tag key) = Some (ys ! row)" using r oht_entries_Some [OF tags] by metis
    have "oht_entries ks xs ys (live - {row}) t = Some y \<longleftrightarrow> ((oht_entries ks xs ys live)(block_tag key := None)) t = Some y" for y
      using r inj by (auto simp: oht_entries_Some [OF tags])
    then have "oht_entries ks xs ys (live - {row}) t = ((oht_entries ks xs ys live)(block_tag key := None)) t"
      by (metis not_None_eq)
    then show ?thesis using live e r by auto
  next
    case miss
    then have r: "row = length xs + (c + i)" "\<forall>j < length xs. j \<notin> J \<longrightarrow> block_tag key \<noteq> block_tag (prf_tag ks (xs ! j))"
      by (simp_all add: row_def)
    have "row \<in> {length xs + c..<oh_total_size P}" using c h(5) by (simp add: r(1) oh_total_size_def)
    then have live: "row \<in> live" using h(3) by blast
    have e: "oht_entries ks xs ys live (block_tag key) = None"
      using r(2) h(2) by (auto simp: oht_entries_None [OF tags])
    have "oht_entries ks xs ys (live - {row}) t = Some y \<longleftrightarrow> oht_entries ks xs ys live t = Some y" for y
      using r(1) by (auto simp: oht_entries_Some [OF tags])
    then have "oht_entries ks xs ys (live - {row}) t = oht_entries ks xs ys live t" by (metis not_None_eq)
    then show ?thesis using live e r by auto
  qed
  then show "row \<in> live" "oht_entries ks xs ys live (block_tag key) = (if row < length xs then Some (ys ! row) else None)"
    "row < length xs \<Longrightarrow> block_tag (prf_tag ks (xs ! row)) = block_tag key" "row < length xs \<or> row = length xs + (c + i)"
    by blast+
  show "oht_entries ks xs ys (live - {row}) = (oht_entries ks xs ys live)(block_tag key := None)"
    using main by blast
qed

lemma oht_query_map:
  fixes T :: "'v::len oh_tables"
  assumes holds: "oht_holds P ks xs ys J live c T" and c: "c < oh_num_dummies P"
    and ops: "cmux_protocol cmux True" "yao_ok Y" and ins: "shared U u" "shared R r" "shared Q q"
    and env: "online net" "correlated rng"
    and tag: "block_tag (if u \<noteq> 0 then r else q) \<noteq> 0"
    and fresh: "block_tag (if u \<noteq> 0 then r else q) \<notin> oht_spent ks xs J live"
  shows "\<exists>Z F T' live'. oht_query Y cmux net rng R Q U T = Inr (Z, F, T') \<and>
    (case oht_entries ks xs ys live (block_tag (if u \<noteq> 0 then r else q)) of
       Some y \<Rightarrow> shared_record Z y \<and> shared F 1 | None \<Rightarrow> shared_record Z (0, 0) \<and> shared F 0) \<and>
    oht_holds P ks xs ys J live' (c + 1) T' \<and>
    oht_entries ks xs ys live' = (oht_entries ks xs ys live)(block_tag (if u \<noteq> 0 then r else q) := None) \<and>
    oht_spent ks xs J live' \<subseteq> insert (block_tag (if u \<noteq> 0 then r else q)) (oht_spent ks xs J live)"
proof -
  let ?key = "if u \<noteq> 0 then r else q"
  let ?row = "selected_row ks xs J ?key c"
  have c0: "c + 0 < oh_num_dummies P" using c by simp
  note row = row_of_tag [OF holds c0 fresh, unfolded add_0_right]
  obtain Z F T' where q: "oht_query Y cmux net rng R Q U T = Inr (Z, F, T')"
    "shared_record Z (table_ys (oh_num_dummies P) ys ! ?row)" "shared F (of_bool (?row < length xs))"
    "oht_holds P ks xs ys J (live - {?row}) (c + 1) T'"
    using oht_query_live [OF holds ops ins c env tag row(1)] by blast
  have len: "length ys = length xs" by (rule oht_holdsD(1) [OF holds])
  have "case oht_entries ks xs ys live (block_tag ?key) of
       Some y \<Rightarrow> shared_record Z y \<and> shared F 1 | None \<Rightarrow> shared_record Z (0, 0) \<and> shared F 0"
  proof (cases "?row < length xs")
    case True
    then show ?thesis using q(2,3) unfolding row(2) by (simp add: table_ys_def nth_append len)
  next
    case False
    then have "?row = length xs + c" using row(5) by simp
    then have "table_ys (oh_num_dummies P) ys ! ?row = (0, 0)" using c by (simp add: table_ys_def nth_append len)
    then show ?thesis using q(2,3) False unfolding row(2) by simp
  qed
  moreover have "oht_spent ks xs J (live - {?row}) \<subseteq> insert (block_tag ?key) (oht_spent ks xs J live)"
    using row(4) by (auto simp: oht_spent_def)
  ultimately show ?thesis using q(1,4) row(3) by blast
qed

lemma rows_of_tags:
  assumes holds: "oht_holds P ks xs ys J live c T" and c: "c + length keys \<le> oh_num_dummies P"
    and fresh: "\<forall>key \<in> set keys. block_tag key \<notin> oht_spent ks xs J live"
    and once: "\<forall>i j. i < j \<longrightarrow> j < length keys \<longrightarrow> block_tag (keys ! i) = block_tag (keys ! j) \<longrightarrow>
      oht_entries ks xs ys live (block_tag (keys ! i)) = None"
  defines "rows \<equiv> query_rows ks xs J keys c"
  shows "distinct rows" and "set rows \<subseteq> live"
    and "oht_entries ks xs ys (live - set rows) = (oht_entries ks xs ys live) |` (- block_tag ` set keys)"
proof -
  let ?row = "\<lambda>i. selected_row ks xs J (keys ! i) (c + i)"
  note tags = oht_holdsD(6) [OF holds]
  have inj: "j = k" if "j < length xs" "k < length xs" "block_tag (prf_tag ks (xs ! j)) = block_tag (prf_tag ks (xs ! k))" for j k
    using good_tagsD(2) [OF tags, of j k] that by simp
  have row: "?row i \<in> live" "oht_entries ks xs ys live (block_tag (keys ! i)) = (if ?row i < length xs then Some (ys ! ?row i) else None)"
    "?row i < length xs \<Longrightarrow> block_tag (prf_tag ks (xs ! ?row i)) = block_tag (keys ! i)" "?row i < length xs \<or> ?row i = length xs + (c + i)"
    if "i < length keys" for i
    using row_of_tag [OF holds, of i "keys ! i"] that c fresh by auto
  have lr: "length rows = length keys" "\<And>i. i < length keys \<Longrightarrow> rows ! i = ?row i" by (simp_all add: rows_def query_rows_def)
  have neq: "?row i \<noteq> ?row j" if ij: "i < j" "j < length keys" for i j
  proof
    assume eq: "?row i = ?row j"
    have i: "i < length keys" using ij by simp
    have less: "?row i < length xs" using row(4) [OF i] row(4) [OF ij(2)] eq ij(1) by auto
    then have "block_tag (keys ! i) = block_tag (keys ! j)" using row(3) [OF i] row(3) [OF ij(2)] eq by simp
    then show False using once ij row(2) [OF i] less by auto
  qed
  show "distinct rows"
    unfolding distinct_conv_nth lr(1) using neq lr(2) by (metis nat_neq_iff)
  show sub: "set rows \<subseteq> live" using row(1) lr by (auto simp: in_set_conv_nth)
  show "oht_entries ks xs ys (live - set rows) = (oht_entries ks xs ys live) |` (- block_tag ` set keys)"
  proof
    fix t
    have mem: "j \<in> set rows \<longleftrightarrow> block_tag (prf_tag ks (xs ! j)) \<in> block_tag ` set keys" if j: "j < length xs" "j \<in> live" for j
    proof
      assume "j \<in> set rows"
      then obtain i where "i < length keys" "j = ?row i" using lr by (metis in_set_conv_nth)
      then show "block_tag (prf_tag ks (xs ! j)) \<in> block_tag ` set keys" using row(3) [of i] j(1) by auto
    next
      assume "block_tag (prf_tag ks (xs ! j)) \<in> block_tag ` set keys"
      then obtain i where i: "i < length keys" "block_tag (prf_tag ks (xs ! j)) = block_tag (keys ! i)"
        by (auto simp: in_set_conv_nth)
      then have "oht_entries ks xs ys live (block_tag (keys ! i)) = Some (ys ! j)"
        using j oht_entries_Some [OF tags] by metis
      then have "?row i < length xs" using row(2) [OF i(1)] by (metis option.distinct(1))
      then have "?row i = j" using inj [of "?row i" j] row(3) [OF i(1)] j(1) i(2) by simp
      then show "j \<in> set rows" using i(1) lr by (metis nth_mem)
    qed
    have "oht_entries ks xs ys (live - set rows) t = Some y \<longleftrightarrow> ((oht_entries ks xs ys live) |` (- block_tag ` set keys)) t = Some y" for y
      using mem by (auto simp: oht_entries_Some [OF tags] restrict_map_def)
    then show "oht_entries ks xs ys (live - set rows) t = ((oht_entries ks xs ys live) |` (- block_tag ` set keys)) t"
      by (metis not_None_eq)
  qed
qed

definition entry_or_zero :: "'v::len clear_record option \<Rightarrow> 'v clear_record" where
  "entry_or_zero r = (case r of Some y \<Rightarrow> y | None \<Rightarrow> (0, 0))"

lemma oht_query_many_map:
  fixes T :: "'v::len oh_tables"
  assumes holds: "oht_holds P ks xs ys J live c T" and ops: "and_protocol and_vec True" "yao_ok Y"
    and ins: "shared_list U us" "shared_list R rs" "shared_list Q qs"
    and len: "length rs = length qs" "length us = length qs" and budget: "c + length qs \<le> oh_num_dummies P"
    and env: "online net" "correlated rng" and keys: "keys = query_keys us rs qs"
    and tags: "\<forall>key \<in> set keys. block_tag key \<noteq> 0 \<and> block_tag key \<notin> oht_spent ks xs J live"
    and once: "\<forall>i j. i < j \<longrightarrow> j < length keys \<longrightarrow> block_tag (keys ! i) = block_tag (keys ! j) \<longrightarrow>
      oht_entries ks xs ys live (block_tag (keys ! i)) = None"
  shows "\<exists>Z F T' live'. oht_query_many Y and_vec net rng R Q U T = Inr (Z, F, T') \<and>
    shared_records Z (map (\<lambda>key. entry_or_zero (oht_entries ks xs ys live (block_tag key))) keys) \<and>
    shared_list F (map (\<lambda>key. of_bool (oht_entries ks xs ys live (block_tag key) \<noteq> None)) keys) \<and>
    oht_holds P ks xs ys J live' (c + length qs) T' \<and>
    oht_entries ks xs ys live' = (oht_entries ks xs ys live) |` (- block_tag ` set keys)"
proof -
  let ?rows = "query_rows ks xs J keys c"
  have lk: "length keys = length qs" by (simp add: keys len)
  have b: "c + length keys \<le> oh_num_dummies P" and fresh: "\<forall>key \<in> set keys. block_tag key \<notin> oht_spent ks xs J live"
    and nz: "\<forall>i < length keys. block_tag (keys ! i) \<noteq> 0" using budget lk tags by auto
  note r = rows_of_tags [OF holds b fresh once]
  from oht_query_many_ok [OF holds ops ins len budget env, folded keys, OF nz r(1,2)]
  obtain Z F T' where q: "oht_query_many Y and_vec net rng R Q U T = Inr (Z, F, T')"
    "shared_records Z (map ((!) (table_ys (oh_num_dummies P) ys)) ?rows)"
    "shared_list F (map (\<lambda>r. of_bool (r < length xs)) ?rows)"
    "oht_holds P ks xs ys J (live - set ?rows) (c + length qs) T'" by blast
  have ly: "length ys = length xs" by (rule oht_holdsD(1) [OF holds])
  have one: "table_ys (oh_num_dummies P) ys ! (?rows ! i) = entry_or_zero (oht_entries ks xs ys live (block_tag (keys ! i))) \<and>
      (?rows ! i < length xs) = (oht_entries ks xs ys live (block_tag (keys ! i)) \<noteq> None)" if i: "i < length keys" for i
  proof -
    have "c + i < oh_num_dummies P" "block_tag (keys ! i) \<notin> oht_spent ks xs J live" using b fresh i by auto
    from row_of_tag(2,5) [OF holds this] show ?thesis
      using i b by (auto simp: query_rows_def entry_or_zero_def table_ys_def nth_append ly)
  qed
  have l: "length ?rows = length keys" by (simp add: query_rows_def)
  have "map ((!) (table_ys (oh_num_dummies P) ys)) ?rows = map (\<lambda>key. entry_or_zero (oht_entries ks xs ys live (block_tag key))) keys"
    "map (\<lambda>r. of_bool (r < length xs)) ?rows = (map (\<lambda>key. of_bool (oht_entries ks xs ys live (block_tag key) \<noteq> None)) keys :: 1 word list)"
    using one l by (simp_all add: list_eq_iff_nth_eq)
  then show ?thesis using q r(3) by metis
qed

section \<open>What is left\<close>

lemma oht_extract_rows:
  assumes holds: "oht_holds P ks xs ys J live c T"
  shows "\<exists>Xs Ys exs eys. (\<forall>p. oht_extract_untouched (T p) = Inr (Xs p, Ys p)) \<and> shared_list Xs exs \<and> shared_records Ys eys \<and>
    length exs = card live \<and> length eys = card live \<and>
    mset (zip exs eys) = image_mset (\<lambda>j. (table_xs (oh_log_address_space_size P) (oh_num_dummies P) xs ! j,
      table_ys (oh_num_dummies P) ys ! j)) (mset_set live)"
proof -
  let ?n = "oh_total_size P" and ?tx = "table_xs (oh_log_address_space_size P) (oh_num_dummies P) xs" and ?ty = "table_ys (oh_num_dummies P) ys"
  obtain bpos lp table where lay: "table_layout P ks xs J bpos lp table"
    and st: "table_state P xs ys bpos lp table live c T" using holds unfolding oht_holds_def by blast
  let ?slot = "\<lambda>j. dest lp (bpos j)"
  obtain xr yr where xr: "shared_list (\<lambda>p. xs_receiver_order (T p)) xr" "length xr = ?n" "\<forall>j < ?n. xr ! ?slot j = ?tx ! j"
    and yr: "shared_records (\<lambda>p. ys_receiver_order (T p)) yr" "length yr = ?n" "\<forall>j < ?n. yr ! ?slot j = ?ty ! j"
    using st unfolding table_state_def by blast
  have live: "live \<subseteq> {..<?n}" using oht_holdsD(2) [OF holds] by blast
  have inj: "inj_on ?slot live" and range: "?slot ` live \<subseteq> {..<?n}"
    using slot_bij [OF lay] live by (auto simp: bij_betw_def intro: inj_on_subset)
  let ?is = "filter (\<lambda>i. i \<in> ?slot ` live) [0..<?n]"
  have is_set: "set ?is = ?slot ` live" using range by auto
  have is_less: "\<forall>i \<in> set ?is. i < ?n" by simp
  have untouched: "map fst (filter (\<lambda>(i, b). \<not> b) (enumerate 0 (touched (T p)))) = ?is" for p
  proof -
    have "enumerate 0 (touched (T p)) = map (\<lambda>i. (i, i \<notin> ?slot ` live)) [0..<?n]"
      unfolding table_stateD(3) [OF st] by (rule nth_equalityI) (simp_all add: nth_enumerate_eq)
    then show ?thesis by (simp add: filter_map comp_def)
  qed
  have lens: "length (xs_receiver_order (T p)) = ?n" "length (ys_receiver_order (T p)) = ?n" for p
    using shared_listD(1) [OF xr(1)] shared_recordsD(1) [OF yr(1)] xr(2) yr(2) by simp_all
  let ?X = "\<lambda>p. map ((!) (xs_receiver_order (T p))) ?is" and ?Y = "\<lambda>p. map ((!) (ys_receiver_order (T p))) ?is"
  have rows: "untouched_rows (T p) = Inr (map (\<lambda>i. (xs_receiver_order (T p) ! i, ys_receiver_order (T p) ! i)) ?is)" for p
  proof -
    let ?g = "\<lambda>i. bindE (getE (xs_receiver_order (T p)) i) (\<lambda>x. bindE (getE (ys_receiver_order (T p)) i) (\<lambda>y. Inr (x, y)))"
    have "untouched_rows (T p) = mapE ?g ?is"
      unfolding untouched_rows_def untouched [of p, symmetric] mapE_map by (simp add: case_prod_beta')
    also have "\<dots> = Inr (map (\<lambda>i. (xs_receiver_order (T p) ! i, ys_receiver_order (T p) ! i)) ?is)"
      by (rule mapE_total) (simp add: lens)
    finally show ?thesis .
  qed
  have count: "oh_stash_size P + c \<le> ?n" using oht_holdsD(4) [OF holds] by simp
  have "oht_extract_untouched (T p) = Inr (?X p, ?Y p)" for p
    using count by (simp add: oht_extract_untouched_def table_stateD(1,2) [OF st] rows sub_usize_def comp_def)
  moreover have "shared_list ?X (map ((!) xr) ?is)" "shared_records ?Y (map ((!) yr) ?is)"
    using shared_list_pick [OF xr(1)] shared_records_pick [OF yr(1)] xr(2) yr(2) is_less by metis+
  moreover have "length ?is = card live"
    using distinct_card [of ?is] card_image [OF inj] is_set by (simp del: length_filter_conv_card)
  moreover have "mset (zip (map ((!) xr) ?is) (map ((!) yr) ?is)) = image_mset (\<lambda>j. (?tx ! j, ?ty ! j)) (mset_set live)"
  proof -
    have m: "mset ?is = image_mset ?slot (mset_set live)"
    proof -
      have "mset ?is = mset_set (set ?is)" by (rule mset_set_set [symmetric]) simp
      then show ?thesis unfolding is_set image_mset_mset_set [OF inj] .
    qed
    have "zip (map ((!) xr) ?is) (map ((!) yr) ?is) = map (\<lambda>i. (xr ! i, yr ! i)) ?is"
      by (simp only: zip_map_map zip_same_conv_map map_map comp_def prod.case)
    then have "mset (zip (map ((!) xr) ?is) (map ((!) yr) ?is)) = image_mset (\<lambda>i. (xr ! i, yr ! i)) (image_mset ?slot (mset_set live))"
      by (simp only: mset_map m)
    also have "\<dots> = image_mset (\<lambda>j. (?tx ! j, ?ty ! j)) (mset_set live)"
      unfolding multiset.map_comp comp_def
      by (rule image_mset_cong) (use live xr(3) yr(3) finite_subset [OF live] in auto)
    finally show ?thesis .
  qed
  ultimately show ?thesis
    by (intro exI [of _ ?X] exI [of _ ?Y] exI [of _ "map ((!) xr) ?is"] exI [of _ "map ((!) yr) ?is"]) (simp only: length_map, blast)
qed

text \<open>When every dummy is used up, as many rows are left as there were elements outside the stash.\<close>

lemma oht_extract_ok:
  assumes holds: "oht_holds P ks xs ys J live (oh_num_dummies P) T"
  shows "\<exists>Xs Ys exs eys. (\<forall>p. oht_extract (T p) = Inr (Xs p, Ys p)) \<and> shared_list Xs exs \<and> shared_records Ys eys \<and>
    length exs = oh_num_elements P - oh_stash_size P \<and> length eys = length exs \<and>
    mset (zip exs eys) = image_mset (\<lambda>j. (table_xs (oh_log_address_space_size P) (oh_num_dummies P) xs ! j,
      table_ys (oh_num_dummies P) ys ! j)) (mset_set live)"
proof -
  obtain Xs Ys exs eys where e: "\<forall>p. oht_extract_untouched (T p) = Inr (Xs p, Ys p)" "shared_list Xs exs" "shared_records Ys eys"
    "length exs = card live" "length eys = card live"
    "mset (zip exs eys) = image_mset (\<lambda>j. (table_xs (oh_log_address_space_size P) (oh_num_dummies P) xs ! j,
      table_ys (oh_num_dummies P) ys ! j)) (mset_set live)"
    using oht_extract_rows [OF holds] by blast
  have card: "card live + oh_stash_size P = oh_num_elements P"
    using oht_holdsD(4) [OF holds] by (simp add: oh_total_size_def)
  have "oht_params (T p) = P \<and> query_count (T p) = oh_num_dummies P" for p
    using holds unfolding oht_holds_def by (auto dest: table_stateD(1,2))
  then have "oht_extract (T p) = Inr (Xs p, Ys p)" for p
    using e(1) card shared_listD(1) [OF e(2)] shared_recordsD(1) [OF e(3)] e(4,5)
    by (simp add: oht_extract_def sub_usize_def)
  then show ?thesis using e card by (intro exI [of _ Xs] exI [of _ Ys] exI [of _ exs] exI [of _ eys]) simp
qed

section \<open>Properties\<close>

lemma sample_entries:
  "oht_entries sample_keys [5] [(7 :: 64 word, 0)] {..<3} (block_tag 0x10000000000000000) = Some (7, 0)"
  "oht_spent sample_keys [5] {} {..<3} = {}"
proof -
  show "oht_entries sample_keys [5] [(7 :: 64 word, 0)] {..<3} (block_tag 0x10000000000000000) = Some (7, 0)"
    unfolding oht_entries_Some [OF sample_hypotheses(10)] by (intro exI [of _ 0]) (simp add: sample_tag)
  show "oht_spent sample_keys [5] {} {..<3} = {}" by (auto simp: oht_spent_def)
qed

lemma sample_and: "and_protocol (ring_and_many all_online zero_rng) True"
  using ring_and.and_protocol_axioms [of all_online zero_rng] by simp

lemma sample_cmux: "cmux_protocol (cmux_by_and all_online zero_rng) True"
  using ring_cmux.cmux_protocol_axioms [of all_online zero_rng] by simp

lemma sample_query:
  assumes "\<exists>T :: 64 oh_tables. oht_holds sample_params sample_keys [5] [(7, 0)] {} live c T"
    and "c < oh_num_dummies sample_params" and "block_tag q \<noteq> 0" and "selected_row sample_keys [5] {} q c \<in> live"
  shows "\<exists>T :: 64 oh_tables. oht_holds sample_params sample_keys [5] [(7, 0)] {} (live - {selected_row sample_keys [5] {} q c}) (c + 1) T"
proof -
  obtain T :: "64 oh_tables" where T: "oht_holds sample_params sample_keys [5] [(7, 0)] {} live c T" using assms(1) by blast
  show ?thesis
    using oht_query_live [OF T sample_cmux plain_yao_ok shared_promote_public shared_promote_public shared_promote_public
        assms(2) concrete_environment, of 0 0 q] assms(3,4) by auto
qed

text \<open>After the entry's query, and after a dummy query that follows.\<close>

lemma sample_queried:
  "\<exists>T :: 64 oh_tables. oht_holds sample_params sample_keys [5] [(7, 0)] {} ({..<3} - {0}) 1 T"
  "\<exists>T :: 64 oh_tables. oht_holds sample_params sample_keys [5] [(7, 0)] {} {1} (oh_num_dummies sample_params) T"
proof -
  have d: "oh_num_dummies sample_params = 2" by (simp add: sample_params_def)
  have row: "selected_row sample_keys [5] {} 0x10000000000000000 0 = 0"
    by (simp add: selected_row_def sample_tag)
  have row': "selected_row sample_keys [5] {} 0x20000000000000000 1 = 2"
    by (simp add: selected_row_def sample_tag) (simp add: block_tag_def)
  show one: "\<exists>T :: 64 oh_tables. oht_holds sample_params sample_keys [5] [(7, 0)] {} ({..<3} - {0}) 1 T"
    using sample_query [OF sample_table, of "0x10000000000000000"] sample_block_tag by (simp add: row d)
  have t: "block_tag 0x20000000000000000 \<noteq> 0" by (simp add: block_tag_def)
  have "\<exists>T :: 64 oh_tables. oht_holds sample_params sample_keys [5] [(7, 0)] {}
      ({..<3} - {0} - {selected_row sample_keys [5] {} 0x20000000000000000 1}) (1 + 1) T"
    by (rule sample_query [OF one _ t]) (simp_all only: row' d, simp_all)
  moreover have "{..<3} - {0} - {2} = {1 :: nat}" by auto
  ultimately show "\<exists>T :: 64 oh_tables. oht_holds sample_params sample_keys [5] [(7, 0)] {} {1} (oh_num_dummies sample_params) T"
    unfolding row' d by (simp only: one_add_one)
qed

text \<open>C4: A query of a built table refines lookup and removal on the map from tags to entries: it returns
  sharings of the record stored under the tag and of the flag 1, or of the zero record and 0 when
  there is none (a dummy is touched instead), and the table then holds the map without the tag.\<close>

theorem oht_query_refines:
  fixes T :: "'v::len oh_tables"
  assumes "oht_holds P ks xs ys J live c T" and "c < oh_num_dummies P"
    and "cmux_protocol cmux True" and "yao_ok Y" and "shared U u" and "shared R r" and "shared Q q"
    and "online net" and "correlated rng" and "block_tag (if u \<noteq> 0 then r else q) \<noteq> 0"
    and "block_tag (if u \<noteq> 0 then r else q) \<notin> oht_spent ks xs J live"
  shows "\<exists>Z F T' live'. oht_query Y cmux net rng R Q U T = Inr (Z, F, T') \<and>
    (case oht_entries ks xs ys live (block_tag (if u \<noteq> 0 then r else q)) of
       Some y \<Rightarrow> shared_record Z y \<and> shared F 1 | None \<Rightarrow> shared_record Z (0, 0) \<and> shared F 0) \<and>
    oht_holds P ks xs ys J live' (c + 1) T' \<and>
    oht_entries ks xs ys live' = (oht_entries ks xs ys live)(block_tag (if u \<noteq> 0 then r else q) := None)"
  using oht_query_map [OF assms] by blast

theorem oht_query_refines_witness:
  "\<exists>T Z F T'. oht_holds sample_params sample_keys [5] [(7 :: 64 word, 0)] {} {..<3} 0 T \<and>
    oht_query plain_yao (cmux_by_and all_online zero_rng) all_online zero_rng (\<lambda>p. promote_public p 1)
      (\<lambda>p. promote_public p 0x10000000000000000) (\<lambda>p. promote_public p 0) T = Inr (Z, F, T') \<and>
    shared_record Z (7, 0) \<and> shared F 1"
proof -
  obtain T :: "64 oh_tables" where T: "oht_holds sample_params sample_keys [5] [(7, 0)] {} {..<3} 0 T"
    using sample_table by blast
  have d: "0 < oh_num_dummies sample_params" by (simp add: sample_params_def)
  from oht_query_refines [OF T d sample_cmux plain_yao_ok shared_promote_public shared_promote_public
      shared_promote_public concrete_environment, of 0 1 "0x10000000000000000"]
  show ?thesis using T by (auto simp: sample_entries sample_block_tag)
qed

text \<open>C9: A batch of queries answers each of its tags as the single query would, provided no entry is asked
  for twice in the batch: the records and flags come back in order, and the table then holds the
  map without any of the tags.\<close>

theorem oht_query_many_refines:
  fixes T :: "'v::len oh_tables"
  assumes "oht_holds P ks xs ys J live c T" and "and_protocol and_vec True" and "yao_ok Y"
    and "shared_list U us" and "shared_list R rs" and "shared_list Q qs"
    and "length rs = length qs" and "length us = length qs" and "c + length qs \<le> oh_num_dummies P"
    and "online net" and "correlated rng" and "keys = query_keys us rs qs"
    and "\<forall>key \<in> set keys. block_tag key \<noteq> 0 \<and> block_tag key \<notin> oht_spent ks xs J live"
    and "\<forall>i j. i < j \<longrightarrow> j < length keys \<longrightarrow> block_tag (keys ! i) = block_tag (keys ! j) \<longrightarrow>
      oht_entries ks xs ys live (block_tag (keys ! i)) = None"
  shows "\<exists>Z F T' live'. oht_query_many Y and_vec net rng R Q U T = Inr (Z, F, T') \<and>
    shared_records Z (map (\<lambda>key. entry_or_zero (oht_entries ks xs ys live (block_tag key))) keys) \<and>
    shared_list F (map (\<lambda>key. of_bool (oht_entries ks xs ys live (block_tag key) \<noteq> None)) keys) \<and>
    oht_holds P ks xs ys J live' (c + length qs) T' \<and>
    oht_entries ks xs ys live' = (oht_entries ks xs ys live) |` (- block_tag ` set keys)"
  by (rule oht_query_many_map [OF assms])

theorem oht_query_many_refines_witness:
  "\<exists>T Z F T'. oht_holds sample_params sample_keys [5] [(7 :: 64 word, 0)] {} {..<3} 0 T \<and>
    oht_query_many plain_yao (ring_and_many all_online zero_rng) all_online zero_rng
      (\<lambda>p. promote_public_values p [1]) (\<lambda>p. promote_public_values p [0x10000000000000000])
      (\<lambda>p. promote_public_values p [0]) T = Inr (Z, F, T') \<and>
    shared_records Z [(7, 0)] \<and> shared_list F [1]"
proof -
  obtain T :: "64 oh_tables" where T: "oht_holds sample_params sample_keys [5] [(7, 0)] {} {..<3} 0 T"
    using sample_table by blast
  have k: "query_keys [0] [1] [0x10000000000000000] = [0x10000000000000000]" by (simp add: query_keys_def)
  have "\<exists>Z F T' live'. oht_query_many plain_yao (ring_and_many all_online zero_rng) all_online zero_rng
      (\<lambda>p. promote_public_values p [1]) (\<lambda>p. promote_public_values p [0x10000000000000000])
      (\<lambda>p. promote_public_values p [0]) T = Inr (Z, F, T') \<and>
    shared_records Z (map (\<lambda>key. entry_or_zero (oht_entries sample_keys [5] [(7, 0)] {..<3} (block_tag key))) [0x10000000000000000]) \<and>
    shared_list F (map (\<lambda>key. of_bool (oht_entries sample_keys [5] [(7 :: 64 word, 0)] {..<3} (block_tag key) \<noteq> None)) [0x10000000000000000]) \<and>
    oht_holds sample_params sample_keys [5] [(7, 0)] {} live' (0 + length [0x10000000000000000 :: 128 word]) T' \<and>
    oht_entries sample_keys [5] [(7 :: 64 word, 0)] live' = (oht_entries sample_keys [5] [(7, 0)] {..<3}) |` (- block_tag ` set [0x10000000000000000])"
    by (rule oht_query_many_refines [OF T sample_and plain_yao_ok promote_public_values_shared
        promote_public_values_shared promote_public_values_shared _ _ _ concrete_environment k [symmetric]])
      (simp_all add: sample_params_def sample_entries sample_block_tag)
  then show ?thesis using T by (auto simp: sample_entries entry_or_zero_def)
qed

text \<open>C10: No slot is revealed twice: a query whose tag was queried before stops all parties with the
  code's assertion, before any record is returned.\<close>

theorem oht_query_never_twice:
  fixes T :: "'v::len oh_tables"
  assumes "oht_holds P ks xs ys J live c T" and "c < oh_num_dummies P"
    and "cmux_protocol cmux True" and "yao_ok Y" and "shared U u" and "shared R r" and "shared Q q"
    and "online net" and "correlated rng" and "block_tag (if u \<noteq> 0 then r else q) \<noteq> 0"
    and "block_tag (if u \<noteq> 0 then r else q) \<in> oht_spent ks xs J live"
  shows "oht_query Y cmux net rng R Q U T = Inl (Panic ''assertion failed: !was_touched_before'')"
proof -
  obtain j where j: "j < length xs" "j \<notin> J" "j \<notin> live"
    "block_tag (if u \<noteq> 0 then r else q) = block_tag (prf_tag ks (xs ! j))"
    using assms(11) by (auto simp only: oht_spent_def)
  note row = selected_row_unique [OF oht_holdsD(6) [OF assms(1)] j(1,2,4), of c]
  show ?thesis by (rule oht_query_spent [OF assms(1,3-7,2,8-10)]) (simp only: row j(3) not_False_eq_True)
qed

theorem oht_query_never_twice_witness:
  "\<exists>T. oht_holds sample_params sample_keys [5] [(7 :: 64 word, 0)] {} ({..<3} - {0}) 1 T \<and>
    oht_query plain_yao (cmux_by_and all_online zero_rng) all_online zero_rng (\<lambda>p. promote_public p 1)
      (\<lambda>p. promote_public p 0x10000000000000000) (\<lambda>p. promote_public p 0) T =
      Inl (Panic ''assertion failed: !was_touched_before'')"
proof -
  obtain T :: "64 oh_tables" where T: "oht_holds sample_params sample_keys [5] [(7, 0)] {} ({..<3} - {0}) 1 T"
    using sample_queried(1) by blast
  have d: "1 < oh_num_dummies sample_params" by (simp add: sample_params_def)
  have "block_tag 0x10000000000000000 \<in> oht_spent sample_keys [5] {} ({..<3} - {0})"
    unfolding oht_spent_def by (intro image_eqI [of _ _ 0]) (simp_all add: sample_tag)
  then show ?thesis
    using T oht_query_never_twice [OF T d sample_cmux plain_yao_ok shared_promote_public shared_promote_public
        shared_promote_public concrete_environment, of 0 1 "0x10000000000000000"] sample_block_tag by auto
qed

text \<open>C11: Once all dummies are used up, extraction returns, to all parties alike, sharings of exactly the
  rows that no query touched and that were not stashed, as many as there were elements less the
  stash.\<close>

theorem oht_extract_untouched_rows:
  assumes "oht_holds P ks xs ys J live (oh_num_dummies P) T"
  shows "\<exists>Xs Ys exs eys. (\<forall>p. oht_extract (T p) = Inr (Xs p, Ys p)) \<and> shared_list Xs exs \<and> shared_records Ys eys \<and>
    length exs = oh_num_elements P - oh_stash_size P \<and> length eys = length exs \<and>
    mset (zip exs eys) = image_mset (\<lambda>j. (table_xs (oh_log_address_space_size P) (oh_num_dummies P) xs ! j,
      table_ys (oh_num_dummies P) ys ! j)) (mset_set live)"
  by (rule oht_extract_ok [OF assms])

theorem oht_extract_untouched_rows_witness:
  "\<exists>T Xs Ys. oht_holds sample_params sample_keys [5] [(7 :: 64 word, 0)] {} {1} (oh_num_dummies sample_params) T \<and>
    (\<forall>p. oht_extract (T p) = Inr (Xs p, Ys p)) \<and> shared_list Xs [0x10] \<and> shared_records Ys [(0, 0)]"
proof -
  obtain T :: "64 oh_tables" where T: "oht_holds sample_params sample_keys [5] [(7, 0)] {} {1} (oh_num_dummies sample_params) T"
    using sample_queried(2) by blast
  obtain Xs Ys exs eys where
    e: "\<forall>p. oht_extract (T p) = Inr (Xs p, Ys p)" "shared_list Xs exs" "shared_records Ys eys"
    "length exs = oh_num_elements sample_params - oh_stash_size sample_params" "length eys = length exs" and
    m: "mset (zip exs eys) = image_mset (\<lambda>j. (table_xs (oh_log_address_space_size sample_params) (oh_num_dummies sample_params) [5] ! j,
      table_ys (oh_num_dummies sample_params) [(7, 0)] ! j)) (mset_set {1})"
    using oht_extract_untouched_rows [OF T] by blast
  have z: "zip exs eys = [(0x10, 0, 0)]"
    using m by (simp add: sample_params_def table_xs_def table_ys_def sentinel_of_def)
  obtain x y where "exs = [x]" "eys = [y]" using e(4,5) by (cases exs; cases eys) (auto simp: sample_params_def)
  then have "shared_list Xs [0x10]" "shared_records Ys [(0, 0)]" using e(2,3) z by simp_all
  then show ?thesis using T e(1) by blast
qed

end
