(* ===== verification/Access.thy ===== *)
theory Access
  imports Fused_Query Oht_Refine
begin

text \<open>
  One access to the DORAM on shares: \<open>read_and_maybe_write\<close> of \<open>crates/doram/src/lib.rs\<close> once the speed
  cache has room. The address is looked up in the cache and then in every live level, from the
  newest to the oldest; where the entry is already known the level is asked for a dummy, unless the
  entry's alibi bit says that the level had it in its stash. The record found is written back to
  the cache, or the new value is.

  The DORAM is shown to be a memory: cache and levels together stand for a map from addresses to
  records, which the access reads and updates at one address.
\<close>

section \<open>The access\<close>

type_synonym cmux_op =
  "(party \<Rightarrow> 128 word share) \<Rightarrow> (party \<Rightarrow> 128 word share) \<Rightarrow> (party \<Rightarrow> 128 word share) \<Rightarrow> (party \<Rightarrow> 128 word share) res"

text \<open>A live level: the table, and its round keys as packed by \<open>precompute_round_keys\<close>.\<close>

record (overloaded) 'v live_level =
  lv_packed_key :: "party \<Rightarrow> u8_share list list"
  lv_table :: "'v oh_tables"

record (overloaded) 'v doram_tables =
  dt_levels :: "'v live_level option list"
  dt_speed_cache :: "'v speed_cache"
  dt_packed_query_key :: "(party \<Rightarrow> u8_share list list) option"

definition present_levels :: "'a option list \<Rightarrow> nat list" where
  "present_levels levels = filter (\<lambda>level. levels ! level \<noteq> None) [0..<length levels]"

definition packed_keys :: "'v::len live_level option list \<Rightarrow> party \<Rightarrow> u8_share list list list" where
  "packed_keys levels p = map (\<lambda>level. lv_packed_key (the (levels ! level)) p) (present_levels levels)"

definition ensure_packed_query_key :: "'v::len doram_tables \<Rightarrow> party \<Rightarrow> u8_share list list" where
  "ensure_packed_query_key D = (case dt_packed_query_key D of
     Some key \<Rightarrow> key | None \<Rightarrow> \<lambda>p. combine_round_keys (packed_keys (dt_levels D) p))"

type_synonym 'v query_accum =
  "(party \<Rightarrow> 'v dr_record) \<times> (party \<Rightarrow> 1 word share) \<times> (party \<Rightarrow> 1 word share list) \<times> 'v live_level option list"

text \<open>One round of the loop over the live levels; \<open>rand level\<close> is what \<open>arithmetic::rand\<close> draws in it.\<close>

definition query_live_level ::
    "yao \<Rightarrow> (nat \<Rightarrow> cmux_op) \<Rightarrow> network \<Rightarrow> (nat \<Rightarrow> rngs) \<Rightarrow> (nat \<Rightarrow> party \<Rightarrow> 128 word share) \<Rightarrow> nat \<Rightarrow>
     nat \<times> (party \<Rightarrow> 128 word share) \<Rightarrow> 'v::len query_accum \<Rightarrow> 'v query_accum res" where
  "query_live_level Y cmux net rng rand levels_len = (\<lambda>(level, q) (y_accum, found, alibi_mask, levels).
     bindE (each_party (\<lambda>p. bindE (getE (alibi_mask p) level) (\<lambda>a. Inr (xor_share a (found p))))) (\<lambda>use_dummy.
     bindE (case levels ! level of Some lv \<Rightarrow> Inr lv
       | None \<Rightarrow> Inl (Panic ''live level should still exist during query'')) (\<lambda>lv.
     bindE (oht_query Y (cmux level) net (rng level) (rand level) q use_dummy (lv_table lv)) (\<lambda>(y_returned, found_returned, table).
     let y_accum = (\<lambda>p. xor_record (y_accum p) (y_returned p))
     in Inr (y_accum, \<lambda>p. xor_share (found p) (found_returned p), \<lambda>p. get_alibi_bits (y_accum p) levels_len,
          levels[level := Some (lv\<lparr>lv_table := table\<rparr>)])))))"

definition query_and_write_back ::
    "'v::len value_ops \<Rightarrow> yao \<Rightarrow> (nat \<Rightarrow> cmux_op) \<Rightarrow> network \<Rightarrow> rngs \<Rightarrow> rngs \<Rightarrow> (nat \<Rightarrow> rngs) \<Rightarrow>
     (nat \<Rightarrow> party \<Rightarrow> 128 word share) \<Rightarrow> (party \<Rightarrow> 32 word share) \<Rightarrow> (party \<Rightarrow> 'v word share) option \<Rightarrow> 'v doram_tables \<Rightarrow>
     ((party \<Rightarrow> 'v word share) \<times> 'v doram_tables) res" where
  "query_and_write_back V Y cmux net rng_prf rng_cache rng rand query_x write_y D =
     (let levels = dt_levels D; live_levels = present_levels levels; key = ensure_packed_query_key D
      in bindE (query_tags_and_cache V net rng_prf rng_cache key (length live_levels) query_x (dt_speed_cache D)) (\<lambda>(qs, y_accum, found, cache).
         bindE (foldE (query_live_level Y cmux net rng rand (length levels))
             (zip live_levels (map (\<lambda>i p. qs p ! i) [0..<length (qs ID0)]))
             (y_accum, found, \<lambda>p. get_alibi_bits (y_accum p) (length levels), levels)) (\<lambda>(y_accum, found, alibi_mask, levels).
         let value_to_write = (\<lambda>p. from_value (case write_y of Some w \<Rightarrow> w p | None \<Rightarrow> rec_value (y_accum p)))
         in bindE (cache_put (\<lambda>p. [query_x p]) (\<lambda>p. [value_to_write p]) cache) (\<lambda>cache.
            Inr (\<lambda>p. rec_value (y_accum p), D\<lparr>dt_levels := levels, dt_speed_cache := cache, dt_packed_query_key := Some key\<rparr>)))))"

section \<open>What cache and levels stand for\<close>

record (overloaded) 'v level_view =
  vw_params :: ohtable_params
  vw_keys :: "128 word list"
  vw_xs :: "32 word list"
  vw_ys :: "'v clear_record list"
  vw_stashed :: "nat set"
  vw_live :: "nat set"
  vw_count :: nat

definition level_holds :: "'v::len live_level \<Rightarrow> 'v level_view \<Rightarrow> bool" where
  "level_holds lv W \<longleftrightarrow>
     oht_holds (vw_params W) (vw_keys W) (vw_xs W) (vw_ys W) (vw_stashed W) (vw_live W) (vw_count W) (lv_table lv) \<and>
     lane_keys (\<lambda>p. [lv_packed_key lv p]) [vw_keys W]"

definition levels_hold :: "'v::len live_level option list \<Rightarrow> 'v level_view option list \<Rightarrow> bool" where
  "levels_hold = list_all2 (rel_option level_holds)"

definition view_tag :: "'v::len level_view \<Rightarrow> 32 word \<Rightarrow> 96 word" where
  "view_tag W = (\<lambda>q. block_tag (prf_tag (vw_keys W) q))"

definition view_map :: "'v::len level_view \<Rightarrow> 32 word \<Rightarrow> 'v clear_record option" where
  "view_map W q = oht_entries (vw_keys W) (vw_xs W) (vw_ys W) (vw_live W) (view_tag W q)"

definition asked_before :: "'v::len level_view \<Rightarrow> 32 word \<Rightarrow> bool" where
  "asked_before W q \<longleftrightarrow> view_tag W q \<in> oht_spent (vw_keys W) (vw_xs W) (vw_stashed W) (vw_live W)"

definition live_views :: "'a option list \<Rightarrow> (nat \<times> 'a) list" where
  "live_views Ws = map (\<lambda>level. (level, the (Ws ! level))) (present_levels Ws)"

text \<open>The first record found, in the order in which an access looks.\<close>

primrec find_entry :: "32 word \<Rightarrow> (nat \<times> 'v::len level_view) list \<Rightarrow> 'v clear_record option \<Rightarrow> 'v clear_record option" where
  "find_entry q [] r = r"
| "find_entry q (v # vs) r = find_entry q vs (case r of None \<Rightarrow> view_map (snd v) q | Some y \<Rightarrow> Some y)"

definition doram_lookup :: "(32 word \<rightharpoonup> 'v clear_record) \<Rightarrow> 'v::len level_view option list \<Rightarrow> 32 word \<Rightarrow> 'v clear_record option" where
  "doram_lookup m Ws q = find_entry q (live_views Ws) (m q)"

text \<open>
  What an access relies on: an address is in one place only, and a level that will be asked for it
  was not asked for it before.
\<close>

primrec search_ok :: "32 word \<Rightarrow> (nat \<times> 'v::len level_view) list \<Rightarrow> 'v clear_record option \<Rightarrow> bool" where
  "search_ok q [] r = True"
| "search_ok q (v # vs) r = (case r of
     None \<Rightarrow> \<not> asked_before (snd v) q \<and> search_ok q vs (view_map (snd v) q)
   | Some y \<Rightarrow> view_map (snd v) q = None \<and> (bit (snd y) (fst v) \<longrightarrow> \<not> asked_before (snd v) q) \<and> search_ok q vs (Some y))"

text \<open>The tags of the addresses in use, and of all the level stores, differ.\<close>

definition tags_ok :: "32 word set \<Rightarrow> 'v::len level_view \<Rightarrow> bool" where
  "tags_ok A W \<longleftrightarrow> inj_on (view_tag W) (A \<union> set (vw_xs W)) \<and> 0 \<notin> view_tag W ` A"

definition view_in_range :: "'v::len word \<Rightarrow> 'v level_view \<Rightarrow> bool" where
  "view_in_range ones W \<longleftrightarrow> (\<forall>y \<in> set (vw_ys W). ones AND fst y = fst y)"

text \<open>Whatever is stored at a real address is stored at one of the addresses in use.\<close>

definition stores_in :: "32 word set \<Rightarrow> 'v::len level_view \<Rightarrow> bool" where
  "stores_in A W \<longleftrightarrow> (\<forall>x \<in> set (vw_xs W). real_address (oh_log_address_space_size (vw_params W)) x \<longrightarrow> x \<in> A)"

definition memory_ok :: "'v::len word \<Rightarrow> 32 word set \<Rightarrow> (32 word \<rightharpoonup> 'v clear_record) \<Rightarrow> 'v level_view option list \<Rightarrow> bool" where
  "memory_ok ones A m Ws \<longleftrightarrow>
     dom m \<subseteq> A \<and> (\<forall>v \<in> set (live_views Ws). tags_ok A (snd v) \<and> view_in_range ones (snd v) \<and> stores_in A (snd v)) \<and>
     (\<forall>q \<in> A. search_ok q (live_views Ws) (m q))"

definition doram_holds :: "'v::len word \<Rightarrow> 'v doram_tables \<Rightarrow> (32 word \<rightharpoonup> 'v clear_record) \<Rightarrow> 'v level_view option list \<Rightarrow> bool" where
  "doram_holds ones D m Ws \<longleftrightarrow> cache_refines ones (dt_speed_cache D) m \<and> levels_hold (dt_levels D) Ws \<and>
     (\<forall>key. dt_packed_query_key D = Some key \<longrightarrow> key = (\<lambda>p. combine_round_keys (packed_keys (dt_levels D) p)))"

section \<open>Asking one level\<close>

text \<open>The view of a level that was asked for a tag.\<close>

definition asked_for :: "96 word \<Rightarrow> 'v::len level_view \<Rightarrow> 'v level_view \<Rightarrow> bool" where
  "asked_for t W W' \<longleftrightarrow> (\<exists>live. W' = W\<lparr>vw_live := live, vw_count := vw_count W + 1\<rparr> \<and>
     oht_entries (vw_keys W) (vw_xs W) (vw_ys W) live =
       (oht_entries (vw_keys W) (vw_xs W) (vw_ys W) (vw_live W))(t := None) \<and>
     oht_spent (vw_keys W) (vw_xs W) (vw_stashed W) live \<subseteq>
       insert t (oht_spent (vw_keys W) (vw_xs W) (vw_stashed W) (vw_live W)))"

lemma asked_for_other:
  assumes "asked_for t W W'"
  shows "view_tag W' q = view_tag W q" "tags_ok A W' = tags_ok A W" "view_in_range ones W' = view_in_range ones W"
    and "stores_in A W' = stores_in A W"
    and "view_map W' q = (if view_tag W q = t then None else view_map W q)"
    and "view_tag W q \<noteq> t \<Longrightarrow> asked_before W' q \<Longrightarrow> asked_before W q"
  using assms by (auto simp: asked_for_def view_tag_def tags_ok_def view_in_range_def stores_in_def view_map_def asked_before_def)

text \<open>A dummy's tag is nobody's.\<close>

definition dummy_ok :: "32 word set \<Rightarrow> 'v::len level_view \<Rightarrow> 128 word \<Rightarrow> bool" where
  "dummy_ok A W r \<longleftrightarrow> block_tag r \<noteq> 0 \<and> block_tag r \<notin> view_tag W ` (A \<union> set (vw_xs W))"

lemma view_xs_tags:
  assumes "j < length (vw_xs W)"
  shows "block_tag (prf_tag (vw_keys W) (vw_xs W ! j)) \<in> view_tag W ` set (vw_xs W)"
  unfolding view_tag_def by (rule image_eqI [OF refl]) (simp add: assms)

lemma dummy_absent:
  assumes "dummy_ok A W r" and "level_holds lv W"
  shows "oht_entries (vw_keys W) (vw_xs W) (vw_ys W) (vw_live W) (block_tag r) = None"
    and "block_tag r \<notin> oht_spent (vw_keys W) (vw_xs W) (vw_stashed W) (vw_live W)"
proof -
  have good: "good_tags (map (prf_tag (vw_keys W)) (vw_xs W))"
    using assms(2) by (auto simp: level_holds_def dest: oht_holdsD(6))
  have no: "block_tag (prf_tag (vw_keys W) (vw_xs W ! j)) \<noteq> block_tag r" if "j < length (vw_xs W)" for j
    using view_xs_tags [OF that] assms(1) unfolding dummy_ok_def by auto
  then show "oht_entries (vw_keys W) (vw_xs W) (vw_ys W) (vw_live W) (block_tag r) = None"
    by (simp add: oht_entries_None [OF good])
  show "block_tag r \<notin> oht_spent (vw_keys W) (vw_xs W) (vw_stashed W) (vw_live W)"
    unfolding oht_spent_def using no by (auto dest: sym)
qed

lemma levels_holdD:
  assumes "levels_hold levels Ws"
  shows "length levels = length Ws" "present_levels levels = present_levels Ws"
    and "level < length Ws \<Longrightarrow> Ws ! level = Some W \<Longrightarrow> \<exists>lv. levels ! level = Some lv \<and> level_holds lv W"
proof -
  have a: "rel_option level_holds (levels ! l) (Ws ! l)" if "l < length Ws" for l
    using list_all2_nthD2 [OF assms [unfolded levels_hold_def] that] .
  show l: "length levels = length Ws" using assms unfolding levels_hold_def by (rule list_all2_lengthD)
  have "(levels ! l = None) = (Ws ! l = None)" if "l < length Ws" for l
    using a [OF that] by (cases "levels ! l"; cases "Ws ! l") simp_all
  then show "present_levels levels = present_levels Ws" unfolding present_levels_def l by (intro filter_cong) simp_all
  show "\<exists>lv. levels ! level = Some lv \<and> level_holds lv W" if "level < length Ws" "Ws ! level = Some W"
    using a [OF that(1)] unfolding that(2) by (cases "levels ! level") simp_all
qed

lemma level_update:
  assumes "levels_hold levels Ws" and "level_holds lv' W'" and "level < length Ws"
    and "levels ! level = Some lv" and "lv_packed_key lv' = lv_packed_key lv"
  shows "levels_hold (levels[level := Some lv']) (Ws[level := Some W'])"
    and "packed_keys (levels[level := Some lv']) = packed_keys levels"
proof -
  show "levels_hold (levels[level := Some lv']) (Ws[level := Some W'])"
    using assms(1,2) unfolding levels_hold_def by (intro list_all2_update_cong) simp_all
  have p: "present_levels (levels[level := Some lv']) = present_levels levels"
    using assms(3,4) levels_holdD(1) [OF assms(1)] unfolding present_levels_def
    by (intro filter_cong) (auto simp: nth_list_update simp del: not_None_eq)
  show "packed_keys (levels[level := Some lv']) = packed_keys levels"
    unfolding packed_keys_def p using assms(3-5) levels_holdD(1) [OF assms(1)]
    by (auto simp: fun_eq_iff nth_list_update present_levels_def)
qed

text \<open>The dummy bit of a level: set when the entry is known and the level has no alibi for it.\<close>

lemma use_dummy_ok:
  assumes A: "shared_record R (fst (lookup_result r))" and F: "shared F (snd (lookup_result r))" and l: "level < n"
  shows "\<exists>U. each_party (\<lambda>p. bindE (getE (get_alibi_bits (R p) n) level) (\<lambda>a. Inr (xor_share a (F p)))) = Inr U \<and>
    shared U (of_bool (bit (snd (fst (lookup_result r))) level) XOR snd (lookup_result r))"
proof -
  let ?a = "\<lambda>p. get_alibi_bits (R p) n ! level"
  have s: "shared_list (\<lambda>p. get_alibi_bits (R p) n) (map (\<lambda>l. of_bool (bit (snd (fst (lookup_result r))) l)) [0..<n])"
    by (rule get_alibi_bits_shared [OF A])
  have a: "shared ?a (of_bool (bit (snd (fst (lookup_result r))) level))"
    using shared_listD(2) [OF s, of level] l by simp
  have "getE (get_alibi_bits (R p) n) level = Inr (?a p)" for p
    using shared_listD(1) [OF s, of p] l by simp
  then show ?thesis using shared_xor [OF a F]
    by (intro exI [of _ "\<lambda>p. xor_share (?a p) (F p)"] conjI each_party_Inr) simp_all
qed

text \<open>One level answers: with the entry if it is not known yet and the level has it, with zeros otherwise.\<close>

lemma query_live_level_ok:
  fixes levels :: "'v::len live_level option list"
  assumes L: "levels_hold levels Ws" and W: "Ws ! level = Some W" "level < length Ws"
    and ops: "cmux_protocol (cmux level) True" "yao_ok Y" and env: "online net" "correlated (rng level)"
    and R: "shared_record R (fst (lookup_result r))" and F: "shared F (snd (lookup_result r))"
    and Q: "shared Q (prf_tag (vw_keys W) q)" "q \<in> A" and tags: "tags_ok A W"
    and D: "shared (rand level) d" "dummy_ok A W d" and budget: "vw_count W < oh_num_dummies (vw_params W)"
    and search: "case r of None \<Rightarrow> \<not> asked_before W q | Some y \<Rightarrow> view_map W q = None \<and> (bit (snd y) level \<longrightarrow> \<not> asked_before W q)"
  shows "\<exists>R' F' levels' W' t.
    query_live_level Y cmux net rng rand (length levels) (level, Q) (R, F, \<lambda>p. get_alibi_bits (R p) (length levels), levels) =
      Inr (R', F', \<lambda>p. get_alibi_bits (R' p) (length levels), levels') \<and>
    shared_record R' (fst (lookup_result (case r of None \<Rightarrow> view_map W q | Some y \<Rightarrow> Some y))) \<and>
    shared F' (snd (lookup_result (case r of None \<Rightarrow> view_map W q | Some y \<Rightarrow> Some y))) \<and>
    levels_hold levels' (Ws[level := Some W']) \<and> packed_keys levels' = packed_keys levels \<and>
    asked_for t W W' \<and> t \<notin> view_tag W ` (A - {q}) \<and> view_map W' q = None"
proof -
  let ?e = "oht_entries (vw_keys W) (vw_xs W) (vw_ys W) (vw_live W)" and ?u = "of_bool (bit (snd (fst (lookup_result r))) level) XOR snd (lookup_result r)"
  let ?key = "if ?u \<noteq> 0 then d else prf_tag (vw_keys W) q" and ?r = "case r of None \<Rightarrow> view_map W q | Some y \<Rightarrow> Some y"
  have len: "length levels = length Ws" by (rule levels_holdD(1) [OF L])
  obtain lv where lv: "levels ! level = Some lv" "level_holds lv W" using levels_holdD(3) [OF L W(2,1)] by blast
  obtain U where U: "each_party (\<lambda>p. bindE (getE (get_alibi_bits (R p) (length levels)) level) (\<lambda>a. Inr (xor_share a (F p)))) = Inr U"
    "shared U ?u" using use_dummy_ok [OF R F, of level "length levels"] W(2) len by auto
  have holds: "oht_holds (vw_params W) (vw_keys W) (vw_xs W) (vw_ys W) (vw_stashed W) (vw_live W) (vw_count W) (lv_table lv)"
    using lv(2) by (simp add: level_holds_def)
  have key: "block_tag ?key \<noteq> 0" "block_tag ?key \<notin> oht_spent (vw_keys W) (vw_xs W) (vw_stashed W) (vw_live W)"
    "block_tag ?key \<notin> view_tag W ` (A - {q})" "view_map W q \<noteq> None \<longrightarrow> block_tag ?key = view_tag W q"
    "?e (block_tag ?key) = (case r of None \<Rightarrow> view_map W q | Some y \<Rightarrow> None)"
  proof -
    have real: "view_tag W q \<noteq> 0" "view_tag W q \<notin> view_tag W ` (A - {q})"
      using tags Q(2) unfolding tags_ok_def inj_on_def by auto
    have dummy: "block_tag d \<noteq> 0" "block_tag d \<notin> view_tag W ` (A - {q})" using D(2) by (auto simp: dummy_ok_def)
    note all = real dummy dummy_absent [OF D(2) lv(2)] search
    show "block_tag ?key \<noteq> 0" "block_tag ?key \<notin> oht_spent (vw_keys W) (vw_xs W) (vw_stashed W) (vw_live W)"
      "block_tag ?key \<notin> view_tag W ` (A - {q})" "view_map W q \<noteq> None \<longrightarrow> block_tag ?key = view_tag W q"
      "?e (block_tag ?key) = (case r of None \<Rightarrow> view_map W q | Some y \<Rightarrow> None)"
      using all by (auto simp: lookup_result_def view_tag_def view_map_def asked_before_def split: option.splits)
  qed
  obtain Z G T live where q: "oht_query Y (cmux level) net (rng level) (rand level) Q U (lv_table lv) = Inr (Z, G, T)"
    "case ?e (block_tag ?key) of Some y \<Rightarrow> shared_record Z y \<and> shared G 1 | None \<Rightarrow> shared_record Z (0, 0) \<and> shared G 0"
    "oht_holds (vw_params W) (vw_keys W) (vw_xs W) (vw_ys W) (vw_stashed W) live (vw_count W + 1) T"
    "oht_entries (vw_keys W) (vw_xs W) (vw_ys W) live = ?e(block_tag ?key := None)"
    "oht_spent (vw_keys W) (vw_xs W) (vw_stashed W) live \<subseteq> insert (block_tag ?key) (oht_spent (vw_keys W) (vw_xs W) (vw_stashed W) (vw_live W))"
    using oht_query_map [OF holds budget ops U(2) D(1) Q(1) env key(1,2)] by blast
  let ?W = "W\<lparr>vw_live := live, vw_count := vw_count W + 1\<rparr>" and ?R = "\<lambda>p. xor_record (R p) (Z p)" and ?F = "\<lambda>p. xor_share (F p) (G p)"
  have W': "asked_for (block_tag ?key) W ?W" using q(4,5) unfolding asked_for_def by blast
  have gone: "view_map ?W q = None" unfolding asked_for_other(5) [OF W'] using key(4) by (metis (full_types))
  have "level_holds (lv\<lparr>lv_table := T\<rparr>) ?W" using q(3) lv(2) by (simp add: level_holds_def)
  moreover have "lv_packed_key (lv\<lparr>lv_table := T\<rparr>) = lv_packed_key lv" by simp
  ultimately have L': "levels_hold (levels[level := Some (lv\<lparr>lv_table := T\<rparr>)]) (Ws[level := Some ?W])"
    "packed_keys (levels[level := Some (lv\<lparr>lv_table := T\<rparr>)]) = packed_keys levels"
    using level_update [OF L _ W(2) lv(1)] by blast+
  have ans: "shared_record Z (fst (lookup_result (case r of None \<Rightarrow> view_map W q | Some y \<Rightarrow> None)))"
    "shared G (snd (lookup_result (case r of None \<Rightarrow> view_map W q | Some y \<Rightarrow> None)))"
    using q(2) unfolding key(5) by (auto simp: lookup_result_def split: option.splits)
  have "shared_record ?R (fst (lookup_result ?r))" "shared ?F (snd (lookup_result ?r))"
    using xor_record_shared [OF R ans(1)] shared_xor [OF F ans(2)]
    by (auto simp: lookup_result_def xor_clear_def split: option.splits)
  moreover have "query_live_level Y cmux net rng rand (length levels) (level, Q) (R, F, \<lambda>p. get_alibi_bits (R p) (length levels), levels) =
      Inr (?R, ?F, \<lambda>p. get_alibi_bits (?R p) (length levels), levels[level := Some (lv\<lparr>lv_table := T\<rparr>)])"
    by (simp add: query_live_level_def U(1) lv(1) q(1))
  ultimately show ?thesis using L' W' key(3) gone by blast
qed

section \<open>Asking all levels\<close>

definition level_asked :: "32 word set \<Rightarrow> 32 word \<Rightarrow> 'v::len level_view option \<Rightarrow> 'v level_view option \<Rightarrow> bool" where
  "level_asked A q w w' \<longleftrightarrow> (\<exists>W W' t. w = Some W \<and> w' = Some W' \<and> asked_for t W W' \<and>
     t \<notin> view_tag W ` (A - {q}) \<and> view_map W' q = None)"

lemma query_live_levels_ok:
  fixes levels :: "'v::len live_level option list"
  assumes "levels_hold levels Ws" and "distinct is" and "\<forall>i \<in> set is. i < length Ws \<and> Ws ! i \<noteq> None"
    and "list_all2 (\<lambda>i Q. shared Q (prf_tag (vw_keys (the (Ws ! i))) q)) is Qs"
    and "\<forall>i \<in> set is. tags_ok A (the (Ws ! i)) \<and> dummy_ok A (the (Ws ! i)) (d i) \<and>
      vw_count (the (Ws ! i)) < oh_num_dummies (vw_params (the (Ws ! i)))"
    and "search_ok q (map (\<lambda>i. (i, the (Ws ! i))) is) r" and "q \<in> A"
    and ops: "\<And>i. cmux_protocol (cmux i) True" "yao_ok Y" and D: "\<And>i. shared (rand i) (d i)"
    and env: "online net" "\<And>i. correlated (rng i)"
    and "shared_record R (fst (lookup_result r))" and "shared F (snd (lookup_result r))"
  shows "\<exists>R' F' levels' Ws'.
    foldE (query_live_level Y cmux net rng rand (length levels)) (zip is Qs) (R, F, \<lambda>p. get_alibi_bits (R p) (length levels), levels) =
      Inr (R', F', \<lambda>p. get_alibi_bits (R' p) (length levels), levels') \<and>
    shared_record R' (fst (lookup_result (find_entry q (map (\<lambda>i. (i, the (Ws ! i))) is) r))) \<and>
    levels_hold levels' Ws' \<and> length Ws' = length Ws \<and> packed_keys levels' = packed_keys levels \<and>
    (\<forall>i. i \<notin> set is \<longrightarrow> Ws' ! i = Ws ! i) \<and> (\<forall>i \<in> set is. level_asked A q (Ws ! i) (Ws' ! i))"
  using assms(1-7,13,14)
proof (induction "is" arbitrary: Qs levels Ws r R F)
  case Nil
  then show ?case by auto
next
  case (Cons l "is")
  obtain Q Qs' where Qs: "Qs = Q # Qs'" "shared Q (prf_tag (vw_keys (the (Ws ! l))) q)"
    "list_all2 (\<lambda>i Q. shared Q (prf_tag (vw_keys (the (Ws ! i))) q)) is Qs'"
    using Cons.prems(4) by (auto simp: list_all2_Cons1)
  obtain W where W: "Ws ! l = Some W" "l < length Ws" using Cons.prems(3) by auto
  let ?r = "case r of None \<Rightarrow> view_map W q | Some y \<Rightarrow> Some y" and ?v = "\<lambda>Ws. map (\<lambda>i. (i, the (Ws ! i))) is"
  have s: "case r of None \<Rightarrow> \<not> asked_before W q | Some y \<Rightarrow> view_map W q = None \<and> (bit (snd y) l \<longrightarrow> \<not> asked_before W q)"
    "search_ok q (?v Ws) ?r" using Cons.prems(6) by (auto simp: W(1) split: option.splits)
  have h: "tags_ok A W" "dummy_ok A W (d l)" "vw_count W < oh_num_dummies (vw_params W)"
    "shared Q (prf_tag (vw_keys W) q)" using Cons.prems(5) Qs(2) by (auto simp: W(1))
  obtain R1 F1 levels1 W1 t where one:
    "query_live_level Y cmux net rng rand (length levels) (l, Q) (R, F, \<lambda>p. get_alibi_bits (R p) (length levels), levels) =
      Inr (R1, F1, \<lambda>p. get_alibi_bits (R1 p) (length levels), levels1)"
    "shared_record R1 (fst (lookup_result ?r))" "shared F1 (snd (lookup_result ?r))"
    "levels_hold levels1 (Ws[l := Some W1])" "packed_keys levels1 = packed_keys levels"
    "asked_for t W W1" "t \<notin> view_tag W ` (A - {q}) \<and> view_map W1 q = None"
    using query_live_level_ok [where cmux = cmux and rng = rng and rand = rand, OF Cons.prems(1) W ops env Cons.prems(8,9) h(4) Cons.prems(7) h(1) D h(2,3) s(1)]
    by blast
  have len: "length levels1 = length levels"
    using levels_holdD(1) [OF one(4)] levels_holdD(1) [OF Cons.prems(1)] by simp
  have neq: "l \<noteq> i" if "i \<in> set is" for i using that Cons.prems(2) by auto
  have v: "?v (Ws[l := Some W1]) = ?v Ws" by (simp add: neq)
  have Qs': "list_all2 (\<lambda>i Q. shared Q (prf_tag (vw_keys (the (Ws[l := Some W1] ! i))) q)) is Qs'"
    using Qs(3) by (auto simp: list_all2_conv_all_nth neq)
  have rest: "distinct is" "\<forall>i \<in> set is. i < length (Ws[l := Some W1]) \<and> Ws[l := Some W1] ! i \<noteq> None"
    "\<forall>i \<in> set is. tags_ok A (the (Ws[l := Some W1] ! i)) \<and> dummy_ok A (the (Ws[l := Some W1] ! i)) (d i) \<and>
      vw_count (the (Ws[l := Some W1] ! i)) < oh_num_dummies (vw_params (the (Ws[l := Some W1] ! i)))"
    using Cons.prems(2,3,5) by (simp_all add: neq)
  from Cons.IH [OF one(4) rest(1,2) Qs' rest(3) _ Cons.prems(7) one(2,3), unfolded v, OF s(2)]
  obtain R' F' levels' Ws' where IH:
    "foldE (query_live_level Y cmux net rng rand (length levels)) (zip is Qs') (R1, F1, \<lambda>p. get_alibi_bits (R1 p) (length levels), levels1) =
      Inr (R', F', \<lambda>p. get_alibi_bits (R' p) (length levels), levels')"
    "shared_record R' (fst (lookup_result (find_entry q (?v Ws) ?r)))"
    "levels_hold levels' Ws'" "length Ws' = length Ws" "packed_keys levels' = packed_keys levels1"
    "\<forall>i. i \<notin> set is \<longrightarrow> Ws' ! i = Ws[l := Some W1] ! i" "\<forall>i \<in> set is. level_asked A q (Ws[l := Some W1] ! i) (Ws' ! i)"
    unfolding len length_list_update by blast
  have "Ws' ! l = Some W1" using IH(6) Cons.prems(2) W(2) by simp
  then have "level_asked A q (Ws ! l) (Ws' ! l)" using one(6,7) W(1) unfolding level_asked_def by blast
  then have "\<forall>i. i \<notin> set (l # is) \<longrightarrow> Ws' ! i = Ws ! i" "\<forall>i \<in> set (l # is). level_asked A q (Ws ! i) (Ws' ! i)"
    using IH(6,7) by (auto simp: neq)
  moreover have "find_entry q (map (\<lambda>i. (i, the (Ws ! i))) (l # is)) r = find_entry q (?v Ws) ?r"
    by (cases r) (simp_all add: W(1))
  then have "shared_record R' (fst (lookup_result (find_entry q (map (\<lambda>i. (i, the (Ws ! i))) (l # is)) r)))"
    using IH(2) by (simp only:)
  moreover have "foldE (query_live_level Y cmux net rng rand (length levels)) (zip (l # is) Qs) (R, F, \<lambda>p. get_alibi_bits (R p) (length levels), levels) =
      Inr (R', F', \<lambda>p. get_alibi_bits (R' p) (length levels), levels')"
    using IH(1) one(1) Qs(1) by simp
  moreover have "packed_keys levels' = packed_keys levels" using IH(5) one(5) by simp
  ultimately show ?case using IH(3,4) by blast
qed

text \<open>Addresses other than the one accessed keep their records, and their levels stay to be asked.\<close>

lemma untouched_search:
  assumes "list_all2 (\<lambda>v v'. fst v' = fst v \<and> level_asked A q' (Some (snd v)) (Some (snd v'))) vs vs'" and "q \<in> A" "q \<noteq> q'"
  shows "find_entry q vs' r = find_entry q vs r" and "search_ok q vs r \<Longrightarrow> search_ok q vs' r"
  using assms(1)
proof (induction arbitrary: r rule: list_all2_induct)
  case (Cons v vs v' vs')
  from Cons.hyps(1) obtain t where t: "asked_for t (snd v) (snd v')" "t \<notin> view_tag (snd v) ` (A - {q'})" "fst v' = fst v"
    by (auto simp: level_asked_def)
  then have "view_tag (snd v) q \<noteq> t" using assms(2,3) by blast
  then have m: "view_map (snd v') q = view_map (snd v) q" "asked_before (snd v') q \<Longrightarrow> asked_before (snd v) q"
    using asked_for_other(5,6) [OF t(1), of q] by simp_all
  { case 1 show ?case using Cons.IH(1) by (cases r) (simp_all add: m(1)) }
  { case 2 then show ?case using Cons.IH(2) m t(3) by (auto split: option.splits) }
qed simp_all

lemma find_entry_known [simp]: "find_entry q vs (Some y) = Some y"
  by (induction vs) simp_all

lemma search_without_alibi:
  "snd y = 0 \<Longrightarrow> search_ok q vs (Some y) \<longleftrightarrow> (\<forall>v \<in> set vs. view_map (snd v) q = None)"
  by (induction vs) auto

lemma find_entry_origin: "find_entry q vs r = Some y \<Longrightarrow> r = Some y \<or> (\<exists>v \<in> set vs. view_map (snd v) q = Some y)"
  by (induction vs arbitrary: r) (auto split: option.splits)

lemma memory_after_access:
  assumes ok: "memory_ok ones A m Ws" and q: "q \<in> A" and present: "present_levels Ws' = present_levels Ws"
    and asked: "\<forall>i \<in> set (present_levels Ws). level_asked A q (Ws ! i) (Ws' ! i)"
  shows "memory_ok ones A (m(q \<mapsto> (v, 0))) Ws'"
    and "\<forall>a \<in> A. doram_lookup (m(q \<mapsto> (v, 0))) Ws' a = ((doram_lookup m Ws)(q \<mapsto> (v, 0))) a"
proof -
  let ?vs = "live_views Ws" and ?vs' = "live_views Ws'"
  have views: "\<forall>i \<in> set (present_levels Ws). level_asked A q (Some (the (Ws ! i))) (Some (the (Ws' ! i)))"
    using asked unfolding level_asked_def by fastforce
  have rel: "list_all2 (\<lambda>v v'. fst v' = fst v \<and> level_asked A q (Some (snd v)) (Some (snd v'))) ?vs ?vs'"
    using views by (simp add: live_views_def present list.rel_map list_all2_same)
  have a: "find_entry a ?vs' r = find_entry a ?vs r" "search_ok a ?vs r \<Longrightarrow> search_ok a ?vs' r" if "a \<in> A" "a \<noteq> q" for a r
    using untouched_search [OF rel, of a r] that by simp_all
  have "\<forall>v \<in> set ?vs'. tags_ok A (snd v) \<and> view_in_range ones (snd v) \<and> stores_in A (snd v)"
  proof
    fix v' assume "v' \<in> set ?vs'"
    then obtain i where "i < length ?vs" "v' = ?vs' ! i" using rel by (auto simp: list_all2_conv_all_nth in_set_conv_nth)
    then obtain v where "v \<in> set ?vs" "level_asked A q (Some (snd v)) (Some (snd v'))"
      using list_all2_nthD [OF rel, of i] nth_mem [of i ?vs] by blast
    then show "tags_ok A (snd v') \<and> view_in_range ones (snd v') \<and> stores_in A (snd v')"
      using ok asked_for_other(2-4) unfolding memory_ok_def level_asked_def by fastforce
  qed
  moreover have "\<forall>v \<in> set ?vs'. view_map (snd v) q = None"
    using asked by (fastforce simp: live_views_def present level_asked_def)
  then have "search_ok a ?vs' ((m(q \<mapsto> (v, 0))) a)" if "a \<in> A" for a
    using ok that a(2) [OF that] by (cases "a = q") (auto simp: memory_ok_def search_without_alibi)
  ultimately show "memory_ok ones A (m(q \<mapsto> (v, 0))) Ws'"
    using ok q by (auto simp: memory_ok_def)
  show "\<forall>a \<in> A. doram_lookup (m(q \<mapsto> (v, 0))) Ws' a = ((doram_lookup m Ws)(q \<mapsto> (v, 0))) a"
    using a(1) by (auto simp: doram_lookup_def)
qed

lemma live_view_holds:
  assumes "levels_hold levels Ws" and "v \<in> set (live_views Ws)"
  shows "\<exists>lv. level_holds lv (snd v)"
proof -
  obtain i where "i < length Ws" "Ws ! i \<noteq> None" "snd v = the (Ws ! i)"
    using assms(2) by (auto simp: live_views_def present_levels_def)
  then show ?thesis using levels_holdD(3) [OF assms(1), of i "the (Ws ! i)"] by auto
qed

lemma looked_up_in_range:
  assumes "cache_refines ones C m" and "levels_hold levels Ws" and "memory_ok ones A m Ws" and "doram_lookup m Ws q = Some y"
  shows "ones AND fst y = fst y"
proof -
  have "m q = Some y \<or> (\<exists>v \<in> set (live_views Ws). view_map (snd v) q = Some y)"
    using find_entry_origin assms(4) unfolding doram_lookup_def by fast
  then show ?thesis
  proof
    assume "m q = Some y"
    then show ?thesis using assms(1)
      by (fastforce simp: cache_refines_def in_range_def cache_map_def dest!: map_of_SomeD split: if_splits)
  next
    assume "\<exists>v \<in> set (live_views Ws). view_map (snd v) q = Some y"
    then obtain v where v: "v \<in> set (live_views Ws)" "view_map (snd v) q = Some y" by blast
    then have "view_in_range ones (snd v)" using assms(3) unfolding memory_ok_def by blast
    moreover obtain lv where "level_holds lv (snd v)" using live_view_holds [OF assms(2) v(1)] by blast
    then have "length (vw_ys (snd v)) = length (vw_xs (snd v))" by (auto simp: level_holds_def dest: oht_holdsD(1))
    moreover have "\<exists>j. y = vw_ys (snd v) ! j \<and> j < length (vw_xs (snd v))"
      using v(2) by (auto simp: view_map_def oht_entries_def dest!: map_of_SomeD)
    ultimately show ?thesis by (auto simp: view_in_range_def)
  qed
qed

section \<open>The access as a whole\<close>

lemma write_back_ok:
  assumes C: "cache_refines ones C (m(q := None))" and X: "shared X q" and real: "real_address (sc_log_address_space_size C) q"
    and R: "shared_record R (v, 0)" "ones AND v = v" and room: "is_writeable C" "sc_num_stored C + 1 \<le> sc_length C"
  shows "\<exists>C'. cache_put (\<lambda>p. [X p]) (\<lambda>p. [R p]) C = Inr C' \<and> cache_refines ones C' (m(q \<mapsto> (v, 0))) \<and>
    sc_num_stored C' = sc_num_stored C + 1 \<and> sc_length C' = sc_length C \<and> sc_log_address_space_size C' = sc_log_address_space_size C"
proof -
  have "shared_list (\<lambda>p. [X p]) [q]" "shared_records (\<lambda>p. [R p]) [(v, 0)]"
    using X R(1) by (simp_all add: shared_list_def shared_records_def)
  from cache_put_refines [OF C this _ room(1)] room(2) R(2)
  obtain C' where C': "cache_put (\<lambda>p. [X p]) (\<lambda>p. [R p]) C = Inr C'"
    "cache_refines ones C' (m(q := None) ++ cache_map (sc_log_address_space_size C) (zip [q] [(v, 0)]))"
    "sc_num_stored C' = sc_num_stored C + 1" "sc_length C' = sc_length C" "sc_log_address_space_size C' = sc_log_address_space_size C"
    by (auto simp: in_range_def)
  have "m(q := None) ++ cache_map (sc_log_address_space_size C) (zip [q] [(v, 0)]) = m(q \<mapsto> (v, 0))"
    using real by (auto simp: cache_map_def map_add_def fun_eq_iff)
  then show ?thesis using C' by auto
qed

lemma combined_keys_ok:
  assumes D: "doram_holds ones D m Ws"
  shows "ensure_packed_query_key D = (\<lambda>p. combine_round_keys (packed_keys (dt_levels D) p))"
    and "lane_keys (packed_keys (dt_levels D)) (map (\<lambda>v. vw_keys (snd v)) (live_views Ws))"
proof -
  show "ensure_packed_query_key D = (\<lambda>p. combine_round_keys (packed_keys (dt_levels D) p))"
    using D by (auto simp: ensure_packed_query_key_def doram_holds_def split: option.splits)
  have L: "levels_hold (dt_levels D) Ws" using D by (simp add: doram_holds_def)
  have k: "lane_keys (\<lambda>p. [lv_packed_key (the (dt_levels D ! i)) p]) [vw_keys (the (Ws ! i))]" if i: "i \<in> set (present_levels Ws)" for i
  proof -
    have "i < length Ws" "Ws ! i = Some (the (Ws ! i))" using i by (auto simp: present_levels_def)
    then obtain lv where "dt_levels D ! i = Some lv" "level_holds lv (the (Ws ! i))" using levels_holdD(3) [OF L] by blast
    then show ?thesis by (simp add: level_holds_def)
  qed
  show "lane_keys (packed_keys (dt_levels D)) (map (\<lambda>v. vw_keys (snd v)) (live_views Ws))"
    using k unfolding lane_keys_def packed_keys_def live_views_def levels_holdD(2) [OF L] by simp
qed

lemma query_and_write_back_ok:
  fixes V :: "'v::len value_ops"
  assumes V: "doram_value V blk ones" "0 < num_blocks V" and D: "doram_holds ones D m Ws" and M: "memory_ok ones A m Ws"
    and few: "length (live_views Ws) \<le> 8" and q: "q \<in> A" "real_address (sc_log_address_space_size (dt_speed_cache D)) q" and X: "shared X q"
    and W: "case write_y of None \<Rightarrow> w = fst (entry_or_zero (doram_lookup m Ws q)) | Some S \<Rightarrow> shared S w \<and> ones AND w = w"
    and room: "sc_num_stored (dt_speed_cache D) < sc_length (dt_speed_cache D)"
    and dummies: "\<forall>(i, W) \<in> set (live_views Ws). dummy_ok A W (d i) \<and> vw_count W < oh_num_dummies (vw_params W)"
    and rand: "\<And>i. shared (rand i) (d i)" and ops: "\<And>i. cmux_protocol (cmux i) True" "yao_ok Y"
    and env: "online net" "correlated rng_prf" "correlated rng_cache" "\<And>i. correlated (rng i)"
  shows "\<exists>Z D' Ws'. query_and_write_back V Y cmux net rng_prf rng_cache rng rand X write_y D = Inr (Z, D') \<and>
    shared Z (fst (entry_or_zero (doram_lookup m Ws q))) \<and>
    doram_holds ones D' (m(q \<mapsto> (w, 0))) Ws' \<and> memory_ok ones A (m(q \<mapsto> (w, 0))) Ws' \<and>
    (\<forall>a \<in> A. doram_lookup (m(q \<mapsto> (w, 0))) Ws' a = ((doram_lookup m Ws)(q \<mapsto> (w, 0))) a)"
proof -
  let ?is = "present_levels Ws" and ?L = "dt_levels D" and ?C = "dt_speed_cache D" and ?y = "entry_or_zero (doram_lookup m Ws q)"
  have L: "levels_hold ?L Ws" and C: "cache_refines ones ?C m" using D by (simp_all add: doram_holds_def)
  note keys = combined_keys_ok [OF D]
  have pl: "present_levels ?L = ?is" "length ?L = length Ws" by (rule levels_holdD [OF L])+
  have n: "length (live_views Ws) = length ?is" by (simp add: live_views_def)
  obtain tags y found C1 where run1:
    "query_tags_and_cache V net rng_prf rng_cache (ensure_packed_query_key D) (length ?is) X ?C = Inr (tags, y, found, C1)"
    "shared_list tags (map (\<lambda>v. prf_tag (vw_keys (snd v)) q) (live_views Ws))"
    "shared_record y (fst (lookup_result (m q)))" "shared found (snd (lookup_result (m q)))" "cache_refines ones C1 (m(q := None))"
    "sc_num_stored C1 = sc_num_stored ?C" "sc_length C1 = sc_length ?C" "sc_log_address_space_size C1 = sc_log_address_space_size ?C"
    using query_tags_and_cache_ok [OF V keys(2) _ C X q(2) env(1-3)] few
    by (auto simp: keys(1) n prf_tag_def comp_def simp del: split_paired_Ex)
  let ?Qs = "map (\<lambda>i p. tags p ! i) [0..<length (tags ID0)]"
  have lt: "length (tags ID0) = length ?is" using shared_listD(1) [OF run1(2)] by (simp add: live_views_def)
  have Qs: "list_all2 (\<lambda>i Q. shared Q (prf_tag (vw_keys (the (Ws ! i))) q)) ?is ?Qs"
    using shared_listD(2) [OF run1(2)] by (simp add: list_all2_conv_all_nth lt live_views_def)
  have h: "distinct ?is" "\<forall>i \<in> set ?is. i < length Ws \<and> Ws ! i \<noteq> None"
    "\<forall>i \<in> set ?is. tags_ok A (the (Ws ! i)) \<and> dummy_ok A (the (Ws ! i)) (d i) \<and> vw_count (the (Ws ! i)) < oh_num_dummies (vw_params (the (Ws ! i)))"
    "search_ok q (map (\<lambda>i. (i, the (Ws ! i))) ?is) (m q)"
    using dummies M q(1) by (auto simp: present_levels_def live_views_def memory_ok_def)
  obtain R F levels' Ws' where loop:
    "foldE (query_live_level Y cmux net rng rand (length ?L)) (zip ?is ?Qs) (y, found, \<lambda>p. get_alibi_bits (y p) (length ?L), ?L) =
      Inr (R, F, \<lambda>p. get_alibi_bits (R p) (length ?L), levels')"
    "shared_record R (fst (lookup_result (doram_lookup m Ws q)))" "levels_hold levels' Ws'" "length Ws' = length Ws" "packed_keys levels' = packed_keys ?L"
    "\<forall>i. i \<notin> set ?is \<longrightarrow> Ws' ! i = Ws ! i" "\<forall>i \<in> set ?is. level_asked A q (Ws ! i) (Ws' ! i)"
    using query_live_levels_ok [where cmux = cmux and rng = rng and rand = rand, OF L h(1,2) Qs h(3,4) q(1) ops rand env(1,4) run1(3,4)]
    unfolding doram_lookup_def live_views_def by blast
  have present: "present_levels Ws' = ?is"
    unfolding present_levels_def loop(4)
    using loop(6,7) by (intro filter_cong) (auto simp: present_levels_def level_asked_def)
  let ?v = "\<lambda>p. from_value (case write_y of Some S \<Rightarrow> S p | None \<Rightarrow> rec_value (R p))"
  have y: "fst (lookup_result (doram_lookup m Ws q)) = ?y" by (simp add: lookup_result_def entry_or_zero_def split: option.splits)
  have R: "shared (\<lambda>p. rec_value (R p)) (fst ?y)" using loop(2) unfolding y shared_record_def by blast
  have in_range: "ones AND fst ?y = fst ?y"
    using looked_up_in_range [OF C L M, of q] by (auto simp: entry_or_zero_def split: option.splits)
  have v: "shared_record ?v (w, 0)" "ones AND w = w"
    using W R in_range by (cases write_y; auto intro!: from_value_shared)+
  obtain C' where put: "cache_put (\<lambda>p. [X p]) (\<lambda>p. [?v p]) C1 = Inr C'" "cache_refines ones C' (m(q \<mapsto> (w, 0)))"
    using write_back_ok [OF run1(5) X _ v] q(2) room run1(6-8) by (auto simp: is_writeable_def)
  let ?D' = "D\<lparr>dt_levels := levels', dt_speed_cache := C', dt_packed_query_key := Some (ensure_packed_query_key D)\<rparr>"
  have "query_and_write_back V Y cmux net rng_prf rng_cache rng rand X write_y D = Inr (\<lambda>p. rec_value (R p), ?D')"
    unfolding query_and_write_back_def Let_def pl(1) by (simp only: run1(1) bindE_simps prod.case loop(1)) (simp add: put(1))
  moreover have "doram_holds ones ?D' (m(q \<mapsto> (w, 0))) Ws'"
    using put(2) loop(3) by (simp add: doram_holds_def keys(1) loop(5))
  moreover note memory_after_access [OF M q(1) present loop(7), of w]
  ultimately show ?thesis using R by blast
qed

section \<open>Properties\<close>

text \<open>C2: An access is a read and a write of a memory. The address may be in the cache, in any level or
  nowhere: the record the cache and the levels stand for is returned (zero if there is none), and
  afterwards they stand for the same memory with the new value at the address, or the old one if
  nothing was written. No level is ever asked twice for the same address, and what ensures this
  holds again for the next access, as does that every address is in one place only.\<close>

theorem access_is_memory:
  fixes V :: "'v::len value_ops"
  assumes "doram_value V blk ones" and "0 < num_blocks V" and "doram_holds ones D m Ws" and "memory_ok ones A m Ws"
    and "length (live_views Ws) \<le> 8" and "q \<in> A" and "real_address (sc_log_address_space_size (dt_speed_cache D)) q" and "shared X q"
    and "case write_y of None \<Rightarrow> w = fst (entry_or_zero (doram_lookup m Ws q)) | Some S \<Rightarrow> shared S w \<and> ones AND w = w"
    and "sc_num_stored (dt_speed_cache D) < sc_length (dt_speed_cache D)"
    and "\<forall>(i, W) \<in> set (live_views Ws). dummy_ok A W (d i) \<and> vw_count W < oh_num_dummies (vw_params W)"
    and "\<And>i. shared (rand i) (d i)" and "\<And>i. cmux_protocol (cmux i) True" and "yao_ok Y"
    and "online net" and "correlated rng_prf" and "correlated rng_cache" and "\<And>i. correlated (rng i)"
  shows "\<exists>Z D' Ws'. query_and_write_back V Y cmux net rng_prf rng_cache rng rand X write_y D = Inr (Z, D') \<and>
    shared Z (fst (entry_or_zero (doram_lookup m Ws q))) \<and>
    doram_holds ones D' (m(q \<mapsto> (w, 0))) Ws' \<and> memory_ok ones A (m(q \<mapsto> (w, 0))) Ws' \<and>
    (\<forall>a \<in> A. doram_lookup (m(q \<mapsto> (w, 0))) Ws' a = ((doram_lookup m Ws)(q \<mapsto> (w, 0))) a)"
  by (rule query_and_write_back_ok [OF assms])

definition sample_view :: "64 level_view" where
  "sample_view = \<lparr>vw_params = sample_params, vw_keys = sample_keys, vw_xs = [5], vw_ys = [(7, 0)],
     vw_stashed = {}, vw_live = {..<3}, vw_count = 0\<rparr>"

text \<open>An empty cache and one level, which holds the value 7 at address 5.\<close>

lemma sample_doram:
  "\<exists>D. doram_holds (NOT 0) D Map.empty [None, Some sample_view] \<and> sc_log_address_space_size (dt_speed_cache D) = 4 \<and>
    sc_num_stored (dt_speed_cache D) = 0 \<and> sc_length (dt_speed_cache D) = 2"
proof -
  obtain T :: "64 oh_tables" where T: "oht_holds sample_params sample_keys [5] [(7, 0)] {} {..<3} 0 T" using sample_table by blast
  have "shared_keys (\<lambda>p. [promote_public_values p sample_keys]) [sample_keys]"
    using sample_hypotheses(4,5) by (simp add: shared_keys_def shared_cols_def)
  then obtain K where K: "lane_keys K [sample_keys]" using precompute_ok by blast
  let ?lv = "\<lparr>lv_packed_key = \<lambda>p. K p ! 0, lv_table = T\<rparr>"
  have "level_holds ?lv sample_view" using T K by (simp add: level_holds_def sample_view_def lane_keys_def)
  then have "levels_hold [None, Some ?lv] [None, Some sample_view]" by (simp add: levels_hold_def)
  then have "doram_holds (NOT 0) \<lparr>dt_levels = [None, Some ?lv], dt_speed_cache = speed_cache_new 2 4, dt_packed_query_key = None\<rparr>
      Map.empty [None, Some sample_view]"
    using speed_cache_new_refines [of 4 "NOT 0" 2] by (simp add: doram_holds_def)
  then show ?thesis by (intro exI conjI) (assumption, simp_all add: speed_cache_new_def)
qed

lemma sample_memory:
  "live_views [None, Some sample_view] = [(1, sample_view)]" "memory_ok (NOT 0) {5} Map.empty [None, Some sample_view]"
  "doram_lookup Map.empty [None, Some sample_view] 5 = Some (7, 0)" "dummy_ok {5} sample_view 0x20000000000000000"
proof -
  show v: "live_views [None, Some sample_view] = [(1, sample_view)]" by (simp add: live_views_def present_levels_def upt_rec)
  have t: "view_tag sample_view 5 = block_tag 0x10000000000000000" by (simp add: view_tag_def sample_view_def sample_tag)
  have e: "view_map sample_view 5 = Some (7, 0)" "\<not> asked_before sample_view 5"
    using sample_entries by (simp_all add: view_map_def asked_before_def t) (simp_all add: sample_view_def)
  have xs: "vw_xs sample_view = [5]" and ys: "vw_ys sample_view = [(7, 0)]" by (simp_all add: sample_view_def)
  show "memory_ok (NOT 0) {5} Map.empty [None, Some sample_view]"
    using sample_block_tag by (simp add: memory_ok_def v e tags_ok_def view_in_range_def stores_in_def xs ys t)
  show "doram_lookup Map.empty [None, Some sample_view] 5 = Some (7, 0)" by (simp add: doram_lookup_def v e)
  show "dummy_ok {5} sample_view 0x20000000000000000" by (simp add: dummy_ok_def xs t) (simp add: block_tag_def)
qed

theorem access_is_memory_witness:
  "\<exists>D Z D'. doram_holds (NOT 0) D Map.empty [None, Some sample_view] \<and>
    query_and_write_back ring_value plain_yao (\<lambda>i. cmux_by_and all_online zero_rng) all_online zero_rng zero_rng (\<lambda>i. zero_rng)
      (\<lambda>i p. promote_public p 0x20000000000000000) (\<lambda>p. promote_public p 5) (Some (\<lambda>p. promote_public p 9)) D = Inr (Z, D') \<and>
    shared Z 7"
proof -
  obtain D where D: "doram_holds (NOT 0) D Map.empty [None, Some sample_view]" "sc_log_address_space_size (dt_speed_cache D) = 4"
    "sc_num_stored (dt_speed_cache D) = 0" "sc_length (dt_speed_cache D) = 2" using sample_doram by blast
  have h: "0 < num_blocks (ring_value :: 64 value_ops)" "length (live_views [None, Some sample_view]) \<le> 8" "5 \<in> {5 :: 32 word}"
    "real_address (sc_log_address_space_size (dt_speed_cache D)) 5" "sc_num_stored (dt_speed_cache D) < sc_length (dt_speed_cache D)"
    "\<forall>(i, W) \<in> set (live_views [None, Some sample_view]). dummy_ok {5} W 0x20000000000000000 \<and> vw_count W < oh_num_dummies (vw_params W)"
    by (simp_all add: ring_value_def sample_memory D real_address_def bit_iff_odd) (simp add: sample_view_def sample_params_def)
  show ?thesis
    using access_is_memory [where write_y = "Some (\<lambda>p. promote_public p 9)" and w = 9, OF u64_value.doram_value_axioms h(1) D(1) sample_memory(2) h(2-4) shared_promote_public _ h(5,6) shared_promote_public
        sample_cmux plain_yao_ok concrete_environment(1,2,2,2)] D(1)
    by (simp add: sample_memory(3) entry_or_zero_def) blast
qed

end
