(* ===== verification/Oblivious_Sort.thy ===== *)
theory Oblivious_Sort
  imports Circuits
begin

text \<open>
  The oblivious sort, \<open>crates/circuits/src/oblivious_sort.rs\<close>: a stable sort of shared rows by one
  shared bit, which moves the dummy rows to the end. The target position of every row is computed
  on additive sharings; the positions are opened after a shuffle of three shared permutations, the
  rows are shuffled alike, and every party puts them at the opened positions.

  The arithmetic of the backend on additive sharings modulo \<open>2 ^ 32\<close> is the parameter \<open>arith_ops\<close>,
  with what is relied on in \<open>arith_ok\<close>. The draws of the two shuffles are numbered from the start of
  each in every generator (\<open>rng_reveal\<close>, \<open>rng_rows\<close>), since not every generator is used in each.
  A vector of rows that the code sends flattened is sent column by column here.
\<close>

unbundle bit_operations_syntax

section \<open>Additive sharings\<close>

definition add_share :: "32 word share \<Rightarrow> 32 word share \<Rightarrow> 32 word share" where
  "add_share s t = mk_share (sh_a s + sh_a t) (sh_b s + sh_b t)"

definition neg_share :: "32 word share \<Rightarrow> 32 word share" where
  "neg_share s = mk_share (- sh_a s) (- sh_b s)"

definition added :: "(party \<Rightarrow> 32 word share) \<Rightarrow> 32 word \<Rightarrow> bool" where
  "added S x \<longleftrightarrow> (\<forall>p. sh_b (S p) = sh_a (S (prev_party p))) \<and> x = sh_a (S ID0) + sh_a (S ID1) + sh_a (S ID2)"

definition added_list :: "32 shares \<Rightarrow> 32 word list \<Rightarrow> bool" where
  "added_list S xs \<longleftrightarrow> (\<forall>p. length (S p) = length xs) \<and> (\<forall>i < length xs. added (\<lambda>p. S p ! i) (xs ! i))"

record arith_ops =
  bit_inject_many :: "1 shares \<Rightarrow> 32 shares res"
  add_public :: "party \<Rightarrow> 32 word share \<Rightarrow> 32 word \<Rightarrow> 32 word share"
  local_mul_vec :: "nat \<Rightarrow> party \<Rightarrow> 32 word share list \<Rightarrow> 32 word share list \<Rightarrow> 32 word list"
  reshare_vec :: "(party \<Rightarrow> 32 word list) \<Rightarrow> 32 shares res"
  random_perm :: "party \<Rightarrow> 32 word list \<Rightarrow> 32 word list \<times> 32 word list"

definition arith_ok :: "arith_ops \<Rightarrow> bool" where
  "arith_ok A \<longleftrightarrow>
     (\<forall>B bs. shared_list B bs \<longrightarrow> (\<exists>S. bit_inject_many A B = Inr S \<and> added_list S (map ucast bs))) \<and>
     (\<forall>S x v. added S x \<longrightarrow> added (\<lambda>p. add_public A p (S p) v) (x + v)) \<and>
     (\<forall>n S T xs ys. added_list S xs \<longrightarrow> added_list T ys \<longrightarrow> length xs = length ys \<longrightarrow>
        (\<forall>p. length (local_mul_vec A n p (S p) (T p)) = length xs) \<and>
        (\<forall>i < length xs. local_mul_vec A n ID0 (S ID0) (T ID0) ! i + local_mul_vec A n ID1 (S ID1) (T ID1) ! i +
           local_mul_vec A n ID2 (S ID2) (T ID2) ! i = xs ! i * ys ! i)) \<and>
     (\<forall>L xs. (\<forall>p. length (L p) = length xs) \<longrightarrow> (\<forall>i < length xs. L ID0 ! i + L ID1 ! i + L ID2 ! i = xs ! i) \<longrightarrow>
        (\<exists>S. reshare_vec A L = Inr S \<and> added_list S xs)) \<and>
     (\<forall>p ws. snd (random_perm A p ws) = fst (random_perm A (prev_party p) ws) \<and> mset (fst (random_perm A p ws)) = mset ws)"

lemma arith_okD:
  assumes "arith_ok A"
  shows "shared_list B bs \<Longrightarrow> \<exists>S. bit_inject_many A B = Inr S \<and> added_list S (map ucast bs)"
    and "added R x \<Longrightarrow> added (\<lambda>p. add_public A p (R p) v) (x + v)"
    and "added_list S xs \<Longrightarrow> added_list T ys \<Longrightarrow> length xs = length ys \<Longrightarrow> length (local_mul_vec A n p (S p) (T p)) = length xs"
    and "added_list S xs \<Longrightarrow> added_list T ys \<Longrightarrow> length xs = length ys \<Longrightarrow> i < length xs \<Longrightarrow>
      local_mul_vec A n ID0 (S ID0) (T ID0) ! i + local_mul_vec A n ID1 (S ID1) (T ID1) ! i +
      local_mul_vec A n ID2 (S ID2) (T ID2) ! i = xs ! i * ys ! i"
    and "(\<And>p. length (L p) = length xs) \<Longrightarrow> (\<And>i. i < length xs \<Longrightarrow> L ID0 ! i + L ID1 ! i + L ID2 ! i = xs ! i) \<Longrightarrow>
      \<exists>S. reshare_vec A L = Inr S \<and> added_list S xs"
    and "snd (random_perm A p ws) = fst (random_perm A (prev_party p) ws)" "mset (fst (random_perm A p ws)) = mset ws"
  using assms unfolding arith_ok_def by blast+

lemma added_listD:
  "added_list S xs \<Longrightarrow> length (S p) = length xs"
  "added_list S xs \<Longrightarrow> i < length xs \<Longrightarrow> added (\<lambda>p. S p ! i) (xs ! i)"
  by (simp_all add: added_list_def)

lemma added_ops:
  "added S x \<Longrightarrow> added T y \<Longrightarrow> added (\<lambda>p. add_share (S p) (T p)) (x + y)"
  "added S x \<Longrightarrow> added (\<lambda>p. neg_share (S p)) (- x)"
  "added (\<lambda>p. zero_share) 0"
  by (simp_all add: added_def add_share_def neg_share_def zero_share_def algebra_simps)

lemma added_list_map:
  "added_list S xs \<Longrightarrow> (\<And>R x. added R x \<Longrightarrow> added (\<lambda>p. f p (R p)) (g x)) \<Longrightarrow> added_list (\<lambda>p. map (f p) (S p)) (map g xs)"
  by (simp add: added_list_def)

section \<open>The target positions\<close>

fun running_sums :: "32 word share \<Rightarrow> 32 word share list \<Rightarrow> 32 word share list \<times> 32 word share" where
  "running_sums acc [] = ([], acc)"
| "running_sums acc (x # xs) =
     (let acc' = add_share acc x; (counts, total) = running_sums acc' xs in (acc' # counts, total))"

definition gen_bit_perm :: "arith_ops \<Rightarrow> 32 shares \<Rightarrow> 32 shares res" where
  "gen_bit_perm A bits =
     (let zeros = \<lambda>p. map (\<lambda>bit. add_public A p (neg_share bit) 1) (bits p);
          zero_counts = \<lambda>p. running_sums zero_share (zeros p);
          one_counts = \<lambda>p. running_sums (snd (zero_counts p)) (bits p);
          zero_positions = \<lambda>p. local_mul_vec A 0 p (zeros p) (fst (zero_counts p));
          one_positions = \<lambda>p. local_mul_vec A 1 p (bits p) (fst (one_counts p))
      in reshare_vec A (\<lambda>p. map2 (+) (zero_positions p) (one_positions p)))"

text \<open>The positions count from one: first the rows with bit 0, then the others, each in their order.\<close>

definition position_of :: "1 word list \<Rightarrow> nat \<Rightarrow> nat" where
  "position_of bs j = (if bs ! j = 0 then length (filter (\<lambda>b. b = 0) (take (Suc j) bs))
     else length (filter (\<lambda>b. b = 0) bs) + length (filter (\<lambda>b. b \<noteq> 0) (take (Suc j) bs)))"

lemma running_sums_added:
  assumes "added_list S xs" and "added Z z"
  shows "added_list (\<lambda>p. fst (running_sums (Z p) (S p))) (map (\<lambda>j. z + sum_list (take (Suc j) xs)) [0..<length xs]) \<and>
    added (\<lambda>p. snd (running_sums (Z p) (S p))) (z + sum_list xs)"
  using assms
proof (induction xs arbitrary: S Z z)
  case Nil
  then show ?case by (simp add: added_list_def)
next
  case (Cons x xs)
  have ne: "S p \<noteq> []" for p using added_listD(1) [OF Cons.prems(1), of p] by auto
  then have S: "S p = hd (S p) # tl (S p)" for p by simp
  have hd: "added (\<lambda>p. hd (S p)) x" using added_listD(2) [OF Cons.prems(1), of 0] ne by (simp add: hd_conv_nth)
  have tl: "added_list (\<lambda>p. tl (S p)) xs"
    using added_listD(1) [OF Cons.prems(1)] added_listD(2) [OF Cons.prems(1), of "Suc i" for i] by (simp add: added_list_def nth_tl)
  note IH = Cons.IH [OF tl added_ops(1) [OF Cons.prems(2) hd]]
  have r: "running_sums (Z p) (S p) = (add_share (Z p) (hd (S p)) # fst (running_sums (add_share (Z p) (hd (S p))) (tl (S p))),
      snd (running_sums (add_share (Z p) (hd (S p))) (tl (S p))))" for p
    by (subst S) (simp add: Let_def case_prod_beta)
  have m: "map (\<lambda>j. z + sum_list (take (Suc j) (x # xs))) [0..<length (x # xs)] =
      (z + x) # map (\<lambda>j. z + x + sum_list (take (Suc j) xs)) [0..<length xs]"
    by (simp add: upt_conv_Cons add.assoc flip: map_Suc_upt del: upt_Suc)
  have "added_list (\<lambda>p. fst (running_sums (Z p) (S p))) (map (\<lambda>j. z + sum_list (take (Suc j) (x # xs))) [0..<length (x # xs)])"
    unfolding r m using IH added_ops(1) [OF Cons.prems(2) hd] by (auto simp: added_list_def nth_Cons split: nat.splits)
  then show ?case using IH by (simp add: r add.assoc)
qed

lemma sum_bits:
  "sum_list (map (\<lambda>b. ucast b) bs) = (of_nat (length (filter (\<lambda>b. b \<noteq> 0) bs)) :: 32 word)"
  "sum_list (map (\<lambda>b. 1 - ucast b) bs) = (of_nat (length (filter (\<lambda>b. b = 0) bs)) :: 32 word)"
  for bs :: "1 word list"
proof -
  have c: "(ucast b :: 32 word) = (if b = 0 then 0 else 1)" for b :: "1 word" using one_bit_cases [of b] by auto
  show "sum_list (map (\<lambda>b. ucast b) bs) = (of_nat (length (filter (\<lambda>b. b \<noteq> 0) bs)) :: 32 word)"
    "sum_list (map (\<lambda>b. 1 - ucast b) bs) = (of_nat (length (filter (\<lambda>b. b = 0) bs)) :: 32 word)"
    by (induction bs) (simp_all add: c)
qed

lemma gen_bit_perm_ok:
  assumes A: "arith_ok A" and B: "added_list B (map ucast bs)"
  shows "\<exists>R. gen_bit_perm A B = Inr R \<and> added_list R (map (\<lambda>j. of_nat (position_of bs j)) [0..<length bs])"
proof -
  let ?Z = "\<lambda>p. map (\<lambda>bit. add_public A p (neg_share bit) 1) (B p)"
  let ?zs = "map (\<lambda>b. 1 - ucast b) bs :: 32 word list" and ?os = "map ucast bs :: 32 word list"
  have "added_list ?Z (map (\<lambda>x. - x + 1) (map ucast bs))"
    by (rule added_list_map [OF B]) (rule arith_okD(2) [OF A added_ops(2)])
  then have Z: "added_list ?Z ?zs" by (simp add: comp_def)
  note zc = running_sums_added [OF Z added_ops(3)]
  note oc = running_sums_added [OF B conjunct2 [OF zc]]
  let ?zp = "\<lambda>p. local_mul_vec A 0 p (?Z p) (fst (running_sums zero_share (?Z p)))"
  let ?op = "\<lambda>p. local_mul_vec A 1 p (B p) (fst (running_sums (snd (running_sums zero_share (?Z p))) (B p)))"
  have len: "length (?zp p) = length bs" "length (?op p) = length bs" for p
    using arith_okD(3) [OF A Z conjunct1 [OF zc], of 0 p] arith_okD(3) [OF A B conjunct1 [OF oc], of 1 p] by simp_all
  have c: "(ucast b :: 32 word) = (if b = 0 then 0 else 1)" for b :: "1 word" using one_bit_cases [of b] by auto
  have sums: "map2 (+) (?zp ID0) (?op ID0) ! j + map2 (+) (?zp ID1) (?op ID1) ! j + map2 (+) (?zp ID2) (?op ID2) ! j = of_nat (position_of bs j)"
    if j: "j < length bs" for j
  proof -
    have z: "?zp ID0 ! j + ?zp ID1 ! j + ?zp ID2 ! j = (1 - ucast (bs ! j)) * of_nat (length (filter (\<lambda>b. b = 0) (take (Suc j) bs)))"
      using arith_okD(4) [OF A Z conjunct1 [OF zc], of j 0] j by (simp add: take_map sum_bits del: take_Suc_conv_app_nth)
    have on: "?op ID0 ! j + ?op ID1 ! j + ?op ID2 ! j = ucast (bs ! j) *
        (of_nat (length (filter (\<lambda>b. b = 0) bs)) + of_nat (length (filter (\<lambda>b. b \<noteq> 0) (take (Suc j) bs))))"
      using arith_okD(4) [OF A B conjunct1 [OF oc], of j 1] j by (simp add: take_map sum_bits)
    have "map2 (+) (?zp ID0) (?op ID0) ! j + map2 (+) (?zp ID1) (?op ID1) ! j + map2 (+) (?zp ID2) (?op ID2) ! j =
        (?zp ID0 ! j + ?zp ID1 ! j + ?zp ID2 ! j) + (?op ID0 ! j + ?op ID1 ! j + ?op ID2 ! j)"
      using j len by simp
    then show ?thesis unfolding z on by (simp add: c position_of_def)
  qed
  have "\<exists>R. reshare_vec A (\<lambda>p. map2 (+) (?zp p) (?op p)) = Inr R \<and> added_list R (map (\<lambda>j. of_nat (position_of bs j)) [0..<length bs])"
    by (rule arith_okD(5) [OF A]) (use len sums in simp_all)
  then show ?thesis by (simp add: gen_bit_perm_def Let_def)
qed


text \<open>The order the positions describe, as the rows in sorted order.\<close>

definition stable_order :: "1 word list \<Rightarrow> nat list" where
  "stable_order bs = filter (\<lambda>j. bs ! j = 0) [0..<length bs] @ filter (\<lambda>j. bs ! j \<noteq> 0) [0..<length bs]"

lemma length_stable_order [simp]: "length (stable_order bs) = length bs"
  using sum_length_filter_compl [of "\<lambda>j. bs ! j = 0" "[0..<length bs]"] by (simp add: stable_order_def)

lemma set_stable_order: "set (stable_order bs) = {..<length bs}"
  by (auto simp: stable_order_def)

lemma filter_take_positions:
  "k \<le> length bs \<Longrightarrow> length (filter P (take k bs)) = length (filter (\<lambda>i. P (bs ! i)) [0..<k])"
  by (induction k) (simp_all add: take_Suc_conv_app_nth)

lemma upt_split_at: "j < n \<Longrightarrow> [0..<n] = [0..<j] @ j # [Suc j..<n]"
  using upt_add_eq_append [of 0 j "n - j"] by (simp add: upt_conv_Cons)

lemma filter_upt_nth:
  assumes "Q j" and "j < n"
  shows "filter Q [0..<n] ! length (filter Q [0..<j]) = j"
proof -
  have "[0..<n] = [0..<j] @ j # [Suc j..<n]" using assms(2) by (rule upt_split_at)
  then show ?thesis using assms(1) by (simp add: nth_append)
qed

lemma filter_upt_length_less:
  assumes "Q j" and "j < n"
  shows "length (filter Q [0..<j]) < length (filter Q [0..<n])"
proof -
  have "[0..<n] = [0..<j] @ j # [Suc j..<n]" using assms(2) by (rule upt_split_at)
  then show ?thesis using assms(1) by simp
qed

lemma position_of_ok:
  assumes "j < length bs"
  shows "0 < position_of bs j" and "position_of bs j \<le> length bs" and "stable_order bs ! (position_of bs j - 1) = j"
proof -
  have "0 < position_of bs j \<and> position_of bs j \<le> length bs \<and> stable_order bs ! (position_of bs j - 1) = j"
  proof (cases "bs ! j = 0")
    case True
    have p: "position_of bs j = Suc (length (filter (\<lambda>i. bs ! i = 0) [0..<j]))"
      using assms True by (simp add: position_of_def filter_take_positions)
    have "length (filter (\<lambda>i. bs ! i = 0) [0..<length bs]) \<le> length bs" using length_filter_le [of _ "[0..<length bs]"] by simp
    then show ?thesis
      using filter_upt_nth [of "\<lambda>i. bs ! i = 0" j "length bs"] filter_upt_length_less [of "\<lambda>i. bs ! i = 0" j "length bs"] True assms
      by (simp add: p stable_order_def nth_append)
  next
    case False
    have z: "length (filter (\<lambda>b. b = 0) bs) = length (filter (\<lambda>i. bs ! i = 0) [0..<length bs])"
      using filter_take_positions [of "length bs" bs "\<lambda>b. b = 0"] by simp
    have p: "position_of bs j = length (filter (\<lambda>i. bs ! i = 0) [0..<length bs]) + Suc (length (filter (\<lambda>i. bs ! i \<noteq> 0) [0..<j]))"
      using assms False by (simp add: position_of_def filter_take_positions z)
    have "length (filter (\<lambda>i. bs ! i \<noteq> 0) [0..<j]) < length (filter (\<lambda>i. bs ! i \<noteq> 0) [0..<length bs])"
      using filter_upt_length_less [of "\<lambda>i. bs ! i \<noteq> 0" j "length bs"] False assms by simp
    then show ?thesis
      using filter_upt_nth [of "\<lambda>i. bs ! i \<noteq> 0" j "length bs"] False assms
        sum_length_filter_compl [of "\<lambda>i. bs ! i = 0" "[0..<length bs]"]
      by (simp add: p stable_order_def nth_append)
  qed
  then show "0 < position_of bs j" "position_of bs j \<le> length bs" "stable_order bs ! (position_of bs j - 1) = j" by blast+
qed

text \<open>It is the library's stable sort.\<close>

lemma sorted_map_const: "(\<And>y. y \<in> set ys \<Longrightarrow> f y = c) \<Longrightarrow> sorted (map f ys)"
  by (induction ys) auto

lemma stable_order_sort: "stable_order bs = sort_key (\<lambda>j. unat (bs ! j)) [0..<length bs]"
proof (rule sym, rule properties_for_sort_key)
  have "mset (filter (\<lambda>j. bs ! j = 0) [0..<length bs]) + mset (filter (\<lambda>j. \<not> bs ! j = 0) [0..<length bs]) = mset [0..<length bs]"
    unfolding mset_filter by (rule multiset_partition [symmetric])
  then show "mset (stable_order bs) = mset [0..<length bs]" by (simp add: stable_order_def)
  have v: "unat b = (if b = 0 then 0 else 1)" for b :: "1 word" using one_bit_cases [of b] by auto
  show "sorted (map (\<lambda>j. unat (bs ! j)) (stable_order bs))"
    unfolding stable_order_def map_append sorted_append
    by (intro conjI sorted_map_const [of _ _ 0] sorted_map_const [of _ _ 1]) (auto simp: v)
  show "filter (\<lambda>j. unat (bs ! k) = unat (bs ! j)) (stable_order bs) = filter (\<lambda>j. unat (bs ! k) = unat (bs ! j)) [0..<length bs]"
    if "k \<in> set (stable_order bs)" for k
    by (cases "bs ! k = 0") (simp_all add: stable_order_def v conj_commute cong: conj_cong)
qed

section \<open>Opening the positions\<close>

text \<open>The shared permutations as the positions of their words.\<close>

definition reveal_side0 :: "rngs \<Rightarrow> 32 word share list \<Rightarrow> 32 word share list \<Rightarrow> 32 word list res" where
  "reveal_side0 rng pi input = mapE (\<lambda>(k, p).
     bindE (getE (map (\<lambda>row. sh_a row + sh_b row) input) (unat (sh_a p))) (\<lambda>beta.
       Inr (beta - fst (random_elements rng k ID0)))) (zip [0..<length input] pi)"

definition reveal_side1 :: "rngs \<Rightarrow> 32 word share list \<Rightarrow> 32 word share list \<Rightarrow> 32 word list res" where
  "reveal_side1 rng pi input = mapE (\<lambda>(k, p).
     bindE (getE (map sh_a input) (unat (sh_b p))) (\<lambda>beta.
       Inr (beta + snd (random_elements rng k ID1)))) (zip [0..<length input] pi)"

definition reveal_side2 :: "32 word share list \<Rightarrow> 32 word list \<Rightarrow> 32 word list \<Rightarrow> 32 word list res" where
  "reveal_side2 pi delta gamma = mapE (\<lambda>p.
     bindE (getE pi (unat (sh_b p))) (\<lambda>q. let index = unat (sh_a q) in
     bindE (getE gamma index) (\<lambda>g. bindE (getE delta index) (\<lambda>d. Inr (g + d))))) pi"

definition shuffle_reveal_perm :: "network \<Rightarrow> rngs \<Rightarrow> 32 shares \<Rightarrow> 32 shares \<Rightarrow> (party \<Rightarrow> 32 word list) res" where
  "shuffle_reveal_perm net rng pi input =
     bindE (reveal_side0 rng (pi ID0) (input ID0)) (\<lambda>shuffled0.
     bindE (reveal_side1 rng (pi ID1) (input ID1)) (\<lambda>shuffled1.
     bindE (deliver net ID0 ID2 shuffled0) (\<lambda>delta.
     bindE (deliver net ID1 ID2 shuffled1) (\<lambda>gamma.
     bindE (reveal_side2 (pi ID2) delta gamma) (\<lambda>shuffled.
     bindE (deliver net ID2 ID0 shuffled) (\<lambda>shuffled_0.
     bindE (deliver net ID2 ID1 shuffled) (\<lambda>shuffled_1.
       Inr (\<lambda>p. case p of ID0 \<Rightarrow> shuffled_0 | ID1 \<Rightarrow> shuffled_1 | ID2 \<Rightarrow> shuffled))))))))"

text \<open>Three permutations \<open>w\<close>, shared in pairs, and the order they make together.\<close>

definition perms_ok :: "nat \<Rightarrow> 32 shares \<Rightarrow> (party \<Rightarrow> 32 word list) \<Rightarrow> bool" where
  "perms_ok n pi w \<longleftrightarrow> n < 2 ^ 32 \<and> (\<forall>p. pi p = map2 mk_share (w p) (w (prev_party p))) \<and>
     (\<forall>p. mset (w p) = mset (map of_nat [0..<n]))"

definition ix :: "32 word list \<Rightarrow> nat \<Rightarrow> nat" where
  "ix w i = unat (w ! i)"

definition mixed :: "(party \<Rightarrow> 32 word list) \<Rightarrow> nat \<Rightarrow> nat" where
  "mixed w i = ix (w ID0) (ix (w ID2) (ix (w ID1) i))"

lemma perm_ix:
  assumes "mset w = mset (map (of_nat :: nat \<Rightarrow> 32 word) [0..<n])" and "n < 2 ^ 32"
  shows "length w = n" and "i < n \<Longrightarrow> ix w i < n" and "inj_on (ix w) {..<n}"
proof -
  have u: "unat (of_nat k :: 32 word) = k" if "k < n" for k using that assms(2) by (simp add: unsigned_of_nat take_bit_nat_eq_self)
  show l: "length w = n" using mset_eq_length [OF assms(1)] by simp
  have s: "set w = of_nat ` {0..<n}" using mset_eq_setD [OF assms(1)] by simp
  show "ix w i < n" if "i < n"
  proof -
    have "w ! i \<in> of_nat ` {0..<n}" using s l that nth_mem by blast
    then show ?thesis using u by (auto simp: ix_def)
  qed
  have "distinct (map (of_nat :: nat \<Rightarrow> 32 word) [0..<n])"
    by (simp add: distinct_map) (metis (no_types, lifting) inj_onI u atLeastLessThan_iff)
  then have "distinct w" using assms(1) by (metis mset_eq_imp_distinct_iff)
  then show "inj_on (ix w) {..<n}" using l by (auto simp: inj_on_def ix_def nth_eq_iff_index_eq simp flip: word_unat_eq_iff)
qed

lemma perms_okD:
  assumes "perms_ok n pi w"
  shows "length (pi p) = n" "i < n \<Longrightarrow> sh_a (pi p ! i) = w p ! i" "i < n \<Longrightarrow> sh_b (pi p ! i) = w (prev_party p) ! i"
    and "i < n \<Longrightarrow> ix (w p) i < n" "i < n \<Longrightarrow> mixed w i < n" and "inj_on (mixed w) {..<n}"
proof -
  have m: "mset (w p) = mset (map of_nat [0..<n])" "n < 2 ^ 32" "pi p = map2 mk_share (w p) (w (prev_party p))" for p
    using assms by (simp_all add: perms_ok_def)
  note a = perm_ix [OF m(1,2)]
  show "length (pi p) = n" "i < n \<Longrightarrow> sh_a (pi p ! i) = w p ! i" "i < n \<Longrightarrow> sh_b (pi p ! i) = w (prev_party p) ! i"
    using m(3) a(1) by simp_all
  show "i < n \<Longrightarrow> ix (w p) i < n" "i < n \<Longrightarrow> mixed w i < n" using a(2) by (simp_all add: mixed_def)
  have "mixed w = (ix (w ID0) \<circ> ix (w ID2)) \<circ> ix (w ID1)" by (simp add: mixed_def fun_eq_iff)
  moreover have "ix (w p) ` {..<n} \<subseteq> {..<n}" for p using a(2) by auto
  ultimately show "inj_on (mixed w) {..<n}" by (metis a(3) comp_inj_on inj_on_subset)
qed


lemma mapE_zip_total:
  assumes "length pi = n" and "\<And>k. k < n \<Longrightarrow> f (k, pi ! k) = Inr (g k)"
  shows "mapE f (zip [0..<n] pi) = Inr (map g [0..<n])"
proof -
  have "mapE f (zip [0..<n] pi) = Inr (map (\<lambda>(k, p). g k) (zip [0..<n] pi))"
    using assms by (intro mapE_total) (auto simp: set_zip)
  also have "map (\<lambda>(k, p). g k) (zip [0..<n] pi) = map g [0..<n]"
    using assms(1) by (intro nth_equalityI) simp_all
  finally show ?thesis .
qed

lemma mapE_list_total:
  assumes "length pi = n" and "\<And>k. k < n \<Longrightarrow> f (pi ! k) = Inr (g k)"
  shows "mapE f pi = Inr (map g [0..<n])"
proof -
  have "mapE f pi = Inr (map (\<lambda>x. projr (f x)) pi)"
    using assms by (intro mapE_total) (auto simp: in_set_conv_nth)
  also have "map (\<lambda>x. projr (f x)) pi = map g [0..<n]"
    using assms by (intro nth_equalityI) simp_all
  finally show ?thesis .
qed

lemma reveal_perm_ok:
  assumes P: "perms_ok n pi w" and R: "added_list R rs" and n: "length rs = n" and env: "online net" "correlated rng"
  shows "shuffle_reveal_perm net rng pi R = Inr (\<lambda>p. map (\<lambda>i. rs ! mixed w i) [0..<n])"
proof -
  note d = perms_okD [OF P]
  have l: "length (R p) = n" for p using added_listD(1) [OF R] n by simp
  let ?al = "\<lambda>k. fst (random_elements rng k ID0) :: 32 word"
  let ?d = "map (\<lambda>k. sh_a (R ID0 ! ix (w ID0) k) + sh_b (R ID0 ! ix (w ID0) k) - ?al k) [0..<n]"
  let ?g = "map (\<lambda>k. sh_a (R ID1 ! ix (w ID0) k) + ?al k) [0..<n]"
  have al: "snd (random_elements rng k ID1) = ?al k" for k
    using env(2) by (simp add: correlated_def random_elements_def)
  have i: "unat (sh_a (pi p ! k)) = ix (w p) k" "unat (sh_b (pi p ! k)) = ix (w (prev_party p)) k" if "k < n" for p k
    using d(2,3) that by (simp_all add: ix_def)
  have s0: "reveal_side0 rng (pi ID0) (R ID0) = Inr ?d"
    unfolding reveal_side0_def l by (rule mapE_zip_total [OF d(1)]) (simp add: i d(4) l)
  have s1: "reveal_side1 rng (pi ID1) (R ID1) = Inr ?g"
    unfolding reveal_side1_def l by (rule mapE_zip_total [OF d(1)]) (simp add: i d(4) l al)
  have s2: "reveal_side2 (pi ID2) ?d ?g = Inr (map (\<lambda>i. rs ! mixed w i) [0..<n])"
    unfolding reveal_side2_def
  proof (rule mapE_list_total [OF d(1)])
    fix k assume k: "k < n"
    let ?q = "ix (w ID1) k" and ?j = "mixed w k"
    have q: "?q < n" "ix (w ID2) ?q < n" "?j < n" using d(4,5) k by simp_all
    have "sh_a (R ID1 ! ?j) + (sh_a (R ID0 ! ?j) + sh_b (R ID0 ! ?j)) = rs ! ?j"
      using added_listD(2) [OF R, of ?j] q n by (simp add: added_def)
    then show "bindE (getE (pi ID2) (unat (sh_b (pi ID2 ! k)))) (\<lambda>q. let index = unat (sh_a q) in
        bindE (getE ?g index) (\<lambda>g. bindE (getE ?d index) (\<lambda>d. Inr (g + d)))) = Inr (rs ! ?j)"
      using k q by (simp add: i d(1) Let_def mixed_def add.commute)
  qed
  show ?thesis
    by (simp add: shuffle_reveal_perm_def s0 s1 s2 env(1) fun_eq_iff split: party.split)
qed

section \<open>Shuffling the rows\<close>

definition rows_side0 :: "rngs \<Rightarrow> 32 word share list \<Rightarrow> 128 word share list \<Rightarrow> 128 word list res" where
  "rows_side0 rng pi input =
     bindE (mapE (\<lambda>(k, p). bindE (getE (map (\<lambda>row. sh_a row XOR sh_b row) input) (unat (sh_a p))) (\<lambda>beta.
         Inr (beta XOR fst (random_elements rng k ID0)))) (zip [0..<length input] pi)) (\<lambda>shuffled_1.
       mapE (\<lambda>(k, p). bindE (getE shuffled_1 (unat (sh_b p))) (\<lambda>s. Inr (s XOR snd (random_elements rng k ID0))))
         (zip [0..<length input] pi))"

definition rows_side1 :: "rngs \<Rightarrow> 32 word share list \<Rightarrow> 128 word share list \<Rightarrow> 128 word list res" where
  "rows_side1 rng pi input = mapE (\<lambda>(k, p). bindE (getE (map sh_a input) (unat (sh_b p))) (\<lambda>beta.
     Inr (beta XOR snd (random_elements rng k ID1)))) (zip [0..<length input] pi)"

definition rows_last1 :: "32 word share list \<Rightarrow> 128 word list \<Rightarrow> 128 word list res" where
  "rows_last1 pi delta = mapE (\<lambda>p. getE delta (unat (sh_a p))) pi"

definition rows_last2 :: "rngs \<Rightarrow> 32 word share list \<Rightarrow> 128 word list \<Rightarrow> 128 word list res" where
  "rows_last2 rng pi gamma =
     bindE (mapE (\<lambda>(k, p). bindE (getE gamma (unat (sh_a p))) (\<lambda>g. Inr (g XOR fst (random_elements rng k ID2))))
       (zip [0..<length pi] pi)) (\<lambda>shuffled_1. mapE (\<lambda>p. getE shuffled_1 (unat (sh_b p))) pi)"

text \<open>The final exchange of one column: the first party's shares are fresh, the others mask theirs.\<close>

definition rows_exchange :: "rngs \<Rightarrow> nat \<Rightarrow> 128 word list \<Rightarrow> 128 word list \<Rightarrow> party \<Rightarrow> 128 word share list" where
  "rows_exchange rng len beta1 beta2 p =
     (let rand1 = map2 (\<lambda>k beta. beta XOR snd (random_elements rng k ID1)) [0..<len] beta1;
          rand2 = map2 (\<lambda>k beta. beta XOR fst (random_elements rng k ID2)) [0..<len] beta2
      in map (\<lambda>k. case p of
           ID0 \<Rightarrow> mk_share (fst (random_elements rng k ID0)) (snd (random_elements rng k ID0))
         | ID1 \<Rightarrow> mk_share (rand2 ! k XOR rand1 ! k) (snd (random_elements rng k ID1))
         | ID2 \<Rightarrow> mk_share (fst (random_elements rng k ID2)) (rand1 ! k XOR rand2 ! k)) [0..<len])"

definition shuffle_rows_many :: "network \<Rightarrow> rngs \<Rightarrow> 32 shares \<Rightarrow> (party \<Rightarrow> 128 word share list list) \<Rightarrow>
    (party \<Rightarrow> 128 word share list list) res" where
  "shuffle_rows_many net rng pi inputs =
     (let len = length (pi ID0); m = length (inputs ID0) in
      bindE (mapE (\<lambda>(set, input). rows_side0 (skip_draws (set * len) rng) (pi ID0) input) (enumerate 0 (inputs ID0))) (\<lambda>shuffled_3_all.
      bindE (mapE (\<lambda>(set, input). rows_side1 (skip_draws (set * len) rng) (pi ID1) input) (enumerate 0 (inputs ID1))) (\<lambda>shuffled_1_all.
      bindE (deliver net ID0 ID1 shuffled_3_all) (\<lambda>delta_all.
      bindE (deliver net ID1 ID2 shuffled_1_all) (\<lambda>gamma_all.
      checkE (len \<noteq> 0) (Panic ''chunk size must be non-zero'')
        (bindE (mapE (rows_last1 (pi ID1)) delta_all) (\<lambda>beta1.
         bindE (mapE (\<lambda>(set, gamma). rows_last2 (skip_draws (set * len) rng) (pi ID2) gamma) (enumerate 0 gamma_all)) (\<lambda>beta2.
         checkE (net ID1 ID2 \<and> net ID2 ID1) NetworkError
           (Inr (\<lambda>p. map (\<lambda>set. rows_exchange (skip_draws ((m + set) * len) rng) len (beta1 ! set) (beta2 ! set) p) [0..<m]))))))))))"

lemma rows_column_ok:
  assumes P: "perms_ok n pi w" and X: "shared_list X xs" and n: "length xs = n" and env: "correlated rng" "correlated rng2"
  shows "\<exists>t0 t1 b1 b2. rows_side0 rng (pi ID0) (X ID0) = Inr t0 \<and> rows_side1 rng (pi ID1) (X ID1) = Inr t1 \<and>
    rows_last1 (pi ID1) t0 = Inr b1 \<and> rows_last2 rng (pi ID2) t1 = Inr b2 \<and>
    shared_list (rows_exchange rng2 n b1 b2) (map (\<lambda>i. xs ! mixed w i) [0..<n])"
proof -
  note d = perms_okD [OF P]
  have l: "length (X p) = n" for p using shared_listD(1) [OF X] n by simp
  let ?a1 = "\<lambda>k. fst (random_elements rng k ID0) :: 128 word" and ?a3 = "\<lambda>k. snd (random_elements rng k ID0) :: 128 word"
  have al: "snd (random_elements rng k ID1) = ?a1 k" "fst (random_elements rng k ID2) = ?a3 k" for k
    using env(1) by (simp_all add: correlated_def random_elements_def)
  have i: "unat (sh_a (pi p ! k)) = ix (w p) k" "unat (sh_b (pi p ! k)) = ix (w (prev_party p)) k" if "k < n" for p k
    using d(2,3) that by (simp_all add: ix_def)
  let ?s1 = "\<lambda>k. (sh_a (X ID0 ! ix (w ID0) k) XOR sh_b (X ID0 ! ix (w ID0) k)) XOR ?a1 k"
  let ?t1 = "\<lambda>k. sh_a (X ID1 ! ix (w ID0) k) XOR ?a1 k"
  have s1: "mapE (\<lambda>(k, p). bindE (getE (map (\<lambda>row. sh_a row XOR sh_b row) (X ID0)) (unat (sh_a p))) (\<lambda>beta.
      Inr (beta XOR fst (random_elements rng k ID0)))) (zip [0..<n] (pi ID0)) = Inr (map ?s1 [0..<n])"
    by (rule mapE_zip_total [OF d(1)]) (simp add: i d(4) l)
  have t0: "rows_side0 rng (pi ID0) (X ID0) = Inr (map (\<lambda>k. ?s1 (ix (w ID2) k) XOR ?a3 k) [0..<n])"
    unfolding rows_side0_def l s1 bindE_simps by (rule mapE_zip_total [OF d(1)]) (simp add: i d(4))
  have t1: "rows_side1 rng (pi ID1) (X ID1) = Inr (map ?t1 [0..<n])"
    unfolding rows_side1_def l by (rule mapE_zip_total [OF d(1)]) (simp add: i d(4) l al)
  let ?b1 = "\<lambda>k. ?s1 (ix (w ID2) (ix (w ID1) k)) XOR ?a3 (ix (w ID1) k)"
  let ?b2 = "\<lambda>k. ?t1 (ix (w ID2) (ix (w ID1) k)) XOR ?a3 (ix (w ID1) k)"
  have b1: "rows_last1 (pi ID1) (map (\<lambda>k. ?s1 (ix (w ID2) k) XOR ?a3 k) [0..<n]) = Inr (map ?b1 [0..<n])"
    unfolding rows_last1_def by (rule mapE_list_total [OF d(1)]) (simp add: i d(4))
  have g: "mapE (\<lambda>(k, p). bindE (getE (map ?t1 [0..<n]) (unat (sh_a p))) (\<lambda>g. Inr (g XOR fst (random_elements rng k ID2))))
      (zip [0..<n] (pi ID2)) = Inr (map (\<lambda>k. ?t1 (ix (w ID2) k) XOR ?a3 k) [0..<n])"
    by (rule mapE_zip_total [OF d(1)]) (simp add: i d(4) al)
  have b2: "rows_last2 rng (pi ID2) (map ?t1 [0..<n]) = Inr (map ?b2 [0..<n])"
    unfolding rows_last2_def d(1) g bindE_simps by (rule mapE_list_total [OF d(1)]) (simp add: i d(4))
  have sum: "?b1 k XOR ?b2 k = xs ! mixed w k" if "k < n" for k
  proof -
    have "sh_a (X ID0 ! mixed w k) XOR sh_b (X ID0 ! mixed w k) XOR sh_a (X ID1 ! mixed w k) = xs ! mixed w k"
      using shared_listD(2) [OF X, of "mixed w k"] d(5) that n by (simp add: shared_def xor_ac)
    then show ?thesis by (simp add: mixed_def xor_ac)
  qed
  have c2: "snd (random_elements rng2 k ID1) = (fst (random_elements rng2 k ID0) :: 128 word)"
    "fst (random_elements rng2 k ID2) = (snd (random_elements rng2 k ID0) :: 128 word)" for k
    using env(2) by (simp_all add: correlated_def random_elements_def)
  have "shared_list (rows_exchange rng2 n (map ?b1 [0..<n]) (map ?b2 [0..<n])) (map (\<lambda>i. xs ! mixed w i) [0..<n])"
  proof (rule shared_listI)
    show "length (rows_exchange rng2 n (map ?b1 [0..<n]) (map ?b2 [0..<n]) p) = length (map (\<lambda>i. xs ! mixed w i) [0..<n])" for p
      by (simp add: rows_exchange_def Let_def)
    fix k assume "k < length (map (\<lambda>i. xs ! mixed w i) [0..<n])"
    then have k: "k < n" by simp
    show "shared (\<lambda>p. rows_exchange rng2 n (map ?b1 [0..<n]) (map ?b2 [0..<n]) p ! k) (map (\<lambda>i. xs ! mixed w i) [0..<n] ! k)"
      using k sum [OF k, symmetric] by (simp add: rows_exchange_def Let_def shared_def all_party c2 xor_ac)
  qed
  with t0 t1 b1 b2 show ?thesis by (intro exI conjI)
qed


lemma shuffle_rows_ok:
  assumes P: "perms_ok n pi w" and X: "shared_cols X xss" and n: "\<And>xs. xs \<in> set xss \<Longrightarrow> length xs = n" "0 < n"
    and env: "online net" "correlated rng"
  shows "\<exists>Y. shuffle_rows_many net rng pi X = Inr Y \<and> shared_cols Y (map (\<lambda>xs. map (\<lambda>i. xs ! mixed w i) [0..<n]) xss)"
proof -
  let ?m = "length xss"
  let ?r1 = "\<lambda>set. skip_draws (set * n) rng" and ?r2 = "\<lambda>set. skip_draws ((?m + set) * n) rng"
  have "\<exists>t0 t1 b1 b2. rows_side0 (?r1 c) (pi ID0) (X ID0 ! c) = Inr t0 \<and> rows_side1 (?r1 c) (pi ID1) (X ID1 ! c) = Inr t1 \<and>
      rows_last1 (pi ID1) t0 = Inr b1 \<and> rows_last2 (?r1 c) (pi ID2) t1 = Inr b2 \<and>
      shared_list (rows_exchange (?r2 c) n b1 b2) (map (\<lambda>i. xss ! c ! mixed w i) [0..<n])" if "c < ?m" for c
  proof -
    have "length (xss ! c) = n" using n(1) that by simp
    then show ?thesis
      by (rule rows_column_ok [OF P shared_colsD(2) [OF X that] _ correlated_skip [OF env(2)] correlated_skip [OF env(2)]])
  qed
  then obtain t0 t1 b1 b2 where t: "\<And>c. c < ?m \<Longrightarrow> rows_side0 (?r1 c) (pi ID0) (X ID0 ! c) = Inr (t0 c)"
    "\<And>c. c < ?m \<Longrightarrow> rows_side1 (?r1 c) (pi ID1) (X ID1 ! c) = Inr (t1 c)"
    "\<And>c. c < ?m \<Longrightarrow> rows_last1 (pi ID1) (t0 c) = Inr (b1 c)"
    "\<And>c. c < ?m \<Longrightarrow> rows_last2 (?r1 c) (pi ID2) (t1 c) = Inr (b2 c)"
    "\<And>c. c < ?m \<Longrightarrow> shared_list (rows_exchange (?r2 c) n (b1 c) (b2 c)) (map (\<lambda>i. xss ! c ! mixed w i) [0..<n])"
    by metis
  have l: "length (pi p) = n" "length (X p) = ?m" for p using perms_okD(1) [OF P] shared_colsD(1) [OF X] by simp_all
  have m0: "mapE (\<lambda>(set, input). rows_side0 (?r1 set) (pi ID0) input) (enumerate 0 (X ID0)) = Inr (map t0 [0..<?m])"
    unfolding enumerate_eq_zip l(2) add_0 by (rule mapE_zip_total [OF l(2)]) (simp add: t(1))
  have m1: "mapE (\<lambda>(set, input). rows_side1 (?r1 set) (pi ID1) input) (enumerate 0 (X ID1)) = Inr (map t1 [0..<?m])"
    unfolding enumerate_eq_zip l(2) add_0 by (rule mapE_zip_total [OF l(2)]) (simp add: t(2))
  have m2: "mapE (rows_last1 (pi ID1)) (map t0 [0..<?m]) = Inr (map b1 [0..<?m])"
    by (rule mapE_list_total) (simp_all add: t(3))
  have m3: "mapE (\<lambda>(set, gamma). rows_last2 (?r1 set) (pi ID2) gamma) (enumerate 0 (map t1 [0..<?m])) = Inr (map b2 [0..<?m])"
    unfolding enumerate_eq_zip length_map length_upt diff_zero add_0 by (rule mapE_zip_total) (simp_all add: t(4))
  let ?Y = "\<lambda>p. map (\<lambda>set. rows_exchange (?r2 set) n (map b1 [0..<?m] ! set) (map b2 [0..<?m] ! set) p) [0..<?m]"
  have "shuffle_rows_many net rng pi X = Inr ?Y"
    unfolding shuffle_rows_many_def Let_def l m0 m1 bindE_simps online_simps(2) [OF env(1)] m2 m3
    using n(2) env(1) by simp
  moreover have "shared_cols ?Y (map (\<lambda>xs. map (\<lambda>i. xs ! mixed w i) [0..<n]) xss)"
    using t(5) by (simp add: shared_cols_def)
  ultimately show ?thesis by blast
qed

section \<open>Placing the rows and the sort\<close>

definition place_rows :: "32 word list \<Rightarrow> 128 word share list \<Rightarrow> nat \<Rightarrow> 128 word share list res" where
  "place_rows opened shuffled len = foldE (\<lambda>(position, row) result.
     checkE (position \<noteq> 0) (Panic ''attempt to subtract with overflow'') (setE result (unat position - 1) row))
     (zip opened shuffled) (replicate len zero_share)"

definition apply_inv_many :: "arith_ops \<Rightarrow> network \<Rightarrow> rngs \<Rightarrow> rngs \<Rightarrow> 32 shares \<Rightarrow> (party \<Rightarrow> 128 word share list list) \<Rightarrow>
    (party \<Rightarrow> 128 word share list list) res" where
  "apply_inv_many A net rng_reveal rng_rows rho row_sets =
     (let unshuffled = map of_nat [0..<length (rho ID0)];
          perm = \<lambda>p. map2 mk_share (fst (random_perm A p unshuffled)) (snd (random_perm A p unshuffled))
      in bindE (shuffle_reveal_perm net rng_reveal perm rho) (\<lambda>opened.
         bindE (shuffle_rows_many net rng_rows perm row_sets) (\<lambda>shuffled_sets.
           each_party (\<lambda>p. mapE (\<lambda>shuffled. place_rows (opened p) shuffled (length (rho p))) (shuffled_sets p)))))"

definition pack_row :: "1 word share \<Rightarrow> 32 word share \<Rightarrow> 128 word share" where
  "pack_row dummy_flag x = mk_share (ucast (sh_a dummy_flag) OR push_bit 32 (ucast (sh_a x)))
     (ucast (sh_b dummy_flag) OR push_bit 32 (ucast (sh_b x)))"

definition unpack_row :: "128 word share \<Rightarrow> 1 word share \<times> 32 word share" where
  "unpack_row row = (mk_share (of_bool (sh_a row AND 1 \<noteq> 0)) (of_bool (sh_b row AND 1 \<noteq> 0)),
     mk_share (ucast (drop_bit 32 (sh_a row) AND ucast (NOT 0 :: 32 word)))
              (ucast (drop_bit 32 (sh_b row) AND ucast (NOT 0 :: 32 word))))"

record (overloaded) 'v sorted_rows =
  so_flags :: "1 word share list"
  so_xs :: "32 word share list"
  so_ys :: "'v word share list"
  so_alibis :: "8 word share list"

definition oblivious_sort ::
    "arith_ops \<Rightarrow> 'v::len value_ops \<Rightarrow> network \<Rightarrow> rngs \<Rightarrow> rngs \<Rightarrow> 1 shares \<Rightarrow> 32 shares \<Rightarrow> 'v shares \<Rightarrow> 8 shares \<Rightarrow>
     (party \<Rightarrow> 'v sorted_rows) res" where
  "oblivious_sort A V net rng_reveal rng_rows dummy_flags xs ys alibis =
     checkE (everywhere (\<lambda>p. length (xs p) = length (dummy_flags p) \<and> length (ys p) = length (dummy_flags p) \<and>
         length (alibis p) = length (dummy_flags p))) (Panic ''debug_assert_eq'')
     (bindE (bit_inject_many A dummy_flags) (\<lambda>bits.
      bindE (gen_bit_perm A bits) (\<lambda>perm.
      bindE (apply_inv_many A net rng_reveal rng_rows perm
        (\<lambda>p. map2 pack_row (dummy_flags p) (xs p) # to_blocks V (ys p) @ [alibi_to_blocks (alibis p)])) (\<lambda>sorted.
        Inr (\<lambda>p. \<lparr>so_flags = map (\<lambda>row. fst (unpack_row row)) (sorted p ! 0),
                 so_xs = map (\<lambda>row. snd (unpack_row row)) (sorted p ! 0),
                 so_ys = from_blocks V (take (num_blocks V) (drop 1 (sorted p))),
                 so_alibis = alibi_from_blocks (sorted p ! (num_blocks V + 1))\<rparr>)))))"

lemma place_rows_ok:
  assumes "distinct ts" and "length rows = length ts" and "\<And>t. t \<in> set ts \<Longrightarrow> 0 < t \<and> t \<le> n" and "n < 2 ^ 32"
  shows "\<exists>R. place_rows (map of_nat ts) rows n = Inr R \<and> length R = n \<and> (\<forall>i < length ts. R ! (ts ! i - 1) = rows ! i)"
proof -
  let ?f = "\<lambda>(position :: 32 word, row) result. checkE (position \<noteq> 0) (Panic ''attempt to subtract with overflow'')
     (setE result (unat position - 1) row)"
  have u: "unat (of_nat t :: 32 word) = t" if "t \<in> set ts" for t
    using that assms(3) [OF that] assms(4) by (simp add: unsigned_of_nat take_bit_nat_eq_self)
  have "\<exists>R. foldE ?f (zip (map of_nat (take k ts)) (take k rows)) (replicate n zero_share) = Inr R \<and> length R = n \<and>
      (\<forall>i < k. R ! (ts ! i - 1) = rows ! i)" if "k \<le> length ts" for k
    using that
  proof (induction k)
    case (Suc k)
    then obtain R where R: "foldE ?f (zip (map of_nat (take k ts)) (take k rows)) (replicate n zero_share) = Inr R" "length R = n"
      "\<forall>i < k. R ! (ts ! i - 1) = rows ! i" by auto
    let ?t = "ts ! k"
    have k: "k < length ts" "k < length rows" "?t \<in> set ts" using Suc.prems assms(2) by simp_all
    note b = assms(3) [OF k(3)]
    have z: "zip (map of_nat (take (Suc k) ts)) (take (Suc k) rows) =
        zip (map of_nat (take k ts)) (take k rows) @ [(of_nat ?t :: 32 word, rows ! k)]"
      using k by (simp add: take_Suc_conv_app_nth)
    have lt: "?t - Suc 0 < n" using b by arith
    have nz: "(of_nat ?t :: 32 word) \<noteq> 0" using u [OF k(3)] b by auto
    have ne: "?t - 1 \<noteq> ts ! i - 1" if "i < k" for i
    proof -
      have "ts ! i \<noteq> ?t" using that k(1) assms(1) by (simp add: nth_eq_iff_index_eq)
      moreover have "0 < ts ! i" using assms(3) [of "ts ! i"] that k(1) by simp
      ultimately show ?thesis using b by arith
    qed
    have "R[?t - 1 := rows ! k] ! (ts ! i - 1) = rows ! i" if "i < Suc k" for i
    proof -
      have "?t - 1 < n" using b by arith
      then show ?thesis using R ne [of i] that by (cases "i = k") simp_all
    qed
    moreover have "foldE ?f (zip (map of_nat (take (Suc k) ts)) (take (Suc k) rows)) (replicate n zero_share) = Inr (R[?t - 1 := rows ! k])"
      unfolding z foldE_append R(1) using R(2) lt nz by (simp add: u [OF k(3)] setE_def checkE_def)
    ultimately show ?case using R(2) by simp
  qed simp
  from this [of "length ts"] show ?thesis using assms(2) by (simp add: place_rows_def)
qed


lemma apply_inv_ok:
  assumes A: "arith_ok A" and R: "added_list R (map (\<lambda>j. of_nat (position_of bs j)) [0..<length bs])"
    and X: "shared_cols X xss" and n: "\<And>xs. xs \<in> set xss \<Longrightarrow> length xs = length bs" "bs \<noteq> []" "length bs < 2 ^ 32"
    and env: "online net" "correlated rng_reveal" "correlated rng_rows"
  shows "\<exists>Y. apply_inv_many A net rng_reveal rng_rows R X = Inr Y \<and> shared_cols Y (map (\<lambda>xs. map ((!) xs) (stable_order bs)) xss)"
proof -
  let ?n = "length bs"
  let ?u = "map of_nat [0..<?n] :: 32 word list"
  let ?w = "\<lambda>p. fst (random_perm A p ?u)"
  let ?pi = "\<lambda>p. map2 mk_share (fst (random_perm A p ?u)) (snd (random_perm A p ?u))"
  have lR: "length (R p) = ?n" for p using added_listD(1) [OF R] by simp
  have P: "perms_ok ?n ?pi ?w" using arith_okD(6,7) [OF A] n(3) by (simp add: perms_ok_def)
  define w where "w = ?w"
  define ts where "ts = map (\<lambda>i. position_of bs (mixed w i)) [0..<?n]"
  note P = P [folded w_def]
  note d = perms_okD [OF P]
  have opened: "shuffle_reveal_perm net rng_reveal ?pi R = Inr (\<lambda>p. map of_nat ts)"
  proof -
    have e: "map (\<lambda>i. map (\<lambda>j. of_nat (position_of bs j)) [0..<?n] ! mixed w i) [0..<?n] = (map of_nat ts :: 32 word list)"
      using d(5) by (intro nth_equalityI) (simp_all add: ts_def)
    show ?thesis unfolding e [symmetric] by (rule reveal_perm_ok [OF P R _ env(1,2)]) simp
  qed
  obtain S where S: "shuffle_rows_many net rng_rows ?pi X = Inr S" "shared_cols S (map (\<lambda>xs. map (\<lambda>i. xs ! mixed w i) [0..<?n]) xss)"
    using shuffle_rows_ok [OF P X n(1) _ env(1,3)] n(2) by auto
  have pos: "0 < position_of bs (mixed w i)" "position_of bs (mixed w i) \<le> ?n"
    "stable_order bs ! (position_of bs (mixed w i) - 1) = mixed w i" if "i < ?n" for i
    using position_of_ok [OF d(5) [OF that]] by simp_all
  have inj: "inj_on (\<lambda>i. position_of bs (mixed w i) - 1) {..<?n}"
  proof (rule inj_onI)
    fix i j assume ij: "i \<in> {..<?n}" "j \<in> {..<?n}" "position_of bs (mixed w i) - 1 = position_of bs (mixed w j) - 1"
    then have "mixed w i = mixed w j" using pos(3) [of i] pos(3) [of j] by simp
    then show "i = j" using inj_onD [OF d(6)] ij by blast
  qed
  then have dist: "distinct ts" by (auto simp: ts_def distinct_map inj_on_def)
  have "(\<lambda>i. position_of bs (mixed w i) - 1) ` {..<?n} \<subseteq> {..<?n}" using pos by fastforce
  then have onto: "(\<lambda>i. position_of bs (mixed w i) - 1) ` {..<?n} = {..<?n}"
    using inj by (intro card_subset_eq) (simp_all add: card_image)
  have ts: "length ts = ?n" "\<And>i. i < ?n \<Longrightarrow> ts ! i = position_of bs (mixed w i)" "\<And>t. t \<in> set ts \<Longrightarrow> 0 < t \<and> t \<le> ?n"
    using pos by (auto simp: ts_def)
  have placed: "\<exists>Rs. place_rows (map of_nat ts) (S p ! c) ?n = Inr Rs \<and> length Rs = ?n \<and> (\<forall>i < ?n. Rs ! (ts ! i - 1) = S p ! c ! i)"
    if "c < length xss" for p c
  proof -
    have "length (S p ! c) = length ts" using shared_listD(1) [OF shared_colsD(2) [OF S(2)]] that ts(1) by simp
    from place_rows_ok [OF dist this ts(3) n(3)] show ?thesis unfolding ts(1) .
  qed
  define F where "F = (\<lambda>p c. projr (place_rows (map of_nat ts) (S p ! c) ?n))"
  have F: "place_rows (map of_nat ts) (S p ! c) ?n = Inr (F p c)" "length (F p c) = ?n"
    "i < ?n \<Longrightarrow> F p c ! (ts ! i - 1) = S p ! c ! i" if "c < length xss" for p c i
    using placed [OF that, of p] by (auto simp: F_def)
  let ?Y = "\<lambda>p. map (F p) [0..<length xss]"
  have "mapE (\<lambda>shuffled. place_rows (map of_nat ts) shuffled ?n) (S p) = Inr (?Y p)" for p
    by (rule mapE_list_total) (use shared_colsD(1) [OF S(2)] F(1) in simp_all)
  then have "each_party (\<lambda>p. mapE (\<lambda>shuffled. place_rows (map of_nat ts) shuffled ?n) (S p)) = Inr ?Y" by (rule each_party_Inr)
  then have "apply_inv_many A net rng_reveal rng_rows R X = Inr ?Y"
    unfolding apply_inv_many_def Let_def lR opened S(1) bindE_simps .
  moreover have "shared_cols ?Y (map (\<lambda>xs. map ((!) xs) (stable_order bs)) xss)"
  proof -
    have "shared (\<lambda>p. F p c ! q) (xss ! c ! (stable_order bs ! q))" if c: "c < length xss" and q: "q < ?n" for c q
    proof -
      obtain i where i: "i < ?n" "position_of bs (mixed w i) - 1 = q" using onto q by (auto simp: image_iff dest: equalityD2)
      have "F p c ! q = S p ! c ! i" for p using F(3) [OF c i(1), of p] i ts(2) by simp
      moreover have "shared (\<lambda>p. S p ! c ! i) (xss ! c ! mixed w i)"
        using shared_listD(2) [OF shared_colsD(2) [OF S(2), of c], of i] c i(1) by simp
      ultimately show ?thesis using pos(3) [OF i(1)] i(2) by simp
    qed
    then show ?thesis using F(2) by (simp add: shared_cols_def shared_list_def)
  qed
  ultimately show ?thesis by blast
qed

text \<open>A row packs a flag and an address into one block.\<close>

definition packed :: "1 word \<Rightarrow> 32 word \<Rightarrow> 128 word" where
  "packed f x = ucast f OR push_bit 32 (ucast x)"

lemma packed_xor: "packed f x = ucast f XOR push_bit 32 (ucast x)"
  by (rule bit_word_eqI) (auto simp: packed_def bit_simps dest: bit_imp_le_length)

lemma pack_row_shared: "shared F f \<Longrightarrow> shared X x \<Longrightarrow> shared (\<lambda>p. pack_row (F p) (X p)) (packed f x)"
proof -
  assume h: "shared F f" "shared X x"
  have "shared (\<lambda>p. map_share (push_bit 32) (cast_share (X p))) (push_bit 32 (ucast x) :: 128 word)"
    by (rule shared_map [OF shared_cast [OF h(2)]]) (simp add: push_bit_xor)
  from shared_xor [OF shared_cast [OF h(1)] this] show ?thesis
    by (simp add: pack_row_def xor_share_def map_share_def cast_share_def flip: packed_xor packed_def)
qed

lemma unpack_row_shared:
  assumes "shared R (packed f x)"
  shows "shared (\<lambda>p. fst (unpack_row (R p))) f" and "shared (\<lambda>p. snd (unpack_row (R p))) x"
proof -
  let ?f = "\<lambda>w :: 128 word. of_bool (w AND 1 \<noteq> 0) :: 1 word"
  let ?x = "\<lambda>w :: 128 word. ucast (drop_bit 32 w AND ucast (NOT 0 :: 32 word)) :: 32 word"
  have b: "w AND 1 \<noteq> 0 \<longleftrightarrow> bit w 0" for w :: "128 word" by (simp add: bit_0 and_one_eq odd_iff_mod_2_eq_one)
  have "shared (\<lambda>p. map_share ?f (R p)) (?f (packed f x))" by (rule shared_map [OF assms]) (auto simp: b bit_xor_iff)
  moreover have "?f (packed f x) = f"
  proof -
    have "bit (packed f x) 0 = bit f 0" by (simp add: packed_def bit_simps)
    then show ?thesis using one_bit_cases [of f] by (auto simp: b)
  qed
  ultimately show "shared (\<lambda>p. fst (unpack_row (R p))) f" by (simp add: unpack_row_def map_share_def)
  have "shared (\<lambda>p. map_share ?x (R p)) (?x (packed f x))"
    by (rule shared_map [OF assms]) (rule bit_word_eqI, auto simp: bit_simps)
  moreover have "?x (packed f x) = x"
    by (rule bit_word_eqI) (auto simp: packed_def bit_simps dest: bit_imp_le_length)
  ultimately show "shared (\<lambda>p. snd (unpack_row (R p))) x" by (simp add: unpack_row_def map_share_def)
qed

lemma oblivious_sort_ok:
  fixes V :: "'v::len value_ops"
  assumes A: "arith_ok A" and V: "doram_value V blk ones" "0 < num_blocks V"
    and F: "shared_list F fs" and X: "shared_list X xs" and Y: "shared_list Y ys" and L: "shared_list L as"
    and len: "length xs = length fs" "length ys = length fs" "length as = length fs" "fs \<noteq> []" "length fs < 2 ^ 32"
    and env: "online net" "correlated rng_reveal" "correlated rng_rows"
  shows "\<exists>T. oblivious_sort A V net rng_reveal rng_rows F X Y L = Inr T \<and>
    shared_list (\<lambda>p. so_flags (T p)) (map ((!) fs) (stable_order fs)) \<and> shared_list (\<lambda>p. so_xs (T p)) (map ((!) xs) (stable_order fs)) \<and>
    shared_list (\<lambda>p. so_ys (T p)) (map ((!) ys) (stable_order fs)) \<and> shared_list (\<lambda>p. so_alibis (T p)) (map ((!) as) (stable_order fs))"
proof -
  obtain B where B: "bit_inject_many A F = Inr B" "added_list B (map ucast fs)" using arith_okD(1) [OF A F] by blast
  obtain R where R: "gen_bit_perm A B = Inr R" "added_list R (map (\<lambda>j. of_nat (position_of fs j)) [0..<length fs])"
    using gen_bit_perm_ok [OF A B(2)] by blast
  let ?cols = "\<lambda>p. map2 pack_row (F p) (X p) # to_blocks V (Y p) @ [alibi_to_blocks (L p)]"
  let ?xss = "map2 packed fs xs # map (\<lambda>j. map (blk j) ys) [0..<num_blocks V] @ [map ucast as]"
  have "shared_list (\<lambda>p. map2 pack_row (F p) (X p)) (map2 packed fs xs)"
    by (rule shared_list_map2 [OF F X]) (simp_all add: len pack_row_shared)
  then have cols: "shared_cols ?cols ?xss"
    unfolding shared_cols_Cons
    by (intro conjI shared_cols_append doram_value.to_blocks_ok [OF V(1) Y] shared_cols_single alibi_to_blocks_shared L)
  have "length ws = length fs" if "ws \<in> set ?xss" for ws using that len by auto
  from apply_inv_ok [OF A R(2) cols this len(4,5) env] obtain S where S: "apply_inv_many A net rng_reveal rng_rows R ?cols = Inr S"
    "shared_cols S (map (\<lambda>xs. map ((!) xs) (stable_order fs)) ?xss)" by blast
  let ?m = "num_blocks V" and ?ord = "stable_order fs"
  have ord: "k < length fs" if "k \<in> set ?ord" for k using that set_stable_order by auto
  have c0: "shared_list (\<lambda>p. S p ! 0) (map (\<lambda>k. packed (fs ! k) (xs ! k)) ?ord)"
    using shared_colsD(2) [OF S(2), of 0] len ord by (simp cong: map_cong)
  have flags: "shared_list (\<lambda>p. map (\<lambda>row. fst (unpack_row row)) (S p ! 0)) (map ((!) fs) ?ord)"
    and addrs: "shared_list (\<lambda>p. map (\<lambda>row. snd (unpack_row row)) (S p ! 0)) (map ((!) xs) ?ord)"
    using c0 unpack_row_shared by (fastforce simp: shared_list_def)+
  have "shared_cols (\<lambda>p. take ?m (drop 1 (S p))) (take ?m (drop 1 (map (\<lambda>xs. map ((!) xs) ?ord) ?xss)))"
    by (rule shared_cols_take [OF shared_cols_drop [OF S(2)]])
  also have "take ?m (drop 1 (map (\<lambda>xs. map ((!) xs) ?ord) ?xss)) = map (\<lambda>j. map (blk j) (map ((!) ys) ?ord)) [0..<?m]"
    using ord len by (simp add: comp_def cong: map_cong)
  finally have vals: "shared_list (\<lambda>p. from_blocks V (take ?m (drop 1 (S p)))) (map ((!) ys) ?ord)"
    using doram_value.from_blocks_ok [OF V] by blast
  have "shared_list (\<lambda>p. S p ! (?m + 1)) (map ((!) (map ucast as)) ?ord)"
    using shared_colsD(2) [OF S(2), of "?m + 1"] by (simp add: nth_append)
  then have "shared_list (\<lambda>p. S p ! (?m + 1)) (map ucast (map ((!) as) ?ord))"
    using ord len by (simp add: comp_def cong: map_cong)
  then have alis: "shared_list (\<lambda>p. alibi_from_blocks (S p ! (?m + 1))) (map ((!) as) ?ord)" by (rule alibi_from_blocks_shared)
  have g: "everywhere (\<lambda>p. length (X p) = length (F p) \<and> length (Y p) = length (F p) \<and> length (L p) = length (F p))"
    using shared_listD(1) [OF F] shared_listD(1) [OF X] shared_listD(1) [OF Y] shared_listD(1) [OF L] len by (simp add: everywhere_def)
  show ?thesis
    unfolding oblivious_sort_def checkE_True [OF g] B(1) R(1) S(1) bindE_simps using flags addrs vals alis by auto
qed


section \<open>Properties\<close>

text \<open>C8: The oblivious sort puts the rows in the order of the library's stable sort by the dummy bit,
  all columns alike: the real rows first, then the dummies, each in their order, for up to
  \<open>2 ^ 32 - 1\<close> rows and whatever permutations and masks the generators gave.\<close>

theorem oblivious_sort_stable:
  fixes V :: "'v::len value_ops"
  assumes "arith_ok A" and "doram_value V blk ones" and "0 < num_blocks V"
    and "shared_list F fs" and "shared_list X xs" and "shared_list Y ys" and "shared_list L as"
    and "length xs = length fs" and "length ys = length fs" and "length as = length fs" and "fs \<noteq> []" and "length fs < 2 ^ 32"
    and "online net" and "correlated rng_reveal" and "correlated rng_rows"
  shows "\<exists>T. oblivious_sort A V net rng_reveal rng_rows F X Y L = Inr T \<and>
    shared_list (\<lambda>p. so_flags (T p)) (map ((!) fs) (sort_key (\<lambda>j. unat (fs ! j)) [0..<length fs])) \<and>
    shared_list (\<lambda>p. so_xs (T p)) (map ((!) xs) (sort_key (\<lambda>j. unat (fs ! j)) [0..<length fs])) \<and>
    shared_list (\<lambda>p. so_ys (T p)) (map ((!) ys) (sort_key (\<lambda>j. unat (fs ! j)) [0..<length fs])) \<and>
    shared_list (\<lambda>p. so_alibis (T p)) (map ((!) as) (sort_key (\<lambda>j. unat (fs ! j)) [0..<length fs]))"
  using oblivious_sort_ok [OF assms] by (simp only: stable_order_sort)

text \<open>One way to meet \<open>arith_ok\<close>: the products unmasked, the bits of the first party's sharing in clear.\<close>

definition plain_arith :: arith_ops where
  "plain_arith = \<lparr>
     bit_inject_many = (\<lambda>B. Inr (\<lambda>p. map (\<lambda>i. promote_public p
       (ucast (sh_a (B ID0 ! i) XOR sh_a (B ID1 ! i) XOR sh_a (B ID2 ! i)))) [0..<length (B ID0)])),
     add_public = (\<lambda>p s v. add_share s (promote_public p v)),
     local_mul_vec = (\<lambda>n p xs ys. map2 (\<lambda>s t. sh_a s * sh_a t + sh_a s * sh_b t + sh_b s * sh_a t) xs ys),
     reshare_vec = (\<lambda>L. Inr (\<lambda>p. map2 mk_share (L p) (L (prev_party p)))),
     random_perm = (\<lambda>p ws. (rev ws, rev ws))\<rparr>"

lemma plain_arith_ok: "arith_ok plain_arith"
proof -
  have pub: "added (\<lambda>p. promote_public p v) v" for v by (simp add: added_def all_party zero_share_def)
  have mul: "(sh_a (S ID0) * sh_a (T ID0) + sh_a (S ID0) * sh_b (T ID0) + sh_b (S ID0) * sh_a (T ID0)) +
      (sh_a (S ID1) * sh_a (T ID1) + sh_a (S ID1) * sh_b (T ID1) + sh_b (S ID1) * sh_a (T ID1)) +
      (sh_a (S ID2) * sh_a (T ID2) + sh_a (S ID2) * sh_b (T ID2) + sh_b (S ID2) * sh_a (T ID2)) = x * y"
    if "added S x" "added T y" for S T x y using that by (simp add: added_def algebra_simps)
  have inj: "added_list (\<lambda>p. map (\<lambda>i. promote_public p (ucast (sh_a (B ID0 ! i) XOR sh_a (B ID1 ! i) XOR sh_a (B ID2 ! i)))) [0..<length (B ID0)])
      (map ucast bs)" if "shared_list B bs" for B and bs :: "1 word list"
    using shared_listD [OF that] pub by (simp add: added_list_def shared_def)
  have muls: "(\<forall>p. length (local_mul_vec plain_arith n p (S p) (T p)) = length xs) \<and> (\<forall>i < length xs.
      local_mul_vec plain_arith n ID0 (S ID0) (T ID0) ! i + local_mul_vec plain_arith n ID1 (S ID1) (T ID1) ! i +
      local_mul_vec plain_arith n ID2 (S ID2) (T ID2) ! i = xs ! i * ys ! i)"
    if "added_list S xs" "added_list T ys" "length xs = length ys" for n S T xs ys
    using that(3) added_listD(1) [OF that(1)] added_listD(1) [OF that(2)]
      mul [OF added_listD(2) [OF that(1)] added_listD(2) [OF that(2)]] by (simp add: plain_arith_def)
  have res: "\<exists>S. reshare_vec plain_arith L = Inr S \<and> added_list S xs"
    if "\<And>p. length (L p) = length xs" "\<And>i. i < length xs \<Longrightarrow> L ID0 ! i + L ID1 ! i + L ID2 ! i = xs ! i" for L xs
    using that by (simp add: plain_arith_def added_list_def added_def)
  have bi: "\<exists>S. bit_inject_many plain_arith B = Inr S \<and> added_list S (map ucast bs)" if "shared_list B bs" for B bs
    using inj [OF that] by (simp add: plain_arith_def)
  have ap: "added (\<lambda>p. add_public plain_arith p (S p) v) (x + v)" if "added S x" for S x v
    using added_ops(1) [OF that pub] by (simp add: plain_arith_def)
  have rp: "snd (random_perm plain_arith p ws) = fst (random_perm plain_arith (prev_party p) ws) \<and>
      mset (fst (random_perm plain_arith p ws)) = mset ws" for p ws by (simp add: plain_arith_def)
  show ?thesis
    unfolding arith_ok_def
  proof (intro conjI allI impI)
    show "snd (random_perm plain_arith p ws) = fst (random_perm plain_arith (prev_party p) ws)"
      "mset (fst (random_perm plain_arith p ws)) = mset ws" for p ws using rp by blast+
    show "\<exists>S. bit_inject_many plain_arith B = Inr S \<and> added_list S (map ucast bs)" if "shared_list B bs" for B bs
      by (rule bi [OF that])
    show "added (\<lambda>p. add_public plain_arith p (S p) v) (x + v)" if "added S x" for S x v by (rule ap [OF that])
    show "length (local_mul_vec plain_arith n p (S p) (T p)) = length xs"
      if "added_list S xs" "added_list T ys" "length xs = length ys" for n p S T xs ys
      using muls [OF that] by blast
    show "local_mul_vec plain_arith n ID0 (S ID0) (T ID0) ! i + local_mul_vec plain_arith n ID1 (S ID1) (T ID1) ! i +
        local_mul_vec plain_arith n ID2 (S ID2) (T ID2) ! i = xs ! i * ys ! i"
      if "added_list S xs" "added_list T ys" "length xs = length ys" "i < length xs" for n S T xs ys i
      using muls [OF that(1-3)] that(4) by blast
    show "\<exists>S. reshare_vec plain_arith L = Inr S \<and> added_list S xs"
      if "\<forall>p. length (L p) = length xs" "\<forall>i < length xs. L ID0 ! i + L ID1 ! i + L ID2 ! i = xs ! i" for L xs
      by (rule res) (use that in simp_all)
  qed
qed

theorem oblivious_sort_stable_witness:
  "\<exists>T. oblivious_sort plain_arith (ring_value :: 32 value_ops) all_online zero_rng zero_rng (\<lambda>p. promote_public_values p [1, 0, 1, 0])
      (\<lambda>p. promote_public_values p [64, 3, 65, 5]) (\<lambda>p. promote_public_values p [0, 30, 0, 50])
      (\<lambda>p. promote_public_values p [0, 1, 0, 2]) = Inr T \<and>
    shared_list (\<lambda>p. so_xs (T p)) [3, 5, 64, 65] \<and> shared_list (\<lambda>p. so_ys (T p)) [30, 50, 0, 0]"
proof -
  let ?fs = "[1, 0, 1, 0] :: 1 word list"
  have "sort_key (\<lambda>j. unat (?fs ! j)) [0..<length ?fs] = [1, 3, 0, 2]" by (simp add: upt_rec nth_Cons')
  with oblivious_sort_stable [OF plain_arith_ok u32_value.doram_value_axioms _ promote_public_values_shared [of ?fs]
      promote_public_values_shared [of "[64, 3, 65, 5]"] promote_public_values_shared [of "[0, 30, 0, 50]"]
      promote_public_values_shared [of "[0, 1, 0, 2]"] _ _ _ _ _ concrete_environment concrete_environment(2)]
  show ?thesis by (auto simp: ring_value_def)
qed

end
