(* ===== verification/Bottom_Level.thy ===== *)
theory Bottom_Level
  imports Schedule Oblivious_Sort Oht_Stages
begin

text \<open>
  Finalising the bottom level on shares, \<open>relabel_dummies\<close>, \<open>cleanse_bottom_level\<close> and
  \<open>finalize_bottom_level\<close> of \<open>crates/doram/src/lib.rs\<close>: the rows of a rebuild into the last level are padded to a power of two,
  sorted by the dummy bit of their addresses and cut to one row per address; the dummies that are left
  get fresh labels. With an initial bottom level the rows are shuffled, their
  dummy bits opened and the real rows kept.
\<close>

unbundle bit_operations_syntax

section \<open>The code\<close>

definition relabel_dummies :: "(32 shares \<Rightarrow> 32 shares \<Rightarrow> 32 shares res) \<Rightarrow> doram_config \<Rightarrow> 32 shares \<Rightarrow> 32 shares res" where
  "relabel_dummies and_vec c xs =
     bindE (each_party (\<lambda>p. mapE (\<lambda>i. bindE (dummy_label c i) (\<lambda>label. Inr (promote_public p label))) [0..<length (xs p)])) (\<lambda>replacements.
       replace_if_dummy_circuit and_vec xs replacements (log_address_space_size c))"

definition open_real_rows :: "network \<Rightarrow> nat \<Rightarrow> 1 shares \<Rightarrow> 32 shares \<Rightarrow> (party \<Rightarrow> 'v::len dr_record list) \<Rightarrow>
    (32 shares \<times> (party \<Rightarrow> 'v dr_record list)) res" where
  "open_real_rows net bottom dummy_flags xs ys =
     checkE (everywhere (\<lambda>p. bottom \<le> length (xs p)))
       (Report ''initial bottom cleanse needs enough extracted entries for the bottom level'')
     (bindE (open_many net dummy_flags) (\<lambda>flags.
       let cleansed_xs = \<lambda>p. map (fst \<circ> fst) (filter (\<lambda>(row, is_dummy). is_dummy = 0) (zip (zip (xs p) (ys p)) (flags p)));
           cleansed_ys = \<lambda>p. map (snd \<circ> fst) (filter (\<lambda>(row, is_dummy). is_dummy = 0) (zip (zip (xs p) (ys p)) (flags p)))
       in checkE (everywhere (\<lambda>p. length (cleansed_xs p) = bottom))
            (Report ''initial bottom cleanse found wrong number of real entries'') (Inr (cleansed_xs, cleansed_ys))))"

definition cleanse_bottom_level ::
    "arith_ops \<Rightarrow> 'v::len value_ops \<Rightarrow> network \<Rightarrow> rngs \<Rightarrow> rngs \<Rightarrow> (32 shares \<Rightarrow> 32 shares \<Rightarrow> 32 shares res) \<Rightarrow>
     doram_config \<Rightarrow> bool \<Rightarrow> 32 shares \<Rightarrow> (party \<Rightarrow> 'v dr_record list) \<Rightarrow> (32 shares \<times> (party \<Rightarrow> 'v dr_record list)) res" where
  "cleanse_bottom_level A V net rng_reveal rng_rows and_vec c had_initial xs ys =
     checkE (everywhere (\<lambda>p. length (xs p) = length (ys p))) (Report ''bottom cleanse received mismatched x/y lengths'')
     (bindE (bottom_num_elements c) (\<lambda>bottom.
      let log_n = log_address_space_size c;
          dummy_flags = \<lambda>p. map (\<lambda>x. get_bit_share x log_n) (xs p)
      in if had_initial then open_real_rows net bottom dummy_flags xs ys
         else let sort_len = next_power_of_two (length (xs ID0));
                  pad = \<lambda>p. sort_len - length (xs p)
              in bindE (oblivious_sort A V net rng_reveal rng_rows
                   (\<lambda>p. dummy_flags p @ replicate (pad p) (promote_public p 1))
                   (\<lambda>p. xs p @ replicate (pad p) (dummy_x p log_n))
                   (\<lambda>p. get_y_values (ys p) @ replicate (pad p) zero_share)
                   (\<lambda>p. get_alibis (ys p) @ replicate (pad p) zero_share)) (\<lambda>sorted.
                 bindE (relabel_dummies and_vec c (\<lambda>p. take bottom (so_xs (sorted p)))) (\<lambda>xs.
                   Inr (xs, \<lambda>p. from_columns (take bottom (so_ys (sorted p))) (take bottom (so_alibis (sorted p))))))))"

text \<open>With an initial level the rows are first shuffled, one column after the other by one shuffler.\<close>

definition shuffle_columns :: "(party \<Rightarrow> array_shuffler) \<Rightarrow> network \<Rightarrow> rngs \<Rightarrow> nat \<Rightarrow> 128 columns \<Rightarrow> 128 columns res" where
  "shuffle_columns sh net rng len cols =
     bindE (mapE (\<lambda>j. forward_one sh (\<lambda>p. cols p ! j) net (skip_draws (3 * len * j) rng)) [0..<length (cols ID0)])
       (\<lambda>cols. Inr (\<lambda>p. map (\<lambda>col. col p) cols))"

definition finalize_bottom_level ::
    "arith_ops \<Rightarrow> 'v::len value_ops \<Rightarrow> network \<Rightarrow> rngs \<Rightarrow> rngs \<Rightarrow> rngs \<Rightarrow> (32 shares \<Rightarrow> 32 shares \<Rightarrow> 32 shares res) \<Rightarrow>
     doram_config \<Rightarrow> bool \<Rightarrow> 32 shares \<Rightarrow> (party \<Rightarrow> 'v dr_record list) \<Rightarrow> (32 shares \<times> (party \<Rightarrow> 'v dr_record list)) res" where
  "finalize_bottom_level A V net rng rng_reveal rng_rows and_vec c had_initial xs ys =
     (if had_initial then
        let len = length (xs ID0);
            value_blocks = \<lambda>p. to_blocks V (get_y_values (ys p));
            y_alibi = \<lambda>p. alibi_to_blocks (get_alibis (ys p))
        in bindE (new_shufflers rng len) (\<lambda>(sh, rng1).
           bindE (forward_one sh xs net rng1) (\<lambda>xs.
           bindE (shuffle_columns sh net (skip_draws (3 * len) rng1) len value_blocks) (\<lambda>blocks.
           bindE (forward_one sh y_alibi net (skip_draws (3 * len * (1 + length (value_blocks ID0))) rng1)) (\<lambda>alibi.
             cleanse_bottom_level A V net rng_reveal rng_rows and_vec c had_initial xs
               (\<lambda>p. from_columns (from_blocks V (blocks p)) (alibi_from_blocks (alibi p)))))))
      else cleanse_bottom_level A V net rng_reveal rng_rows and_vec c had_initial xs ys)"

section \<open>What is left of the rows\<close>

definition is_real_row :: "nat \<Rightarrow> 32 word \<times> 'v clear_record \<Rightarrow> bool" where
  "is_real_row log_n row \<longleftrightarrow> \<not> bit (fst row) log_n"

definition padded_rows :: "nat \<Rightarrow> (32 word \<times> 'v::len clear_record) list \<Rightarrow> (32 word \<times> 'v clear_record) list" where
  "padded_rows log_n rows = rows @ replicate (next_power_of_two (length rows) - length rows) (push_bit log_n 1, (0, 0))"

text \<open>The real rows in their order, then the dummies, cut to the number of addresses.\<close>

definition cleansed_rows :: "nat \<Rightarrow> (32 word \<times> 'v::len clear_record) list \<Rightarrow> (32 word \<times> 'v clear_record) list" where
  "cleansed_rows log_n rows = take (2 ^ log_n) (filter (is_real_row log_n) (padded_rows log_n rows) @
     filter (\<lambda>row. \<not> is_real_row log_n row) (padded_rows log_n rows))"

lemma map_nth_filter: "map ((!) zs) (filter (\<lambda>j. P (zs ! j)) [0..<length zs]) = filter P zs"
proof -
  have "filter P zs = filter P (map ((!) zs) [0..<length zs])" by (simp add: map_nth)
  then show ?thesis by (simp add: filter_map comp_def)
qed

lemma stable_order_rows:
  "map ((!) zs) (stable_order (map (\<lambda>row. of_bool (Q row)) zs)) = filter (\<lambda>row. \<not> Q row) zs @ filter Q zs"
proof -
  have e: "filter (\<lambda>j. map (\<lambda>row. of_bool (Q row) :: 1 word) zs ! j = 0) [0..<length zs] = filter (\<lambda>j. \<not> Q (zs ! j)) [0..<length zs]"
    "filter (\<lambda>j. map (\<lambda>row. of_bool (Q row) :: 1 word) zs ! j \<noteq> 0) [0..<length zs] = filter (\<lambda>j. Q (zs ! j)) [0..<length zs]"
    by (rule filter_cong; simp)+
  show ?thesis
    using map_nth_filter [of zs "\<lambda>row. \<not> Q row"] map_nth_filter [of zs Q] by (simp only: stable_order_def length_map map_append e)
qed

lemma relabel_dummies_ok:
  assumes "and_protocol and_vec True" and c: "valid_config c" and X: "shared_list X xs" and len: "length xs \<le> 2 ^ log_address_space_size c"
  shows "\<exists>Y. relabel_dummies and_vec c X = Inr Y \<and> shared_list Y
    (map (\<lambda>i. if bit (xs ! i) (log_address_space_size c) then of_nat (2 ^ log_address_space_size c + i) else xs ! i) [0..<length xs])"
proof -
  let ?N = "log_address_space_size c" and ?lab = "\<lambda>i. of_nat (2 ^ log_address_space_size c + i) :: 32 word"
  have l: "length (X p) = length xs" for p using shared_listD(1) [OF X] .
  have "mapE (\<lambda>i. bindE (dummy_label c i) (\<lambda>label. Inr (promote_public p label))) [0..<length xs] = Inr (map (\<lambda>i. promote_public p (?lab i)) [0..<length xs])" for p
    using len by (intro mapE_total) (simp add: dummy_label_ok [OF c])
  then have r: "each_party (\<lambda>p. mapE (\<lambda>i. bindE (dummy_label c i) (\<lambda>label. Inr (promote_public p label))) [0..<length (X p)]) =
      Inr (\<lambda>p. map (\<lambda>i. promote_public p (?lab i)) [0..<length xs])" unfolding l by (rule each_party_Inr)
  have "shared_list (\<lambda>p. map (\<lambda>i. promote_public p (?lab i)) [0..<length xs]) (map ?lab [0..<length xs])"
    by (rule shared_listI) auto
  from replace_if_dummy_circuit_correct [OF assms(1) X this, of ?N]
  obtain Y where Y: "replace_if_dummy_circuit and_vec X (\<lambda>p. map (\<lambda>i. promote_public p (?lab i)) [0..<length xs]) ?N = Inr Y"
    "shared_list Y (map2 (replaced ?N) xs (map ?lab [0..<length xs]))" by auto
  have "map2 (replaced ?N) xs (map ?lab [0..<length xs]) = map (\<lambda>i. if bit (xs ! i) ?N then ?lab i else xs ! i) [0..<length xs]"
    by (rule nth_equalityI) (simp_all add: replaced_def)
  then show ?thesis using Y by (simp add: relabel_dummies_def r)
qed


lemma next_power_of_two_pos: "0 < next_power_of_two n"
  by (simp add: next_power_of_two_def)

lemma real_rows_padded:
  assumes "log_n < 32"
  shows "filter (is_real_row log_n) (padded_rows log_n rows) = filter (is_real_row log_n) rows"
  using assms by (simp add: padded_rows_def is_real_row_def bit_simps)

lemma real_rows_kept:
  assumes "log_n < 32"
  shows "filter (is_real_row log_n) (cleansed_rows log_n rows) = take (2 ^ log_n) (filter (is_real_row log_n) rows)"
proof -
  have none: "filter (is_real_row log_n) (take k (filter (\<lambda>row. \<not> is_real_row log_n row) zs)) = []" for k zs
    by (auto simp: filter_empty_conv dest: in_set_takeD)
  have all: "filter (is_real_row log_n) (take k (filter (is_real_row log_n) zs)) = take k (filter (is_real_row log_n) zs)" for k zs
    by (auto simp: filter_id_conv dest: in_set_takeD)
  show ?thesis by (simp add: cleansed_rows_def real_rows_padded [OF assms] none all)
qed

lemma dummy_bits_shared:
  "shared_list X xs \<Longrightarrow> shared_list (\<lambda>p. map (\<lambda>x. get_bit_share x n) (X p)) (map (\<lambda>x. of_bool (bit x n)) xs)"
  by (erule shared_list_map) (rule shared_get_bit)

lemma cleanse_sorted_ok:
  fixes V :: "'v::len value_ops"
  assumes A: "arith_ok A" and V: "doram_value V blk ones" "0 < num_blocks V" and ands: "and_protocol and_vec True"
    and c: "valid_config c" and X: "shared_list X xs" and Y: "shared_records Y ys" and len: "length xs = length ys"
    and small: "next_power_of_two (length xs) < 2 ^ 32"
    and env: "online net" "correlated rng_reveal" "correlated rng_rows"
  defines "n \<equiv> log_address_space_size c"
  defines "out \<equiv> cleansed_rows n (zip xs ys)"
  shows "\<exists>X' Y'. cleanse_bottom_level A V net rng_reveal rng_rows and_vec c False X Y = Inr (X', Y') \<and>
    shared_list X' (map (\<lambda>i. if is_real_row n (out ! i) then fst (out ! i) else of_nat (2 ^ n + i)) [0..<length out]) \<and>
    shared_records Y' (map snd out)"
proof -
  have n: "n < 32" using c by (simp add: n_def valid_config_def)
  let ?rows = "padded_rows n (zip xs ys)" and ?m = "next_power_of_two (length xs)"
  let ?pad = "?m - length xs"
  let ?fs = "map (\<lambda>row. of_bool (bit (fst row) n) :: 1 word) ?rows"
  have lX: "length (X p) = length xs" and lY: "length (Y p) = length xs" for p
    using shared_listD(1) [OF X] shared_recordsD(1) [OF Y] len by simp_all
  have lrows: "length ?rows = ?m" using next_power_of_two_ge [of "length xs"] len by (simp add: padded_rows_def)
  have cols: "map fst ?rows = xs @ replicate ?pad (push_bit n 1)" "map (fst \<circ> snd) ?rows = map fst ys @ replicate ?pad 0"
    "map (snd \<circ> snd) ?rows = map snd ys @ replicate ?pad 0"
    using len by (simp_all add: padded_rows_def flip: map_map)
  have "?fs = map (\<lambda>x. of_bool (bit x n)) (map fst ?rows)" by simp
  then have fs: "?fs = map (\<lambda>x. of_bool (bit x n)) xs @ replicate ?pad 1"
    unfolding cols using n by (simp add: bit_simps)
  have F: "shared_list (\<lambda>p. map (\<lambda>x. get_bit_share x n) (X p) @ replicate ?pad (promote_public p 1)) ?fs"
    unfolding fs by (intro shared_list_append dummy_bits_shared [OF X] shared_list_replicate shared_promote_public)
  have XP: "shared_list (\<lambda>p. X p @ replicate ?pad (dummy_x p n)) (map fst ?rows)"
    unfolding cols by (intro shared_list_append X shared_list_replicate shared_dummy_x)
  have YP: "shared_list (\<lambda>p. get_y_values (Y p) @ replicate ?pad zero_share) (map (fst \<circ> snd) ?rows)"
    "shared_list (\<lambda>p. get_alibis (Y p) @ replicate ?pad zero_share) (map (snd \<circ> snd) ?rows)"
    unfolding cols using conjunct1 [OF Y [unfolded shared_records_columns]] conjunct2 [OF Y [unfolded shared_records_columns]]
    by (auto intro!: shared_list_append shared_list_replicate shared_zero)
  have lf: "length ?fs = ?m" "?fs \<noteq> []" using lrows next_power_of_two_pos [of "length xs"] by (simp, fastforce)
  let ?ord = "stable_order ?fs"
  obtain T where T: "oblivious_sort A V net rng_reveal rng_rows
      (\<lambda>p. map (\<lambda>x. get_bit_share x n) (X p) @ replicate ?pad (promote_public p 1)) (\<lambda>p. X p @ replicate ?pad (dummy_x p n))
      (\<lambda>p. get_y_values (Y p) @ replicate ?pad zero_share) (\<lambda>p. get_alibis (Y p) @ replicate ?pad zero_share) = Inr T"
    "shared_list (\<lambda>p. so_xs (T p)) (map ((!) (map fst ?rows)) ?ord)"
    "shared_list (\<lambda>p. so_ys (T p)) (map ((!) (map (fst \<circ> snd) ?rows)) ?ord)"
    "shared_list (\<lambda>p. so_alibis (T p)) (map ((!) (map (snd \<circ> snd) ?rows)) ?ord)"
    using oblivious_sort_ok [OF A V F XP YP _ _ _ lf(2) _ env] lrows small by auto
  have "k < length ?rows" if "k \<in> set ?ord" for k using that set_stable_order [of ?fs] by auto
  then have pick: "map ((!) (map f ?rows)) ?ord = map f (map ((!) ?rows) ?ord)" for f :: "_ \<Rightarrow> 'b" by simp
  have sorted: "map ((!) ?rows) ?ord = filter (is_real_row n) ?rows @ filter (\<lambda>row. \<not> is_real_row n row) ?rows"
    using stable_order_rows [of ?rows "\<lambda>row. bit (fst row) n"] by (simp add: is_real_row_def [abs_def])
  have out: "take (2 ^ n) (map ((!) (map f ?rows)) ?ord) = map f out" for f :: "_ \<Rightarrow> 'b"
    unfolding pick sorted by (simp only: out_def cleansed_rows_def take_map)
  have TX: "shared_list (\<lambda>p. take (2 ^ n) (so_xs (T p))) (map fst out)" using shared_list_take [OF T(2), of "2 ^ n"] unfolding out .
  have TY: "shared_list (\<lambda>p. take (2 ^ n) (so_ys (T p))) (map fst (map snd out))"
    using shared_list_take [OF T(3), of "2 ^ n"] unfolding out by simp
  have TL: "shared_list (\<lambda>p. take (2 ^ n) (so_alibis (T p))) (map snd (map snd out))"
    using shared_list_take [OF T(4), of "2 ^ n"] unfolding out by simp
  have "length (map fst out) \<le> 2 ^ log_address_space_size c" by (simp add: out_def cleansed_rows_def n_def)
  from relabel_dummies_ok [OF ands c TX this] obtain X' where X': "relabel_dummies and_vec c (\<lambda>p. take (2 ^ n) (so_xs (T p))) = Inr X'"
    "shared_list X' (map (\<lambda>i. if bit (map fst out ! i) n then of_nat (2 ^ n + i) else map fst out ! i) [0..<length (map fst out)])"
    unfolding n_def by blast
  have "map (\<lambda>i. if bit (map fst out ! i) n then of_nat (2 ^ n + i) else map fst out ! i) [0..<length (map fst out)] =
      map (\<lambda>i. if is_real_row n (out ! i) then fst (out ! i) else of_nat (2 ^ n + i)) [0..<length out]"
    by (intro map_cong) (auto simp: is_real_row_def)
  note X'' = X'(2) [unfolded this]
  have g: "everywhere (\<lambda>p. length (X p) = length (Y p))" using lX lY by (simp add: everywhere_def)
  show ?thesis
    unfolding cleanse_bottom_level_def checkE_True [OF g] bottom_num_elements_ok [OF c] bindE_simps Let_def if_False n_def [symmetric]
    unfolding lX T(1) X'(1) bindE_simps
    using X'' from_columns_shared [OF TY TL] by blast
qed


lemma cleanse_initial_ok:
  fixes V :: "'v::len value_ops"
  assumes c: "valid_config c" and X: "shared_list X xs" and Y: "shared_records Y ys" and len: "length xs = length ys"
    and net: "online net"
  defines "n \<equiv> log_address_space_size c"
  defines "reals \<equiv> filter (is_real_row n) (zip xs ys)"
  shows "length reals = 2 ^ n \<Longrightarrow> \<exists>X' Y'. cleanse_bottom_level A V net rng_reveal rng_rows and_vec c True X Y = Inr (X', Y') \<and>
      shared_list X' (map fst reals) \<and> shared_records Y' (map snd reals)"
    and "length reals \<noteq> 2 ^ n \<Longrightarrow> \<exists>msg. cleanse_bottom_level A V net rng_reveal rng_rows and_vec c True X Y = Inl (Report msg)"
proof -
  let ?flags = "map (\<lambda>x. of_bool (bit x n) :: 1 word) xs"
  let ?js = "filter (\<lambda>j. \<not> bit (xs ! j) n) [0..<length xs]"
  have lX: "length (X p) = length xs" and lY: "length (Y p) = length xs" for p
    using shared_listD(1) [OF X] shared_recordsD(1) [OF Y] len by simp_all
  have opened: "open_many net (\<lambda>p. map (\<lambda>x. get_bit_share x n) (X p)) = Inr (\<lambda>p. ?flags)"
    by (rule open_many_correct [OF dummy_bits_shared [OF X] net])
  have rows: "filter (\<lambda>(row, is_dummy). is_dummy = 0) (zip (zip as bs) ?flags) = map (\<lambda>j. ((as ! j, bs ! j), ?flags ! j)) ?js"
    if "length as = length xs" "length bs = length xs" for as :: "'x list" and bs :: "'y list"
  proof -
    have "zip (zip as bs) ?flags = map (\<lambda>j. ((as ! j, bs ! j), ?flags ! j)) [0..<length xs]"
      using that by (intro nth_equalityI) simp_all
    moreover have "filter (\<lambda>j. ?flags ! j = 0) [0..<length xs] = ?js" by (rule filter_cong) simp_all
    ultimately show ?thesis by (simp add: filter_map comp_def)
  qed
  let ?X = "\<lambda>p. map ((!) (X p)) ?js" and ?Y = "\<lambda>p. map ((!) (Y p)) ?js"
  have cX: "map (fst \<circ> fst) (filter (\<lambda>(row, is_dummy). is_dummy = 0) (zip (zip (X p) (Y p)) ?flags)) = ?X p"
    and cY: "map (snd \<circ> fst) (filter (\<lambda>(row, is_dummy). is_dummy = 0) (zip (zip (X p) (Y p)) ?flags)) = ?Y p" for p
    by (simp_all add: rows [OF lX lY])
  have "zip xs ys = map (\<lambda>j. (xs ! j, ys ! j)) [0..<length xs]" using len by (intro nth_equalityI) simp_all
  then have reals: "reals = map (\<lambda>j. (xs ! j, ys ! j)) ?js" by (simp add: reals_def filter_map comp_def is_real_row_def)
  have in_range: "\<forall>j \<in> set ?js. j < length xs" by simp
  have sX: "shared_list ?X (map fst reals)" using shared_list_pick [OF X in_range] by (simp add: reals comp_def)
  have sY: "shared_records ?Y (map snd reals)" using shared_records_pick [OF Y] in_range len by (simp add: reals comp_def)
  have lj: "length ?js = length reals" by (simp only: reals length_map)
  have g: "everywhere (\<lambda>p. length (X p) = length (Y p))" using lX lY by (simp add: everywhere_def)
  have run: "cleanse_bottom_level A V net rng_reveal rng_rows and_vec c True X Y =
      checkE (everywhere (\<lambda>p. 2 ^ n \<le> length (X p)))
        (Report ''initial bottom cleanse needs enough extracted entries for the bottom level'')
        (checkE (everywhere (\<lambda>p. length (?X p) = 2 ^ n))
          (Report ''initial bottom cleanse found wrong number of real entries'') (Inr (?X, ?Y)))"
    unfolding cleanse_bottom_level_def checkE_True [OF g] bottom_num_elements_ok [OF c] bindE_simps Let_def if_True n_def [symmetric]
      open_real_rows_def opened cX cY ..
  show "\<exists>X' Y'. cleanse_bottom_level A V net rng_reveal rng_rows and_vec c True X Y = Inr (X', Y') \<and>
      shared_list X' (map fst reals) \<and> shared_records Y' (map snd reals)" if h: "length reals = 2 ^ n"
  proof -
    have "length reals \<le> length xs" using length_filter_le [of _ "zip xs ys"] len by (simp add: reals_def)
    then have "everywhere (\<lambda>p. 2 ^ n \<le> length (X p))" "everywhere (\<lambda>p. length (?X p) = 2 ^ n)"
      using h lX lj unfolding everywhere_def length_map by simp_all
    then show ?thesis unfolding run using sX sY by (intro exI conjI) (simp_all only: checkE_True)
  qed
  show "\<exists>msg. cleanse_bottom_level A V net rng_reveal rng_rows and_vec c True X Y = Inl (Report msg)" if "length reals \<noteq> 2 ^ n"
  proof -
    have "\<not> everywhere (\<lambda>p. length (?X p) = 2 ^ n)" using that lj unfolding everywhere_def length_map by simp
    then show ?thesis unfolding run checkE_def by (cases "everywhere (\<lambda>p. 2 ^ n \<le> length (X p))") simp_all
  qed
qed


section \<open>The shuffle before\<close>

lemma forward_one_ok:
  assumes ag: "agreed sh perm n" and env: "online net" "correlated rng" and S: "shared_list S xs" "length xs = n"
  shows "\<exists>T. forward_one sh S net rng = Inr T \<and> shared_list T (shuffled_by perm xs)"
proof -
  obtain F I where F: "shuffle_many sh (\<lambda>p. [S p]) (\<lambda>p. []) net rng = Inr (F, I)" "shared_cols F [shuffled_by perm xs]"
    using shuffle_many_correct [OF ag env shared_cols_single [OF S(1)], of "\<lambda>p. []" "[]"] S(2) by auto
  then obtain T where "F = (\<lambda>p. [T p])" "shared_list T (shuffled_by perm xs)" by (auto simp: shared_cols_empty elim!: shared_cols_ConsE)
  then show ?thesis using F(1) by (simp add: forward_one_def forward_many_def)
qed

lemma shuffle_columns_ok:
  assumes ag: "agreed sh perm n" and env: "online net" "correlated rng" and C: "shared_cols C xss" and n: "\<forall>xs \<in> set xss. length xs = n"
  shows "\<exists>D. shuffle_columns sh net rng n C = Inr D \<and> shared_cols D (map (shuffled_by perm) xss)"
proof -
  have "\<exists>T. forward_one sh (\<lambda>p. C p ! j) net (skip_draws (3 * n * j) rng) = Inr T \<and> shared_list T (shuffled_by perm (xss ! j))"
    if "j < length xss" for j
    using forward_one_ok [OF ag env(1) correlated_skip [OF env(2)] shared_colsD(2) [OF C that]] n that by simp
  then obtain T where T: "\<And>j. j < length xss \<Longrightarrow> forward_one sh (\<lambda>p. C p ! j) net (skip_draws (3 * n * j) rng) = Inr (T j)"
    "\<And>j. j < length xss \<Longrightarrow> shared_list (T j) (shuffled_by perm (xss ! j))" by metis
  have "mapE (\<lambda>j. forward_one sh (\<lambda>p. C p ! j) net (skip_draws (3 * n * j) rng)) [0..<length (C ID0)] = Inr (map T [0..<length xss])"
    unfolding shared_colsD(1) [OF C] by (rule mapE_total) (simp add: T(1))
  then show ?thesis using T(2) by (simp add: shuffle_columns_def shared_cols_def comp_def)
qed

lemma finalize_shuffles:
  fixes V :: "'v::len value_ops"
  assumes V: "doram_value V blk ones" "0 < num_blocks V" and X: "shared_list X xs" and Y: "shared_records Y ys" and len: "length xs = length ys"
    and env: "online net" "correlated rng" "never_rejected rng (length xs)"
  shows "\<exists>rows X' Y'. mset rows = mset (zip xs ys) \<and> shared_list X' (map fst rows) \<and> shared_records Y' (map snd rows) \<and>
    finalize_bottom_level A V net rng rng_reveal rng_rows and_vec c True X Y = cleanse_bottom_level A V net rng_reveal rng_rows and_vec c True X' Y'"
proof -
  let ?n = "length xs" and ?rows = "zip xs ys"
  have cols: "map fst ?rows = xs" "map snd ?rows = ys" using len by simp_all
  obtain sh perm where sh: "new_shufflers rng ?n = Inr (sh, skip_draws (?n - 1) rng)" "agreed sh perm ?n"
    using new_shufflers_ok [OF env(2,3)] by blast
  note perms = valid_perms_agreed [OF sh(2)]
  have move: "shuffled_by perm (map f ?rows) = map f (shuffled_by perm ?rows)" for f :: "32 word \<times> 'v clear_record \<Rightarrow> 'c"
    by (rule shuffled_by_map [OF perms]) (simp add: len)
  have v: "shared_list (\<lambda>p. get_y_values (Y p)) (map fst ys)" and a: "shared_list (\<lambda>p. get_alibis (Y p)) (map snd ys)"
    using Y by (simp_all add: shared_records_columns)
  note skip = correlated_skip [OF env(2)] and skip2 = correlated_skip [OF correlated_skip [OF env(2)]]
  obtain X' where X': "forward_one sh X net (skip_draws (?n - 1) rng) = Inr X'" "shared_list X' (map fst (shuffled_by perm ?rows))"
    using forward_one_ok [OF sh(2) env(1) skip X refl] move [of fst] unfolding cols by metis
  let ?blocks = "map (\<lambda>j. map (blk j) (map fst ys)) [0..<num_blocks V]"
  obtain B where B: "shuffle_columns sh net (skip_draws (3 * ?n) (skip_draws (?n - 1) rng)) ?n (\<lambda>p. to_blocks V (get_y_values (Y p))) = Inr B"
    "shared_cols B (map (shuffled_by perm) ?blocks)"
    using shuffle_columns_ok [OF sh(2) env(1) skip2 doram_value.to_blocks_ok [OF V(1) v]] len by auto
  obtain L where L: "forward_one sh (\<lambda>p. alibi_to_blocks (get_alibis (Y p))) net
      (skip_draws (3 * ?n * (1 + length (to_blocks V (get_y_values (Y ID0))))) (skip_draws (?n - 1) rng)) = Inr L"
    "shared_list L (shuffled_by perm (map ucast (map snd ys)))"
    using forward_one_ok [OF sh(2) env(1) skip2 alibi_to_blocks_shared [OF a]] len by auto
  have e: "map (g \<circ> snd) ?rows = map g ys" for g :: "'v clear_record \<Rightarrow> 'c" using len by (simp flip: map_map)
  have "map (shuffled_by perm) ?blocks = map (\<lambda>j. map (blk j) (map fst (map snd (shuffled_by perm ?rows)))) [0..<num_blocks V]"
    using move [of "\<lambda>r. blk j (fst (snd r))" for j] e [of "\<lambda>y. blk j (fst y)" for j] by (simp add: comp_def)
  note B' = doram_value.from_blocks_ok [OF V B(2) [unfolded this]]
  have "shuffled_by perm (map ucast (map snd ys)) = (map ucast (map snd (map snd (shuffled_by perm ?rows))) :: 128 word list)"
    using move [of "\<lambda>r. ucast (snd (snd r)) :: 128 word"] e [of "\<lambda>y. ucast (snd y) :: 128 word"] by (simp add: comp_def)
  with L(2) have L': "shared_list (\<lambda>p. alibi_from_blocks (L p)) (map snd (map snd (shuffled_by perm ?rows)))"
    using alibi_from_blocks_shared [of L "map snd (map snd (shuffled_by perm ?rows))"] by simp
  have "mset (shuffled_by perm ?rows) = mset ?rows" by (rule mset_shuffled_by [OF perms]) (simp add: len)
  moreover have "finalize_bottom_level A V net rng rng_reveal rng_rows and_vec c True X Y =
      cleanse_bottom_level A V net rng_reveal rng_rows and_vec c True X' (\<lambda>p. from_columns (from_blocks V (B p)) (alibi_from_blocks (L p)))"
    unfolding finalize_bottom_level_def Let_def if_True shared_listD(1) [OF X]
    unfolding sh(1) bindE_simps prod.case X'(1) B(1) L(1) ..
  ultimately show ?thesis using X'(2) from_columns_shared [OF B' L'] by blast
qed

lemma cleanse_keeps_real_rows:
  fixes V :: "'v::len value_ops"
  assumes "arith_ok A" and "doram_value V blk ones" and "0 < num_blocks V" and "and_protocol and_vec True"
    and "valid_config c" and "shared_list X xs" and "shared_records Y ys" and "length xs = length ys"
    and "next_power_of_two (length xs) < 2 ^ 32"
    and "online net" and "correlated rng_reveal" and "correlated rng_rows"
    and "n = log_address_space_size c" and "out = cleansed_rows n (zip xs ys)" and "reals = filter (is_real_row n) (zip xs ys)"
  shows "(\<exists>X' Y'. cleanse_bottom_level A V net rng_reveal rng_rows and_vec c False X Y = Inr (X', Y') \<and>
      shared_list X' (map (\<lambda>i. if is_real_row n (out ! i) then fst (out ! i) else of_nat (2 ^ n + i)) [0..<length out]) \<and>
      shared_records Y' (map snd out) \<and> filter (is_real_row n) out = take (2 ^ n) reals) \<and>
    (case cleanse_bottom_level A V net rng_reveal rng_rows and_vec c True X Y of
       Inl e \<Rightarrow> length reals \<noteq> 2 ^ n \<and> (\<exists>msg. e = Report msg)
     | Inr (X', Y') \<Rightarrow> length reals = 2 ^ n \<and> shared_list X' (map fst reals) \<and> shared_records Y' (map snd reals))"
proof
  have n: "n < 32" using assms(5,13) by (simp add: valid_config_def)
  show "\<exists>X' Y'. cleanse_bottom_level A V net rng_reveal rng_rows and_vec c False X Y = Inr (X', Y') \<and>
      shared_list X' (map (\<lambda>i. if is_real_row n (out ! i) then fst (out ! i) else of_nat (2 ^ n + i)) [0..<length out]) \<and>
      shared_records Y' (map snd out) \<and> filter (is_real_row n) out = take (2 ^ n) reals"
    using cleanse_sorted_ok [OF assms(1-12)] real_rows_kept [OF n] assms(13-15) by blast
  note init = cleanse_initial_ok [OF assms(5-8,10), where A = A and V = V and rng_reveal = rng_reveal and rng_rows = rng_rows and and_vec = and_vec]
  show "case cleanse_bottom_level A V net rng_reveal rng_rows and_vec c True X Y of
       Inl e \<Rightarrow> length reals \<noteq> 2 ^ n \<and> (\<exists>msg. e = Report msg)
     | Inr (X', Y') \<Rightarrow> length reals = 2 ^ n \<and> shared_list X' (map fst reals) \<and> shared_records Y' (map snd reals)"
    using init [folded assms(13), folded assms(15)] by (cases "length reals = 2 ^ n") auto
qed

lemma finalize_rows_ok:
  fixes V :: "'v::len value_ops"
  assumes "arith_ok A" and "doram_value V blk ones" and "0 < num_blocks V" and "and_protocol and_vec True"
    and "valid_config c" and "shared_list X xs" and "shared_records Y ys" and "length xs = length ys"
    and "next_power_of_two (length xs) < 2 ^ 32"
    and "online net" and "correlated rng_reveal" and "correlated rng_rows" and "correlated rng" and "never_rejected rng (length xs)"
    and "n = log_address_space_size c" and "out = cleansed_rows n (zip xs ys)" and "reals = filter (is_real_row n) (zip xs ys)"
  shows "(\<exists>X' Y'. finalize_bottom_level A V net rng rng_reveal rng_rows and_vec c False X Y = Inr (X', Y') \<and>
      shared_list X' (map (\<lambda>i. if is_real_row n (out ! i) then fst (out ! i) else of_nat (2 ^ n + i)) [0..<length out]) \<and>
      shared_records Y' (map snd out) \<and> filter (is_real_row n) out = take (2 ^ n) reals) \<and>
    (case finalize_bottom_level A V net rng rng_reveal rng_rows and_vec c True X Y of
       Inl e \<Rightarrow> length reals \<noteq> 2 ^ n \<and> (\<exists>msg. e = Report msg)
     | Inr (X', Y') \<Rightarrow> length reals = 2 ^ n \<and>
         (\<exists>rows. mset rows = mset reals \<and> shared_list X' (map fst rows) \<and> shared_records Y' (map snd rows)))"
proof
  show "\<exists>X' Y'. finalize_bottom_level A V net rng rng_reveal rng_rows and_vec c False X Y = Inr (X', Y') \<and>
      shared_list X' (map (\<lambda>i. if is_real_row n (out ! i) then fst (out ! i) else of_nat (2 ^ n + i)) [0..<length out]) \<and>
      shared_records Y' (map snd out) \<and> filter (is_real_row n) out = take (2 ^ n) reals"
    using conjunct1 [OF cleanse_keeps_real_rows [OF assms(1-12,15-17)]] by (simp add: finalize_bottom_level_def)
  obtain rows X' Y' where r: "mset rows = mset (zip xs ys)" "shared_list X' (map fst rows)" "shared_records Y' (map snd rows)"
    "finalize_bottom_level A V net rng rng_reveal rng_rows and_vec c True X Y = cleanse_bottom_level A V net rng_reveal rng_rows and_vec c True X' Y'"
    using finalize_shuffles [OF assms(2,3,6,7,8,10,13,14)] by blast
  have f: "mset (filter (is_real_row n) rows) = mset reals" using r(1) assms(17) by simp
  then have l: "length (filter (is_real_row n) rows) = length reals" by (rule mset_eq_length)
  have z: "zip (map fst rows) (map snd rows) = rows" by (simp add: zip_map_fst_snd)
  note init = cleanse_initial_ok [OF assms(5) r(2,3) _ assms(10), where A = A and V = V and rng_reveal = rng_reveal and rng_rows = rng_rows and and_vec = and_vec]
  show "case finalize_bottom_level A V net rng rng_reveal rng_rows and_vec c True X Y of
       Inl e \<Rightarrow> length reals \<noteq> 2 ^ n \<and> (\<exists>msg. e = Report msg)
     | Inr (X', Y') \<Rightarrow> length reals = 2 ^ n \<and>
         (\<exists>rows. mset rows = mset reals \<and> shared_list X' (map fst rows) \<and> shared_records Y' (map snd rows))"
    using init [folded assms(15), unfolded z l] f unfolding r(4)
    by (cases "length reals = 2 ^ n") (auto intro!: exI [of _ "filter (is_real_row n) rows"])
qed

section \<open>Properties\<close>

text \<open>C7: Finalising the bottom level keeps the real rows. Without an initial level the result is the
  padded rows in sorted order, cut to one row per address: the real ones first in their order (all of
  them if they are no more than the addresses) with their records, each dummy behind them under the
  label of its own position. With an initial level exactly the real rows are returned, in a shuffled
  order, and any other number of them than one per address is reported as an error.\<close>

theorem finalize_keeps_real_rows:
  fixes V :: "'v::len value_ops"
  assumes "arith_ok A" and "doram_value V blk ones" and "0 < num_blocks V" and "and_protocol and_vec True"
    and "valid_config c" and "shared_list X xs" and "shared_records Y ys" and "length xs = length ys"
    and "next_power_of_two (length xs) < 2 ^ 32"
    and "online net" and "correlated rng_reveal" and "correlated rng_rows" and "correlated rng" and "never_rejected rng (length xs)"
    and "n = log_address_space_size c" and "out = cleansed_rows n (zip xs ys)" and "reals = filter (is_real_row n) (zip xs ys)"
  shows "(\<exists>X' Y'. finalize_bottom_level A V net rng rng_reveal rng_rows and_vec c False X Y = Inr (X', Y') \<and>
      shared_list X' (map (\<lambda>i. if is_real_row n (out ! i) then fst (out ! i) else of_nat (2 ^ n + i)) [0..<length out]) \<and>
      shared_records Y' (map snd out) \<and> filter (is_real_row n) out = take (2 ^ n) reals) \<and>
    (case finalize_bottom_level A V net rng rng_reveal rng_rows and_vec c True X Y of
       Inl e \<Rightarrow> length reals \<noteq> 2 ^ n \<and> (\<exists>msg. e = Report msg)
     | Inr (X', Y') \<Rightarrow> length reals = 2 ^ n \<and>
         (\<exists>rows. mset rows = mset reals \<and> shared_list X' (map fst rows) \<and> shared_records Y' (map snd rows)))"
  by (rule finalize_rows_ok [OF assms])

theorem finalize_keeps_real_rows_witness:
  "\<exists>X' Y'. finalize_bottom_level plain_arith (ring_value :: 32 value_ops) all_online zero_rng zero_rng zero_rng (ring_and_many all_online zero_rng)
      \<lparr>log_address_space_size = 2, num_levels = 2, log_speed_cache_size = 1, log_amp_factor = 1, stash_size = 1, config_bounds = Empirical\<rparr> False
      (\<lambda>p. promote_public_values p [4, 3, 5, 1, 0])
      (\<lambda>p. map from_value (promote_public_values p [0, 30, 0, 10, 50])) = Inr (X', Y') \<and>
    shared_list X' [3, 1, 0, 7] \<and> shared_records Y' [(30, 0), (10, 0), (50, 0), (0, 0)]"
proof -
  let ?c = "\<lparr>log_address_space_size = 2, num_levels = 2, log_speed_cache_size = 1, log_amp_factor = 1, stash_size = 1, config_bounds = Empirical\<rparr>"
  let ?xs = "[4, 3, 5, 1, 0] :: 32 word list" and ?ys = "[(0, 0), (30, 0), (0, 0), (10, 0), (50, 0)] :: 32 clear_record list"
  have y: "shared_records (\<lambda>p. map from_value (promote_public_values p [0, 30, 0, 10, 50])) ?ys"
    by (simp add: shared_records_def promote_public_values_def nth_Cons' from_value_shared [OF shared_promote_public])
  have a: "and_protocol (ring_and_many all_online zero_rng) True" using ring_and.and_protocol_axioms [of all_online zero_rng] by simp
  have p: "next_power_of_two (length ?xs) = 8" by code_simp
  have out: "cleansed_rows 2 (zip ?xs ?ys) = [(3, (30, 0)), (1, (10, 0)), (0, (50, 0)), (4, (0, 0))]"
    unfolding cleansed_rows_def padded_rows_def using p by (simp add: is_real_row_def bit_iff_odd)
  define reals where "reals = filter (is_real_row 2) (zip ?xs ?ys)"
  define rows :: "(32 word \<times> 32 clear_record) list" where "rows = [(3, (30, 0)), (1, (10, 0)), (0, (50, 0)), (4, (0, 0))]"
  have nr: "never_rejected zero_rng (length ?xs)" by (rule zero_rng_never_rejected) simp
  have c: "valid_config ?c" by (simp add: valid_config_def)
  have "\<exists>X' Y'. finalize_bottom_level plain_arith (ring_value :: 32 value_ops) all_online zero_rng zero_rng zero_rng (ring_and_many all_online zero_rng) ?c False
      (\<lambda>p. promote_public_values p ?xs) (\<lambda>p. map from_value (promote_public_values p [0, 30, 0, 10, 50])) = Inr (X', Y') \<and>
      shared_list X' (map (\<lambda>i. if is_real_row 2 (rows ! i) then fst (rows ! i) else of_nat (2 ^ 2 + i)) [0..<length rows]) \<and>
      shared_records Y' (map snd rows) \<and> filter (is_real_row 2) rows = take (2 ^ 2) reals"
  proof (rule conjunct1 [OF finalize_keeps_real_rows [OF plain_arith_ok u32_value.doram_value_axioms _ a c promote_public_values_shared y _ _
      concrete_environment(1) concrete_environment(2) concrete_environment(2) concrete_environment(2) nr, where n = 2 and out = rows and reals = reals]])
    show "rows = cleansed_rows 2 (zip ?xs ?ys)" unfolding out rows_def ..
    show "next_power_of_two (length ?xs) < 2 ^ 32" unfolding p by simp
  qed (simp_all add: ring_value_def reals_def)
  moreover have "map (\<lambda>i. if is_real_row 2 (rows ! i) then fst (rows ! i) else of_nat (2 ^ 2 + i)) [0..<length rows] = [3, 1, 0, 7]"
    by (simp add: rows_def is_real_row_def bit_iff_odd upt_rec)
  moreover have "map snd rows = [(30, 0), (10, 0), (50, 0), (0, 0)]" by (simp add: rows_def)
  ultimately show ?thesis by (simp only:) blast
qed

end
