(* ===== verification/Rebuild_Rows.thy ===== *)
theory Rebuild_Rows
  imports Access Bottom_Level
begin

text \<open>
  The rows of a rebuild, from \<open>rebuild\<close> of \<open>crates/doram/src/lib.rs\<close>: the full cache and the levels
  above the target are extracted and padded, and their dummies are relabelled (or, at the bottom,
  cleared out by \<open>finalize_bottom_level\<close>). Targets and lengths are those of \<open>Schedule\<close>. The rows hold
  what cache and extracted levels stood for together: \<open>holds_rows\<close> and \<open>rebuild_rows_ok\<close>.
\<close>

section \<open>The code\<close>

text \<open>One level's rows, padded with dummies to the size the schedule reserves for it.\<close>

definition extract_level_rows ::
    "doram_schedule \<Rightarrow> 'v::len live_level option list \<Rightarrow> nat \<Rightarrow> 32 shares \<times> (party \<Rightarrow> 'v dr_record list) \<Rightarrow>
     (32 shares \<times> (party \<Rightarrow> 'v dr_record list)) res" where
  "extract_level_rows st levels level = (\<lambda>(extracted_xs, extracted_ys).
     bindE (getE levels level) (\<lambda>table.
     case table of None \<Rightarrow> Inr (extracted_xs, extracted_ys)
     | Some lv \<Rightarrow>
         bindE (each_party (\<lambda>p. oht_extract (lv_table lv p))) (\<lambda>rows.
         bindE (getE (base_b_state_vec st) level) (\<lambda>b.
         bindE (num_elements_at (sch_config st) level b) (\<lambda>size.
         checkE (everywhere (\<lambda>p. length (fst (rows p)) \<le> size \<and> length (snd (rows p)) \<le> size)) index_out_of_bounds
           (Inr (\<lambda>p. extracted_xs p @ fst (rows p) @
                   replicate (size - length (fst (rows p))) (dummy_x p (log_address_space_size (sch_config st))),
                 \<lambda>p. extracted_ys p @ snd (rows p) @ replicate (size - length (snd (rows p))) record_zero)))))))"

definition gather_rows ::
    "doram_schedule \<Rightarrow> 'v::len doram_tables \<Rightarrow> nat \<Rightarrow> (32 shares \<times> (party \<Rightarrow> 'v dr_record list)) res" where
  "gather_rows st D last_level_to_extract =
     bindE (cache_extract (dt_speed_cache D)) (\<lambda>cached.
     bindE (foldE (extract_level_rows st (dt_levels D)) [0..<last_level_to_extract] cached) (\<lambda>(extracted_xs, extracted_ys).
     checkE (everywhere (\<lambda>p. extracted_xs p \<noteq> [])) (Report ''rebuild needs at least one extracted item'')
    (checkE (everywhere (\<lambda>p. length (extracted_xs p) = length (extracted_ys p))) (Report ''rebuild extracted mismatched x/y lengths'')
       (Inr (extracted_xs, \<lambda>p. map clear_alibi (extracted_ys p))))))"

definition rebuild_rows ::
    "arith_ops \<Rightarrow> 'v::len value_ops \<Rightarrow> network \<Rightarrow> rngs \<Rightarrow> rngs \<Rightarrow> rngs \<Rightarrow> (32 shares \<Rightarrow> 32 shares \<Rightarrow> 32 shares res) \<Rightarrow>
     doram_schedule \<Rightarrow> 'v doram_tables \<Rightarrow> (32 shares \<times> (party \<Rightarrow> 'v dr_record list)) res" where
  "rebuild_rows A V net rng rng_reveal rng_rows and_vec st D =
     bindE (rebuild_target st) (\<lambda>(rebuild_to, need_to_extract_from_rebuild_to).
     bindE (gather_rows st D (rebuild_to + (if need_to_extract_from_rebuild_to then 1 else 0))) (\<lambda>(xs, ys).
       if rebuild_to = num_levels (sch_config st) - 1
       then finalize_bottom_level A V net rng rng_reveal rng_rows and_vec (sch_config st) (had_initial_bottom_level st) xs ys
       else bindE (getE (base_b_state_vec st) rebuild_to) (\<lambda>b.
            bindE (num_elements_at (sch_config st) rebuild_to (b + 1)) (\<lambda>target_num_elements.
            checkE (everywhere (\<lambda>p. length (xs p) = target_num_elements)) (Panic ''extracted_xs.len() == target_num_elements'')
              (bindE (relabel_dummies and_vec (sch_config st) xs) (\<lambda>xs. Inr (xs, ys)))))))"

section \<open>Searching part of the levels\<close>

definition views_in :: "'a option list \<Rightarrow> nat list \<Rightarrow> (nat \<times> 'a) list" where
  "views_in Ws is = map (\<lambda>i. (i, the (Ws ! i))) (filter (\<lambda>i. Ws ! i \<noteq> None) is)"

lemma live_views_in: "live_views Ws = views_in Ws [0..<length Ws]"
  by (simp add: live_views_def views_in_def present_levels_def)

lemma views_in_append: "views_in Ws (is @ js) = views_in Ws is @ views_in Ws js"
  by (simp add: views_in_def)

lemma find_entry_append: "find_entry q (us @ vs) r = find_entry q vs (find_entry q us r)"
  by (induction us arbitrary: r) simp_all

lemma search_ok_append: "search_ok q (us @ vs) r \<longleftrightarrow> search_ok q us r \<and> search_ok q vs (find_entry q us r)"
  by (induction us arbitrary: r) (auto split: option.splits)

lemma search_other_alibi:
  "search_ok q vs (Some y) \<Longrightarrow> \<forall>v \<in> set vs. \<not> bit (snd y') (fst v) \<Longrightarrow> search_ok q vs (Some y')"
  by (induction vs) simp_all

section \<open>Rows and the map they stand for\<close>

type_synonym 'v row = "32 word \<times> 'v clear_record"

definition holds_rows :: "32 word set \<Rightarrow> nat \<Rightarrow> (32 word \<rightharpoonup> 'v::len clear_record) \<Rightarrow> 'v row list \<Rightarrow> bool" where
  "holds_rows A n f rows \<longleftrightarrow> distinct (map fst (filter (is_real_row n) rows)) \<and>
     fst ` set (filter (is_real_row n) rows) \<subseteq> A \<and> (\<forall>a \<in> A. \<forall>y. (a, y) \<in> set (filter (is_real_row n) rows) \<longleftrightarrow> f a = Some y)"

lemma holds_rows_mset:
  assumes "holds_rows A n f rows" and "mset (filter (is_real_row n) rows') = mset (filter (is_real_row n) rows)"
  shows "holds_rows A n f rows'"
proof -
  have "distinct (map fst (filter (is_real_row n) rows')) = distinct (map fst (filter (is_real_row n) rows))"
    by (rule mset_eq_imp_distinct_iff) (simp only: mset_map assms(2))
  moreover have "set (filter (is_real_row n) rows') = set (filter (is_real_row n) rows)"
    using assms(2) by (rule mset_eq_setD)
  ultimately show ?thesis using assms(1) unfolding holds_rows_def by metis
qed

lemma holds_rows_cong: "holds_rows A n f rows \<Longrightarrow> \<forall>a \<in> A. g a = f a \<Longrightarrow> holds_rows A n g rows"
  by (simp add: holds_rows_def)

lemma holds_rows_append:
  assumes "holds_rows A n f rs" and "holds_rows A n g ss" and "\<forall>a \<in> A. f a = None \<or> g a = None"
  shows "holds_rows A n (\<lambda>a. case f a of None \<Rightarrow> g a | Some y \<Rightarrow> Some y) (rs @ ss)"
proof -
  have "fst ` set (filter (is_real_row n) rs) \<inter> fst ` set (filter (is_real_row n) ss) = {}"
  proof (rule ccontr)
    assume "fst ` set (filter (is_real_row n) rs) \<inter> fst ` set (filter (is_real_row n) ss) \<noteq> {}"
    then obtain a y z where a: "(a, y) \<in> set (filter (is_real_row n) rs)" "(a, z) \<in> set (filter (is_real_row n) ss)" by fastforce
    then have "a \<in> A" using assms(1) unfolding holds_rows_def by force
    then show False using a assms unfolding holds_rows_def by (metis option.distinct(1))
  qed
  then show ?thesis using assms by (auto simp: holds_rows_def split: option.splits)
qed

lemma holds_rows_clear:
  assumes "holds_rows A n f rows"
  shows "holds_rows A n (\<lambda>a. map_option (\<lambda>y. (fst y, 0)) (f a)) (map (\<lambda>row. (fst row, (fst (snd row), 0))) rows)"
proof -
  have e: "filter (is_real_row n) (map (\<lambda>row. (fst row, (fst (snd row), 0))) rows) =
      map (\<lambda>row. (fst row, (fst (snd row), 0))) (filter (is_real_row n) rows)"
    by (simp add: filter_map comp_def is_real_row_def [abs_def])
  show ?thesis
    using assms unfolding holds_rows_def e by (auto simp: comp_def image_iff) force+
qed

section \<open>The rows of one level\<close>

lemma distinct_of_mset_set: "mset l = mset_set S \<Longrightarrow> distinct l"
  unfolding distinct_count_atmost_1 by (metis count_mset_0_iff count_mset_set' set_mset_mset)

lemma extracted_rows:
  fixes lv :: "'v::len live_level"
  assumes lv: "level_holds lv W" and spent: "vw_count W = oh_num_dummies (vw_params W)"
    and view: "tags_ok A W" "stores_in A W" "view_in_range ones W"
    and n: "oh_log_address_space_size (vw_params W) = n" "n < 32" and A: "\<forall>a \<in> A. real_address n a"
  shows "\<exists>E rows. each_party (\<lambda>p. oht_extract (lv_table lv p)) = Inr E \<and>
    shared_list (\<lambda>p. fst (E p)) (map fst rows) \<and> shared_records (\<lambda>p. snd (E p)) (map snd rows) \<and>
    length rows = oh_num_elements (vw_params W) - oh_stash_size (vw_params W) \<and>
    holds_rows A n (view_map W) rows \<and> in_range ones rows"
proof -
  let ?P = "vw_params W" and ?xs = "vw_xs W" and ?ys = "vw_ys W" and ?live = "vw_live W" and ?real = "is_real_row n :: 'v row \<Rightarrow> bool"
  have holds: "oht_holds ?P (vw_keys W) ?xs ?ys (vw_stashed W) ?live (oh_num_dummies ?P) (lv_table lv)"
    using lv spent by (simp add: level_holds_def)
  note d = oht_holdsD [OF holds]
  let ?tx = "table_xs n (oh_num_dummies ?P) ?xs" and ?ty = "table_ys (oh_num_dummies ?P) ?ys"
  let ?F = "\<lambda>j. (?tx ! j, ?ty ! j)" and ?R = "{j \<in> ?live. j < length ?xs \<and> real_address n (?xs ! j)}"
  obtain Xs Ys exs eys where e: "\<forall>p. oht_extract (lv_table lv p) = Inr (Xs p, Ys p)" "shared_list Xs exs" "shared_records Ys eys"
    "length exs = oh_num_elements ?P - oh_stash_size ?P" "length eys = length exs"
    "mset (zip exs eys) = image_mset ?F (mset_set ?live)"
    using oht_extract_ok [OF holds] unfolding n(1) by blast
  define rows where "rows = zip exs eys"
  have "finite ?live" using d(2) finite_subset by blast
  then have fin: "finite ?R" by simp
  have F: "?F j = (?xs ! j, ?ys ! j)" if "j < length ?xs" for j
    using that d(1) by (simp add: table_xs_def table_ys_def nth_append)
  have R: "{j \<in> ?live. ?real (?F j)} = ?R"
  proof -
    have "?real (?F j) = (j < length ?xs \<and> real_address n (?xs ! j))" if j: "j \<in> ?live" for j
    proof (cases "j < length ?xs")
      case False
      then have "?tx ! j = sentinel_of n"
        using d(2,5) j by (auto simp: table_xs_def nth_append oh_total_size_def)
      then show ?thesis using False n(2) by (simp add: is_real_row_def sentinel_of_def bit_simps)
    qed (simp add: F is_real_row_def real_address_def)
    then show ?thesis by blast
  qed
  have "mset (filter ?real rows) = image_mset ?F (mset_set ?R)"
    using e(6) by (simp add: rows_def mset_filter filter_mset_image_mset filter_mset_mset_set \<open>finite ?live\<close> R)
  also have "\<dots> = image_mset (\<lambda>j. (?xs ! j, ?ys ! j)) (mset_set ?R)"
    by (rule image_mset_cong) (use fin F in auto)
  finally have reals: "mset (filter ?real rows) = image_mset (\<lambda>j. (?xs ! j, ?ys ! j)) (mset_set ?R)" .
  have tag: "?xs ! j = a" if "j < length ?xs" "a \<in> A" "view_tag W (?xs ! j) = view_tag W a" for j a
    using view(1) that unfolding tags_ok_def by (meson UnCI inj_onD nth_mem)
  have inj: "inj_on ((!) ?xs) ?R"
  proof (rule inj_onI)
    fix i j assume "i \<in> ?R" "j \<in> ?R" "?xs ! i = ?xs ! j"
    then show "i = j" using good_tagsD(2) [OF d(6), of i j] by simp
  qed
  have "mset (map fst (filter ?real rows)) = mset_set ((!) ?xs ` ?R)"
    unfolding mset_map reals using inj by (simp add: image_mset.compositionality comp_def image_mset_mset_set)
  then have "distinct (map fst (filter ?real rows))"
    by (rule distinct_of_mset_set)
  moreover have set: "set (filter ?real rows) = (\<lambda>j. (?xs ! j, ?ys ! j)) ` ?R"
    using arg_cong [OF reals, of set_mset] fin by simp
  moreover have "fst ` set (filter ?real rows) \<subseteq> A"
    unfolding set using view(2) n(1) by (auto simp: stores_in_def)
  moreover have "(a, y) \<in> set (filter ?real rows) \<longleftrightarrow> view_map W a = Some y" if a: "a \<in> A" for a y
  proof -
    have "view_map W a = Some y \<longleftrightarrow> (\<exists>j < length ?xs. j \<in> ?live \<and> view_tag W (?xs ! j) = view_tag W a \<and> ?ys ! j = y)"
      using oht_entries_Some [OF d(6)] by (simp add: view_map_def view_tag_def)
    also have "\<dots> \<longleftrightarrow> (\<exists>j < length ?xs. j \<in> ?live \<and> ?xs ! j = a \<and> ?ys ! j = y)" using tag a by metis
    finally show ?thesis unfolding set using A a by auto
  qed
  ultimately have rows: "holds_rows A n (view_map W) rows" unfolding holds_rows_def by blast
  have "in_range ones rows"
  proof -
    have "snd row \<in> set ?ty" if "row \<in> set rows" for row
    proof -
      have "row \<in> ?F ` ?live" using that arg_cong [OF e(6), of set_mset] \<open>finite ?live\<close> by (simp add: rows_def)
      then obtain j where "j \<in> ?live" "snd row = ?ty ! j" by auto
      moreover have "length ?ty = oh_total_size ?P" using d(1,5) by (simp add: table_ys_def oh_total_size_def)
      ultimately show ?thesis using d(2) by (auto simp only: intro!: nth_mem)
    qed
    then show ?thesis using view(3) by (force simp: in_range_def table_ys_def view_in_range_def)
  qed
  moreover have "each_party (\<lambda>p. oht_extract (lv_table lv p)) = Inr (\<lambda>p. (Xs p, Ys p))"
    using e(1) by (intro each_party_Inr) simp
  ultimately show ?thesis using e rows by (intro exI [of _ "\<lambda>p. (Xs p, Ys p)"] exI [of _ rows]) (simp add: rows_def)
qed

section \<open>Schedule and tables in step\<close>

definition in_step :: "doram_schedule \<Rightarrow> 'v::len doram_tables \<Rightarrow> 'v level_view option list \<Rightarrow> bool" where
  "in_step st D Ws \<longleftrightarrow> sc_num_stored (dt_speed_cache D) = sch_num_stored st \<and> sc_length (dt_speed_cache D) = sch_length st \<and>
     sc_log_address_space_size (dt_speed_cache D) = log_address_space_size (sch_config st) \<and>
     list_all2 (rel_option (\<lambda>t W. lt_params t = vw_params W \<and> lt_query_count t = vw_count W \<and>
       oh_log_address_space_size (vw_params W) = log_address_space_size (sch_config st))) (sch_levels st) Ws"

lemma in_step_level:
  assumes "in_step st D Ws" and "i < length Ws"
  shows "length (sch_levels st) = length Ws"
    and "sch_levels st ! i = None \<longleftrightarrow> Ws ! i = None"
    and "Ws ! i = Some W \<Longrightarrow> \<exists>t. sch_levels st ! i = Some t \<and> lt_params t = vw_params W \<and> lt_query_count t = vw_count W \<and>
      oh_log_address_space_size (vw_params W) = log_address_space_size (sch_config st)"
proof -
  show l: "length (sch_levels st) = length Ws" using assms(1) by (auto simp: in_step_def dest: list_all2_lengthD)
  have a: "rel_option (\<lambda>t W. lt_params t = vw_params W \<and> lt_query_count t = vw_count W \<and>
       oh_log_address_space_size (vw_params W) = log_address_space_size (sch_config st)) (sch_levels st ! i) (Ws ! i)"
    using assms by (auto simp: in_step_def dest: list_all2_nthD2)
  show "sch_levels st ! i = None \<longleftrightarrow> Ws ! i = None" using a by (cases "sch_levels st ! i"; cases "Ws ! i") simp_all
  show "\<exists>t. sch_levels st ! i = Some t \<and> lt_params t = vw_params W \<and> lt_query_count t = vw_count W \<and>
      oh_log_address_space_size (vw_params W) = log_address_space_size (sch_config st)" if "Ws ! i = Some W"
    using a that by (cases "sch_levels st ! i") auto
qed

section \<open>Gathering\<close>

lemma map_of_real: "real_address n a \<Longrightarrow> map_of (filter (is_real_row n) es) a = map_of es a"
  by (induction es) (auto simp: is_real_row_def real_address_def)

lemma cached_rows:
  fixes C :: "'v::len speed_cache"
  assumes C: "cache_refines ones C m" and full: "sc_num_stored C = sc_length C" and n: "sc_log_address_space_size C = n"
    and A: "dom m \<subseteq> A" "\<forall>a \<in> A. real_address n a"
  shows "\<exists>X Y rows. cache_extract C = Inr (X, Y) \<and> shared_list X (map fst rows) \<and> shared_records Y (map snd rows) \<and>
    holds_rows A n m rows \<and> in_range ones rows \<and> length rows = sc_length C"
proof -
  obtain es where es: "cache_holds C es" "in_range ones es" "no_duplicates n es" and m: "m = cache_map n es"
    using C n by (auto simp: cache_refines_def)
  have "take (sc_length C) (sc_addrs C p) = sc_addrs C p" "take (sc_length C) (sc_data C p) = sc_data C p" for p
    using es(1) by (simp_all add: cache_holds_def)
  then have s: "shared_list (sc_addrs C) (map fst es)" "shared_records (sc_data C) (map snd es)"
    using es(1) full by (simp_all add: cache_holds_def)
  have real: "filter (real_address n) (map fst es) = map fst (filter (is_real_row n) es)"
    by (simp add: filter_map comp_def is_real_row_def [abs_def] real_address_def [abs_def])
  then have d: "distinct (map fst (filter (is_real_row n) es))" using es(3) by (simp add: no_duplicates_def)
  have e: "(a, y) \<in> set (filter (is_real_row n) es) \<longleftrightarrow> m a = Some y" if "real_address n a" for a y
    using map_of_eq_Some_iff [OF d, of a y] map_of_real [OF that, of es] that by (simp add: m cache_map_def)
  have "fst ` set (filter (is_real_row n) es) \<subseteq> A"
  proof
    fix a assume "a \<in> fst ` set (filter (is_real_row n) es)"
    then obtain y where y: "(a, y) \<in> set (filter (is_real_row n) es)" by auto
    then have "real_address n a" by (auto simp: is_real_row_def real_address_def)
    then show "a \<in> A" using e y A(1) by blast
  qed
  then have "holds_rows A n m es" using d e A(2) unfolding holds_rows_def by blast
  moreover have "cache_extract C = Inr (sc_addrs C, sc_data C)"
    using es(1) full by (simp add: cache_extract_def cache_holds_def checkE_def everywhere_def)
  ultimately show ?thesis using s es(1,2) full by (auto simp: cache_holds_def)
qed

lemma padded_level:
  fixes E :: "party \<Rightarrow> 32 word share list \<times> 'v::len dr_record list"
  assumes "shared_list X (map fst rows)" and "shared_records Y (map snd rows)"
    and "shared_list (\<lambda>p. fst (E p)) (map fst rs)" and "shared_records (\<lambda>p. snd (E p)) (map snd rs)"
  shows "shared_list (\<lambda>p. X p @ fst (E p) @ replicate k (dummy_x p n)) (map fst (rows @ rs @ replicate k (sentinel_of n, (0, 0))))"
    and "shared_records (\<lambda>p. Y p @ snd (E p) @ replicate k record_zero) (map snd (rows @ rs @ replicate k (sentinel_of n, (0, 0))))"
  unfolding map_append map_replicate fst_conv snd_conv sentinel_of_def
  by (intro shared_list_append shared_records_append assms(1-4) shared_list_replicate shared_records_replicate shared_dummy_x record_zero_shared)+

lemma holds_rows_pad:
  "n < 32 \<Longrightarrow> holds_rows A n f rows \<Longrightarrow> holds_rows A n f (rows @ replicate k (sentinel_of n, (0, 0)))"
  by (rule holds_rows_mset, assumption) (simp add: is_real_row_def sentinel_of_def bit_simps)

text \<open>What the rebuild assumes of the state, in one place.\<close>

definition rebuild_ready :: "'v::len word \<Rightarrow> 32 word set \<Rightarrow> doram_schedule \<Rightarrow> 'v doram_tables \<Rightarrow>
    (32 word \<rightharpoonup> 'v clear_record) \<Rightarrow> 'v level_view option list \<Rightarrow> bool" where
  "rebuild_ready ones A st D m Ws \<longleftrightarrow> schedule_ok st \<and> sch_num_stored st = sch_length st \<and> in_step st D Ws \<and>
     doram_holds ones D m Ws \<and> memory_ok ones A m Ws \<and> (\<forall>a \<in> A. real_address (log_address_space_size (sch_config st)) a)"

lemma ready_valid: "rebuild_ready ones A st D m Ws \<Longrightarrow> valid_config (sch_config st)"
  by (simp add: rebuild_ready_def schedule_ok_def Let_def)

lemma ready_lengths:
  assumes "rebuild_ready ones A st D m Ws"
  shows "length Ws = num_levels (sch_config st)" "length (dt_levels D) = num_levels (sch_config st)"
    "length (sch_levels st) = num_levels (sch_config st)" "length (base_b_state_vec st) = num_levels (sch_config st)"
    "log_address_space_size (sch_config st) < 32"
  using assms levels_holdD(1) [of "dt_levels D" Ws]
  by (auto simp: rebuild_ready_def schedule_ok_def Let_def in_step_def doram_holds_def valid_config_def dest!: list_all2_lengthD)

lemma extract_one_level:
  fixes D :: "'v::len doram_tables"
  assumes ready: "rebuild_ready ones A st D m Ws" and k: "k \<le> rebuild_level st"
    and rows: "shared_list X (map fst rows)" "shared_records Y (map snd rows)"
      "holds_rows A (log_address_space_size (sch_config st)) (\<lambda>a. find_entry a (views_in Ws [0..<k]) (m a)) rows" "in_range ones rows"
  shows "\<exists>X' Y' rows'. extract_level_rows st (dt_levels D) k (X, Y) = Inr (X', Y') \<and>
    shared_list X' (map fst rows') \<and> shared_records Y' (map snd rows') \<and>
    holds_rows A (log_address_space_size (sch_config st)) (\<lambda>a. find_entry a (views_in Ws [0..<Suc k]) (m a)) rows' \<and> in_range ones rows' \<and>
    extract_level k st (length rows) = Inr (length rows')"
proof -
  let ?c = "sch_config st" and ?n = "log_address_space_size (sch_config st)"
  have ok: "schedule_ok st" and full: "sch_num_stored st = sch_length st" and step: "in_step st D Ws"
    and L: "levels_hold (dt_levels D) Ws" and M: "memory_ok ones A m Ws" and A: "\<forall>a \<in> A. real_address ?n a"
    using ready by (simp_all add: rebuild_ready_def doram_holds_def)
  note len = ready_lengths [OF ready] and valid = ready_valid [OF ready]
  have kL: "k < num_levels ?c" using rebuild_level_props(1) [OF ok] k by simp
  then have kW: "k < length Ws" by (simp add: len)
  have up: "views_in Ws [0..<Suc k] = views_in Ws [0..<k] @ views_in Ws [k]" using views_in_append [of Ws "[0..<k]" "[k]"] by simp
  show ?thesis
  proof (cases "Ws ! k")
    case None
    then have "dt_levels D ! k = None" "sch_levels st ! k = None"
      using in_step_level(2) [OF step kW] L kW unfolding levels_hold_def
      by (simp_all add: list_all2_conv_all_nth) (metis option.rel_distinct(2) not_None_eq)
    moreover have "views_in Ws [0..<Suc k] = views_in Ws [0..<k]" unfolding up using None by (simp add: views_in_def)
    ultimately show ?thesis using rows kL len by (simp add: extract_level_rows_def extract_level_def) blast
  next
    case (Some W)
    obtain lv where lv: "dt_levels D ! k = Some lv" "level_holds lv W" using levels_holdD(3) [OF L kW Some] by blast
    obtain t where t: "sch_levels st ! k = Some t" "lt_params t = vw_params W" "lt_query_count t = vw_count W"
      "oh_log_address_space_size (vw_params W) = ?n" using in_step_level(3) [OF step kW Some] by blast
    have v: "views_in Ws [k] = [(k, W)]" using Some by (simp add: views_in_def)
    have all: "live_views Ws = views_in Ws [0..<k] @ (k, W) # views_in Ws [Suc k..<length Ws]"
    proof -
      have "[0..<length Ws] = [0..<k] @ [k] @ [Suc k..<length Ws]"
        using kW upt_add_eq_append [of 0 k "length Ws - k"] by (simp add: upt_conv_Cons)
      then have "live_views Ws = views_in Ws [0..<k] @ views_in Ws [k] @ views_in Ws [Suc k..<length Ws]"
        unfolding live_views_in by (simp only: views_in_append)
      then show ?thesis by (simp add: v)
    qed
    have view: "tags_ok A W" "stores_in A W" "view_in_range ones W" using M by (simp_all add: memory_ok_def all)
    have bs: "base_b_state_vec st ! k \<noteq> 0" and lok: "level_ok ?c k (base_b_state_vec st ! k) (vw_params W)"
      using ok t kL by (auto simp: schedule_ok_def Let_def)
    have spent: "vw_count W = oh_num_dummies (vw_params W)" using spent_exactly [OF ok full t(1) k] t(2,3) by simp
    obtain E rs where E: "each_party (\<lambda>p. oht_extract (lv_table lv p)) = Inr E"
      "shared_list (\<lambda>p. fst (E p)) (map fst rs)" "shared_records (\<lambda>p. snd (E p)) (map snd rs)"
      "length rs = oh_num_elements (vw_params W) - oh_stash_size (vw_params W)" "holds_rows A ?n (view_map W) rs" "in_range ones rs"
      using extracted_rows [OF lv(2) spent view t(4) len(5) A] by blast
    let ?size = "level_size ?c k (base_b_state_vec st ! k)"
    have sz: "oh_num_elements (vw_params W) = ?size" using lok by (simp add: level_ok_def level_size_def)
    have b: "base_b_state_vec st ! k \<le> amp_of ?c"
      using ok kL amp_pos(1) [of ?c] unfolding schedule_ok_def Let_def
      by (cases "k = num_levels ?c - 1") (auto simp: Suc_leI intro: order_trans less_imp_le)
    note num = num_elements_at_level_size [OF valid kL b]
    let ?pad = "?size - length rs" and ?S = "rows @ rs @ replicate (?size - length rs) (sentinel_of ?n, (0, 0))"
    have lE: "length (fst (E p)) = length rs" "length (snd (E p)) = length rs" for p
      using shared_listD(1) [OF E(2)] shared_recordsD(1) [OF E(3)] by simp_all
    have le: "length rs \<le> ?size" using E(4) sz by simp
    have run: "extract_level_rows st (dt_levels D) k (X, Y) =
        Inr (\<lambda>p. X p @ fst (E p) @ replicate ?pad (dummy_x p ?n), \<lambda>p. Y p @ snd (E p) @ replicate ?pad record_zero)"
      using lv(1) kL len by (simp add: extract_level_rows_def E(1) num lE le everywhere_def)
    have None_if: "find_entry a (views_in Ws [0..<k]) (m a) = None \<or> view_map W a = None" if "a \<in> A" for a
    proof -
      have "search_ok a (live_views Ws) (m a)" using M that by (simp add: memory_ok_def)
      then show ?thesis unfolding all search_ok_append by (auto split: option.splits)
    qed
    have "holds_rows A ?n (\<lambda>a. find_entry a (views_in Ws [0..<Suc k]) (m a)) ?S"
    proof (rule holds_rows_cong)
      show "holds_rows A ?n (\<lambda>a. case find_entry a (views_in Ws [0..<k]) (m a) of None \<Rightarrow> view_map W a | Some y \<Rightarrow> Some y) ?S"
        by (rule holds_rows_append [OF rows(3) holds_rows_pad [OF len(5) E(5)]]) (rule ballI, erule None_if)
    qed (simp only: up find_entry_append v, simp split: option.split)
    moreover have "in_range ones ?S" using rows(4) E(6) by (auto simp: in_range_def)
    moreover have "extract_level k st (length rows) = Inr (length ?S)"
      using extract_level_ok [OF ok full k bs] le by simp
    ultimately show ?thesis using run padded_level [OF rows(1,2) E(2,3), of ?pad ?n] by blast
  qed
qed

lemma gather_levels:
  fixes D :: "'v::len doram_tables"
  assumes ready: "rebuild_ready ones A st D m Ws"
  shows "k \<le> Suc (rebuild_level st) \<Longrightarrow> \<exists>cached X Y rows. cache_extract (dt_speed_cache D) = Inr cached \<and>
    foldE (extract_level_rows st (dt_levels D)) [0..<k] cached = Inr (X, Y) \<and>
    shared_list X (map fst rows) \<and> shared_records Y (map snd rows) \<and>
    holds_rows A (log_address_space_size (sch_config st)) (\<lambda>a. find_entry a (views_in Ws [0..<k]) (m a)) rows \<and> in_range ones rows \<and>
    foldE (\<lambda>level. extract_level level st) [0..<k] (sch_length st) = Inr (length rows)"
proof (induction k)
  case 0
  have "cache_refines ones (dt_speed_cache D) m" "sc_num_stored (dt_speed_cache D) = sc_length (dt_speed_cache D)"
    "sc_log_address_space_size (dt_speed_cache D) = log_address_space_size (sch_config st)" "dom m \<subseteq> A"
    "\<forall>a \<in> A. real_address (log_address_space_size (sch_config st)) a" "sc_length (dt_speed_cache D) = sch_length st"
    using ready by (simp_all add: rebuild_ready_def doram_holds_def in_step_def memory_ok_def)
  from cached_rows [OF this(1-5)] this(6) show ?case by (fastforce simp: views_in_def)
next
  case (Suc k)
  then obtain cached X Y rows where IH: "cache_extract (dt_speed_cache D) = Inr cached"
    "foldE (extract_level_rows st (dt_levels D)) [0..<k] cached = Inr (X, Y)"
    "shared_list X (map fst rows)" "shared_records Y (map snd rows)"
    "holds_rows A (log_address_space_size (sch_config st)) (\<lambda>a. find_entry a (views_in Ws [0..<k]) (m a)) rows" "in_range ones rows"
    "foldE (\<lambda>level. extract_level level st) [0..<k] (sch_length st) = Inr (length rows)" by auto
  have k: "k \<le> rebuild_level st" using Suc.prems by simp
  from extract_one_level [OF ready k IH(3-6)] obtain X' Y' rows' where
    one: "extract_level_rows st (dt_levels D) k (X, Y) = Inr (X', Y')" "shared_list X' (map fst rows')" "shared_records Y' (map snd rows')"
    "holds_rows A (log_address_space_size (sch_config st)) (\<lambda>a. find_entry a (views_in Ws [0..<Suc k]) (m a)) rows'" "in_range ones rows'"
    "extract_level k st (length rows) = Inr (length rows')" by blast
  have "foldE (extract_level_rows st (dt_levels D)) [0..<Suc k] cached = Inr (X', Y')"
    "foldE (\<lambda>level. extract_level level st) [0..<Suc k] (sch_length st) = Inr (length rows')"
    using IH(2,7) one(1,6) by (simp_all add: foldE_append)
  then show ?case using IH(1) one(2-5) by blast
qed

section \<open>Settling\<close>

lemma distinct_split: "distinct (filter P l) \<Longrightarrow> distinct (filter (\<lambda>x. \<not> P x) l) \<Longrightarrow> distinct l"
  by (induction l) (auto split: if_splits)

definition labelled :: "nat \<Rightarrow> 'v::len row list \<Rightarrow> 'v row list" where
  "labelled n rows = map (\<lambda>i. (if is_real_row n (rows ! i) then fst (rows ! i) else of_nat (2 ^ n + i), snd (rows ! i))) [0..<length rows]"

lemma dummy_label_bits:
  assumes "n < 32" and "i < 2 ^ n"
  shows "bit (of_nat (2 ^ n + i) :: 32 word) n" and "unat (of_nat (2 ^ n + i) :: 32 word) = 2 ^ n + i"
proof -
  have "(2 :: nat) ^ n + i < 2 ^ Suc n" using assms(2) by simp
  also have "\<dots> \<le> 2 ^ 32" using assms(1) by (intro power_increasing) simp_all
  finally show u: "unat (of_nat (2 ^ n + i) :: 32 word) = 2 ^ n + i" 
    by (simp add: unsigned_of_nat take_bit_nat_eq_self del: of_nat_add of_nat_power)
  have "bit (2 ^ n + i) n" using assms(2) by (simp add: bit_iff_odd div_add_self1)
  then have "bit (unat (of_nat (2 ^ n + i) :: 32 word)) n" unfolding u .
  then show "bit (of_nat (2 ^ n + i) :: 32 word) n" by (simp only: bit_unsigned_iff)
qed

lemma labelled_rows:
  assumes n: "n < 32" and len: "length rows \<le> 2 ^ n" and rows: "holds_rows A n f rows"
  shows "holds_rows A n f (labelled n rows)" and "distinct (map fst (labelled n rows))"
proof -
  let ?g = "\<lambda>i. (if is_real_row n (rows ! i) then fst (rows ! i) else of_nat (2 ^ n + i), snd (rows ! i))"
  have g: "is_real_row n (?g i) \<longleftrightarrow> is_real_row n (rows ! i)" if "i < length rows" for i
    using dummy_label_bits(1) [OF n, of i] that len by (simp add: is_real_row_def)
  have "filter (is_real_row n) (labelled n rows) = map ?g (filter (\<lambda>i. is_real_row n (rows ! i)) [0..<length rows])"
    unfolding labelled_def filter_map comp_def by (intro arg_cong [where f = "map ?g"] filter_cong) (simp_all add: g)
  also have "\<dots> = map ((!) rows) (filter (\<lambda>i. is_real_row n (rows ! i)) [0..<length rows])" by simp
  also have "\<dots> = filter (is_real_row n) rows" by (rule map_nth_filter)
  finally have reals: "filter (is_real_row n) (labelled n rows) = filter (is_real_row n) rows" .
  show "holds_rows A n f (labelled n rows)" by (rule holds_rows_mset [OF rows]) (simp add: reals)
  show "distinct (map fst (labelled n rows))"
  proof (rule distinct_split [where P = "\<lambda>x. \<not> bit x n"])
    have "filter (\<lambda>x. \<not> bit x n) (map fst (labelled n rows)) = map fst (filter (is_real_row n) (labelled n rows))"
      by (simp add: filter_map comp_def is_real_row_def [abs_def])
    then show "distinct (filter (\<lambda>x. \<not> bit x n) (map fst (labelled n rows)))"
      using rows by (simp add: reals holds_rows_def)
    have "filter (\<lambda>x. \<not> \<not> bit x n) (map fst (labelled n rows)) =
        map (\<lambda>i. fst (?g i)) (filter (\<lambda>i. bit (fst (?g i)) n) [0..<length rows])"
      by (simp only: labelled_def map_map filter_map comp_def not_not)
    also have "\<dots> = map (\<lambda>i. of_nat (2 ^ n + i)) (filter (\<lambda>i. bit (fst (?g i)) n) [0..<length rows])"
      by (rule map_cong) (auto simp: is_real_row_def)
    finally have dummies: "filter (\<lambda>x. \<not> \<not> bit x n) (map fst (labelled n rows)) =
        map (\<lambda>i. of_nat (2 ^ n + i)) (filter (\<lambda>i. bit (fst (?g i)) n) [0..<length rows])" .
    have "inj_on (\<lambda>i. of_nat (2 ^ n + i) :: 32 word) {..<length rows}"
    proof (rule inj_onI)
      fix i j assume "i \<in> {..<length rows}" "j \<in> {..<length rows}" "(of_nat (2 ^ n + i) :: 32 word) = of_nat (2 ^ n + j)"
      then show "i = j" using dummy_label_bits(2) [OF n, of i] dummy_label_bits(2) [OF n, of j] len by simp
    qed
    then show "distinct (filter (\<lambda>x. \<not> \<not> bit x n) (map fst (labelled n rows)))"
      unfolding dummies by (simp add: distinct_map) (rule inj_on_subset, assumption, auto)
  qed
qed

lemma labelled_simps:
  "length (labelled n rows) = length rows" "map snd (labelled n rows) = map snd rows"
  "map fst (labelled n rows) = map (\<lambda>i. if is_real_row n (rows ! i) then fst (rows ! i) else of_nat (2 ^ n + i)) [0..<length rows]"
  by (simp_all add: labelled_def comp_def) (rule nth_equalityI; simp)

lemma in_range_labelled: "in_range ones rows \<Longrightarrow> in_range ones (labelled n rows)"
  by (auto simp: in_range_def labelled_def)

lemma next_power_of_two_le: "m \<le> 2 ^ k \<Longrightarrow> next_power_of_two m \<le> 2 ^ k"
proof (cases "m \<le> 1")
  case False
  assume m: "m \<le> 2 ^ k"
  have "2 ^ floor_log2 (m - 1) \<le> m - 1" using floor_log2_bounds [of "m - 1"] False by simp
  then have "(2 :: nat) ^ floor_log2 (m - 1) < 2 ^ k" using m False by linarith
  then have "floor_log2 (m - 1) < k" by (rule power_less_imp_less_exp [rotated]) simp
  then have "2 ^ Suc (floor_log2 (m - 1)) \<le> (2 :: nat) ^ k" by (intro power_increasing) simp_all
  then show ?thesis using False by (simp add: next_power_of_two_def)
qed (simp add: next_power_of_two_def)

text \<open>As many addresses as rows are in use at most, so the bottom level has room for all of them.\<close>

lemma real_rows_count:
  assumes "holds_rows A n f rows" and "card A \<le> 2 ^ n"
  shows "length (filter (is_real_row n) rows) \<le> 2 ^ n"
    and "card A = 2 ^ n \<Longrightarrow> \<forall>a \<in> A. f a \<noteq> None \<Longrightarrow> length (filter (is_real_row n) rows) = 2 ^ n"
proof -
  let ?R = "filter (is_real_row n) rows"
  have d: "length ?R = card (fst ` set ?R)" and sub: "fst ` set ?R \<subseteq> A"
    using assms(1) distinct_card [of "map fst ?R"] by (simp_all add: holds_rows_def)
  have fin: "finite A" by simp
  show "length ?R \<le> 2 ^ n" using card_mono [OF fin sub] d assms(2) by simp
  show "length ?R = 2 ^ n" if "card A = 2 ^ n" "\<forall>a \<in> A. f a \<noteq> None"
  proof -
    have "a \<in> fst ` set ?R" if a: "a \<in> A" for a
    proof -
      obtain y where "f a = Some y" using \<open>\<forall>a \<in> A. f a \<noteq> None\<close> a by auto
      then have "(a, y) \<in> set ?R" using assms(1) a unfolding holds_rows_def by blast
      then show ?thesis by force
    qed
    then have "fst ` set ?R = A" using sub by blast
    then show ?thesis using d that(1) by simp
  qed
qed

lemma finalized_rows:
  fixes V :: "'v::len value_ops"
  assumes ops: "arith_ok A" "doram_value V blk ones" "0 < num_blocks V" "and_protocol and_vec True" and c: "valid_config c"
    and X: "shared_list X (map fst rows)" and Y: "shared_records Y (map snd rows)" and range: "in_range ones rows"
    and small: "next_power_of_two (length rows) < 2 ^ 32" and n: "n = log_address_space_size c"
    and env: "online net" "correlated rng_reveal" "correlated rng_rows" "correlated rng" "never_rejected rng (length rows)"
    and rows: "holds_rows U n f rows" "card U \<le> 2 ^ n" "2 ^ n \<le> length rows"
    and init: "had_initial \<longrightarrow> card U = 2 ^ n \<and> (\<forall>a \<in> U. f a \<noteq> None)"
  shows "\<exists>X' Y' rows'. finalize_bottom_level A V net rng rng_reveal rng_rows and_vec c had_initial X Y = Inr (X', Y') \<and>
    shared_list X' (map fst rows') \<and> shared_records Y' (map snd rows') \<and> holds_rows U n f rows' \<and> in_range ones rows' \<and>
    distinct (map fst rows') \<and> length rows' = 2 ^ n"
proof -
  have n32: "n < 32" using c n by (simp add: valid_config_def)
  let ?out = "cleansed_rows n rows" and ?reals = "filter (is_real_row n) rows"
  have z: "zip (map fst rows) (map snd rows) = rows" by (simp add: zip_map_fst_snd)
  note fin = finalize_rows_ok [OF ops c X Y _ _ env(1-4) _ n refl refl, unfolded z length_map, OF refl small env(5)]
  note count = real_rows_count [OF rows(1,2)]
  show ?thesis
  proof (cases had_initial)
    case False
    obtain X' Y' where F: "finalize_bottom_level A V net rng rng_reveal rng_rows and_vec c False X Y = Inr (X', Y')"
      "shared_list X' (map fst (labelled n ?out))" "shared_records Y' (map snd (labelled n ?out))" "filter (is_real_row n) ?out = ?reals"
      using conjunct1 [OF fin] count(1) unfolding labelled_simps by auto
    have "length (padded_rows n rows) \<ge> 2 ^ n" using rows(3) by (simp add: padded_rows_def)
    then have len: "length ?out = 2 ^ n"
      unfolding cleansed_rows_def length_take length_append sum_length_filter_compl by simp
    have out: "holds_rows U n f ?out" by (rule holds_rows_mset [OF rows(1)]) (simp add: F(4))
    have "in_range ones ?out" using range
      by (auto simp: in_range_def cleansed_rows_def padded_rows_def dest!: in_set_takeD)
    then show ?thesis
      using F(1-3) False labelled_rows [OF n32 _ out] in_range_labelled len labelled_simps(1) [of n ?out]
      by (intro exI [of _ X'] exI [of _ Y'] exI [of _ "labelled n ?out"]) simp
  next
    case True
    have l: "length ?reals = 2 ^ n" using count(2) init True by blast
    obtain X' Y' rs where F: "finalize_bottom_level A V net rng rng_reveal rng_rows and_vec c True X Y = Inr (X', Y')"
      "mset rs = mset ?reals" "shared_list X' (map fst rs)" "shared_records Y' (map snd rs)"
      using conjunct2 [OF fin] l by (auto split: sum.splits)
    have "set rs = set ?reals" using F(2) by (rule mset_eq_setD)
    then have "filter (is_real_row n) rs = rs" "in_range ones rs" using range by (auto simp: filter_id_conv in_range_def)
    moreover have "holds_rows U n f rs" by (rule holds_rows_mset [OF rows(1)]) (simp add: calculation(1) F(2))
    moreover have "distinct (map fst rs)" using calculation(1,3) by (simp add: holds_rows_def)
    moreover have "length rs = 2 ^ n" using mset_eq_length [OF F(2)] l by simp
    moreover have "had_initial = True" using True by simp
    ultimately show ?thesis using F(1,3,4) by metis
  qed
qed

text \<open>All rows of a rebuild, gathered and settled.\<close>

lemma cleared_rows:
  assumes Y: "shared_records Y (map snd rows)" and range: "in_range ones rows"
  shows "shared_records (\<lambda>p. map clear_alibi (Y p)) (map snd (map (\<lambda>row. (fst row, (fst (snd row), 0))) rows))"
    and "in_range ones (map (\<lambda>row. (fst row, (fst (snd row), 0))) rows)"
proof -
  show "shared_records (\<lambda>p. map clear_alibi (Y p)) (map snd (map (\<lambda>row. (fst row, (fst (snd row), 0))) rows))"
    using shared_recordsD [OF Y] by (auto simp: shared_records_def intro!: clear_alibi_shared)
  show "in_range ones (map (\<lambda>row. (fst row, (fst (snd row), 0))) rows)" using range by (simp add: in_range_def)
qed

text \<open>What cache and extracted levels hold of an address.\<close>

definition rebuilt_value :: "doram_schedule \<Rightarrow> (32 word \<rightharpoonup> 'v clear_record) \<Rightarrow> 'v::len level_view option list \<Rightarrow> 32 word \<Rightarrow> 'v clear_record option" where
  "rebuilt_value st m Ws a = map_option (\<lambda>y. (fst y, 0)) (find_entry a (views_in Ws [0..<Suc (rebuild_level st)]) (m a))"

lemma gathered_rows:
  fixes D :: "'v::len doram_tables"
  assumes ready: "rebuild_ready ones A st D m Ws"
  defines "r \<equiv> rebuild_level st" and "c \<equiv> sch_config st"
  shows "\<exists>X Y rows. gather_rows st D (r + (if sch_levels st ! r \<noteq> None then 1 else 0)) = Inr (X, Y) \<and>
    shared_list X (map fst rows) \<and> shared_records Y (map snd rows) \<and>
    holds_rows A (log_address_space_size c) (rebuilt_value st m Ws) rows \<and> in_range ones rows \<and>
    length rows = amp_of c ^ r * cache_of c + (if base_b_state_vec st ! r = 0 then 0 else level_size c r (base_b_state_vec st ! r))"
proof -
  have ok: "schedule_ok st" and full: "sch_num_stored st = sch_length st" and step: "in_step st D Ws"
    using ready by (simp_all add: rebuild_ready_def)
  note len = ready_lengths [OF ready]
  have rW: "r < length Ws" using rebuild_level_props(1) [OF ok] by (simp add: len r_def)
  let ?last = "r + (if sch_levels st ! r \<noteq> None then 1 else 0)"
  have views: "views_in Ws [0..<?last] = views_in Ws [0..<Suc r]"
    using in_step_level(2) [OF step rW] by (simp add: views_in_def)
  have le: "?last \<le> Suc (rebuild_level st)" by (simp add: r_def)
  obtain cached X Y rows where g: "cache_extract (dt_speed_cache D) = Inr cached"
    "foldE (extract_level_rows st (dt_levels D)) [0..<?last] cached = Inr (X, Y)"
    "shared_list X (map fst rows)" "shared_records Y (map snd rows)"
    "holds_rows A (log_address_space_size c) (\<lambda>a. find_entry a (views_in Ws [0..<Suc r]) (m a)) rows" "in_range ones rows"
    "foldE (\<lambda>level. extract_level level st) [0..<?last] (sch_length st) = Inr (length rows)"
    using gather_levels [OF ready le] unfolding views c_def by blast
  have size: "length rows = amp_of c ^ r * cache_of c + (if base_b_state_vec st ! r = 0 then 0 else level_size c r (base_b_state_vec st ! r))"
  proof -
    have "extract_all ?last st = Inr (length rows)" using g(7) full by (simp only: extract_all_def checkE_True)
    then show ?thesis using extract_all_ok [OF ok full] unfolding r_def c_def by (metis sum.inject(2))
  qed
  let ?rows = "map (\<lambda>row. (fst row, (fst (snd row), 0))) rows"
  have ne: "length rows \<noteq> 0" using size amp_pos [of c] by simp
  have l: "length (X p) = length rows" "length (Y p) = length rows" for p
    using shared_listD(1) [OF g(3)] shared_recordsD(1) [OF g(4)] by simp_all
  have "X p \<noteq> []" for p using ne l(1) [of p] by force
  then have "everywhere (\<lambda>p. X p \<noteq> [])" "everywhere (\<lambda>p. length (X p) = length (Y p))" using l by auto
  then have "gather_rows st D ?last = Inr (X, \<lambda>p. map clear_alibi (Y p))"
    unfolding gather_rows_def g(1) bindE_simps g(2) prod.case by (simp only: checkE_True)
  moreover have "shared_list X (map fst ?rows)" using g(3) by (simp add: comp_def)
  moreover have "holds_rows A (log_address_space_size c) (rebuilt_value st m Ws) ?rows"
    using holds_rows_clear [OF g(5)] by (simp add: rebuilt_value_def [abs_def] r_def)
  moreover have "length ?rows = amp_of c ^ r * cache_of c + (if base_b_state_vec st ! r = 0 then 0 else level_size c r (base_b_state_vec st ! r))"
    unfolding length_map by (rule size)
  ultimately show ?thesis using cleared_rows [OF g(4,6)] by blast
qed

lemma rebuild_rows_ok:
  fixes V :: "'v::len value_ops"
  assumes ready: "rebuild_ready ones U st D m Ws"
    and ops: "arith_ok A" "doram_value V blk ones" "0 < num_blocks V" "and_protocol and_vec True"
    and env: "online net" "correlated rng_reveal" "correlated rng_rows" "correlated rng" "never_rejected rng (2 ^ 32)"
    and bottom: "rebuild_level st = num_levels (sch_config st) - 1 \<longrightarrow> log_address_space_size (sch_config st) \<le> 30"
    and space: "card U \<le> 2 ^ log_address_space_size (sch_config st)"
    and init: "had_initial_bottom_level st \<longrightarrow> card U = 2 ^ log_address_space_size (sch_config st) \<and> (\<forall>a \<in> U. doram_lookup m Ws a \<noteq> None)"
  shows "\<exists>X Y rows. rebuild_rows A V net rng rng_reveal rng_rows and_vec st D = Inr (X, Y) \<and>
    shared_list X (map fst rows) \<and> shared_records Y (map snd rows) \<and>
    holds_rows U (log_address_space_size (sch_config st)) (rebuilt_value st m Ws) rows \<and> in_range ones rows \<and>
    distinct (map fst rows) \<and> length rows = level_size (sch_config st) (rebuild_level st) (rebuilt_digit st)"
proof -
  let ?c = "sch_config st" and ?r = "rebuild_level st" and ?n = "log_address_space_size (sch_config st)" and ?f = "rebuilt_value st m Ws"
  have ok: "schedule_ok st" using ready by (simp add: rebuild_ready_def)
  note len = ready_lengths [OF ready] and valid = ready_valid [OF ready] and r = rebuild_level_props [OF ok]
  note b = rebuilt_digit_bounds [OF ok]
  obtain X Y rows where g: "gather_rows st D (?r + (if sch_levels st ! ?r \<noteq> None then 1 else 0)) = Inr (X, Y)"
    "shared_list X (map fst rows)" "shared_records Y (map snd rows)" "holds_rows U ?n ?f rows" "in_range ones rows"
    "length rows = amp_of ?c ^ ?r * cache_of ?c + (if base_b_state_vec st ! ?r = 0 then 0 else level_size ?c ?r (base_b_state_vec st ! ?r))"
    using gathered_rows [OF ready] by blast
  have target: "rebuild_target st = Inr (?r, sch_levels st ! ?r \<noteq> None)" by (rule rebuild_target_eq [OF ok])
  show ?thesis
  proof (cases "?r = num_levels ?c - 1")
    case True
    have size: "2 ^ ?n \<le> length rows" "length rows \<le> 2 * 2 ^ ?n" using g(6) True bottom_size [OF valid] by (simp_all add: level_size_def)
    have n30: "?n \<le> 30" using bottom True by simp
    have "next_power_of_two (length rows) \<le> 2 ^ Suc ?n" by (rule next_power_of_two_le) (use size in simp)
    also have "\<dots> \<le> 2 ^ 31" using n30 by (intro power_increasing) simp_all
    finally have small: "next_power_of_two (length rows) < 2 ^ 32" by simp
    have "length rows \<le> 2 ^ 32" using small next_power_of_two_ge [of "length rows"] by simp
    then have nr: "never_rejected rng (length rows)" using env(5) by (simp add: never_rejected_def)
    have init': "had_initial_bottom_level st \<longrightarrow> card U = 2 ^ ?n \<and> (\<forall>a \<in> U. ?f a \<noteq> None)"
    proof -
      have "live_views Ws = views_in Ws [0..<Suc ?r]" using True r(1) by (simp add: live_views_in len)
      then show ?thesis using init by (simp add: rebuilt_value_def doram_lookup_def)
    qed
    obtain X' Y' rows' where F: "finalize_bottom_level A V net rng rng_reveal rng_rows and_vec ?c (had_initial_bottom_level st) X Y = Inr (X', Y')"
      "shared_list X' (map fst rows')" "shared_records Y' (map snd rows')" "holds_rows U ?n ?f rows'" "in_range ones rows'"
      "distinct (map fst rows')" "length rows' = 2 ^ ?n"
      using finalized_rows [OF ops valid g(2,3,5) small refl env(1-4) nr g(4) space size(1) init'] by blast
    have "rebuild_rows A V net rng rng_reveal rng_rows and_vec st D = Inr (X', Y')"
      unfolding rebuild_rows_def target bindE_simps prod.case g(1) if_P [OF True] F(1) ..
    moreover have "length rows' = level_size ?c ?r (rebuilt_digit st)" using F(7) True by (simp add: level_size_def)
    ultimately show ?thesis using F(2-6) by blast
  next
    case False
    have size: "length rows = level_size ?c ?r (rebuilt_digit st)"
      using g(6) False by (simp add: level_size_def rebuilt_digit_def algebra_simps)
    have num: "num_elements_at ?c ?r (base_b_state_vec st ! ?r + 1) = Inr (length rows)"
      using num_elements_at_level_size [OF valid r(1) b(2)] False size by (simp add: rebuilt_digit_def)
    have le: "length rows \<le> 2 ^ ?n" unfolding size by (rule level_size_bounds(2) [OF valid r(1) b(3,2)])
    have g2: "getE (base_b_state_vec st) ?r = Inr (base_b_state_vec st ! ?r)" using r(1) len by simp
    have lab: "map (\<lambda>i. if bit (map fst rows ! i) ?n then of_nat (2 ^ ?n + i) else map fst rows ! i) [0..<length (map fst rows)] = map fst (labelled ?n rows)"
      unfolding labelled_simps by (rule map_cong) (auto simp: is_real_row_def)
    obtain X' where X': "relabel_dummies and_vec ?c X = Inr X'" "shared_list X' (map fst (labelled ?n rows))"
      using relabel_dummies_ok [OF ops(4) valid g(2)] le unfolding lab by auto
    have "everywhere (\<lambda>p. length (X p) = length rows)" using shared_listD(1) [OF g(2)] by auto
    then have "rebuild_rows A V net rng rng_reveal rng_rows and_vec st D = Inr (X', Y)"
      unfolding rebuild_rows_def target bindE_simps prod.case g(1) if_not_P [OF False] g2 num by (simp only: checkE_True bindE_simps X'(1))
    then show ?thesis
      using X'(2) g(3) size labelled_rows [OF len(5) le g(4)] in_range_labelled [OF g(5)] labelled_simps(1,2) [of ?n rows] by metis
  qed
qed

end
