(* ===== verification/Rebuild.thy ===== *)
theory Rebuild
  imports Rebuild_Rows
begin

text \<open>
  The rebuild as a whole, \<open>rebuild\<close> of \<open>crates/doram/src/lib.rs\<close>, rows and public state together: the
  old levels are deleted, the table of the new level is built from the settled rows
  (\<open>Rebuild_Rows\<close>), and its stash is written to the emptied cache with the alibi of the level.
  The build itself is \<open>oht_new\<close> (\<open>Oht\<close>), the public state is that of \<open>Schedule\<close>, and the property is
  that every address keeps its value.
\<close>

section \<open>The code\<close>

definition delete_table :: "nat \<Rightarrow> 'v::len live_level option list \<Rightarrow> 'v live_level option list res" where
  "delete_table level levels = setE levels level None"

text \<open>The table of the new level, with its packed keys, and the stash entries with their alibi bits.\<close>

definition new_table ::
    "'v::len value_ops \<Rightarrow> network \<Rightarrow> rngs \<Rightarrow> (nat \<Rightarrow> nat) \<Rightarrow> (party \<Rightarrow> 128 word share list) \<Rightarrow> ohtable_params \<Rightarrow> 32 shares \<Rightarrow>
     (party \<Rightarrow> 'v dr_record list) \<Rightarrow> 'v live_level res" where
  "new_table V net rng gen key params xs ys =
     bindE (oht_new V net rng gen params xs ys key) (\<lambda>table.
     bindE (each_party (\<lambda>p. precompute_round_keys (key p))) (\<lambda>packed_key.
       Inr \<lparr>lv_packed_key = packed_key, lv_table = table\<rparr>))"

definition stash_to_cache :: "nat \<Rightarrow> 'v::len live_level \<Rightarrow> 'v speed_cache \<Rightarrow> 'v speed_cache res" where
  "stash_to_cache level lv cache =
     cache_put (\<lambda>p. stash_xs (lv_table lv p)) (\<lambda>p. map (\<lambda>y. set_alibi_bit y level p) (stash_ys (lv_table lv p))) cache"

text \<open>The rebuild: rows and schedule together.\<close>

text \<open>What the schedule sees of the build: its error, or the slots it gave to the stash.\<close>

definition stash_slots :: "'v::len oh_table \<Rightarrow> nat list" where
  "stash_slots t = filter ((!) (touched t)) [0..<length (touched t)]"

definition table_data ::
    "'v::len value_ops \<Rightarrow> network \<Rightarrow> rngs \<Rightarrow> (nat \<Rightarrow> nat) \<Rightarrow> (party \<Rightarrow> 128 word share list) \<Rightarrow> 32 shares \<Rightarrow>
     (party \<Rightarrow> 'v dr_record list) \<Rightarrow> run_data" where
  "table_data V net rng gen key xs ys = \<lparr>rd_reals = 0,
     rd_build = \<lambda>params. bindE (new_table V net rng gen key params xs ys) (\<lambda>lv. Inr (stash_slots (lv_table lv ID0))),
     rd_slots = \<lambda>_ _ _. []\<rparr>"

definition rebuild_tables ::
    "arith_ops \<Rightarrow> 'v::len value_ops \<Rightarrow> network \<Rightarrow> rngs \<Rightarrow> rngs \<Rightarrow> rngs \<Rightarrow> rngs \<Rightarrow> (nat \<Rightarrow> nat) \<Rightarrow> (32 shares \<Rightarrow> 32 shares \<Rightarrow> 32 shares res) \<Rightarrow>
     (party \<Rightarrow> 128 word share list) \<Rightarrow> doram_schedule \<Rightarrow> 'v doram_tables \<Rightarrow> (doram_schedule \<times> 'v doram_tables) res" where
  "rebuild_tables A V net rng rng_reveal rng_rows rng_build gen and_vec key st D =
     bindE (rebuild_target st) (\<lambda>(rebuild_to, need_to_extract_from_rebuild_to).
     bindE (rebuild_rows A V net rng rng_reveal rng_rows and_vec st D) (\<lambda>(xs, ys).
     bindE (cache_new st) (\<lambda>st.
     let cache = speed_cache_new (sch_length st) (log_address_space_size (sch_config st)) in
     bindE (foldE delete_level [0..<rebuild_to] st) (\<lambda>st.
     bindE (foldE delete_table [0..<rebuild_to] (dt_levels D)) (\<lambda>levels.
     bindE (if need_to_extract_from_rebuild_to then delete_level rebuild_to st else Inr st) (\<lambda>st.
     bindE (if need_to_extract_from_rebuild_to then delete_table rebuild_to levels else Inr levels) (\<lambda>levels.
     checkE (everywhere (\<lambda>p. length (xs p) = length (ys p))) (Panic ''xs.len() == ys.len()'')
    (bindE (new_ohtable_of_level (table_data V net rng_build gen key xs ys) rebuild_to (length (xs ID0)) st) (\<lambda>st.
     bindE (getE (sch_levels st) rebuild_to) (\<lambda>t.
     bindE (case t of Some t \<Rightarrow> Inr (lt_params t) | None \<Rightarrow> Inl (Panic ''newly rebuilt level should exist'')) (\<lambda>params.
     bindE (new_table V net rng_build gen key params xs ys) (\<lambda>lv.
     bindE (setE levels rebuild_to (Some lv)) (\<lambda>levels.
     bindE (insert_stash rebuild_to st) (\<lambda>st.
     bindE (stash_to_cache rebuild_to lv cache) (\<lambda>cache.
       Inr (st, \<lparr>dt_levels = levels, dt_speed_cache = cache, dt_packed_query_key = None\<rparr>))))))))))))))))"

section \<open>The new level\<close>

definition fresh_view :: "ohtable_params \<Rightarrow> 128 word list \<Rightarrow> 'v::len row list \<Rightarrow> nat list \<Rightarrow> 'v level_view" where
  "fresh_view P ks rows js = \<lparr>vw_params = P, vw_keys = ks, vw_xs = map fst rows, vw_ys = map snd rows,
     vw_stashed = set js, vw_live = {..<oh_total_size P} - set js, vw_count = 0\<rparr>"

lemma fresh_view_simps [simp]:
  "vw_params (fresh_view P ks rows js) = P" "vw_keys (fresh_view P ks rows js) = ks" "vw_xs (fresh_view P ks rows js) = map fst rows"
  "vw_ys (fresh_view P ks rows js) = map snd rows" "vw_stashed (fresh_view P ks rows js) = set js"
  "vw_live (fresh_view P ks rows js) = {..<oh_total_size P} - set js" "vw_count (fresh_view P ks rows js) = 0"
  by (simp_all add: fresh_view_def)

text \<open>The luck a new level needs: the tags of its addresses, and of those in use, differ, and can be placed.\<close>

definition tags_fit :: "32 word set \<Rightarrow> 128 word list \<Rightarrow> nat \<Rightarrow> nat \<Rightarrow> 32 word list \<Rightarrow> bool" where
  "tags_fit U ks l stash xs \<longleftrightarrow> inj_on (\<lambda>x. block_tag (prf_tag ks x)) (U \<union> set xs) \<and>
     0 \<notin> (\<lambda>x. block_tag (prf_tag ks x)) ` (U \<union> set xs) \<and> placeable l stash (map (prf_tag ks) xs)"

lemma tags_fit_good:
  assumes xs: "distinct xs" and fit: "tags_fit U ks l stash xs"
  shows "good_tags (map (prf_tag ks) xs)"
proof -
  have "distinct (map block_tag (map (prf_tag ks) xs))"
    using xs fit by (simp add: tags_fit_def distinct_map comp_def inj_on_def)
  then show ?thesis using fit by (auto simp: good_tags_def tags_fit_def)
qed

lemma packed_key_ok:
  assumes "shared_list key ks" and "length ks = 10"
  shows "\<exists>packed. each_party (\<lambda>p. precompute_round_keys (key p)) = Inr packed \<and> lane_keys (\<lambda>p. [packed p]) [ks]"
proof -
  let ?Q = "\<lambda>p. map (\<lambda>round. bit_slice [(key p ! round, 1 :: 8 word)]) [0..<10]"
  have pre: "precompute_round_keys (key p) = Inr (?Q p)" for p
    using shared_listD(1) [OF assms(1)] assms(2) by (simp add: precompute_round_keys_def)
  have "shared_keys (\<lambda>p. [key p]) [ks]" using assms by (simp add: shared_keys_def shared_cols_def)
  then obtain Q where Q: "each_party (\<lambda>p. mapE precompute_round_keys [key p]) = Inr Q" "lane_keys Q [ks]" using precompute_ok by blast
  have "each_party (\<lambda>p. mapE precompute_round_keys [key p]) = Inr (\<lambda>p. [?Q p])" by (rule each_party_Inr) (simp add: pre)
  then have "Q = (\<lambda>p. [?Q p])" using Q(1) by simp
  then show ?thesis using Q(2) each_party_Inr [of "\<lambda>p. precompute_round_keys (key p)" ?Q] pre by blast
qed

lemma new_table_ok:
  fixes V :: "'v::len value_ops"
  assumes V: "doram_value V blk ones" "0 < num_blocks V" and X: "shared_list X (map fst rows)" and Y: "shared_records Y (map snd rows)"
    and K: "shared_list key ks" "length ks = 10" and valid: "valid_config c" and r: "r < num_levels c"
    and P: "level_ok c r b P" "new_params_ok c r b P" "length rows = level_size c r b" "0 < b" "b \<le> amp_of c"
    and xs: "distinct (map fst rows)" and fit: "tags_fit U ks (oh_log_single_col_len P) (stash_size c) (map fst rows)"
    and gen: "\<And>i. gen i \<le> i" and env: "online net" "correlated rng" "never_rejected rng (2 ^ 32)"
  shows "\<exists>lv js. new_table V net rng gen key P X Y = Inr lv \<and> level_holds lv (fresh_view P ks rows js) \<and>
    distinct js \<and> set js \<subseteq> {..<length rows} \<and> length js = stash_size c \<and>
    shared_list (\<lambda>p. stash_xs (lv_table lv p)) (map ((!) (map fst rows)) js) \<and>
    shared_records (\<lambda>p. stash_ys (lv_table lv p)) (map ((!) (map snd rows)) js)"
proof -
  have size: "oh_num_elements P = length (map fst rows)" "oh_stash_size P = stash_size c" "oh_num_dummies P = amp_of c ^ r * fill_of c"
    using P(1,3) by (simp_all add: level_ok_def level_size_def)
  have "amp_of c ^ r * fill_of c \<le> amp_of c ^ r * cache_of c" by (intro mult_le_mono2) (simp add: fill_of_def)
  also have "\<dots> \<le> amp_of c ^ (num_levels c - 1) * cache_of c"
    using r amp_pos(1) [of c] by (intro mult_le_mono1 power_increasing) (simp_all add: Suc_leI del: amp_pos)
  also have "\<dots> = 2 ^ log_address_space_size c" using bottom_size [OF valid] by simp
  finally have "oh_num_dummies P \<le> 2 ^ log_address_space_size c" by (simp add: size)
  moreover have "length rows \<le> 2 ^ log_address_space_size c" unfolding P(3) by (rule level_size_bounds(2) [OF valid r P(4,5)])
  moreover have "(2 :: nat) ^ log_address_space_size c \<le> 2 ^ 31"
    using valid by (intro power_increasing) (auto simp: valid_config_def)
  ultimately have total: "oh_total_size P \<le> 2 ^ 32" by (simp add: oh_total_size_def size)
  then have nr: "never_rejected rng (oh_total_size P)" using env(3) by (simp add: never_rejected_def)
  note good = tags_fit_good [OF xs fit]
  have v: "oh_validate P = Inr ()" "oh_log_single_col_len P \<le> 62" using P(2) by (simp_all add: new_params_ok_def)
  have place: "placeable (oh_log_single_col_len P) (oh_stash_size P) (map (prf_tag ks) (map fst rows))"
    using fit by (simp only: tags_fit_def size(2))
  obtain js T where T: "oht_new V net rng gen P X Y key = Inr T" "distinct js"
    "oht_holds P ks (map fst rows) (map snd rows) (set js) ({..<oh_total_size P} - set js) 0 T"
    "shared_list (\<lambda>p. stash_xs (T p)) (map ((!) (map fst rows)) js)" "shared_records (\<lambda>p. stash_ys (T p)) (map ((!) (map snd rows)) js)"
    using oht_new_ok [OF V X Y _ K v(1) size(1) total v(2) good place gen env(1,2) nr] by auto
  obtain packed where packed: "each_party (\<lambda>p. precompute_round_keys (key p)) = Inr packed" "lane_keys (\<lambda>p. [packed p]) [ks]"
    using packed_key_ok [OF K] by blast
  obtain bpos lp table where "table_layout P ks (map fst rows) (set js) bpos lp table" using T(3) unfolding oht_holds_def by blast
  then have "set js \<subseteq> {..<length rows}" using layoutD(6) by fastforce
  moreover have "length js = stash_size c"
    using oht_holds_stash [OF T(3)] distinct_card [OF T(2)] by (simp add: size)
  moreover have "level_holds \<lparr>lv_packed_key = packed, lv_table = T\<rparr> (fresh_view P ks rows js)"
    using T(3) packed(2) by (simp add: level_holds_def)
  ultimately show ?thesis
    using T packed(1) by (intro exI [of _ "\<lparr>lv_packed_key = packed, lv_table = T\<rparr>"] exI [of _ js]) (simp add: new_table_def)
qed

text \<open>The stash in the emptied cache.\<close>

definition stash_map :: "nat \<Rightarrow> nat \<Rightarrow> 'v::len row list \<Rightarrow> nat list \<Rightarrow> 32 word \<rightharpoonup> 'v clear_record" where
  "stash_map n level rows js =
     cache_map n (map (\<lambda>j. (fst (rows ! j), (fst (snd (rows ! j)), set_bit level (snd (snd (rows ! j)))))) js)"

lemma stash_to_cache_ok:
  fixes rows :: "'v::len row list"
  assumes n: "n < 32" and level: "level < 8" and js: "distinct js" "set js \<subseteq> {..<length rows}" and xs: "distinct (map fst rows)"
    and room: "length js < len" and range: "in_range ones rows"
    and X: "shared_list (\<lambda>p. stash_xs (lv_table lv p)) (map ((!) (map fst rows)) js)"
    and Y: "shared_records (\<lambda>p. stash_ys (lv_table lv p)) (map ((!) (map snd rows)) js)"
  shows "\<exists>C. stash_to_cache level lv (speed_cache_new len n) = Inr C \<and> cache_refines ones C (stash_map n level rows js) \<and>
    sc_num_stored C = length js \<and> sc_length C = len \<and> sc_log_address_space_size C = n"
proof -
  let ?xs = "map ((!) (map fst rows)) js" and ?g = "\<lambda>y. (fst y, set_bit level (snd y))"
  let ?rs = "map ?g (map ((!) (map snd rows)) js)" and ?C = "speed_cache_new len n :: 'v speed_cache"
  have D: "shared_records (\<lambda>p. map (\<lambda>y. set_alibi_bit y level p) (stash_ys (lv_table lv p))) ?rs"
  proof -
    have "shared_record (\<lambda>p. set_alibi_bit (stash_ys (lv_table lv p) ! i) level p) (?g (map ((!) (map snd rows)) js ! i))"
      if "i < length js" for i
      by (rule set_alibi_bit_shared [OF shared_recordsD(2) [OF Y] level]) (simp add: that)
    then show ?thesis using shared_recordsD(1) [OF Y] by (simp add: shared_records_def)
  qed
  have dist: "distinct ?xs"
    using js(1) inj_on_nth [OF xs, of "set js"] js(2) by (simp add: distinct_map subset_iff)
  have z: "zip ?xs ?rs = map (\<lambda>j. (fst (rows ! j), ?g (snd (rows ! j)))) js"
    using js(2) by (auto simp: zip_map_map zip_same_conv_map intro!: nth_equalityI)
  have range': "in_range ones (zip ?xs ?rs)"
    unfolding z using range js(2) by (auto simp: in_range_def subset_iff)
  have C0: "cache_refines ones ?C Map.empty" by (rule speed_cache_new_refines [OF n])
  have room': "is_writeable ?C" "sc_num_stored ?C + length ?xs \<le> sc_length ?C"
    using room by (simp_all add: is_writeable_def speed_cache_new_def)
  have l: "length ?rs = length ?xs" by simp
  have free: "\<forall>x \<in> set ?xs. real_address (sc_log_address_space_size ?C) x \<longrightarrow> Map.empty x = None" by simp
  obtain C where "cache_put (\<lambda>p. stash_xs (lv_table lv p)) (\<lambda>p. map (\<lambda>y. set_alibi_bit y level p) (stash_ys (lv_table lv p))) ?C = Inr C"
    "cache_refines ones C (Map.empty ++ cache_map (sc_log_address_space_size ?C) (zip ?xs ?rs))"
    "sc_num_stored C = sc_num_stored ?C + length ?xs" "sc_length C = sc_length ?C" "sc_log_address_space_size C = sc_log_address_space_size ?C"
    using cache_put_refines [OF C0 X D l room' range' dist free] by blast
  then show ?thesis unfolding z by (simp add: stash_to_cache_def stash_map_def speed_cache_new_def)
qed

section \<open>The memory after a rebuild\<close>

lemma upt_split: "r < n \<Longrightarrow> [0..<n] = [0..<Suc r] @ [Suc r..<n]"
  using upt_add_eq_append [of 0 "Suc r" "n - Suc r"] by (simp del: upt_Suc)

lemma live_views_split: "r < length Ws \<Longrightarrow> live_views Ws = views_in Ws [0..<Suc r] @ views_in Ws [Suc r..<length Ws]"
  unfolding live_views_in views_in_append [symmetric] by (simp only: upt_split [symmetric])

definition rebuilt_views :: "nat \<Rightarrow> 'v::len level_view \<Rightarrow> 'v level_view option list \<Rightarrow> 'v level_view option list" where
  "rebuilt_views r W Ws = map (\<lambda>i. if i < r then None else if i = r then Some W else Ws ! i) [0..<length Ws]"

lemma live_rebuilt_views:
  assumes "r < length Ws"
  shows "live_views (rebuilt_views r W Ws) = (r, W) # views_in Ws [Suc r..<length Ws]"
proof -
  let ?Ws = "rebuilt_views r W Ws"
  have len: "length ?Ws = length Ws" by (simp add: rebuilt_views_def)
  have "views_in ?Ws [0..<r] = []" "views_in ?Ws [r] = [(r, W)]"
    using assms by (simp_all add: views_in_def rebuilt_views_def filter_empty_conv)
  moreover have "views_in ?Ws [0..<Suc r] = views_in ?Ws [0..<r] @ views_in ?Ws [r]"
    unfolding views_in_append [symmetric] by simp
  moreover have "views_in ?Ws [Suc r..<length Ws] = views_in Ws [Suc r..<length Ws]"
    unfolding views_in_def by (rule map_cong [OF filter_cong]) (auto simp: rebuilt_views_def)
  ultimately show ?thesis using assms by (simp only: live_views_split len append.simps)
qed

lemma fresh_not_asked:
  assumes "set js \<subseteq> {..<length rows}" and "length rows \<le> oh_total_size P"
  shows "\<not> asked_before (fresh_view P ks rows js) a"
  unfolding asked_before_def oht_spent_def using assms(2) by auto

lemma fresh_view_map:
  assumes xs: "distinct (map fst rows)" and fit: "tags_fit U ks l stash (map fst rows)" and a: "a \<in> U"
    and js: "set js \<subseteq> {..<length rows}" and len: "length rows \<le> oh_total_size P"
  shows "view_map (fresh_view P ks rows js) a = Some y \<longleftrightarrow> (\<exists>j < length rows. j \<notin> set js \<and> rows ! j = (a, y))"
proof -
  have tag: "block_tag (prf_tag ks (fst (rows ! j))) = block_tag (prf_tag ks a) \<longleftrightarrow> fst (rows ! j) = a" if "j < length rows" for j
  proof -
    have "fst (rows ! j) \<in> U \<union> set (map fst rows)" using that by simp
    then show ?thesis using fit a unfolding tags_fit_def by (metis (no_types, lifting) UnCI inj_on_eq_iff)
  qed
  have "view_map (fresh_view P ks rows js) a = Some y \<longleftrightarrow>
      (\<exists>j < length rows. j < oh_total_size P \<and> j \<notin> set js \<and> fst (rows ! j) = a \<and> snd (rows ! j) = y)"
    unfolding view_map_def view_tag_def fresh_view_simps oht_entries_Some [OF tags_fit_good [OF xs fit]] using tag by auto
  then show ?thesis using len by (auto simp: prod_eq_iff)
qed

lemma stash_map_value:
  assumes xs: "distinct (map fst rows)" and a: "real_address n a" and js: "distinct js" "set js \<subseteq> {..<length rows}"
  shows "stash_map n r rows js a = Some z \<longleftrightarrow>
    (\<exists>j < length rows. j \<in> set js \<and> fst (rows ! j) = a \<and> z = (fst (snd (rows ! j)), set_bit r (snd (snd (rows ! j)))))"
proof -
  let ?es = "map (\<lambda>j. (fst (rows ! j), (fst (snd (rows ! j)), set_bit r (snd (snd (rows ! j)))))) js"
  have inj: "inj_on (\<lambda>j. fst (rows ! j)) (set js)"
  proof (rule inj_onI)
    fix i j assume "i \<in> set js" "j \<in> set js" "fst (rows ! i) = fst (rows ! j)"
    then show "i = j" using xs js(2) nth_eq_iff_index_eq [OF xs, of i j] by (auto simp: subset_iff)
  qed
  have "distinct (map fst ?es)" using js(1) inj by (simp add: comp_def distinct_map)
  moreover have "stash_map n r rows js a = map_of ?es a"
    using map_of_real [OF a, of ?es] a by (simp add: stash_map_def cache_map_def)
  ultimately show ?thesis using js(2) by (auto simp: map_of_eq_Some_iff)
qed

text \<open>What one address finds: its row is in the new table or, with the alibi of the level, in the stash.\<close>

lemma rebuilt_place:
  assumes holds: "holds_rows U n (rebuilt_value st m Ws) rows" and xs: "distinct (map fst rows)"
    and fit: "tags_fit U ks l stash (map fst rows)" and a: "a \<in> U" "real_address n a"
    and js: "distinct js" "set js \<subseteq> {..<length rows}" and len: "length rows \<le> oh_total_size P"
  defines "W \<equiv> fresh_view P ks rows js" and "old \<equiv> find_entry a (views_in Ws [0..<Suc (rebuild_level st)]) (m a)"
  shows "case stash_map n r rows js a of
      None \<Rightarrow> view_map W a = map_option (\<lambda>y. (fst y, 0)) old
    | Some z \<Rightarrow> view_map W a = None \<and> snd z = set_bit r 0 \<and> map_option fst old = Some (fst z)"
proof -
  have row: "rebuilt_value st m Ws a = Some y" if "rows ! j = (a, y)" "j < length rows" for j y
  proof -
    have "(a, y) \<in> set (filter (is_real_row n) rows)"
      using that nth_mem [of j rows] a(2) by (simp add: is_real_row_def real_address_def)
    then show ?thesis using holds a(1) unfolding holds_rows_def by blast
  qed
  have uniq: "i = j" if "rows ! i = (a, y)" "rows ! j = (a, z)" "i < length rows" "j < length rows" for i j y z
    using that nth_eq_iff_index_eq [OF xs, of i j] by simp
  note view = fresh_view_map [OF xs fit a(1) js(2) len, folded W_def] and in_stash = stash_map_value [OF xs a(2) js]
  show ?thesis
  proof (cases "stash_map n r rows js a")
    case None
    have "view_map W a = rebuilt_value st m Ws a"
    proof (cases "rebuilt_value st m Ws a")
      case (Some y)
      then have "(a, y) \<in> set (filter (is_real_row n) rows)" using holds a(1) unfolding holds_rows_def by blast
      then have "(a, y) \<in> set rows" by simp
      then obtain j where j: "j < length rows" "rows ! j = (a, y)" by (auto simp: in_set_conv_nth)
      then have "j \<notin> set js" using None in_stash by (metis fst_conv option.distinct(1))
      then show ?thesis using j view Some by metis
    next
      case None
      then show ?thesis using view row by (metis not_Some_eq)
    qed
    then show ?thesis using None by (simp add: rebuilt_value_def old_def)
  next
    case (Some z)
    then obtain j where j: "j < length rows" "j \<in> set js" "fst (rows ! j) = a"
      "z = (fst (snd (rows ! j)), set_bit r (snd (snd (rows ! j))))" using in_stash by blast
    define y where "y = snd (rows ! j)"
    have y: "rows ! j = (a, y)" using j(3) by (simp add: y_def prod_eq_iff)
    have "view_map W a \<noteq> Some y'" for y' using view uniq j(1,2) y by metis
    then have "view_map W a = None" by blast
    moreover have "map_option (\<lambda>y. (fst y, 0)) old = Some y"
      using row [OF y j(1)] by (simp add: rebuilt_value_def old_def)
    ultimately show ?thesis using Some j(4) y by auto
  qed
qed

lemma rebuilt_memory:
  fixes rows :: "'v::len row list"
  assumes ok: "memory_ok ones U m Ws" and U: "\<forall>a \<in> U. real_address n a" and r: "rebuild_level st < length Ws"
    and holds: "holds_rows U n (rebuilt_value st m Ws) rows" and xs: "distinct (map fst rows)" and range: "in_range ones rows"
    and fit: "tags_fit U ks l stash (map fst rows)" and js: "distinct js" "set js \<subseteq> {..<length rows}"
    and P: "length rows \<le> oh_total_size P" "oh_log_address_space_size P = n"
  defines "Ws' \<equiv> rebuilt_views (rebuild_level st) (fresh_view P ks rows js) Ws" and "m' \<equiv> stash_map n (rebuild_level st) rows js"
  shows "memory_ok ones U m' Ws'" and "\<forall>a \<in> U. map_option fst (doram_lookup m' Ws' a) = map_option fst (doram_lookup m Ws a)"
proof -
  let ?r = "rebuild_level st" and ?W = "fresh_view P ks rows js"
  let ?above = "views_in Ws [Suc (rebuild_level st)..<length Ws]" and ?below = "views_in Ws [0..<Suc (rebuild_level st)]"
  note live = live_views_split [OF r] and live' = live_rebuilt_views [OF r, of ?W, folded Ws'_def]
  have real: "fst row \<in> U" if "row \<in> set rows" "real_address n (fst row)" for row
  proof -
    have "row \<in> set (filter (is_real_row n) rows)" using that by (simp add: is_real_row_def real_address_def)
    then show ?thesis using holds unfolding holds_rows_def by blast
  qed
  have "dom m' \<subseteq> U"
  proof
    fix a assume "a \<in> dom m'"
    then have "map_of (map (\<lambda>j. (fst (rows ! j), (fst (snd (rows ! j)), set_bit ?r (snd (snd (rows ! j)))))) js) a \<noteq> None" "real_address n a"
      by (auto simp: m'_def stash_map_def cache_map_def split: if_splits)
    then obtain j where "j \<in> set js" "fst (rows ! j) = a" "real_address n a" by (auto dest!: map_of_SomeD)
    then show "a \<in> U" using real [of "rows ! j"] js(2) by auto
  qed
  moreover have "tags_ok U ?W \<and> view_in_range ones ?W \<and> stores_in U ?W"
  proof -
    have "tags_ok U ?W" using fit by (auto simp: tags_ok_def tags_fit_def view_tag_def)
    moreover have "view_in_range ones ?W" using range by (auto simp: view_in_range_def in_range_def)
    ultimately show ?thesis using real P(2) by (auto simp: stores_in_def)
  qed
  moreover have "tags_ok U (snd v) \<and> view_in_range ones (snd v) \<and> stores_in U (snd v)" if "v \<in> set ?above" for v
    using ok that by (simp add: memory_ok_def live)
  moreover have one: "search_ok a (live_views Ws') (m' a) \<and>
      map_option fst (doram_lookup m' Ws' a) = map_option fst (doram_lookup m Ws a)" if a: "a \<in> U" for a
  proof -
    define old where "old = find_entry a ?below (m a)"
    have s: "search_ok a ?above old" using ok a by (simp add: memory_ok_def live search_ok_append old_def)
    have L: "doram_lookup m Ws a = find_entry a ?above old" by (simp add: doram_lookup_def live find_entry_append old_def)
    have place: "case m' a of None \<Rightarrow> view_map ?W a = map_option (\<lambda>y. (fst y, 0)) old
      | Some z \<Rightarrow> view_map ?W a = None \<and> snd z = set_bit ?r 0 \<and> map_option fst old = Some (fst z)"
      unfolding m'_def old_def by (rule rebuilt_place [OF holds xs fit a _ js P(1)]) (use U a in blast)
    have alibi: "search_ok a ?above (Some z)" if "old = Some y" "snd z = 0 \<or> snd z = set_bit ?r 0" for y z
    proof (rule search_other_alibi)
      show "search_ok a ?above (Some y)" using s that(1) by simp
      have "\<not> bit (snd z) i" if "?r < i" for i using that \<open>snd z = 0 \<or> snd z = set_bit ?r 0\<close> by (auto simp: bit_simps)
      then show "\<forall>v \<in> set ?above. \<not> bit (snd z) (fst v)" by (auto simp: views_in_def)
    qed
    note fresh = fresh_not_asked [OF js(2) P(1), of ks a]
    show ?thesis
    proof (cases "m' a")
      case None
      then have W: "view_map ?W a = map_option (\<lambda>y. (fst y, 0)) old" using place by simp
      show ?thesis
      proof (cases old)
        case None
        then show ?thesis using W s fresh L \<open>m' a = None\<close> by (simp add: doram_lookup_def live')
      next
        case (Some y)
        then show ?thesis using W alibi [of y "(fst y, 0)"] fresh L None by (simp add: doram_lookup_def live')
      qed
    next
      case (Some z)
      then obtain y where "old = Some y" "fst y = fst z" "view_map ?W a = None" "snd z = set_bit ?r 0" using place by auto
      then show ?thesis using alibi [of y z] fresh L Some by (simp add: doram_lookup_def live')
    qed
  qed
  ultimately show "memory_ok ones U m' Ws'" by (auto simp: memory_ok_def live')
  show "\<forall>a \<in> U. map_option fst (doram_lookup m' Ws' a) = map_option fst (doram_lookup m Ws a)" using one by blast
qed

section \<open>The rebuild\<close>

text \<open>The slots the build gave to the stash.\<close>

lemma stash_slots_built:
  assumes "oht_holds P ks xs ys J ({..<oh_total_size P} - J) 0 T"
  shows "slots_ok P (stash_slots (T p))"
proof -
  let ?n = "oh_total_size P" and ?live = "{..<oh_total_size P} - J"
  obtain bpos lp table where lay: "table_layout P ks xs J bpos lp table" and st: "table_state P xs ys bpos lp table ?live 0 T"
    using assms unfolding oht_holds_def by blast
  let ?slot = "\<lambda>j. dest lp (bpos j)"
  have bij: "bij_betw ?slot {..<?n} {..<?n}" by (rule slot_bij [OF lay])
  then have "card (?slot ` ?live) = card ?live" by (intro card_image) (auto simp: bij_betw_def inj_on_def)
  moreover have "?slot ` ?live \<subseteq> {..<?n}" using bij by (auto simp: bij_betw_def)
  moreover have "card ?live + oh_stash_size P = ?n" using assms by (simp add: oht_holds_def)
  ultimately have "card ({..<?n} - ?slot ` ?live) = oh_stash_size P" by (subst card_Diff_subset) (auto intro: finite_subset)
  moreover have "stash_slots (T p) = filter (\<lambda>r. r \<notin> ?slot ` ?live) [0..<?n]"
    unfolding stash_slots_def table_stateD(3) [OF st] by (auto intro: filter_cong)
  moreover have "length (filter (\<lambda>r. r \<notin> ?slot ` ?live) [0..<?n]) = card ({..<?n} - ?slot ` ?live)"
    by (subst distinct_card [symmetric]) (auto intro: arg_cong [where f = card])
  ultimately show ?thesis by (simp add: slots_ok_def)
qed

lemma delete_tables_ok:
  "r \<le> length levels \<Longrightarrow> foldE delete_table [0..<r] levels = Inr (replicate r None @ drop r levels)"
proof (induction r)
  case (Suc r)
  have "delete_table r (replicate r None @ drop r levels) = Inr ((replicate r None @ drop r levels)[r := None])"
    using Suc.prems by (simp add: delete_table_def)
  then have "foldE delete_table [0..<Suc r] levels = Inr ((replicate r None @ drop r levels)[r := None])"
    using Suc by (simp add: foldE_append)
  also have "(replicate r None @ drop r levels)[r := None] = replicate (Suc r) None @ drop (Suc r) levels"
    using Suc.prems Cons_nth_drop_Suc [of r levels, symmetric] by (simp add: list_update_append replicate_app_Cons_same)
  finally show ?case .
qed simp

text \<open>The tables after the old ones are deleted and the new one is stored.\<close>

definition stored_levels :: "nat \<Rightarrow> 'v::len live_level \<Rightarrow> 'v live_level option list \<Rightarrow> 'v live_level option list" where
  "stored_levels r lv levels = map (\<lambda>i. if i < r then None else if i = r then Some lv else levels ! i) [0..<length levels]"

lemma stored_levels_run:
  assumes "r < length levels"
  shows "\<exists>levels'. (if del then delete_table r (replicate r None @ drop r levels) else Inr (replicate r None @ drop r levels)) = Inr levels' \<and>
    setE levels' r (Some lv) = Inr (stored_levels r lv levels)"
proof -
  have "list_update (replicate r None @ drop r levels) r (Some lv) = stored_levels r lv levels"
    using assms by (auto simp: stored_levels_def nth_append nth_list_update intro!: nth_equalityI)
  then show ?thesis using assms by (cases del) (simp_all add: delete_table_def)
qed

lemma stored_levels_hold:
  assumes "levels_hold levels Ws" and "level_holds lv W"
  shows "levels_hold (stored_levels r lv levels) (rebuilt_views r W Ws)"
  using assms list_all2_nthD [OF assms(1) [unfolded levels_hold_def]]
  by (auto simp: levels_hold_def list_all2_conv_all_nth stored_levels_def rebuilt_views_def dest: list_all2_lengthD)

lemma rebuilt_in_step:
  assumes step: "in_step st D Ws" and len: "length Ws = num_levels (sch_config st)"
    and t: "lt_params t = P" "lt_query_count t = 0" "oh_log_address_space_size P = log_address_space_size (sch_config st)"
    and C: "sc_num_stored C = stash_size (sch_config st)" "sc_length C = sch_length st"
      "sc_log_address_space_size C = log_address_space_size (sch_config st)"
  shows "in_step (rebuilt st t) \<lparr>dt_levels = levels, dt_speed_cache = C, dt_packed_query_key = key\<rparr>
    (rebuilt_views (rebuild_level st) (fresh_view P ks rows js) Ws)"
proof -
  let ?R = "\<lambda>t W. lt_params t = vw_params W \<and> lt_query_count t = vw_count W \<and>
      oh_log_address_space_size (vw_params W) = log_address_space_size (sch_config st)"
  have "list_all2 (rel_option ?R) (sch_levels st) Ws" using step by (simp add: in_step_def)
  then have "rel_option ?R (sch_levels st ! i) (Ws ! i)" if "i < length Ws" for i
    using that by (auto dest: list_all2_nthD2)
  then have "list_all2 (rel_option ?R) (sch_levels (rebuilt st t)) (rebuilt_views (rebuild_level st) (fresh_view P ks rows js) Ws)"
    using t len by (auto simp: list_all2_conv_all_nth rebuilt_def clear_keys_def rebuilt_views_def)
  moreover have "sch_config (rebuilt st t) = sch_config st" "sch_num_stored (rebuilt st t) = stash_size (sch_config st)"
    "sch_length (rebuilt st t) = sch_length st" by (simp_all add: rebuilt_def clear_keys_def)
  ultimately show ?thesis using C unfolding in_step_def by simp
qed

lemma rebuild_tables_ok:
  fixes V :: "'v::len value_ops"
  assumes ready: "rebuild_ready ones U st D m Ws"
    and ops: "arith_ok A" "doram_value V blk ones" "0 < num_blocks V" "and_protocol and_vec True"
    and env: "online net" "correlated rng_reveal" "correlated rng_rows" "correlated rng" "never_rejected rng (2 ^ 32)"
      "correlated rng_build" "never_rejected rng_build (2 ^ 32)"
    and bottom: "rebuild_level st = num_levels (sch_config st) - 1 \<longrightarrow> log_address_space_size (sch_config st) \<le> 30"
    and space: "card U \<le> 2 ^ log_address_space_size (sch_config st)"
    and init: "had_initial_bottom_level st \<longrightarrow> card U = 2 ^ log_address_space_size (sch_config st) \<and> (\<forall>a \<in> U. doram_lookup m Ws a \<noteq> None)"
    and key: "shared_list key ks" "length ks = 10" and gen: "\<And>i. gen i \<le> i"
    and fit: "\<And>X Y xs l. rebuild_rows A V net rng rng_reveal rng_rows and_vec st D = Inr (X, Y) \<Longrightarrow> shared_list X xs \<Longrightarrow>
      column_length (sch_config st) (rebuild_level st) (rebuilt_digit st) = Inr l \<Longrightarrow> tags_fit U ks l (stash_size (sch_config st)) xs"
  shows "\<exists>st' D' m' Ws'. rebuild_tables A V net rng rng_reveal rng_rows rng_build gen and_vec key st D = Inr (st', D') \<and>
    (\<exists>d. dr_rebuild d st = Inr st') \<and> schedule_ok st' \<and> in_step st' D' Ws' \<and> sch_num_stored st' < sch_length st' \<and>
    doram_holds ones D' m' Ws' \<and> memory_ok ones U m' Ws' \<and>
    (\<forall>a \<in> U. map_option fst (doram_lookup m' Ws' a) = map_option fst (doram_lookup m Ws a))"
proof -
  let ?c = "sch_config st" and ?r = "rebuild_level st" and ?b = "rebuilt_digit st" and ?n = "log_address_space_size (sch_config st)"
  have ok: "schedule_ok st" and full: "sch_num_stored st = sch_length st" and step: "in_step st D Ws"
    and holds: "levels_hold (dt_levels D) Ws" and mem: "memory_ok ones U m Ws" and U: "\<forall>a \<in> U. real_address ?n a"
    using ready by (simp_all add: rebuild_ready_def doram_holds_def)
  note len = ready_lengths [OF ready] and valid = ready_valid [OF ready] and r = rebuild_level_props(1) [OF ok]
  note b = rebuilt_digit_bounds [OF ok]
  have cache: "cache_new st = Inr (st\<lparr>sch_length := cache_of ?c, sch_num_stored := 0\<rparr>)" "sch_length st = cache_of ?c"
    using speed_cache_size_ok [OF valid] ok by (simp_all add: cache_new_def cache_of_def schedule_ok_def Let_def)
  obtain X Y rows where R: "rebuild_rows A V net rng rng_reveal rng_rows and_vec st D = Inr (X, Y)"
    "shared_list X (map fst rows)" "shared_records Y (map snd rows)" "holds_rows U ?n (rebuilt_value st m Ws) rows"
    "in_range ones rows" "distinct (map fst rows)" "length rows = level_size ?c ?r ?b"
    using rebuild_rows_ok [OF ready ops env(1-5) bottom space init] by blast
  have build: "\<exists>lv js. new_table V net rng_build gen key P X Y = Inr lv \<and> level_holds lv (fresh_view P ks rows js) \<and>
      distinct js \<and> set js \<subseteq> {..<length rows} \<and> length js = stash_size ?c \<and>
      shared_list (\<lambda>p. stash_xs (lv_table lv p)) (map ((!) (map fst rows)) js) \<and>
      shared_records (\<lambda>p. stash_ys (lv_table lv p)) (map ((!) (map snd rows)) js)" if P: "level_params ?c ?r ?b P" for P
  proof -
    have P': "level_ok ?c ?r ?b P" "new_params_ok ?c ?r ?b P" using P by (simp_all add: level_params_def)
    have "tags_fit U ks (oh_log_single_col_len P) (stash_size ?c) (map fst rows)"
      using fit [OF R(1,2)] P'(2) by (simp add: new_params_ok_def)
    from new_table_ok [OF ops(2,3) R(2,3) key valid r P' R(7) b(3,2) R(6) this gen env(1,6,7)] show ?thesis .
  qed
  let ?d = "table_data V net rng_build gen key X Y"
  have wf: "builds_wf ?d ?c ?r ?b"
    unfolding builds_wf_def
  proof (intro allI impI)
    fix P slots assume P: "level_params ?c ?r ?b P" "rd_build ?d P = Inr slots"
    obtain lv js where "new_table V net rng_build gen key P X Y = Inr lv" "level_holds lv (fresh_view P ks rows js)"
      using build [OF P(1)] by blast
    then show "slots_ok P slots" using P(2) stash_slots_built by (auto simp: table_data_def level_holds_def)
  qed
  have no: "\<not> level_error ?d ?c ?r ?b e" for e using build by (force simp: level_error_def table_data_def)
  obtain st2 st3 where steps: "foldE delete_level [0..<?r] (st\<lparr>sch_length := cache_of ?c, sch_num_stored := 0\<rparr>) = Inr st2"
    "(if sch_levels st ! ?r \<noteq> None then delete_level ?r st2 else Inr st2) = Inr st3"
    "settles (level_error ?d ?c ?r ?b) (\<lambda>st4. \<exists>t. sch_levels st4 ! ?r = Some t \<and> ?r < length (sch_levels st4) \<and>
      insert_stash ?r st4 = Inr (rebuilt st t) \<and> built_level st ?r ?b t) (new_ohtable_of_level ?d ?r (level_size ?c ?r ?b) st3)"
    using rebuild_steps [OF ok full wf] by blast
  then obtain st4 t where new: "new_ohtable_of_level ?d ?r (length rows) st3 = Inr st4" "sch_levels st4 ! ?r = Some t"
    "?r < length (sch_levels st4)" "insert_stash ?r st4 = Inr (rebuilt st t)" and t: "built_level st ?r ?b t"
    using no by (cases "new_ohtable_of_level ?d ?r (level_size ?c ?r ?b) st3") (auto simp: R(7))
  have "\<exists>d. dr_rebuild d st = Inr (rebuilt st t)"
  proof -
    let ?d' = "?d\<lparr>rd_reals := 2 ^ ?n\<rparr>"
    obtain lens where lens: "settles (reals_error ?d' st) (\<lambda>len. len = level_size ?c ?r ?b) lens"
      "dr_rebuild ?d' st = bindE lens (\<lambda>len. bindE (new_ohtable_of_level ?d' ?r len st3) (insert_stash ?r))"
      using dr_rebuild_run [OF ok full steps(1,2)] by blast
    have "lens = Inr (length rows)"
      using lens(1) by (cases lens) (simp_all add: reals_error_def good_reals_def R(7))
    moreover have "new_ohtable_of_level ?d' ?r (length rows) st3 = new_ohtable_of_level ?d ?r (length rows) st3"
      by (simp add: new_ohtable_of_level_def table_new_def)
    ultimately show ?thesis using lens(2) new(1,4) by auto
  qed
  moreover let ?P = "lt_params t"
  have P: "level_params ?c ?r ?b ?P" "oh_log_address_space_size ?P = ?n" "lt_query_count t = 0" "oh_num_elements ?P = length rows"
    using t by (simp_all add: built_level_def level_params_def new_params_ok_def level_ok_def level_size_def R(7))
  obtain lv js where lv: "new_table V net rng_build gen key ?P X Y = Inr lv" "level_holds lv (fresh_view ?P ks rows js)"
    "distinct js" "set js \<subseteq> {..<length rows}" "length js = stash_size ?c"
    "shared_list (\<lambda>p. stash_xs (lv_table lv p)) (map ((!) (map fst rows)) js)"
    "shared_records (\<lambda>p. stash_ys (lv_table lv p)) (map ((!) (map snd rows)) js)"
    using build [OF P(1)] by blast
  have r8: "?r < 8" using r valid by (simp add: valid_config_def)
  have room: "length js < cache_of ?c" using lv(5) stash_less_cache [OF valid] by simp
  obtain C where C: "stash_to_cache ?r lv (speed_cache_new (cache_of ?c) ?n) = Inr C" "cache_refines ones C (stash_map ?n ?r rows js)"
    "sc_num_stored C = length js" "sc_length C = cache_of ?c" "sc_log_address_space_size C = ?n"
    using stash_to_cache_ok [OF len(5) r8 lv(3,4) R(6) room R(5) lv(6,7)] by blast
  have rL: "?r < length (dt_levels D)" using r by (simp add: len)
  obtain levels' where L: "(if sch_levels st ! ?r \<noteq> None then delete_table ?r (replicate ?r None @ drop ?r (dt_levels D))
      else Inr (replicate ?r None @ drop ?r (dt_levels D))) = Inr levels'" "setE levels' ?r (Some lv) = Inr (stored_levels ?r lv (dt_levels D))"
    using stored_levels_run [OF rL] by blast
  have lens: "length (X p) = length rows" "length (Y p) = length rows" for p
    using shared_listD(1) [OF R(2)] shared_recordsD(1) [OF R(3)] by simp_all
  let ?D' = "\<lparr>dt_levels = stored_levels ?r lv (dt_levels D), dt_speed_cache = C, dt_packed_query_key = None\<rparr>"
  have c1: "sch_config (st\<lparr>sch_length := cache_of ?c, sch_num_stored := 0\<rparr>) = ?c" "sch_length (st\<lparr>sch_length := cache_of ?c, sch_num_stored := 0\<rparr>) = cache_of ?c"
    by simp_all
  have run: "rebuild_tables A V net rng rng_reveal rng_rows rng_build gen and_vec key st D = Inr (rebuilt st t, ?D')"
    unfolding rebuild_tables_def rebuild_target_eq [OF ok] bindE_simps prod.case R(1) cache(1) Let_def c1 steps(1,2)
      delete_tables_ok [OF less_imp_le [OF rL]] L(1) lens
    using new lv(1) L(2) C(1) by (simp add: everywhere_def)
  let ?Ws' = "rebuilt_views ?r (fresh_view ?P ks rows js) Ws" and ?m' = "stash_map ?n ?r rows js"
  have rW: "?r < length Ws" using r by (simp add: len)
  have fits: "tags_fit U ks (oh_log_single_col_len ?P) (stash_size ?c) (map fst rows)"
    using fit [OF R(1,2)] P(1) by (simp add: level_params_def new_params_ok_def)
  have "length rows \<le> oh_total_size ?P" by (simp add: oh_total_size_def P(4))
  note M = rebuilt_memory [OF mem U rW R(4,6,5) fits lv(3,4) this P(2)]
  have C': "sc_num_stored C = stash_size ?c" "sc_length C = sch_length st" using C(3,4) lv(5) cache(2) by simp_all
  moreover have "in_step (rebuilt st t) ?D' ?Ws'" by (rule rebuilt_in_step [OF step len(1) refl P(3,2) C' C(5)])
  moreover have "doram_holds ones ?D' ?m' ?Ws'"
    using C(2) stored_levels_hold [OF holds lv(2)] by (simp add: doram_holds_def)
  moreover have "sch_num_stored (rebuilt st t) < sch_length (rebuilt st t)"
    using room lv(5) cache(2) by (simp add: rebuilt_def clear_keys_def)
  ultimately show ?thesis using run rebuilt_ok [OF ok full t] M by blast
qed

section \<open>The property\<close>

definition tiny_config :: doram_config where
  "tiny_config = \<lparr>log_address_space_size = 3, num_levels = 2, log_speed_cache_size = 0, log_amp_factor = 3, stash_size = 0,
     config_bounds = Empirical\<rparr>"

definition tiny_full :: doram_schedule where
  "tiny_full = (schedule_of tiny_config 1 False 0)\<lparr>sch_num_stored := 1\<rparr>"

lemma tiny_full_ok: "schedule_ok tiny_full" "rebuild_level tiny_full = 0" "rebuilt_digit tiny_full = 1"
proof -
  have l: "live_keys tiny_full = []"
    by (simp add: live_keys_eq tiny_full_def schedule_of_def tiny_config_def numeral_2_eq_2)
  show "schedule_ok tiny_full"
    using l by (simp add: schedule_ok_def Let_def) (auto simp: tiny_full_def schedule_of_def tiny_config_def valid_config_def cache_of_def amp_of_def)
  show r: "rebuild_level tiny_full = 0"
    by (simp add: rebuild_level_def tiny_full_def schedule_of_def tiny_config_def amp_of_def Let_def)
  show "rebuilt_digit tiny_full = 1" by (simp add: rebuilt_digit_def r) (simp add: tiny_full_def schedule_of_def tiny_config_def)
qed

text \<open>C0: A rebuild keeps the memory: \<open>rebuild\<close> on the shares of a full cache and the levels it merges
  returns, and afterwards every address in use has the value it had before. The new table and the
  stash entries in the emptied cache stand for the merged entries, each address is in one place, no
  level was asked for an address it will be asked for again, the public state is that of the schedule,
  and the cache has room for the next access. It relies on the luck of the new key: the tags of the
  new level's rows and of the addresses in use differ and can be placed; in an initially filled
  hierarchy every address has an entry.\<close>

theorem rebuild_keeps_memory:
  fixes V :: "'v::len value_ops"
  assumes "rebuild_ready ones U st D m Ws"
    and "arith_ok A" and "doram_value V blk ones" and "0 < num_blocks V" and "and_protocol and_vec True"
    and "online net" and "correlated rng_reveal" and "correlated rng_rows" and "correlated rng" and "never_rejected rng (2 ^ 32)"
    and "correlated rng_build" and "never_rejected rng_build (2 ^ 32)"
    and "rebuild_level st = num_levels (sch_config st) - 1 \<longrightarrow> log_address_space_size (sch_config st) \<le> 30"
    and "card U \<le> 2 ^ log_address_space_size (sch_config st)"
    and "had_initial_bottom_level st \<longrightarrow> card U = 2 ^ log_address_space_size (sch_config st) \<and> (\<forall>a \<in> U. doram_lookup m Ws a \<noteq> None)"
    and "shared_list key ks" and "length ks = 10" and "\<And>i. gen i \<le> i"
    and "\<And>X Y xs l. rebuild_rows A V net rng rng_reveal rng_rows and_vec st D = Inr (X, Y) \<Longrightarrow> shared_list X xs \<Longrightarrow>
      column_length (sch_config st) (rebuild_level st) (rebuilt_digit st) = Inr l \<Longrightarrow> tags_fit U ks l (stash_size (sch_config st)) xs"
  shows "\<exists>st' D' m' Ws'. rebuild_tables A V net rng rng_reveal rng_rows rng_build gen and_vec key st D = Inr (st', D') \<and>
    (\<exists>d. dr_rebuild d st = Inr st') \<and> schedule_ok st' \<and> in_step st' D' Ws' \<and> sch_num_stored st' < sch_length st' \<and>
    doram_holds ones D' m' Ws' \<and> memory_ok ones U m' Ws' \<and>
    (\<forall>a \<in> U. map_option fst (doram_lookup m' Ws' a) = map_option fst (doram_lookup m Ws a))"
  by (rule rebuild_tables_ok [OF assms])

text \<open>One cached entry, whose address has the tag of \<open>sample_keys\<close>, is moved to the first level.\<close>

lemma tiny_tags_fit:
  "tags_fit {5} sample_keys l 0 [5]"
proof -
  have tag: "map (prf_tag sample_keys) [5] = [0x10000000000000000]" by (simp only: list.map sample_tag)
  have "placeable l 0 (map (prf_tag sample_keys) [5])"
    unfolding tag placeable_def cuckoo_placement_def
    by (intro conjI exI [of _ "{0}"] exI [of _ "\<lambda>e. h0 0x10000000000000000 l"]) simp_all
  then show ?thesis using sample_block_tag by (simp add: tags_fit_def sample_tag)
qed

lemma tiny_ready:
  "\<exists>C :: 64 speed_cache. rebuild_ready (NOT 0) {5} tiny_full \<lparr>dt_levels = [None, None], dt_speed_cache = C, dt_packed_query_key = None\<rparr>
    [5 \<mapsto> (7, 0)] [None, None]"
proof -
  have D: "shared_records (\<lambda>p. map from_value (promote_public_values p [7 :: 64 word])) [(7, 0)]"
    by (simp add: shared_records_def promote_public_values_def from_value_shared [OF shared_promote_public])
  have w: "is_writeable (speed_cache_new 1 3 :: 64 speed_cache)"
    "sc_num_stored (speed_cache_new 1 3 :: 64 speed_cache) + length [5 :: 32 word] \<le> sc_length (speed_cache_new 1 3 :: 64 speed_cache)"
    by (simp_all add: is_writeable_def speed_cache_new_def)
  obtain C :: "64 speed_cache" where C: "cache_refines (NOT 0) C (Map.empty ++ cache_map 3 (zip [5] [(7, 0)]))"
    "sc_num_stored C = 1" "sc_length C = 1" "sc_log_address_space_size C = 3"
    using cache_put_refines [OF speed_cache_new_refines [of 3 "NOT 0" 1] promote_public_values_shared [of "[5]"] D _ w]
    by (auto simp: in_range_def speed_cache_new_def)
  have m: "cache_map 3 (zip [5] [(7 :: 64 word, 0)]) = [5 \<mapsto> (7, 0)]"
    by (auto simp: cache_map_def real_address_def fun_eq_iff bit_iff_odd)
  have v: "live_views [None, None :: 64 level_view option] = []" by (simp add: live_views_def present_levels_def upt_rec)
  have "sch_levels tiny_full = [None, None]" "sch_config tiny_full = tiny_config" "sch_num_stored tiny_full = 1" "sch_length tiny_full = 1"
    by (simp_all add: tiny_full_def schedule_of_def tiny_config_def numeral_2_eq_2)
  then show ?thesis
    using C m tiny_full_ok(1)
    by (intro exI [of _ C]) (simp add: rebuild_ready_def in_step_def doram_holds_def levels_hold_def memory_ok_def v
        tiny_config_def real_address_def bit_iff_odd)
qed

lemma tiny_rows:
  fixes C :: "64 speed_cache"
  assumes ready: "rebuild_ready (NOT 0) {5} tiny_full \<lparr>dt_levels = [None, None], dt_speed_cache = C, dt_packed_query_key = None\<rparr>
      [5 \<mapsto> (7, 0)] [None, None]"
    and run: "rebuild_rows plain_arith ring_value all_online zero_rng zero_rng zero_rng (ring_and_many all_online zero_rng) tiny_full
      \<lparr>dt_levels = [None, None], dt_speed_cache = C, dt_packed_query_key = None\<rparr> = Inr (X, Y)"
    and xs: "shared_list X xs"
  shows "xs = [5]"
proof -
  have c: "sch_config tiny_full = tiny_config" "log_address_space_size tiny_config = 3" "num_levels tiny_config = 2"
      "\<not> had_initial_bottom_level tiny_full" "level_size tiny_config 0 (Suc 0) = 1"
    by (simp_all add: tiny_full_def schedule_of_def tiny_config_def level_size_def amp_of_def cache_of_def)
  have a: "and_protocol (ring_and_many all_online zero_rng) True" using ring_and.and_protocol_axioms [of all_online zero_rng] by simp
  have n: "never_rejected zero_rng (2 ^ 32)" by (rule zero_rng_never_rejected) simp
  have "0 < num_blocks (ring_value :: 64 value_ops)" by (simp add: ring_value_def)
  from rebuild_rows_ok [OF ready plain_arith_ok u64_value.doram_value_axioms this a concrete_environment(1,2,2,2) n] run
  obtain rows :: "64 row list" where R: "shared_list X (map fst rows)" "holds_rows {5} 3 (rebuilt_value tiny_full [5 \<mapsto> (7, 0)] [None, None]) rows" "length rows = 1"
    by (auto simp: tiny_full_ok c)
  have "rebuilt_value tiny_full [5 \<mapsto> (7 :: 64 word, 0)] [None, None] 5 = Some (7, 0)"
    by (simp add: rebuilt_value_def tiny_full_ok views_in_def)
  then have "(5, (7, 0)) \<in> set (filter (is_real_row 3) rows)" using R(2) unfolding holds_rows_def by blast
  then have "map fst rows = [5]" using R(3) by (auto simp: length_Suc_conv)
  then show ?thesis using shared_list_functional [OF xs R(1)] by simp
qed

theorem rebuild_keeps_memory_witness:
  "\<exists>(C :: 64 speed_cache) st' D' m' Ws'. cache_refines (NOT 0) C [5 \<mapsto> (7, 0)] \<and>
    rebuild_tables plain_arith ring_value all_online zero_rng zero_rng zero_rng zero_rng (\<lambda>i. 0) (ring_and_many all_online zero_rng)
      (\<lambda>p. promote_public_values p sample_keys) tiny_full
      \<lparr>dt_levels = [None, None], dt_speed_cache = C, dt_packed_query_key = None\<rparr> = Inr (st', D') \<and>
    doram_holds (NOT 0) D' m' Ws' \<and> map_option fst (doram_lookup m' Ws' 5) = Some 7"
proof -
  obtain C :: "64 speed_cache" where C: "rebuild_ready (NOT 0) {5} tiny_full
      \<lparr>dt_levels = [None, None], dt_speed_cache = C, dt_packed_query_key = None\<rparr> [5 \<mapsto> (7, 0)] [None, None]"
    using tiny_ready by blast
  have c: "sch_config tiny_full = tiny_config" "log_address_space_size tiny_config = 3" "num_levels tiny_config = 2"
      "\<not> had_initial_bottom_level tiny_full" "stash_size tiny_config = 0"
    by (simp_all add: tiny_full_def schedule_of_def tiny_config_def)
  have a: "and_protocol (ring_and_many all_online zero_rng) True" using ring_and.and_protocol_axioms [of all_online zero_rng] by simp
  have n: "never_rejected zero_rng (2 ^ 32)" by (rule zero_rng_never_rejected) simp
  have b: "0 < num_blocks (ring_value :: 64 value_ops)" by (simp add: ring_value_def)
  have l: "doram_lookup [5 \<mapsto> (7 :: 64 word, 0)] [None, None] 5 = Some (7, 0)"
    by (simp add: doram_lookup_def live_views_def present_levels_def upt_rec)
  have fit: "tags_fit {5} sample_keys l (stash_size (sch_config tiny_full)) xs"
    if "rebuild_rows plain_arith ring_value all_online zero_rng zero_rng zero_rng (ring_and_many all_online zero_rng) tiny_full
      \<lparr>dt_levels = [None, None], dt_speed_cache = C, dt_packed_query_key = None\<rparr> = Inr (X, Y)" "shared_list X xs" for X Y xs l
    unfolding tiny_rows [OF C that] c by (rule tiny_tags_fit)
  have h: "rebuild_level tiny_full = num_levels (sch_config tiny_full) - 1 \<longrightarrow> log_address_space_size (sch_config tiny_full) \<le> 30"
    "card {5 :: 32 word} \<le> 2 ^ log_address_space_size (sch_config tiny_full)"
    "had_initial_bottom_level tiny_full \<longrightarrow> card {5 :: 32 word} = 2 ^ log_address_space_size (sch_config tiny_full) \<and>
      (\<forall>a \<in> {5}. doram_lookup [5 \<mapsto> (7 :: 64 word, 0)] [None, None] a \<noteq> None)"
    by (simp_all add: c)
  have "\<exists>st' D' m' Ws'. rebuild_tables plain_arith ring_value all_online zero_rng zero_rng zero_rng zero_rng (\<lambda>i. 0)
      (ring_and_many all_online zero_rng) (\<lambda>p. promote_public_values p sample_keys) tiny_full
      \<lparr>dt_levels = [None, None], dt_speed_cache = C, dt_packed_query_key = None\<rparr> = Inr (st', D') \<and>
    (\<exists>d. dr_rebuild d tiny_full = Inr st') \<and> schedule_ok st' \<and> in_step st' D' Ws' \<and> sch_num_stored st' < sch_length st' \<and>
    doram_holds (NOT 0) D' m' Ws' \<and> memory_ok (NOT 0) {5} m' Ws' \<and>
    (\<forall>a \<in> {5}. map_option fst (doram_lookup m' Ws' a) = map_option fst (doram_lookup [5 \<mapsto> (7 :: 64 word, 0)] [None, None] a))"
    by (rule rebuild_keeps_memory [OF C plain_arith_ok u64_value.doram_value_axioms b a concrete_environment(1,2,2,2) n concrete_environment(2) n
      h sample_hypotheses(4,5) le0]) (rule fit)
  moreover have "cache_refines (NOT 0) C [5 \<mapsto> (7, 0)]" using C by (simp add: rebuild_ready_def doram_holds_def)
  ultimately show ?thesis using l by fastforce
qed

end
