(* ===== verification/Spec2Isabelle.thy ===== *)
theory Spec2Isabelle
  imports Array_Shuffle Cht_Correct Schedule Fused_Query Lowmc_Sliced Cht_Lookup Rebuild
begin

text \<open>
  A model of GigaDORAM-rs, a three-party distributed oblivious RAM. Three servers hold an array of
  secret-shared values; \<open>read_and_maybe_write\<close> and \<open>batch_access\<close> of \<open>crates/doram/src/lib.rs\<close> read and
  write at a secret-shared address. Recent entries are in a speed cache that is scanned linearly
  (\<open>data-structures/src/speed_cache.rs\<close>); older ones in a hierarchy of oblivious hash tables
  (\<open>ohtable.rs\<close>), each found through a cuckoo table (\<open>cht.rs\<close>) of LowMC tags
  (\<open>circuits/src/lowmc\<close>). A full cache triggers a rebuild, which merges cache and upper levels into
  a lower level, shuffled by permutations that no single party knows
  (\<open>primitives/src/array_shuffle.rs\<close>).

  \<^bold>\<open>How the program is modelled.\<close> The three parties run the same code. A protocol is a function of what
  all three hold (\<open>party \<Rightarrow> ...\<close>), and the local parts of the code are functions of one party's data. A
  result of type \<open>'a res\<close> is \<open>Inl e\<close> where the code panics or returns an error. The backends \<open>mpc_core\<close>,
  \<open>mpc_net\<close> and \<open>fancy_garbling\<close> are parameters: the network says which messages arrive, the generators
  are any function that gives neighbours the same draws (\<open>correlated\<close>), the AND of the backend meets
  the locale \<open>and_protocol\<close>, a garbled evaluation meets \<open>yao_ok\<close>. The predicates \<open>shared\<close>,
  \<open>shared_list\<close>, \<open>shared_records\<close> and \<open>two_shared\<close> say what shares open to; nearly every lemma has the
  form: the protocol succeeds, and its result is a sharing of the stated function of the inputs.

  \<^bold>\<open>The theories.\<close>
  \<^item> \<open>Prelude\<close>: errors, the \<open>?\<close> operator, indexing with panics, lemmas on lists and words.
  \<^item> \<open>Rep3\<close>, \<open>Sharing\<close> (\<open>primitives/src/types.rs\<close>, \<open>utils.rs\<close>): shares, openings, resharing, the AND.
  \<^item> \<open>Permutation\<close>, \<open>Array_Shuffle\<close> (\<open>permutation.rs\<close>, \<open>array_shuffle.rs\<close>): Fisher-Yates choices, sampling
    by rejection, the three-step shuffle of several columns; locale \<open>shuffling\<close>.
  \<^item> \<open>Value\<close>, \<open>Records\<close> (\<open>value.rs\<close>, \<open>bigintshare.rs\<close>, \<open>cast.rs\<close>): value types behind the locale
    \<open>doram_value\<close>, interpreted for 32, 64 and 128 bits and the field of bn254, and shown for any prime
    field; records with alibi bits.
  \<^item> \<open>Circuits\<close> (\<open>utils.rs\<close>, \<open>circuits/src/xy_if_xs_equal.rs\<close>, \<open>replace_if_dummy.rs\<close>): zero test,
    selection, comparison.
  \<^item> \<open>Oblivious_Sort\<close> (\<open>circuits/src/oblivious_sort.rs\<close>): the stable sort by a shared key bit, with the
    arithmetic sharing of the backend as a parameter (\<open>arith_ops\<close>) that meets \<open>arith_ok\<close>; each phase
    draws from generators of its own.
  \<^item> \<open>Lowmc_Parameters\<close>, \<open>Lowmc\<close> (\<open>circuits/src/lowmc\<close>: \<open>parameters.rs\<close>, \<open>common.rs\<close>, \<open>packed_u64.rs\<close>): the
    constant tables, the cipher on clear blocks, and its evaluation on shares.
  \<^item> \<open>Lowmc_Wires\<close>, \<open>Lowmc_Sliced\<close>, \<open>Lowmc_Lanes\<close> (\<open>bit_sliced.rs\<close>, \<open>packed_u8_lanes.rs\<close>): one wire per bit of
    the block, a word per wire holding a lane per evaluation. The locale \<open>lane_linear\<close> is the contract
    of a linear layer, met by both the table of row masks and the Four-Russians table; the AND on
    lane vectors interprets \<open>and_protocol\<close>. All versions are shown to compute \<open>lowmc_encrypt\<close>.
  \<^item> \<open>Lowmc_Fused\<close>, \<open>Fused_Query\<close> (\<open>packed_u8_lanes_with_speed_cache.rs\<close>, and its callers in
    \<open>doram/src/lib.rs\<close>): the scan of the speed cache carried along with the rounds of the cipher, the
    generators threaded from round to round; what tags and cache answer an access gets from it.
  \<^item> \<open>Cht_Build\<close>, \<open>Cuckoo_Graph\<close>, \<open>Cht_Correct\<close> (\<open>cht.rs\<close>): the depth-first search of \<open>build\<close>, its
    invariant in the locale \<open>cuckoo_graph\<close>, and what a built table represents.
  \<^item> \<open>Cht_Lookup\<close> (\<open>circuits/src/cht_lookup.rs\<close>, \<open>cht.rs\<close>): the lookup circuit over the gates of the
    locale \<open>fancy_binary\<close>, and the lookups of the two receivers.
  \<^item> \<open>Oht\<close>, \<open>Oht_Stages\<close>, \<open>Oht_Build\<close>, \<open>Oht_Query\<close>, \<open>Oht_Refine\<close> (\<open>data-structures/src/ohtable.rs\<close>): the
    oblivious hash table on shares. Building (dummies, tags, shuffles of the builder and of the
    receivers, the table of the builder), querying by tag or by the next dummy, and extraction; the
    invariant \<open>oht_holds\<close> relates the table to its entries, and \<open>Oht_Refine\<close> shows queries and extraction
    to be those of a map from tags that have not been asked for. The oblivious choice of the tag to
    look up is behind the locale \<open>cmux_protocol\<close>.
  \<^item> \<open>Speed_Cache\<close>, \<open>Cache_Map\<close> (\<open>speed_cache.rs\<close>): the cache on shares, and as a finite map.
  \<^item> \<open>Access\<close> (\<open>doram/src/lib.rs\<close>): one access on shares, through the cache and all live levels. The
    predicate \<open>doram_holds\<close> says what cache and levels store, \<open>memory_ok\<close> that every address is in one
    place and that no level will be asked twice for it; an access reads and updates the map
    \<open>doram_lookup\<close> at one address.
  \<^item> \<open>Bottom_Level\<close> (\<open>doram/src/lib.rs\<close>): the end of a rebuild into the lowest level, where dummies are
    relabelled, sorted behind the real rows and cut off.
  \<^item> \<open>Rebuild_Rows\<close>, \<open>Rebuild\<close> (\<open>doram/src/lib.rs\<close>): a whole rebuild on shares. The full cache and the
    merged levels are extracted (\<open>holds_rows\<close>: the rows stand for a map), settled, built into the table
    of the new level, and the stash goes to the emptied cache; every address keeps its value, and
    \<open>memory_ok\<close> holds again, so that accesses and rebuilds can follow each other.
  \<^item> \<open>Config\<close>, \<open>Schedule\<close> (\<open>doram/src/lib.rs\<close>, \<open>ohtable.rs\<close>): configurations and sizes with machine
    arithmetic; the state machine of levels, counters, query budgets, touched slots and keys, with its
    reachable states \<open>doram_reachable\<close> and invariant \<open>schedule_ok\<close>. What the data decides in it (the
    outcome of a build, the slots a query selects, the number of real rows) is the argument
    \<open>run_data\<close>, and the errors it can cause are \<open>data_error\<close>; \<open>settles\<close> (\<open>Prelude\<close>) says of a run that
    it returns with a property or stops with an error that is accounted for.

  \<^bold>\<open>Bounds and fuel.\<close> \<open>usize\<close> is 64 bits wide; a cuckoo column has at most \<open>2 ^ 62\<close> locations, below
  which no shift overflows. \<open>reorient\<close> follows parents to the root and has as fuel the number of
  vertices, which \<open>Cuckoo_Graph\<close> shows to be enough; \<open>batch_loop\<close> has fuel twice the number of
  operations, since a rebuild is always followed by an access; \<open>dfs_loop\<close> terminates by a measure
  (unseen edges and the stack). \<open>sample_indices\<close> may loop forever and is a partial function;
  \<open>sampling_terminates\<close> shows that it returns whenever each bound is met by some later draw.

  \<^bold>\<open>Not modelled.\<close> Of the growing operations and of a batch, the schedule and the lengths of the lists
  they move are modelled, and on shares the operations they are made of (untouched extraction,
  batched queries of cache and tables, building), but not their composition. A rebuild of the bottom
  level on shares is shown for at most 30 address bits, so that the row positions of the sort fit its
  32-bit words. The packed copy of the round
  keys that a table keeps is an argument of the query. The timers and communication counters
  (\<open>timed_network.rs\<close> and the timing structures), the benchmark binaries, the module declarations and
  the tests carry no logic of the ORAM. That the protocols reveal nothing is outside the model.
\<close>

end
